(* ===== verification/K8s_Prelude.thy ===== *)
theory K8s_Prelude
  imports Complex_Main "HOL-Library.Word" "HOL-Library.Multiset"
begin

text \<open>
  What the components share: the fragments of Go's semantics the sources rely on (fixed-width
  integers, \<open>fmt\<close> and \<open>strconv\<close> for decimal numbers, \<open>bufio.Scanner\<close>, \<open>strings.Fields\<close>,
  maps with their unspecified iteration order) and the generic lemmas about them.
  Go strings are byte strings, as HOL's \<open>string\<close> is.
\<close>

section \<open>Collections of facts\<close>

named_theorems wp \<open>weakest-precondition rules of the store operations and of the reply combinators\<close>
named_theorems keeps \<open>rules by which a handler keeps an invariant of the single entries\<close>
named_theorems reads \<open>rules by which a handler leaves the registry unchanged\<close>
named_theorems frame \<open>rules by which a handler changes only a given set of keys\<close>
named_theorems key_defs \<open>definitions of the registry key builders\<close>

section \<open>Fixed-width integers\<close>

text \<open>
  Values of Go's \<open>int32\<close> and \<open>uint16\<close> are integers; the conversions and the arithmetic that can leave
  the range are written with the wrap-around.
\<close>

definition i32 :: "int \<Rightarrow> int" where
  "i32 x = (x + 2 ^ 31) mod 2 ^ 32 - 2 ^ 31"

definition u16 :: "int \<Rightarrow> int" where
  "u16 x = x mod 2 ^ 16"

definition in_i32 :: "int \<Rightarrow> bool" where
  "in_i32 x \<longleftrightarrow> - (2 ^ 31) \<le> x \<and> x < 2 ^ 31"

lemma i32_id [simp]: "in_i32 x \<Longrightarrow> i32 x = x"
  by (simp add: i32_def in_i32_def)

lemma in_i32_i32 [simp]: "in_i32 (i32 x)"
proof -
  have "0 \<le> (x + 2 ^ 31) mod 2 ^ 32" "(x + 2 ^ 31) mod 2 ^ 32 < (2 ^ 32 :: int)"
    by simp_all
  then show ?thesis by (simp add: i32_def in_i32_def)
qed

lemma u16_id: "0 \<le> x \<Longrightarrow> x \<le> 65535 \<Longrightarrow> u16 x = x"
  by (simp add: u16_def)

section \<open>Decimal numbers\<close>

definition digit_char :: "nat \<Rightarrow> char" where
  "digit_char d = char_of (48 + d)"

text \<open>\<open>fmt.Sprintf("%d", n)\<close> for a non-negative and for any integer.\<close>

fun dec :: "nat \<Rightarrow> string" where
  "dec n = (if n < 10 then [digit_char n] else dec (n div 10) @ [digit_char (n mod 10)])"

declare dec.simps [simp del]

definition dec_int :: "int \<Rightarrow> string" where
  "dec_int i = (if i < 0 then ''-'' @ dec (nat (- i)) else dec (nat i))"

definition is_digit :: "char \<Rightarrow> bool" where
  "is_digit c \<longleftrightarrow> 48 \<le> (of_char c :: nat) \<and> (of_char c :: nat) \<le> 57"

definition digits_val :: "string \<Rightarrow> nat" where
  "digits_val s = foldl (\<lambda>a c. a * 10 + ((of_char c :: nat) - 48)) 0 s"

text \<open>The blanks that \<open>fmt\<close> skips before a number (a newline is an error there) and the optional sign.\<close>

definition is_blank :: "char \<Rightarrow> bool" where
  "is_blank c \<longleftrightarrow> (of_char c :: nat) \<in> {9, 11, 12, 13, 32}"

fun sign_of :: "string \<Rightarrow> bool \<times> string" where
  "sign_of [] = (False, [])"
| "sign_of (c # cs) = (if c = CHR ''-'' then (True, cs)
     else if c = CHR ''+'' then (False, cs) else (False, c # cs))"

definition in_i64 :: "int \<Rightarrow> bool" where
  "in_i64 v \<longleftrightarrow> - (2 ^ 63) \<le> v \<and> v < 2 ^ 63"

text \<open>The verb \<open>%d\<close> of \<open>fmt.Sscanf\<close> at the head of an input: what follows the digits is not looked at.\<close>

definition scan_d :: "string \<Rightarrow> int option" where
  "scan_d s = (case sign_of (dropWhile is_blank s) of (neg, r) \<Rightarrow>
     (let ds = takeWhile is_digit r; v = (if neg then - int (digits_val ds) else int (digits_val ds))
      in if ds = [] then None else if in_i64 v then Some v else None))"

text \<open>\<open>fmt.Sscanf(s, prefix + "%d", &n)\<close> for a prefix without blanks and verbs.\<close>

fun sscanf_prefix_d :: "string \<Rightarrow> string \<Rightarrow> int option" where
  "sscanf_prefix_d [] s = scan_d s"
| "sscanf_prefix_d (p # ps) [] = None"
| "sscanf_prefix_d (p # ps) (c # cs) = (if p = c then sscanf_prefix_d ps cs else None)"

text \<open>\<open>strconv.Atoi\<close>: a sign and digits only, within 64 bits.\<close>

definition atoi :: "string \<Rightarrow> int option" where
  "atoi s = (case sign_of s of (neg, ds) \<Rightarrow>
     (let v = (if neg then - int (digits_val ds) else int (digits_val ds))
      in if ds = [] \<or> \<not> list_all is_digit ds then None else if in_i64 v then Some v else None))"

lemma of_char_digit: "d < 10 \<Longrightarrow> (of_char (digit_char d) :: nat) = 48 + d"
  by (simp add: digit_char_def of_char_of)

lemma is_digit_digit_char: "d < 10 \<Longrightarrow> is_digit (digit_char d)"
  by (simp add: is_digit_def of_char_digit)

lemma dec_digits: "list_all is_digit (dec n)"
proof (induction n rule: dec.induct)
  case (1 n)
  then show ?case
    by (simp add: dec.simps [of n] is_digit_digit_char)
qed

lemma dec_nonempty [simp]: "dec n \<noteq> []"
  by (subst dec.simps) simp

lemma digits_val_append:
  "digits_val (s @ [c]) = digits_val s * 10 + ((of_char c :: nat) - 48)"
  by (simp add: digits_val_def)

lemma digits_val_dec [simp]: "digits_val (dec n) = n"
proof (induction n rule: dec.induct)
  case (1 n)
  show ?case
  proof (cases "n < 10")
    case True
    then show ?thesis
      by (subst dec.simps) (simp add: digits_val_def of_char_digit)
  next
    case False
    then have "digits_val (dec n) = digits_val (dec (n div 10)) * 10 + n mod 10"
      by (subst dec.simps) (simp add: digits_val_append of_char_digit)
    with False 1 show ?thesis by simp
  qed
qed

lemma dec_inj: "dec m = dec n \<longleftrightarrow> m = n"
  by (metis digits_val_dec)

lemma dec_head:
  obtains c cs where "dec n = c # cs" "is_digit c"
  using dec_digits [of n] by (cases "dec n") auto

lemma takeWhile_list_all: "list_all P xs \<Longrightarrow> takeWhile P xs = xs"
  by (induction xs) auto

lemma sign_of_digits: "list_all is_digit ds \<Longrightarrow> sign_of ds = (False, ds)"
  by (cases ds) (auto simp: is_digit_def)

lemma dropWhile_blank_digits: "list_all is_digit ds \<Longrightarrow> dropWhile is_blank ds = ds"
  by (cases ds) (auto simp: is_digit_def is_blank_def)

lemma scan_d_dec: "n < 2 ^ 63 \<Longrightarrow> scan_d (dec n) = Some (int n)"
  using dec_digits [of n]
  by (simp add: scan_d_def dropWhile_blank_digits sign_of_digits takeWhile_list_all in_i64_def)

lemma sscanf_prefix_d_append [simp]: "sscanf_prefix_d p (p @ s) = scan_d s"
  by (induction p) auto

lemma atoi_dec: "n < 2 ^ 63 \<Longrightarrow> atoi (dec n) = Some (int n)"
  using dec_digits [of n] by (simp add: atoi_def sign_of_digits in_i64_def)

section \<open>Lines and fields\<close>

text \<open>
  \<open>bufio.Scanner\<close> with its default split function: the tokens are the lines without the newline and
  without one trailing carriage return, and an empty last line is no token. The scanner's limit of
  64 KiB per line is not modelled.
\<close>

definition newline :: char where
  "newline = char_of (10 :: nat)"

definition carriage_return :: char where
  "carriage_return = char_of (13 :: nat)"

definition drop_cr :: "string \<Rightarrow> string" where
  "drop_cr l = (if l \<noteq> [] \<and> last l = carriage_return then butlast l else l)"

fun raw_lines :: "string \<Rightarrow> string \<Rightarrow> string list" where
  "raw_lines acc [] = (if acc = [] then [] else [rev acc])"
| "raw_lines acc (c # cs) =
     (if c = newline then rev acc # raw_lines [] cs else raw_lines (c # acc) cs)"

definition scan_lines :: "string \<Rightarrow> string list" where
  "scan_lines s = map drop_cr (raw_lines [] s)"

text \<open>Writing lines back, each with its newline.\<close>

definition unlines :: "string list \<Rightarrow> string" where
  "unlines ls = concat (map (\<lambda>l. l @ [newline]) ls)"

definition clean_line :: "string \<Rightarrow> bool" where
  "clean_line l \<longleftrightarrow> newline \<notin> set l \<and> (l = [] \<or> last l \<noteq> carriage_return)"

lemma raw_lines_line:
  "newline \<notin> set l \<Longrightarrow> raw_lines acc (l @ newline # s) = (rev acc @ l) # raw_lines [] s"
  by (induction l arbitrary: acc) auto

lemma scan_lines_Nil [simp]: "scan_lines [] = []"
  by (simp add: scan_lines_def)

lemma scan_lines_Cons:
  "clean_line l \<Longrightarrow> scan_lines (l @ newline # s) = l # scan_lines s"
  by (auto simp: scan_lines_def raw_lines_line clean_line_def drop_cr_def)

lemma scan_lines_unlines:
  "list_all clean_line ls \<Longrightarrow> scan_lines (unlines ls) = ls"
  by (induction ls) (auto simp: unlines_def scan_lines_Cons)

lemma unlines_append [simp]: "unlines (xs @ ys) = unlines xs @ unlines ys"
  by (simp add: unlines_def)

lemma unlines_Nil [simp]: "unlines [] = []"
  by (simp add: unlines_def)

lemma unlines_Cons: "unlines (l # ls) = l @ newline # unlines ls"
  by (simp add: unlines_def)

section \<open>Maps\<close>

text \<open>
  A Go map is the list of its entries in the order in which a \<open>range\<close> loop visits them; lookups are
  \<open>map_of\<close>. Reading a missing key of a map of strings gives the empty string.
\<close>

type_synonym ('k, 'v) gomap = "('k \<times> 'v) list"

definition mget :: "('k, string) gomap \<Rightarrow> 'k \<Rightarrow> string" where
  "mget m k = (case map_of m k of None \<Rightarrow> '''' | Some v \<Rightarrow> v)"

text \<open>Assignment \<open>m[k] = v\<close> keeps the place of a key that is there and adds a new key at the end.\<close>

fun mput :: "'k \<Rightarrow> 'v \<Rightarrow> ('k, 'v) gomap \<Rightarrow> ('k, 'v) gomap" where
  "mput k v [] = [(k, v)]"
| "mput k v ((k', v') # m) = (if k' = k then (k, v) # m else (k', v') # mput k v m)"

definition mdel :: "'k \<Rightarrow> ('k, 'v) gomap \<Rightarrow> ('k, 'v) gomap" where
  "mdel k m = filter (\<lambda>e. fst e \<noteq> k) m"

abbreviation mkeys :: "('k, 'v) gomap \<Rightarrow> 'k set" where
  "mkeys m \<equiv> fst ` set m"

lemma map_of_mput [simp]: "map_of (mput k v m) = (map_of m)(k \<mapsto> v)"
  by (induction k v m rule: mput.induct) (auto simp: fun_eq_iff)

lemma map_of_mdel [simp]: "map_of (mdel k m) = (map_of m)(k := None)"
  by (induction m) (auto simp: mdel_def fun_eq_iff)

lemma mkeys_mput [simp]: "mkeys (mput k v m) = insert k (mkeys m)"
  by (induction k v m rule: mput.induct) auto

lemma distinct_mput [simp]: "distinct (map fst m) \<Longrightarrow> distinct (map fst (mput k v m))"
proof (induction k v m rule: mput.induct)
  case (2 k v k' v' m)
  then show ?case using mkeys_mput [of k v m] by auto
qed simp

lemma distinct_mdel [simp]: "distinct (map fst m) \<Longrightarrow> distinct (map fst (mdel k m))"
  by (simp add: mdel_def distinct_map_filter)

lemma mdel_notin: "k \<notin> mkeys m \<Longrightarrow> mdel k m = m"
  by (induction m) (auto simp: mdel_def)

lemma map_of_distinct_iff:
  "distinct (map fst m) \<Longrightarrow> map_of m k = Some v \<longleftrightarrow> (k, v) \<in> set m"
  by (simp add: map_of_eq_Some_iff)

lemma map_of_fold_mput: "map_of (fold (\<lambda>x. mput (k x) (v x)) xs m) = map_of m ++ map_of (rev (map (\<lambda>x. (k x, v x)) xs))"
  by (induction xs arbitrary: m) (auto simp: fun_eq_iff map_add_def split: option.splits)

lemma distinct_fold_mput: "distinct (map fst m) \<Longrightarrow> distinct (map fst (fold (\<lambda>x. mput (k x) (v x)) xs m))"
  by (induction xs arbitrary: m) auto

lemma mput_new: "a \<notin> mkeys m \<Longrightarrow> mput a b m = m @ [(a, b)]"
  by (induction a b m rule: mput.induct) auto

lemma fold_mput_new:
  assumes "distinct (map k xs)" "\<forall>x\<in>set xs. k x \<notin> mkeys m"
  shows "fold (\<lambda>x. mput (k x) (v x)) xs m = m @ map (\<lambda>x. (k x, v x)) xs"
  using assms
proof (induction xs arbitrary: m)
  case (Cons x xs)
  then have "fold (\<lambda>x. mput (k x) (v x)) xs (m @ [(k x, v x)]) = (m @ [(k x, v x)]) @ map (\<lambda>x. (k x, v x)) xs"
    by (intro Cons.IH) (auto, metis imageI)
  then show ?case using Cons.prems(2) by (simp add: mput_new)
qed simp

lemma set_mput: "distinct (map fst m) \<Longrightarrow> set (mput k v m) = insert (k, v) {e \<in> set m. fst e \<noteq> k}"
proof (induction k v m rule: mput.induct)
  case (2 k v k' v' m)
  show ?case
  proof (cases "k' = k")
    case True
    with 2(2) have "k \<notin> mkeys m" by simp
    then have "{e \<in> set m. fst e \<noteq> k} = set m" by force
    moreover have "{e \<in> set ((k', v') # m). fst e \<noteq> k} = {e \<in> set m. fst e \<noteq> k}" using True by auto
    ultimately show ?thesis using True by simp
  next
    case False
    then have "{e \<in> set ((k', v') # m). fst e \<noteq> k} = insert (k', v') {e \<in> set m. fst e \<noteq> k}" by auto
    with False 2 show ?thesis by (simp add: insert_commute)
  qed
qed simp

lemma set_mput_subset: "set (mput k v m) \<subseteq> insert (k, v) (set m)"
  by (induction k v m rule: mput.induct) auto

lemma map_of_missing: "(\<And>v. (k, v) \<notin> set xs) \<Longrightarrow> map_of xs k = None"
  by (auto simp: map_of_eq_None_iff)

lemma map_of_unique: "(k, v) \<in> set xs \<Longrightarrow> \<forall>v'. (k, v') \<in> set xs \<longrightarrow> v' = v \<Longrightarrow> map_of xs k = Some v"
  by (metis map_of_SomeD weak_map_of_SomeI)

section \<open>Lists\<close>

lemma find_distinct: "distinct (map g xs) \<Longrightarrow> x \<in> set xs \<Longrightarrow> find (\<lambda>y. g x = g y) xs = Some x"
  by (induction xs) (auto, metis imageI)

lemma list_all_filter [simp]: "list_all P xs \<Longrightarrow> list_all P (filter Q xs)"
  by (auto simp: list_all_iff)

text \<open>A prefix test, as etcd's range requests with \<open>WithPrefix\<close> use it.\<close>

fun has_prefix :: "string \<Rightarrow> string \<Rightarrow> bool" where
  "has_prefix [] s = True"
| "has_prefix (p # ps) [] = False"
| "has_prefix (p # ps) (c # cs) = (p = c \<and> has_prefix ps cs)"

lemma has_prefix_append [simp]: "has_prefix p (p @ s)"
  by (induction p) auto

lemma has_prefix_iff: "has_prefix p s \<longleftrightarrow> (\<exists>r. s = p @ r)"
  by (induction p s rule: has_prefix.induct) auto

lemma has_prefix_same_append [simp]: "has_prefix (p @ q) (p @ s) = has_prefix q s"
  by (induction p) auto

end
