(* ===== verification/Api_Types.thy ===== *)
theory Api_Types
  imports K8s_Prelude
begin

text \<open>
  The API objects of \<open>pkg/api/v1\<close> and the two naming functions over their metadata.
  A struct is a record, a pointer or a map whose being \<open>nil\<close> the code looks at is an \<open>option\<close>, a
  named string type with constants is \<open>string\<close> with one definition per constant (requests carry
  any string there), \<open>int32\<close> is \<open>int\<close>, \<open>float32\<close> is \<open>rat\<close> and a time stamp is its number of
  nanoseconds. Slices and maps whose being \<open>nil\<close> or empty makes no difference are lists.
\<close>

type_synonym UID = string
type_synonym time = int
type_synonym float32 = rat
type_synonym PodPhase = string
type_synonym ResourceName = string
type_synonym ResourceList = "(ResourceName, string) gomap"
type_synonym RestartPolicy = string
type_synonym Protocol = string
type_synonym ServiceType = string
type_synonym RollingUpdatePhase = string

definition PodPending :: PodPhase where [simp]: "PodPending = ''Pending''"
definition PodRunning :: PodPhase where [simp]: "PodRunning = ''Running''"
definition PodSucceeded :: PodPhase where [simp]: "PodSucceeded = ''Succeeded''"
definition PodFailed :: PodPhase where [simp]: "PodFailed = ''Failed''"

definition ResourceCPU :: ResourceName where [simp]: "ResourceCPU = ''cpu''"
definition ResourceMemory :: ResourceName where [simp]: "ResourceMemory = ''memory''"

definition RestartPolicyAlways :: RestartPolicy where [simp]: "RestartPolicyAlways = ''Always''"
definition RestartPolicyOnFailure :: RestartPolicy where
  [simp]: "RestartPolicyOnFailure = ''OnFailure''"
definition RestartPolicyNever :: RestartPolicy where [simp]: "RestartPolicyNever = ''Never''"

definition ScalerTypeHPA :: string where [simp]: "ScalerTypeHPA = ''HorizontalPodAutoscaler''"

definition ServiceTypeClusterIP :: ServiceType where [simp]: "ServiceTypeClusterIP = ''ClusterIP''"
definition ServiceTypeNodePort :: ServiceType where [simp]: "ServiceTypeNodePort = ''NodePort''"

definition NodePortMin :: int where [simp]: "NodePortMin = 30000"
definition NodePortMax :: int where [simp]: "NodePortMax = 32767"
definition PortMin :: int where [simp]: "PortMin = 1"
definition PortMax :: int where [simp]: "PortMax = 65535"

definition ProtocolTCP :: Protocol where [simp]: "ProtocolTCP = ''tcp''"
definition ProtocolUDP :: Protocol where [simp]: "ProtocolUDP = ''udp''"

definition RollingUpdatePending :: RollingUpdatePhase where [simp]: "RollingUpdatePending = ''Pending''"
definition RollingUpdateRunning :: RollingUpdatePhase where [simp]: "RollingUpdateRunning = ''Running''"
definition RollingUpdateFinished :: RollingUpdatePhase where
  [simp]: "RollingUpdateFinished = ''Finished''"

definition UtilizationMetricType :: string where [simp]: "UtilizationMetricType = ''Utilization''"
definition AverageValueMetricType :: string where [simp]: "AverageValueMetricType = ''AverageValue''"
definition PodsScalingPolicy :: string where [simp]: "PodsScalingPolicy = ''Pods''"
definition PercentScalingPolicy :: string where [simp]: "PercentScalingPolicy = ''Percent''"

section \<open>Metadata\<close>

record TypeMeta =
  Kind :: string
  APIVersion :: string

record ObjectMeta =
  Name :: string
  Namespace :: string
  MetaUID :: UID
  CreationTimestamp :: time
  Labels :: "(string, string) gomap option"

section \<open>Pods\<close>

text \<open>A host path is its only field, an empty directory has none.\<close>

record VolumeSource =
  HostPath :: "string option"
  EmptyDir :: bool

record Volume =
  Volume_Name :: string
  Volume_Source :: VolumeSource

record ContainerPort =
  ContainerPort_Port :: int
  ContainerPort_Protocol :: Protocol

record ResourceRequirements =
  Limits :: ResourceList
  Requests :: ResourceList

record VolumeMount =
  VolumeMount_Name :: string
  MountPath :: string

record SecurityContext =
  Privileged :: "bool option"
  RunAsUser :: "int option"

record Container =
  Container_Name :: string
  Container_Image :: string
  Command :: "string list"
  Container_Ports :: "ContainerPort list"
  Resources :: ResourceRequirements
  VolumeMounts :: "VolumeMount list"
  Container_SecurityContext :: "SecurityContext option"

record PodSpec =
  Volumes :: "Volume list"
  Containers :: "Container list"
  InitContainers :: "Container list"
  Spec_RestartPolicy :: RestartPolicy

record PodStatus =
  Phase :: PodPhase
  PodIP :: string

record Pod =
  Pod_Type :: TypeMeta
  Pod_Meta :: ObjectMeta
  Pod_Spec :: PodSpec
  Pod_Status :: PodStatus

section \<open>Metrics and scalers\<close>

record PodRawMetricsItem =
  Item_TimeStamp :: time
  CPUUsage :: float32
  MemoryUsage :: float32

record PodRawMetrics =
  Metrics_UID :: UID
  ContainerInfo :: "(string, PodRawMetricsItem list) gomap option"

record CrossVersionObjectReference =
  Ref_Kind :: string
  Ref_Name :: string
  Ref_APIVersion :: string

record MetricTarget =
  Target_Type :: string
  AverageValue :: float32
  AverageUtilization :: float32
  UpperThreshold :: float32
  LowerThreshold :: float32

record ResourceMetricSource =
  Metric_Name :: ResourceName
  Metric_Target :: MetricTarget

record HPAScalingPolicy =
  Policy_Type :: string
  Policy_Value :: int
  PeriodSeconds :: int

record HorizontalPodAutoscalerBehavior =
  ScaleUp :: "HPAScalingPolicy option"
  ScaleDown :: "HPAScalingPolicy option"

record HorizontalPodAutoscalerSpec =
  ScaleTargetRef :: CrossVersionObjectReference
  MinReplicas :: int
  MaxReplicas :: int
  ScaleWindowSeconds :: int
  HPA_Metrics :: "ResourceMetricSource list"
  Behavior :: HorizontalPodAutoscalerBehavior

record HorizontalPodAutoscaler =
  HPA_Type :: TypeMeta
  HPA_Meta :: ObjectMeta
  HPA_Spec :: HorizontalPodAutoscalerSpec

section \<open>Services, DNS and nodes\<close>

record ServicePort =
  ServicePort_Name :: string
  ServicePort_Protocol :: Protocol
  Port :: int
  TargetPort :: int
  NodePort :: int

record ServiceSpec =
  Service_Type :: ServiceType
  Service_Ports :: "ServicePort list"
  Selector :: "(string, string) gomap"
  ClusterIP :: string

record Service =
  Svc_Type :: TypeMeta
  Svc_Meta :: ObjectMeta
  Svc_Spec :: ServiceSpec

record DNSServiceBackend =
  Backend_Name :: string
  Backend_Port :: int

record DNSPath =
  Path :: string
  Backend_Service :: DNSServiceBackend

record DNSRule =
  Host :: string
  Paths :: "DNSPath list"

record DNS =
  DNS_Type :: TypeMeta
  DNS_Meta :: ObjectMeta
  Rules :: "DNSRule list"

record Node =
  Node_Type :: TypeMeta
  Node_Meta :: ObjectMeta
  Address :: string

section \<open>Replica sets\<close>

record LabelSelector =
  MatchLabels :: "(string, string) gomap option"

record PodTemplateSpec =
  Template_Meta :: ObjectMeta
  Template_Spec :: PodSpec

record ReplicaSetSpec =
  Replicas :: int
  RS_Selector :: "LabelSelector option"
  Template :: PodTemplateSpec

record ReplicaSet =
  RS_Type :: TypeMeta
  RS_Meta :: ObjectMeta
  RS_Spec :: ReplicaSetSpec

section \<open>The service mesh\<close>

record SingleEndpoint =
  Endpoint_IP :: string
  Endpoint_TargetPort :: int

record SidecarEndpoints =
  Weight :: "int option"
  URL :: "string option"
  Endpoints :: "SingleEndpoint list"

type_synonym SidecarMapping = "(string, SidecarEndpoints list) gomap"
type_synonym SidecarServiceNameMapping = "(string, string) gomap"

record VirtualServiceSubset =
  VSS_Name :: string
  VSS_Weight :: "int option"
  VSS_URL :: "string option"

record VirtualServiceSpec =
  VS_ServiceRef :: string
  VS_Port :: int
  Subsets :: "VirtualServiceSubset list"

record VirtualService =
  VS_Type :: TypeMeta
  VS_Meta :: ObjectMeta
  VS_Spec :: VirtualServiceSpec

record Subset =
  Subset_Type :: TypeMeta
  Subset_Meta :: ObjectMeta
  Subset_Pods :: "string list"

record RollingUpdateSpec =
  RU_ServiceRef :: string
  RU_Port :: int
  MinimumAlive :: int
  Interval :: int
  NewPodSpec :: PodSpec

record RollingUpdate =
  RU_Type :: TypeMeta
  RU_Meta :: ObjectMeta
  RU_Spec :: RollingUpdateSpec
  RU_Phase :: RollingUpdatePhase

section \<open>Endpoints of a service\<close>

record EndpointPort =
  EP_Port :: int
  EP_Protocol :: Protocol

record Endpoint =
  EP_IP :: string
  EP_Ports :: "EndpointPort list"

record ServiceAndEndpoints =
  SE_Service :: Service
  EndpointsMapWithPodName :: "(string, Endpoint) gomap"

section \<open>Zero values\<close>

text \<open>What \<open>var x v1.T\<close> holds: several handlers go on with it when \<open>json.Unmarshal\<close> fails.\<close>

definition zero_TypeMeta :: TypeMeta where
  "zero_TypeMeta = \<lparr>Kind = '''', APIVersion = ''''\<rparr>"

definition zero_ObjectMeta :: ObjectMeta where
  "zero_ObjectMeta = \<lparr>Name = '''', Namespace = '''', MetaUID = '''', CreationTimestamp = 0, Labels = None\<rparr>"

definition zero_PodSpec :: PodSpec where
  "zero_PodSpec = \<lparr>Volumes = [], Containers = [], InitContainers = [], Spec_RestartPolicy = ''''\<rparr>"

definition zero_PodStatus :: PodStatus where
  "zero_PodStatus = \<lparr>Phase = '''', PodIP = ''''\<rparr>"

definition zero_Pod :: Pod where
  "zero_Pod = \<lparr>Pod_Type = zero_TypeMeta, Pod_Meta = zero_ObjectMeta, Pod_Spec = zero_PodSpec,
     Pod_Status = zero_PodStatus\<rparr>"

definition zero_Service :: Service where
  "zero_Service = \<lparr>Svc_Type = zero_TypeMeta, Svc_Meta = zero_ObjectMeta,
     Svc_Spec = \<lparr>Service_Type = '''', Service_Ports = [], Selector = [], ClusterIP = ''''\<rparr>\<rparr>"

definition zero_DNS :: DNS where
  "zero_DNS = \<lparr>DNS_Type = zero_TypeMeta, DNS_Meta = zero_ObjectMeta, Rules = []\<rparr>"

definition zero_Node :: Node where
  "zero_Node = \<lparr>Node_Type = zero_TypeMeta, Node_Meta = zero_ObjectMeta, Address = ''''\<rparr>"

definition zero_ReplicaSet :: ReplicaSet where
  "zero_ReplicaSet = \<lparr>RS_Type = zero_TypeMeta, RS_Meta = zero_ObjectMeta,
     RS_Spec = \<lparr>Replicas = 0, RS_Selector = None,
       Template = \<lparr>Template_Meta = zero_ObjectMeta, Template_Spec = zero_PodSpec\<rparr>\<rparr>\<rparr>"

definition zero_HorizontalPodAutoscaler :: HorizontalPodAutoscaler where
  "zero_HorizontalPodAutoscaler = \<lparr>HPA_Type = zero_TypeMeta, HPA_Meta = zero_ObjectMeta,
     HPA_Spec = \<lparr>ScaleTargetRef = \<lparr>Ref_Kind = '''', Ref_Name = '''', Ref_APIVersion = ''''\<rparr>,
       MinReplicas = 0, MaxReplicas = 0, ScaleWindowSeconds = 0, HPA_Metrics = [],
       Behavior = \<lparr>ScaleUp = None, ScaleDown = None\<rparr>\<rparr>\<rparr>"

definition zero_VirtualService :: VirtualService where
  "zero_VirtualService = \<lparr>VS_Type = zero_TypeMeta, VS_Meta = zero_ObjectMeta,
     VS_Spec = \<lparr>VS_ServiceRef = '''', VS_Port = 0, Subsets = []\<rparr>\<rparr>"

definition zero_Subset :: Subset where
  "zero_Subset = \<lparr>Subset_Type = zero_TypeMeta, Subset_Meta = zero_ObjectMeta, Subset_Pods = []\<rparr>"

definition zero_RollingUpdate :: RollingUpdate where
  "zero_RollingUpdate = \<lparr>RU_Type = zero_TypeMeta, RU_Meta = zero_ObjectMeta,
     RU_Spec = \<lparr>RU_ServiceRef = '''', RU_Port = 0, MinimumAlive = 0, Interval = 0,
       NewPodSpec = zero_PodSpec\<rparr>, RU_Phase = ''''\<rparr>"

section \<open>Names\<close>

text \<open>\<open>GetObjectFullName\<close> of \<open>pkg/utils\<close> and \<open>GetPodFullName\<close> of \<open>pkg/kubelet/utils\<close>.\<close>

definition GetObjectFullName :: "ObjectMeta \<Rightarrow> string" where
  "GetObjectFullName meta =
     (let namespace = (if Namespace meta = '''' then ''default'' else Namespace meta)
      in namespace @ ''_'' @ Name meta)"

definition GetPodFullName :: "Pod \<Rightarrow> string" where
  "GetPodFullName pod = Name (Pod_Meta pod) @ ''_'' @ Namespace (Pod_Meta pod)"

end
