(* ===== verification/Etcd_Store.thy ===== *)
theory Etcd_Store
  imports Api_Types
begin

text \<open>
  \<open>pkg/kubeapiserver/etcd/client.go\<close>: the store behind the API server. The etcd client library
  (\<open>cliv3\<close>) is not part of the repository, so its five calls are fields of the record \<open>env\<close>, over a
  state \<open>'w\<close> of the outside world that the model knows nothing about. The locale \<open>etcd_server\<close> states
  what etcd documents about them: the view of the keys after each call, where a call that returns an
  error may or may not have taken effect. \<open>reliable_etcd\<close> adds that no call fails.

  The registry holds strings and JSON documents. A document is kept as the object it encodes:
  \<open>json_Marshal\<close> builds it (dropping, as the tag \<open>omitempty\<close> does, an empty map of labels),
  \<open>json_Unmarshal_T\<close> reads it back and fails on anything else. The registry invariant proved with the
  handlers says that each key holds the type of document its prefix announces, so that no handler
  reads a document of another type. The text of a document (only its use as part of a key would need
  it, and by the same invariant nothing does so) is the parameter \<open>json_text\<close>.
\<close>

datatype document =
  Raw string
| JPod Pod
| JService Service
| JDNS DNS
| JNode Node
| JReplicaSet ReplicaSet
| JHPA HorizontalPodAutoscaler
| JVirtualService VirtualService
| JSubset Subset
| JRollingUpdate RollingUpdate
| JSidecarMapping SidecarMapping

section \<open>JSON\<close>

definition norm_map :: "('k, 'v) gomap option \<Rightarrow> ('k, 'v) gomap option" where
  "norm_map m = (if m = Some [] then None else m)"

definition norm_meta :: "ObjectMeta \<Rightarrow> ObjectMeta" where
  "norm_meta m = m\<lparr>Labels := norm_map (Labels m)\<rparr>"

definition norm_selector :: "LabelSelector \<Rightarrow> LabelSelector" where
  "norm_selector s = s\<lparr>MatchLabels := norm_map (MatchLabels s)\<rparr>"

definition norm_rs_spec :: "ReplicaSetSpec \<Rightarrow> ReplicaSetSpec" where
  "norm_rs_spec s = s\<lparr>RS_Selector := map_option norm_selector (RS_Selector s),
     Template := (Template s)\<lparr>Template_Meta := norm_meta (Template_Meta (Template s))\<rparr>\<rparr>"

text \<open>\<open>json.Marshal\<close> of the API types never fails: they hold no channel, no function and no cycle.\<close>

fun json_doc :: "document \<Rightarrow> document" where
  "json_doc (Raw s) = Raw s"
| "json_doc (JPod x) = JPod (x\<lparr>Pod_Meta := norm_meta (Pod_Meta x)\<rparr>)"
| "json_doc (JService x) = JService (x\<lparr>Svc_Meta := norm_meta (Svc_Meta x)\<rparr>)"
| "json_doc (JDNS x) = JDNS (x\<lparr>DNS_Meta := norm_meta (DNS_Meta x)\<rparr>)"
| "json_doc (JNode x) = JNode (x\<lparr>Node_Meta := norm_meta (Node_Meta x)\<rparr>)"
| "json_doc (JReplicaSet x) =
     JReplicaSet (x\<lparr>RS_Meta := norm_meta (RS_Meta x), RS_Spec := norm_rs_spec (RS_Spec x)\<rparr>)"
| "json_doc (JHPA x) = JHPA (x\<lparr>HPA_Meta := norm_meta (HPA_Meta x)\<rparr>)"
| "json_doc (JVirtualService x) = JVirtualService (x\<lparr>VS_Meta := norm_meta (VS_Meta x)\<rparr>)"
| "json_doc (JSubset x) = JSubset (x\<lparr>Subset_Meta := norm_meta (Subset_Meta x)\<rparr>)"
| "json_doc (JRollingUpdate x) = JRollingUpdate (x\<lparr>RU_Meta := norm_meta (RU_Meta x)\<rparr>)"
| "json_doc (JSidecarMapping x) = JSidecarMapping x"

type_synonym error = "string option"

definition json_Marshal :: "document \<Rightarrow> document \<times> error" where
  [simp]: "json_Marshal v = (json_doc v, None)"

definition json_error :: error where
  [simp]: "json_error = Some ''json''"

definition json_Unmarshal_Pod :: "document \<Rightarrow> Pod \<times> error" where
  "json_Unmarshal_Pod v = (case v of JPod x \<Rightarrow> (x, None) | _ \<Rightarrow> (zero_Pod, json_error))"

definition json_Unmarshal_Service :: "document \<Rightarrow> Service \<times> error" where
  "json_Unmarshal_Service v = (case v of JService x \<Rightarrow> (x, None) | _ \<Rightarrow> (zero_Service, json_error))"

definition json_Unmarshal_DNS :: "document \<Rightarrow> DNS \<times> error" where
  "json_Unmarshal_DNS v = (case v of JDNS x \<Rightarrow> (x, None) | _ \<Rightarrow> (zero_DNS, json_error))"

definition json_Unmarshal_Node :: "document \<Rightarrow> Node \<times> error" where
  "json_Unmarshal_Node v = (case v of JNode x \<Rightarrow> (x, None) | _ \<Rightarrow> (zero_Node, json_error))"

definition json_Unmarshal_ReplicaSet :: "document \<Rightarrow> ReplicaSet \<times> error" where
  "json_Unmarshal_ReplicaSet v =
     (case v of JReplicaSet x \<Rightarrow> (x, None) | _ \<Rightarrow> (zero_ReplicaSet, json_error))"

definition json_Unmarshal_HPA :: "document \<Rightarrow> HorizontalPodAutoscaler \<times> error" where
  "json_Unmarshal_HPA v =
     (case v of JHPA x \<Rightarrow> (x, None) | _ \<Rightarrow> (zero_HorizontalPodAutoscaler, json_error))"

definition json_Unmarshal_VirtualService :: "document \<Rightarrow> VirtualService \<times> error" where
  "json_Unmarshal_VirtualService v =
     (case v of JVirtualService x \<Rightarrow> (x, None) | _ \<Rightarrow> (zero_VirtualService, json_error))"

definition json_Unmarshal_Subset :: "document \<Rightarrow> Subset \<times> error" where
  "json_Unmarshal_Subset v = (case v of JSubset x \<Rightarrow> (x, None) | _ \<Rightarrow> (zero_Subset, json_error))"

definition json_Unmarshal_RollingUpdate :: "document \<Rightarrow> RollingUpdate \<times> error" where
  "json_Unmarshal_RollingUpdate v =
     (case v of JRollingUpdate x \<Rightarrow> (x, None) | _ \<Rightarrow> (zero_RollingUpdate, json_error))"

definition json_Unmarshal_SidecarMapping :: "document \<Rightarrow> SidecarMapping \<times> error" where
  "json_Unmarshal_SidecarMapping v =
     (case v of JSidecarMapping x \<Rightarrow> (x, None) | _ \<Rightarrow> ([], json_error))"

lemmas json_Unmarshal_defs = json_Unmarshal_Pod_def json_Unmarshal_Service_def json_Unmarshal_DNS_def
  json_Unmarshal_Node_def json_Unmarshal_ReplicaSet_def json_Unmarshal_HPA_def
  json_Unmarshal_VirtualService_def json_Unmarshal_Subset_def json_Unmarshal_RollingUpdate_def
  json_Unmarshal_SidecarMapping_def

lemma norm_map_idem [simp]: "norm_map (norm_map m) = norm_map m"
  by (simp add: norm_map_def)

lemma norm_meta_idem [simp]: "norm_meta (norm_meta m) = norm_meta m"
  by (simp add: norm_meta_def)

lemma norm_meta_fields [simp]:
  "Name (norm_meta m) = Name m" "Namespace (norm_meta m) = Namespace m"
  "MetaUID (norm_meta m) = MetaUID m" "CreationTimestamp (norm_meta m) = CreationTimestamp m"
  by (simp_all add: norm_meta_def)

lemma norm_rs_spec_idem [simp]: "norm_rs_spec (norm_rs_spec s) = norm_rs_spec s"
  by (cases s; cases "RS_Selector s") (simp_all add: norm_rs_spec_def norm_selector_def)

lemma json_doc_idem [simp]: "json_doc (json_doc v) = json_doc v"
  by (cases v) auto

section \<open>The store\<close>

record 'w env =
  kv_Get :: "string \<Rightarrow> 'w \<Rightarrow> (string + (string \<times> document) list) \<times> 'w"
  kv_GetPrefix :: "string \<Rightarrow> 'w \<Rightarrow> (string + (string \<times> document) list) \<times> 'w"
  kv_Put :: "string \<Rightarrow> document \<Rightarrow> 'w \<Rightarrow> error \<times> 'w"
  kv_Delete :: "string \<Rightarrow> 'w \<Rightarrow> error \<times> 'w"
  kv_DeletePrefix :: "string \<Rightarrow> 'w \<Rightarrow> error \<times> 'w"
  json_text :: "document \<Rightarrow> string"
  map_order :: "'w \<Rightarrow> (string, document) gomap \<Rightarrow> (string, document) gomap"

definition store_Get :: "'w env \<Rightarrow> string \<Rightarrow> 'w \<Rightarrow> (document \<times> error) \<times> 'w" where
  "store_Get E key w = (case kv_Get E key w of
       (Inl e, w') \<Rightarrow> ((Raw '''', Some e), w')
     | (Inr kvs, w') \<Rightarrow> (if kvs \<noteq> [] then ((snd (hd kvs), None), w') else ((Raw '''', None), w')))"

definition store_Set :: "'w env \<Rightarrow> string \<Rightarrow> document \<Rightarrow> 'w \<Rightarrow> error \<times> 'w" where
  "store_Set E key v w = kv_Put E key v w"

definition store_Delete :: "'w env \<Rightarrow> string \<Rightarrow> 'w \<Rightarrow> error \<times> 'w" where
  "store_Delete E key w = kv_Delete E key w"

text \<open>The values go into a Go map, which the handlers range over in the order \<open>map_order\<close> gives.\<close>

definition store_GetSubKeysValues ::
    "'w env \<Rightarrow> string \<Rightarrow> 'w \<Rightarrow> ((string, document) gomap \<times> error) \<times> 'w" where
  "store_GetSubKeysValues E key w = (case kv_GetPrefix E key w of
       (Inl e, w') \<Rightarrow> (([], Some e), w')
     | (Inr kvs, w') \<Rightarrow> ((map_order E w' (fold (\<lambda>(k, v) m. mput k v m) kvs []), None), w'))"

definition store_DeleteSubKeys :: "'w env \<Rightarrow> string \<Rightarrow> 'w \<Rightarrow> error \<times> 'w" where
  "store_DeleteSubKeys E key w = kv_DeletePrefix E key w"

section \<open>What etcd documents\<close>

type_synonym registry = "string \<rightharpoonup> document"

text \<open>What the code reads at a key: a missing key reads as the empty string.\<close>

definition rget :: "registry \<Rightarrow> string \<Rightarrow> document" where
  "rget V k = (case V k of None \<Rightarrow> Raw '''' | Some v \<Rightarrow> v)"

definition drop_prefix :: "string \<Rightarrow> registry \<Rightarrow> registry" where
  "drop_prefix p V = (\<lambda>k. if has_prefix p k then None else V k)"

lemma rget_None [simp]: "V k = None \<Longrightarrow> rget V k = Raw ''''"
  by (simp add: rget_def)

lemma rget_Some [simp]: "V k = Some v \<Longrightarrow> rget V k = v"
  by (simp add: rget_def)

lemma rget_other [simp]: "k \<noteq> k' \<Longrightarrow> rget (V(k := x)) k' = rget V k'"
  by (simp add: rget_def)

lemma rget_eqD: "rget V k = v \<Longrightarrow> v \<noteq> Raw '''' \<Longrightarrow> V k = Some v"
  by (simp add: rget_def split: option.splits)

lemma rget_nonempty: "rget V k \<noteq> Raw '''' \<Longrightarrow> V k = Some (rget V k)"
  by (simp add: rget_def split: option.splits)

text \<open>The contract of the interface \<open>etcd.Store\<close>, for any provider of its five operations.\<close>

locale registry_store =
  fixes get :: "string \<Rightarrow> 'w \<Rightarrow> (document \<times> error) \<times> 'w"
    and set_key :: "string \<Rightarrow> document \<Rightarrow> 'w \<Rightarrow> error \<times> 'w"
    and del :: "string \<Rightarrow> 'w \<Rightarrow> error \<times> 'w"
    and get_sub :: "string \<Rightarrow> 'w \<Rightarrow> ((string, document) gomap \<times> error) \<times> 'w"
    and del_sub :: "string \<Rightarrow> 'w \<Rightarrow> error \<times> 'w"
    and view :: "'w \<Rightarrow> registry"
  assumes get_law: "get k w = ((v, err), w') \<Longrightarrow>
      view w' = view w \<and> v = (if err = None then rget (view w) k else Raw '''')"
    and set_law: "set_key k v w = (err, w') \<Longrightarrow>
      view w' = (view w)(k \<mapsto> v) \<or> err \<noteq> None \<and> view w' = view w"
    and del_law: "del k w = (err, w') \<Longrightarrow>
      view w' = (view w)(k := None) \<or> err \<noteq> None \<and> view w' = view w"
    and get_sub_law: "get_sub p w = ((m, err), w') \<Longrightarrow>
      view w' = view w \<and> distinct (map fst m) \<and>
      (if err = None then \<forall>k v. map_of m k = Some v \<longleftrightarrow> has_prefix p k \<and> view w k = Some v else m = [])"
    and del_sub_law: "del_sub p w = (err, w') \<Longrightarrow>
      view w' = drop_prefix p (view w) \<or> err \<noteq> None \<and> view w' = view w"
begin

text \<open>Reads never change what is stored, and what was written is read back.\<close>

lemma get_view: "view (snd (get k w)) = view w"
  using get_law by (cases "get k w", cases "fst (get k w)") auto

lemma get_sub_view: "view (snd (get_sub k w)) = view w"
  using get_sub_law by (cases "get_sub k w", cases "fst (get_sub k w)") auto

lemma get_after_set:
  assumes "set_key k v w = (None, w1)" "get k w1 = ((r, None), w2)"
  shows "r = v"
  using set_law [OF assms(1)] get_law [OF assms(2)] by simp

lemma get_after_del:
  assumes "del k w = (None, w1)" "get k w1 = ((r, None), w2)"
  shows "r = Raw ''''"
  using del_law [OF assms(1)] get_law [OF assms(2)] by simp

lemma get_sub_empty_after_del_sub:
  assumes "del_sub p w = (None, w1)" "get_sub p w1 = ((m, None), w2)"
  shows "m = []"
proof -
  have "map_of m k = None" for k
    using del_sub_law [OF assms(1)] get_sub_law [OF assms(2)]
    by (cases "map_of m k") (auto simp: drop_prefix_def split: if_splits)
  then show ?thesis by (cases m) (auto split: if_splits, metis fun_upd_same option.distinct(1))
qed

end

locale etcd_server =
  fixes E :: "'w env" and view :: "'w \<Rightarrow> registry"
  assumes kv_Get_law: "kv_Get E k w = (r, w') \<Longrightarrow> view w' = view w \<and>
      (\<forall>kvs. r = Inr kvs \<longrightarrow> kvs = (case view w k of None \<Rightarrow> [] | Some v \<Rightarrow> [(k, v)]))"
    and kv_GetPrefix_law: "kv_GetPrefix E p w = (r, w') \<Longrightarrow> view w' = view w \<and>
      (\<forall>kvs. r = Inr kvs \<longrightarrow> distinct (map fst kvs) \<and>
        (\<forall>k v. (k, v) \<in> set kvs \<longleftrightarrow> has_prefix p k \<and> view w k = Some v))"
    and kv_Put_law: "kv_Put E k v w = (err, w') \<Longrightarrow>
      view w' = (view w)(k \<mapsto> v) \<or> err \<noteq> None \<and> view w' = view w"
    and kv_Delete_law: "kv_Delete E k w = (err, w') \<Longrightarrow>
      view w' = (view w)(k := None) \<or> err \<noteq> None \<and> view w' = view w"
    and kv_DeletePrefix_law: "kv_DeletePrefix E p w = (err, w') \<Longrightarrow>
      view w' = drop_prefix p (view w) \<or> err \<noteq> None \<and> view w' = view w"
    and map_order_law: "mset (map_order E w m) = mset m"

lemma fold_mput_distinct:
  "distinct (map fst (m @ kvs)) \<Longrightarrow> fold (\<lambda>(k, v) m. mput k v m) kvs m = m @ kvs"
proof (induction kvs arbitrary: m)
  case (Cons e kvs)
  obtain k v where e: "e = (k, v)" by (cases e)
  with Cons.prems have k: "k \<notin> mkeys m" by auto
  then have "mput k v m = m @ [(k, v)]"
    by (induction k v m rule: mput.induct) auto
  with Cons.IH [of "m @ [(k, v)]"] Cons.prems e show ?case by simp
qed simp

text \<open>The wrappers of \<open>client.go\<close> turn any such etcd into a registry store.\<close>

sublocale etcd_server \<subseteq> store: registry_store "store_Get E" "store_Set E" "store_Delete E"
    "store_GetSubKeysValues E" "store_DeleteSubKeys E" view
proof
  fix k w v err w'
  assume "store_Get E k w = ((v, err), w')"
  then show "view w' = view w \<and> v = (if err = None then rget (view w) k else Raw '''')"
    using kv_Get_law [of k w "fst (kv_Get E k w)" "snd (kv_Get E k w)"]
    by (cases "view w k") (auto simp: store_Get_def rget_def split: sum.splits prod.splits if_splits)
next
  fix k v w err w'
  show "store_Set E k v w = (err, w') \<Longrightarrow> view w' = (view w)(k \<mapsto> v) \<or> err \<noteq> None \<and> view w' = view w"
    using kv_Put_law by (simp add: store_Set_def)
  show "store_Delete E k w = (err, w') \<Longrightarrow> view w' = (view w)(k := None) \<or> err \<noteq> None \<and> view w' = view w"
    using kv_Delete_law by (simp add: store_Delete_def)
  show "store_DeleteSubKeys E k w = (err, w') \<Longrightarrow>
      view w' = drop_prefix k (view w) \<or> err \<noteq> None \<and> view w' = view w"
    using kv_DeletePrefix_law by (simp add: store_DeleteSubKeys_def)
next
  fix p w m err w'
  assume s: "store_GetSubKeysValues E p w = ((m, err), w')"
  obtain r where r: "kv_GetPrefix E p w = (r, w')"
    using s by (cases "kv_GetPrefix E p w") (auto simp: store_GetSubKeysValues_def split: sum.splits)
  note law = kv_GetPrefix_law [OF r]
  show "view w' = view w \<and> distinct (map fst m) \<and>
      (if err = None then \<forall>k v. map_of m k = Some v \<longleftrightarrow> has_prefix p k \<and> view w k = Some v else m = [])"
  proof (cases r)
    case (Inl e)
    with s r law show ?thesis by (auto simp: store_GetSubKeysValues_def)
  next
    case (Inr kvs)
    with law have d: "distinct (map fst kvs)" by simp
    with s r Inr have m: "m = map_order E w' kvs" and err: "err = None"
      using fold_mput_distinct [of "[]" kvs] by (auto simp: store_GetSubKeysValues_def)
    have ms: "mset m = mset kvs" using map_order_law m by simp
    then have "mset (map fst m) = mset (map fst kvs)" by simp
    with d have dm: "distinct (map fst m)" by (metis mset_eq_imp_distinct_iff)
    moreover have "set m = set kvs" using ms by (rule mset_eq_setD)
    ultimately show ?thesis using law Inr err by (auto simp: map_of_distinct_iff)
  qed
qed

locale reliable_etcd = etcd_server +
  assumes kv_Get_ok: "\<exists>kvs. fst (kv_Get E k w) = Inr kvs"
    and kv_GetPrefix_ok: "\<exists>kvs. fst (kv_GetPrefix E p w) = Inr kvs"
    and kv_Put_ok: "fst (kv_Put E k v w) = None"
    and kv_Delete_ok: "fst (kv_Delete E k w) = None"
    and kv_DeletePrefix_ok: "fst (kv_DeletePrefix E p w) = None"
begin

lemma store_no_error:
  "snd (fst (store_Get E k w)) = None" "fst (store_Set E k v w) = None"
  "fst (store_Delete E k w) = None" "snd (fst (store_GetSubKeysValues E p w)) = None"
  "fst (store_DeleteSubKeys E p w) = None"
  using kv_Get_ok [of k w] kv_GetPrefix_ok [of p w] kv_Put_ok [of k v w] kv_Delete_ok [of k w]
    kv_DeletePrefix_ok [of p w]
  by (auto simp: store_Get_def store_Set_def store_Delete_def store_GetSubKeysValues_def
      store_DeleteSubKeys_def split: prod.splits sum.splits)

end

section \<open>A concrete etcd\<close>

text \<open>
  An instance of the parameter for concrete runs: the keys are an association list and the fault
  script says of each coming call whether it works, is lost before it takes effect, or takes effect
  but returns an error; past the end of the script everything works.
\<close>

datatype fault = Works | Lost | Applied

type_synonym mem = "(string, document) gomap \<times> fault list"

fun next_fault :: "mem \<Rightarrow> fault \<times> mem" where
  "next_fault (m, []) = (Works, (m, []))"
| "next_fault (m, f # fs) = (f, (m, fs))"

definition mem_read :: "((string, document) gomap \<Rightarrow> 'a) \<Rightarrow> mem \<Rightarrow> (string + 'a) \<times> mem" where
  "mem_read f w = (case next_fault w of (Works, w') \<Rightarrow> (Inr (f (fst w')), w') | (_, w') \<Rightarrow> (Inl ''etcd'', w'))"

definition mem_write :: "((string, document) gomap \<Rightarrow> (string, document) gomap) \<Rightarrow> mem \<Rightarrow> error \<times> mem" where
  "mem_write f w = (case next_fault w of
       (Works, (m, fs)) \<Rightarrow> (None, (f m, fs))
     | (Lost, (m, fs)) \<Rightarrow> (Some ''etcd'', (m, fs))
     | (Applied, (m, fs)) \<Rightarrow> (Some ''etcd'', (f m, fs)))"

text \<open>The list shadows an overwritten entry: its range request returns the visible ones.\<close>

fun visible :: "(string, document) gomap \<Rightarrow> (string, document) gomap" where
  "visible [] = []"
| "visible ((k, v) # m) = (k, v) # filter (\<lambda>e. fst e \<noteq> k) (visible m)"

definition range_of :: "string \<Rightarrow> (string, document) gomap \<Rightarrow> (string, document) gomap" where
  "range_of p m = filter (\<lambda>e. has_prefix p (fst e)) (visible m)"

definition mem_env :: "mem env" where
  "mem_env = \<lparr>
     kv_Get = (\<lambda>k. mem_read (\<lambda>m. case map_of m k of None \<Rightarrow> [] | Some v \<Rightarrow> [(k, v)])),
     kv_GetPrefix = (\<lambda>p. mem_read (range_of p)),
     kv_Put = (\<lambda>k v. mem_write (mput k v)),
     kv_Delete = (\<lambda>k. mem_write (mdel k)),
     kv_DeletePrefix = (\<lambda>p. mem_write (filter (\<lambda>e. \<not> has_prefix p (fst e)))),
     json_text = (\<lambda>_. ''{}''),
     map_order = (\<lambda>_ m. m)\<rparr>"

definition mem_view :: "mem \<Rightarrow> registry" where
  "mem_view w = map_of (fst w)"

lemma visible_distinct: "distinct (map fst (visible m))"
  by (induction m rule: visible.induct) (auto simp: distinct_map_filter)

lemma map_of_visible: "map_of (visible m) = map_of m"
proof (induction m rule: visible.induct)
  case (2 k v m)
  have "map_of (filter (\<lambda>e. fst e \<noteq> k) (visible m)) = (map_of (visible m))(k := None)"
    using map_of_mdel [of k "visible m"] by (simp add: mdel_def)
  with 2 show ?case by (simp add: fun_eq_iff)
qed simp

lemma map_of_filter_prefix:
  "map_of (filter (\<lambda>e. \<not> has_prefix p (fst e)) m) = drop_prefix p (map_of m)"
  by (induction m) (auto simp: fun_eq_iff drop_prefix_def)

lemma range_of [simp]:
  "distinct (map fst (range_of p m))"
  "(k, v) \<in> set (range_of p m) \<longleftrightarrow> has_prefix p k \<and> map_of m k = Some v"
  using map_of_distinct_iff [OF visible_distinct, of m]
  by (auto simp: range_of_def distinct_map_filter visible_distinct map_of_visible)

interpretation mem: etcd_server mem_env mem_view
proof
  fix p w r w'
  assume a: "kv_GetPrefix mem_env p w = (r, w')"
  obtain m fs where w: "w = (m, fs)" by (cases w)
  then have "view_ok": "mem_view w' = mem_view w" and
    res: "\<forall>kvs. r = Inr kvs \<longrightarrow> kvs = range_of p m"
    using a by (cases fs; auto simp: mem_env_def mem_read_def mem_view_def split: fault.splits)+
  show "mem_view w' = mem_view w \<and> (\<forall>kvs. r = Inr kvs \<longrightarrow> distinct (map fst kvs) \<and>
     (\<forall>k v. (k, v) \<in> set kvs \<longleftrightarrow> has_prefix p k \<and> mem_view w k = Some v))"
  proof (rule conjI [OF view_ok], intro allI impI conjI)
    fix kvs
    assume "r = Inr kvs"
    then have kvs: "kvs = range_of p m" using res by blast
    show "distinct (map fst kvs)" by (simp add: kvs)
    show "(k, v) \<in> set kvs \<longleftrightarrow> has_prefix p k \<and> mem_view w k = Some v" for k v
      by (simp add: kvs w mem_view_def)
  qed
next
  fix k and w :: mem and r w'
  obtain m fs where w: "w = (m, fs)" by (cases w)
  show "kv_Get mem_env k w = (r, w') \<Longrightarrow> mem_view w' = mem_view w \<and>
     (\<forall>kvs. r = Inr kvs \<longrightarrow> kvs = (case mem_view w k of None \<Rightarrow> [] | Some v \<Rightarrow> [(k, v)]))"
    using w by (cases fs) (auto simp: mem_env_def mem_read_def mem_view_def split: fault.splits)
next
  fix k v and w :: mem and err w'
  obtain m fs where w: "w = (m, fs)" by (cases w)
  show "kv_Put mem_env k v w = (err, w') \<Longrightarrow>
      mem_view w' = (mem_view w)(k \<mapsto> v) \<or> err \<noteq> None \<and> mem_view w' = mem_view w"
    using w by (cases fs) (auto simp: mem_env_def mem_write_def mem_view_def split: fault.splits)
  show "kv_Delete mem_env k w = (err, w') \<Longrightarrow>
      mem_view w' = (mem_view w)(k := None) \<or> err \<noteq> None \<and> mem_view w' = mem_view w"
    using w by (cases fs) (auto simp: mem_env_def mem_write_def mem_view_def split: fault.splits)
  show "kv_DeletePrefix mem_env k w = (err, w') \<Longrightarrow>
      mem_view w' = drop_prefix k (mem_view w) \<or> err \<noteq> None \<and> mem_view w' = mem_view w"
    using w by (cases fs)
      (auto simp: mem_env_def mem_write_def mem_view_def map_of_filter_prefix split: fault.splits)
qed (simp add: mem_env_def)

text \<open>The same store without faults, over the association list alone.\<close>

definition calm_env :: "(string, document) gomap env" where
  "calm_env = \<lparr>
     kv_Get = (\<lambda>k m. (Inr (case map_of m k of None \<Rightarrow> [] | Some v \<Rightarrow> [(k, v)]), m)),
     kv_GetPrefix = (\<lambda>p m. (Inr (range_of p m), m)),
     kv_Put = (\<lambda>k v m. (None, mput k v m)),
     kv_Delete = (\<lambda>k m. (None, mdel k m)),
     kv_DeletePrefix = (\<lambda>p m. (None, filter (\<lambda>e. \<not> has_prefix p (fst e)) m)),
     json_text = (\<lambda>_. ''{}''),
     map_order = (\<lambda>_ m. m)\<rparr>"

interpretation calm: reliable_etcd calm_env map_of
proof
  fix p w r and w' :: "(string, document) gomap"
  show "kv_GetPrefix calm_env p w = (r, w') \<Longrightarrow> map_of w' = map_of w \<and>
      (\<forall>kvs. r = Inr kvs \<longrightarrow> distinct (map fst kvs) \<and>
        (\<forall>k v. (k, v) \<in> set kvs \<longleftrightarrow> has_prefix p k \<and> map_of w k = Some v))"
    by (auto simp: calm_env_def)
  show "kv_DeletePrefix calm_env p w = (err, w') \<Longrightarrow>
      map_of w' = drop_prefix p (map_of w) \<or> err \<noteq> None \<and> map_of w' = map_of w" for err
    by (auto simp: calm_env_def map_of_filter_prefix)
qed (auto simp: calm_env_def)

end
