(* ===== verification/Api_Core.thy ===== *)
theory Api_Core
  imports Etcd_Store
begin

text \<open>
  What all handlers of \<open>pkg/kubeapiserver/app/routine.go\<close> share. A handler is a function from the
  outside world to the replies it writes and the new world. It is written in the order of the Go
  code: each store call takes the rest of the handler as a continuation over its results, and an
  early return is a branch that ends in \<open>reply\<close>. The mutex that every handler holds from its first
  to its last line makes one call of a handler one step of the server.

  \<open>wp view m w Q\<close> says that \<open>m\<close>, run in the world \<open>w\<close>, ends with replies and a registry that satisfy
  \<open>Q\<close>; its rules (collection \<open>wp\<close>) follow the combinators, so that a property of a handler is proved
  by walking along its code.
\<close>

section \<open>Replies\<close>

datatype body =
  Error string
| Message string
| MessageUUID string UID
| NoData
| DataPods "Pod list"
| DataPod Pod
| DataPodStatus PodStatus
| DataServices "Service list"
| DataService Service
| DataDNSs "DNS list"
| DataDNS DNS
| DataNodes "Node list"
| DataNode Node
| DataReplicaSets "ReplicaSet list"
| DataReplicaSet ReplicaSet
| DataHPAs "HorizontalPodAutoscaler list"
| DataHPA HorizontalPodAutoscaler
| DataVirtualServices "VirtualService list"
| DataVirtualService VirtualService
| DataSubsets "Subset list"
| DataSubset Subset
| DataRollingUpdates "RollingUpdate list"
| DataRollingUpdate RollingUpdate
| DataRollingUpdateStatus RollingUpdatePhase
| DataSidecarMapping SidecarMapping
| DataSidecarServiceNameMapping SidecarServiceNameMapping
| DataMetrics PodRawMetrics
| DataMetricsList "PodRawMetrics list"
| PlainText string

text \<open>
  A call of \<open>c.JSON\<close> appends to the response; the status line is that of the first call. A nil
  dereference panics; gin's recovery middleware answers it with status 500.
\<close>

datatype reply = Reply (code: nat) (body: body) | Panic

definition StatusOK :: nat where [simp]: "StatusOK = 200"
definition StatusCreated :: nat where [simp]: "StatusCreated = 201"
definition StatusBadRequest :: nat where [simp]: "StatusBadRequest = 400"
definition StatusNotFound :: nat where [simp]: "StatusNotFound = 404"
definition StatusConflict :: nat where [simp]: "StatusConflict = 409"
definition StatusInternalServerError :: nat where [simp]: "StatusInternalServerError = 500"

type_synonym 'w api = "'w \<Rightarrow> reply list \<times> 'w"

definition Return :: "'w api" where
  "Return w = ([], w)"

definition Panics :: "'w api" where
  "Panics w = ([Panic], w)"

text \<open>\<open>Write\<close> is \<open>c.JSON\<close> with the handler going on; \<open>reply\<close> is \<open>c.JSON\<close> followed by \<open>return\<close>.\<close>

definition Write :: "nat \<Rightarrow> body \<Rightarrow> 'w api \<Rightarrow> 'w api" where
  "Write st b k w = (case k w of (rs, w') \<Rightarrow> (Reply st b # rs, w'))"

definition reply :: "nat \<Rightarrow> body \<Rightarrow> 'w api" where
  "reply st b w = ([Reply st b], w)"

definition status_of :: "reply list \<Rightarrow> nat" where
  "status_of rs = (case rs of [] \<Rightarrow> StatusOK | Reply st b # _ \<Rightarrow> st | Panic # _ \<Rightarrow> StatusInternalServerError)"

section \<open>Store calls\<close>

definition Get :: "'w env \<Rightarrow> string \<Rightarrow> (document \<Rightarrow> error \<Rightarrow> 'w api) \<Rightarrow> 'w api" where
  "Get E key k w = (case store_Get E key w of ((v, err), w') \<Rightarrow> k v err w')"

definition Set :: "'w env \<Rightarrow> string \<Rightarrow> document \<Rightarrow> (error \<Rightarrow> 'w api) \<Rightarrow> 'w api" where
  "Set E key v k w = (case store_Set E key v w of (err, w') \<Rightarrow> k err w')"

definition Delete :: "'w env \<Rightarrow> string \<Rightarrow> (error \<Rightarrow> 'w api) \<Rightarrow> 'w api" where
  "Delete E key k w = (case store_Delete E key w of (err, w') \<Rightarrow> k err w')"

definition GetSubKeysValues ::
    "'w env \<Rightarrow> string \<Rightarrow> ((string, document) gomap \<Rightarrow> error \<Rightarrow> 'w api) \<Rightarrow> 'w api" where
  "GetSubKeysValues E key k w = (case store_GetSubKeysValues E key w of ((m, err), w') \<Rightarrow> k m err w')"

definition DeleteSubKeys :: "'w env \<Rightarrow> string \<Rightarrow> (error \<Rightarrow> 'w api) \<Rightarrow> 'w api" where
  "DeleteSubKeys E key k w = (case store_DeleteSubKeys E key w of (err, w') \<Rightarrow> k err w')"

lemmas api_defs = Return_def Panics_def Write_def reply_def Get_def Set_def Delete_def
  GetSubKeysValues_def DeleteSubKeys_def

text \<open>A value used as a string: the stored string itself, the text of a document otherwise.\<close>

definition text_of :: "'w env \<Rightarrow> document \<Rightarrow> string" where
  "text_of E v = (case v of Raw s \<Rightarrow> s | _ \<Rightarrow> json_text E v)"

lemma text_of_Raw [simp]: "text_of E (Raw s) = s"
  by (simp add: text_of_def)

section \<open>Keys\<close>

text \<open>The keys of the registry, as the handlers build them.\<close>

definition pod_key :: "UID \<Rightarrow> string" where
  [key_defs]: "pod_key uid = ''/registry/pods/'' @ uid"

definition ns_key :: "string \<Rightarrow> string \<Rightarrow> string \<Rightarrow> string" where
  [key_defs]: "ns_key namespace kind name = ''/registry/namespaces/'' @ namespace @ ''/'' @ kind @ ''/'' @ name"

definition svc_key :: "UID \<Rightarrow> string" where
  [key_defs]: "svc_key uid = ''/registry/services/'' @ uid"

definition dns_key :: "UID \<Rightarrow> string" where
  [key_defs]: "dns_key uid = ''/registry/dns/'' @ uid"

definition node_key :: "UID \<Rightarrow> string" where
  [key_defs]: "node_key uid = ''/registry/nodes/'' @ uid"

definition rs_key :: "UID \<Rightarrow> string" where
  [key_defs]: "rs_key uid = ''/registry/replicaset/'' @ uid"

definition hpa_key :: "UID \<Rightarrow> string" where
  [key_defs]: "hpa_key uid = ''/registry/scaling/'' @ uid"

definition vs_key :: "UID \<Rightarrow> string" where
  [key_defs]: "vs_key uid = ''/registry/virtualservices/'' @ uid"

definition subset_key :: "UID \<Rightarrow> string" where
  [key_defs]: "subset_key uid = ''/registry/subsets/'' @ uid"

definition ru_key :: "UID \<Rightarrow> string" where
  [key_defs]: "ru_key uid = ''/registry/rollingupdates/'' @ uid"

definition host_node_key :: "string \<Rightarrow> string \<Rightarrow> string" where
  [key_defs]: "host_node_key node rest = ''/registry/host-nodes/'' @ node @ ''/pods'' @ rest"

definition ip_bitmap_key :: string where
  [key_defs]: "ip_bitmap_key = ''/registry/IPPool/bitmap''"

definition node_bitmap_key :: string where
  [key_defs]: "node_bitmap_key = ''/registry/NodePool/bitmap''"

definition hosts_key :: string where
  [key_defs]: "hosts_key = ''/registry/hosts''"

definition sidecar_key :: string where
  [key_defs]: "sidecar_key = ''/registry/sidecar-mapping''"

text \<open>Keys of different kinds never meet.\<close>

lemma object_key_eq [simp]:
  "pod_key u = pod_key u' \<longleftrightarrow> u = u'"
  "svc_key u = svc_key u' \<longleftrightarrow> u = u'"
  "dns_key u = dns_key u' \<longleftrightarrow> u = u'"
  "node_key u = node_key u' \<longleftrightarrow> u = u'"
  "rs_key u = rs_key u' \<longleftrightarrow> u = u'"
  "hpa_key u = hpa_key u' \<longleftrightarrow> u = u'"
  "vs_key u = vs_key u' \<longleftrightarrow> u = u'"
  "subset_key u = subset_key u' \<longleftrightarrow> u = u'"
  "ru_key u = ru_key u' \<longleftrightarrow> u = u'"
  by (simp_all add: key_defs)

lemma keys_distinct [simp]:
  "pod_key u \<noteq> ns_key np kind n" "ns_key np kind n \<noteq> pod_key u"
  "svc_key u \<noteq> ns_key np kind n" "ns_key np kind n \<noteq> svc_key u"
  "dns_key u \<noteq> ns_key np kind n" "ns_key np kind n \<noteq> dns_key u"
  "node_key u \<noteq> ns_key np kind n" "ns_key np kind n \<noteq> node_key u"
  "rs_key u \<noteq> ns_key np kind n" "ns_key np kind n \<noteq> rs_key u"
  "hpa_key u \<noteq> ns_key np kind n" "ns_key np kind n \<noteq> hpa_key u"
  "vs_key u \<noteq> ns_key np kind n" "ns_key np kind n \<noteq> vs_key u"
  "subset_key u \<noteq> ns_key np kind n" "ns_key np kind n \<noteq> subset_key u"
  "ru_key u \<noteq> ns_key np kind n" "ns_key np kind n \<noteq> ru_key u"
  "pod_key u \<noteq> host_node_key node rest" "host_node_key node rest \<noteq> pod_key u"
  "svc_key u \<noteq> host_node_key node rest" "host_node_key node rest \<noteq> svc_key u"
  "dns_key u \<noteq> host_node_key node rest" "host_node_key node rest \<noteq> dns_key u"
  "node_key u \<noteq> host_node_key node rest" "host_node_key node rest \<noteq> node_key u"
  "rs_key u \<noteq> host_node_key node rest" "host_node_key node rest \<noteq> rs_key u"
  "hpa_key u \<noteq> host_node_key node rest" "host_node_key node rest \<noteq> hpa_key u"
  "vs_key u \<noteq> host_node_key node rest" "host_node_key node rest \<noteq> vs_key u"
  "subset_key u \<noteq> host_node_key node rest" "host_node_key node rest \<noteq> subset_key u"
  "ru_key u \<noteq> host_node_key node rest" "host_node_key node rest \<noteq> ru_key u"
  "pod_key u \<noteq> ip_bitmap_key" "ip_bitmap_key \<noteq> pod_key u"
  "svc_key u \<noteq> ip_bitmap_key" "ip_bitmap_key \<noteq> svc_key u"
  "dns_key u \<noteq> ip_bitmap_key" "ip_bitmap_key \<noteq> dns_key u"
  "node_key u \<noteq> ip_bitmap_key" "ip_bitmap_key \<noteq> node_key u"
  "rs_key u \<noteq> ip_bitmap_key" "ip_bitmap_key \<noteq> rs_key u"
  "hpa_key u \<noteq> ip_bitmap_key" "ip_bitmap_key \<noteq> hpa_key u"
  "vs_key u \<noteq> ip_bitmap_key" "ip_bitmap_key \<noteq> vs_key u"
  "subset_key u \<noteq> ip_bitmap_key" "ip_bitmap_key \<noteq> subset_key u"
  "ru_key u \<noteq> ip_bitmap_key" "ip_bitmap_key \<noteq> ru_key u"
  "ip_bitmap_key \<noteq> ns_key np kind n" "ns_key np kind n \<noteq> ip_bitmap_key"
  "ip_bitmap_key \<noteq> host_node_key node rest" "host_node_key node rest \<noteq> ip_bitmap_key"
  "pod_key u \<noteq> node_bitmap_key" "node_bitmap_key \<noteq> pod_key u"
  "svc_key u \<noteq> node_bitmap_key" "node_bitmap_key \<noteq> svc_key u"
  "dns_key u \<noteq> node_bitmap_key" "node_bitmap_key \<noteq> dns_key u"
  "node_key u \<noteq> node_bitmap_key" "node_bitmap_key \<noteq> node_key u"
  "rs_key u \<noteq> node_bitmap_key" "node_bitmap_key \<noteq> rs_key u"
  "hpa_key u \<noteq> node_bitmap_key" "node_bitmap_key \<noteq> hpa_key u"
  "vs_key u \<noteq> node_bitmap_key" "node_bitmap_key \<noteq> vs_key u"
  "subset_key u \<noteq> node_bitmap_key" "node_bitmap_key \<noteq> subset_key u"
  "ru_key u \<noteq> node_bitmap_key" "node_bitmap_key \<noteq> ru_key u"
  "node_bitmap_key \<noteq> ns_key np kind n" "ns_key np kind n \<noteq> node_bitmap_key"
  "node_bitmap_key \<noteq> host_node_key node rest"
  "host_node_key node rest \<noteq> node_bitmap_key" "pod_key u \<noteq> hosts_key"
  "hosts_key \<noteq> pod_key u" "svc_key u \<noteq> hosts_key" "hosts_key \<noteq> svc_key u"
  "dns_key u \<noteq> hosts_key" "hosts_key \<noteq> dns_key u" "node_key u \<noteq> hosts_key"
  "hosts_key \<noteq> node_key u" "rs_key u \<noteq> hosts_key" "hosts_key \<noteq> rs_key u"
  "hpa_key u \<noteq> hosts_key" "hosts_key \<noteq> hpa_key u" "vs_key u \<noteq> hosts_key"
  "hosts_key \<noteq> vs_key u" "subset_key u \<noteq> hosts_key" "hosts_key \<noteq> subset_key u"
  "ru_key u \<noteq> hosts_key" "hosts_key \<noteq> ru_key u" "hosts_key \<noteq> ns_key np kind n"
  "ns_key np kind n \<noteq> hosts_key" "hosts_key \<noteq> host_node_key node rest"
  "host_node_key node rest \<noteq> hosts_key" "pod_key u \<noteq> sidecar_key"
  "sidecar_key \<noteq> pod_key u" "svc_key u \<noteq> sidecar_key" "sidecar_key \<noteq> svc_key u"
  "dns_key u \<noteq> sidecar_key" "sidecar_key \<noteq> dns_key u"
  "node_key u \<noteq> sidecar_key" "sidecar_key \<noteq> node_key u"
  "rs_key u \<noteq> sidecar_key" "sidecar_key \<noteq> rs_key u" "hpa_key u \<noteq> sidecar_key"
  "sidecar_key \<noteq> hpa_key u" "vs_key u \<noteq> sidecar_key" "sidecar_key \<noteq> vs_key u"
  "subset_key u \<noteq> sidecar_key" "sidecar_key \<noteq> subset_key u"
  "ru_key u \<noteq> sidecar_key" "sidecar_key \<noteq> ru_key u"
  "sidecar_key \<noteq> ns_key np kind n" "ns_key np kind n \<noteq> sidecar_key"
  "sidecar_key \<noteq> host_node_key node rest" "host_node_key node rest \<noteq> sidecar_key"
  "ns_key np kind n \<noteq> host_node_key node rest"
  "host_node_key node rest \<noteq> ns_key np kind n" "ip_bitmap_key \<noteq> node_bitmap_key"
  "node_bitmap_key \<noteq> ip_bitmap_key" "ip_bitmap_key \<noteq> hosts_key"
  "hosts_key \<noteq> ip_bitmap_key" "ip_bitmap_key \<noteq> sidecar_key"
  "sidecar_key \<noteq> ip_bitmap_key" "node_bitmap_key \<noteq> hosts_key"
  "hosts_key \<noteq> node_bitmap_key" "node_bitmap_key \<noteq> sidecar_key"
  "sidecar_key \<noteq> node_bitmap_key" "hosts_key \<noteq> sidecar_key"
  "sidecar_key \<noteq> hosts_key" "pod_key u \<noteq> svc_key u'" "svc_key u' \<noteq> pod_key u"
  "pod_key u \<noteq> dns_key u'" "dns_key u' \<noteq> pod_key u" "pod_key u \<noteq> node_key u'"
  "node_key u' \<noteq> pod_key u" "pod_key u \<noteq> rs_key u'" "rs_key u' \<noteq> pod_key u"
  "pod_key u \<noteq> hpa_key u'" "hpa_key u' \<noteq> pod_key u" "pod_key u \<noteq> vs_key u'"
  "vs_key u' \<noteq> pod_key u" "pod_key u \<noteq> subset_key u'"
  "subset_key u' \<noteq> pod_key u" "pod_key u \<noteq> ru_key u'" "ru_key u' \<noteq> pod_key u"
  "svc_key u \<noteq> dns_key u'" "dns_key u' \<noteq> svc_key u" "svc_key u \<noteq> node_key u'"
  "node_key u' \<noteq> svc_key u" "svc_key u \<noteq> rs_key u'" "rs_key u' \<noteq> svc_key u"
  "svc_key u \<noteq> hpa_key u'" "hpa_key u' \<noteq> svc_key u" "svc_key u \<noteq> vs_key u'"
  "vs_key u' \<noteq> svc_key u" "svc_key u \<noteq> subset_key u'"
  "subset_key u' \<noteq> svc_key u" "svc_key u \<noteq> ru_key u'" "ru_key u' \<noteq> svc_key u"
  "dns_key u \<noteq> node_key u'" "node_key u' \<noteq> dns_key u" "dns_key u \<noteq> rs_key u'"
  "rs_key u' \<noteq> dns_key u" "dns_key u \<noteq> hpa_key u'" "hpa_key u' \<noteq> dns_key u"
  "dns_key u \<noteq> vs_key u'" "vs_key u' \<noteq> dns_key u" "dns_key u \<noteq> subset_key u'"
  "subset_key u' \<noteq> dns_key u" "dns_key u \<noteq> ru_key u'" "ru_key u' \<noteq> dns_key u"
  "node_key u \<noteq> rs_key u'" "rs_key u' \<noteq> node_key u" "node_key u \<noteq> hpa_key u'"
  "hpa_key u' \<noteq> node_key u" "node_key u \<noteq> vs_key u'" "vs_key u' \<noteq> node_key u"
  "node_key u \<noteq> subset_key u'" "subset_key u' \<noteq> node_key u"
  "node_key u \<noteq> ru_key u'" "ru_key u' \<noteq> node_key u" "rs_key u \<noteq> hpa_key u'"
  "hpa_key u' \<noteq> rs_key u" "rs_key u \<noteq> vs_key u'" "vs_key u' \<noteq> rs_key u"
  "rs_key u \<noteq> subset_key u'" "subset_key u' \<noteq> rs_key u" "rs_key u \<noteq> ru_key u'"
  "ru_key u' \<noteq> rs_key u" "hpa_key u \<noteq> vs_key u'" "vs_key u' \<noteq> hpa_key u"
  "hpa_key u \<noteq> subset_key u'" "subset_key u' \<noteq> hpa_key u"
  "hpa_key u \<noteq> ru_key u'" "ru_key u' \<noteq> hpa_key u" "vs_key u \<noteq> subset_key u'"
  "subset_key u' \<noteq> vs_key u" "vs_key u \<noteq> ru_key u'" "ru_key u' \<noteq> vs_key u"
  "subset_key u \<noteq> ru_key u'" "ru_key u' \<noteq> subset_key u"
  by (simp_all add: key_defs)

definition Default_Namespace :: string where [simp]: "Default_Namespace = ''default''"
definition Default_Podname :: string where [simp]: "Default_Podname = ''example-pod''"

text \<open>
  The loop of the list handlers, \<open>json.Unmarshal\<close> of each value with a return at the first failure.
\<close>

fun unmarshal_all :: "(document \<Rightarrow> 'a \<times> error) \<Rightarrow> document list \<Rightarrow> string + 'a list" where
  "unmarshal_all u [] = Inr []"
| "unmarshal_all u (v # vs) = (case u v of
       (x, Some e) \<Rightarrow> Inl e
     | (x, None) \<Rightarrow> (case unmarshal_all u vs of Inl e \<Rightarrow> Inl e | Inr xs \<Rightarrow> Inr (x # xs)))"

lemma unmarshal_all_ok:
  "\<forall>v\<in>set vs. snd (u v) = None \<Longrightarrow> unmarshal_all u vs = Inr (map (\<lambda>v. fst (u v)) vs)"
  by (induction vs) (auto split: prod.splits)

text \<open>The namespace check that the validators of DNS, virtual services and subsets share.\<close>

definition namespace_mismatch :: "string \<Rightarrow> string \<Rightarrow> string option" where
  "namespace_mismatch namespace urlNamespace =
     (if namespace = '''' then
        (if urlNamespace \<noteq> ''default''
         then Some (''namespace mismatch, spec: empty(using default), url: '' @ urlNamespace) else None)
      else if namespace \<noteq> urlNamespace
      then Some (''namespace mismatch, spec: '' @ namespace @ '', url: '' @ urlNamespace) else None)"

text \<open>A listing whose entries all are documents of one type is read completely.\<close>

lemma unmarshal_listing:
  assumes m: "\<And>k v. (k, v) \<in> set m \<longleftrightarrow> has_prefix p k \<and> V k = Some v"
    and C: "\<And>k v. V k = Some v \<Longrightarrow> has_prefix p k \<Longrightarrow> \<exists>x. v = C x"
    and u: "\<And>x. u (C x) = (x, None)"
  shows "\<exists>xs. unmarshal_all u (map snd m) = Inr xs \<and> set xs = {x. \<exists>k. has_prefix p k \<and> V k = Some (C x)}"
proof -
  have "\<forall>v\<in>set (map snd m). snd (u v) = None"
    using C m u by (auto; metis snd_conv)
  then have un: "unmarshal_all u (map snd m) = Inr (map (\<lambda>v. fst (u v)) (map snd m))"
    by (rule unmarshal_all_ok)
  have "x \<in> set (map (\<lambda>v. fst (u v)) (map snd m)) \<longleftrightarrow> (\<exists>k. has_prefix p k \<and> V k = Some (C x))" for x
  proof
    assume "x \<in> set (map (\<lambda>v. fst (u v)) (map snd m))"
    then obtain k v where e: "(k, v) \<in> set m" "x = fst (u v)" by auto
    with m have "V k = Some v" "has_prefix p k" by auto
    with C [of k v] e u show "\<exists>k. has_prefix p k \<and> V k = Some (C x)" by auto
  next
    assume "\<exists>k. has_prefix p k \<and> V k = Some (C x)"
    then obtain k where "has_prefix p k" "V k = Some (C x)" by blast
    with m have "(k, C x) \<in> set m" by blast
    then show "x \<in> set (map (\<lambda>v. fst (u v)) (map snd m))"
      using u by (auto simp: image_iff intro!: bexI [of _ "(k, C x)"])
  qed
  with un show ?thesis by (auto simp del: set_map)
qed

section \<open>Weakest preconditions\<close>

definition wp :: "('w \<Rightarrow> registry) \<Rightarrow> 'w api \<Rightarrow> 'w \<Rightarrow> (reply list \<Rightarrow> registry \<Rightarrow> bool) \<Rightarrow> bool" where
  "wp view m w Q \<longleftrightarrow> Q (fst (m w)) (view (snd (m w)))"

lemma wp_Return [wp]: "Q [] (view w) \<Longrightarrow> wp view Return w Q"
  by (simp add: wp_def Return_def)

lemma wp_Panics [wp]: "Q [Panic] (view w) \<Longrightarrow> wp view Panics w Q"
  by (simp add: wp_def Panics_def)

lemma wp_reply [wp]: "Q [Reply st b] (view w) \<Longrightarrow> wp view (reply st b) w Q"
  by (simp add: wp_def reply_def)

lemma wp_Write [wp]:
  "wp view k w (\<lambda>rs V. Q (Reply st b # rs) V) \<Longrightarrow> wp view (Write st b k) w Q"
  by (simp add: wp_def Write_def split_beta)

lemma wp_if [wp]:
  "(c \<Longrightarrow> wp view m1 w Q) \<Longrightarrow> (\<not> c \<Longrightarrow> wp view m2 w Q) \<Longrightarrow> wp view (if c then m1 else m2) w Q"
  by simp

lemma wp_option [wp]:
  "(x = None \<Longrightarrow> wp view m1 w Q) \<Longrightarrow> (\<And>y. x = Some y \<Longrightarrow> wp view (m2 y) w Q) \<Longrightarrow>
   wp view (case x of None \<Rightarrow> m1 | Some y \<Rightarrow> m2 y) w Q"
  by (cases x) auto

lemma wp_sum [wp]:
  "(\<And>y. x = Inl y \<Longrightarrow> wp view (m1 y) w Q) \<Longrightarrow> (\<And>y. x = Inr y \<Longrightarrow> wp view (m2 y) w Q) \<Longrightarrow>
   wp view (case x of Inl y \<Rightarrow> m1 y | Inr y \<Rightarrow> m2 y) w Q"
  by (cases x) auto

lemma wp_prod [wp]:
  "(\<And>a b. x = (a, b) \<Longrightarrow> wp view (m a b) w Q) \<Longrightarrow> wp view (case x of (a, b) \<Rightarrow> m a b) w Q"
  by (cases x) auto

lemma wp_Let [wp]: "wp view (m x) w Q \<Longrightarrow> wp view (Let x m) w Q"
  by simp

lemma wp_result: "m w = (rs, w') \<Longrightarrow> wp view m w Q \<Longrightarrow> Q rs (view w')"
  by (simp add: wp_def)

lemma wp_conseq: "wp view m w Q \<Longrightarrow> (\<And>rs V. Q rs V \<Longrightarrow> Q' rs V) \<Longrightarrow> wp view m w Q'"
  by (simp add: wp_def)

lemmas wp_combinators = wp_Return wp_Panics wp_reply wp_Write wp_if wp_option wp_sum wp_prod wp_Let

context etcd_server
begin

lemma wp_Get [wp]:
  assumes "\<And>w' err. view w' = view w \<Longrightarrow>
    wp view (k (if err = None then rget (view w) key else Raw '''') err) w' Q"
  shows "wp view (Get E key k) w Q"
proof -
  obtain v err w' where g: "store_Get E key w = ((v, err), w')"
    by (metis surj_pair)
  from assms [of w' err] store.get_law [OF g] g show ?thesis
    by (simp add: wp_def Get_def)
qed

lemma wp_Set [wp]:
  assumes "\<And>w' err. view w' = (view w)(key \<mapsto> v) \<or> err \<noteq> None \<and> view w' = view w \<Longrightarrow>
    wp view (k err) w' Q"
  shows "wp view (Set E key v k) w Q"
  using assms store.set_law [of key v w]
  by (cases "store_Set E key v w") (auto simp: wp_def Set_def)

lemma wp_Delete [wp]:
  assumes "\<And>w' err. view w' = (view w)(key := None) \<or> err \<noteq> None \<and> view w' = view w \<Longrightarrow>
    wp view (k err) w' Q"
  shows "wp view (Delete E key k) w Q"
  using assms store.del_law [of key w]
  by (cases "store_Delete E key w") (auto simp: wp_def Delete_def)

lemma wp_GetSubKeysValues [wp]:
  assumes "\<And>w' m err. view w' = view w \<Longrightarrow> distinct (map fst m) \<Longrightarrow>
    (err = None \<Longrightarrow> \<forall>k v. map_of m k = Some v \<longleftrightarrow> has_prefix p k \<and> view w k = Some v) \<Longrightarrow>
    (err \<noteq> None \<Longrightarrow> m = []) \<Longrightarrow> wp view (k m err) w' Q"
  shows "wp view (GetSubKeysValues E p k) w Q"
proof -
  obtain m err w' where g: "store_GetSubKeysValues E p w = ((m, err), w')"
    by (metis surj_pair)
  from assms [of w' m err] store.get_sub_law [OF g] g show ?thesis
    by (auto simp: wp_def GetSubKeysValues_def split: if_splits)
qed

lemma wp_DeleteSubKeys [wp]:
  assumes "\<And>w' err. view w' = drop_prefix p (view w) \<or> err \<noteq> None \<and> view w' = view w \<Longrightarrow>
    wp view (k err) w' Q"
  shows "wp view (DeleteSubKeys E p k) w Q"
  using assms store.del_sub_law [of p w]
  by (cases "store_DeleteSubKeys E p w") (auto simp: wp_def DeleteSubKeys_def)

end

text \<open>Without failing calls the rules lose their error cases: every call is an equation.\<close>

context reliable_etcd
begin

lemma rel_Get:
  assumes "\<And>w'. view w' = view w \<Longrightarrow> wp view (k (rget (view w) key) None) w' Q"
  shows "wp view (Get E key k) w Q"
proof -
  obtain v err w' where g: "store_Get E key w = ((v, err), w')"
    by (metis surj_pair)
  from assms [of w'] store.get_law [OF g] g store_no_error(1) [of key w] show ?thesis
    by (simp add: wp_def Get_def)
qed

lemma rel_Set:
  assumes "\<And>w'. view w' = (view w)(key \<mapsto> v) \<Longrightarrow> wp view (k None) w' Q"
  shows "wp view (Set E key v k) w Q"
  using assms store.set_law [of key v w] store_no_error(2) [of key v w]
  by (cases "store_Set E key v w") (auto simp: wp_def Set_def)

lemma rel_Delete:
  assumes "\<And>w'. view w' = (view w)(key := None) \<Longrightarrow> wp view (k None) w' Q"
  shows "wp view (Delete E key k) w Q"
  using assms store.del_law [of key w] store_no_error(3) [of key w]
  by (cases "store_Delete E key w") (auto simp: wp_def Delete_def)

lemma rel_GetSubKeysValues:
  assumes "\<And>w' m. view w' = view w \<Longrightarrow> distinct (map fst m) \<Longrightarrow>
    \<forall>k v. map_of m k = Some v \<longleftrightarrow> has_prefix p k \<and> view w k = Some v \<Longrightarrow> wp view (k m None) w' Q"
  shows "wp view (GetSubKeysValues E p k) w Q"
proof -
  obtain m err w' where g: "store_GetSubKeysValues E p w = ((m, err), w')"
    by (metis surj_pair)
  from assms [of w' m] store.get_sub_law [OF g] g store_no_error(4) [of p w] show ?thesis
    by (auto simp: wp_def GetSubKeysValues_def split: if_splits)
qed

lemma rel_DeleteSubKeys:
  assumes "\<And>w'. view w' = drop_prefix p (view w) \<Longrightarrow> wp view (k None) w' Q"
  shows "wp view (DeleteSubKeys E p k) w Q"
  using assms store.del_sub_law [of p w] store_no_error(5) [of p w]
  by (cases "store_DeleteSubKeys E p w") (auto simp: wp_def DeleteSubKeys_def)

lemmas rel = rel_Get rel_Set rel_Delete rel_GetSubKeysValues rel_DeleteSubKeys

end

end
