(* ===== verification/Api_Pods.thy ===== *)
theory Api_Pods
  imports Api_Core
begin

text \<open>
  The pod handlers of \<open>routine.go\<close>, with the scheduling of pods to nodes. A pod lives under
  \<open>/registry/pods/<uid>\<close>; \<open>/registry/namespaces/<ns>/pods/<name>\<close> holds its uid, and so does
  \<open>/registry/host-nodes/<node>/pods/<ns>_<name>\<close> once it is scheduled.
  A handler's parameters are the path and query parameters it reads, the bound request body
  (\<open>None\<close> when binding fails) and the uuid and time stamp it draws.
\<close>

definition GetAllPodsHandler :: "'w env \<Rightarrow> 'w api" where
  "GetAllPodsHandler E =
     GetSubKeysValues E ''/registry/pods'' (\<lambda>res err.
     if err \<noteq> None then reply StatusInternalServerError (Error ''error in reading all pods from etcd'')
     else if res = [] then reply StatusOK NoData
     else case unmarshal_all json_Unmarshal_Pod (map snd res) of
       Inl _ \<Rightarrow> reply StatusInternalServerError (Error ''error in json unmarshal'')
     | Inr pods \<Rightarrow> reply StatusOK (DataPods pods))"

fun collect_pods :: "'w env \<Rightarrow> (string, document) gomap \<Rightarrow> Pod list \<Rightarrow> 'w api" where
  "collect_pods E [] all_pod_str = reply StatusOK (DataPods all_pod_str)"
| "collect_pods E ((_, v) # kvs) all_pod_str =
     Get E (pod_key (text_of E v)) (\<lambda>res err.
     if res = Raw '''' \<or> err \<noteq> None then reply StatusNotFound (Error ''pod does not exist'')
     else case json_Unmarshal_Pod res of (pod, err) \<Rightarrow>
       if err \<noteq> None then reply StatusInternalServerError (Error ''error in json unmarshal'')
       else collect_pods E kvs (all_pod_str @ [pod]))"

definition GetPodsByNamespaceHandler :: "'w env \<Rightarrow> string \<Rightarrow> 'w api" where
  "GetPodsByNamespaceHandler E np =
     (if np = '''' then reply StatusNotFound (Error ''error in parsing namespace '')
      else GetSubKeysValues E (''/registry/namespaces/'' @ np @ ''/pods'') (\<lambda>res err.
      if err \<noteq> None then reply StatusInternalServerError (Error ''error in reading all pods from etcd'')
      else if res = [] then reply StatusOK NoData
      else collect_pods E res []))"

definition GetPodHandler :: "'w env \<Rightarrow> string \<Rightarrow> string \<Rightarrow> 'w api" where
  "GetPodHandler E np pod_name =
     Get E (ns_key np ''pods'' pod_name) (\<lambda>res err.
     if res = Raw '''' \<or> err \<noteq> None
     then reply StatusNotFound (Error ''pod name does not exist in namespace'')
     else Get E (pod_key (text_of E res)) (\<lambda>res err.
     if res = Raw '''' \<or> err \<noteq> None then reply StatusNotFound (Error ''pod does not exist'')
     else case json_Unmarshal_Pod res of (pod, err) \<Rightarrow>
       if err \<noteq> None then reply StatusInternalServerError (Error ''error in json unmarshal'')
       else reply StatusOK (DataPod pod)))"

definition AddPodHandler :: "'w env \<Rightarrow> string \<Rightarrow> Pod option \<Rightarrow> UID \<Rightarrow> time \<Rightarrow> 'w api" where
  "AddPodHandler E namespace req uuid now = (case req of None \<Rightarrow> Return | Some pod \<Rightarrow>
     let pod_name = (if Name (Pod_Meta pod) = '''' then Default_Podname else Name (Pod_Meta pod));
         pod = pod\<lparr>Pod_Meta := (Pod_Meta pod)\<lparr>MetaUID := uuid, CreationTimestamp := now\<rparr>,
           Pod_Status := (Pod_Status pod)\<lparr>Phase := PodPending\<rparr>\<rparr>
     in if namespace = '''' then reply StatusBadRequest (Error ''namespace is required'')
     else if Namespace (Pod_Meta pod) = '''' \<and> namespace \<noteq> Default_Namespace
     then reply StatusBadRequest (Error ''namespace does not match'')
     else if Namespace (Pod_Meta pod) \<noteq> '''' \<and> Namespace (Pod_Meta pod) \<noteq> namespace
     then reply StatusBadRequest (Error ''namespace does not match'')
     else let pod = pod\<lparr>Pod_Meta := (Pod_Meta pod)\<lparr>Namespace := namespace\<rparr>\<rparr>;
         all_pod_keystr = pod_key (MetaUID (Pod_Meta pod));
         namespace_pod_keystr = ns_key namespace ''pods'' pod_name
     in Get E namespace_pod_keystr (\<lambda>res err.
     if res \<noteq> Raw '''' \<or> err \<noteq> None then reply StatusConflict (Error ''pod name already exists'')
     else Set E namespace_pod_keystr (Raw (MetaUID (Pod_Meta pod))) (\<lambda>err.
     if err \<noteq> None then reply StatusInternalServerError (Error ''error in writing to etcd'')
     else case json_Marshal (JPod pod) of (pod_str, err) \<Rightarrow>
     if err \<noteq> None then reply StatusInternalServerError (Error ''error in json marshal'')
     else Set E all_pod_keystr pod_str (\<lambda>err.
     if err \<noteq> None then reply StatusInternalServerError (Error ''error in writing to etcd'')
     else reply StatusCreated (MessageUUID ''successfully created pod'' (MetaUID (Pod_Meta pod)))))))"

definition DeletePodHandler :: "'w env \<Rightarrow> string \<Rightarrow> string \<Rightarrow> 'w api" where
  "DeletePodHandler E np pod_name =
     (let namespace_pod_keystr = ns_key np ''pods'' pod_name in
     Get E namespace_pod_keystr (\<lambda>res err.
     if res = Raw '''' \<or> err \<noteq> None
     then reply StatusNotFound (Error ''pod name does not exist in namespace'')
     else let all_pod_keystr = pod_key (text_of E res) in
     Delete E namespace_pod_keystr (\<lambda>err.
     if err \<noteq> None then reply StatusInternalServerError (Error ''error in deleting from etcd'')
     else Get E all_pod_keystr (\<lambda>res err.
     if res = Raw '''' \<or> err \<noteq> None then reply StatusNotFound (Error ''pod does not exist'')
     else Delete E all_pod_keystr (\<lambda>err.
     if err \<noteq> None then reply StatusInternalServerError (Error ''error in deleting from etcd'')
     else reply StatusOK (Message ''successfully deleted pod''))))))"

definition GetPodStatusHandler :: "'w env \<Rightarrow> string \<Rightarrow> string \<Rightarrow> 'w api" where
  "GetPodStatusHandler E np pod_name =
     Get E (ns_key np ''pods'' pod_name) (\<lambda>res err.
     if res = Raw '''' \<or> err \<noteq> None
     then reply StatusNotFound (Error ''pod name does not exist in namespace'')
     else Get E (pod_key (text_of E res)) (\<lambda>res err.
     if res = Raw '''' \<or> err \<noteq> None then reply StatusNotFound (Error ''pod does not exist'')
     else case json_Unmarshal_Pod res of (pod, err) \<Rightarrow>
       if err \<noteq> None then reply StatusInternalServerError (Error ''error in json unmarshal'')
       else reply StatusOK (DataPodStatus (Pod_Status pod))))"

definition PutPodStatusHandler :: "'w env \<Rightarrow> string \<Rightarrow> string \<Rightarrow> PodStatus option \<Rightarrow> 'w api" where
  "PutPodStatusHandler E np pod_name req = (case req of None \<Rightarrow> Return | Some pod_status \<Rightarrow>
     Get E (ns_key np ''pods'' pod_name) (\<lambda>res err.
     if res = Raw '''' \<or> err \<noteq> None
     then reply StatusNotFound (Error ''pod name does not exist in namespace'')
     else let all_pod_keystr = pod_key (text_of E res) in
     Get E all_pod_keystr (\<lambda>res err.
     if res = Raw '''' \<or> err \<noteq> None then reply StatusNotFound (Error ''pod does not exist'')
     else case json_Unmarshal_Pod res of (pod, err) \<Rightarrow>
     if err \<noteq> None then reply StatusInternalServerError (Error ''error in json unmarshal'')
     else let pod = pod\<lparr>Pod_Status := pod_status\<rparr> in
     case json_Marshal (JPod pod) of (pod_str, err) \<Rightarrow>
     if err \<noteq> None then reply StatusInternalServerError (Error ''error in json marshal'')
     else Set E all_pod_keystr pod_str (\<lambda>err.
     if err \<noteq> None then reply StatusInternalServerError (Error ''error in writing to etcd'')
     else reply StatusOK (Message ''successfully updated pod status'')))))"

text \<open>
  The pods of a node: entries whose pod is gone are collected and deleted afterwards; the results
  of these deletions are ignored.
\<close>

fun delete_keys :: "'w env \<Rightarrow> string list \<Rightarrow> 'w api \<Rightarrow> 'w api" where
  "delete_keys E [] k = k"
| "delete_keys E (mapping # ms) k = Delete E mapping (\<lambda>_. delete_keys E ms k)"

fun collect_node_pods ::
    "'w env \<Rightarrow> (string, document) gomap \<Rightarrow> string list \<Rightarrow> Pod list \<Rightarrow> 'w api" where
  "collect_node_pods E [] keysToDelete all_pod_str =
     delete_keys E keysToDelete (reply StatusOK (DataPods all_pod_str))"
| "collect_node_pods E ((k, v) # kvs) keysToDelete all_pod_str =
     Get E (pod_key (text_of E v)) (\<lambda>res err.
     if res = Raw '''' \<or> err \<noteq> None then collect_node_pods E kvs (keysToDelete @ [k]) all_pod_str
     else case json_Unmarshal_Pod res of (pod, err) \<Rightarrow>
       if err \<noteq> None then reply StatusInternalServerError (Error ''error in json unmarshal'')
       else collect_node_pods E kvs keysToDelete (all_pod_str @ [pod]))"

definition GetPodsByNodeHandler :: "'w env \<Rightarrow> string \<Rightarrow> 'w api" where
  "GetPodsByNodeHandler E node_name =
     (if node_name = '''' then reply StatusNotFound (Error ''error in parsing nodename '')
      else GetSubKeysValues E (host_node_key node_name '''') (\<lambda>res err.
      if err \<noteq> None then reply StatusNotFound (Error ''node does not exist'')
      else collect_node_pods E res [] []))"

text \<open>Scheduling deletes every older entry of the pod before it writes the new one.\<close>

fun delete_mappings :: "'w env \<Rightarrow> UID \<Rightarrow> (string, document) gomap \<Rightarrow> 'w api \<Rightarrow> 'w api" where
  "delete_mappings E podUid [] k = k"
| "delete_mappings E podUid ((key, v) # kvs) k =
     (if text_of E v = podUid then Delete E key (\<lambda>err.
        if err \<noteq> None
        then reply StatusInternalServerError (Error ''error in deleting old node-pod mapping from etcd'')
        else delete_mappings E podUid kvs k)
      else delete_mappings E podUid kvs k)"

definition SchedulePodToNodeHandler :: "'w env \<Rightarrow> UID \<Rightarrow> string \<Rightarrow> 'w api" where
  "SchedulePodToNodeHandler E podUid nodeName =
     (if podUid = '''' \<or> nodeName = ''''
      then reply StatusBadRequest (Error ''pod uid or node name cannot be empty'')
      else Get E (pod_key podUid) (\<lambda>podJson err.
      if err \<noteq> None \<or> podJson = Raw ''''
      then reply StatusNotFound (Error (''pod '' @ podUid @ '' not found''))
      else case json_Unmarshal_Pod podJson of (pod, err) \<Rightarrow>
      if err \<noteq> None then reply StatusInternalServerError (Error ''error in json unmarshal'')
      else GetSubKeysValues E ''/registry/host-nodes'' (\<lambda>res err.
      if err \<noteq> None then reply StatusInternalServerError (Error ''error in reading from etcd'')
      else delete_mappings E podUid res
        (Set E (host_node_key nodeName
            (''/'' @ Namespace (Pod_Meta pod) @ ''_'' @ Name (Pod_Meta pod))) (Raw podUid) (\<lambda>err.
         if err \<noteq> None
         then reply StatusInternalServerError (Error ''error in writing new node-pod mapping to etcd'')
         else reply StatusOK NoData)))))"

text \<open>
  The error of the second read is not looked at: after a failed read all pods count as unscheduled.
\<close>

definition GetUnscheduledPodHandler :: "'w env \<Rightarrow> 'w api" where
  "GetUnscheduledPodHandler E =
     GetSubKeysValues E ''/registry/pods'' (\<lambda>res err.
     if err \<noteq> None then reply StatusInternalServerError (Error ''error in reading from etcd'')
     else GetSubKeysValues E ''/registry/host-nodes'' (\<lambda>hostRes _.
     let scheduledUidSet = map (\<lambda>e. text_of E (snd e)) hostRes in
     case unmarshal_all json_Unmarshal_Pod (map snd res) of
       Inl _ \<Rightarrow> reply StatusInternalServerError (Error ''error in json unmarshal'')
     | Inr pods \<Rightarrow> reply StatusOK (DataPods
         (filter (\<lambda>pod. \<not> List.member scheduledUidSet (MetaUID (Pod_Meta pod))) pods))))"

end
