(* ===== verification/Slot_Alloc.thy ===== *)
theory Slot_Alloc
  imports Api_Types
begin

unbundle bit_operations_syntax

text \<open>
  \<open>pkg/kubeapiserver/utils/alloc.go\<close>: the bitmaps from which the API server takes the cluster IPs
  of services and the names of nodes. A bitmap is a slice of bytes that the functions update in
  place, so the model returns the new one. The locale \<open>name_pool\<close> is the contract the handlers
  rely on; both allocators are interpretations of it.
\<close>

type_synonym byte = "8 word"
type_synonym bitmap = "byte list"

section \<open>The code\<close>

definition IPPrefix :: string where "IPPrefix = ''100.0.0.''"
definition IPPoolSize :: nat where [simp]: "IPPoolSize = 256"
definition NodePrefix :: string where "NodePrefix = ''node-''"
definition NodePoolSize :: nat where [simp]: "NodePoolSize = 64"

text \<open>The loop over the bits of a byte: the first index of the list whose bit is clear.\<close>

fun free_bit :: "byte \<Rightarrow> nat list \<Rightarrow> nat option" where
  "free_bit b [] = None"
| "free_bit b (i # is) = (if b AND push_bit i 1 \<noteq> 0 then free_bit b is else Some i)"

text \<open>The loop over the bytes, from the byte with index \<open>idx\<close> on: index, bit and new byte.\<close>

fun alloc_scan :: "nat \<Rightarrow> bitmap \<Rightarrow> (nat \<times> nat \<times> byte) option" where
  "alloc_scan idx [] = None"
| "alloc_scan idx (b # bs) =
     (if b = 0xff then alloc_scan (Suc idx) bs
      else case free_bit b [0..<8] of
        Some i \<Rightarrow> Some (idx, i, b OR push_bit i 1)
      | None \<Rightarrow> alloc_scan (Suc idx) bs)"

definition AllocIP :: "bitmap \<Rightarrow> string + (string \<times> bitmap)" where
  "AllocIP bitmap =
     (if length bitmap \<noteq> IPPoolSize div 8 then Inl ''invalid bitmap size''
      else case alloc_scan 0 bitmap of
        Some (idx, i, b) \<Rightarrow> Inr (IPPrefix @ dec (idx * 8 + i), bitmap[idx := b])
      | None \<Rightarrow> Inl ''no available ip'')"

definition FreeIP :: "string \<Rightarrow> bitmap \<Rightarrow> string + bitmap" where
  "FreeIP ip bitmap =
     (if length bitmap \<noteq> IPPoolSize div 8 then Inl ''invalid bitmap size''
      else case sscanf_prefix_d IPPrefix ip of
        None \<Rightarrow> Inl ''scan error''
      | Some i \<Rightarrow>
          if i < 0 \<or> i \<ge> int IPPoolSize then Inl ''invalid ip''
          else let idx = nat i; b = bitmap ! (idx div 8) in
            if b AND push_bit (idx mod 8) 1 = 0 then Inl ''ip is not allocated''
            else Inr (bitmap[idx div 8 := b AND NOT (push_bit (idx mod 8) 1)]))"

definition allocInternal :: "bitmap \<Rightarrow> nat \<Rightarrow> string + (nat \<times> bitmap)" where
  "allocInternal bitmap sz =
     (if length bitmap \<noteq> sz div 8 then Inl ''invalid bitmap size''
      else case alloc_scan 0 bitmap of
        Some (idx, i, b) \<Rightarrow> Inr (idx * 8 + i, bitmap[idx := b])
      | None \<Rightarrow> Inl ''no available slot'')"

definition freeInternal :: "bitmap \<Rightarrow> nat \<Rightarrow> int \<Rightarrow> string + bitmap" where
  "freeInternal bitmap sz i =
     (if length bitmap \<noteq> sz div 8 then Inl ''invalid bitmap size''
      else if i < 0 \<or> i \<ge> int sz then Inl ''invalid index''
      else let idx = nat i; b = bitmap ! (idx div 8) in
        if b AND push_bit (idx mod 8) 1 = 0 then Inl ''slot is not allocated''
        else Inr (bitmap[idx div 8 := b AND NOT (push_bit (idx mod 8) 1)]))"

definition AllocNode :: "bitmap \<Rightarrow> string + (string \<times> bitmap)" where
  "AllocNode bitmap = (case allocInternal bitmap NodePoolSize of
       Inl e \<Rightarrow> Inl e
     | Inr (nodeNum, bitmap') \<Rightarrow> Inr (NodePrefix @ dec nodeNum, bitmap'))"

definition FreeNode :: "string \<Rightarrow> bitmap \<Rightarrow> string + bitmap" where
  "FreeNode node bitmap = (case sscanf_prefix_d NodePrefix node of
       None \<Rightarrow> Inl ''scan error''
     | Some nodeNum \<Rightarrow> freeInternal bitmap NodePoolSize nodeNum)"

section \<open>Slots in use\<close>

definition slots :: "bitmap \<Rightarrow> nat set" where
  "slots bm = {n. n < 8 * length bm \<and> bit (bm ! (n div 8)) (n mod 8)}"

lemma slots_bound: "n \<in> slots bm \<Longrightarrow> n < 8 * length bm"
  by (simp add: slots_def)

lemma finite_slots [simp]: "finite (slots bm)"
  by (rule finite_subset [of _ "{..<8 * length bm}"]) (auto simp: slots_def)

lemma and_push_bit_iff: "b AND push_bit i 1 = 0 \<longleftrightarrow> \<not> bit b i" for b :: byte
  using bit_iff_and_push_bit_not_eq_0 [of b i] by blast

lemmas and_mask_iff [simp] = and_push_bit_iff [simplified]

lemma free_bit_Some: "free_bit b is = Some i \<Longrightarrow> i \<in> set is \<and> \<not> bit b i"
  by (induction "is") (auto split: if_splits)

lemma free_bit_None: "free_bit b is = None \<longleftrightarrow> (\<forall>i\<in>set is. bit b i)"
  by (induction "is") auto

lemma free_bit_first:
  "free_bit b [a..<c] = Some i \<Longrightarrow> a \<le> j \<Longrightarrow> j < i \<Longrightarrow> bit b j"
proof (induction "c - a" arbitrary: a)
  case (Suc n)
  then have ac: "[a..<c] = a # [Suc a..<c]" by (simp add: upt_conv_Cons)
  show ?case
  proof (cases "bit b a")
    case True
    with Suc.prems ac have "free_bit b [Suc a..<c] = Some i" by simp
    then have "j \<noteq> a \<Longrightarrow> bit b j"
      using Suc.hyps(1) [of "Suc a"] Suc.hyps(2) Suc.prems by simp
    with True show ?thesis by (cases "j = a") auto
  next
    case False
    with Suc.prems ac show ?thesis by simp
  qed
qed simp

lemma bit_full_byte: "(b = 0xff) = (\<forall>i<8. bit b i)" for b :: byte
proof -
  have "(0xff :: byte) = - 1" by simp
  then have "b = 0xff \<longleftrightarrow> b = - 1" by (simp only:)
  also have "\<dots> \<longleftrightarrow> (\<forall>i<8. bit b i)"
    by (auto simp: bit_eq_iff)
  finally show ?thesis .
qed

lemma full_byte_bit: "b = 0xff \<Longrightarrow> i < 8 \<Longrightarrow> bit b i" for b :: byte
  using bit_full_byte [of b] by blast

lemma alloc_scan_None: "alloc_scan k bm = None \<longleftrightarrow> (\<forall>b\<in>set bm. b = 0xff)"
proof (induction k bm rule: alloc_scan.induct)
  case (2 k b bs)
  show ?case
  proof (cases "b = 0xff")
    case False
    then have "free_bit b [0..<8] \<noteq> None"
      by (auto simp: free_bit_None bit_full_byte)
    with False show ?thesis by auto
  qed (use 2 in simp)
qed simp

lemma alloc_scan_Some:
  assumes "alloc_scan k bm = Some (idx, i, b)"
  shows "k \<le> idx" "idx - k < length bm" "i < 8" "\<not> bit (bm ! (idx - k)) i"
    "b = bm ! (idx - k) OR push_bit i 1"
    "\<And>j. j < idx - k \<Longrightarrow> bm ! j = 0xff" "\<And>j. j < i \<Longrightarrow> bit (bm ! (idx - k)) j"
proof -
  have "k \<le> idx \<and> idx - k < length bm \<and> i < 8 \<and> \<not> bit (bm ! (idx - k)) i
    \<and> b = bm ! (idx - k) OR push_bit i 1 \<and> (\<forall>j < idx - k. bm ! j = 0xff)
    \<and> (\<forall>j < i. bit (bm ! (idx - k)) j)"
    using assms
  proof (induction k bm rule: alloc_scan.induct)
    case (2 k c bs)
    show ?case
    proof (cases "c = 0xff")
      case True
      with 2 show ?thesis
        by (auto simp: nth_Cons split: nat.splits) (metis Suc_diff_Suc Suc_le_lessD less_Suc_eq_0_disj nat.inject)+
    next
      case False
      then obtain m where m: "free_bit c [0..<8] = Some m"
        by (cases "free_bit c [0..<8]") (auto simp: free_bit_None bit_full_byte)
      with False 2 have "idx = k" "i = m" "b = c OR push_bit m 1" by auto
      with m free_bit_Some [OF m] show ?thesis
        by (auto intro: free_bit_first [OF m])
    qed
  qed simp
  then show "k \<le> idx" "idx - k < length bm" "i < 8" "\<not> bit (bm ! (idx - k)) i"
    "b = bm ! (idx - k) OR push_bit i 1"
    "\<And>j. j < idx - k \<Longrightarrow> bm ! j = 0xff" "\<And>j. j < i \<Longrightarrow> bit (bm ! (idx - k)) j"
    by auto
qed

lemma set_clear_bit:
  fixes b :: byte
  shows "i < 8 \<Longrightarrow> bit (b OR 2 ^ i) j \<longleftrightarrow> j = i \<or> bit b j"
    "bit (b AND NOT (2 ^ i)) j \<longleftrightarrow> j < 8 \<and> j \<noteq> i \<and> bit b j"
  by (auto simp: bit_or_iff bit_and_iff bit_not_iff bit_exp_iff dest: bit_imp_le_length)

lemma slots_update:
  "k < length bm \<Longrightarrow> (n \<in> slots (bm[k := b])) =
     (if n div 8 = k then n < 8 * length bm \<and> bit b (n mod 8) else n \<in> slots bm)"
  by (auto simp: slots_def nth_list_update)

lemma slots_set:
  assumes "k < length bm" "i < 8"
  shows "slots (bm[k := bm ! k OR push_bit i 1]) = insert (k * 8 + i) (slots bm)"
proof (rule set_eqI)
  fix n
  have "n = k * 8 + i \<longleftrightarrow> n div 8 = k \<and> n mod 8 = i" using assms(2) by auto
  then show "n \<in> slots (bm[k := bm ! k OR push_bit i 1]) \<longleftrightarrow> n \<in> insert (k * 8 + i) (slots bm)"
    using assms by (auto simp: slots_update set_clear_bit) (auto simp: slots_def)
qed

lemma slots_clear:
  assumes "n < 8 * length bm"
  shows "slots (bm[n div 8 := bm ! (n div 8) AND NOT (push_bit (n mod 8) 1)]) = slots bm - {n}"
proof (rule set_eqI)
  fix m
  have k: "n div 8 < length bm" using assms by auto
  have "m = n \<longleftrightarrow> m div 8 = n div 8 \<and> m mod 8 = n mod 8"
    by (metis div_mult_mod_eq)
  then show "m \<in> slots (bm[n div 8 := bm ! (n div 8) AND NOT (push_bit (n mod 8) 1)])
      \<longleftrightarrow> m \<in> slots bm - {n}"
    using k by (auto simp: slots_update set_clear_bit) (auto simp: slots_def)
qed

text \<open>The scan takes the least free slot and fails when there is none.\<close>

lemma alloc_scan_slots:
  assumes "alloc_scan 0 bm = Some (idx, i, b)"
  shows "idx * 8 + i \<notin> slots bm" "idx * 8 + i < 8 * length bm"
    "slots (bm[idx := b]) = insert (idx * 8 + i) (slots bm)"
    "\<And>m. m < idx * 8 + i \<Longrightarrow> m \<in> slots bm"
proof -
  note s = alloc_scan_Some [OF assms, unfolded diff_zero]
  show "idx * 8 + i \<notin> slots bm" using s by (simp add: slots_def)
  show bnd: "idx * 8 + i < 8 * length bm" using s by linarith
  show "slots (bm[idx := b]) = insert (idx * 8 + i) (slots bm)"
    using s slots_set [of idx bm i] by simp
  fix m assume m: "m < idx * 8 + i"
  show "m \<in> slots bm"
  proof (cases "m div 8 < idx")
    case True
    then have "bm ! (m div 8) = 0xff" by (rule s(6))
    then have "bit (bm ! (m div 8)) (m mod 8)" by (rule full_byte_bit) simp
    moreover have "m < 8 * length bm" using m bnd by linarith
    ultimately show ?thesis by (simp add: slots_def)
  next
    case False
    moreover have "m < (idx + 1) * 8" using m \<open>i < 8\<close> by simp
    then have "m div 8 < idx + 1" by (simp add: less_mult_imp_div_less)
    ultimately have d: "m div 8 = idx" by simp
    with m div_mult_mod_eq [of m 8] have "m mod 8 < i" by simp
    then show ?thesis using s(7) d m bnd by (simp add: slots_def)
  qed
qed

lemma alloc_scan_full: "alloc_scan 0 bm = None \<longleftrightarrow> slots bm = {..<8 * length bm}"
proof
  assume "alloc_scan 0 bm = None"
  then have full: "\<And>b. b \<in> set bm \<Longrightarrow> b = 0xff" by (simp add: alloc_scan_None)
  have "n \<in> slots bm" if "n < 8 * length bm" for n
  proof -
    have "n div 8 < length bm" using that by auto
    then have "bm ! (n div 8) = 0xff" using full nth_mem by blast
    then have "bit (bm ! (n div 8)) (n mod 8)" by (rule full_byte_bit) simp
    with that show ?thesis by (simp add: slots_def)
  qed
  then show "slots bm = {..<8 * length bm}" by (auto dest: slots_bound)
next
  assume "slots bm = {..<8 * length bm}"
  then show "alloc_scan 0 bm = None"
    using alloc_scan_slots(1,2) by (cases "alloc_scan 0 bm") (auto, blast)
qed

text \<open>A bitmap is its length and its slots.\<close>

lemma slots_eq_iff: "length bm = length bm' \<Longrightarrow> slots bm = slots bm' \<longleftrightarrow> bm = bm'"
proof
  assume len: "length bm = length bm'" and s: "slots bm = slots bm'"
  show "bm = bm'"
  proof (rule nth_equalityI [OF len])
    fix k assume k: "k < length bm"
    have "bit (bm ! k) i \<longleftrightarrow> bit (bm' ! k) i" if "i < 8" for i
    proof -
      have "k * 8 + i \<in> slots bm \<longleftrightarrow> k * 8 + i \<in> slots bm'" using s by simp
      with k len that show ?thesis by (simp add: slots_def)
    qed
    then show "bm ! k = bm' ! k" by (intro bit_word_eqI) simp
  qed
qed simp

section \<open>Effect of the operations on the slots\<close>

lemma allocInternal_spec:
  assumes "allocInternal bm sz = Inr (n, bm')"
  shows "n \<notin> slots bm" "n < 8 * length bm" "slots bm' = insert n (slots bm)"
    "length bm' = length bm" "length bm = sz div 8" "\<And>m. m < n \<Longrightarrow> m \<in> slots bm"
proof -
  from assms obtain idx i b where len: "length bm = sz div 8" and sc: "alloc_scan 0 bm = Some (idx, i, b)"
    and eq: "n = idx * 8 + i" "bm' = bm[idx := b]"
    by (auto simp: allocInternal_def split: if_splits option.splits)
  show "length bm = sz div 8" by (rule len)
  show "n \<notin> slots bm" "n < 8 * length bm" "slots bm' = insert n (slots bm)" "length bm' = length bm"
    using alloc_scan_slots(1-3) [OF sc] by (simp_all add: eq)
  show "m \<in> slots bm" if "m < n" for m
    using that alloc_scan_slots(4) [OF sc] by (simp add: eq)
qed

lemma allocInternal_full:
  "length bm = sz div 8 \<Longrightarrow>
     (\<exists>e. allocInternal bm sz = Inl e) \<longleftrightarrow> slots bm = {..<8 * length bm}"
  using alloc_scan_full [of bm]
  by (cases "alloc_scan 0 bm") (auto simp: allocInternal_def split: prod.splits)

lemma freeInternal_spec:
  assumes "length bm = sz div 8" "8 dvd sz"
  shows "freeInternal bm sz (int n) =
    (if n \<ge> sz then Inl ''invalid index''
     else if n \<notin> slots bm then Inl ''slot is not allocated''
     else Inr (bm[n div 8 := bm ! (n div 8) AND NOT (push_bit (n mod 8) 1)]))"
  using assms by (auto simp: freeInternal_def slots_def Let_def)

lemma freeInternal_slots:
  assumes "length bm = sz div 8" "8 dvd sz" "n \<in> slots bm"
  shows "\<exists>bm'. freeInternal bm sz (int n) = Inr bm' \<and> slots bm' = slots bm - {n} \<and> length bm' = length bm"
  using assms slots_bound [OF assms(3)] slots_clear [of n bm]
  by (simp add: freeInternal_spec)

text \<open>The IP allocator is the slot allocator of size 256 behind the textual form of its slots.\<close>

lemma AllocIP_slots:
  "AllocIP bm = (case allocInternal bm IPPoolSize of
     Inl e \<Rightarrow> Inl (if length bm = 32 then ''no available ip'' else e)
   | Inr (n, bm') \<Rightarrow> Inr (IPPrefix @ dec n, bm'))"
  by (auto simp: AllocIP_def allocInternal_def split: option.splits)

lemma FreeIP_slots:
  "FreeIP (IPPrefix @ dec n) bm = (case freeInternal bm IPPoolSize (int n) of
     Inl e \<Rightarrow> Inl (if length bm \<noteq> 32 then e else if n \<ge> 256 then ''invalid ip'' else ''ip is not allocated'')
   | Inr bm' \<Rightarrow> Inr bm')" if "n < 2 ^ 63"
  using that by (auto simp: FreeIP_def freeInternal_def scan_d_dec Let_def)

lemma FreeNode_slots:
  "n < 2 ^ 63 \<Longrightarrow> FreeNode (NodePrefix @ dec n) bm = freeInternal bm NodePoolSize (int n)"
  by (simp add: FreeNode_def scan_d_dec)

section \<open>The contract of a name pool\<close>

text \<open>
  \<open>held b\<close> is the set of names that the state \<open>b\<close> of the pool has given out. The laws are what the
  handlers rely on: a new name is one nobody holds, a pool refuses only when all names are out, and
  exactly the held names can be given back.
\<close>

locale name_pool =
  fixes alloc :: "'b \<Rightarrow> string + (string \<times> 'b)"
    and free :: "string \<Rightarrow> 'b \<Rightarrow> string + 'b"
    and held :: "'b \<Rightarrow> string set"
    and names :: "string set"
    and ok :: "'b \<Rightarrow> bool"
  assumes held_names: "ok b \<Longrightarrow> held b \<subseteq> names"
    and finite_names: "finite names"
    and alloc_ok: "ok b \<Longrightarrow> alloc b = Inr (n, b') \<Longrightarrow>
      n \<notin> held b \<and> held b' = insert n (held b) \<and> ok b'"
    and alloc_full: "ok b \<Longrightarrow> (\<exists>e. alloc b = Inl e) \<longleftrightarrow> held b = names"
    and free_held: "ok b \<Longrightarrow> n \<in> held b \<Longrightarrow>
      \<exists>b'. free n b = Inr b' \<and> held b' = held b - {n} \<and> ok b'"
    and free_unheld: "ok b \<Longrightarrow> n \<in> names - held b \<Longrightarrow> \<exists>e. free n b = Inl e"
begin

text \<open>\<open>alloc_all k b\<close> asks \<open>k\<close> times for a name and keeps the names it gets.\<close>

fun alloc_all :: "nat \<Rightarrow> 'b \<Rightarrow> string list \<times> 'b" where
  "alloc_all 0 b = ([], b)"
| "alloc_all (Suc k) b = (case alloc b of
     Inl e \<Rightarrow> ([], b)
   | Inr (n, b') \<Rightarrow> (let (ns, b'') = alloc_all k b' in (n # ns, b'')))"

lemma alloc_all_distinct:
  assumes "ok b"
  shows "distinct (fst (alloc_all k b)) \<and> set (fst (alloc_all k b)) \<inter> held b = {}
    \<and> held (snd (alloc_all k b)) = held b \<union> set (fst (alloc_all k b)) \<and> ok (snd (alloc_all k b))"
  using assms
proof (induction k arbitrary: b)
  case (Suc k)
  show ?case
  proof (cases "alloc b")
    case (Inr r)
    obtain n b' where r: "r = (n, b')" by (cases r)
    with Inr Suc.prems alloc_ok have "n \<notin> held b" "held b' = insert n (held b)" "ok b'" by auto
    with Suc.IH [of b'] Inr r show ?thesis by (auto simp: Let_def split: prod.splits)
  qed (use Suc.prems in simp)
qed simp

lemma free_after_alloc:
  assumes "ok b" "alloc b = Inr (n, b')"
  shows "\<exists>b''. free n b' = Inr b'' \<and> held b'' = held b \<and> ok b''"
  using alloc_ok [OF assms] free_held [of b' n] by auto

lemma alloc_after_free:
  assumes "ok b" "n \<in> held b" "free n b = Inr b'"
  shows "\<exists>m b''. alloc b' = Inr (m, b'')"
proof -
  have b': "ok b'" "held b' = held b - {n}" using free_held [OF assms(1,2)] assms(3) by auto
  then have "held b' \<noteq> names" using assms held_names by auto
  with b' alloc_full show ?thesis by (cases "alloc b'") auto
qed

text \<open>As many requests succeed as there are free names.\<close>

lemma alloc_all_length:
  "ok b \<Longrightarrow> length (fst (alloc_all k b)) = min k (card names - card (held b))"
proof (induction k arbitrary: b)
  case (Suc k)
  have fin: "finite (held b)" using held_names [OF Suc.prems] finite_names by (rule finite_subset)
  show ?case
  proof (cases "alloc b")
    case (Inl e)
    with alloc_full [OF Suc.prems] show ?thesis by auto
  next
    case (Inr r)
    obtain n b' where r: "r = (n, b')" by (cases r)
    with Inr Suc.prems alloc_ok have b': "n \<notin> held b" "held b' = insert n (held b)" "ok b'" by auto
    moreover from b' held_names finite_names have "card (insert n (held b)) \<le> card names"
      by (metis card_mono)
    ultimately show ?thesis using Inr r Suc.IH [of b'] fin
      by (auto simp: Let_def split: prod.splits)
  qed
qed simp

end

section \<open>Both allocators meet it\<close>

definition node_held :: "bitmap \<Rightarrow> string set" where
  "node_held bm = (\<lambda>n. NodePrefix @ dec n) ` slots bm"

definition ip_held :: "bitmap \<Rightarrow> string set" where
  "ip_held bm = (\<lambda>n. IPPrefix @ dec n) ` slots bm"

definition node_names :: "string set" where
  "node_names = (\<lambda>n. NodePrefix @ dec n) ` {..<NodePoolSize}"

definition ip_names :: "string set" where
  "ip_names = (\<lambda>n. IPPrefix @ dec n) ` {..<IPPoolSize}"

abbreviation node_ok :: "bitmap \<Rightarrow> bool" where
  "node_ok bm \<equiv> length bm = NodePoolSize div 8"

abbreviation ip_ok :: "bitmap \<Rightarrow> bool" where
  "ip_ok bm \<equiv> length bm = IPPoolSize div 8"

lemma inj_prefix_dec: "inj (\<lambda>n. p @ dec n)"
  by (rule injI) (simp add: dec_inj)

lemma prefix_dec_image: "(p @ dec n \<in> (\<lambda>n. p @ dec n) ` A) = (n \<in> A)"
  by (auto simp: dec_inj)

lemma image_prefix_dec_remove: "(\<lambda>n. p @ dec n) ` (A - {n}) = (\<lambda>n. p @ dec n) ` A - {p @ dec n}"
  by (auto simp: dec_inj)

lemma ip_held_inj: "ip_held bm = ip_held bm' \<longleftrightarrow> slots bm = slots bm'"
  by (simp add: ip_held_def inj_image_eq_iff [OF inj_prefix_dec])

interpretation node_pool: name_pool AllocNode FreeNode node_held node_names node_ok
proof
  fix b :: bitmap
  assume ok: "node_ok b"
  show "node_held b \<subseteq> node_names"
    using ok by (auto simp: node_held_def node_names_def dest!: slots_bound)
  show "(\<exists>e. AllocNode b = Inl e) \<longleftrightarrow> node_held b = node_names"
    using ok allocInternal_full [of b 64] inj_image_eq_iff [OF inj_prefix_dec]
    by (auto simp: AllocNode_def node_held_def node_names_def split: sum.splits)
  fix n b'
  show "AllocNode b = Inr (n, b') \<Longrightarrow> n \<notin> node_held b \<and> node_held b' = insert n (node_held b) \<and> node_ok b'"
    using ok
    by (auto simp: AllocNode_def node_held_def prefix_dec_image dec_inj allocInternal_spec(3,4)
        dest: allocInternal_spec(1) split: sum.splits)
  show "n \<in> node_names - node_held b \<Longrightarrow> \<exists>e. FreeNode n b = Inl e"
    using ok by (auto simp: node_names_def node_held_def prefix_dec_image FreeNode_slots freeInternal_spec)
  assume "n \<in> node_held b"
  then obtain k where k: "n = NodePrefix @ dec k" "k \<in> slots b" by (auto simp: node_held_def)
  with ok slots_bound [OF k(2)] freeInternal_slots [of b 64 k]
  show "\<exists>b'. FreeNode n b = Inr b' \<and> node_held b' = node_held b - {n} \<and> node_ok b'"
    by (auto simp: FreeNode_slots node_held_def image_prefix_dec_remove)
qed (simp add: node_names_def)

interpretation ip_pool: name_pool AllocIP FreeIP ip_held ip_names ip_ok
proof
  fix b :: bitmap
  assume ok: "ip_ok b"
  show "ip_held b \<subseteq> ip_names"
    using ok by (auto simp: ip_held_def ip_names_def dest!: slots_bound)
  show "(\<exists>e. AllocIP b = Inl e) \<longleftrightarrow> ip_held b = ip_names"
    using ok allocInternal_full [of b 256] inj_image_eq_iff [OF inj_prefix_dec]
    by (auto simp: AllocIP_slots ip_held_def ip_names_def split: sum.splits)
  fix n b'
  show "AllocIP b = Inr (n, b') \<Longrightarrow> n \<notin> ip_held b \<and> ip_held b' = insert n (ip_held b) \<and> ip_ok b'"
    using ok
    by (auto simp: AllocIP_slots ip_held_def prefix_dec_image dec_inj allocInternal_spec(3,4)
        dest: allocInternal_spec(1) split: sum.splits)
  show "n \<in> ip_names - ip_held b \<Longrightarrow> \<exists>e. FreeIP n b = Inl e"
    using ok by (auto simp: ip_names_def ip_held_def prefix_dec_image FreeIP_slots freeInternal_spec)
  assume "n \<in> ip_held b"
  then obtain k where k: "n = IPPrefix @ dec k" "k \<in> slots b" by (auto simp: ip_held_def)
  with ok slots_bound [OF k(2)] freeInternal_slots [of b 256 k]
  show "\<exists>b'. FreeIP n b = Inr b' \<and> ip_held b' = ip_held b - {n} \<and> ip_ok b'"
    by (auto simp: FreeIP_slots ip_held_def image_prefix_dec_remove)
qed (simp add: ip_names_def)

end
