(* ===== verification/Go_Net.thy ===== *)
theory Go_Net
  imports K8s_Prelude
begin

text \<open>
  The two functions of Go's package \<open>net\<close> that the sources call: \<open>ParseIP\<close> (whether a string is an
  IPv4 or IPv6 address; the address itself is not used) and \<open>SplitHostPort\<close>.
\<close>

section \<open>ParseIP\<close>

text \<open>\<open>strings.Split(s, sep)\<close> for a one-character separator.\<close>

fun split_on :: "char \<Rightarrow> string \<Rightarrow> string list" where
  "split_on sep [] = [[]]"
| "split_on sep (c # cs) = (if c = sep then [] # split_on sep cs
     else case split_on sep cs of (f # fs) \<Rightarrow> (c # f) # fs | [] \<Rightarrow> [[c]])"

definition is_octet :: "string \<Rightarrow> bool" where
  "is_octet f \<longleftrightarrow> f \<noteq> [] \<and> list_all is_digit f \<and> digits_val f \<le> 255
     \<and> (length f > 1 \<longrightarrow> hd f \<noteq> CHR ''0'')"

definition parse_ipv4 :: "string \<Rightarrow> bool" where
  "parse_ipv4 s = (let fs = split_on (CHR ''.'') s in length fs = 4 \<and> list_all is_octet fs)"

definition is_hex :: "char \<Rightarrow> bool" where
  "is_hex c \<longleftrightarrow> is_digit c \<or> (of_char c :: nat) \<in> {65..70} \<or> (of_char c :: nat) \<in> {97..102}"

text \<open>
  The loop over the groups of an IPv6 address: \<open>i\<close> counts the bytes filled so far, \<open>ellipsis\<close> says
  whether \<open>::\<close> was seen. After a colon at least one more character must follow.
\<close>

definition v6_end :: "nat \<Rightarrow> bool \<Rightarrow> bool" where
  "v6_end i ellipsis = (if i < 16 then ellipsis else i = 16 \<and> \<not> ellipsis)"

function v6_groups :: "nat \<Rightarrow> bool \<Rightarrow> string \<Rightarrow> bool" where
  "v6_groups i ellipsis s =
     (if i \<ge> 16 then s = [] \<and> v6_end i ellipsis
      else let g = takeWhile is_hex s; r = dropWhile is_hex s in
        if g = [] \<or> length g > 4 then False
        else case r of
          [] \<Rightarrow> v6_end (i + 2) ellipsis
        | c # r1 \<Rightarrow>
            if c = CHR ''.'' then (ellipsis \<or> i = 12) \<and> i + 4 \<le> 16 \<and> parse_ipv4 s \<and> v6_end (i + 4) ellipsis
            else if c \<noteq> CHR '':'' then False
            else case r1 of
              [] \<Rightarrow> False
            | d # r2 \<Rightarrow>
                if d = CHR '':'' then
                  (if ellipsis then False
                   else if r2 = [] then v6_end (i + 2) True else v6_groups (i + 2) True r2)
                else v6_groups (i + 2) ellipsis r1)"
  by pat_completeness auto
termination
proof (relation "measure (\<lambda>(i, ellipsis, s). 16 - i)", goal_cases)
  case 1
  show ?case by simp
qed auto

declare v6_groups.simps [simp del]

definition parse_ipv6 :: "string \<Rightarrow> bool" where
  "parse_ipv6 s = (case s of
     (a # b # r) \<Rightarrow> if a = CHR '':'' \<and> b = CHR '':''
       then (if r = [] then True else v6_groups 0 True r) else v6_groups 0 False s
   | _ \<Rightarrow> v6_groups 0 False s)"

text \<open>The first dot, colon or percent sign decides; \<open>ParseIP\<close> takes no zone.\<close>

fun first_of :: "char list \<Rightarrow> string \<Rightarrow> char option" where
  "first_of cs [] = None"
| "first_of cs (c # s) = (if List.member cs c then Some c else first_of cs s)"

definition ParseIP :: "string \<Rightarrow> bool" where
  "ParseIP s = (case first_of [CHR ''.'', CHR '':'', CHR ''%''] s of
     Some c \<Rightarrow> if c = CHR ''.'' then parse_ipv4 s
       else if c = CHR '':'' then \<not> List.member s (CHR ''%'') \<and> parse_ipv6 s else False
   | None \<Rightarrow> False)"

section \<open>SplitHostPort\<close>

fun index_of :: "char \<Rightarrow> string \<Rightarrow> nat option" where
  "index_of c [] = None"
| "index_of c (d # s) = (if d = c then Some 0 else map_option Suc (index_of c s))"

fun last_index_of :: "char \<Rightarrow> string \<Rightarrow> nat option" where
  "last_index_of c [] = None"
| "last_index_of c (d # s) = (case last_index_of c s of
     Some i \<Rightarrow> Some (Suc i) | None \<Rightarrow> if d = c then Some 0 else None)"

text \<open>Host and port, or \<open>None\<close> for an error (the code then sees two empty strings).\<close>

definition SplitHostPort :: "string \<Rightarrow> (string \<times> string) option" where
  "SplitHostPort s = (case last_index_of (CHR '':'') s of
     None \<Rightarrow> None
   | Some i \<Rightarrow>
       if s \<noteq> [] \<and> hd s = CHR ''['' then
         (case index_of (CHR '']'') s of
            None \<Rightarrow> None
          | Some e \<Rightarrow> if e + 1 \<noteq> i then None
              else if List.member (drop 1 s) (CHR ''['') \<or> List.member (drop (e + 1) s) (CHR '']'') then None
              else Some (take (e - 1) (drop 1 s), drop (i + 1) s))
       else if List.member (take i s) (CHR '':'') then None
       else if List.member s (CHR ''['') \<or> List.member s (CHR '']'') then None
       else Some (take i s, drop (i + 1) s))"

lemma split_on_nonempty [simp]: "split_on c s \<noteq> []"
  by (cases s) (auto split: list.splits)

lemma split_on_notin: "c \<notin> set s \<Longrightarrow> split_on c s = [s]"
  by (induction s) auto

lemma split_on_append: "c \<notin> set s \<Longrightarrow> split_on c (s @ c # t) = s # split_on c t"
  by (induction s) auto

lemma last_index_of_append:
  "c \<notin> set t \<Longrightarrow> last_index_of c (s @ c # t) = Some (length s)"
proof -
  assume t: "c \<notin> set t"
  have "last_index_of c t = None" using t by (induction t) auto
  then show ?thesis by (induction s) auto
qed

text \<open>A host and a port without brackets and colons come apart again.\<close>

lemma SplitHostPort_join:
  assumes "set (h @ p) \<inter> {CHR '':'', CHR ''['', CHR '']''} = {}"
  shows "SplitHostPort (h @ '':'' @ p) = Some (h, p)"
proof -
  have "last_index_of (CHR '':'') (h @ '':'' @ p) = Some (length h)"
    using assms last_index_of_append [of "CHR '':''" p h] by auto
  then show ?thesis using assms
    by (cases h) (auto simp: SplitHostPort_def)
qed

end
