(* ===== verification/Api_Services.thy ===== *)
theory Api_Services
  imports Api_Core Slot_Alloc Go_Net
begin

text \<open>
  The service, DNS and node handlers of \<open>routine.go\<close>: the objects whose names come out of the bitmaps
  of \<open>alloc.go\<close> and the hosts registry that keeps DNS hosts apart.
\<close>

section \<open>Bitmaps in the registry\<close>

definition bitmap_of_string :: "string \<Rightarrow> bitmap" where
  "bitmap_of_string s = map (\<lambda>c. of_char c) s"

definition string_of_bitmap :: "bitmap \<Rightarrow> string" where
  "string_of_bitmap bm = map (\<lambda>b. char_of (unat b)) bm"

section \<open>Services\<close>

definition getAllServicesFromEtcd ::
    "'w env \<Rightarrow> (Service list \<Rightarrow> error \<Rightarrow> 'w api) \<Rightarrow> 'w api" where
  "getAllServicesFromEtcd E k =
     GetSubKeysValues E ''/registry/services'' (\<lambda>res err.
     case err of Some e \<Rightarrow> k [] (Some e)
     | None \<Rightarrow> (case unmarshal_all json_Unmarshal_Service (map snd res) of
         Inl e \<Rightarrow> k [] (Some e)
       | Inr services \<Rightarrow> k services None))"

definition GetAllServicesHandler :: "'w env \<Rightarrow> 'w api" where
  "GetAllServicesHandler E = getAllServicesFromEtcd E (\<lambda>services err.
     case err of
       Some e \<Rightarrow> reply StatusInternalServerError (Error (''error in reading all services from etcd: '' @ e))
     | None \<Rightarrow> reply StatusOK (DataServices services))"

text \<open>
  The loop over the ports: the default protocol, the ranges, and node ports not listed twice. The
  result is the list of ports with protocols and the set of node ports.
\<close>

fun check_ports :: "bool \<Rightarrow> ServicePort list \<Rightarrow> int list \<Rightarrow> string + (ServicePort list \<times> int list)" where
  "check_ports isNodePort [] nodePortSet = Inr ([], nodePortSet)"
| "check_ports isNodePort (port # ports) nodePortSet =
     (let port' = (if ServicePort_Protocol port = ''''
        then port\<lparr>ServicePort_Protocol := ProtocolTCP\<rparr> else port) in
      if TargetPort port < PortMin \<or> TargetPort port > PortMax
      then Inl (''invalid target port '' @ dec_int (TargetPort port))
      else if Port port < PortMin \<or> Port port > PortMax
      then Inl (''invalid port '' @ dec_int (Port port))
      else if isNodePort \<and> (NodePort port < NodePortMin \<or> NodePort port > NodePortMax)
      then Inl (''invalid node port '' @ dec_int (NodePort port))
      else if isNodePort \<and> List.member nodePortSet (NodePort port)
      then Inl (''there are conflicting node ports: '' @ dec_int (NodePort port))
      else case check_ports isNodePort ports
          (if isNodePort then NodePort port # nodePortSet else nodePortSet) of
        Inl e \<Rightarrow> Inl e
      | Inr (ports', s) \<Rightarrow> Inr (port' # ports', s))"

text \<open>The loop over the ports of all services of type \<open>NodePort\<close>: the first that is taken.\<close>

fun node_port_conflict :: "int list \<Rightarrow> Service list \<Rightarrow> string option" where
  "node_port_conflict nodePortSet [] = None"
| "node_port_conflict nodePortSet (svc # svcs) =
     (if Service_Type (Svc_Spec svc) \<noteq> ServiceTypeNodePort then node_port_conflict nodePortSet svcs
      else case find (\<lambda>port. List.member nodePortSet (NodePort port)) (Service_Ports (Svc_Spec svc)) of
        Some port \<Rightarrow> Some (''node port '' @ dec_int (NodePort port) @ '' conflicts with service ''
          @ Name (Svc_Meta svc))
      | None \<Rightarrow> node_port_conflict nodePortSet svcs)"

definition checkTypeAndPorts ::
    "'w env \<Rightarrow> Service \<Rightarrow> (Service \<Rightarrow> error \<Rightarrow> 'w api) \<Rightarrow> 'w api" where
  "checkTypeAndPorts E service k =
     (if Service_Type (Svc_Spec service) \<noteq> '''' \<and> Service_Type (Svc_Spec service) \<noteq> ServiceTypeClusterIP
         \<and> Service_Type (Svc_Spec service) \<noteq> ServiceTypeNodePort
      then k service (Some (''invalid service type '' @ Service_Type (Svc_Spec service)))
      else let ty = (if Service_Type (Svc_Spec service) = '''' then ServiceTypeClusterIP
          else Service_Type (Svc_Spec service))
      in case check_ports (ty = ServiceTypeNodePort) (Service_Ports (Svc_Spec service)) [] of
        Inl e \<Rightarrow> k service (Some e)
      | Inr (ports, nodePortSet) \<Rightarrow>
          let service = service\<lparr>Svc_Spec := (Svc_Spec service)\<lparr>Service_Type := ty, Service_Ports := ports\<rparr>\<rparr>
          in if ty = ServiceTypeNodePort then
            getAllServicesFromEtcd E (\<lambda>allServices err.
            case err of Some e \<Rightarrow> k service (Some (''error in reading all services from etcd: '' @ e))
            | None \<Rightarrow> k service (node_port_conflict nodePortSet allServices))
          else k service None)"

text \<open>The IP bitmap: a missing one, or one that could not be read, is replaced by an empty one.\<close>

definition read_or_init_bitmap ::
    "'w env \<Rightarrow> string \<Rightarrow> nat \<Rightarrow> body \<Rightarrow> (bitmap \<Rightarrow> 'w api) \<Rightarrow> 'w api" where
  "read_or_init_bitmap E bitmapKey size_bits failure k =
     Get E bitmapKey (\<lambda>bitmapString err.
     if err \<noteq> None \<or> bitmapString = Raw '''' then
       let initialBitmap = replicate (size_bits div 8) 0 in
       Set E bitmapKey (Raw (string_of_bitmap initialBitmap)) (\<lambda>err.
       if err \<noteq> None then reply StatusInternalServerError failure else k initialBitmap)
     else k (bitmap_of_string (text_of E bitmapString)))"

definition AddServiceHandler ::
    "'w env \<Rightarrow> string \<Rightarrow> Service option \<Rightarrow> UID \<Rightarrow> time \<Rightarrow> 'w api" where
  "AddServiceHandler E namespace req uuid now = (case req of
     None \<Rightarrow> reply StatusBadRequest (Error ''invalid service json'')
   | Some service \<Rightarrow>
     if Name (Svc_Meta service) = '''' then reply StatusBadRequest (Error ''service name is required'')
     else if Kind (Svc_Type service) \<noteq> ''Service''
     then reply StatusBadRequest (Error ''invalid api object kind'')
     else if namespace = '''' then reply StatusBadRequest (Error ''namespace is required'')
     else if Namespace (Svc_Meta service) \<noteq> '''' \<and> Namespace (Svc_Meta service) \<noteq> namespace
     then reply StatusBadRequest (Error (''namespace mismatch, spec: '' @ Namespace (Svc_Meta service)
       @ '', url: '' @ namespace))
     else if Namespace (Svc_Meta service) = '''' \<and> namespace \<noteq> ''default''
     then reply StatusBadRequest (Error (''namespace mismatch, spec: empty(using default), url: '' @ namespace))
     else let namespaceSvcKey = ns_key namespace ''services'' (Name (Svc_Meta service)) in
     Get E namespaceSvcKey (\<lambda>result err.
     if err = None \<and> result \<noteq> Raw ''''
     then reply StatusConflict (Error (''service '' @ namespace @ ''/'' @ Name (Svc_Meta service) @ '' already exists''))
     else checkTypeAndPorts E service (\<lambda>service err.
     case err of Some e \<Rightarrow> reply StatusBadRequest (Error e)
     | None \<Rightarrow>
     read_or_init_bitmap E ip_bitmap_key IPPoolSize (Error ''error in writing to etcd'') (\<lambda>bitmap.
     case AllocIP bitmap of Inl _ \<Rightarrow> reply StatusBadRequest (Error ''no available ip'')
     | Inr (ip, bitmap) \<Rightarrow>
     Set E ip_bitmap_key (Raw (string_of_bitmap bitmap)) (\<lambda>err.
     if err \<noteq> None then reply StatusInternalServerError (Error ''error in writing to etcd'')
     else let service = service\<lparr>Svc_Spec := (Svc_Spec service)\<lparr>ClusterIP := ip\<rparr>,
         Svc_Meta := (Svc_Meta service)\<lparr>Namespace := namespace, MetaUID := uuid, CreationTimestamp := now\<rparr>\<rparr>
     in case json_Marshal (JService service) of (serviceJson, err) \<Rightarrow>
     if err \<noteq> None then reply StatusInternalServerError (Error ''error in json marshal'')
     else Set E (svc_key (MetaUID (Svc_Meta service))) serviceJson (\<lambda>err.
     if err \<noteq> None then reply StatusInternalServerError (Error ''error in writing to etcd'')
     else Set E namespaceSvcKey (Raw (MetaUID (Svc_Meta service))) (\<lambda>err.
     if err \<noteq> None then reply StatusInternalServerError (Error ''error in writing to etcd'')
     else reply StatusCreated (DataService service))))))))"

definition DeleteServiceHandler :: "'w env \<Rightarrow> string \<Rightarrow> string \<Rightarrow> 'w api" where
  "DeleteServiceHandler E namespace serviceName =
     (if namespace = '''' \<or> serviceName = ''''
      then reply StatusBadRequest (Error ''namespace and service name cannot be empty'')
      else let namespaceSvcKey = ns_key namespace ''services'' serviceName in
      Get E namespaceSvcKey (\<lambda>uid err.
      if err \<noteq> None \<or> uid = Raw ''''
      then reply StatusNotFound (Error (''service '' @ namespace @ ''/'' @ serviceName @ '' not found''))
      else let allSvcKey = svc_key (text_of E uid) in
      Get E allSvcKey (\<lambda>serviceJson err.
      if err \<noteq> None \<or> serviceJson = Raw ''''
      then reply StatusInternalServerError (Error ''error in reading service from etcd'')
      else case json_Unmarshal_Service serviceJson of (service, err) \<Rightarrow>
      if err \<noteq> None then reply StatusInternalServerError (Error ''error in json unmarshal'')
      else Get E ip_bitmap_key (\<lambda>bitmapString err.
      if err \<noteq> None \<or> bitmapString = Raw ''''
      then reply StatusInternalServerError (Error ''error in reading ip pool bit map from etcd'')
      else case FreeIP (ClusterIP (Svc_Spec service)) (bitmap_of_string (text_of E bitmapString)) of
        Inl _ \<Rightarrow> reply StatusInternalServerError (Error (''error in free ip '' @ ClusterIP (Svc_Spec service)))
      | Inr bitmap \<Rightarrow>
      Set E ip_bitmap_key (Raw (string_of_bitmap bitmap)) (\<lambda>err.
      if err \<noteq> None then reply StatusInternalServerError (Error ''error in writing ip pool bitmap to etcd'')
      else Delete E namespaceSvcKey (\<lambda>err.
      if err \<noteq> None then reply StatusInternalServerError (Error ''error in deleting service from etcd'')
      else Delete E allSvcKey (\<lambda>err.
      if err \<noteq> None then reply StatusInternalServerError (Error ''error in deleting service from etcd'')
      else reply StatusOK (DataService service))))))))"

text \<open>Of the handlers of this file only this one does not take the lock.\<close>

definition GetSidecarServiceNameMapping :: "'w env \<Rightarrow> 'w api" where
  "GetSidecarServiceNameMapping E = getAllServicesFromEtcd E (\<lambda>services err.
     case err of Some e \<Rightarrow> reply StatusInternalServerError (Error e)
     | None \<Rightarrow> reply StatusOK (DataSidecarServiceNameMapping
         (fold (\<lambda>svc mapping. mput (Name (Svc_Meta svc)) (ClusterIP (Svc_Spec svc)) mapping) services [])))"

section \<open>DNS\<close>

definition getAllDNSFromEtcd :: "'w env \<Rightarrow> (DNS list \<Rightarrow> error \<Rightarrow> 'w api) \<Rightarrow> 'w api" where
  "getAllDNSFromEtcd E k =
     GetSubKeysValues E ''/registry/dns'' (\<lambda>res err.
     case err of Some e \<Rightarrow> k [] (Some e)
     | None \<Rightarrow> (case unmarshal_all json_Unmarshal_DNS (map snd res) of
         Inl e \<Rightarrow> k [] (Some e)
       | Inr dnsSlice \<Rightarrow> k dnsSlice None))"

definition GetAllDNSHandler :: "'w env \<Rightarrow> 'w api" where
  "GetAllDNSHandler E = getAllDNSFromEtcd E (\<lambda>allDNS err.
     case err of
       Some e \<Rightarrow> reply StatusInternalServerError (Error (''error in reading all dns from etcd: '' @ e))
     | None \<Rightarrow> reply StatusOK (DataDNSs allDNS))"

fun validate_paths :: "DNSPath list \<Rightarrow> string option" where
  "validate_paths [] = None"
| "validate_paths (path # paths) =
     (if Path path = '''' then Some ''path cannot be empty''
      else if Backend_Name (Backend_Service path) = '''' then Some ''service name cannot be empty''
      else if Backend_Port (Backend_Service path) < PortMin \<or> Backend_Port (Backend_Service path) > PortMax
      then Some (''invalid service port '' @ dec_int (Backend_Port (Backend_Service path)))
      else validate_paths paths)"

fun validate_rules :: "DNSRule list \<Rightarrow> string option" where
  "validate_rules [] = None"
| "validate_rules (rule # rules) =
     (if Host rule = '''' then Some ''host cannot be empty''
      else case validate_paths (Paths rule) of Some e \<Rightarrow> Some e | None \<Rightarrow> validate_rules rules)"

definition validateDNS :: "DNS \<Rightarrow> string \<Rightarrow> string option" where
  "validateDNS dns urlNamespace =
     (if Name (DNS_Meta dns) = '''' then Some ''dns name is required''
      else case namespace_mismatch (Namespace (DNS_Meta dns)) urlNamespace of Some e \<Rightarrow> Some e
      | None \<Rightarrow>
      if Kind (DNS_Type dns) \<noteq> ''DNS'' then Some ''invalid api object kind''
      else if Rules dns = [] then Some ''no rules for this dns''
      else validate_rules (Rules dns))"

text \<open>
  The hosts of the rules against the hosts in the registry: the first conflict, or the registry's
  text with the new hosts behind it. The set of known hosts is not extended by the new ones.
\<close>

fun add_hosts :: "string list \<Rightarrow> DNSRule list \<Rightarrow> string \<Rightarrow> string + string" where
  "add_hosts hostMap [] hosts = Inr hosts"
| "add_hosts hostMap (rule # rules) hosts =
     (if List.member hostMap (Host rule)
      then Inl (''host '' @ Host rule @ '' conflicts with existing host'')
      else add_hosts hostMap rules (hosts @ Host rule @ [newline]))"

text \<open>Each path's service must exist and have the port.\<close>

fun check_paths :: "'w env \<Rightarrow> string \<Rightarrow> DNSPath list \<Rightarrow> 'w api \<Rightarrow> 'w api" where
  "check_paths E namespace [] k = k"
| "check_paths E namespace (path # paths) k =
     (let svcName = Backend_Name (Backend_Service path) in
      Get E (ns_key namespace ''services'' svcName) (\<lambda>uid err.
      if err \<noteq> None \<or> uid = Raw ''''
      then reply StatusBadRequest (Error (''service '' @ namespace @ ''/'' @ svcName @ '' not found''))
      else Get E (svc_key (text_of E uid)) (\<lambda>svcJson err.
      if err \<noteq> None \<or> svcJson = Raw ''''
      then reply StatusInternalServerError (Error ''error in reading service from etcd'')
      else case json_Unmarshal_Service svcJson of (svc, err) \<Rightarrow>
      if err \<noteq> None then reply StatusInternalServerError (Error ''error in json unmarshal'')
      else if \<not> list_ex (\<lambda>port. Port port = Backend_Port (Backend_Service path)) (Service_Ports (Svc_Spec svc))
      then reply StatusBadRequest (Error (''service '' @ svcName @ '' does not have port ''
        @ dec_int (Backend_Port (Backend_Service path))))
      else check_paths E namespace paths k)))"

fun check_backends :: "'w env \<Rightarrow> string \<Rightarrow> DNSRule list \<Rightarrow> 'w api \<Rightarrow> 'w api" where
  "check_backends E namespace [] k = k"
| "check_backends E namespace (rule # rules) k =
     check_paths E namespace (Paths rule) (check_backends E namespace rules k)"

definition AddDNSHandler :: "'w env \<Rightarrow> string \<Rightarrow> DNS option \<Rightarrow> UID \<Rightarrow> time \<Rightarrow> 'w api" where
  "AddDNSHandler E namespace req uuid now = (case req of
     None \<Rightarrow> reply StatusBadRequest (Error ''invalid dns json'')
   | Some dns \<Rightarrow>
     if namespace = '''' then reply StatusBadRequest (Error ''namespace is required'')
     else case validateDNS dns namespace of Some e \<Rightarrow> reply StatusBadRequest (Error e)
     | None \<Rightarrow>
     let dns = dns\<lparr>DNS_Meta := (DNS_Meta dns)\<lparr>Namespace := namespace\<rparr>\<rparr>;
       namespaceDNSKey = ns_key (Namespace (DNS_Meta dns)) ''dns'' (Name (DNS_Meta dns)) in
     Get E namespaceDNSKey (\<lambda>uid err.
     if err = None \<and> uid \<noteq> Raw ''''
     then reply StatusConflict (Error (''dns '' @ Namespace (DNS_Meta dns) @ ''/'' @ Name (DNS_Meta dns)
       @ '' already exists''))
     else Get E hosts_key (\<lambda>hosts err.
     if err \<noteq> None then reply StatusInternalServerError (Error ''error in reading hosts from etcd'')
     else case add_hosts (scan_lines (text_of E hosts)) (Rules dns) (text_of E hosts) of
       Inl e \<Rightarrow> reply StatusBadRequest (Error e)
     | Inr hosts \<Rightarrow>
     check_backends E namespace (Rules dns)
     (let dns = dns\<lparr>DNS_Meta := (DNS_Meta dns)\<lparr>CreationTimestamp := now, MetaUID := uuid\<rparr>\<rparr> in
     Set E hosts_key (Raw hosts) (\<lambda>err.
     if err \<noteq> None then reply StatusInternalServerError (Error ''error in writing hosts to etcd'')
     else Set E namespaceDNSKey (Raw (MetaUID (DNS_Meta dns))) (\<lambda>err.
     if err \<noteq> None then reply StatusInternalServerError (Error ''error in writing to etcd'')
     else case json_Marshal (JDNS dns) of (dnsJson, err) \<Rightarrow>
     if err \<noteq> None then reply StatusInternalServerError (Error ''error in json marshal'')
     else Set E (dns_key (MetaUID (DNS_Meta dns))) dnsJson (\<lambda>err.
     if err \<noteq> None then reply StatusInternalServerError (Error ''error in writing to etcd'')
     else reply StatusCreated (DataDNS dns))))))))"

definition DeleteDNSHandler :: "'w env \<Rightarrow> string \<Rightarrow> string \<Rightarrow> 'w api" where
  "DeleteDNSHandler E namespace dnsName =
     (if namespace = '''' \<or> dnsName = ''''
      then reply StatusBadRequest (Error ''namespace and dns name cannot be empty'')
      else let namespaceDNSKey = ns_key namespace ''dns'' dnsName in
      Get E namespaceDNSKey (\<lambda>uid err.
      if err \<noteq> None \<or> uid = Raw ''''
      then reply StatusNotFound (Error (''dns '' @ namespace @ ''/'' @ dnsName @ '' not found''))
      else let allDNSKey = dns_key (text_of E uid) in
      Get E allDNSKey (\<lambda>dnsJson err.
      if err \<noteq> None \<or> dnsJson = Raw ''''
      then reply StatusInternalServerError (Error ''error in reading dns from etcd'')
      else case json_Unmarshal_DNS dnsJson of (dns, err) \<Rightarrow>
      if err \<noteq> None then reply StatusInternalServerError (Error ''error in json unmarshal'')
      else Get E hosts_key (\<lambda>hosts err.
      if err \<noteq> None then reply StatusInternalServerError (Error ''error in reading hosts from etcd'')
      else let hostsToDelete = map Host (Rules dns);
        newHosts = unlines (filter (\<lambda>host. \<not> List.member hostsToDelete host) (scan_lines (text_of E hosts))) in
      Set E hosts_key (Raw newHosts) (\<lambda>err.
      if err \<noteq> None then reply StatusInternalServerError (Error ''error in writing hosts to etcd'')
      else Delete E namespaceDNSKey (\<lambda>err.
      if err \<noteq> None then reply StatusInternalServerError (Error ''error in deleting dns from etcd'')
      else Delete E allDNSKey (\<lambda>err.
      if err \<noteq> None then reply StatusInternalServerError (Error ''error in deleting dns from etcd'')
      else reply StatusOK (DataDNS dns))))))))"

section \<open>Nodes\<close>

text \<open>After the reply to an invalid address the handler goes on and registers the node.\<close>

definition RegisterNodeHandler ::
    "'w env \<Rightarrow> Node option \<Rightarrow> string \<Rightarrow> UID \<Rightarrow> time \<Rightarrow> 'w api" where
  "RegisterNodeHandler E req address uuid now = (case req of
     None \<Rightarrow> reply StatusBadRequest (Error ''invalid node json'')
   | Some n \<Rightarrow>
     (let rest =
       read_or_init_bitmap E node_bitmap_key NodePoolSize (Error ''error in writing bitmap to etcd'') (\<lambda>bitmap.
       case AllocNode bitmap of Inl e \<Rightarrow> reply StatusInternalServerError (Error e)
       | Inr (nodeName, bitmap) \<Rightarrow>
       Set E node_bitmap_key (Raw (string_of_bitmap bitmap)) (\<lambda>err.
       if err \<noteq> None then reply StatusInternalServerError (Error ''error in writing bitmap to etcd'')
       else let node = \<lparr>Node_Type = \<lparr>Kind = ''Node'', APIVersion = ''v1''\<rparr>,
           Node_Meta = \<lparr>Name = nodeName, Namespace = Default_Namespace, MetaUID = uuid,
             CreationTimestamp = now, Labels = Labels (Node_Meta n)\<rparr>,
           Address = address\<rparr>
       in case json_Marshal (JNode node) of (nodeJson, err) \<Rightarrow>
       if err \<noteq> None then reply StatusInternalServerError (Error ''error in json marshal'')
       else Set E (node_key (MetaUID (Node_Meta node))) nodeJson (\<lambda>err.
       if err \<noteq> None then reply StatusInternalServerError (Error ''error in writing node to etcd'')
       else Set E (ns_key (Namespace (Node_Meta node)) ''nodes'' (Name (Node_Meta node)))
           (Raw (MetaUID (Node_Meta node))) (\<lambda>err.
       if err \<noteq> None then reply StatusInternalServerError (Error ''error in writing node to etcd'')
       else reply StatusCreated (DataNode node)))))
     in if \<not> ParseIP address then Write StatusBadRequest (Error ''invalid ip address'') rest else rest))"

definition UnregisterNodeHandler :: "'w env \<Rightarrow> string \<Rightarrow> 'w api" where
  "UnregisterNodeHandler E nodeName =
     (if nodeName = '''' then reply StatusBadRequest (Error ''node name or namespace cannot be empty'')
      else let namespaceNodeKey = ns_key Default_Namespace ''nodes'' nodeName in
      Get E namespaceNodeKey (\<lambda>uid err.
      if err \<noteq> None \<or> uid = Raw ''''
      then reply StatusNotFound (Error (''node '' @ Default_Namespace @ ''/'' @ nodeName @ '' not found''))
      else DeleteSubKeys E (host_node_key nodeName '''') (\<lambda>err.
      if err \<noteq> None
      then reply StatusInternalServerError (Error ''error in deleting node-pod mappings from etcd'')
      else Delete E namespaceNodeKey (\<lambda>err.
      if err \<noteq> None then reply StatusInternalServerError (Error ''error in deleting node from etcd'')
      else Delete E (node_key (text_of E uid)) (\<lambda>err.
      if err \<noteq> None then reply StatusInternalServerError (Error ''error in deleting node from etcd'')
      else Get E node_bitmap_key (\<lambda>bitmapStr err.
      if err \<noteq> None \<or> bitmapStr = Raw ''''
      then reply StatusInternalServerError (Error ''error in reading node pool bitmap from etcd'')
      else case FreeNode nodeName (bitmap_of_string (text_of E bitmapStr)) of
        Inl e \<Rightarrow> reply StatusInternalServerError (Error e)
      | Inr bitmap \<Rightarrow>
      Set E node_bitmap_key (Raw (string_of_bitmap bitmap)) (\<lambda>err.
      if err \<noteq> None then reply StatusInternalServerError (Error ''error in writing node pool bitmap to etcd'')
      else reply StatusOK NoData)))))))"

text \<open>Nodes are sorted by name; the comparison of Go strings is that of their bytes.\<close>

fun string_less :: "string \<Rightarrow> string \<Rightarrow> bool" where
  "string_less [] [] = False"
| "string_less [] (d # t) = True"
| "string_less (c # s) [] = False"
| "string_less (c # s) (d # t) =
     (if (of_char c :: nat) < of_char d then True
      else if (of_char d :: nat) < of_char c then False else string_less s t)"

fun insert_node :: "Node \<Rightarrow> Node list \<Rightarrow> Node list" where
  "insert_node n [] = [n]"
| "insert_node n (m # ms) =
     (if string_less (Name (Node_Meta m)) (Name (Node_Meta n)) then m # insert_node n ms else n # m # ms)"

definition sort_nodes :: "Node list \<Rightarrow> Node list" where
  "sort_nodes ns = foldr insert_node ns []"

definition GetAllNodesHandler :: "'w env \<Rightarrow> 'w api" where
  "GetAllNodesHandler E =
     GetSubKeysValues E ''/registry/nodes'' (\<lambda>res err.
     if err \<noteq> None then reply StatusInternalServerError (Error ''error in reading from etcd'')
     else case unmarshal_all json_Unmarshal_Node (map snd res) of
       Inl _ \<Rightarrow> reply StatusInternalServerError (Error ''error in json unmarshal'')
     | Inr nodes \<Rightarrow> reply StatusOK (DataNodes (sort_nodes nodes)))"

end
