(* ===== verification/Api_Workloads.thy ===== *)
theory Api_Workloads
  imports Api_Core
begin

text \<open>
  The handlers of \<open>routine.go\<close> for horizontal pod autoscalers, replica sets, virtual services,
  subsets, the sidecar mapping and rolling updates. The parameters are as in \<open>Api_Pods\<close>. Where the
  code drops an error with \<open>_\<close>, the model goes on with the value, as \<open>json.Unmarshal\<close> leaves it.
\<close>

section \<open>Autoscalers\<close>

definition getAllScalingsFromEtcd ::
    "'w env \<Rightarrow> (HorizontalPodAutoscaler list \<Rightarrow> error \<Rightarrow> 'w api) \<Rightarrow> 'w api" where
  "getAllScalingsFromEtcd E k =
     GetSubKeysValues E ''/registry/scaling'' (\<lambda>res err.
     case err of Some e \<Rightarrow> k [] (Some e)
     | None \<Rightarrow> (case unmarshal_all json_Unmarshal_HPA (map snd res) of
         Inl e \<Rightarrow> k [] (Some e)
       | Inr allSca \<Rightarrow> k allSca None))"

definition GetAllScalingHandler :: "'w env \<Rightarrow> 'w api" where
  "GetAllScalingHandler E = getAllScalingsFromEtcd E (\<lambda>allSca err.
     case err of
       Some e \<Rightarrow> reply StatusInternalServerError (Error (''error in getting all scalings: '' @ e))
     | None \<Rightarrow> reply StatusOK (DataHPAs allSca))"

definition AddScalingHandler ::
    "'w env \<Rightarrow> HorizontalPodAutoscaler option \<Rightarrow> time \<Rightarrow> UID \<Rightarrow> 'w api" where
  "AddScalingHandler E req now uuid = (case req of
     None \<Rightarrow> reply StatusBadRequest (Error ''error in parsing hpa'')
   | Some hpa \<Rightarrow>
     if Kind (HPA_Type hpa) \<noteq> ScalerTypeHPA
     then reply StatusBadRequest (Error ''scaling type not supported'')
     else if Name (HPA_Meta hpa) = '''' then reply StatusBadRequest (Error ''hpa name is required'')
     else let
       hpa = (if Namespace (HPA_Meta hpa) = ''''
         then hpa\<lparr>HPA_Meta := (HPA_Meta hpa)\<lparr>Namespace := Default_Namespace\<rparr>\<rparr> else hpa);
       hpa = hpa\<lparr>HPA_Meta := (HPA_Meta hpa)\<lparr>CreationTimestamp := now, MetaUID := uuid\<rparr>\<rparr>;
       hpa = (if MinReplicas (HPA_Spec hpa) = 0
         then hpa\<lparr>HPA_Spec := (HPA_Spec hpa)\<lparr>MinReplicas := 1\<rparr>\<rparr> else hpa);
       hpaKey = ns_key (Namespace (HPA_Meta hpa)) ''scaling'' (Name (HPA_Meta hpa));
       allhpaKey = hpa_key (MetaUID (HPA_Meta hpa)) in
     Get E hpaKey (\<lambda>hpaUid err.
     if hpaUid \<noteq> Raw '''' then reply StatusConflict (Error ''scaling already exists'')
     else case json_Marshal (JHPA hpa) of (hpaStr, err) \<Rightarrow>
     if err \<noteq> None then reply StatusInternalServerError (Error ''error in json marshal'')
     else Set E hpaKey (Raw (MetaUID (HPA_Meta hpa))) (\<lambda>err.
     if err \<noteq> None then reply StatusInternalServerError (Error ''error in writing scaling uid to etcd'')
     else Set E allhpaKey hpaStr (\<lambda>err.
     if err \<noteq> None then reply StatusInternalServerError (Error ''error in writing scaling to etcd'')
     else reply StatusCreated (DataHPA hpa)))))"

text \<open>After a failed first delete the handler answers 500 and goes on.\<close>

definition DeleteScalingHandler :: "'w env \<Rightarrow> string \<Rightarrow> string \<Rightarrow> 'w api" where
  "DeleteScalingHandler E namespace name =
     (if namespace = '''' \<or> name = ''''
      then reply StatusBadRequest (Error ''namespace and name are required'')
      else let hpaKey = ns_key namespace ''scaling'' name in
      Get E hpaKey (\<lambda>hpaUid err.
      if hpaUid = Raw '''' then reply StatusNotFound (Error ''scaling not found'')
      else if err \<noteq> None
      then reply StatusInternalServerError (Error ''error in getting scaling uid from etcd'')
      else Delete E hpaKey (\<lambda>err.
      let rest =
        (let allhpaKey = hpa_key (text_of E hpaUid) in
         Get E allhpaKey (\<lambda>hpaStr err.
         if err \<noteq> None then reply StatusInternalServerError (Error ''error in getting scaling from etcd'')
         else case json_Unmarshal_HPA hpaStr of (hpa, err) \<Rightarrow>
         if err \<noteq> None then reply StatusInternalServerError (Error ''error in json unmarshal'')
         else Delete E allhpaKey (\<lambda>err.
         if err \<noteq> None then reply StatusInternalServerError (Error ''error in deleting scaling from etcd'')
         else reply StatusOK (DataHPA hpa))))
      in if err \<noteq> None
         then Write StatusInternalServerError (Error ''error in deleting scaling from etcd'') rest
         else rest)))"

section \<open>Replica sets\<close>

definition GetAllReplicaSetsHandler :: "'w env \<Rightarrow> 'w api" where
  "GetAllReplicaSetsHandler E =
     GetSubKeysValues E ''/registry/replicaset'' (\<lambda>res err.
     if err \<noteq> None then reply StatusInternalServerError (Error ''error in reading all replicas sets in etcd'')
     else if res = [] then reply StatusOK NoData
     else case unmarshal_all json_Unmarshal_ReplicaSet (map snd res) of
       Inl _ \<Rightarrow> reply StatusInternalServerError (Error ''error in json unmarshal'')
     | Inr rpss \<Rightarrow> reply StatusOK (DataReplicaSets rpss))"

text \<open>
  The key does not depend on the namespace of the URL. A replica set without a selector makes the
  handler dereference a nil pointer.
\<close>

definition AddReplicaSetHandler :: "'w env \<Rightarrow> ReplicaSet option \<Rightarrow> UID \<Rightarrow> time \<Rightarrow> 'w api" where
  "AddReplicaSetHandler E req uuid now = (case req of None \<Rightarrow> Return | Some rps \<Rightarrow>
     let rps_name = (if Name (RS_Meta rps) = '''' then Default_Podname else Name (RS_Meta rps)) in
     case RS_Selector (RS_Spec rps) of None \<Rightarrow> Panics | Some selector \<Rightarrow>
     (case MatchLabels selector of
       None \<Rightarrow> reply StatusBadRequest (Error ''replica set labels are required'')
     | Some rps_label \<Rightarrow>
       let rps = rps\<lparr>RS_Meta := (RS_Meta rps)\<lparr>MetaUID := uuid, CreationTimestamp := now\<rparr>\<rparr>;
         all_replicaset_keystr = rs_key (MetaUID (RS_Meta rps));
         namespace_replicaset_keystr = ns_key Default_Namespace ''replicasets'' rps_name in
       Get E namespace_replicaset_keystr (\<lambda>res err.
       if res \<noteq> Raw '''' \<or> err \<noteq> None
       then reply StatusConflict (Error ''replica set name already exists'')
       else Set E namespace_replicaset_keystr (Raw (MetaUID (RS_Meta rps))) (\<lambda>err.
       if err \<noteq> None then reply StatusInternalServerError (Error ''error in writing to etcd'')
       else case json_Marshal (JReplicaSet rps) of (rps_str, err) \<Rightarrow>
       if err \<noteq> None then reply StatusInternalServerError (Error ''error in json marshal'')
       else Set E all_replicaset_keystr rps_str (\<lambda>err.
       if err \<noteq> None then reply StatusInternalServerError (Error ''error in writing to etcd'')
       else reply StatusCreated (MessageUUID ''successfully created replica set'' (MetaUID (RS_Meta rps))))))))"

definition GetReplicaSetHandler :: "'w env \<Rightarrow> string \<Rightarrow> string \<Rightarrow> 'w api" where
  "GetReplicaSetHandler E namespace rpsName =
     (if namespace = '''' \<or> rpsName = ''''
      then reply StatusBadRequest (Error ''namespace and replica set name cannot be empty'')
      else Get E (ns_key namespace ''replicasets'' rpsName) (\<lambda>uid err.
      if err \<noteq> None \<or> uid = Raw ''''
      then reply StatusNotFound (Error (''replica set '' @ namespace @ ''/'' @ rpsName @ '' not found''))
      else Get E (rs_key (text_of E uid)) (\<lambda>rpsJson err.
      if err \<noteq> None \<or> rpsJson = Raw ''''
      then reply StatusInternalServerError (Error ''error in reading replica set from etcd'')
      else case json_Unmarshal_ReplicaSet rpsJson of (rps, err) \<Rightarrow>
      if err \<noteq> None then reply StatusInternalServerError (Error ''error in json unmarshal'')
      else reply StatusOK (DataReplicaSet rps))))"

text \<open>The number is parsed as a 64-bit integer and then converted to 32 bits.\<close>

definition UpdateReplicaSetHandler :: "'w env \<Rightarrow> string \<Rightarrow> string \<Rightarrow> string \<Rightarrow> 'w api" where
  "UpdateReplicaSetHandler E namespace rpsName query =
     (if namespace = '''' \<or> rpsName = ''''
      then reply StatusBadRequest (Error ''namespace and replica set name cannot be empty'')
      else case atoi query of None \<Rightarrow> reply StatusBadRequest (Error ''replicas must be an integer'')
      | Some replicas \<Rightarrow>
      Get E (ns_key namespace ''replicasets'' rpsName) (\<lambda>uid err.
      if err \<noteq> None \<or> uid = Raw ''''
      then reply StatusNotFound (Error (''replica set '' @ namespace @ ''/'' @ rpsName @ '' not found''))
      else let allRpsKey = rs_key (text_of E uid) in
      Get E allRpsKey (\<lambda>rpsJson err.
      if err \<noteq> None \<or> rpsJson = Raw ''''
      then reply StatusInternalServerError (Error ''error in reading replica set from etcd'')
      else case json_Unmarshal_ReplicaSet rpsJson of (rps, err) \<Rightarrow>
      if err \<noteq> None then reply StatusInternalServerError (Error ''error in json unmarshal'')
      else let rps = rps\<lparr>RS_Spec := (RS_Spec rps)\<lparr>Replicas := i32 replicas\<rparr>\<rparr>
      in case json_Marshal (JReplicaSet rps) of (rpsRawStr, err) \<Rightarrow>
      if err \<noteq> None then reply StatusInternalServerError (Error ''error in json marshal'')
      else Set E allRpsKey rpsRawStr (\<lambda>err.
      if err \<noteq> None then reply StatusInternalServerError (Error ''error in writing replica set to etcd'')
      else reply StatusOK (DataReplicaSet rps)))))"

definition DeleteReplicaSetHandler :: "'w env \<Rightarrow> string \<Rightarrow> string \<Rightarrow> 'w api" where
  "DeleteReplicaSetHandler E namespace rpsName =
     (if namespace = '''' \<or> rpsName = ''''
      then reply StatusBadRequest (Error ''namespace and replica set name cannot be empty'')
      else let namespaceRpsKey = ns_key Default_Namespace ''replicasets'' rpsName in
      Get E namespaceRpsKey (\<lambda>uid err.
      if err \<noteq> None \<or> uid = Raw ''''
      then reply StatusNotFound (Error (''replica set '' @ namespace @ ''/'' @ rpsName @ '' not found''))
      else let allRpsKey = rs_key (text_of E uid) in
      Get E allRpsKey (\<lambda>rpsJson err.
      if err \<noteq> None \<or> rpsJson = Raw ''''
      then reply StatusInternalServerError (Error ''error in reading replica set from etcd'')
      else case json_Unmarshal_ReplicaSet rpsJson of (rps, err) \<Rightarrow>
      if err \<noteq> None then reply StatusInternalServerError (Error ''error in json unmarshal'')
      else Delete E namespaceRpsKey (\<lambda>err.
      if err \<noteq> None then reply StatusInternalServerError (Error ''error in deleting replica set from etcd'')
      else Delete E allRpsKey (\<lambda>err.
      if err \<noteq> None then reply StatusInternalServerError (Error ''error in deleting replica set from etcd'')
      else reply StatusOK (DataReplicaSet rps))))))"

section \<open>Virtual services\<close>

definition validateVirtualService :: "VirtualService \<Rightarrow> string \<Rightarrow> string option" where
  "validateVirtualService vs urlNamespace =
     (if Name (VS_Meta vs) = '''' then Some ''virtual service name is required''
      else case namespace_mismatch (Namespace (VS_Meta vs)) urlNamespace of Some e \<Rightarrow> Some e
      | None \<Rightarrow> if Kind (VS_Type vs) \<noteq> ''VirtualService'' then Some ''invalid api object kind'' else None)"

fun check_subsets :: "'w env \<Rightarrow> string \<Rightarrow> VirtualServiceSubset list \<Rightarrow> 'w api \<Rightarrow> 'w api" where
  "check_subsets E namespace [] k = k"
| "check_subsets E namespace (sset # subsets) k =
     Get E (ns_key namespace ''subsets'' (VSS_Name sset)) (\<lambda>subsetUID err.
     if err \<noteq> None \<or> subsetUID = Raw ''''
     then reply StatusBadRequest (Error (''subset '' @ namespace @ ''/'' @ VSS_Name sset @ '' not found''))
     else if VSS_URL sset = None \<and> VSS_Weight sset = None
     then reply StatusBadRequest (Error ''subset url and weight cannot be both empty'')
     else check_subsets E namespace subsets k)"

definition AddVirtualServiceHandler ::
    "'w env \<Rightarrow> string \<Rightarrow> VirtualService option \<Rightarrow> time \<Rightarrow> UID \<Rightarrow> 'w api" where
  "AddVirtualServiceHandler E namespace req now uuid = (case req of
     None \<Rightarrow> reply StatusBadRequest (Error ''invalid virtual service json'')
   | Some vs \<Rightarrow>
     if namespace = '''' then reply StatusBadRequest (Error ''namespace is required'')
     else case validateVirtualService vs namespace of Some e \<Rightarrow> reply StatusBadRequest (Error e)
     | None \<Rightarrow>
     let namespaceKey = ns_key namespace ''virtualservices'' (Name (VS_Meta vs)) in
     Get E namespaceKey (\<lambda>uid err.
     if err = None \<and> uid \<noteq> Raw ''''
     then reply StatusConflict (Error (''virtual service '' @ namespace @ ''/'' @ Name (VS_Meta vs)
       @ '' already exists''))
     else let svcName = VS_ServiceRef (VS_Spec vs) in
     Get E (ns_key namespace ''services'' svcName) (\<lambda>svcUID err.
     if err \<noteq> None \<or> svcUID = Raw ''''
     then reply StatusBadRequest (Error (''service '' @ namespace @ ''/'' @ svcName @ '' not found''))
     else Get E (svc_key (text_of E svcUID)) (\<lambda>svcJson err.
     if err \<noteq> None \<or> svcJson = Raw ''''
     then reply StatusInternalServerError (Error ''error in reading service from etcd'')
     else case json_Unmarshal_Service svcJson of (svc, _) \<Rightarrow>
     if \<not> list_ex (\<lambda>port. Port port = VS_Port (VS_Spec vs) \<and> ServicePort_Protocol port = ProtocolTCP)
         (Service_Ports (Svc_Spec svc))
     then reply StatusBadRequest (Error (''service '' @ svcName @ '' does not have tcp port ''
       @ dec_int (VS_Port (VS_Spec vs))))
     else check_subsets E namespace (Subsets (VS_Spec vs))
     (let vs = vs\<lparr>VS_Meta := (VS_Meta vs)\<lparr>Namespace := namespace, CreationTimestamp := now,
         MetaUID := uuid\<rparr>\<rparr>;
       allKey = vs_key (MetaUID (VS_Meta vs)) in
     case json_Marshal (JVirtualService vs) of (vsJson, _) \<Rightarrow>
     Set E namespaceKey (Raw (MetaUID (VS_Meta vs))) (\<lambda>err.
     if err \<noteq> None then reply StatusInternalServerError (Error ''error in writing virtual service to etcd'')
     else Set E allKey vsJson (\<lambda>err.
     if err \<noteq> None then reply StatusInternalServerError (Error ''error in writing virtual service to etcd'')
     else reply StatusCreated (DataVirtualService vs))))))))"

definition DeleteVirtualServiceHandler :: "'w env \<Rightarrow> string \<Rightarrow> string \<Rightarrow> 'w api" where
  "DeleteVirtualServiceHandler E namespace vsName =
     (if namespace = '''' \<or> vsName = ''''
      then reply StatusBadRequest (Error ''namespace and virtual service name cannot be empty'')
      else let namespaceKey = ns_key namespace ''virtualservices'' vsName in
      Get E namespaceKey (\<lambda>uid err.
      if err \<noteq> None \<or> uid = Raw ''''
      then reply StatusNotFound (Error (''virtual service '' @ namespace @ ''/'' @ vsName @ '' not found''))
      else let allKey = vs_key (text_of E uid) in
      Get E allKey (\<lambda>vsJson _.
      case json_Unmarshal_VirtualService vsJson of (vs, _) \<Rightarrow>
      Delete E namespaceKey (\<lambda>err.
      if err \<noteq> None then reply StatusInternalServerError (Error ''error in deleting virtual service from etcd'')
      else Delete E allKey (\<lambda>err.
      if err \<noteq> None then reply StatusInternalServerError (Error ''error in deleting virtual service from etcd'')
      else reply StatusOK (DataVirtualService vs))))))"

definition GetAllVirtualServicesHandler :: "'w env \<Rightarrow> 'w api" where
  "GetAllVirtualServicesHandler E =
     GetSubKeysValues E ''/registry/virtualservices'' (\<lambda>res err.
     if err \<noteq> None then reply StatusInternalServerError (Error ''error in reading from etcd'')
     else case unmarshal_all json_Unmarshal_VirtualService (map snd res) of
       Inl _ \<Rightarrow> reply StatusInternalServerError (Error ''error in json unmarshal'')
     | Inr vss \<Rightarrow> reply StatusOK (DataVirtualServices vss))"

section \<open>Subsets\<close>

definition validateSubset :: "Subset \<Rightarrow> string \<Rightarrow> string option" where
  "validateSubset sset namespace =
     (if Name (Subset_Meta sset) = '''' then Some ''subset name is required''
      else case namespace_mismatch (Namespace (Subset_Meta sset)) namespace of Some e \<Rightarrow> Some e
      | None \<Rightarrow> if Kind (Subset_Type sset) \<noteq> ''Subset'' then Some ''invalid api object kind'' else None)"

fun check_pods :: "'w env \<Rightarrow> string \<Rightarrow> string list \<Rightarrow> 'w api \<Rightarrow> 'w api" where
  "check_pods E namespace [] k = k"
| "check_pods E namespace (podName # podNames) k =
     Get E (ns_key namespace ''pods'' podName) (\<lambda>podUID err.
     if err \<noteq> None \<or> podUID = Raw ''''
     then reply StatusBadRequest (Error (''pod '' @ namespace @ ''/'' @ podName @ '' not found''))
     else check_pods E namespace podNames k)"

text \<open>Adding a subset whose name exists replaces it under its old uid.\<close>

definition AddSubsetHandler :: "'w env \<Rightarrow> string \<Rightarrow> Subset option \<Rightarrow> time \<Rightarrow> UID \<Rightarrow> 'w api" where
  "AddSubsetHandler E namespace req now uuid = (case req of
     None \<Rightarrow> reply StatusBadRequest (Error ''invalid subset json'')
   | Some sset \<Rightarrow>
     if namespace = '''' then reply StatusBadRequest (Error ''namespace is required'')
     else case validateSubset sset namespace of Some e \<Rightarrow> reply StatusBadRequest (Error e)
     | None \<Rightarrow>
     let namespaceKey = ns_key namespace ''subsets'' (Name (Subset_Meta sset)) in
     Get E namespaceKey (\<lambda>uid err.
     let isUpdate = (err = None \<and> uid \<noteq> Raw ''''); oldUID = text_of E uid in
     check_pods E namespace (Subset_Pods sset)
     (let sset = sset\<lparr>Subset_Meta := (Subset_Meta sset)\<lparr>Namespace := namespace,
         CreationTimestamp := now, MetaUID := if isUpdate then oldUID else uuid\<rparr>\<rparr>;
       allKey = subset_key (MetaUID (Subset_Meta sset)) in
     case json_Marshal (JSubset sset) of (subsetJson, _) \<Rightarrow>
     Set E namespaceKey (Raw (MetaUID (Subset_Meta sset))) (\<lambda>err.
     if err \<noteq> None then reply StatusInternalServerError (Error ''error in writing subset to etcd'')
     else Set E allKey subsetJson (\<lambda>err.
     if err \<noteq> None then reply StatusInternalServerError (Error ''error in writing subset to etcd'')
     else reply StatusCreated (DataSubset sset))))))"

definition GetAllSubsetsHandler :: "'w env \<Rightarrow> 'w api" where
  "GetAllSubsetsHandler E =
     GetSubKeysValues E ''/registry/subsets'' (\<lambda>res err.
     if err \<noteq> None then reply StatusInternalServerError (Error ''error in reading from etcd'')
     else case unmarshal_all json_Unmarshal_Subset (map snd res) of
       Inl _ \<Rightarrow> reply StatusInternalServerError (Error ''error in json unmarshal'')
     | Inr subsets \<Rightarrow> reply StatusOK (DataSubsets subsets))"

definition GetSubsetHandler :: "'w env \<Rightarrow> string \<Rightarrow> string \<Rightarrow> 'w api" where
  "GetSubsetHandler E namespace subsetName =
     (if namespace = '''' \<or> subsetName = ''''
      then reply StatusBadRequest (Error ''namespace and subset name cannot be empty'')
      else Get E (ns_key namespace ''subsets'' subsetName) (\<lambda>uid err.
      if err \<noteq> None \<or> uid = Raw ''''
      then reply StatusNotFound (Error (''subset '' @ namespace @ ''/'' @ subsetName @ '' not found''))
      else Get E (subset_key (text_of E uid)) (\<lambda>subsetJson _.
      case json_Unmarshal_Subset subsetJson of (sset, _) \<Rightarrow> reply StatusOK (DataSubset sset))))"

definition DeleteSubsetHandler :: "'w env \<Rightarrow> string \<Rightarrow> string \<Rightarrow> 'w api" where
  "DeleteSubsetHandler E namespace subsetName =
     (if namespace = '''' \<or> subsetName = ''''
      then reply StatusBadRequest (Error ''namespace and subset name cannot be empty'')
      else let namespaceKey = ns_key namespace ''subsets'' subsetName in
      Get E namespaceKey (\<lambda>uid err.
      if err \<noteq> None \<or> uid = Raw ''''
      then reply StatusNotFound (Error (''subset '' @ namespace @ ''/'' @ subsetName @ '' not found''))
      else let allKey = subset_key (text_of E uid) in
      Get E allKey (\<lambda>subsetJson _.
      case json_Unmarshal_Subset subsetJson of (sset, _) \<Rightarrow>
      Delete E namespaceKey (\<lambda>err.
      if err \<noteq> None then reply StatusInternalServerError (Error ''error in deleting subset from etcd'')
      else Delete E allKey (\<lambda>err.
      if err \<noteq> None then reply StatusInternalServerError (Error ''error in deleting subset from etcd'')
      else reply StatusOK (DataSubset sset))))))"

section \<open>The sidecar mapping\<close>

definition SaveSidecarMapping :: "'w env \<Rightarrow> SidecarMapping option \<Rightarrow> 'w api" where
  "SaveSidecarMapping E req = (case req of
     None \<Rightarrow> reply StatusBadRequest (Error ''invalid sidecar mapping json'')
   | Some mapping \<Rightarrow>
     (case json_Marshal (JSidecarMapping mapping) of (mappingJson, _) \<Rightarrow>
     Set E sidecar_key mappingJson (\<lambda>err.
     if err \<noteq> None then reply StatusInternalServerError (Error ''error in writing sidecar mapping to etcd'')
     else reply StatusOK NoData)))"

text \<open>The text \<open>{}\<close> that stands in for a missing mapping is the empty mapping's document.\<close>

definition GetSidecarMapping :: "'w env \<Rightarrow> 'w api" where
  "GetSidecarMapping E = Get E sidecar_key (\<lambda>mappingJson err.
     if err \<noteq> None then reply StatusInternalServerError (Error ''error in reading sidecar mapping from etcd'')
     else let mappingJson = (if mappingJson = Raw '''' then JSidecarMapping [] else mappingJson)
     in case json_Unmarshal_SidecarMapping mappingJson of (mapping, err) \<Rightarrow>
     if err \<noteq> None then reply StatusInternalServerError (Error ''error in json unmarshal'')
     else reply StatusOK (DataSidecarMapping mapping))"

section \<open>Rolling updates\<close>

definition AddRollingUpdateHandler ::
    "'w env \<Rightarrow> string \<Rightarrow> RollingUpdate option \<Rightarrow> time \<Rightarrow> UID \<Rightarrow> 'w api" where
  "AddRollingUpdateHandler E namespace req now uuid = (case req of
     None \<Rightarrow> reply StatusBadRequest (Error ''invalid rolling update json'')
   | Some ru \<Rightarrow>
     if namespace = '''' then reply StatusBadRequest (Error ''namespace is required'')
     else let namespaceKey = ns_key namespace ''rollingupdates'' (Name (RU_Meta ru)) in
     Get E namespaceKey (\<lambda>uid err.
     if err = None \<and> uid \<noteq> Raw ''''
     then reply StatusConflict (Error (''rolling update '' @ namespace @ ''/'' @ Name (RU_Meta ru)
       @ '' already exists''))
     else let ru = ru\<lparr>RU_Meta := (RU_Meta ru)\<lparr>Namespace := namespace, CreationTimestamp := now,
         MetaUID := uuid\<rparr>, RU_Phase := RollingUpdatePending\<rparr>;
       allKey = ru_key (MetaUID (RU_Meta ru)) in
     case json_Marshal (JRollingUpdate ru) of (ruJson, _) \<Rightarrow>
     Set E allKey ruJson (\<lambda>err.
     if err \<noteq> None then reply StatusInternalServerError (Error ''error in writing rolling update to etcd'')
     else Set E namespaceKey (Raw (MetaUID (RU_Meta ru))) (\<lambda>err.
     if err \<noteq> None then reply StatusInternalServerError (Error ''error in writing rolling update to etcd'')
     else reply StatusCreated (DataRollingUpdate ru)))))"

definition GetAllRollingUpdatesHandler :: "'w env \<Rightarrow> 'w api" where
  "GetAllRollingUpdatesHandler E =
     GetSubKeysValues E ''/registry/rollingupdates'' (\<lambda>res err.
     if err \<noteq> None then reply StatusInternalServerError (Error ''error in reading from etcd'')
     else case unmarshal_all json_Unmarshal_RollingUpdate (map snd res) of
       Inl _ \<Rightarrow> reply StatusInternalServerError (Error ''error in json unmarshal'')
     | Inr rus \<Rightarrow> reply StatusOK (DataRollingUpdates rus))"

definition UpdateRollingUpdateStatusHandler ::
    "'w env \<Rightarrow> string \<Rightarrow> string \<Rightarrow> RollingUpdatePhase option \<Rightarrow> 'w api" where
  "UpdateRollingUpdateStatusHandler E namespace ruName req = (case req of
     None \<Rightarrow> reply StatusBadRequest (Error ''invalid rolling update status json'')
   | Some ruStatus \<Rightarrow>
     if namespace = '''' \<or> ruName = ''''
     then reply StatusBadRequest (Error ''namespace and rolling update name cannot be empty'')
     else Get E (ns_key namespace ''rollingupdates'' ruName) (\<lambda>uid err.
     if err \<noteq> None \<or> uid = Raw ''''
     then reply StatusNotFound (Error (''rolling update '' @ namespace @ ''/'' @ ruName @ '' not found''))
     else let allKey = ru_key (text_of E uid) in
     Get E allKey (\<lambda>ruJson err.
     if err \<noteq> None \<or> ruJson = Raw ''''
     then reply StatusInternalServerError (Error ''error in reading rolling update from etcd'')
     else case json_Unmarshal_RollingUpdate ruJson of (ru, _) \<Rightarrow>
     let ru = ru\<lparr>RU_Phase := ruStatus\<rparr> in
     case json_Marshal (JRollingUpdate ru) of (newRuJson, _) \<Rightarrow>
     Set E allKey newRuJson (\<lambda>err.
     if err \<noteq> None then reply StatusInternalServerError (Error ''error in writing rolling update to etcd'')
     else reply StatusOK (DataRollingUpdateStatus ruStatus)))))"

definition DeleteRollingUpdateHandler :: "'w env \<Rightarrow> string \<Rightarrow> string \<Rightarrow> 'w api" where
  "DeleteRollingUpdateHandler E namespace ruName =
     (if namespace = '''' \<or> ruName = ''''
      then reply StatusBadRequest (Error ''namespace and rolling update name cannot be empty'')
      else let namespaceKey = ns_key namespace ''rollingupdates'' ruName in
      Get E namespaceKey (\<lambda>uid err.
      if err \<noteq> None \<or> uid = Raw ''''
      then reply StatusNotFound (Error (''rolling update '' @ namespace @ ''/'' @ ruName @ '' not found''))
      else let allKey = ru_key (text_of E uid) in
      Get E allKey (\<lambda>ruJson _.
      case json_Unmarshal_RollingUpdate ruJson of (ru, _) \<Rightarrow>
      Delete E namespaceKey (\<lambda>err.
      if err \<noteq> None then reply StatusInternalServerError (Error ''error in deleting rolling update from etcd'')
      else Delete E allKey (\<lambda>err.
      if err \<noteq> None then reply StatusInternalServerError (Error ''error in deleting rolling update from etcd'')
      else reply StatusOK (DataRollingUpdate ru))))))"

end
