(* ===== verification/Api_Registry.thy ===== *)
theory Api_Registry
  imports Api_Pods Api_Services Api_Workloads
begin

text \<open>
  The type invariant of the registry: each key holds the kind of value its prefix announces, and an
  object sits under the key of its own uid. Every handler keeps it, whatever calls of etcd fail. So
  no handler reads a document of another type, and no text of a document becomes part of a key.

  \<open>keeps view T m\<close> says that the handler \<open>m\<close> keeps an invariant \<open>T\<close> of the single entries; its rules
  (collection \<open>keeps\<close>) follow the combinators.
\<close>

section \<open>Invariants of single entries\<close>

definition keyed :: "(string \<Rightarrow> document \<Rightarrow> bool) \<Rightarrow> registry \<Rightarrow> bool" where
  "keyed T V \<longleftrightarrow> (\<forall>k v. V k = Some v \<longrightarrow> T k v)"

definition keeps :: "('w \<Rightarrow> registry) \<Rightarrow> (string \<Rightarrow> document \<Rightarrow> bool) \<Rightarrow> 'w api \<Rightarrow> bool" where
  "keeps view T m \<longleftrightarrow> (\<forall>w. keyed T (view w) \<longrightarrow> keyed T (view (snd (m w))))"

lemma keyedD: "keyed T V \<Longrightarrow> V k = Some v \<Longrightarrow> T k v"
  by (simp add: keyed_def)

lemma keyed_empty [simp]: "keyed T Map.empty"
  by (simp add: keyed_def)

lemma keyed_upd: "keyed T V \<Longrightarrow> T k v \<Longrightarrow> keyed T (V(k \<mapsto> v))"
  by (simp add: keyed_def)

lemma keyed_del: "keyed T V \<Longrightarrow> keyed T (V(k := None))"
  by (simp add: keyed_def)

lemma keyed_drop: "keyed T V \<Longrightarrow> keyed T (drop_prefix p V)"
  by (simp add: keyed_def drop_prefix_def)

lemma keeps_result: "m w = (rs, w') \<Longrightarrow> keeps view T m \<Longrightarrow> keyed T (view w) \<Longrightarrow> keyed T (view w')"
  unfolding keeps_def by (metis snd_conv)

lemma keeps_Return [keeps]: "keeps view T Return"
  by (simp add: keeps_def Return_def)

lemma keeps_Panics [keeps]: "keeps view T Panics"
  by (simp add: keeps_def Panics_def)

lemma keeps_reply [keeps]: "keeps view T (reply st b)"
  by (simp add: keeps_def reply_def)

lemma keeps_Write [keeps]: "keeps view T k \<Longrightarrow> keeps view T (Write st b k)"
  by (simp add: keeps_def Write_def split_beta)

lemma keeps_if [keeps]:
  "(c \<Longrightarrow> keeps view T m1) \<Longrightarrow> (\<not> c \<Longrightarrow> keeps view T m2) \<Longrightarrow> keeps view T (if c then m1 else m2)"
  by simp

lemma keeps_option [keeps]:
  "(x = None \<Longrightarrow> keeps view T m1) \<Longrightarrow> (\<And>y. x = Some y \<Longrightarrow> keeps view T (m2 y)) \<Longrightarrow>
   keeps view T (case x of None \<Rightarrow> m1 | Some y \<Rightarrow> m2 y)"
  by (cases x) auto

lemma keeps_sum [keeps]:
  "(\<And>y. x = Inl y \<Longrightarrow> keeps view T (m1 y)) \<Longrightarrow> (\<And>y. x = Inr y \<Longrightarrow> keeps view T (m2 y)) \<Longrightarrow>
   keeps view T (case x of Inl y \<Rightarrow> m1 y | Inr y \<Rightarrow> m2 y)"
  by (cases x) auto

lemma keeps_prod [keeps]:
  "(\<And>a b. x = (a, b) \<Longrightarrow> keeps view T (m a b)) \<Longrightarrow> keeps view T (case x of (a, b) \<Rightarrow> m a b)"
  by (cases x) auto

lemma keeps_Let [keeps]: "keeps view T (m x) \<Longrightarrow> keeps view T (Let x m)"
  by simp

context etcd_server
begin

lemma keeps_Get [keeps]:
  assumes "\<And>v err. v = Raw '''' \<or> T key v \<Longrightarrow> keeps view T (k v err)"
  shows "keeps view T (Get E key k)"
  unfolding keeps_def
proof (intro allI impI)
  fix w
  assume w: "keyed T (view w)"
  obtain v err w' where g: "store_Get E key w = ((v, err), w')"
    by (metis surj_pair)
  from store.get_law [OF g] w have w': "keyed T (view w')" and v: "v = Raw '''' \<or> T key v"
    by (auto simp: keyed_def rget_def split: option.splits)
  show "keyed T (view (snd (Get E key k w)))"
    using assms [OF v, of err] w' by (simp add: Get_def g keeps_def)
qed

lemma keeps_Set [keeps]:
  assumes "T key v" "\<And>err. keeps view T (k err)"
  shows "keeps view T (Set E key v k)"
  unfolding keeps_def
proof (intro allI impI)
  fix w
  assume w: "keyed T (view w)"
  obtain err w' where g: "store_Set E key v w = (err, w')"
    by (cases "store_Set E key v w")
  with store.set_law [OF g] w assms(1) have "keyed T (view w')" by (auto intro: keyed_upd)
  with assms(2) show "keyed T (view (snd (Set E key v k w)))" by (simp add: Set_def g keeps_def)
qed

lemma keeps_Delete [keeps]:
  assumes "\<And>err. keeps view T (k err)"
  shows "keeps view T (Delete E key k)"
  unfolding keeps_def
proof (intro allI impI)
  fix w
  assume w: "keyed T (view w)"
  obtain err w' where g: "store_Delete E key w = (err, w')"
    by (cases "store_Delete E key w")
  with store.del_law [OF g] w have "keyed T (view w')" by (auto intro: keyed_del)
  with assms show "keyed T (view (snd (Delete E key k w)))" by (simp add: Delete_def g keeps_def)
qed

lemma keeps_DeleteSubKeys [keeps]:
  assumes "\<And>err. keeps view T (k err)"
  shows "keeps view T (DeleteSubKeys E key k)"
  unfolding keeps_def
proof (intro allI impI)
  fix w
  assume w: "keyed T (view w)"
  obtain err w' where g: "store_DeleteSubKeys E key w = (err, w')"
    by (cases "store_DeleteSubKeys E key w")
  with store.del_sub_law [OF g] w have "keyed T (view w')" by (auto intro: keyed_drop)
  with assms show "keyed T (view (snd (DeleteSubKeys E key k w)))"
    by (simp add: DeleteSubKeys_def g keeps_def)
qed

lemma keeps_GetSubKeysValues [keeps]:
  assumes "\<And>m err. \<forall>(key, v)\<in>set m. has_prefix p key \<and> T key v \<Longrightarrow> keeps view T (k m err)"
  shows "keeps view T (GetSubKeysValues E p k)"
  unfolding keeps_def
proof (intro allI impI)
  fix w
  assume w: "keyed T (view w)"
  obtain m err w' where g: "store_GetSubKeysValues E p w = ((m, err), w')"
    by (metis surj_pair)
  from store.get_sub_law [OF g] w
  have w': "keyed T (view w')" and m: "\<forall>(key, v)\<in>set m. has_prefix p key \<and> T key v"
    by (auto simp: keyed_def map_of_distinct_iff split: if_splits)
  show "keyed T (view (snd (GetSubKeysValues E p k w)))"
    using assms [OF m, of err] w' by (simp add: GetSubKeysValues_def g keeps_def)
qed

end

section \<open>The type of an entry\<close>

fun typed :: "string \<Rightarrow> document \<Rightarrow> bool" where
  "typed k (Raw s) \<longleftrightarrow> has_prefix ''/registry/namespaces/'' k \<or> has_prefix ''/registry/host-nodes/'' k
     \<or> k = ip_bitmap_key \<or> k = node_bitmap_key \<or> k = hosts_key"
| "typed k (JPod x) \<longleftrightarrow> k = pod_key (MetaUID (Pod_Meta x))"
| "typed k (JService x) \<longleftrightarrow> k = svc_key (MetaUID (Svc_Meta x))"
| "typed k (JDNS x) \<longleftrightarrow> k = dns_key (MetaUID (DNS_Meta x))"
| "typed k (JNode x) \<longleftrightarrow> k = node_key (MetaUID (Node_Meta x))"
| "typed k (JReplicaSet x) \<longleftrightarrow> k = rs_key (MetaUID (RS_Meta x))"
| "typed k (JHPA x) \<longleftrightarrow> k = hpa_key (MetaUID (HPA_Meta x))"
| "typed k (JVirtualService x) \<longleftrightarrow> k = vs_key (MetaUID (VS_Meta x))"
| "typed k (JSubset x) \<longleftrightarrow> k = subset_key (MetaUID (Subset_Meta x))"
| "typed k (JRollingUpdate x) \<longleftrightarrow> k = ru_key (MetaUID (RU_Meta x))"
| "typed k (JSidecarMapping x) \<longleftrightarrow> k = sidecar_key"

text \<open>What a typed entry holds, key by key.\<close>

lemma typed_ns_key: "typed (ns_key np kind name) v \<longleftrightarrow> (\<exists>s. v = Raw s)"
  by (cases v) (auto simp: key_defs has_prefix_iff)

lemma typed_host_node_key: "typed (host_node_key node rest) v \<longleftrightarrow> (\<exists>s. v = Raw s)"
  by (cases v) (auto simp: key_defs has_prefix_iff)

lemma typed_text_keys:
  "typed ip_bitmap_key v \<longleftrightarrow> (\<exists>s. v = Raw s)" "typed node_bitmap_key v \<longleftrightarrow> (\<exists>s. v = Raw s)"
  "typed hosts_key v \<longleftrightarrow> (\<exists>s. v = Raw s)"
  by (cases v; auto simp: key_defs has_prefix_iff)+

lemma typed_object_keys:
  "typed (pod_key u) v \<longleftrightarrow> (\<exists>x. v = JPod x \<and> MetaUID (Pod_Meta x) = u)"
  "typed (svc_key u) v \<longleftrightarrow> (\<exists>x. v = JService x \<and> MetaUID (Svc_Meta x) = u)"
  "typed (dns_key u) v \<longleftrightarrow> (\<exists>x. v = JDNS x \<and> MetaUID (DNS_Meta x) = u)"
  "typed (node_key u) v \<longleftrightarrow> (\<exists>x. v = JNode x \<and> MetaUID (Node_Meta x) = u)"
  "typed (rs_key u) v \<longleftrightarrow> (\<exists>x. v = JReplicaSet x \<and> MetaUID (RS_Meta x) = u)"
  "typed (hpa_key u) v \<longleftrightarrow> (\<exists>x. v = JHPA x \<and> MetaUID (HPA_Meta x) = u)"
  "typed (vs_key u) v \<longleftrightarrow> (\<exists>x. v = JVirtualService x \<and> MetaUID (VS_Meta x) = u)"
  "typed (subset_key u) v \<longleftrightarrow> (\<exists>x. v = JSubset x \<and> MetaUID (Subset_Meta x) = u)"
  "typed (ru_key u) v \<longleftrightarrow> (\<exists>x. v = JRollingUpdate x \<and> MetaUID (RU_Meta x) = u)"
  by (cases v; auto simp: key_defs has_prefix_iff)+

lemma typed_sidecar_key: "typed sidecar_key v \<longleftrightarrow> (\<exists>m. v = JSidecarMapping m)"
  by (cases v) (auto simp: key_defs has_prefix_iff)

lemmas typed_keys [simp] = typed_ns_key typed_host_node_key typed_text_keys typed_object_keys
  typed_sidecar_key

declare typed.simps [simp del]

section \<open>Every handler keeps the types\<close>

context etcd_server
begin

lemma keeps_delete_keys [keeps]: "keeps view T k \<Longrightarrow> keeps view T (delete_keys E ms k)"
  by (induction ms) (auto intro!: keeps)

lemma keeps_collect_node_pods [keeps]: "keeps view T (collect_node_pods E kvs ks pods)"
  by (induction kvs arbitrary: ks pods) (auto intro!: keeps)

lemma keeps_collect_pods [keeps]: "keeps view T (collect_pods E kvs pods)"
  by (induction kvs arbitrary: pods) (auto intro!: keeps)

lemma keeps_delete_mappings [keeps]: "keeps view T k \<Longrightarrow> keeps view T (delete_mappings E u kvs k)"
  by (induction kvs) (auto intro!: keeps)

lemma keeps_getAllServicesFromEtcd [keeps]:
  "(\<And>ss err. keeps view T (k ss err)) \<Longrightarrow> keeps view T (getAllServicesFromEtcd E k)"
  unfolding getAllServicesFromEtcd_def by (intro keeps)

lemma keeps_checkTypeAndPorts [keeps]:
  "(\<And>s err. keeps view T (k s err)) \<Longrightarrow> keeps view T (checkTypeAndPorts E service k)"
  unfolding checkTypeAndPorts_def by (intro keeps)

lemma keeps_read_or_init_bitmap [keeps]:
  "(\<And>s. T key (Raw s)) \<Longrightarrow> (\<And>bm. keeps view T (k bm)) \<Longrightarrow>
   keeps view T (read_or_init_bitmap E key n b k)"
  unfolding read_or_init_bitmap_def by (intro keeps)

lemma keeps_check_paths [keeps]: "keeps view T k \<Longrightarrow> keeps view T (check_paths E namespace paths k)"
  by (induction paths) (auto intro!: keeps)

lemma keeps_check_backends [keeps]:
  "keeps view T k \<Longrightarrow> keeps view T (check_backends E namespace rules k)"
  by (induction rules) (auto intro!: keeps)

lemma keeps_check_subsets [keeps]:
  "keeps view T k \<Longrightarrow> keeps view T (check_subsets E namespace subsets k)"
  by (induction subsets) (auto intro!: keeps)

lemma keeps_check_pods [keeps]: "keeps view T k \<Longrightarrow> keeps view T (check_pods E namespace ps k)"
  by (induction ps) (auto intro!: keeps)

text \<open>A handler that only deletes keeps every invariant of single entries.\<close>

lemma keeps_delete_handlers [keeps]:
  "keeps view T (DeletePodHandler E np pod_name)"
  "keeps view T (GetPodsByNodeHandler E node_name)"
  "keeps view T (DeleteScalingHandler E namespace name)"
  "keeps view T (DeleteReplicaSetHandler E namespace rpsName)"
  "keeps view T (DeleteVirtualServiceHandler E namespace vsName)"
  "keeps view T (DeleteSubsetHandler E namespace subsetName)"
  "keeps view T (DeleteRollingUpdateHandler E namespace ruName)"
  unfolding DeletePodHandler_def GetPodsByNodeHandler_def DeleteScalingHandler_def
    DeleteReplicaSetHandler_def DeleteVirtualServiceHandler_def DeleteSubsetHandler_def DeleteRollingUpdateHandler_def
  by (intro keeps)+

text \<open>A handler that writes keeps the types.\<close>

lemma typed_AddPodHandler [keeps]: "keeps view typed (AddPodHandler E namespace req uuid now)"
  unfolding AddPodHandler_def by (intro keeps) (auto simp: json_Unmarshal_defs)

lemma typed_PutPodStatusHandler [keeps]: "keeps view typed (PutPodStatusHandler E np pod_name req)"
  unfolding PutPodStatusHandler_def by (intro keeps) (auto simp: json_Unmarshal_defs)

lemma typed_SchedulePodToNodeHandler [keeps]: "keeps view typed (SchedulePodToNodeHandler E podUid nodeName)"
  unfolding SchedulePodToNodeHandler_def by (intro keeps) (auto simp: json_Unmarshal_defs)

lemma typed_AddServiceHandler [keeps]: "keeps view typed (AddServiceHandler E namespace req uuid now)"
  unfolding AddServiceHandler_def by (intro keeps) (auto simp: json_Unmarshal_defs)

lemma typed_DeleteServiceHandler [keeps]: "keeps view typed (DeleteServiceHandler E namespace serviceName)"
  unfolding DeleteServiceHandler_def by (intro keeps) (auto simp: json_Unmarshal_defs)

lemma typed_AddDNSHandler [keeps]: "keeps view typed (AddDNSHandler E namespace req uuid now)"
  unfolding AddDNSHandler_def by (intro keeps) (auto simp: json_Unmarshal_defs)

lemma typed_DeleteDNSHandler [keeps]: "keeps view typed (DeleteDNSHandler E namespace dnsName)"
  unfolding DeleteDNSHandler_def by (intro keeps) (auto simp: json_Unmarshal_defs)

lemma typed_RegisterNodeHandler [keeps]: "keeps view typed (RegisterNodeHandler E req address uuid now)"
  unfolding RegisterNodeHandler_def by (intro keeps) (auto simp: json_Unmarshal_defs)

lemma typed_UnregisterNodeHandler [keeps]: "keeps view typed (UnregisterNodeHandler E nodeName)"
  unfolding UnregisterNodeHandler_def by (intro keeps) (auto simp: json_Unmarshal_defs)

lemma typed_AddScalingHandler [keeps]: "keeps view typed (AddScalingHandler E req now uuid)"
  unfolding AddScalingHandler_def by (intro keeps) (auto simp: json_Unmarshal_defs)

lemma typed_AddReplicaSetHandler [keeps]: "keeps view typed (AddReplicaSetHandler E req uuid now)"
  unfolding AddReplicaSetHandler_def by (intro keeps) (auto simp: json_Unmarshal_defs)

lemma typed_UpdateReplicaSetHandler [keeps]: "keeps view typed (UpdateReplicaSetHandler E namespace rpsName query)"
  unfolding UpdateReplicaSetHandler_def by (intro keeps) (auto simp: json_Unmarshal_defs)

lemma typed_AddVirtualServiceHandler [keeps]: "keeps view typed (AddVirtualServiceHandler E namespace req now uuid)"
  unfolding AddVirtualServiceHandler_def by (intro keeps) (auto simp: json_Unmarshal_defs)

lemma typed_AddSubsetHandler [keeps]: "keeps view typed (AddSubsetHandler E namespace req now uuid)"
  unfolding AddSubsetHandler_def by (intro keeps) (auto simp: json_Unmarshal_defs)

lemma typed_SaveSidecarMapping [keeps]: "keeps view typed (SaveSidecarMapping E req)"
  unfolding SaveSidecarMapping_def by (intro keeps) (auto simp: json_Unmarshal_defs)

lemma typed_AddRollingUpdateHandler [keeps]: "keeps view typed (AddRollingUpdateHandler E namespace req now uuid)"
  unfolding AddRollingUpdateHandler_def by (intro keeps) (auto simp: json_Unmarshal_defs)

lemma typed_UpdateRollingUpdateStatusHandler [keeps]: "keeps view typed (UpdateRollingUpdateStatusHandler E namespace ruName req)"
  unfolding UpdateRollingUpdateStatusHandler_def by (intro keeps) (auto simp: json_Unmarshal_defs)

end

section \<open>Reading handlers\<close>

text \<open>A handler that only reads leaves the registry as it is.\<close>

definition reads :: "('w \<Rightarrow> registry) \<Rightarrow> 'w api \<Rightarrow> bool" where
  "reads view m \<longleftrightarrow> (\<forall>w. view (snd (m w)) = view w)"

lemma reads_combinators [reads]:
  "reads view (reply st b)" "reads view Return"
  "(c \<Longrightarrow> reads view m1) \<Longrightarrow> (\<not> c \<Longrightarrow> reads view m2) \<Longrightarrow> reads view (if c then m1 else m2)"
  "(x = None \<Longrightarrow> reads view m1) \<Longrightarrow> (\<And>y. x = Some y \<Longrightarrow> reads view (n y)) \<Longrightarrow>
   reads view (case x of None \<Rightarrow> m1 | Some y \<Rightarrow> n y)"
  "(\<And>y. z = Inl y \<Longrightarrow> reads view (n y)) \<Longrightarrow> (\<And>y. z = Inr y \<Longrightarrow> reads view (n' y)) \<Longrightarrow>
   reads view (case z of Inl y \<Rightarrow> n y | Inr y \<Rightarrow> n' y)"
  "(\<And>a b. q = (a, b) \<Longrightarrow> reads view (f a b)) \<Longrightarrow> reads view (case q of (a, b) \<Rightarrow> f a b)"
  "reads view (g t) \<Longrightarrow> reads view (Let t g)"
  by (auto simp: reads_def reply_def Return_def split: option.splits sum.splits prod.splits)

lemma keeps_reads: "reads view m \<Longrightarrow> keeps view T m"
  by (simp add: reads_def keeps_def)

context etcd_server
begin

lemma reads_Get [reads]: "(\<And>v err. reads view (k v err)) \<Longrightarrow> reads view (Get E key k)"
  unfolding reads_def Get_def
  by (auto simp: store.get_view split: prod.splits)
    (metis snd_conv store.get_view)

lemma reads_GetSubKeysValues [reads]:
  "(\<And>m err. reads view (k m err)) \<Longrightarrow> reads view (GetSubKeysValues E p k)"
  unfolding reads_def GetSubKeysValues_def
  by (auto split: prod.splits) (metis snd_conv store.get_sub_view)

lemma reads_collect_pods [reads]: "reads view (collect_pods E kvs pods)"
  by (induction kvs arbitrary: pods) (auto intro!: reads)

lemma reads_getAllServicesFromEtcd [reads]:
  "(\<And>ss err. reads view (k ss err)) \<Longrightarrow> reads view (getAllServicesFromEtcd E k)"
  unfolding getAllServicesFromEtcd_def by (intro reads)

lemma reads_handlers [reads]:
  "reads view (GetAllPodsHandler E)"
  "reads view (GetPodsByNamespaceHandler E np)"
  "reads view (GetPodHandler E np pod_name)"
  "reads view (GetPodStatusHandler E np pod_name)"
  "reads view (GetUnscheduledPodHandler E)"
  "reads view (GetAllServicesHandler E)"
  "reads view (GetSidecarServiceNameMapping E)"
  "reads view (GetAllDNSHandler E)"
  "reads view (GetAllNodesHandler E)"
  "reads view (GetAllScalingHandler E)"
  "reads view (GetAllReplicaSetsHandler E)"
  "reads view (GetReplicaSetHandler E namespace rpsName)"
  "reads view (GetAllVirtualServicesHandler E)"
  "reads view (GetAllSubsetsHandler E)"
  "reads view (GetSubsetHandler E namespace subsetName)"
  "reads view (GetSidecarMapping E)"
  "reads view (GetAllRollingUpdatesHandler E)"
  unfolding GetAllPodsHandler_def GetPodsByNamespaceHandler_def GetPodHandler_def GetPodStatusHandler_def GetUnscheduledPodHandler_def GetAllServicesHandler_def GetSidecarServiceNameMapping_def GetAllDNSHandler_def GetAllNodesHandler_def GetAllScalingHandler_def GetAllReplicaSetsHandler_def GetReplicaSetHandler_def GetAllVirtualServicesHandler_def GetAllSubsetsHandler_def GetSubsetHandler_def GetSidecarMapping_def GetAllRollingUpdatesHandler_def
    getAllDNSFromEtcd_def getAllScalingsFromEtcd_def
  by (intro reads)+

end

end
