(* ===== verification/Api_Server.thy ===== *)
theory Api_Server
  imports Api_Registry
begin

text \<open>
  The server: \<open>binder\<close> of \<open>routine.go\<close> routes a method and a URL to a handler. A request carries the
  parameters that gin extracts, the bound body and what the handler draws (uuid, time stamp). The
  server reaches a registry by serving requests one after the other, over an etcd whose calls may
  fail.
\<close>

datatype request =
  Ping
| GET_Node | POST_Node | GET_NodeStatus | PUT_NodeStatus
| GET_AllPods
| GET_NamespacePods string
| GET_Pod string string
| POST_Pod string "Pod option" UID time
| PUT_Pod
| DELETE_Pod string string
| GET_PodStatus string string
| PUT_PodStatus string string "PodStatus option"
| GET_NodePods string
| GET_AllServices
| POST_Service string "Service option" UID time
| DELETE_Service string string
| GET_AllDNS
| POST_DNS string "DNS option" UID time
| DELETE_DNS string string
| GET_AllNodes
| POST_RegisterNode "Node option" string UID time
| POST_UnregisterNode string
| POST_Schedule UID string
| GET_UnscheduledPods
| GET_AllReplicaSets
| POST_ReplicaSet "ReplicaSet option" UID time
| GET_ReplicaSet string string
| PUT_ReplicaSet string string string
| DELETE_ReplicaSet string string
| GET_AllScaling
| POST_Scaling "HorizontalPodAutoscaler option" time UID
| DELETE_Scaling string string
| GET_AllVirtualServices
| POST_VirtualService string "VirtualService option" time UID
| DELETE_VirtualService string string
| GET_AllSubsets
| POST_Subset string "Subset option" time UID
| DELETE_Subset string string
| GET_Subset string string
| GET_SidecarMapping
| POST_SidecarMapping "SidecarMapping option"
| GET_SidecarServiceNameMapping
| GET_AllRollingUpdates
| POST_RollingUpdate string "RollingUpdate option" time UID
| POST_RollingUpdateStatus string string "RollingUpdatePhase option"
| DELETE_RollingUpdate string string
| NoRoute

text \<open>
  The five handlers with an empty body answer 200 with no content. \<open>NoRoute\<close> is any method and path that
  \<open>binder\<close> does not register; gin answers it with a line of text.
\<close>

fun serve :: "'w env \<Rightarrow> request \<Rightarrow> 'w api" where
  "serve E Ping = reply StatusOK (Message ''pong'')"
| "serve E GET_Node = Return"
| "serve E POST_Node = Return"
| "serve E GET_NodeStatus = Return"
| "serve E PUT_NodeStatus = Return"
| "serve E GET_AllPods = GetAllPodsHandler E"
| "serve E (GET_NamespacePods np) = GetPodsByNamespaceHandler E np"
| "serve E (GET_Pod np name) = GetPodHandler E np name"
| "serve E (POST_Pod np req uuid now) = AddPodHandler E np req uuid now"
| "serve E PUT_Pod = Return"
| "serve E (DELETE_Pod np name) = DeletePodHandler E np name"
| "serve E (GET_PodStatus np name) = GetPodStatusHandler E np name"
| "serve E (PUT_PodStatus np name req) = PutPodStatusHandler E np name req"
| "serve E (GET_NodePods node) = GetPodsByNodeHandler E node"
| "serve E GET_AllServices = GetAllServicesHandler E"
| "serve E (POST_Service np req uuid now) = AddServiceHandler E np req uuid now"
| "serve E (DELETE_Service np name) = DeleteServiceHandler E np name"
| "serve E GET_AllDNS = GetAllDNSHandler E"
| "serve E (POST_DNS np req uuid now) = AddDNSHandler E np req uuid now"
| "serve E (DELETE_DNS np name) = DeleteDNSHandler E np name"
| "serve E GET_AllNodes = GetAllNodesHandler E"
| "serve E (POST_RegisterNode req address uuid now) = RegisterNodeHandler E req address uuid now"
| "serve E (POST_UnregisterNode name) = UnregisterNodeHandler E name"
| "serve E (POST_Schedule podUid node) = SchedulePodToNodeHandler E podUid node"
| "serve E GET_UnscheduledPods = GetUnscheduledPodHandler E"
| "serve E GET_AllReplicaSets = GetAllReplicaSetsHandler E"
| "serve E (POST_ReplicaSet req uuid now) = AddReplicaSetHandler E req uuid now"
| "serve E (GET_ReplicaSet np name) = GetReplicaSetHandler E np name"
| "serve E (PUT_ReplicaSet np name query) = UpdateReplicaSetHandler E np name query"
| "serve E (DELETE_ReplicaSet np name) = DeleteReplicaSetHandler E np name"
| "serve E GET_AllScaling = GetAllScalingHandler E"
| "serve E (POST_Scaling req now uuid) = AddScalingHandler E req now uuid"
| "serve E (DELETE_Scaling np name) = DeleteScalingHandler E np name"
| "serve E GET_AllVirtualServices = GetAllVirtualServicesHandler E"
| "serve E (POST_VirtualService np req now uuid) = AddVirtualServiceHandler E np req now uuid"
| "serve E (DELETE_VirtualService np name) = DeleteVirtualServiceHandler E np name"
| "serve E GET_AllSubsets = GetAllSubsetsHandler E"
| "serve E (POST_Subset np req now uuid) = AddSubsetHandler E np req now uuid"
| "serve E (DELETE_Subset np name) = DeleteSubsetHandler E np name"
| "serve E (GET_Subset np name) = GetSubsetHandler E np name"
| "serve E GET_SidecarMapping = GetSidecarMapping E"
| "serve E (POST_SidecarMapping req) = SaveSidecarMapping E req"
| "serve E GET_SidecarServiceNameMapping = GetSidecarServiceNameMapping E"
| "serve E GET_AllRollingUpdates = GetAllRollingUpdatesHandler E"
| "serve E (POST_RollingUpdate np req now uuid) = AddRollingUpdateHandler E np req now uuid"
| "serve E (POST_RollingUpdateStatus np name req) = UpdateRollingUpdateStatusHandler E np name req"
| "serve E (DELETE_RollingUpdate np name) = DeleteRollingUpdateHandler E np name"
| "serve E NoRoute = reply StatusNotFound (PlainText ''404 page not found'')"

text \<open>The worlds that the server reaches from one with an empty registry, with the replies so far.\<close>

inductive served :: "'w env \<Rightarrow> ('w \<Rightarrow> registry) \<Rightarrow> (request \<times> reply list) list \<Rightarrow> 'w \<Rightarrow> bool"
  for E :: "'w env" and view :: "'w \<Rightarrow> registry" where
  start: "view w = Map.empty \<Longrightarrow> served E view [] w"
| request: "served E view h w \<Longrightarrow> serve E r w = (rs, w') \<Longrightarrow> served E view (h @ [(r, rs)]) w'"

inductive_cases served_snocE: "served E view (h @ [(r, rs)]) w"

text \<open>
  Some properties need more of the environment: that a drawn uuid is new, as \<open>uuid.NewUUID\<close> promises,
  and that the namespace of a request has no slash in it. gin matches a path parameter up to the next
  slash, so only the namespace in the body of an autoscaler can break this. The hosts of a DNS
  object have to be whole lines of the hosts file: nothing checks that they hold no line break.
\<close>

definition no_slash :: "string \<Rightarrow> bool" where
  "no_slash s \<longleftrightarrow> CHR ''/'' \<notin> set s"

fun uuid_fresh :: "registry \<Rightarrow> request \<Rightarrow> bool" where
  "uuid_fresh V (POST_Pod _ _ u _) \<longleftrightarrow> u \<noteq> '''' \<and> V (pod_key u) = None"
| "uuid_fresh V (POST_Service _ _ u _) \<longleftrightarrow> u \<noteq> '''' \<and> V (svc_key u) = None"
| "uuid_fresh V (POST_DNS _ _ u _) \<longleftrightarrow> u \<noteq> '''' \<and> V (dns_key u) = None"
| "uuid_fresh V (POST_RegisterNode _ _ u _) \<longleftrightarrow> u \<noteq> '''' \<and> V (node_key u) = None"
| "uuid_fresh V (POST_ReplicaSet _ u _) \<longleftrightarrow> u \<noteq> '''' \<and> V (rs_key u) = None"
| "uuid_fresh V (POST_Scaling _ _ u) \<longleftrightarrow> u \<noteq> '''' \<and> V (hpa_key u) = None"
| "uuid_fresh V (POST_VirtualService _ _ _ u) \<longleftrightarrow> u \<noteq> '''' \<and> V (vs_key u) = None"
| "uuid_fresh V (POST_Subset _ _ _ u) \<longleftrightarrow> u \<noteq> '''' \<and> V (subset_key u) = None"
| "uuid_fresh V (POST_RollingUpdate _ _ _ u) \<longleftrightarrow> u \<noteq> '''' \<and> V (ru_key u) = None"
| "uuid_fresh V _ \<longleftrightarrow> True"

fun request_ok :: "request \<Rightarrow> bool" where
  "request_ok (POST_Pod np _ _ _) \<longleftrightarrow> no_slash np"
| "request_ok (DELETE_Pod np _) \<longleftrightarrow> no_slash np"
| "request_ok (PUT_PodStatus np _ _) \<longleftrightarrow> no_slash np"
| "request_ok (POST_Service np _ _ _) \<longleftrightarrow> no_slash np"
| "request_ok (DELETE_Service np _) \<longleftrightarrow> no_slash np"
| "request_ok (POST_DNS np req _ _) \<longleftrightarrow> no_slash np \<and>
     (case req of None \<Rightarrow> True | Some dns \<Rightarrow> list_all (\<lambda>rule. clean_line (Host rule)) (Rules dns))"
| "request_ok (DELETE_DNS np _) \<longleftrightarrow> no_slash np"
| "request_ok (PUT_ReplicaSet np _ _) \<longleftrightarrow> no_slash np"
| "request_ok (POST_Scaling req _ _) \<longleftrightarrow>
     (case req of None \<Rightarrow> True | Some hpa \<Rightarrow> no_slash (Namespace (HPA_Meta hpa)))"
| "request_ok (DELETE_Scaling np _) \<longleftrightarrow> no_slash np"
| "request_ok (POST_VirtualService np _ _ _) \<longleftrightarrow> no_slash np"
| "request_ok (DELETE_VirtualService np _) \<longleftrightarrow> no_slash np"
| "request_ok (POST_Subset np _ _ _) \<longleftrightarrow> no_slash np"
| "request_ok (DELETE_Subset np _) \<longleftrightarrow> no_slash np"
| "request_ok (POST_RollingUpdate np _ _ _) \<longleftrightarrow> no_slash np"
| "request_ok (POST_RollingUpdateStatus np _ _) \<longleftrightarrow> no_slash np"
| "request_ok (DELETE_RollingUpdate np _) \<longleftrightarrow> no_slash np"
| "request_ok _ \<longleftrightarrow> True"

inductive well_served :: "'w env \<Rightarrow> ('w \<Rightarrow> registry) \<Rightarrow> (request \<times> reply list) list \<Rightarrow> 'w \<Rightarrow> bool"
  for E :: "'w env" and view :: "'w \<Rightarrow> registry" where
  well_start: "view w = Map.empty \<Longrightarrow> well_served E view [] w"
| well_request: "well_served E view h w \<Longrightarrow> uuid_fresh (view w) r \<Longrightarrow> request_ok r \<Longrightarrow>
    serve E r w = (rs, w') \<Longrightarrow> well_served E view (h @ [(r, rs)]) w'"

text \<open>A list of requests served one after the other: a run of the server that can be evaluated.\<close>

fun serve_all :: "'w env \<Rightarrow> request list \<Rightarrow> (request \<times> reply list) list \<times> 'w \<Rightarrow>
    (request \<times> reply list) list \<times> 'w" where
  "serve_all E [] hw = hw"
| "serve_all E (r # rs) (h, w) = (case serve E r w of (out, w') \<Rightarrow> serve_all E rs (h @ [(r, out)], w'))"

fun well_all :: "'w env \<Rightarrow> ('w \<Rightarrow> registry) \<Rightarrow> request list \<Rightarrow> 'w \<Rightarrow> bool" where
  "well_all E view [] w = True"
| "well_all E view (r # rs) w \<longleftrightarrow>
     uuid_fresh (view w) r \<and> request_ok r \<and> well_all E view rs (snd (serve E r w))"

lemma served_serve_all:
  "served E view h w \<Longrightarrow> serve_all E rs (h, w) = (h', w') \<Longrightarrow> served E view h' w'"
  by (induction rs arbitrary: h w) (auto split: prod.splits intro: served.request)

lemma well_served_serve_all:
  "well_served E view h w \<Longrightarrow> well_all E view rs w \<Longrightarrow> serve_all E rs (h, w) = (h', w') \<Longrightarrow>
   well_served E view h' w'"
  by (induction rs arbitrary: h w) (auto split: prod.splits intro: well_served.well_request)

lemma served_run:
  "view w = Map.empty \<Longrightarrow> served E view (fst (serve_all E rs ([], w))) (snd (serve_all E rs ([], w)))"
  by (metis served.start served_serve_all prod.collapse)

lemma well_served_run:
  "view w = Map.empty \<Longrightarrow> well_all E view rs w \<Longrightarrow>
   well_served E view (fst (serve_all E rs ([], w))) (snd (serve_all E rs ([], w)))"
  by (metis well_served.well_start well_served_serve_all prod.collapse)

lemma well_served_served: "well_served E view h w \<Longrightarrow> served E view h w"
  by (induction rule: well_served.induct) (auto intro: served.intros)

context etcd_server
begin

lemma served_invariant:
  assumes "served E view h w"
    and "I Map.empty"
    and "\<And>r w rs w'. I (view w) \<Longrightarrow> serve E r w = (rs, w') \<Longrightarrow> I (view w')"
  shows "I (view w)"
  using assms(1) by (induction rule: served.induct) (auto simp: assms(2,3))

lemma keeps_serve: "keeps view typed (serve E r)"
  by (cases r) (auto intro!: keeps keeps_reads reads)

lemma serve_typed: "serve E r w = (rs, w') \<Longrightarrow> keyed typed (view w) \<Longrightarrow> keyed typed (view w')"
  using keeps_serve [of r] unfolding keeps_def by (metis snd_conv)

lemma served_typed: "served E view h w \<Longrightarrow> keyed typed (view w)"
  by (erule served_invariant) (auto intro: serve_typed)

text \<open>An invariant whose step may use the types.\<close>

lemma served_typed_invariant:
  assumes "served E view h w" "I Map.empty"
    and "\<And>r w rs w'. keyed typed (view w) \<Longrightarrow> I (view w) \<Longrightarrow> serve E r w = (rs, w') \<Longrightarrow> I (view w')"
  shows "I (view w)"
proof -
  have "keyed typed (view w) \<and> I (view w)"
    by (rule served_invariant [OF assms(1)])
      (auto intro: serve_typed assms(2,3))
  then show ?thesis ..
qed

lemma well_served_invariant:
  assumes "well_served E view h w" "I Map.empty"
    and "\<And>r w rs w'. keyed typed (view w) \<Longrightarrow> I (view w) \<Longrightarrow> uuid_fresh (view w) r \<Longrightarrow> request_ok r \<Longrightarrow>
      serve E r w = (rs, w') \<Longrightarrow> I (view w')"
  shows "I (view w)"
proof -
  from assms(1) have "keyed typed (view w) \<and> I (view w)"
    by (induction rule: well_served.induct)
      (auto intro: serve_typed assms(2,3))
  then show ?thesis ..
qed

end

end
