(* ===== verification/Api_Frame.thy ===== *)
theory Api_Frame
  imports Api_Server
begin

text \<open>
  What a request may touch. \<open>frame view K m\<close> says that \<open>m\<close> changes no key outside \<open>K\<close>, whatever calls
  fail; its rules (collection \<open>frame\<close>) follow the combinators. \<open>footprint r\<close> gives the keys of a
  request: the index entries of its own kind and the objects of its own kind, the bitmap or the hosts
  where the handler uses them, and nothing else.
\<close>

definition frame :: "('w \<Rightarrow> registry) \<Rightarrow> string set \<Rightarrow> 'w api \<Rightarrow> bool" where
  "frame view K m \<longleftrightarrow> (\<forall>w k. k \<notin> K \<longrightarrow> view (snd (m w)) k = view w k)"

lemma frame_combinators [frame]:
  "frame view K (reply st b)" "frame view K Return" "frame view K Panics"
  "frame view K m1 \<Longrightarrow> frame view K (Write st b m1)"
  "(c \<Longrightarrow> frame view K m1) \<Longrightarrow> (\<not> c \<Longrightarrow> frame view K m2) \<Longrightarrow> frame view K (if c then m1 else m2)"
  "(x = None \<Longrightarrow> frame view K m1) \<Longrightarrow> (\<And>y. x = Some y \<Longrightarrow> frame view K (n y)) \<Longrightarrow>
   frame view K (case x of None \<Rightarrow> m1 | Some y \<Rightarrow> n y)"
  "(\<And>y. z = Inl y \<Longrightarrow> frame view K (p y)) \<Longrightarrow> (\<And>y. z = Inr y \<Longrightarrow> frame view K (p' y)) \<Longrightarrow>
   frame view K (case z of Inl y \<Rightarrow> p y | Inr y \<Rightarrow> p' y)"
  "(\<And>a b. q = (a, b) \<Longrightarrow> frame view K (f a b)) \<Longrightarrow> frame view K (case q of (a, b) \<Rightarrow> f a b)"
  "frame view K (g t) \<Longrightarrow> frame view K (Let t g)"
  by (auto simp: frame_def reply_def Return_def Panics_def Write_def case_prod_beta
      split: option.splits sum.splits)

lemma frame_reads: "reads view m \<Longrightarrow> frame view K m"
  by (simp add: reads_def frame_def)

lemma frame_trans:
  "frame view K m \<Longrightarrow> (\<forall>k. k \<notin> K \<longrightarrow> view w' k = view w k) \<Longrightarrow> k \<notin> K \<Longrightarrow>
   view (snd (m w')) k = view w k"
  by (simp add: frame_def)

definition hpa_namespace :: "HorizontalPodAutoscaler \<Rightarrow> string" where
  "hpa_namespace hpa = (if Namespace (HPA_Meta hpa) = '''' then Default_Namespace else Namespace (HPA_Meta hpa))"

context etcd_server
begin

lemma frame_Get [frame]: "(\<And>v err. frame view K (k v err)) \<Longrightarrow> frame view K (Get E key k)"
  unfolding frame_def Get_def
  by (auto split: prod.splits) (metis snd_conv store.get_view)

lemma frame_GetSubKeysValues [frame]:
  assumes "\<And>m err. \<forall>e\<in>set m. has_prefix p (fst e) \<Longrightarrow> frame view K (k m err)"
  shows "frame view K (GetSubKeysValues E p k)"
  unfolding frame_def
proof (intro allI impI)
  fix w x
  assume x: "x \<notin> K"
  obtain m err w' where g: "store_GetSubKeysValues E p w = ((m, err), w')"
    by (metis surj_pair)
  from store.get_sub_law [OF g] have w': "view w' = view w" and m: "\<forall>e\<in>set m. has_prefix p (fst e)"
    by (auto simp: map_of_distinct_iff split: if_splits)
  with assms [OF m, of err] x show "view (snd (GetSubKeysValues E p k w)) x = view w x"
    by (simp add: frame_def GetSubKeysValues_def g)
qed

lemma frame_Set [frame]:
  assumes "key \<in> K" "\<And>err. frame view K (k err)"
  shows "frame view K (Set E key v k)"
  unfolding frame_def
proof (intro allI impI)
  fix w x
  assume x: "x \<notin> K"
  obtain err w' where g: "store_Set E key v w = (err, w')"
    by (cases "store_Set E key v w")
  with store.set_law [OF g] assms x show "view (snd (Set E key v k w)) x = view w x"
    by (auto simp: Set_def intro!: frame_trans [OF assms(2)])
qed

lemma frame_Delete [frame]:
  assumes "key \<in> K" "\<And>err. frame view K (k err)"
  shows "frame view K (Delete E key k)"
  unfolding frame_def
proof (intro allI impI)
  fix w x
  assume x: "x \<notin> K"
  obtain err w' where g: "store_Delete E key w = (err, w')"
    by (cases "store_Delete E key w")
  with store.del_law [OF g] assms x show "view (snd (Delete E key k w)) x = view w x"
    by (auto simp: Delete_def intro!: frame_trans [OF assms(2)])
qed

lemma frame_DeleteSubKeys [frame]:
  assumes "\<And>x. has_prefix p x \<Longrightarrow> x \<in> K" "\<And>err. frame view K (k err)"
  shows "frame view K (DeleteSubKeys E p k)"
  unfolding frame_def
proof (intro allI impI)
  fix w x
  assume x: "x \<notin> K"
  obtain err w' where g: "store_DeleteSubKeys E p w = (err, w')"
    by (cases "store_DeleteSubKeys E p w")
  with store.del_sub_law [OF g] assms x show "view (snd (DeleteSubKeys E p k w)) x = view w x"
    by (auto simp: DeleteSubKeys_def drop_prefix_def intro!: frame_trans [OF assms(2)])
qed

lemma host_node_prefix [intro, simp]:
  "has_prefix ''/registry/host-nodes'' (host_node_key node rest)"
  "has_prefix (host_node_key node rest) k \<Longrightarrow> has_prefix ''/registry/host-nodes'' k"
  by (auto simp: host_node_key_def has_prefix_iff)

text \<open>The loops.\<close>

lemma frame_delete_keys [frame]:
  "frame view K k \<Longrightarrow> \<forall>x\<in>set ms. x \<in> K \<Longrightarrow> frame view K (delete_keys E ms k)"
  by (induction ms) (auto intro!: frame)

lemma frame_collect_node_pods [frame]:
  "\<forall>e\<in>set kvs. fst e \<in> K \<Longrightarrow> \<forall>x\<in>set ks. x \<in> K \<Longrightarrow> frame view K (collect_node_pods E kvs ks pods)"
  by (induction kvs arbitrary: ks pods) (auto intro!: frame)

lemma frame_delete_mappings [frame]:
  "\<forall>e\<in>set kvs. fst e \<in> K \<Longrightarrow> frame view K k \<Longrightarrow> frame view K (delete_mappings E u kvs k)"
  by (induction kvs) (auto intro!: frame)

lemma frame_checkTypeAndPorts [frame]:
  "(\<And>s err. frame view K (k s err)) \<Longrightarrow> frame view K (checkTypeAndPorts E service k)"
  unfolding checkTypeAndPorts_def getAllServicesFromEtcd_def by (intro frame)

lemma frame_read_or_init_bitmap [frame]:
  "key \<in> K \<Longrightarrow> (\<And>bm. frame view K (k bm)) \<Longrightarrow> frame view K (read_or_init_bitmap E key n b k)"
  unfolding read_or_init_bitmap_def by (intro frame)

lemma frame_check_paths [frame]:
  "frame view K k \<Longrightarrow> frame view K (check_paths E namespace paths k)"
  by (induction paths) (auto intro!: frame)

lemma frame_check_backends [frame]:
  "frame view K k \<Longrightarrow> frame view K (check_backends E namespace rules k)"
  by (induction rules) (auto intro!: frame)

lemma frame_check_subsets [frame]:
  "frame view K k \<Longrightarrow> frame view K (check_subsets E namespace subsets k)"
  by (induction subsets) (auto intro!: frame)

lemma frame_check_pods [frame]: "frame view K k \<Longrightarrow> frame view K (check_pods E namespace ps k)"
  by (induction ps) (auto intro!: frame)

text \<open>The handlers that write.\<close>



lemma frame_AddPodHandler [frame]:
  assumes "\<And>n. ns_key namespace ''pods'' n \<in> K" "\<And>u. pod_key u \<in> K"
  shows "frame view K (AddPodHandler E namespace req uuid now)"
  unfolding AddPodHandler_def by (intro frame) (simp_all add: assms)

lemma frame_DeletePodHandler [frame]:
  assumes "\<And>n. ns_key namespace ''pods'' n \<in> K" "\<And>u. pod_key u \<in> K"
  shows "frame view K (DeletePodHandler E namespace n)"
  unfolding DeletePodHandler_def by (intro frame) (simp_all add: assms)

lemma frame_PutPodStatusHandler [frame]:
  assumes "\<And>u. pod_key u \<in> K"
  shows "frame view K (PutPodStatusHandler E np pod_name req)"
  unfolding PutPodStatusHandler_def by (intro frame) (simp_all add: assms)

lemma frame_AddServiceHandler [frame]:
  assumes "ip_bitmap_key \<in> K" "\<And>n. ns_key namespace ''services'' n \<in> K" "\<And>u. svc_key u \<in> K"
  shows "frame view K (AddServiceHandler E namespace req uuid now)"
  unfolding AddServiceHandler_def by (intro frame) (simp_all add: assms)

lemma frame_DeleteServiceHandler [frame]:
  assumes "ip_bitmap_key \<in> K" "\<And>n. ns_key namespace ''services'' n \<in> K" "\<And>u. svc_key u \<in> K"
  shows "frame view K (DeleteServiceHandler E namespace n)"
  unfolding DeleteServiceHandler_def by (intro frame) (simp_all add: assms)

lemma frame_AddDNSHandler [frame]:
  assumes "hosts_key \<in> K" "\<And>n. ns_key namespace ''dns'' n \<in> K" "\<And>u. dns_key u \<in> K"
  shows "frame view K (AddDNSHandler E namespace req uuid now)"
  unfolding AddDNSHandler_def by (intro frame) (simp_all add: assms)

lemma frame_DeleteDNSHandler [frame]:
  assumes "hosts_key \<in> K" "\<And>n. ns_key namespace ''dns'' n \<in> K" "\<And>u. dns_key u \<in> K"
  shows "frame view K (DeleteDNSHandler E namespace n)"
  unfolding DeleteDNSHandler_def by (intro frame) (simp_all add: assms)

lemma frame_RegisterNodeHandler [frame]:
  assumes "node_bitmap_key \<in> K" "\<And>n. ns_key ''default'' ''nodes'' n \<in> K" "\<And>u. node_key u \<in> K"
  shows "frame view K (RegisterNodeHandler E req address uuid now)"
  unfolding RegisterNodeHandler_def by (intro frame) (simp_all add: assms)

lemma frame_UnregisterNodeHandler [frame]:
  assumes "node_bitmap_key \<in> K" "\<And>n. ns_key ''default'' ''nodes'' n \<in> K" "\<And>u. node_key u \<in> K" "\<And>k. has_prefix ''/registry/host-nodes'' k \<Longrightarrow> k \<in> K"
  shows "frame view K (UnregisterNodeHandler E n)"
  unfolding UnregisterNodeHandler_def
  by (intro frame) (auto simp: assms(1-3) intro!: assms(4))

lemma frame_SchedulePodToNodeHandler [frame]:
  assumes "\<And>k. has_prefix ''/registry/host-nodes'' k \<Longrightarrow> k \<in> K"
  shows "frame view K (SchedulePodToNodeHandler E podUid nodeName)"
  unfolding SchedulePodToNodeHandler_def by (intro frame) (auto intro!: assms)

lemma frame_GetPodsByNodeHandler [frame]:
  assumes "\<And>k. has_prefix ''/registry/host-nodes'' k \<Longrightarrow> k \<in> K"
  shows "frame view K (GetPodsByNodeHandler E nodeName)"
  unfolding GetPodsByNodeHandler_def by (intro frame) (auto intro!: assms)

lemma frame_AddScalingHandler [frame]:
  assumes "\<And>hpa n. req = Some hpa \<Longrightarrow> ns_key (hpa_namespace hpa) ''scaling'' n \<in> K"
    "\<And>hpa u. req = Some hpa \<Longrightarrow> hpa_key u \<in> K"
  shows "frame view K (AddScalingHandler E req now uuid)"
proof (cases req)
  case (Some hpa)
  have "Namespace (HPA_Meta hpa) = [] \<Longrightarrow> ns_key ''default'' ''scaling'' n \<in> K"
    "Namespace (HPA_Meta hpa) \<noteq> [] \<Longrightarrow> ns_key (Namespace (HPA_Meta hpa)) ''scaling'' n \<in> K" for n
    using assms(1) [OF Some, of n] by (simp_all add: hpa_namespace_def)
  then show ?thesis
    unfolding AddScalingHandler_def by (intro frame) (auto simp: Some assms(2) [OF Some])
qed (simp add: AddScalingHandler_def frame)

lemma frame_DeleteScalingHandler [frame]:
  assumes "\<And>n. ns_key namespace ''scaling'' n \<in> K" "\<And>u. hpa_key u \<in> K"
  shows "frame view K (DeleteScalingHandler E namespace n)"
  unfolding DeleteScalingHandler_def by (intro frame) (simp_all add: assms)

lemma frame_AddReplicaSetHandler [frame]:
  assumes "\<And>n. ns_key ''default'' ''replicasets'' n \<in> K" "\<And>u. rs_key u \<in> K"
  shows "frame view K (AddReplicaSetHandler E req uuid now)"
  unfolding AddReplicaSetHandler_def by (intro frame) (simp_all add: assms)

lemma frame_UpdateReplicaSetHandler [frame]:
  assumes "\<And>u. rs_key u \<in> K"
  shows "frame view K (UpdateReplicaSetHandler E namespace n query)"
  unfolding UpdateReplicaSetHandler_def by (intro frame) (simp_all add: assms)

lemma frame_DeleteReplicaSetHandler [frame]:
  assumes "\<And>n. ns_key ''default'' ''replicasets'' n \<in> K" "\<And>u. rs_key u \<in> K"
  shows "frame view K (DeleteReplicaSetHandler E namespace n)"
  unfolding DeleteReplicaSetHandler_def by (intro frame) (simp_all add: assms)

lemma frame_AddVirtualServiceHandler [frame]:
  assumes "\<And>n. ns_key namespace ''virtualservices'' n \<in> K" "\<And>u. vs_key u \<in> K"
  shows "frame view K (AddVirtualServiceHandler E namespace req now uuid)"
  unfolding AddVirtualServiceHandler_def by (intro frame) (simp_all add: assms)

lemma frame_DeleteVirtualServiceHandler [frame]:
  assumes "\<And>n. ns_key namespace ''virtualservices'' n \<in> K" "\<And>u. vs_key u \<in> K"
  shows "frame view K (DeleteVirtualServiceHandler E namespace n)"
  unfolding DeleteVirtualServiceHandler_def by (intro frame) (simp_all add: assms)

lemma frame_AddSubsetHandler [frame]:
  assumes "\<And>n. ns_key namespace ''subsets'' n \<in> K" "\<And>u. subset_key u \<in> K"
  shows "frame view K (AddSubsetHandler E namespace req now uuid)"
  unfolding AddSubsetHandler_def by (intro frame) (simp_all add: assms)

lemma frame_DeleteSubsetHandler [frame]:
  assumes "\<And>n. ns_key namespace ''subsets'' n \<in> K" "\<And>u. subset_key u \<in> K"
  shows "frame view K (DeleteSubsetHandler E namespace n)"
  unfolding DeleteSubsetHandler_def by (intro frame) (simp_all add: assms)

lemma frame_SaveSidecarMapping [frame]:
  assumes "sidecar_key \<in> K"
  shows "frame view K (SaveSidecarMapping E req)"
  unfolding SaveSidecarMapping_def by (intro frame) (simp_all add: assms)

lemma frame_AddRollingUpdateHandler [frame]:
  assumes "\<And>n. ns_key namespace ''rollingupdates'' n \<in> K" "\<And>u. ru_key u \<in> K"
  shows "frame view K (AddRollingUpdateHandler E namespace req now uuid)"
  unfolding AddRollingUpdateHandler_def by (intro frame) (simp_all add: assms)

lemma frame_UpdateRollingUpdateStatusHandler [frame]:
  assumes "\<And>u. ru_key u \<in> K"
  shows "frame view K (UpdateRollingUpdateStatusHandler E namespace n req)"
  unfolding UpdateRollingUpdateStatusHandler_def by (intro frame) (simp_all add: assms)

lemma frame_DeleteRollingUpdateHandler [frame]:
  assumes "\<And>n. ns_key namespace ''rollingupdates'' n \<in> K" "\<And>u. ru_key u \<in> K"
  shows "frame view K (DeleteRollingUpdateHandler E namespace n)"
  unfolding DeleteRollingUpdateHandler_def by (intro frame) (simp_all add: assms)

end

section \<open>The footprint of a request\<close>

definition index_keys :: "string \<Rightarrow> string \<Rightarrow> string set" where
  "index_keys namespace kind = {ns_key namespace kind name |name. True}"

definition objects :: "(UID \<Rightarrow> string) \<Rightarrow> string set" where
  "objects key = {key uid |uid. True}"

definition host_nodes :: "string set" where
  "host_nodes = {k. has_prefix ''/registry/host-nodes'' k}"

fun footprint :: "request \<Rightarrow> string set" where
  "footprint (POST_Pod np _ _ _) = index_keys np ''pods'' \<union> objects pod_key"
| "footprint (DELETE_Pod np _) = index_keys np ''pods'' \<union> objects pod_key"
| "footprint (PUT_PodStatus _ _ _) = objects pod_key"
| "footprint (GET_NodePods _) = host_nodes"
| "footprint (POST_Service np _ _ _) = index_keys np ''services'' \<union> objects svc_key \<union> {ip_bitmap_key}"
| "footprint (DELETE_Service np _) = index_keys np ''services'' \<union> objects svc_key \<union> {ip_bitmap_key}"
| "footprint (POST_DNS np _ _ _) = index_keys np ''dns'' \<union> objects dns_key \<union> {hosts_key}"
| "footprint (DELETE_DNS np _) = index_keys np ''dns'' \<union> objects dns_key \<union> {hosts_key}"
| "footprint (POST_RegisterNode _ _ _ _) =
     index_keys Default_Namespace ''nodes'' \<union> objects node_key \<union> {node_bitmap_key}"
| "footprint (POST_UnregisterNode _) =
     index_keys Default_Namespace ''nodes'' \<union> objects node_key \<union> {node_bitmap_key} \<union> host_nodes"
| "footprint (POST_Schedule _ _) = host_nodes"
| "footprint (POST_ReplicaSet _ _ _) = index_keys Default_Namespace ''replicasets'' \<union> objects rs_key"
| "footprint (PUT_ReplicaSet _ _ _) = objects rs_key"
| "footprint (DELETE_ReplicaSet _ _) = index_keys Default_Namespace ''replicasets'' \<union> objects rs_key"
| "footprint (POST_Scaling req _ _) = (case req of None \<Rightarrow> {}
     | Some hpa \<Rightarrow> index_keys (hpa_namespace hpa) ''scaling'' \<union> objects hpa_key)"
| "footprint (DELETE_Scaling np _) = index_keys np ''scaling'' \<union> objects hpa_key"
| "footprint (POST_VirtualService np _ _ _) = index_keys np ''virtualservices'' \<union> objects vs_key"
| "footprint (DELETE_VirtualService np _) = index_keys np ''virtualservices'' \<union> objects vs_key"
| "footprint (POST_Subset np _ _ _) = index_keys np ''subsets'' \<union> objects subset_key"
| "footprint (DELETE_Subset np _) = index_keys np ''subsets'' \<union> objects subset_key"
| "footprint (POST_SidecarMapping _) = {sidecar_key}"
| "footprint (POST_RollingUpdate np _ _ _) = index_keys np ''rollingupdates'' \<union> objects ru_key"
| "footprint (POST_RollingUpdateStatus _ _ _) = objects ru_key"
| "footprint (DELETE_RollingUpdate np _) = index_keys np ''rollingupdates'' \<union> objects ru_key"
| "footprint _ = {}"

lemma footprint_keys [simp]:
  "k \<in> index_keys np kind \<longleftrightarrow> (\<exists>n. k = ns_key np kind n)" "k \<in> objects key \<longleftrightarrow> (\<exists>u. k = key u)"
  "k \<in> host_nodes \<longleftrightarrow> has_prefix ''/registry/host-nodes'' k"
  by (auto simp: index_keys_def objects_def host_nodes_def)

lemma not_host_node [simp]:
  "\<not> has_prefix ''/registry/host-nodes'' (pod_key u)" "\<not> has_prefix ''/registry/host-nodes'' (svc_key u)"
  "\<not> has_prefix ''/registry/host-nodes'' (dns_key u)" "\<not> has_prefix ''/registry/host-nodes'' (node_key u)"
  "\<not> has_prefix ''/registry/host-nodes'' (rs_key u)" "\<not> has_prefix ''/registry/host-nodes'' (hpa_key u)"
  "\<not> has_prefix ''/registry/host-nodes'' (vs_key u)" "\<not> has_prefix ''/registry/host-nodes'' (subset_key u)"
  "\<not> has_prefix ''/registry/host-nodes'' (ru_key u)"
  "\<not> has_prefix ''/registry/host-nodes'' ip_bitmap_key"
  "\<not> has_prefix ''/registry/host-nodes'' node_bitmap_key"
  "\<not> has_prefix ''/registry/host-nodes'' hosts_key"
  "\<not> has_prefix ''/registry/host-nodes'' sidecar_key"
  "\<not> has_prefix ''/registry/host-nodes'' (ns_key np kind n)"
  by (simp_all add: key_defs has_prefix_iff)

text \<open>The kind of object that a request writes.\<close>

fun request_kind :: "request \<Rightarrow> string" where
  "request_kind (POST_Pod _ _ _ _) = ''pods''"
| "request_kind (DELETE_Pod _ _) = ''pods''"
| "request_kind (PUT_PodStatus _ _ _) = ''pods''"
| "request_kind (POST_Service _ _ _ _) = ''services''"
| "request_kind (DELETE_Service _ _) = ''services''"
| "request_kind (POST_DNS _ _ _ _) = ''dns''"
| "request_kind (DELETE_DNS _ _) = ''dns''"
| "request_kind (POST_RegisterNode _ _ _ _) = ''nodes''"
| "request_kind (POST_UnregisterNode _) = ''nodes''"
| "request_kind (POST_ReplicaSet _ _ _) = ''replicasets''"
| "request_kind (PUT_ReplicaSet _ _ _) = ''replicasets''"
| "request_kind (DELETE_ReplicaSet _ _) = ''replicasets''"
| "request_kind (POST_Scaling _ _ _) = ''scaling''"
| "request_kind (DELETE_Scaling _ _) = ''scaling''"
| "request_kind (POST_VirtualService _ _ _ _) = ''virtualservices''"
| "request_kind (DELETE_VirtualService _ _) = ''virtualservices''"
| "request_kind (POST_Subset _ _ _ _) = ''subsets''"
| "request_kind (DELETE_Subset _ _) = ''subsets''"
| "request_kind (POST_RollingUpdate _ _ _ _) = ''rollingupdates''"
| "request_kind (POST_RollingUpdateStatus _ _ _) = ''rollingupdates''"
| "request_kind (DELETE_RollingUpdate _ _) = ''rollingupdates''"
| "request_kind _ = ''''"

lemma footprint_kind:
  "pod_key u \<in> footprint r \<Longrightarrow> request_kind r = ''pods''"
  "svc_key u \<in> footprint r \<Longrightarrow> request_kind r = ''services''"
  "dns_key u \<in> footprint r \<Longrightarrow> request_kind r = ''dns''"
  "node_key u \<in> footprint r \<Longrightarrow> request_kind r = ''nodes''"
  "rs_key u \<in> footprint r \<Longrightarrow> request_kind r = ''replicasets''"
  "hpa_key u \<in> footprint r \<Longrightarrow> request_kind r = ''scaling''"
  "vs_key u \<in> footprint r \<Longrightarrow> request_kind r = ''virtualservices''"
  "subset_key u \<in> footprint r \<Longrightarrow> request_kind r = ''subsets''"
  "ru_key u \<in> footprint r \<Longrightarrow> request_kind r = ''rollingupdates''"
  "ip_bitmap_key \<in> footprint r \<Longrightarrow> request_kind r = ''services''"
  "node_bitmap_key \<in> footprint r \<Longrightarrow> request_kind r = ''nodes''"
  "hosts_key \<in> footprint r \<Longrightarrow> request_kind r = ''dns''"
  by (cases r; auto split: option.splits)+

context etcd_server
begin

lemma frame_serve: "frame view (footprint r) (serve E r)"
  by (cases r) (auto intro!: frame reads_handlers [THEN frame_reads])

lemma serve_frame: "serve E r w = (rs, w') \<Longrightarrow> k \<notin> footprint r \<Longrightarrow> view w' k = view w k"
  using frame_serve [of r] unfolding frame_def by (metis snd_conv)

end

end
