(* ===== verification/Service_Safety.thy ===== *)
theory Service_Safety
  imports Api_Frame
begin

text \<open>
  What the service handlers guarantee about the services in the registry: every stored service has
  valid ports, no two services share a node port (whatever calls of etcd fail), and, when no call
  fails, the addresses of the services are the ones that the address bitmap holds, one each.
\<close>

section \<open>Ports\<close>

definition node_ports :: "Service \<Rightarrow> int set" where
  "node_ports s = (if Service_Type (Svc_Spec s) = ServiceTypeNodePort
     then set (map NodePort (Service_Ports (Svc_Spec s))) else {})"

definition port_valid :: "bool \<Rightarrow> ServicePort \<Rightarrow> bool" where
  "port_valid isNodePort p \<longleftrightarrow> ServicePort_Protocol p \<noteq> '''' \<and> PortMin \<le> Port p \<and> Port p \<le> PortMax
     \<and> PortMin \<le> TargetPort p \<and> TargetPort p \<le> PortMax
     \<and> (isNodePort \<longrightarrow> NodePortMin \<le> NodePort p \<and> NodePort p \<le> NodePortMax)"

definition service_valid :: "Service \<Rightarrow> bool" where
  "service_valid s \<longleftrightarrow>
     Service_Type (Svc_Spec s) \<in> {ServiceTypeClusterIP, ServiceTypeNodePort}
     \<and> (\<forall>p\<in>set (Service_Ports (Svc_Spec s)). port_valid (Service_Type (Svc_Spec s) = ServiceTypeNodePort) p)
     \<and> (Service_Type (Svc_Spec s) = ServiceTypeNodePort \<longrightarrow> distinct (map NodePort (Service_Ports (Svc_Spec s))))"

lemma check_ports_Cons:
  assumes "check_ports b (p # ps) S = Inr (ports', S')"
  obtains p' ps' where "ports' = p' # ps'" "NodePort p' = NodePort p" "port_valid b p'"
    "b \<longrightarrow> NodePort p \<notin> set S"
    "check_ports b ps (if b then NodePort p # S else S) = Inr (ps', S')"
proof -
  from assms obtain ps' where "ports' = (if ServicePort_Protocol p = '''' then p\<lparr>ServicePort_Protocol := ProtocolTCP\<rparr> else p) # ps'"
      "check_ports b ps (if b then NodePort p # S else S) = Inr (ps', S')"
      "PortMin \<le> TargetPort p" "TargetPort p \<le> PortMax" "PortMin \<le> Port p" "Port p \<le> PortMax"
      "b \<longrightarrow> NodePortMin \<le> NodePort p \<and> NodePort p \<le> NodePortMax" "b \<longrightarrow> NodePort p \<notin> set S"
    by (auto simp: Let_def List.member_iff not_less simp del: ProtocolTCP_def split: if_splits sum.splits prod.splits)
  with that show ?thesis by (auto simp: port_valid_def)
qed

lemma check_ports_Inr:
  assumes "check_ports b ports S = Inr (ports', S')"
  shows "map NodePort ports' = map NodePort ports \<and> (\<forall>p\<in>set ports'. port_valid b p) \<and>
    (b \<longrightarrow> distinct (map NodePort ports) \<and> set (map NodePort ports) \<inter> set S = {}) \<and>
    set S' = set S \<union> (if b then set (map NodePort ports) else {})"
  using assms
proof (induction ports arbitrary: S ports' S')
  case (Cons p ps)
  from Cons.prems obtain p' ps' where *: "ports' = p' # ps'" "NodePort p' = NodePort p" "port_valid b p'"
    "b \<longrightarrow> NodePort p \<notin> set S" "check_ports b ps (if b then NodePort p # S else S) = Inr (ps', S')"
    by (rule check_ports_Cons)
  from Cons.IH [OF *(5)] *(1-4) show ?case by (auto split: if_splits)
qed simp

lemma node_port_conflict_None:
  "node_port_conflict S svcs = None \<longleftrightarrow> (\<forall>s\<in>set svcs. node_ports s \<inter> set S = {})"
proof (induction svcs)
  case (Cons s svcs)
  have "find (\<lambda>port. List.member S (NodePort port)) (Service_Ports (Svc_Spec s)) = None \<longleftrightarrow>
      set (map NodePort (Service_Ports (Svc_Spec s))) \<inter> set S = {}"
    by (auto simp: find_None_iff List.member_iff)
  with Cons show ?case by (auto simp: node_ports_def split: option.splits)
qed simp

text \<open>The services in the registry.\<close>

definition node_ports_unique :: "registry \<Rightarrow> bool" where
  "node_ports_unique V \<longleftrightarrow> (\<forall>k s. V k = Some (JService s) \<longrightarrow> service_valid s) \<and>
     (\<forall>k k' s s'. V k = Some (JService s) \<longrightarrow> V k' = Some (JService s') \<longrightarrow> k \<noteq> k' \<longrightarrow>
        node_ports s \<inter> node_ports s' = {})"

definition ports_free :: "Service \<Rightarrow> registry \<Rightarrow> bool" where
  "ports_free s V \<longleftrightarrow> (\<forall>k t. V k = Some (JService t) \<longrightarrow> node_ports s \<inter> node_ports t = {})"

lemma node_ports_unique_Raw [simp]:
  "node_ports_unique V \<Longrightarrow> node_ports_unique (V(k \<mapsto> Raw x))"
  "ports_free s V \<Longrightarrow> ports_free s (V(k \<mapsto> Raw x))"
  by (auto simp: node_ports_unique_def ports_free_def)

lemma node_ports_unique_insert:
  "node_ports_unique V \<Longrightarrow> ports_free s V \<Longrightarrow> service_valid s \<Longrightarrow> node_ports_unique (V(k \<mapsto> JService s))"
  by (auto simp: node_ports_unique_def ports_free_def Int_commute)

lemma node_ports_unique_sub:
  "node_ports_unique V \<Longrightarrow> (\<And>k s. V' k = Some (JService s) \<Longrightarrow> V k = Some (JService s)) \<Longrightarrow>
   node_ports_unique V'"
  unfolding node_ports_unique_def by metis

lemma node_ports_unique_or:
  "V' = A \<or> V' = B \<Longrightarrow> node_ports_unique A \<Longrightarrow> node_ports_unique B \<Longrightarrow> node_ports_unique V'"
  by blast

definition checked_service :: "Service \<Rightarrow> Service \<Rightarrow> registry \<Rightarrow> bool" where
  "checked_service s0 s V \<longleftrightarrow> service_valid s \<and> ports_free s V \<and> Svc_Meta s = Svc_Meta s0
     \<and> ClusterIP (Svc_Spec s) = ClusterIP (Svc_Spec s0)"

lemma service_fields [simp]:
  "node_ports (s\<lparr>Svc_Meta := m\<rparr>) = node_ports s" "service_valid (s\<lparr>Svc_Meta := m\<rparr>) = service_valid s"
  "node_ports (s\<lparr>Svc_Spec := sp\<lparr>ClusterIP := ip\<rparr>\<rparr>) = node_ports (s\<lparr>Svc_Spec := sp\<rparr>)"
  "service_valid (s\<lparr>Svc_Spec := sp\<lparr>ClusterIP := ip\<rparr>\<rparr>) = service_valid (s\<lparr>Svc_Spec := sp\<rparr>)"
  "ports_free (s\<lparr>Svc_Meta := m\<rparr>) V = ports_free s V"
  "ports_free (s\<lparr>Svc_Spec := sp\<lparr>ClusterIP := ip\<rparr>\<rparr>) V = ports_free (s\<lparr>Svc_Spec := sp\<rparr>) V"
  "s\<lparr>Svc_Spec := Svc_Spec s\<rparr> = s"
  by (simp_all add: node_ports_def service_valid_def ports_free_def)

lemma services_typed: "typed k v \<Longrightarrow> has_prefix ''/registry/services'' k \<Longrightarrow> \<exists>s. v = JService s"
  by (cases v) (auto simp: typed.simps key_defs has_prefix_iff)

lemma all_services_unmarshal:
  assumes "keyed typed V" "\<forall>k v. map_of m k = Some v \<longleftrightarrow> has_prefix ''/registry/services'' k \<and> V k = Some v"
    "distinct (map fst m)"
  shows "\<exists>ss. unmarshal_all json_Unmarshal_Service (map snd m) = Inr ss \<and>
     set ss = {s. \<exists>k. V k = Some (JService s)}"
proof -
  have "\<exists>ss. unmarshal_all json_Unmarshal_Service (map snd m) = Inr ss \<and>
      set ss = {s. \<exists>k. has_prefix ''/registry/services'' k \<and> V k = Some (JService s)}"
  proof (rule unmarshal_listing)
    fix k v
    show "(k, v) \<in> set m \<longleftrightarrow> has_prefix ''/registry/services'' k \<and> V k = Some v"
      using assms(2) map_of_distinct_iff [OF assms(3)] by simp
    show "\<exists>s. v = JService s" if "V k = Some v" "has_prefix ''/registry/services'' k"
      using keyedD [OF assms(1) that(1)] services_typed that(2) by blast
  qed (simp add: json_Unmarshal_defs)
  moreover have "has_prefix ''/registry/services'' k \<and> V k = Some (JService s) \<longleftrightarrow> V k = Some (JService s)" for k s
    using keyedD [OF assms(1), of k "JService s"] by (auto simp: typed.simps key_defs has_prefix_iff)
  ultimately show ?thesis by simp
qed

lemma checked_cluster_ip:
  assumes "check_ports False (Service_Ports (Svc_Spec service)) [] = Inr (ports, S)"
  shows "checked_service service
    (service\<lparr>Svc_Spec := (Svc_Spec service)\<lparr>Service_Type := ServiceTypeClusterIP, Service_Ports := ports\<rparr>\<rparr>) V"
  using check_ports_Inr [OF assms]
  by (simp add: checked_service_def service_valid_def ports_free_def node_ports_def)

lemma checked_node_port:
  assumes "check_ports True (Service_Ports (Svc_Spec service)) [] = Inr (ports, S)"
    "node_port_conflict S ss = None" "set ss = {s. \<exists>k. V k = Some (JService s)}"
  shows "checked_service service
    (service\<lparr>Svc_Spec := (Svc_Spec service)\<lparr>Service_Type := ServiceTypeNodePort, Service_Ports := ports\<rparr>\<rparr>) V"
proof -
  have "node_ports (service\<lparr>Svc_Spec := (Svc_Spec service)\<lparr>Service_Type := ServiceTypeNodePort,
      Service_Ports := ports\<rparr>\<rparr>) = set S"
    using check_ports_Inr [OF assms(1)] by (simp add: node_ports_def)
  moreover have "node_ports t \<inter> set S = {}" if "V k = Some (JService t)" for k t
    using that assms(2,3) unfolding node_port_conflict_None by blast
  ultimately show ?thesis
    using check_ports_Inr [OF assms(1)]
    by (auto simp: checked_service_def service_valid_def ports_free_def Int_commute)
qed

context etcd_server
begin

lemma wp_getAllServicesFromEtcd:
  assumes "keyed typed (view w)"
    and "\<And>w' ss err. view w' = view w \<Longrightarrow>
      (err = None \<Longrightarrow> set ss = {s. \<exists>k. view w k = Some (JService s)}) \<Longrightarrow> wp view (k ss err) w' Q"
  shows "wp view (getAllServicesFromEtcd E k) w Q"
  unfolding getAllServicesFromEtcd_def
proof (rule wp_GetSubKeysValues, goal_cases)
  case (1 w' m err)
  show ?case
  proof (cases err)
    case None
    with 1 all_services_unmarshal [OF assms(1), of m] obtain ss where
      "unmarshal_all json_Unmarshal_Service (map snd m) = Inr ss"
      "set ss = {s. \<exists>k. view w k = Some (JService s)}" by auto
    with None 1 assms(2) show ?thesis by simp
  next
    case (Some e)
    then show ?thesis using 1 by (auto intro!: assms(2))
  qed
qed

lemma wp_checkTypeAndPorts:
  assumes t: "keyed typed (view w)"
    and k: "\<And>w' s err. view w' = view w \<Longrightarrow> (err = None \<Longrightarrow> checked_service service s (view w)) \<Longrightarrow>
      wp view (k s err) w' Q"
  shows "wp view (checkTypeAndPorts E service k) w Q"
proof -
  let ?ty = "if Service_Type (Svc_Spec service) = '''' then ServiceTypeClusterIP
    else Service_Type (Svc_Spec service)"
  consider "Service_Type (Svc_Spec service) \<notin> {'''', ServiceTypeClusterIP, ServiceTypeNodePort}"
    | e where "Service_Type (Svc_Spec service) \<in> {'''', ServiceTypeClusterIP, ServiceTypeNodePort}"
      "check_ports (?ty = ServiceTypeNodePort) (Service_Ports (Svc_Spec service)) [] = Inl e"
    | ports S where "?ty = ServiceTypeClusterIP"
      "check_ports False (Service_Ports (Svc_Spec service)) [] = Inr (ports, S)"
    | ports S where "?ty = ServiceTypeNodePort"
      "check_ports True (Service_Ports (Svc_Spec service)) [] = Inr (ports, S)"
    by (cases "check_ports (?ty = ServiceTypeNodePort) (Service_Ports (Svc_Spec service)) []";
        cases "Service_Type (Svc_Spec service) = ServiceTypeNodePort";
        cases "Service_Type (Svc_Spec service) \<in> {[], ServiceTypeClusterIP}"; auto)
  then show ?thesis
  proof cases
    case 3
    then have "checkTypeAndPorts E service k = k (service\<lparr>Svc_Spec := (Svc_Spec service)
        \<lparr>Service_Type := ServiceTypeClusterIP, Service_Ports := ports\<rparr>\<rparr>) None"
      by (cases "Service_Type (Svc_Spec service) = ''''") (simp_all add: checkTypeAndPorts_def)
    then show ?thesis by (simp only:) (rule k [OF refl checked_cluster_ip [OF 3(2)]])
  next
    case 4
    have "wp view (checkTypeAndPorts E service k) w Q =
      wp view (getAllServicesFromEtcd E (\<lambda>allServices err.
        case err of Some e \<Rightarrow> k (service\<lparr>Svc_Spec := (Svc_Spec service)\<lparr>Service_Type := ServiceTypeNodePort,
            Service_Ports := ports\<rparr>\<rparr>) (Some (''error in reading all services from etcd: '' @ e))
        | None \<Rightarrow> k (service\<lparr>Svc_Spec := (Svc_Spec service)\<lparr>Service_Type := ServiceTypeNodePort,
            Service_Ports := ports\<rparr>\<rparr>) (node_port_conflict S allServices))) w Q"
      using 4 by (cases "Service_Type (Svc_Spec service) = []") (simp_all add: checkTypeAndPorts_def Let_def)
    also have "\<dots>"
      by (rule wp_getAllServicesFromEtcd [OF t])
        (auto intro!: wp_option k checked_node_port [OF 4(2)])
    finally show ?thesis .
  qed (auto simp: checkTypeAndPorts_def intro!: k)
qed

lemma AddService_node_ports:
  assumes "keyed typed (view w)" "node_ports_unique (view w)"
  shows "wp view (AddServiceHandler E namespace req uuid now) w (\<lambda>rs V. node_ports_unique V)"
  unfolding AddServiceHandler_def read_or_init_bitmap_def
  by (intro wp wp_checkTypeAndPorts; use assms in simp)
    (clarify; (erule node_ports_unique_or)?; simp add: checked_service_def node_ports_unique_insert)+

lemma DeleteService_node_ports:
  assumes "node_ports_unique (view w)"
  shows "wp view (DeleteServiceHandler E namespace name) w (\<lambda>rs V. node_ports_unique V)"
  unfolding DeleteServiceHandler_def
  by (intro wp) (use assms in \<open>auto intro!: node_ports_unique_sub [OF assms] split: if_splits\<close>)

end

section \<open>Node ports of all registries that the server reaches\<close>

lemma request_kind_services:
  "request_kind r = ''services'' \<Longrightarrow>
   (\<exists>np req uuid now. r = POST_Service np req uuid now) \<or> (\<exists>np name. r = DELETE_Service np name)"
  by (cases r) auto

context etcd_server
begin

lemma serve_node_ports:
  assumes t: "keyed typed (view w)" and u: "node_ports_unique (view w)" and s: "serve E r w = (rs, w')"
  shows "node_ports_unique (view w')"
proof (cases "request_kind r = ''services''")
  case True
  from request_kind_services [OF this] show ?thesis
  proof (elim disjE exE)
    fix np req uuid now
    assume "r = POST_Service np req uuid now"
    then show ?thesis using AddService_node_ports [OF t u, of np req uuid now] s by (simp add: wp_def)
  next
    fix np name
    assume "r = DELETE_Service np name"
    then show ?thesis using DeleteService_node_ports [OF u, of np name] s by (simp add: wp_def)
  qed
next
  case False
  show ?thesis
  proof (rule node_ports_unique_sub [OF u])
    fix k v
    assume k: "view w' k = Some (JService v)"
    then have "k = svc_key (MetaUID (Svc_Meta v))"
      using keyedD [OF serve_typed [OF s t] k] by (simp add: typed.simps)
    with False footprint_kind(2) serve_frame [OF s, of k] k show "view w k = Some (JService v)" by metis
  qed
qed

lemma served_node_ports: "served E view h w \<Longrightarrow> node_ports_unique (view w)"
  by (erule served_typed_invariant) (auto intro: serve_node_ports simp: node_ports_unique_def [of Map.empty])

end

section \<open>Addresses\<close>

lemma bitmap_string [simp]: "bitmap_of_string (string_of_bitmap bm) = bm"
proof -
  have "(of_char (char_of (unat b) :: char) :: byte) = b" for b :: byte
  proof -
    have "unat b < 256" using unsigned_less [of b] by simp
    then have "of_nat (of_char (char_of (unat b) :: char)) = b" by simp
    then show ?thesis by (simp only: of_nat_of_char)
  qed
  then show ?thesis by (simp add: bitmap_of_string_def string_of_bitmap_def comp_def map_idI)
qed

lemma string_of_bitmap_Nil [simp]: "string_of_bitmap bm = [] \<longleftrightarrow> bm = []"
  by (simp add: string_of_bitmap_def)

text \<open>
  The bitmap holds exactly the addresses of the services, and no two services share one. A missing
  bitmap means that there was no service yet.
\<close>

definition service_ips :: "registry \<Rightarrow> (UID \<times> string) set" where
  "service_ips V = {(u, ClusterIP (Svc_Spec s)) |u s. V (svc_key u) = Some (JService s)}"

definition ips_exact :: "registry \<Rightarrow> bool" where
  "ips_exact V \<longleftrightarrow> inj_on snd (service_ips V) \<and>
     (case V ip_bitmap_key of None \<Rightarrow> service_ips V = {}
      | Some v \<Rightarrow> \<exists>bm. v = Raw (string_of_bitmap bm) \<and> ip_ok bm \<and> snd ` service_ips V = ip_held bm)"

lemma service_ips_iff:
  "(u, ip) \<in> service_ips V \<longleftrightarrow> (\<exists>s. V (svc_key u) = Some (JService s) \<and> ClusterIP (Svc_Spec s) = ip)"
  by (auto simp: service_ips_def)

lemma service_ips_other [simp]:
  "(\<And>u. svc_key u \<noteq> k) \<Longrightarrow> service_ips (V(k := x)) = service_ips V"
  by (auto simp: service_ips_iff)

lemma service_ips_insert:
  "V (svc_key u) = None \<Longrightarrow>
   service_ips (V(svc_key u \<mapsto> JService s)) = insert (u, ClusterIP (Svc_Spec s)) (service_ips V)"
  by (auto simp: service_ips_iff split: if_splits)

lemma service_ips_delete:
  "V (svc_key u) = Some (JService s) \<Longrightarrow>
   service_ips (V(svc_key u := None)) = service_ips V - {(u, ClusterIP (Svc_Spec s))}"
  by (auto simp: service_ips_iff split: if_splits)

lemma empty_bitmap: "ip_ok (replicate 32 0)" "ip_held (replicate 32 0) = {}"
  by (auto simp: ip_held_def slots_def nth_append)

text \<open>Allocation and release against the bitmap.\<close>

lemma ips_exact_insert:
  assumes "inj_on snd (service_ips V)" "snd ` service_ips V = ip_held bm" "ip_ok bm"
    "AllocIP bm = Inr (ip, bm')" "V (svc_key u) = None" "ClusterIP (Svc_Spec s) = ip"
  shows "ips_exact (V(ip_bitmap_key \<mapsto> Raw (string_of_bitmap bm'), svc_key u \<mapsto> JService s,
    ns_key np kind n \<mapsto> Raw x))"
  using assms ip_pool.alloc_ok [OF assms(3,4)]
  by (auto simp: ips_exact_def service_ips_insert inj_on_insert)

lemma ips_exact_delete:
  assumes "inj_on snd (service_ips V)" "snd ` service_ips V = ip_held bm" "ip_ok bm"
    "V (svc_key u) = Some (JService s)" "FreeIP (ClusterIP (Svc_Spec s)) bm = Inr bm'"
  shows "ips_exact (V(ip_bitmap_key \<mapsto> Raw (string_of_bitmap bm'), ns_key np kind n := None,
    svc_key u := None))"
proof -
  have mem: "(u, ClusterIP (Svc_Spec s)) \<in> service_ips V" using assms(4) by (auto simp: service_ips_def)
  then have "ClusterIP (Svc_Spec s) \<in> ip_held bm" using assms(2) by force
  with ip_pool.free_held [OF assms(3)] assms(5)
  have "ip_held bm' = ip_held bm - {ClusterIP (Svc_Spec s)}" "ip_ok bm'" by fastforce+
  moreover have "snd ` (service_ips V - {(u, ClusterIP (Svc_Spec s))}) =
      snd ` service_ips V - {ClusterIP (Svc_Spec s)}"
    using inj_on_image_set_diff [OF assms(1), of "service_ips V" "{(u, ClusterIP (Svc_Spec s))}"] mem by auto
  ultimately show ?thesis using assms
    by (auto simp: ips_exact_def service_ips_delete intro: inj_on_subset)
qed

lemma ips_exact_cases:
  assumes "ips_exact V"
  obtains "V ip_bitmap_key = None" "service_ips V = {}"
  | bm where "V ip_bitmap_key = Some (Raw (string_of_bitmap bm))" "ip_ok bm"
    "snd ` service_ips V = ip_held bm" "inj_on snd (service_ips V)"
  using assms by (auto simp: ips_exact_def split: option.splits)

lemma ips_exact_none: "ips_exact V \<Longrightarrow> rget V ip_bitmap_key = Raw [] \<Longrightarrow> service_ips V = {}"
  by (erule ips_exact_cases) auto

lemma ips_exact_read:
  assumes "ips_exact V" "rget V ip_bitmap_key \<noteq> Raw []"
  obtains bm where "rget V ip_bitmap_key = Raw (string_of_bitmap bm)" "ip_ok bm"
    "snd ` service_ips V = ip_held bm" "inj_on snd (service_ips V)"
  using assms by (elim ips_exact_cases) auto

text \<open>The steps of the two handlers.\<close>

lemma ips_exact_init:
  assumes "ips_exact V" "rget V ip_bitmap_key = Raw []"
  shows "ips_exact (V(ip_bitmap_key \<mapsto> Raw (string_of_bitmap (replicate 32 0))))"
proof -
  have "service_ips (V(ip_bitmap_key \<mapsto> Raw (string_of_bitmap (replicate 32 0)))) = {}"
    using ips_exact_none [OF assms] by simp
  then show ?thesis using empty_bitmap unfolding ips_exact_def by auto
qed

lemma ips_exact_alloc:
  assumes "ips_exact V" "V (svc_key u) = None"
    "AllocIP (if rget V ip_bitmap_key = Raw [] then replicate 32 0
      else bitmap_of_string (text_of E (rget V ip_bitmap_key))) = Inr (ClusterIP (Svc_Spec s), bm')"
  shows "ips_exact (V(ip_bitmap_key \<mapsto> Raw (string_of_bitmap bm'), svc_key u \<mapsto> JService s,
    ns_key np kind n \<mapsto> Raw x))"
proof (cases "rget V ip_bitmap_key = Raw []")
  case True
  then show ?thesis using assms ips_exact_none [OF assms(1)] empty_bitmap
    by (intro ips_exact_insert [where bm = "replicate 32 0"]) auto
next
  case False
  with assms(1) obtain bm where "rget V ip_bitmap_key = Raw (string_of_bitmap bm)" "ip_ok bm"
    "snd ` service_ips V = ip_held bm" "inj_on snd (service_ips V)" by (rule ips_exact_read)
  with assms False show ?thesis by (intro ips_exact_insert [where bm = bm]) auto
qed

lemma ips_exact_free:
  assumes "ips_exact V" "keyed typed V" "json_Unmarshal_Service (rget V (svc_key u)) = (s, None)"
    "rget V ip_bitmap_key \<noteq> Raw []"
    "FreeIP (ClusterIP (Svc_Spec s)) (bitmap_of_string (text_of E (rget V ip_bitmap_key))) = Inr bm'"
  shows "ips_exact (V(ip_bitmap_key \<mapsto> Raw (string_of_bitmap bm'), ns_key np kind n := None,
    svc_key u := None))"
proof -
  from assms(3) have "V (svc_key u) = Some (JService s)"
    by (auto simp: json_Unmarshal_defs rget_def split: option.splits document.splits)
  moreover from assms(1,4) obtain bm where "rget V ip_bitmap_key = Raw (string_of_bitmap bm)" "ip_ok bm"
    "snd ` service_ips V = ip_held bm" "inj_on snd (service_ips V)" by (rule ips_exact_read)
  ultimately show ?thesis using assms(5) by (intro ips_exact_delete [where bm = bm]) auto
qed

context reliable_etcd
begin

lemma AddService_ips:
  assumes "keyed typed (view w)" "ips_exact (view w)" "view w (svc_key uuid) = None"
  shows "wp view (AddServiceHandler E namespace req uuid now) w (\<lambda>rs V. ips_exact V)"
  unfolding AddServiceHandler_def read_or_init_bitmap_def
  by (intro wp_combinators rel wp_checkTypeAndPorts; (use assms in simp)?)
    (clarify; rule ips_exact_init ips_exact_alloc [where E = E]; simp)+

lemma DeleteService_ips:
  assumes "keyed typed (view w)" "ips_exact (view w)"
  shows "wp view (DeleteServiceHandler E namespace name) w (\<lambda>rs V. ips_exact V)"
  unfolding DeleteServiceHandler_def
  by (intro wp_combinators rel; (use assms in simp)?) (clarify; simp add: ips_exact_free)

lemma serve_ips:
  assumes t: "keyed typed (view w)" and i: "ips_exact (view w)" and u: "uuid_fresh (view w) r"
    and s: "serve E r w = (rs, w')"
  shows "ips_exact (view w')"
proof (cases "request_kind r = ''services''")
  case True
  from request_kind_services [OF this] show ?thesis
  proof (elim disjE exE)
    fix np req uuid now
    assume "r = POST_Service np req uuid now"
    then show ?thesis using AddService_ips [OF t i, of uuid np req now] s u by (simp add: wp_def)
  next
    fix np name
    assume "r = DELETE_Service np name"
    then show ?thesis using DeleteService_ips [OF t i, of np name] s by (simp add: wp_def)
  qed
next
  case False
  then have "view w' ip_bitmap_key = view w ip_bitmap_key" "view w' (svc_key u) = view w (svc_key u)" for u
    using serve_frame [OF s] footprint_kind(2,10) by blast+
  then have "service_ips (view w') = service_ips (view w)" "view w' ip_bitmap_key = view w ip_bitmap_key"
    by (simp_all add: service_ips_def)
  then show ?thesis using i by (simp only: ips_exact_def)
qed

lemma well_served_ips: "well_served E view h w \<Longrightarrow> ips_exact (view w)"
  by (erule well_served_invariant) (auto intro: serve_ips simp: ips_exact_def [of Map.empty] service_ips_def)

end

end
