(* ===== verification/Index_Consistency.thy ===== *)
theory Index_Consistency
  imports Service_Safety
begin

text \<open>
  Every kind of object is stored twice: under its uid, and as a uid under its namespace and name. The
  locale \<open>object_index\<close> is the contract of such a pair of key spaces; its lemmas say that the
  handlers' way of adding, replacing and deleting keeps the two in step. Each of the nine kinds is an
  interpretation. When no call of etcd fails and uuids are new, names and objects of every kind
  correspond one to one in every registry that the server reaches.
\<close>

section \<open>Namespaced keys\<close>

lemma no_slash_split:
  "no_slash a \<Longrightarrow> no_slash b \<Longrightarrow> a @ CHR ''/'' # x = b @ CHR ''/'' # y \<longleftrightarrow> a = b \<and> x = y"
  by (induction a arbitrary: b; case_tac b) (auto simp: no_slash_def)

lemma ns_key_inj:
  assumes "no_slash np" "no_slash np'" "no_slash kind" "no_slash kind'"
  shows "ns_key np kind n = ns_key np' kind' n' \<longleftrightarrow> np = np' \<and> kind = kind' \<and> n = n'"
  using assms by (auto simp: ns_key_def no_slash_split)

text \<open>The namespace and name under which an object is found.\<close>

fun label :: "document \<Rightarrow> (string \<times> string) option" where
  "label (JPod x) = Some (Namespace (Pod_Meta x),
     if Name (Pod_Meta x) = '''' then Default_Podname else Name (Pod_Meta x))"
| "label (JService x) = Some (Namespace (Svc_Meta x), Name (Svc_Meta x))"
| "label (JDNS x) = Some (Namespace (DNS_Meta x), Name (DNS_Meta x))"
| "label (JNode x) = Some (Namespace (Node_Meta x), Name (Node_Meta x))"
| "label (JReplicaSet x) = Some (Default_Namespace,
     if Name (RS_Meta x) = '''' then Default_Podname else Name (RS_Meta x))"
| "label (JHPA x) = Some (Namespace (HPA_Meta x), Name (HPA_Meta x))"
| "label (JVirtualService x) = Some (Namespace (VS_Meta x), Name (VS_Meta x))"
| "label (JSubset x) = Some (Namespace (Subset_Meta x), Name (Subset_Meta x))"
| "label (JRollingUpdate x) = Some (Namespace (RU_Meta x), Name (RU_Meta x))"
| "label _ = None"

definition index_ok :: "string \<Rightarrow> (UID \<Rightarrow> string) \<Rightarrow> registry \<Rightarrow> bool" where
  "index_ok kind key V \<longleftrightarrow>
     (\<forall>np n v. no_slash np \<longrightarrow> V (ns_key np kind n) = Some v \<longrightarrow>
        (\<exists>u x. v = Raw u \<and> u \<noteq> '''' \<and> V (key u) = Some x \<and> label x = Some (np, n))) \<and>
     (\<forall>u x. V (key u) = Some x \<longrightarrow>
        (\<exists>np n. no_slash np \<and> label x = Some (np, n) \<and> V (ns_key np kind n) = Some (Raw u)))"

section \<open>The contract\<close>

locale object_index =
  fixes kind :: string and key :: "UID \<Rightarrow> string"
  assumes kind_slash: "no_slash kind"
    and key_inj: "key u = key u' \<longleftrightarrow> u = u'"
    and key_ns: "key u \<noteq> ns_key np k n"
begin

lemma key_ns' [simp]: "ns_key np k n \<noteq> key u" "key u \<noteq> ns_key np k n"
  using key_ns by metis+

lemma ns_key_eq: "no_slash np \<Longrightarrow> no_slash np' \<Longrightarrow> ns_key np kind n = ns_key np' kind n' \<longleftrightarrow> np = np' \<and> n = n'"
  using ns_key_inj kind_slash by blast

lemma index_okD1:
  assumes "index_ok kind key V" "no_slash np" "rget V (ns_key np kind n) \<noteq> Raw ''''"
  obtains u x where "V (ns_key np kind n) = Some (Raw u)" "u \<noteq> ''''" "V (key u) = Some x" "label x = Some (np, n)"
  using assms by (auto simp: index_ok_def rget_def split: option.splits) blast+

lemma index_okD2:
  assumes "index_ok kind key V" "V (key u) = Some x"
  obtains np n where "no_slash np" "label x = Some (np, n)" "V (ns_key np kind n) = Some (Raw u)"
  using assms unfolding index_ok_def by blast

lemma index_none:
  assumes "index_ok kind key V" "no_slash np" "rget V (ns_key np kind n) = Raw ''''"
  shows "V (ns_key np kind n) = None"
  using assms by (force simp: index_ok_def rget_def split: option.splits)

lemma index_insert:
  assumes ok: "index_ok kind key V" and ns: "no_slash np" "rget V (ns_key np kind n) = Raw ''''"
    and u: "V (key u) = None" "u \<noteq> ''''" and x: "label x = Some (np, n)"
  shows "index_ok kind key (V(ns_key np kind n \<mapsto> Raw u, key u \<mapsto> x))"
proof -
  have none: "V (ns_key np kind n) = None" by (rule index_none [OF ok ns])
  show ?thesis
    unfolding index_ok_def
  proof (intro conjI allI impI)
    fix np' n' v
    assume a: "no_slash np'" "(V(ns_key np kind n \<mapsto> Raw u, key u \<mapsto> x)) (ns_key np' kind n') = Some v"
    show "\<exists>u' x'. v = Raw u' \<and> u' \<noteq> '''' \<and>
        (V(ns_key np kind n \<mapsto> Raw u, key u \<mapsto> x)) (key u') = Some x' \<and> label x' = Some (np', n')"
    proof (cases "np' = np \<and> n' = n")
      case True
      then show ?thesis using a u x by (auto intro!: exI [of _ u])
    next
      case False
      then have "V (ns_key np' kind n') = Some v" using a ns by (auto simp: ns_key_eq split: if_splits)
      then obtain u' x' where "v = Raw u'" "u' \<noteq> ''''" "V (key u') = Some x'" "label x' = Some (np', n')"
        using ok a(1) unfolding index_ok_def by blast
      with u show ?thesis by (auto intro!: exI [of _ u'] simp: key_inj)
    qed
  next
    fix u' x'
    assume a: "(V(ns_key np kind n \<mapsto> Raw u, key u \<mapsto> x)) (key u') = Some x'"
    show "\<exists>np' n'. no_slash np' \<and> label x' = Some (np', n') \<and>
        (V(ns_key np kind n \<mapsto> Raw u, key u \<mapsto> x)) (ns_key np' kind n') = Some (Raw u')"
    proof (cases "u' = u")
      case True
      with a x ns show ?thesis by auto
    next
      case False
      with a have "V (key u') = Some x'" by (simp add: key_inj)
      from index_okD2 [OF ok this] obtain np' n' where
        "no_slash np'" "label x' = Some (np', n')" "V (ns_key np' kind n') = Some (Raw u')" .
      with none show ?thesis by (auto intro!: exI [of _ np'] exI [of _ n'])
    qed
  qed
qed

lemma index_insert':
  assumes "index_ok kind key V" "no_slash np" "rget V (ns_key np kind n) = Raw ''''"
    "V (key u) = None" "u \<noteq> ''''" "label x = Some (np, n)"
  shows "index_ok kind key (V(key u \<mapsto> x, ns_key np kind n \<mapsto> Raw u))"
  using index_insert [OF assms] by (simp add: fun_upd_twist)

lemma index_delete:
  assumes ok: "index_ok kind key V" and ns: "no_slash np" "V (ns_key np kind n) = Some (Raw u)"
  shows "index_ok kind key (V(ns_key np kind n := None, key u := None))"
  unfolding index_ok_def
proof (intro conjI allI impI)
  fix np' n' v
  assume a: "no_slash np'" "(V(ns_key np kind n := None, key u := None)) (ns_key np' kind n') = Some v"
  then have "V (ns_key np' kind n') = Some v" "\<not> (np' = np \<and> n' = n)" by (auto split: if_splits)
  moreover then obtain u' x' where "v = Raw u'" "u' \<noteq> ''''" "V (key u') = Some x'" "label x' = Some (np', n')"
    using ok a(1) unfolding index_ok_def by blast
  moreover obtain x where "V (key u) = Some x" "label x = Some (np, n)"
    using ok ns unfolding index_ok_def by blast
  ultimately show "\<exists>u' x'. v = Raw u' \<and> u' \<noteq> '''' \<and>
      (V(ns_key np kind n := None, key u := None)) (key u') = Some x' \<and> label x' = Some (np', n')"
    by (auto intro!: exI [of _ u'] simp: key_inj)
next
  fix u' x'
  assume "(V(ns_key np kind n := None, key u := None)) (key u') = Some x'"
  then have "V (key u') = Some x'" "u' \<noteq> u" by (auto simp: key_inj split: if_splits)
  moreover from index_okD2 [OF ok this(1)] obtain np' n' where
    "no_slash np'" "label x' = Some (np', n')" "V (ns_key np' kind n') = Some (Raw u')" .
  ultimately show "\<exists>np' n'. no_slash np' \<and> label x' = Some (np', n') \<and>
      (V(ns_key np kind n := None, key u := None)) (ns_key np' kind n') = Some (Raw u')"
    using ns by (auto intro!: exI [of _ np'] exI [of _ n'])
qed

text \<open>The forms in which the handlers show it: they read the uid from the index first.\<close>

lemma index_delete_read:
  assumes "index_ok kind key V" "no_slash np" "rget V (ns_key np kind n) \<noteq> Raw ''''"
    "u = text_of E (rget V (ns_key np kind n))"
  shows "index_ok kind key (V(ns_key np kind n := None, key u := None))"
  using assms(4) by (rule_tac index_okD1 [OF assms(1-3)]) (auto intro!: index_delete [OF assms(1,2)])

lemma index_present:
  assumes "index_ok kind key V" "no_slash np" "rget V (ns_key np kind n) \<noteq> Raw ''''"
    "u = text_of E (rget V (ns_key np kind n))"
  shows "rget V (key u) \<noteq> Raw ''''"
  using assms(4) by (rule_tac index_okD1 [OF assms(1-3)]) auto

lemma index_update:
  assumes ok: "index_ok kind key V" and y: "V (key u) = Some y" and x: "label x = label y"
  shows "index_ok kind key (V(key u \<mapsto> x))"
  unfolding index_ok_def
proof (intro conjI allI impI)
  fix np n v
  assume a: "no_slash np" "(V(key u \<mapsto> x)) (ns_key np kind n) = Some v"
  then have "V (ns_key np kind n) = Some v" by simp
  with a(1) obtain u' x' where "v = Raw u'" "u' \<noteq> ''''" "V (key u') = Some x'" "label x' = Some (np, n)"
    using ok unfolding index_ok_def by blast
  with x y show "\<exists>u' x'. v = Raw u' \<and> u' \<noteq> '''' \<and> (V(key u \<mapsto> x)) (key u') = Some x' \<and> label x' = Some (np, n)"
    by (cases "u' = u") (auto simp: key_inj)
next
  fix u' x'
  assume "(V(key u \<mapsto> x)) (key u') = Some x'"
  with x y obtain y' where "V (key u') = Some y'" "label y' = label x'"
    by (cases "u' = u") (auto simp: key_inj)
  moreover from index_okD2 [OF ok this(1)] obtain np n where
    "no_slash np" "label y' = Some (np, n)" "V (ns_key np kind n) = Some (Raw u')" .
  ultimately have "no_slash np \<and> label x' = Some (np, n) \<and> (V(key u \<mapsto> x)) (ns_key np kind n) = Some (Raw u')"
    by simp
  then show "\<exists>np n. no_slash np \<and> label x' = Some (np, n) \<and>
      (V(key u \<mapsto> x)) (ns_key np kind n) = Some (Raw u')" by blast
qed

lemma index_update_read:
  "index_ok kind key V \<Longrightarrow> rget V (key u) \<noteq> Raw '''' \<Longrightarrow> label x = label (rget V (key u)) \<Longrightarrow>
   index_ok kind key (V(key u \<mapsto> x))"
  using rget_nonempty by (auto intro: index_update)

lemma index_replace:
  assumes "index_ok kind key V" "no_slash np" "rget V (ns_key np kind n) \<noteq> Raw ''''"
    "u = text_of E (rget V (ns_key np kind n))" "label x = Some (np, n)"
  shows "index_ok kind key (V(ns_key np kind n \<mapsto> Raw u, key u \<mapsto> x))"
proof (rule index_okD1 [OF assms(1-3)])
  fix u' y
  assume a: "V (ns_key np kind n) = Some (Raw u')" "V (key u') = Some y" "label y = Some (np, n)"
  with assms(4) have "V(ns_key np kind n \<mapsto> Raw u) = V" "u = u'" by (auto simp: fun_upd_idem)
  with a assms(5) show ?thesis by (auto intro: index_update [OF assms(1)])
qed

lemma index_other:
  assumes "\<And>np n. no_slash np \<Longrightarrow> V' (ns_key np kind n) = V (ns_key np kind n)"
    "\<And>u. V' (key u) = V (key u)"
  shows "index_ok kind key V' \<longleftrightarrow> index_ok kind key V"
  using assms by (simp add: index_ok_def cong: conj_cong)

lemma index_other_upd:
  "(\<And>np n. ns_key np kind n \<noteq> k) \<Longrightarrow> (\<And>u. key u \<noteq> k) \<Longrightarrow> index_ok kind key (V(k := v)) \<longleftrightarrow> index_ok kind key V"
  by (rule index_other) auto

text \<open>Two objects of a kind with the same namespace and name are the same object.\<close>

lemma names_unique:
  assumes "index_ok kind key V" "V (key u) = Some x" "V (key u') = Some x'" "label x = label x'"
  shows "u = u'"
  using index_okD2 [OF assms(1,2)] index_okD2 [OF assms(1,3)] assms(4) by (metis Pair_inject option.inject document.inject(1))

end

interpretation pods: object_index "''pods''" pod_key
  by unfold_locales (auto simp: no_slash_def)

interpretation svcs: object_index "''services''" svc_key
  by unfold_locales (auto simp: no_slash_def)

interpretation dnss: object_index "''dns''" dns_key
  by unfold_locales (auto simp: no_slash_def)

interpretation nodes: object_index "''nodes''" node_key
  by unfold_locales (auto simp: no_slash_def)

interpretation rss: object_index "''replicasets''" rs_key
  by unfold_locales (auto simp: no_slash_def)

interpretation hpas: object_index "''scaling''" hpa_key
  by unfold_locales (auto simp: no_slash_def)

interpretation vss: object_index "''virtualservices''" vs_key
  by unfold_locales (auto simp: no_slash_def)

interpretation subsets: object_index "''subsets''" subset_key
  by unfold_locales (auto simp: no_slash_def)

interpretation rus: object_index "''rollingupdates''" ru_key
  by unfold_locales (auto simp: no_slash_def)

section \<open>The handlers\<close>

lemma label_json_doc [simp]: "label (json_doc v) = label v"
  by (cases v) simp_all

lemma unmarshal_Some:
  "json_Unmarshal_Pod v = (pod, None) \<longleftrightarrow> v = JPod pod"
  "json_Unmarshal_ReplicaSet v = (rps, None) \<longleftrightarrow> v = JReplicaSet rps"
  by (cases v; auto simp: json_Unmarshal_defs)+

lemma typed_read: "keyed typed V \<Longrightarrow> rget V k \<noteq> Raw '''' \<Longrightarrow> typed k (rget V k)"
  by (rule keyedD [OF _ rget_nonempty])

lemma typed_ru: "keyed typed V \<Longrightarrow> rget V (ru_key u) \<noteq> Raw '''' \<Longrightarrow> \<exists>x. rget V (ru_key u) = JRollingUpdate x"
  by (drule (1) typed_read) auto

lemma typed_hpa: "keyed typed V \<Longrightarrow> rget V (hpa_key u) \<noteq> Raw '''' \<Longrightarrow> \<exists>x. rget V (hpa_key u) = JHPA x"
  by (drule (1) typed_read) auto

text \<open>The loops that look something up change nothing.\<close>

context etcd_server
begin

lemma wp_check_paths:
  assumes "\<And>w'. view w' = view w \<Longrightarrow> wp view k w' Q" "\<And>st b. StatusBadRequest \<le> st \<Longrightarrow> Q [Reply st b] (view w)"
  shows "wp view (check_paths E namespace paths k) w Q"
  using assms
proof (induction paths arbitrary: w)
  case (Cons p ps)
  show ?case by (simp only: check_paths.simps) (intro wp Cons.IH; simp add: Cons.prems)
qed simp

lemma wp_check_backends:
  assumes "\<And>w'. view w' = view w \<Longrightarrow> wp view k w' Q" "\<And>st b. StatusBadRequest \<le> st \<Longrightarrow> Q [Reply st b] (view w)"
  shows "wp view (check_backends E namespace rules k) w Q"
  using assms
proof (induction rules arbitrary: w)
  case (Cons r rs)
  show ?case by (simp only: check_backends.simps) (intro wp_check_paths Cons.IH; simp add: Cons.prems)
qed simp

lemma wp_check_subsets:
  assumes "\<And>w'. view w' = view w \<Longrightarrow> wp view k w' Q" "\<And>st b. StatusBadRequest \<le> st \<Longrightarrow> Q [Reply st b] (view w)"
  shows "wp view (check_subsets E namespace ss k) w Q"
  using assms
proof (induction ss arbitrary: w)
  case (Cons s ss)
  show ?case by (simp only: check_subsets.simps) (intro wp Cons.IH; simp add: Cons.prems)
qed simp

lemma wp_check_pods:
  assumes "\<And>w'. view w' = view w \<Longrightarrow> wp view k w' Q" "\<And>st b. StatusBadRequest \<le> st \<Longrightarrow> Q [Reply st b] (view w)"
  shows "wp view (check_pods E namespace ps k) w Q"
  using assms
proof (induction ps arbitrary: w)
  case (Cons s ss)
  show ?case by (simp only: check_pods.simps) (intro wp Cons.IH; simp add: Cons.prems)
qed simp

end

context reliable_etcd
begin

lemma AddPod_index:
  assumes "index_ok ''pods'' pod_key (view w)" "no_slash namespace" "uuid \<noteq> ''''" "view w (pod_key uuid) = None"
  shows "wp view (AddPodHandler E namespace req uuid now) w (\<lambda>rs V. index_ok ''pods'' pod_key V)"
  unfolding AddPodHandler_def
  by (intro wp_combinators rel; (use assms in simp)?) (auto intro!: pods.index_insert)

lemma DeletePod_index:
  assumes "index_ok ''pods'' pod_key (view w)" "no_slash namespace"
  shows "wp view (DeletePodHandler E namespace name) w (\<lambda>rs V. index_ok ''pods'' pod_key V)"
  unfolding DeletePodHandler_def
  by (intro wp_combinators rel; (use assms in simp)?)
    (auto intro!: pods.index_delete_read dest: pods.index_present)

lemma PutPodStatus_index:
  assumes "index_ok ''pods'' pod_key (view w)"
  shows "wp view (PutPodStatusHandler E namespace name req) w (\<lambda>rs V. index_ok ''pods'' pod_key V)"
  unfolding PutPodStatusHandler_def
  by (intro wp_combinators rel; (use assms in simp)?)
    (auto simp: unmarshal_Some intro!: pods.index_update_read)

lemma AddService_index:
  assumes "keyed typed (view w)" "index_ok ''services'' svc_key (view w)" "no_slash namespace" "uuid \<noteq> ''''"
    "view w (svc_key uuid) = None"
  shows "wp view (AddServiceHandler E namespace req uuid now) w (\<lambda>rs V. index_ok ''services'' svc_key V)"
  unfolding AddServiceHandler_def read_or_init_bitmap_def
  by (intro wp_combinators rel wp_checkTypeAndPorts; (use assms in \<open>simp add: svcs.index_other_upd\<close>)?)
    (auto simp: svcs.index_other_upd checked_service_def intro!: svcs.index_insert')

lemma DeleteService_index:
  assumes "index_ok ''services'' svc_key (view w)" "no_slash namespace"
  shows "wp view (DeleteServiceHandler E namespace name) w (\<lambda>rs V. index_ok ''services'' svc_key V)"
  unfolding DeleteServiceHandler_def
  by (intro wp_combinators rel; (use assms in simp)?)
    (auto simp: svcs.index_other_upd intro!: svcs.index_delete_read)

lemma AddDNS_index:
  assumes "index_ok ''dns'' dns_key (view w)" "no_slash namespace" "uuid \<noteq> ''''" "view w (dns_key uuid) = None"
  shows "wp view (AddDNSHandler E namespace req uuid now) w (\<lambda>rs V. index_ok ''dns'' dns_key V)"
  unfolding AddDNSHandler_def
  by (intro wp_combinators rel wp_check_backends; (use assms in \<open>simp add: dnss.index_other_upd\<close>)?)
    (auto simp: dnss.index_other_upd intro!: dnss.index_insert)

lemma DeleteDNS_index:
  assumes "index_ok ''dns'' dns_key (view w)" "no_slash namespace"
  shows "wp view (DeleteDNSHandler E namespace name) w (\<lambda>rs V. index_ok ''dns'' dns_key V)"
  unfolding DeleteDNSHandler_def
  by (intro wp_combinators rel; (use assms in simp)?)
    (auto simp: dnss.index_other_upd intro!: dnss.index_delete_read)

lemma AddScaling_index:
  assumes "index_ok ''scaling'' hpa_key (view w)" "uuid \<noteq> ''''" "view w (hpa_key uuid) = None"
    "request_ok (POST_Scaling req now uuid)"
  shows "wp view (AddScalingHandler E req now uuid) w (\<lambda>rs V. index_ok ''scaling'' hpa_key V)"
  unfolding AddScalingHandler_def
  by (intro wp_combinators rel; (use assms in simp)?)
    (clarsimp, intro conjI impI; rule hpas.index_insert; simp add: no_slash_def)

lemma DeleteScaling_index:
  assumes "index_ok ''scaling'' hpa_key (view w)" "no_slash namespace" "keyed typed (view w)"
  shows "wp view (DeleteScalingHandler E namespace name) w (\<lambda>rs V. index_ok ''scaling'' hpa_key V)"
  unfolding DeleteScalingHandler_def
  by (intro wp_combinators rel; (use assms in simp)?)
    (auto simp: json_Unmarshal_defs intro!: hpas.index_delete_read
      dest!: typed_hpa [OF _ hpas.index_present [where E = E]])

lemma AddReplicaSet_index:
  assumes "index_ok ''replicasets'' rs_key (view w)" "uuid \<noteq> ''''" "view w (rs_key uuid) = None"
  shows "wp view (AddReplicaSetHandler E req uuid now) w (\<lambda>rs V. index_ok ''replicasets'' rs_key V)"
  unfolding AddReplicaSetHandler_def
  by (intro wp_combinators rel; (use assms in simp)?)
    (auto intro!: rss.index_insert simp: no_slash_def)

lemma UpdateReplicaSet_index:
  assumes "index_ok ''replicasets'' rs_key (view w)"
  shows "wp view (UpdateReplicaSetHandler E namespace name query) w (\<lambda>rs V. index_ok ''replicasets'' rs_key V)"
  unfolding UpdateReplicaSetHandler_def
  by (intro wp_combinators rel; (use assms in simp)?)
    (auto simp: unmarshal_Some intro!: rss.index_update_read)

lemma DeleteReplicaSet_index:
  assumes "index_ok ''replicasets'' rs_key (view w)"
  shows "wp view (DeleteReplicaSetHandler E namespace name) w (\<lambda>rs V. index_ok ''replicasets'' rs_key V)"
  unfolding DeleteReplicaSetHandler_def
  by (intro wp_combinators rel; (use assms in simp)?)
    (auto intro!: rss.index_delete_read simp: no_slash_def)

lemma AddVirtualService_index:
  assumes "index_ok ''virtualservices'' vs_key (view w)" "no_slash namespace" "uuid \<noteq> ''''"
    "view w (vs_key uuid) = None"
  shows "wp view (AddVirtualServiceHandler E namespace req now uuid) w
    (\<lambda>rs V. index_ok ''virtualservices'' vs_key V)"
  unfolding AddVirtualServiceHandler_def
  by (intro wp_combinators rel wp_check_subsets; (use assms in simp)?)
    (auto intro!: vss.index_insert)

lemma DeleteVirtualService_index:
  assumes "index_ok ''virtualservices'' vs_key (view w)" "no_slash namespace"
  shows "wp view (DeleteVirtualServiceHandler E namespace name) w
    (\<lambda>rs V. index_ok ''virtualservices'' vs_key V)"
  unfolding DeleteVirtualServiceHandler_def
  by (intro wp_combinators rel; (use assms in simp)?) (auto intro!: vss.index_delete_read)

lemma AddSubset_index:
  assumes "index_ok ''subsets'' subset_key (view w)" "no_slash namespace" "uuid \<noteq> ''''"
    "view w (subset_key uuid) = None"
  shows "wp view (AddSubsetHandler E namespace req now uuid) w (\<lambda>rs V. index_ok ''subsets'' subset_key V)"
  unfolding AddSubsetHandler_def
  by (intro wp_combinators rel wp_check_pods; (use assms in simp)?)
    (auto intro: subsets.index_insert subsets.index_replace)

lemma DeleteSubset_index:
  assumes "index_ok ''subsets'' subset_key (view w)" "no_slash namespace"
  shows "wp view (DeleteSubsetHandler E namespace name) w (\<lambda>rs V. index_ok ''subsets'' subset_key V)"
  unfolding DeleteSubsetHandler_def
  by (intro wp_combinators rel; (use assms in simp)?) (auto intro!: subsets.index_delete_read)

lemma AddRollingUpdate_index:
  assumes "index_ok ''rollingupdates'' ru_key (view w)" "no_slash namespace" "uuid \<noteq> ''''"
    "view w (ru_key uuid) = None"
  shows "wp view (AddRollingUpdateHandler E namespace req now uuid) w
    (\<lambda>rs V. index_ok ''rollingupdates'' ru_key V)"
  unfolding AddRollingUpdateHandler_def
  by (intro wp_combinators rel; (use assms in simp)?) (auto intro!: rus.index_insert')

lemma UpdateRollingUpdateStatus_index:
  assumes "index_ok ''rollingupdates'' ru_key (view w)" "keyed typed (view w)"
  shows "wp view (UpdateRollingUpdateStatusHandler E namespace name req) w
    (\<lambda>rs V. index_ok ''rollingupdates'' ru_key V)"
  unfolding UpdateRollingUpdateStatusHandler_def
  by (intro wp_combinators rel; (use assms in simp)?)
    (auto simp: json_Unmarshal_defs dest!: typed_ru intro!: rus.index_update_read)

lemma DeleteRollingUpdate_index:
  assumes "index_ok ''rollingupdates'' ru_key (view w)" "no_slash namespace"
  shows "wp view (DeleteRollingUpdateHandler E namespace name) w
    (\<lambda>rs V. index_ok ''rollingupdates'' ru_key V)"
  unfolding DeleteRollingUpdateHandler_def
  by (intro wp_combinators rel; (use assms in simp)?) (auto intro!: rus.index_delete_read)

end

section \<open>Nodes\<close>

text \<open>
  The name of a node is drawn from the bitmap, not checked against the index: that it is new rests on
  the bitmap holding exactly the registered names.
\<close>

definition node_names_of :: "registry \<Rightarrow> string set" where
  "node_names_of V = {n. V (ns_key Default_Namespace ''nodes'' n) \<noteq> None}"

definition nodes_ok :: "registry \<Rightarrow> bool" where
  "nodes_ok V \<longleftrightarrow> index_ok ''nodes'' node_key V \<and>
     (case V node_bitmap_key of None \<Rightarrow> node_names_of V = {}
      | Some v \<Rightarrow> \<exists>bm. v = Raw (string_of_bitmap bm) \<and> node_ok bm \<and> node_names_of V = node_held bm)"

lemma empty_node_bitmap: "node_ok (replicate 8 0)" "node_held (replicate 8 0) = {}"
  by (auto simp: node_held_def slots_def nth_append)

lemma nodes_ok_bitmap:
  assumes "nodes_ok V"
    and "bm = (if rget V node_bitmap_key = Raw [] then replicate 8 0
      else bitmap_of_string (text_of E (rget V node_bitmap_key)))"
  shows "node_ok bm" "node_names_of V = node_held bm"
  using assms empty_node_bitmap by (auto simp: nodes_ok_def split: option.splits)

lemma node_names_of_upd [simp]:
  "(\<And>n. ns_key Default_Namespace ''nodes'' n \<noteq> k) \<Longrightarrow> node_names_of (V(k := x)) = node_names_of V"
  by (simp add: node_names_of_def)

lemma node_names_of_ns [simp]:
  "node_names_of (V(ns_key Default_Namespace ''nodes'' n := x)) =
   (if x = None then node_names_of V - {n} else insert n (node_names_of V))"
  by (auto simp: node_names_of_def ns_key_def)

lemma default_no_slash [simp]: "no_slash ''default''"
  by (simp add: no_slash_def)

lemma nodes_ok_init:
  "nodes_ok V \<Longrightarrow> rget V node_bitmap_key = Raw [] \<Longrightarrow>
   nodes_ok (V(node_bitmap_key \<mapsto> Raw (string_of_bitmap (replicate 8 0))))"
  using nodes_ok_bitmap [of V "replicate 8 0"] empty_node_bitmap
  by (auto simp: nodes_ok_def nodes.index_other_upd)

lemma nodes_ok_alloc:
  assumes ok: "nodes_ok V" and u: "V (node_key u) = None" "u \<noteq> ''''"
    and a: "AllocNode (if rget V node_bitmap_key = Raw [] then replicate 8 0
      else bitmap_of_string (text_of E (rget V node_bitmap_key))) = Inr (n, bm')"
    and x: "label x = Some (''default'', n)"
  shows "nodes_ok (V(node_bitmap_key \<mapsto> Raw (string_of_bitmap bm'), node_key u \<mapsto> x,
    ns_key ''default'' ''nodes'' n \<mapsto> Raw u))"
proof -
  note bm = nodes_ok_bitmap [OF ok refl, of E]
  note al = node_pool.alloc_ok [OF bm(1) a]
  then have "V (ns_key ''default'' ''nodes'' n) = None" using bm(2) by (auto simp: node_names_of_def)
  then have "index_ok ''nodes'' node_key (V(node_bitmap_key \<mapsto> Raw (string_of_bitmap bm'), node_key u \<mapsto> x,
      ns_key ''default'' ''nodes'' n \<mapsto> Raw u))"
    using ok u x by (intro nodes.index_insert') (auto simp: nodes_ok_def nodes.index_other_upd)
  then show ?thesis
    using al bm(2) node_names_of_ns [of "V(node_bitmap_key \<mapsto> Raw (string_of_bitmap bm'), node_key u \<mapsto> x)" n "Some (Raw u)"]
    by (auto simp: nodes_ok_def intro!: exI [of _ bm'])
qed

lemma drop_host_prefix [simp]:
  "drop_prefix (host_node_key a b) V (ns_key np kind n) = V (ns_key np kind n)"
  "drop_prefix (host_node_key a b) V (node_key u) = V (node_key u)"
  "drop_prefix (host_node_key a b) V node_bitmap_key = V node_bitmap_key"
  by (simp_all add: drop_prefix_def key_defs has_prefix_iff)

lemma rget_drop_host [simp]:
  "rget (drop_prefix (host_node_key a b) V) node_bitmap_key = rget V node_bitmap_key"
  "rget (drop_prefix (host_node_key a b) V) (ns_key np kind n) = rget V (ns_key np kind n)"
  by (simp_all add: rget_def)

lemma nodes_ok_drop [simp]: "nodes_ok (drop_prefix (host_node_key a b) V) = nodes_ok V"
proof -
  have "index_ok ''nodes'' node_key (drop_prefix (host_node_key a b) V) = index_ok ''nodes'' node_key V"
    by (rule nodes.index_other) simp_all
  moreover have "node_names_of (drop_prefix (host_node_key a b) V) = node_names_of V"
    by (simp add: node_names_of_def)
  ultimately show ?thesis by (simp add: nodes_ok_def cong: option.case_cong)
qed

lemma nodes_ok_free:
  assumes ok: "nodes_ok V" and n: "rget V (ns_key ''default'' ''nodes'' n) \<noteq> Raw []"
    and u: "u = text_of E (rget V (ns_key ''default'' ''nodes'' n))"
  shows "rget V node_bitmap_key \<noteq> Raw []"
    and "\<exists>bm'. FreeNode n (bitmap_of_string (text_of E (rget V node_bitmap_key))) = Inr bm' \<and>
      nodes_ok (V(ns_key ''default'' ''nodes'' n := None, node_key u := None,
        node_bitmap_key \<mapsto> Raw (string_of_bitmap bm')))"
proof -
  note bm = nodes_ok_bitmap [OF ok refl, of E]
  have "n \<in> node_names_of V" using n by (auto simp: node_names_of_def rget_def split: option.splits)
  then show r: "rget V node_bitmap_key \<noteq> Raw []" using bm(2) empty_node_bitmap by (auto split: if_splits)
  let ?bm = "bitmap_of_string (text_of E (rget V node_bitmap_key))"
  obtain bm' where f: "FreeNode n ?bm = Inr bm'" "node_held bm' = node_held ?bm - {n}" "node_ok bm'"
    using node_pool.free_held [of ?bm n] bm r \<open>n \<in> node_names_of V\<close> by auto
  have "index_ok ''nodes'' node_key (V(ns_key ''default'' ''nodes'' n := None, node_key u := None))"
    using ok by (intro nodes.index_delete_read [OF _ _ n u]) (auto simp: nodes_ok_def)
  then have "nodes_ok (V(ns_key ''default'' ''nodes'' n := None, node_key u := None,
        node_bitmap_key \<mapsto> Raw (string_of_bitmap bm')))"
    using f bm r node_names_of_ns [of V n None]
    by (auto simp: nodes_ok_def nodes.index_other_upd intro!: exI [of _ bm'])
  with f show "\<exists>bm'. FreeNode n ?bm = Inr bm' \<and> nodes_ok (V(ns_key ''default'' ''nodes'' n := None,
      node_key u := None, node_bitmap_key \<mapsto> Raw (string_of_bitmap bm')))" by blast
qed

lemma no_slash_kinds:
  "no_slash ''pods''" "no_slash ''services''" "no_slash ''dns''" "no_slash ''nodes''" "no_slash ''replicasets''"
  "no_slash ''scaling''" "no_slash ''virtualservices''" "no_slash ''subsets''" "no_slash ''rollingupdates''"
  by (simp_all add: no_slash_def)

context reliable_etcd
begin

lemma RegisterNode_index:
  assumes "nodes_ok (view w)" "uuid \<noteq> ''''" "view w (node_key uuid) = None"
  shows "wp view (RegisterNodeHandler E req address uuid now) w (\<lambda>rs V. nodes_ok V)"
  unfolding RegisterNodeHandler_def read_or_init_bitmap_def
  by (intro wp_combinators rel; (use assms in simp)?)
    (clarify?; rule nodes_ok_init nodes_ok_alloc [where E = E]; simp)+

lemma UnregisterNode_index:
  assumes "nodes_ok (view w)"
  shows "wp view (UnregisterNodeHandler E name) w (\<lambda>rs V. nodes_ok V)"
  unfolding UnregisterNodeHandler_def
  by (intro wp_combinators rel; (use assms in simp)?)
    (use nodes_ok_free [of "drop_prefix (host_node_key name '''') (view w)" name _ E] assms in auto)

end

text \<open>All kinds together.\<close>

definition registry_indexed :: "registry \<Rightarrow> bool" where
  "registry_indexed V \<longleftrightarrow> index_ok ''pods'' pod_key V \<and> index_ok ''services'' svc_key V
     \<and> index_ok ''dns'' dns_key V \<and> nodes_ok V \<and> index_ok ''replicasets'' rs_key V
     \<and> index_ok ''scaling'' hpa_key V \<and> index_ok ''virtualservices'' vs_key V
     \<and> index_ok ''subsets'' subset_key V \<and> index_ok ''rollingupdates'' ru_key V"

context reliable_etcd
begin

lemma ns_footprint_kind:
  assumes "request_ok r" "no_slash np" "no_slash kind" "ns_key np kind n \<in> footprint r"
  shows "request_kind r = kind"
  using assms
  by (cases r) (auto simp: ns_key_inj no_slash_kinds hpa_namespace_def split: option.splits if_splits)

lemma index_frame:
  assumes "index_ok kind key (view w)" "serve E r w = (rs, w')" "request_ok r" "no_slash kind"
    "request_kind r \<noteq> kind" "\<And>u. key u \<notin> footprint r"
  shows "index_ok kind key (view w')"
  using assms(1) serve_frame [OF assms(2)] assms(6) ns_footprint_kind [OF assms(3) _ assms(4)] assms(5)
  by (simp add: index_ok_def cong: conj_cong) metis

text \<open>One request, kind by kind.\<close>

lemma serve_index:
  assumes t: "keyed typed (view w)" and u: "uuid_fresh (view w) r" and n: "request_ok r"
    and s: "serve E r w = (rs, w')"
  shows
    "index_ok ''pods'' pod_key (view w) \<Longrightarrow> index_ok ''pods'' pod_key (view w')"
    "index_ok ''services'' svc_key (view w) \<Longrightarrow> index_ok ''services'' svc_key (view w')"
    "index_ok ''dns'' dns_key (view w) \<Longrightarrow> index_ok ''dns'' dns_key (view w')"
    "index_ok ''replicasets'' rs_key (view w) \<Longrightarrow> index_ok ''replicasets'' rs_key (view w')"
    "index_ok ''scaling'' hpa_key (view w) \<Longrightarrow> index_ok ''scaling'' hpa_key (view w')"
    "index_ok ''virtualservices'' vs_key (view w) \<Longrightarrow> index_ok ''virtualservices'' vs_key (view w')"
    "index_ok ''subsets'' subset_key (view w) \<Longrightarrow> index_ok ''subsets'' subset_key (view w')"
    "index_ok ''rollingupdates'' ru_key (view w) \<Longrightarrow> index_ok ''rollingupdates'' ru_key (view w')"
    "nodes_ok (view w) \<Longrightarrow> nodes_ok (view w')"
proof -
  show "index_ok ''pods'' pod_key (view w')" if i: "index_ok ''pods'' pod_key (view w)"
  proof (cases "request_kind r = ''pods''")
    case True
    then show ?thesis using i t u n s
      by (cases r) (auto dest!: wp_result [OF _ AddPod_index] wp_result [OF _ DeletePod_index] wp_result [OF _ PutPodStatus_index])
  qed (auto intro!: index_frame [OF i s n] simp: no_slash_kinds dest: footprint_kind)
  show "index_ok ''services'' svc_key (view w')" if i: "index_ok ''services'' svc_key (view w)"
  proof (cases "request_kind r = ''services''")
    case True
    then show ?thesis using i t u n s
      by (cases r) (auto dest!: wp_result [OF _ AddService_index] wp_result [OF _ DeleteService_index])
  qed (auto intro!: index_frame [OF i s n] simp: no_slash_kinds dest: footprint_kind)
  show "index_ok ''dns'' dns_key (view w')" if i: "index_ok ''dns'' dns_key (view w)"
  proof (cases "request_kind r = ''dns''")
    case True
    then show ?thesis using i t u n s
      by (cases r) (auto dest!: wp_result [OF _ AddDNS_index] wp_result [OF _ DeleteDNS_index])
  qed (auto intro!: index_frame [OF i s n] simp: no_slash_kinds dest: footprint_kind)
  show "index_ok ''replicasets'' rs_key (view w')" if i: "index_ok ''replicasets'' rs_key (view w)"
  proof (cases "request_kind r = ''replicasets''")
    case True
    then show ?thesis using i t u n s
      by (cases r) (auto dest!: wp_result [OF _ AddReplicaSet_index] wp_result [OF _ UpdateReplicaSet_index] wp_result [OF _ DeleteReplicaSet_index])
  qed (auto intro!: index_frame [OF i s n] simp: no_slash_kinds dest: footprint_kind)
  show "index_ok ''scaling'' hpa_key (view w')" if i: "index_ok ''scaling'' hpa_key (view w)"
  proof (cases "request_kind r = ''scaling''")
    case True
    then show ?thesis using i t u n s
      by (cases r) (auto dest!: wp_result [OF _ AddScaling_index] wp_result [OF _ DeleteScaling_index])
  qed (auto intro!: index_frame [OF i s n] simp: no_slash_kinds dest: footprint_kind)
  show "index_ok ''virtualservices'' vs_key (view w')" if i: "index_ok ''virtualservices'' vs_key (view w)"
  proof (cases "request_kind r = ''virtualservices''")
    case True
    then show ?thesis using i t u n s
      by (cases r) (auto dest!: wp_result [OF _ AddVirtualService_index] wp_result [OF _ DeleteVirtualService_index])
  qed (auto intro!: index_frame [OF i s n] simp: no_slash_kinds dest: footprint_kind)
  show "index_ok ''subsets'' subset_key (view w')" if i: "index_ok ''subsets'' subset_key (view w)"
  proof (cases "request_kind r = ''subsets''")
    case True
    then show ?thesis using i t u n s
      by (cases r) (auto dest!: wp_result [OF _ AddSubset_index] wp_result [OF _ DeleteSubset_index])
  qed (auto intro!: index_frame [OF i s n] simp: no_slash_kinds dest: footprint_kind)
  show "index_ok ''rollingupdates'' ru_key (view w')" if i: "index_ok ''rollingupdates'' ru_key (view w)"
  proof (cases "request_kind r = ''rollingupdates''")
    case True
    then show ?thesis using i t u n s
      by (cases r) (auto dest!: wp_result [OF _ AddRollingUpdate_index] wp_result [OF _ UpdateRollingUpdateStatus_index] wp_result [OF _ DeleteRollingUpdate_index])
  qed (auto intro!: index_frame [OF i s n] simp: no_slash_kinds dest: footprint_kind)
  show "nodes_ok (view w')" if i: "nodes_ok (view w)"
  proof (cases "request_kind r = ''nodes''")
    case True
    then show ?thesis using i t u n s
      by (cases r) (auto dest!: wp_result [OF _ RegisterNode_index] wp_result [OF _ UnregisterNode_index])
  next
    case False
    with i have "index_ok ''nodes'' node_key (view w')"
      by (intro index_frame [OF _ s n]) (auto simp: no_slash_kinds nodes_ok_def dest: footprint_kind)
    moreover have "view w' node_bitmap_key = view w node_bitmap_key"
      using serve_frame [OF s] footprint_kind(11) [of r] False by blast
    moreover have "view w' (ns_key ''default'' ''nodes'' n) = view w (ns_key ''default'' ''nodes'' n)" for n
      using serve_frame [OF s] ns_footprint_kind [OF n, of "''default''" "''nodes''"] False
      by (auto simp: no_slash_kinds)
    then have "node_names_of (view w') = node_names_of (view w)"
      by (simp add: node_names_of_def)
    ultimately show ?thesis using i by (simp add: nodes_ok_def cong: option.case_cong)
  qed
qed

lemma well_served_indexed: "well_served E view h w \<Longrightarrow> registry_indexed (view w)"
  by (erule well_served_invariant)
    (auto intro: serve_index simp: registry_indexed_def index_ok_def [of _ _ Map.empty]
      nodes_ok_def [of Map.empty] node_names_of_def [of Map.empty])

end

end
