(* ===== verification/Pod_Scheduling.thy ===== *)
theory Pod_Scheduling
  imports Index_Consistency
begin

text \<open>
  The assignment of pods to nodes: the entries below \<open>/registry/host-nodes\<close>. At no time, and
  whatever calls of etcd fail, is a pod assigned to two nodes; a successful request to schedule a pod
  leaves exactly one entry for it, on the node asked for; the unscheduled pods are the pods without
  an entry.
\<close>

definition assigned :: "registry \<Rightarrow> UID \<Rightarrow> string set" where
  "assigned V u = {k. has_prefix ''/registry/host-nodes'' k \<and> V k = Some (Raw u)}"

definition scheduled_once :: "registry \<Rightarrow> bool" where
  "scheduled_once V \<longleftrightarrow> (\<forall>u k k'. k \<in> assigned V u \<longrightarrow> k' \<in> assigned V u \<longrightarrow> k = k')"

lemma scheduled_once_sub:
  "scheduled_once V \<Longrightarrow> (\<And>k. has_prefix ''/registry/host-nodes'' k \<Longrightarrow> V' k = V k \<or> V' k = None) \<Longrightarrow>
   scheduled_once V'"
  unfolding scheduled_once_def assigned_def mem_Collect_eq by (metis option.distinct(1))

lemma scheduled_once_insert:
  "scheduled_once V \<Longrightarrow> assigned V u = {} \<Longrightarrow> scheduled_once (V(k \<mapsto> Raw u))"
  by (auto simp: scheduled_once_def assigned_def)

text \<open>The loop over the old entries: it deletes those of the pod, or stops at a failed delete.\<close>

fun without :: "'w env \<Rightarrow> UID \<Rightarrow> (string, document) gomap \<Rightarrow> registry \<Rightarrow> registry" where
  "without E u [] V = V"
| "without E u ((k, v) # kvs) V = without E u kvs (if text_of E v = u then V(k := None) else V)"

lemma without_apply:
  "without E u kvs V k = (if \<exists>v. (k, v) \<in> set kvs \<and> text_of E v = u then None else V k)"
  by (induction E u kvs V rule: without.induct) auto

context etcd_server
begin

lemma wp_delete_mappings:
  assumes "\<And>w'. view w' = without E u kvs (view w) \<Longrightarrow> wp view k w' Q"
    and "\<And>st b V. StatusInternalServerError = st \<Longrightarrow> (\<And>k. V k = view w k \<or> V k = None) \<Longrightarrow> Q [Reply st b] V"
  shows "wp view (delete_mappings E u kvs k) w Q"
  using assms
proof (induction kvs arbitrary: w)
  case (Cons e kvs)
  obtain key v where e: "e = (key, v)" by (cases e)
  show ?case
  proof (cases "text_of E v = u")
    case False
    with e show ?thesis using Cons.IH [of w] Cons.prems by simp
  next
    case True
    have "wp view (Delete E key (\<lambda>err. if err \<noteq> None
        then reply StatusInternalServerError (Error ''error in deleting old node-pod mapping from etcd'')
        else delete_mappings E u kvs k)) w Q"
    proof (intro wp_Delete wp_if wp_reply)
      fix w' and err :: error
      assume w': "view w' = (view w)(key := None) \<or> err \<noteq> None \<and> view w' = view w"
      {
        assume "err \<noteq> None"
        from w' have "view w' k = view w k \<or> view w' k = None" for k
          by (cases "k = key") auto
        then show "Q [Reply StatusInternalServerError (Error ''error in deleting old node-pod mapping from etcd'')] (view w')"
          by (intro Cons.prems(2)) auto
      next
        assume "\<not> err \<noteq> None"
        with w' have w': "view w' = (view w)(key := None)" by simp
        show "wp view (delete_mappings E u kvs k) w' Q"
        proof (rule Cons.IH)
          fix w'' assume "view w'' = without E u kvs (view w')"
          then show "wp view k w'' Q" using w' e True by (intro Cons.prems(1)) simp
        next
          fix st b and V :: registry
          assume "StatusInternalServerError = st" and V: "\<And>k. V k = view w' k \<or> V k = None"
          moreover have "V k = view w k \<or> V k = None" for k
            using V [of k] w' by (cases "k = key") auto
          ultimately show "Q [Reply st b] V" by (intro Cons.prems(2))
        qed
      }
    qed
    with e True show ?thesis by simp
  qed
qed (simp add: without.simps)

end

lemma assigned_without:
  assumes "\<forall>k v. (k, v) \<in> set m \<longleftrightarrow> has_prefix ''/registry/host-nodes'' k \<and> V k = Some v"
  shows "assigned (without E u m V) u = {}"
  using assms by (auto simp: assigned_def without_apply)

lemma scheduled_without: "scheduled_once V \<Longrightarrow> scheduled_once (without E u m V)"
  by (erule scheduled_once_sub) (simp add: without_apply)

lemma scheduled_insert_without:
  assumes "scheduled_once V" "\<forall>k v. (k, v) \<in> set m \<longleftrightarrow> has_prefix ''/registry/host-nodes'' k \<and> V k = Some v"
  shows "scheduled_once ((without E u m V)(k \<mapsto> Raw u))"
  using assms by (intro scheduled_once_insert scheduled_without assigned_without)

lemma assigned_insert: "has_prefix ''/registry/host-nodes'' k \<Longrightarrow> assigned (V(k \<mapsto> Raw u)) u = insert k (assigned V u)"
  by (auto simp: assigned_def)

lemma scheduled_once_or: "V' = A \<or> V' = B \<Longrightarrow> scheduled_once A \<Longrightarrow> scheduled_once B \<Longrightarrow> scheduled_once V'"
  by blast

lemma host_node_has_prefix [simp]: "has_prefix ''/registry/host-nodes'' (host_node_key node rest)"
  by (simp add: key_defs has_prefix_iff)

context etcd_server
begin

lemma SchedulePod_once:
  assumes "scheduled_once (view w)"
  shows "wp view (SchedulePodToNodeHandler E u node) w (\<lambda>rs V. scheduled_once V)"
  unfolding SchedulePodToNodeHandler_def
  by (intro wp wp_delete_mappings; (use assms in simp)?)
    (clarify; (erule scheduled_once_or)?;
      simp add: scheduled_without scheduled_insert_without scheduled_once_sub [OF assms])+

lemma SchedulePod_assigns:
  shows "wp view (SchedulePodToNodeHandler E u node) w (\<lambda>rs V. status_of rs = StatusOK \<longrightarrow>
    (\<exists>pod. view w (pod_key u) = Some (JPod pod) \<and> assigned V u =
      {host_node_key node (''/'' @ Namespace (Pod_Meta pod) @ ''_'' @ Name (Pod_Meta pod))}))"
  unfolding SchedulePodToNodeHandler_def
  by (intro wp wp_delete_mappings; simp add: status_of_def)
    (auto simp: unmarshal_Some assigned_insert assigned_without dest: rget_eqD)

text \<open>All other requests at most delete entries.\<close>

lemma keeps_UnregisterNode_entries:
  "(\<And>s. T node_bitmap_key (Raw s)) \<Longrightarrow> keeps view T (UnregisterNodeHandler E name)"
  unfolding UnregisterNodeHandler_def by (intro keeps) auto

lemma serve_host_nodes:
  assumes s: "serve E r w = (rs, w')" and r: "\<And>u node. r \<noteq> POST_Schedule u node"
    and k: "has_prefix ''/registry/host-nodes'' k"
  shows "view w' k = view w k \<or> view w' k = None"
proof (cases "k \<in> footprint r")
  case True
  let ?T = "\<lambda>k v. has_prefix ''/registry/host-nodes'' k \<longrightarrow> view w k = Some v"
  have "keeps view ?T (serve E r)"
    using True k r
    by (cases r) (auto intro!: keeps_delete_handlers keeps_UnregisterNode_entries split: option.splits)
  moreover have "keyed ?T (view w)" by (simp add: keyed_def)
  ultimately have "keyed ?T (view w')" using s by (auto intro: keeps_result)
  with k show ?thesis by (cases "view w' k") (auto simp: keyed_def)
qed (simp add: serve_frame [OF s])

lemma serve_scheduled_once:
  assumes o: "scheduled_once (view w)" and s: "serve E r w = (rs, w')"
  shows "scheduled_once (view w')"
proof (cases "\<exists>u node. r = POST_Schedule u node")
  case True
  then show ?thesis using s by (auto dest!: wp_result [OF _ SchedulePod_once [OF o]])
next
  case False
  then show ?thesis using serve_host_nodes [OF s] by (intro scheduled_once_sub [OF o]) auto
qed

lemma served_scheduled_once: "served E view h w \<Longrightarrow> scheduled_once (view w)"
  by (erule served_invariant) (auto intro: serve_scheduled_once simp: scheduled_once_def [of Map.empty] assigned_def)

end

text \<open>The pods that the scheduler gets to see.\<close>

lemma host_nodes_typed:
  "typed k v \<Longrightarrow> has_prefix ''/registry/host-nodes'' k \<Longrightarrow> \<exists>s. v = Raw s"
  by (cases v) (auto simp: typed.simps)

lemma pods_typed: "typed k v \<Longrightarrow> has_prefix ''/registry/pods'' k \<Longrightarrow> \<exists>p. v = JPod p \<and> k = pod_key (MetaUID (Pod_Meta p))"
  by (cases v) (auto simp: typed.simps key_defs has_prefix_iff)

lemma all_pods_unmarshal:
  assumes "keyed typed V" "\<forall>k v. (k, v) \<in> set m \<longleftrightarrow> has_prefix ''/registry/pods'' k \<and> V k = Some v"
  shows "\<exists>ps. unmarshal_all json_Unmarshal_Pod (map snd m) = Inr ps \<and>
    set ps = {p. V (pod_key (MetaUID (Pod_Meta p))) = Some (JPod p)}"
proof -
  have "\<exists>ps. unmarshal_all json_Unmarshal_Pod (map snd m) = Inr ps \<and>
      set ps = {p. \<exists>k. has_prefix ''/registry/pods'' k \<and> V k = Some (JPod p)}"
    by (rule unmarshal_listing)
      (use assms in \<open>auto simp: json_Unmarshal_defs dest: keyedD pods_typed\<close>)
  moreover have "(\<exists>k. has_prefix ''/registry/pods'' k \<and> V k = Some (JPod p)) \<longleftrightarrow>
      V (pod_key (MetaUID (Pod_Meta p))) = Some (JPod p)" for p
    using keyedD [OF assms(1), of _ "JPod p"] by (auto simp: typed.simps pod_key_def has_prefix_iff)
  ultimately show ?thesis by simp
qed

lemma host_listing:
  assumes "keyed typed V" "\<forall>k v. (k, v) \<in> set m \<longleftrightarrow> has_prefix ''/registry/host-nodes'' k \<and> V k = Some v"
  shows "u \<in> (\<lambda>e. text_of E (snd e)) ` set m \<longleftrightarrow> assigned V u \<noteq> {}"
proof
  assume "u \<in> (\<lambda>e. text_of E (snd e)) ` set m"
  then obtain k v where e: "(k, v) \<in> set m" "u = text_of E v" by auto
  with assms obtain x where "v = Raw x" "V k = Some v" "has_prefix ''/registry/host-nodes'' k"
    using host_nodes_typed keyedD by metis
  with e show "assigned V u \<noteq> {}" by (auto simp: assigned_def)
next
  assume "assigned V u \<noteq> {}"
  then obtain k where "(k, Raw u) \<in> set m" using assms by (auto simp: assigned_def)
  then show "u \<in> (\<lambda>e. text_of E (snd e)) ` set m" by force
qed

context reliable_etcd
begin

lemma GetUnscheduled_spec:
  assumes "keyed typed (view w)"
  shows "wp view (GetUnscheduledPodHandler E) w (\<lambda>rs V. \<exists>ps. rs = [Reply StatusOK (DataPods ps)] \<and>
    set ps = {p. view w (pod_key (MetaUID (Pod_Meta p))) = Some (JPod p) \<and> assigned (view w) (MetaUID (Pod_Meta p)) = {}})"
  unfolding GetUnscheduledPodHandler_def
  by (intro wp_combinators rel; (use assms in simp)?)
    (auto dest!: all_pods_unmarshal [rotated] simp: host_listing)

end

end
