(* ===== verification/Pod_Lifecycle.thy ===== *)
theory Pod_Lifecycle
  imports Pod_Scheduling
begin

text \<open>
  What single handlers do to the registry: a pod from its creation to its removal, a node registered
  under an address that is none, a replica set with a new number of replicas, a service when the bitmap of
  addresses cannot be read. Then a small cluster for concrete runs.
\<close>

definition created_pod :: "Pod \<Rightarrow> string \<Rightarrow> UID \<Rightarrow> time \<Rightarrow> Pod" where
  "created_pod pod np uuid now = pod\<lparr>Pod_Meta := norm_meta ((Pod_Meta pod)
      \<lparr>MetaUID := uuid, CreationTimestamp := now, Namespace := np\<rparr>),
    Pod_Status := (Pod_Status pod)\<lparr>Phase := PodPending\<rparr>\<rparr>"

context reliable_etcd
begin

lemma AddPod_stores:
  assumes "Name (Pod_Meta pod) \<noteq> ''''"
  shows "wp view (AddPodHandler E np (Some pod) uuid now) w (\<lambda>rs V. status_of rs = StatusCreated \<longrightarrow>
    V (ns_key np ''pods'' (Name (Pod_Meta pod))) = Some (Raw uuid) \<and>
    V (pod_key uuid) = Some (JPod (created_pod pod np uuid now)))"
  unfolding AddPodHandler_def
  by (intro wp_combinators rel; (use assms in simp)?) (auto simp: status_of_def assms created_pod_def)

lemma GetPod_finds:
  assumes "view w (ns_key np ''pods'' name) = Some (Raw u)" "u \<noteq> ''''" "view w (pod_key u) = Some (JPod pod)"
  shows "wp view (GetPodHandler E np name) w (\<lambda>rs V. rs = [Reply StatusOK (DataPod pod)])"
  unfolding GetPodHandler_def using assms
  by (intro wp_combinators rel) (auto simp: json_Unmarshal_defs)

lemma GetPod_misses:
  assumes "view w (ns_key np ''pods'' name) = None"
  shows "wp view (GetPodHandler E np name) w (\<lambda>rs V. status_of rs = StatusNotFound)"
  unfolding GetPodHandler_def using assms
  by (intro wp_combinators rel) (auto simp: status_of_def)

lemma DeletePod_removes:
  "wp view (DeletePodHandler E np name) w (\<lambda>rs V. status_of rs = StatusOK \<longrightarrow>
    V = (view w)(ns_key np ''pods'' name := None,
      pod_key (text_of E (rget (view w) (ns_key np ''pods'' name))) := None))"
  unfolding DeletePodHandler_def Let_def
  by (intro wp_combinators rel) (simp_all add: status_of_def)

text \<open>With a consistent registry, a pod with an index entry can be deleted.\<close>

lemma DeletePod_succeeds:
  assumes "index_ok ''pods'' pod_key (view w)" "no_slash np" "view w (ns_key np ''pods'' name) = Some (Raw u)"
  shows "wp view (DeletePodHandler E np name) w (\<lambda>rs V. status_of rs = StatusOK \<and>
    V = (view w)(ns_key np ''pods'' name := None, pod_key u := None))"
proof -
  have "u \<noteq> ''''" "\<exists>x. view w (pod_key u) = Some x \<and> label x = Some (np, name)"
    using assms unfolding index_ok_def by blast+
  then show ?thesis using assms(3)
    unfolding DeletePodHandler_def Let_def
    by (intro wp_combinators rel) (auto simp: status_of_def)
qed

end

section \<open>Nodes and replica sets\<close>

text \<open>A node pool with a free name hands one out.\<close>

lemma pool_bitmap_alloc:
  assumes "nodes_ok V" "node_names_of V \<noteq> node_names"
    "bm = (if rget V node_bitmap_key = Raw '''' then replicate 8 0 else bitmap_of_string (text_of E (rget V node_bitmap_key)))"
  shows "\<exists>n bm'. AllocNode bm = Inr (n, bm')"
proof -
  have "node_ok bm \<and> node_held bm = node_names_of V"
    using assms(1,3) empty_node_bitmap
    by (auto simp: nodes_ok_def rget_def split: option.splits)
  then show ?thesis using node_pool.alloc_full [of bm] assms(2) by (cases "AllocNode bm") auto
qed

context reliable_etcd
begin

lemma RegisterNode_invalid_ip:
  assumes "\<not> ParseIP address" "nodes_ok (view w)" "node_names_of (view w) \<noteq> node_names"
  shows "wp view (RegisterNodeHandler E (Some n) address u now) w (\<lambda>rs V. status_of rs = StatusBadRequest \<and>
    length rs = 2 \<and> (\<exists>node. V (node_key u) = Some (JNode node) \<and> Address node = address))"
  unfolding RegisterNodeHandler_def read_or_init_bitmap_def
  by (intro wp_combinators rel; (use assms in simp)?)
    (use pool_bitmap_alloc [OF assms(2,3), of _ E] in \<open>auto simp: status_of_def\<close>)

end

text \<open>
  What a change of the number does to the registry: the replica set that the index has under the namespace and the
  name gets the number, and nothing else changes.
\<close>

definition sets_replicas :: "'w env \<Rightarrow> string \<Rightarrow> string \<Rightarrow> int \<Rightarrow> registry \<Rightarrow> registry \<Rightarrow> bool" where
  "sets_replicas E np name n V V' \<longleftrightarrow> (\<exists>d rps. V (ns_key np ''replicasets'' name) = Some d \<and>
     V (rs_key (text_of E d)) = Some (JReplicaSet rps) \<and>
     V' = V(rs_key (text_of E d) \<mapsto> json_doc (JReplicaSet (rps\<lparr>RS_Spec := (RS_Spec rps)\<lparr>Replicas := n\<rparr>\<rparr>))))"

lemma sets_replicasI:
  assumes "json_Unmarshal_ReplicaSet (rget V (rs_key (text_of E (rget V (ns_key np ''replicasets'' name))))) = (rps, None)"
    "rget V (ns_key np ''replicasets'' name) \<noteq> Raw ''''"
    "V' = V(rs_key (text_of E (rget V (ns_key np ''replicasets'' name))) \<mapsto>
      json_doc (JReplicaSet (rps\<lparr>RS_Spec := (RS_Spec rps)\<lparr>Replicas := n\<rparr>\<rparr>)))"
  shows "sets_replicas E np name n V V'"
proof -
  have "V (rs_key (text_of E (rget V (ns_key np ''replicasets'' name)))) = Some (JReplicaSet rps)"
    using assms(1) by (auto simp: json_Unmarshal_defs rget_def split: document.splits option.splits)
  with rget_nonempty [OF assms(2)] assms(3) show ?thesis unfolding sets_replicas_def by blast
qed

context etcd_server
begin

lemma UpdateReplicaSet_stores:
  "wp view (UpdateReplicaSetHandler E np name query) w (\<lambda>rs V. status_of rs = StatusOK \<longrightarrow>
    (\<exists>n u rps. atoi query = Some n \<and> rs = [Reply StatusOK (DataReplicaSet rps)] \<and>
      Replicas (RS_Spec rps) = i32 n \<and> V (rs_key u) = Some (json_doc (JReplicaSet rps))))"
  unfolding UpdateReplicaSetHandler_def
  by (intro wp) (auto simp: status_of_def intro!: exI)

lemma UpdateReplicaSet_sets:
  "wp view (UpdateReplicaSetHandler E np name query) w (\<lambda>rs V. status_of rs = StatusOK \<longrightarrow>
    (\<exists>n. atoi query = Some n \<and> sets_replicas E np name (i32 n) (view w) V))"
  unfolding UpdateReplicaSetHandler_def json_Marshal_def
  by (intro wp; simp add: status_of_def) (clarify, rule sets_replicasI; simp)

end

section \<open>A lost bitmap of addresses\<close>

text \<open>A new service with the first address, and a bitmap that knows of no other.\<close>

definition gets_first_ip :: "UID \<Rightarrow> registry \<Rightarrow> registry \<Rightarrow> bool" where
  "gets_first_ip u V V' \<longleftrightarrow> (u, ''100.0.0.0'') \<in> service_ips V' \<and>
     (\<forall>u' ip. u' \<noteq> u \<longrightarrow> ((u', ip) \<in> service_ips V' \<longleftrightarrow> (u', ip) \<in> service_ips V)) \<and>
     V' ip_bitmap_key = Some (Raw (string_of_bitmap ((replicate 32 0)[0 := 1])))"

lemma gets_first_ipI:
  assumes "ClusterIP (Svc_Spec s) = ''100.0.0.0''"
  shows "gets_first_ip u V (V(ip_bitmap_key \<mapsto> Raw (string_of_bitmap ((replicate 32 0)[0 := 1])), svc_key u \<mapsto> JService s,
    ns_key np kind name \<mapsto> Raw u))"
  using assms by (auto simp: gets_first_ip_def service_ips_iff)

lemma first_ip: "AllocIP (replicate 32 0) = Inr (''100.0.0.0'', (replicate 32 0)[0 := 1])"
  by code_simp

lemma ip_held_first: "ip_held ((replicate 32 0)[0 := 1]) = {''100.0.0.0''}"
proof -
  have "slots ((replicate 32 0)[0 := 1]) = {0}"
    by (auto simp: slots_def nth_list_update bit_1_iff split: if_splits)
  moreover have "IPPrefix @ dec 0 = ''100.0.0.0''" by code_simp
  ultimately show ?thesis by (simp add: ip_held_def)
qed

context etcd_server
begin

lemma wp_read_bitmap_fails:
  assumes fails: "\<And>w. \<exists>e. fst (kv_Get E key w) = Inl e"
    and k: "\<And>w' (err :: error). view w' = (view w)(key \<mapsto> Raw (string_of_bitmap (replicate (size_bits div 8) 0))) \<or>
        err \<noteq> None \<and> view w' = view w \<Longrightarrow>
      wp view (if err \<noteq> None then reply StatusInternalServerError failure else k (replicate (size_bits div 8) 0)) w' Q"
  shows "wp view (read_or_init_bitmap E key size_bits failure k) w Q"
proof -
  obtain e w1 where g: "kv_Get E key w = (Inl e, w1)" using fails [of w] by (cases "kv_Get E key w") auto
  then have "view w1 = view w" using kv_Get_law by blast
  then have "wp view (Set E key (Raw (string_of_bitmap (replicate (size_bits div 8) 0)))
      (\<lambda>err. if err \<noteq> None then reply StatusInternalServerError failure else k (replicate (size_bits div 8) 0))) w1 Q"
    by (intro wp_Set) (rule k, simp only: \<open>view w1 = view w\<close>)
  then show ?thesis by (simp add: read_or_init_bitmap_def Get_def store_Get_def g wp_def Let_def)
qed

lemma AddService_read_fails:
  assumes "keyed typed (view w)" "\<And>w. \<exists>e. fst (kv_Get E ip_bitmap_key w) = Inl e"
  shows "wp view (AddServiceHandler E np req u t) w (\<lambda>rs V. status_of rs = StatusCreated \<longrightarrow>
gets_first_ip u (view w) V)"
  unfolding AddServiceHandler_def json_Marshal_def
  by (intro wp_read_bitmap_fails wp wp_checkTypeAndPorts assms; (use assms(1) in \<open>simp add: status_of_def first_ip\<close>)?)
    (clarify, rule gets_first_ipI, simp)

end

section \<open>A small cluster\<close>

definition demo_meta :: "string \<Rightarrow> ObjectMeta" where
  "demo_meta n = zero_ObjectMeta\<lparr>Name := n, Labels := Some [(''app'', n)]\<rparr>"

definition demo_pod :: "string \<Rightarrow> Pod" where
  "demo_pod n = zero_Pod\<lparr>Pod_Meta := demo_meta n\<rparr>"

definition demo_service :: "string \<Rightarrow> int \<Rightarrow> Service" where
  "demo_service n port = zero_Service\<lparr>Svc_Type := \<lparr>Kind = ''Service'', APIVersion = ''v1''\<rparr>,
     Svc_Meta := demo_meta n,
     Svc_Spec := \<lparr>Service_Type = ServiceTypeNodePort,
       Service_Ports = [\<lparr>ServicePort_Name = '''', ServicePort_Protocol = '''', Port = 80,
         TargetPort = 8080, NodePort = port\<rparr>],
       Selector = [(''app'', n)], ClusterIP = ''''\<rparr>\<rparr>"

definition demo_requests :: "request list" where
  "demo_requests = [POST_RegisterNode (Some zero_Node) ''10.0.0.1'' ''n1'' 1,
     POST_Pod ''default'' (Some (demo_pod ''web'')) ''p1'' 2,
     POST_Pod ''default'' (Some (demo_pod ''db'')) ''p2'' 3,
     POST_Schedule ''p1'' ''node-0'',
     POST_Service ''default'' (Some (demo_service ''web'' 30001)) ''s1'' 4,
     POST_Service ''default'' (Some (demo_service ''db'' 30002)) ''s2'' 5,
     DELETE_Service ''default'' ''db'']"

text \<open>Over a store that never fails, and over one whose fourth call fails after it took effect.\<close>

definition demo_run :: "(request \<times> reply list) list \<times> (string, document) gomap" where
  "demo_run = serve_all calm_env demo_requests ([], [])"

definition demo_faulty :: "(request \<times> reply list) list \<times> mem" where
  "demo_faulty = serve_all mem_env demo_requests ([], ([], [Works, Works, Works, Applied]))"

lemma demo_run_served: "well_served calm_env map_of (fst demo_run) (snd demo_run)"
proof -
  have "well_all calm_env map_of demo_requests []" by code_simp
  then show ?thesis unfolding demo_run_def by (rule well_served_run [rotated]) simp
qed

lemma demo_faulty_served: "served mem_env mem_view (fst demo_faulty) (snd demo_faulty)"
  unfolding demo_faulty_def by (rule served_run) (simp add: mem_view_def)

definition cip_service :: "string \<Rightarrow> Service" where
  "cip_service n = (demo_service n 0)\<lparr>Svc_Spec :=
     (Svc_Spec (demo_service n 0))\<lparr>Service_Type := ServiceTypeClusterIP\<rparr>\<rparr>"

text \<open>A store that has lost the bitmap for reading, and a run in which the first address was given out before.\<close>

definition bitmap_lost :: "'w env \<Rightarrow> 'w env" where
  "bitmap_lost E = E\<lparr>kv_Get := (\<lambda>k w. if k = ip_bitmap_key then (Inl ''timeout'', w) else kv_Get E k w)\<rparr>"

lemma bitmap_lost_server: "etcd_server E view \<Longrightarrow> etcd_server (bitmap_lost E) view"
  by (auto simp: etcd_server_def bitmap_lost_def)

definition one_service :: "(request \<times> reply list) list \<times> (string, document) gomap" where
  "one_service = serve_all calm_env [POST_Service ''default'' (Some (cip_service ''a'')) ''s1'' 1] ([], [])"

end
