(* ===== verification/Api_Properties.thy ===== *)
theory Api_Properties
  imports Pod_Lifecycle
begin

text \<open>
  The properties of the API server, each over all registries that the server reaches. The premise
  \<open>etcd_server E view\<close> is what etcd documents of its calls, failing ones included;
  \<open>reliable_etcd E view\<close> adds that no call fails. Witnesses run the small cluster of \<open>Pod_Lifecycle\<close>.
\<close>

text \<open>
  C1. Whatever requests were served, and whatever calls of etcd failed on the way, every key of the
  registry holds the type of document that its prefix announces, under the uid of the document.
\<close>

theorem registry_well_typed:
  assumes "etcd_server E view" "served E view h w"
  shows "keyed typed (view w)"
  using assms by (rule etcd_server.served_typed)

theorem registry_well_typed_witness:
  "keyed typed (mem_view (snd demo_faulty)) \<and> mem_view (snd demo_faulty) \<noteq> Map.empty"
proof
  show "keyed typed (mem_view (snd demo_faulty))"
    by (rule registry_well_typed [OF mem.etcd_server_axioms demo_faulty_served])
  have "mem_view (snd demo_faulty) ''/registry/pods/p1'' \<noteq> None" by code_simp
  then show "mem_view (snd demo_faulty) \<noteq> Map.empty" by auto
qed

text \<open>
  C2. While no call of etcd fails, the two entries of every object agree: the index entry of a name
  leads to the object of that name, every object is indexed, so no two objects of a kind share a
  namespace and name; and the nodes are the names that the node bitmap has given out.
\<close>

theorem registry_index_consistent:
  assumes "reliable_etcd E view" "well_served E view h w"
  shows "registry_indexed (view w)"
  using assms by (rule reliable_etcd.well_served_indexed)

theorem registry_index_consistent_witness:
  "registry_indexed (map_of (snd demo_run)) \<and> map_of (snd demo_run) (svc_key ''s1'') \<noteq> None"
proof
  show "registry_indexed (map_of (snd demo_run))"
    by (rule registry_index_consistent [OF calm.reliable_etcd_axioms demo_run_served])
  show "map_of (snd demo_run) (svc_key ''s1'') \<noteq> None" by code_simp
qed

text \<open>
  C3. No two services in the registry ever share a node port, and every stored service has passed
  the checks of its ports, whatever calls of etcd fail.
\<close>

theorem node_ports_never_shared:
  assumes "etcd_server E view" "served E view h w"
  shows "node_ports_unique (view w)"
  using assms by (rule etcd_server.served_node_ports)

theorem node_ports_never_shared_witness: "node_ports_unique (mem_view (snd demo_faulty))"
  by (rule node_ports_never_shared [OF mem.etcd_server_axioms demo_faulty_served])

text \<open>
  C4. While no call of etcd fails, the cluster IPs of the services are distinct, and the bitmap
  holds exactly the addresses in use: none is lost when a service is deleted.
\<close>

theorem cluster_ips_exact:
  assumes "reliable_etcd E view" "well_served E view h w"
  shows "ips_exact (view w)"
  using assms by (rule reliable_etcd.well_served_ips)

theorem cluster_ips_exact_witness:
  "ips_exact (map_of (snd demo_run)) \<and> (''s1'', ''100.0.0.0'') \<in> service_ips (map_of (snd demo_run))"
proof
  show "ips_exact (map_of (snd demo_run))"
    by (rule cluster_ips_exact [OF calm.reliable_etcd_axioms demo_run_served])
  have "case map_of (snd demo_run) (svc_key ''s1'') of Some (JService s) \<Rightarrow> ClusterIP (Svc_Spec s) = ''100.0.0.0'' | _ \<Rightarrow> False"
    by code_simp
  then show "(''s1'', ''100.0.0.0'') \<in> service_ips (map_of (snd demo_run))"
    by (auto simp: service_ips_iff split: option.splits document.splits)
qed

text \<open>
  C5. At no time is a pod assigned to two nodes, whatever calls of etcd fail.
\<close>

theorem pod_on_one_node:
  assumes "etcd_server E view" "served E view h w"
  shows "scheduled_once (view w)"
  using assms by (rule etcd_server.served_scheduled_once)

theorem pod_on_one_node_witness: "scheduled_once (mem_view (snd demo_faulty))"
  by (rule pod_on_one_node [OF mem.etcd_server_axioms demo_faulty_served])

text \<open>
  C6. A request to schedule a pod that is answered with 200 leaves the pod with exactly one entry,
  and that entry is below the node asked for and named after the pod.
\<close>

theorem schedule_assigns:
  assumes "etcd_server E view" "serve E (POST_Schedule u node) w = (rs, w')" "status_of rs = StatusOK"
  shows "\<exists>pod. view w (pod_key u) = Some (JPod pod) \<and> assigned (view w') u =
    {host_node_key node (''/'' @ Namespace (Pod_Meta pod) @ ''_'' @ Name (Pod_Meta pod))}"
  using wp_result [OF _ etcd_server.SchedulePod_assigns [OF assms(1)]] assms(2,3) by auto

theorem schedule_assigns_witness:
  "\<exists>pod. map_of (snd demo_run) (pod_key ''p2'') = Some (JPod pod) \<and>
    assigned (map_of (snd (serve calm_env (POST_Schedule ''p2'' ''node-0'') (snd demo_run)))) ''p2'' =
    {host_node_key ''node-0'' (''/'' @ Namespace (Pod_Meta pod) @ ''_'' @ Name (Pod_Meta pod))}"
proof (rule schedule_assigns [OF calm.etcd_server_axioms prod.collapse [symmetric]])
  show "status_of (fst (serve calm_env (POST_Schedule ''p2'' ''node-0'') (snd demo_run))) = StatusOK"
    by code_simp
qed

text \<open>
  C7. While no call of etcd fails, the list of unscheduled pods holds exactly the stored pods that
  are assigned to no node.
\<close>

theorem unscheduled_pods_exact:
  assumes "reliable_etcd E view" "well_served E view h w" "serve E GET_UnscheduledPods w = (rs, w')"
  shows "\<exists>ps. rs = [Reply StatusOK (DataPods ps)] \<and>
    set ps = {p. view w (pod_key (MetaUID (Pod_Meta p))) = Some (JPod p) \<and>
      assigned (view w) (MetaUID (Pod_Meta p)) = {}}"
proof -
  have "keyed typed (view w)"
    using assms(1,2) by (metis etcd_server.served_typed reliable_etcd_def well_served_served)
  then show ?thesis
    using wp_result [OF _ reliable_etcd.GetUnscheduled_spec [OF assms(1)]] assms(3) by auto
qed

theorem unscheduled_pods_exact_witness:
  "\<exists>ps. fst (serve calm_env GET_UnscheduledPods (snd demo_run)) = [Reply StatusOK (DataPods ps)] \<and>
    set ps = {p. map_of (snd demo_run) (pod_key (MetaUID (Pod_Meta p))) = Some (JPod p) \<and>
      assigned (map_of (snd demo_run)) (MetaUID (Pod_Meta p)) = {}}"
  by (rule unscheduled_pods_exact [OF calm.reliable_etcd_axioms demo_run_served prod.collapse [symmetric]])

text \<open>
  C8. Every request changes only the keys of its footprint: reading requests change nothing, and a
  request on one kind of object leaves the objects and indexes of all other kinds alone.
\<close>

theorem request_footprint:
  assumes "etcd_server E view" "serve E r w = (rs, w')" "k \<notin> footprint r"
  shows "view w' k = view w k"
  using assms by (rule etcd_server.serve_frame)

theorem request_footprint_witness:
  "map_of (snd (serve calm_env (DELETE_Pod ''default'' ''web'') (snd demo_run))) (svc_key ''s1'') =
   map_of (snd demo_run) (svc_key ''s1'') \<and> map_of (snd demo_run) (svc_key ''s1'') \<noteq> None"
proof
  show "map_of (snd (serve calm_env (DELETE_Pod ''default'' ''web'') (snd demo_run))) (svc_key ''s1'') =
      map_of (snd demo_run) (svc_key ''s1'')"
    by (rule request_footprint [OF calm.etcd_server_axioms prod.collapse [symmetric]]) simp
  show "map_of (snd demo_run) (svc_key ''s1'') \<noteq> None" by code_simp
qed

text \<open>
  A pod that was created (answer 201) is what a following read of its name returns, with its
  new uid, time stamp and phase, when no call of etcd fails.
\<close>

theorem pod_create_then_get:
  assumes "reliable_etcd E view" "Name (Pod_Meta pod) \<noteq> ''''" "u \<noteq> ''''"
    "serve E (POST_Pod np (Some pod) u now) w = (rs, w1)" "status_of rs = StatusCreated"
    "serve E (GET_Pod np (Name (Pod_Meta pod))) w1 = (rs', w2)"
  shows "rs' = [Reply StatusOK (DataPod (created_pod pod np u now))]"
proof -
  have "view w1 (ns_key np ''pods'' (Name (Pod_Meta pod))) = Some (Raw u) \<and>
      view w1 (pod_key u) = Some (JPod (created_pod pod np u now))"
    using wp_result [OF _ reliable_etcd.AddPod_stores [OF assms(1,2)]] assms(4,5) by auto
  then show ?thesis
    using wp_result [OF _ reliable_etcd.GetPod_finds [OF assms(1) _ assms(3)]] assms(6) by auto
qed

theorem pod_create_then_get_witness:
  "fst (serve calm_env (GET_Pod ''default'' ''api'')
     (snd (serve calm_env (POST_Pod ''default'' (Some (demo_pod ''api'')) ''p3'' 9) (snd demo_run)))) =
   [Reply StatusOK (DataPod (created_pod (demo_pod ''api'') ''default'' ''p3'' 9))]"
proof -
  have n: "Name (Pod_Meta (demo_pod ''api'')) = ''api''" by code_simp
  have "status_of (fst (serve calm_env (POST_Pod ''default'' (Some (demo_pod ''api'')) ''p3'' 9) (snd demo_run))) = StatusCreated"
    by code_simp
  from pod_create_then_get [OF calm.reliable_etcd_axioms _ _ prod.collapse [symmetric] this prod.collapse [symmetric]]
  show ?thesis by (simp add: n)
qed

text \<open>
  Deleting a pod by a name that is in use succeeds, removes its two entries and nothing else,
  and a following read of that name answers 404.
\<close>

theorem pod_delete_then_get:
  assumes "reliable_etcd E view" "well_served E view h w" "no_slash np"
    "view w (ns_key np ''pods'' name) = Some (Raw u)"
    "serve E (DELETE_Pod np name) w = (rs, w1)" "serve E (GET_Pod np name) w1 = (rs', w2)"
  shows "status_of rs = StatusOK \<and> view w1 = (view w)(ns_key np ''pods'' name := None, pod_key u := None)
    \<and> status_of rs' = StatusNotFound"
proof -
  have "index_ok ''pods'' pod_key (view w)"
    using reliable_etcd.well_served_indexed [OF assms(1,2)] by (simp add: registry_indexed_def)
  then have d: "status_of rs = StatusOK \<and> view w1 = (view w)(ns_key np ''pods'' name := None, pod_key u := None)"
    using wp_result [OF _ reliable_etcd.DeletePod_succeeds [OF assms(1) _ assms(3,4)]] assms(5) by auto
  then show ?thesis
    using wp_result [OF _ reliable_etcd.GetPod_misses [OF assms(1)]] assms(6) by auto
qed

theorem pod_delete_then_get_witness:
  "status_of (fst (serve calm_env (GET_Pod ''default'' ''web'')
     (snd (serve calm_env (DELETE_Pod ''default'' ''web'') (snd demo_run))))) = StatusNotFound"
proof -
  have "map_of (snd demo_run) (ns_key ''default'' ''pods'' ''web'') = Some (Raw ''p1'')"
    by code_simp
  moreover have "no_slash ''default''" by code_simp
  ultimately show ?thesis
    using pod_delete_then_get [OF calm.reliable_etcd_axioms demo_run_served, of "''default''" "''web''" "''p1''"
      "fst (serve calm_env (DELETE_Pod ''default'' ''web'') (snd demo_run))"
      "snd (serve calm_env (DELETE_Pod ''default'' ''web'') (snd demo_run))"]
    by (metis prod.collapse)
qed
text \<open>
  C9. The address handed out is the least free one, and none is handed out only when all 256 are
  in use.
\<close>

theorem alloc_ip_least:
  assumes "length bm = 32"
  shows "case AllocIP bm of
      Inl e \<Rightarrow> slots bm = {..<256}
    | Inr (ip, bm') \<Rightarrow> \<exists>n<256. ip = IPPrefix @ dec n \<and> n \<notin> slots bm \<and> {..<n} \<subseteq> slots bm \<and>
        slots bm' = insert n (slots bm) \<and> length bm' = 32"
proof (cases "allocInternal bm IPPoolSize")
  case (Inl e)
  then show ?thesis using assms allocInternal_full [of bm 256] by (simp add: AllocIP_slots)
next
  case (Inr r)
  then obtain n bm' where r: "allocInternal bm IPPoolSize = Inr (n, bm')" by (cases r) auto
  note s = allocInternal_spec [OF r]
  show ?thesis using r s assms by (auto simp: AllocIP_slots intro!: exI [of _ n])
qed

theorem alloc_ip_least_witness:
  "case AllocIP (0xff # replicate 31 0x02) of
      Inl e \<Rightarrow> slots (0xff # replicate 31 0x02) = {..<256}
    | Inr (ip, bm') \<Rightarrow> \<exists>n<256. ip = IPPrefix @ dec n \<and> n \<notin> slots (0xff # replicate 31 0x02) \<and>
        {..<n} \<subseteq> slots (0xff # replicate 31 0x02) \<and>
        slots bm' = insert n (slots (0xff # replicate 31 0x02)) \<and> length bm' = 32"
  by (rule alloc_ip_least) simp

text \<open>C10. Freeing the address that was just allocated restores the bitmap, bit for bit.\<close>

theorem alloc_free_roundtrip:
  assumes "AllocIP bm = Inr (ip, bm')"
  shows "FreeIP ip bm' = Inr bm"
proof -
  have ok: "ip_ok bm" using assms by (auto simp: AllocIP_def split: if_splits)
  then obtain b where "FreeIP ip bm' = Inr b" "ip_held b = ip_held bm" "ip_ok b"
    using ip_pool.free_after_alloc [OF ok assms] by auto
  then show ?thesis using ok by (simp add: ip_held_inj slots_eq_iff)
qed

theorem alloc_free_roundtrip_witness:
  "FreeIP ''100.0.0.8'' (0xff # 0x01 # replicate 30 0) = Inr (0xff # replicate 31 0)"
proof (rule alloc_free_roundtrip)
  show "AllocIP (0xff # replicate 31 0) = Inr (''100.0.0.8'', 0xff # 0x01 # replicate 30 0)" by code_simp
qed

text \<open>
  C11. Asking for node names again and again yields distinct names, none of them in use, and exactly
  as many as the pool of 64 has left.
\<close>

theorem node_names_capacity:
  assumes "length bm = 8"
  shows "distinct (fst (node_pool.alloc_all k bm)) \<and>
    set (fst (node_pool.alloc_all k bm)) \<inter> node_held bm = {} \<and>
    length (fst (node_pool.alloc_all k bm)) = min k (64 - card (slots bm))"
proof -
  have "card (node_held bm) = card (slots bm)" "card node_names = 64"
    by (simp_all add: node_held_def node_names_def card_image inj_on_subset [OF inj_prefix_dec])
  then show ?thesis
    using node_pool.alloc_all_distinct [of bm k] node_pool.alloc_all_length [of bm k] assms by simp
qed

theorem node_names_capacity_witness:
  "distinct (fst (node_pool.alloc_all 70 (replicate 8 0))) \<and>
    set (fst (node_pool.alloc_all 70 (replicate 8 0))) \<inter> node_held (replicate 8 0) = {} \<and>
    length (fst (node_pool.alloc_all 70 (replicate 8 0))) = min 70 (64 - card (slots (replicate 8 0)))"
  by (rule node_names_capacity) simp

text \<open>
  A node that registers with an address that is no IP address is answered 400, and yet stored
  with that address: the handler goes on after the error reply and writes a second one.
\<close>

theorem invalid_ip_still_registers:
  assumes "reliable_etcd E view" "well_served E view h w" "\<not> ParseIP address"
    "node_names_of (view w) \<noteq> node_names"
    "serve E (POST_RegisterNode (Some n) address u now) w = (rs, w')"
  shows "status_of rs = StatusBadRequest \<and> length rs = 2 \<and>
    (\<exists>node. view w' (node_key u) = Some (JNode node) \<and> Address node = address)"
proof -
  have "nodes_ok (view w)"
    using reliable_etcd.well_served_indexed [OF assms(1,2)] by (simp add: registry_indexed_def)
  then show ?thesis
    using wp_result [OF _ reliable_etcd.RegisterNode_invalid_ip [OF assms(1,3) _ assms(4)]] assms(5) by auto
qed

theorem invalid_ip_still_registers_witness:
  "status_of (fst (serve calm_env (POST_RegisterNode (Some zero_Node) ''10.0.0.256'' ''n9'' 1) [])) = StatusBadRequest \<and>
   length (fst (serve calm_env (POST_RegisterNode (Some zero_Node) ''10.0.0.256'' ''n9'' 1) [])) = 2 \<and>
   (\<exists>node. map_of (snd (serve calm_env (POST_RegisterNode (Some zero_Node) ''10.0.0.256'' ''n9'' 1) [])) (node_key ''n9'') =
     Some (JNode node) \<and> Address node = ''10.0.0.256'')"
proof (rule invalid_ip_still_registers [OF calm.reliable_etcd_axioms, where h = "[]" and w = "[]"])
  show "well_served calm_env map_of [] []" by (rule well_served.well_start) simp
  show "\<not> ParseIP ''10.0.0.256''" by code_simp
  show "node_names_of (map_of []) \<noteq> node_names" by (simp add: node_names_of_def node_names_def lessThan_empty_iff)
qed simp

text \<open>
  C12. A change of the number of replicas that is answered with 200 stores the low 32 bits of the
  number asked for, as a signed integer.
\<close>

theorem replicas_wrap:
  assumes "etcd_server E view" "serve E (PUT_ReplicaSet np name query) w = (rs, w')" "status_of rs = StatusOK"
  shows "\<exists>n u rps. atoi query = Some n \<and> rs = [Reply StatusOK (DataReplicaSet rps)] \<and>
      Replicas (RS_Spec rps) = i32 n \<and> view w' (rs_key u) = Some (json_doc (JReplicaSet rps))"
  using wp_result [OF _ etcd_server.UpdateReplicaSet_stores [OF assms(1)]] assms(2,3) by auto

theorem replicas_wrap_witness:
  "\<exists>n u rps. atoi ''5'' = Some n \<and>
     fst (serve calm_env (PUT_ReplicaSet ''default'' ''r'' ''5'')
       [(''/registry/namespaces/default/replicasets/r'', Raw ''u''),
        (''/registry/replicaset/u'', JReplicaSet zero_ReplicaSet)]) = [Reply StatusOK (DataReplicaSet rps)] \<and>
     Replicas (RS_Spec rps) = i32 n \<and>
     map_of (snd (serve calm_env (PUT_ReplicaSet ''default'' ''r'' ''5'')
       [(''/registry/namespaces/default/replicasets/r'', Raw ''u''),
        (''/registry/replicaset/u'', JReplicaSet zero_ReplicaSet)])) (rs_key u) = Some (json_doc (JReplicaSet rps))"
proof (rule replicas_wrap [OF calm.etcd_server_axioms prod.collapse [symmetric]])
  show "status_of (fst (serve calm_env (PUT_ReplicaSet ''default'' ''r'' ''5'')
       [(''/registry/namespaces/default/replicasets/r'', Raw ''u''),
        (''/registry/replicaset/u'', JReplicaSet zero_ReplicaSet)])) = StatusOK" by code_simp
qed

text \<open>
  C13. A failed read of the address bitmap gives addresses out twice: in every registry that the server reaches, when the
  read fails and a service is created all the same, it gets the first address, whatever service has it already; and the
  bitmap that is written then has forgotten all other addresses.
\<close>

theorem failed_read_duplicates_ip:
  assumes "etcd_server E view" "served E view h w" "etcd_server F view" "\<forall>w. \<exists>e. fst (kv_Get F ip_bitmap_key w) = Inl e"
    "serve F (POST_Service np req u t) w = (rs, w')" "status_of rs = StatusCreated"
    "(u1, ''100.0.0.0'') \<in> service_ips (view w)" "u1 \<noteq> u"
  shows "{(u1, ''100.0.0.0''), (u, ''100.0.0.0'')} \<subseteq> service_ips (view w') \<and>
    (\<exists>bm. view w' ip_bitmap_key = Some (Raw (string_of_bitmap bm)) \<and> ip_held bm = {''100.0.0.0''})"
proof -
  have "wp view (serve F (POST_Service np req u t)) w
      (\<lambda>rs V. status_of rs = StatusCreated \<longrightarrow> gets_first_ip u (view w) V)"
    using etcd_server.AddService_read_fails [OF assms(3) etcd_server.served_typed [OF assms(1,2)]] assms(4) by simp
  from wp_result [OF assms(5) this] assms(6-8) show ?thesis
    unfolding gets_first_ip_def using ip_held_first by auto
qed

theorem failed_read_duplicates_ip_witness:
  "{(''s1'', ''100.0.0.0''), (''s2'', ''100.0.0.0'')} \<subseteq> service_ips (map_of (snd (serve (bitmap_lost calm_env)
     (POST_Service ''default'' (Some (cip_service ''b'')) ''s2'' 2) (snd one_service))))"
proof -
  let ?q = "POST_Service ''default'' (Some (cip_service ''b'')) ''s2'' 2"
  have served: "served calm_env map_of (fst one_service) (snd one_service)"
    unfolding one_service_def by (rule served_run) simp
  have ok: "status_of (fst (serve (bitmap_lost calm_env) ?q (snd one_service))) = StatusCreated" by code_simp
  have "case map_of (snd one_service) (svc_key ''s1'') of Some (JService s) \<Rightarrow> ClusterIP (Svc_Spec s) = ''100.0.0.0'' | _ \<Rightarrow> False"
    by code_simp
  then have "(''s1'', ''100.0.0.0'') \<in> service_ips (map_of (snd one_service))"
    by (auto simp: service_ips_iff split: option.splits document.splits)
  from failed_read_duplicates_ip [OF calm.etcd_server_axioms served bitmap_lost_server [OF calm.etcd_server_axioms] _
      prod.collapse [symmetric] ok this] show ?thesis
    by (simp add: bitmap_lost_def)
qed

end
