(* ===== verification/Metrics_Db.thy ===== *)
theory Metrics_Db
  imports Api_Core
begin

text \<open>
  \<open>pkg/kubeapiserver/metrics/stream_data.go\<close> and the two metrics handlers of \<open>routine.go\<close>: the metrics
  of the containers of each pod, in memory, at most \<open>DefaultWindowSize\<close> per container. The database is
  a map of structs whose maps the code updates in place; a pod whose first metrics came without a map
  of containers holds a nil map, to which nothing can be added.
\<close>

type_synonym metricsDb = "UID \<rightharpoonup> PodRawMetrics"

definition DefaultWindowSize :: nat where [simp]: "DefaultWindowSize = 60"

section \<open>Saving\<close>

definition mlist :: "('k, 'v list) gomap \<Rightarrow> 'k \<Rightarrow> 'v list" where
  "mlist m k = (case map_of m k of None \<Rightarrow> [] | Some l \<Rightarrow> l)"

text \<open>What ranging over the possibly nil map of a struct visits, and the lists that it holds.\<close>

definition infos :: "PodRawMetrics \<Rightarrow> (string, PodRawMetricsItem list) gomap" where
  "infos p = (case ContainerInfo p of None \<Rightarrow> [] | Some m \<Rightarrow> m)"

definition set_info :: "string \<Rightarrow> PodRawMetricsItem list \<Rightarrow> PodRawMetrics \<Rightarrow> PodRawMetrics" where
  "set_info cName l p = p\<lparr>ContainerInfo := map_option (mput cName l) (ContainerInfo p)\<rparr>"

text \<open>The loop that appends; \<open>False\<close> stands for the panic of an assignment to a nil map.\<close>

fun append_infos :: "(string, PodRawMetricsItem list) gomap \<Rightarrow> PodRawMetrics \<Rightarrow> bool \<times> PodRawMetrics" where
  "append_infos [] p = (True, p)"
| "append_infos ((cName, cInfo) # cs) p =
     (if ContainerInfo p = None then (False, p)
      else append_infos cs (set_info cName (mlist (infos p) cName @ cInfo) p))"

text \<open>The loop that cuts the lists to the window, keeping the latest.\<close>

fun trim_infos :: "string list \<Rightarrow> PodRawMetrics \<Rightarrow> PodRawMetrics" where
  "trim_infos [] p = p"
| "trim_infos (cName # cs) p =
     (let l = mlist (infos p) cName; curLen = length l in
      trim_infos cs (if curLen > DefaultWindowSize then set_info cName (drop (curLen - DefaultWindowSize) l) p else p))"

definition save_item :: "PodRawMetrics \<Rightarrow> metricsDb \<Rightarrow> bool \<times> metricsDb" where
  "save_item podItem db =
     (case (case db (Metrics_UID podItem) of
         None \<Rightarrow> (True, podItem)
       | Some p \<Rightarrow> append_infos (infos podItem) p) of (ok, p) \<Rightarrow>
      if ok then (True, db(Metrics_UID podItem \<mapsto> trim_infos (map fst (infos podItem)) p))
      else (False, db(Metrics_UID podItem \<mapsto> p)))"

text \<open>An element \<open>null\<close> of the list in the request is a nil pointer.\<close>

fun SavePodMetrics :: "PodRawMetrics option list \<Rightarrow> metricsDb \<Rightarrow> bool \<times> metricsDb" where
  "SavePodMetrics [] db = (True, db)"
| "SavePodMetrics (None # items) db = (False, db)"
| "SavePodMetrics (Some podItem # items) db =
     (case save_item podItem db of (ok, db') \<Rightarrow> if ok then SavePodMetrics items db' else (False, db'))"

section \<open>Querying\<close>

text \<open>\<open>sort.Search\<close>: binary search for the least index of \<open>[i, j)\<close> with \<open>f\<close>, or \<open>j\<close>.\<close>

function sort_search :: "(nat \<Rightarrow> bool) \<Rightarrow> nat \<Rightarrow> nat \<Rightarrow> nat" where
  "sort_search f i j =
     (if i < j then (let h = (i + j) div 2 in if \<not> f h then sort_search f (h + 1) j else sort_search f i h)
      else i)"
  by pat_completeness auto
termination
  by (relation "measure (\<lambda>(f, i, j). j - i)") auto

declare sort_search.simps [simp del]

definition Second :: int where [simp]: "Second = 1000000000"

text \<open>
  The slice of one container. The stored list is replaced by what the query returns. A negative
  window can make the lower bound exceed the upper one: slicing then panics.
\<close>

definition slice_window :: "PodRawMetricsItem list \<Rightarrow> time \<Rightarrow> time \<Rightarrow> PodRawMetricsItem list option" where
  "slice_window containerInfo earliestValidTS timeStamp =
     (let l = sort_search (\<lambda>i. Item_TimeStamp (containerInfo ! i) > earliestValidTS) 0 (length containerInfo);
          r = sort_search (\<lambda>i. Item_TimeStamp (containerInfo ! i) > timeStamp) 0 (length containerInfo)
      in if l > r then None else Some (take (r - l) (drop l containerInfo)))"

fun query_infos :: "(string, PodRawMetricsItem list) gomap \<Rightarrow> time \<Rightarrow> time \<Rightarrow> PodRawMetrics \<Rightarrow> bool \<times> PodRawMetrics" where
  "query_infos [] e t p = (True, p)"
| "query_infos ((cName, containerInfo) # cs) e t p =
     (case slice_window containerInfo e t of None \<Rightarrow> (False, p)
      | Some l \<Rightarrow> query_infos cs e t (set_info cName l p))"

datatype query_result = Found PodRawMetrics | NotFound string | QueryPanic

definition GetPodMetrics :: "UID \<Rightarrow> time \<Rightarrow> int \<Rightarrow> metricsDb \<Rightarrow> query_result \<times> metricsDb" where
  "GetPodMetrics podId timeStamp n db = (case db podId of
       None \<Rightarrow> (NotFound ''podId not found'', db)
     | Some podMetrics \<Rightarrow>
         if infos podMetrics = [] then (NotFound ''containerInfo is empty'', db)
         else (case query_infos (infos podMetrics) (timeStamp - n * Second) timeStamp podMetrics of
             (ok, p) \<Rightarrow> (if ok then Found p else QueryPanic, db(podId \<mapsto> p))))"

section \<open>The handlers\<close>

datatype stats_request =
  GET_Stats "(UID \<times> time \<times> int) option"
| POST_Stats "PodRawMetrics option list option"

text \<open>
  The reply to a save shows the items as they are afterwards: the first item of a pod shares its map
  with the database.
\<close>

fun saved_items :: "PodRawMetrics option list \<Rightarrow> metricsDb \<Rightarrow> metricsDb \<Rightarrow> PodRawMetrics list" where
  "saved_items [] db db' = []"
| "saved_items (None # items) db db' = saved_items items db db'"
| "saved_items (Some p # items) db db' =
     (if db (Metrics_UID p) = None then the (db' (Metrics_UID p)) else p) #
     saved_items items (db(Metrics_UID p \<mapsto> p)) db'"

definition GetStatsDataHandler :: "(UID \<times> time \<times> int) option \<Rightarrow> metricsDb \<Rightarrow> reply list \<times> metricsDb" where
  "GetStatsDataHandler query db = (case query of
     None \<Rightarrow> ([Reply StatusBadRequest (Error ''error in parsing query'')], db)
   | Some (uid, timeStamp, window) \<Rightarrow> (case GetPodMetrics uid timeStamp window db of
       (NotFound e, db') \<Rightarrow> ([Reply StatusInternalServerError (Error (''error in getting metrics: '' @ e))], db')
     | (QueryPanic, db') \<Rightarrow> ([Panic], db')
     | (Found data, db') \<Rightarrow> ([Reply StatusOK (DataMetrics data)], db')))"

definition AddStatsDataHandler :: "PodRawMetrics option list option \<Rightarrow> metricsDb \<Rightarrow> reply list \<times> metricsDb" where
  "AddStatsDataHandler req db = (case req of
     None \<Rightarrow> ([Reply StatusBadRequest (Error ''error in parsing metrics'')], db)
   | Some metrics \<Rightarrow> (case SavePodMetrics metrics db of (ok, db') \<Rightarrow>
       if ok then ([Reply StatusOK (DataMetricsList (saved_items metrics db db'))], db')
       else ([Panic], db')))"

fun serve_stats :: "stats_request \<Rightarrow> metricsDb \<Rightarrow> reply list \<times> metricsDb" where
  "serve_stats (GET_Stats query) = GetStatsDataHandler query"
| "serve_stats (POST_Stats req) = AddStatsDataHandler req"

text \<open>The keys of a Go map are distinct.\<close>

fun stats_ok :: "stats_request \<Rightarrow> bool" where
  "stats_ok (POST_Stats (Some items)) \<longleftrightarrow>
     list_all (\<lambda>i. case i of None \<Rightarrow> True | Some item \<Rightarrow> distinct (map fst (infos item))) items"
| "stats_ok _ \<longleftrightarrow> True"

inductive metrics_reached :: "metricsDb \<Rightarrow> bool" where
  metrics_empty: "metrics_reached Map.empty"
| metrics_step: "metrics_reached db \<Longrightarrow> stats_ok r \<Longrightarrow> serve_stats r db = (rs, db') \<Longrightarrow> metrics_reached db'"

section \<open>Binary search\<close>

text \<open>On a monotone predicate it finds the least index.\<close>

lemma sort_search_bounds: "i \<le> j \<Longrightarrow> i \<le> sort_search f i j \<and> sort_search f i j \<le> j"
proof (induction f i j rule: sort_search.induct)
  case (1 f i j)
  show ?case
  proof (cases "i < j")
    case True
    define h where "h = (i + j) div 2"
    have "i \<le> h" "h < j" using True by (auto simp: h_def)
    with True 1 show ?thesis
      by (subst (1 2) sort_search.simps) (auto simp: Let_def h_def [symmetric])
  qed (use 1 in \<open>simp add: sort_search.simps\<close>)
qed

lemma sort_search_least:
  assumes "\<And>a b. a \<le> b \<Longrightarrow> b < n \<Longrightarrow> f a \<Longrightarrow> f b" "i \<le> j" "j \<le> n"
  shows "(\<forall>a. i \<le> a \<longrightarrow> a < sort_search f i j \<longrightarrow> \<not> f a) \<and> (sort_search f i j < j \<longrightarrow> f (sort_search f i j))"
  using assms
proof (induction f i j rule: sort_search.induct)
  case (1 f i j)
  show ?case
  proof (cases "i < j")
    case True
    define h where "h = (i + j) div 2"
    have h: "i \<le> h" "h < j" using True by (auto simp: h_def)
    show ?thesis
    proof (cases "f h")
      case False
      define k where "k = sort_search f (h + 1) j"
      have k: "sort_search f i j = k" "h + 1 \<le> k" "k \<le> j"
        using True False sort_search_bounds [of "h + 1" j f] h(2)
        by (auto simp: k_def h_def Let_def sort_search.simps [of f i j])
      have "(\<forall>a. h + 1 \<le> a \<longrightarrow> a < k \<longrightarrow> \<not> f a) \<and> (k < j \<longrightarrow> f k)"
        unfolding k_def by (rule 1(1) [OF True h_def]) (use False h 1(3,5) in auto)
      moreover have "\<not> f a" if "a < h + 1" for a
        using False that 1(3) [of a h] h 1(5) by auto
      ultimately show ?thesis using k by (metis not_le)
    next
      case fh: True
      define k where "k = sort_search f i h"
      have k: "sort_search f i j = k" "i \<le> k" "k \<le> h"
        using True fh sort_search_bounds [OF h(1), of f]
        by (auto simp: k_def h_def Let_def sort_search.simps [of f i j])
      have "(\<forall>a. i \<le> a \<longrightarrow> a < k \<longrightarrow> \<not> f a) \<and> (k < h \<longrightarrow> f k)"
        unfolding k_def by (rule 1(2) [OF True h_def]) (use fh h 1(3,5) in auto)
      moreover have "k = h \<Longrightarrow> f k" using fh by simp
      ultimately show ?thesis using k h by (metis le_neq_implies_less)
    qed
  qed (simp add: sort_search.simps)
qed

section \<open>The window of a container\<close>

definition latest :: "nat \<Rightarrow> 'a list \<Rightarrow> 'a list" where
  "latest n xs = drop (length xs - n) xs"

lemma length_latest [simp]: "length (latest n xs) = min n (length xs)"
  by (simp add: latest_def)

lemma latest_short [simp]: "length xs \<le> n \<Longrightarrow> latest n xs = xs"
  by (simp add: latest_def)

text \<open>Cutting in between loses nothing that cutting at the end would keep.\<close>

lemma latest_append: "latest n (latest n xs @ ys) = latest n (xs @ ys)"
  by (cases "n \<le> length xs") (auto simp: latest_def add.commute)

lemma mlist_mput [simp]: "mlist (mput c l m) c' = (if c' = c then l else mlist m c')"
  by (simp add: mlist_def)

lemma mlist_Cons: "mlist ((c', l) # m) c = (if c' = c then l else mlist m c)"
  by (simp add: mlist_def)

lemma mlist_notin: "c \<notin> mkeys m \<Longrightarrow> mlist m c = []"
  by (simp add: mlist_def map_of_eq_None_iff [THEN iffD2])

lemma mlist_Nil [simp]: "mlist [] c = []"
  by (simp add: mlist_def)

lemma infos_set_info [simp]:
  "ContainerInfo p \<noteq> None \<Longrightarrow> infos (set_info c l p) = mput c l (infos p)"
  "ContainerInfo (set_info c l p) = None \<longleftrightarrow> ContainerInfo p = None"
  "Metrics_UID (set_info c l p) = Metrics_UID p"
  by (auto simp: infos_def set_info_def)

lemma infos_nil [simp]: "ContainerInfo p = None \<Longrightarrow> infos p = []"
  by (simp add: infos_def)

lemma append_infos_spec:
  assumes "ContainerInfo p \<noteq> None" "distinct (map fst cs)" "append_infos cs p = (ok, p')"
  shows "ok \<and> ContainerInfo p' \<noteq> None \<and> Metrics_UID p' = Metrics_UID p \<and>
    (\<forall>c. mlist (infos p') c = mlist (infos p) c @ mlist cs c)"
  using assms
proof (induction cs p arbitrary: ok p' rule: append_infos.induct)
  case (2 cName cInfo cs p)
  from 2(3) have c: "cName \<notin> fst ` set cs" "distinct (map fst cs)" by auto
  then have "mlist cs cName = []" by (simp add: mlist_notin)
  moreover from 2(2,4) have "append_infos cs (set_info cName (mlist (infos p) cName @ cInfo) p) = (ok, p')"
    by (simp del: not_None_eq)
  ultimately show ?case using 2(1) [of ok p'] 2(2) c(2) by (auto simp: mlist_Cons)
qed simp

lemma trim_infos_spec:
  "ContainerInfo (trim_infos cs p) = None \<longleftrightarrow> ContainerInfo p = None"
  "Metrics_UID (trim_infos cs p) = Metrics_UID p"
  "mlist (infos (trim_infos cs p)) c = (if c \<in> set cs then latest 60 (mlist (infos p) c) else mlist (infos p) c)"
proof (induction cs p rule: trim_infos.induct)
  case (2 cName cs p)
  {
    case 3
    show ?case
    proof (cases "length (mlist (infos p) cName) > 60")
      case True
      then have "ContainerInfo p \<noteq> None" by (cases "ContainerInfo p") auto
      with True 2 show ?thesis by (auto simp: Let_def latest_def)
    qed (use 2 in \<open>auto simp: Let_def\<close>)
  }
qed (auto simp: Let_def)

text \<open>A save of a known pod appends to the lists of its containers and keeps the latest records.\<close>

lemma append_infos_nil: "ContainerInfo p = None \<Longrightarrow> append_infos cs p = (cs = [], p)"
  by (cases "(cs, p)" rule: append_infos.cases) auto

lemma append_infos_keys: "append_infos cs p = (ok, p') \<Longrightarrow> distinct (map fst (infos p)) \<Longrightarrow> distinct (map fst (infos p'))"
  by (induction cs p arbitrary: ok p' rule: append_infos.induct) (auto split: if_splits)

lemma trim_infos_keys: "distinct (map fst (infos p)) \<Longrightarrow> distinct (map fst (infos (trim_infos cs p)))"
  by (induction cs p rule: trim_infos.induct) (auto simp: Let_def set_info_def infos_def split: option.splits)

lemma save_item_known:
  assumes "db (Metrics_UID item) = Some p" "ContainerInfo p \<noteq> None" "distinct (map fst (infos item))"
    "Metrics_UID p = Metrics_UID item"
  shows "\<exists>p'. save_item item db = (True, db(Metrics_UID item \<mapsto> p')) \<and> ContainerInfo p' \<noteq> None \<and>
    Metrics_UID p' = Metrics_UID item \<and> (distinct (map fst (infos p)) \<longrightarrow> distinct (map fst (infos p'))) \<and>
    (\<forall>c. mlist (infos p') c = (if c \<in> mkeys (infos item)
       then latest 60 (mlist (infos p) c @ mlist (infos item) c) else mlist (infos p) c))"
proof -
  obtain ok q where q: "append_infos (infos item) p = (ok, q)" by fastforce
  note a = append_infos_spec [OF assms(2,3) q] and t = trim_infos_spec [of "map fst (infos item)" q]
  have "save_item item db = (True, db(Metrics_UID item \<mapsto> trim_infos (map fst (infos item)) q))"
    using a q assms(1) by (simp add: save_item_def)
  moreover have "distinct (map fst (infos p)) \<longrightarrow> distinct (map fst (infos (trim_infos (map fst (infos item)) q)))"
    using append_infos_keys [OF q] trim_infos_keys by blast
  ultimately show ?thesis using a t assms(4)
    by (intro exI [of _ "trim_infos (map fst (infos item)) q"]) (simp add: mlist_notin)
qed

lemma save_item_new:
  assumes "db (Metrics_UID item) = None"
  shows "\<exists>p'. save_item item db = (True, db(Metrics_UID item \<mapsto> p')) \<and>
    (ContainerInfo p' = None \<longleftrightarrow> ContainerInfo item = None) \<and> Metrics_UID p' = Metrics_UID item \<and>
    (distinct (map fst (infos item)) \<longrightarrow> distinct (map fst (infos p'))) \<and>
    (\<forall>c. mlist (infos p') c = latest 60 (mlist (infos item) c))"
  using assms trim_infos_spec [of "map fst (infos item)" item] trim_infos_keys [of item]
  by (auto simp: save_item_def mlist_notin)

text \<open>A pod whose first metrics came without a map takes no further ones: the second save panics.\<close>

lemma save_item_nil:
  assumes "db (Metrics_UID item) = Some p" "ContainerInfo p = None"
  shows "save_item item db = (infos item = [], db)"
proof -
  have "db(Metrics_UID item \<mapsto> p) = db" using assms(1) by (rule map_upd_triv)
  then show ?thesis using assms by (simp add: save_item_def append_infos_nil)
qed

section \<open>Queries\<close>

lemma timestamps_upto:
  assumes "sorted (map Item_TimeStamp l)" and k_def: "k = sort_search (\<lambda>i. Item_TimeStamp (l ! i) > t) 0 (length l)"
  shows "take k l = filter (\<lambda>x. Item_TimeStamp x \<le> t) l" "k = length (filter (\<lambda>x. Item_TimeStamp x \<le> t) l)"
proof -
  have mono: "Item_TimeStamp (l ! a) \<le> Item_TimeStamp (l ! b)" if "a \<le> b" "b < length l" for a b
    using sorted_nth_mono [OF assms(1), of a b] that by simp
  have k: "k \<le> length l" using sort_search_bounds [of 0 "length l"] by (simp add: k_def)
  have s: "(\<forall>a. 0 \<le> a \<longrightarrow> a < k \<longrightarrow> \<not> Item_TimeStamp (l ! a) > t) \<and> (k < length l \<longrightarrow> Item_TimeStamp (l ! k) > t)"
    unfolding k_def using mono by (intro sort_search_least [where n = "length l"]) (auto intro: less_le_trans)
  have "filter (\<lambda>x. Item_TimeStamp x \<le> t) (take k l) = take k l"
    using s k by (auto simp: filter_id_conv in_set_conv_nth not_less)
  moreover have "filter (\<lambda>x. Item_TimeStamp x \<le> t) (drop k l) = []"
  proof -
    have "Item_TimeStamp (l ! (k + i)) > t" if "k + i < length l" for i
      using s mono [of k "k + i"] that by (auto intro: less_le_trans)
    then show ?thesis using k by (auto simp: filter_empty_conv in_set_conv_nth not_le)
  qed
  ultimately show "take k l = filter (\<lambda>x. Item_TimeStamp x \<le> t) l"
    using filter_append [of _ "take k l" "drop k l"] by simp
  with k show "k = length (filter (\<lambda>x. Item_TimeStamp x \<le> t) l)" by (metis length_take min_absorb2)
qed

lemma sorted_split:
  fixes f :: "'a \<Rightarrow> 'b :: linorder"
  shows "sorted (map f m) \<Longrightarrow> m = filter (\<lambda>x. f x \<le> e) m @ filter (\<lambda>x. \<not> f x \<le> e) m"
proof (induction m)
  case (Cons x m)
  show ?case
  proof (cases "f x \<le> e")
    case False
    then have "\<forall>y\<in>set m. \<not> f y \<le> e" using Cons.prems by auto
    with False show ?thesis by (simp add: filter_id_conv [THEN iffD2] filter_empty_conv [THEN iffD2])
  qed (use Cons in simp)
qed simp

text \<open>For records in the order of time the slice holds exactly those of the window.\<close>

lemma slice_window_spec:
  assumes "sorted (map Item_TimeStamp l)" "e \<le> t"
  shows "slice_window l e t = Some (filter (\<lambda>x. e < Item_TimeStamp x \<and> Item_TimeStamp x \<le> t) l)"
proof -
  define ke where "ke = length (filter (\<lambda>x. Item_TimeStamp x \<le> e) l)"
  define kt where "kt = length (filter (\<lambda>x. Item_TimeStamp x \<le> t) l)"
  define m where "m = filter (\<lambda>x. Item_TimeStamp x \<le> t) l"
  have me: "filter (\<lambda>x. Item_TimeStamp x \<le> e) m = filter (\<lambda>x. Item_TimeStamp x \<le> e) l"
    using assms(2) by (auto simp: m_def intro!: filter_cong)
  have "ke \<le> kt" using me length_filter_le [of _ m] by (metis ke_def kt_def m_def)
  moreover have "take kt l = m" using timestamps_upto [OF assms(1) refl, of t] by (simp add: kt_def m_def)
  then have "take (kt - ke) (drop ke l) = drop ke m" by (metis drop_take)
  moreover have "m = filter (\<lambda>x. Item_TimeStamp x \<le> e) m @ filter (\<lambda>x. \<not> Item_TimeStamp x \<le> e) m"
    using assms(1) by (intro sorted_split) (simp add: m_def sorted_filter)
  then have "drop ke m = filter (\<lambda>x. \<not> Item_TimeStamp x \<le> e) m"
    unfolding me by (metis append_eq_conv_conj ke_def)
  moreover have "filter (\<lambda>x. \<not> Item_TimeStamp x \<le> e) m = filter (\<lambda>x. e < Item_TimeStamp x \<and> Item_TimeStamp x \<le> t) l"
    by (auto simp: m_def intro!: filter_cong)
  ultimately show ?thesis
    using timestamps_upto(2) [OF assms(1) refl]
    by (simp add: slice_window_def Let_def ke_def [symmetric] kt_def [symmetric])
qed

lemma slice_window_length: "slice_window l e t = Some l' \<Longrightarrow> length l' \<le> length l"
  by (auto simp: slice_window_def Let_def split: if_splits)

text \<open>The loop over the containers replaces every list by its slice.\<close>

lemma query_infos_shape:
  assumes "query_infos cs e t p = (ok, p')" "ContainerInfo p \<noteq> None" "distinct (map fst (infos p))"
  shows "ContainerInfo p' \<noteq> None \<and> Metrics_UID p' = Metrics_UID p \<and> distinct (map fst (infos p'))"
  using assms
proof (induction cs e t p arbitrary: ok p' rule: query_infos.induct)
  case (2 cName containerInfo cs e t p)
  show ?case
  proof (cases "slice_window containerInfo e t")
    case None
    with 2(2-4) show ?thesis by simp
  next
    case (Some l)
    with 2(1) [OF Some, of ok p'] 2(2-4) show ?thesis by (simp del: not_None_eq)
  qed
qed simp

lemma query_infos_bounded:
  assumes "query_infos cs e t p = (ok, p')" "ContainerInfo p \<noteq> None"
    "list_all (\<lambda>e. length (snd e) \<le> n) cs" "\<forall>c. length (mlist (infos p) c) \<le> n"
  shows "\<forall>c. length (mlist (infos p') c) \<le> n"
  using assms
proof (induction cs e t p arbitrary: ok p' rule: query_infos.induct)
  case (2 cName containerInfo cs e t p)
  show ?case
  proof (cases "slice_window containerInfo e t")
    case None
    with 2(2,5) show ?thesis by simp
  next
    case (Some l)
    with 2(4) have "length l \<le> n" using slice_window_length by fastforce
    with 2(1) [OF Some, of ok p'] Some 2(2-5) show ?thesis by (simp del: not_None_eq)
  qed
qed simp

lemma query_infos_ok:
  assumes "\<forall>x\<in>set cs. slice_window (snd x) e t = Some (F (snd x))" "ContainerInfo p \<noteq> None"
    "distinct (map fst cs)"
  shows "\<exists>p'. query_infos cs e t p = (True, p') \<and> (\<forall>c. mlist (infos p') c =
    (case map_of cs c of None \<Rightarrow> mlist (infos p) c | Some l \<Rightarrow> F l))"
  using assms
proof (induction cs e t p rule: query_infos.induct)
  case (2 cName containerInfo cs e t p)
  have s: "slice_window containerInfo e t = Some (F containerInfo)" using 2(2) by simp
  have "map_of cs cName = None" using 2(4) by (simp add: map_of_eq_None_iff)
  moreover have "\<exists>p'. query_infos cs e t (set_info cName (F containerInfo) p) = (True, p') \<and> (\<forall>c. mlist (infos p') c =
      (case map_of cs c of None \<Rightarrow> mlist (infos (set_info cName (F containerInfo) p)) c | Some l \<Rightarrow> F l))"
    using 2(2-4) by (intro 2(1) [OF s]) (simp_all del: not_None_eq)
  ultimately show ?case using s 2(3) by (force split: option.splits simp del: not_None_eq)
qed simp

section \<open>The invariant of the database\<close>

definition metrics_ok :: "metricsDb \<Rightarrow> bool" where
  "metrics_ok db \<longleftrightarrow> (\<forall>u p. db u = Some p \<longrightarrow> Metrics_UID p = u \<and> distinct (map fst (infos p)) \<and>
     (\<forall>c. length (mlist (infos p) c) \<le> DefaultWindowSize))"

lemma metrics_ok_upd:
  "metrics_ok db \<Longrightarrow> Metrics_UID p = u \<Longrightarrow> distinct (map fst (infos p)) \<Longrightarrow>
   (\<And>c. length (mlist (infos p) c) \<le> 60) \<Longrightarrow> metrics_ok (db(u \<mapsto> p))"
  by (auto simp: metrics_ok_def)

lemma save_item_ok:
  assumes "metrics_ok db" "distinct (map fst (infos item))" "save_item item db = (ok, db')"
  shows "metrics_ok db'"
proof (cases "db (Metrics_UID item)")
  case None
  from save_item_new [of db item, OF this] assms obtain p' where "db' = db(Metrics_UID item \<mapsto> p')"
    "Metrics_UID p' = Metrics_UID item" "distinct (map fst (infos p'))"
    "\<forall>c. mlist (infos p') c = latest 60 (mlist (infos item) c)" by auto
  with assms(1) show ?thesis by (auto intro!: metrics_ok_upd)
next
  case (Some p)
  then have p: "Metrics_UID p = Metrics_UID item" "distinct (map fst (infos p))"
      "\<And>c. length (mlist (infos p) c) \<le> 60"
    using assms(1) by (auto simp: metrics_ok_def)
  show ?thesis
  proof (cases "ContainerInfo p = None")
    case True
    with save_item_nil [of db item p, OF Some] assms show ?thesis by simp
  next
    case False
    from save_item_known [of db item p, OF Some False assms(2) p(1)] p(2) assms obtain p' where "db' = db(Metrics_UID item \<mapsto> p')"
      "Metrics_UID p' = Metrics_UID item" "distinct (map fst (infos p'))"
      "\<forall>c. mlist (infos p') c = (if c \<in> mkeys (infos item)
        then latest 60 (mlist (infos p) c @ mlist (infos item) c) else mlist (infos p) c)" by auto
    with assms(1) p(3) show ?thesis by (auto intro!: metrics_ok_upd)
  qed
qed

lemma SavePodMetrics_ok:
  assumes "metrics_ok db" "SavePodMetrics items db = (ok, db')"
    "list_all (\<lambda>i. case i of None \<Rightarrow> True | Some item \<Rightarrow> distinct (map fst (infos item))) items"
  shows "metrics_ok db'"
  using assms
  by (induction items db arbitrary: ok db' rule: SavePodMetrics.induct)
    (auto split: prod.splits if_splits dest: save_item_ok)

lemma infos_entry:
  assumes "distinct (map fst (infos p))" "(c, l) \<in> set (infos p)"
  shows "mlist (infos p) c = l"
  using assms by (simp add: mlist_def map_of_is_SomeI)

lemma GetPodMetrics_ok:
  assumes "metrics_ok db" "GetPodMetrics u t n db = (r, db')"
  shows "metrics_ok db'"
proof (cases "db u")
  case None
  with assms show ?thesis by (simp add: GetPodMetrics_def)
next
  case (Some p)
  then have p: "Metrics_UID p = u" "distinct (map fst (infos p))" "\<And>c. length (mlist (infos p) c) \<le> 60"
    using assms(1) by (auto simp: metrics_ok_def)
  show ?thesis
  proof (cases "infos p = []")
    case True
    with Some assms show ?thesis by (simp add: GetPodMetrics_def)
  next
    case False
    then have ne: "ContainerInfo p \<noteq> None" by (cases "ContainerInfo p") auto
    obtain ok q where q: "query_infos (infos p) (t - n * Second) t p = (ok, q)" by fastforce
    have "\<forall>c. length (mlist (infos q) c) \<le> 60"
    proof (rule query_infos_bounded [OF q ne])
      show "list_all (\<lambda>e. length (snd e) \<le> 60) (infos p)"
        using p(3) infos_entry [OF p(2)] unfolding list_all_iff by (metis prod.collapse)
    qed (use p(3) in blast)
    with query_infos_shape [OF q ne p(2)] q Some False assms p(1) show ?thesis
      by (auto simp: GetPodMetrics_def intro!: metrics_ok_upd)
  qed
qed

lemma reached_metrics_ok: "metrics_reached db \<Longrightarrow> metrics_ok db"
proof (induction rule: metrics_reached.induct)
  case metrics_empty
  show ?case by (simp add: metrics_ok_def)
next
  case (metrics_step db r rs db')
  then show ?case
    by (cases r rule: stats_ok.cases)
      (auto simp: AddStatsDataHandler_def GetStatsDataHandler_def split: option.splits prod.splits if_splits
        query_result.splits intro: SavePodMetrics_ok GetPodMetrics_ok)
qed

text \<open>A query on lists in the order of time: what it returns, and that it forgets the rest.\<close>

definition in_window :: "time \<Rightarrow> int \<Rightarrow> PodRawMetricsItem \<Rightarrow> bool" where
  "in_window t n x \<longleftrightarrow> t - n * Second < Item_TimeStamp x \<and> Item_TimeStamp x \<le> t"

lemma GetPodMetrics_spec:
  assumes "db u = Some p" "infos p \<noteq> []" "distinct (map fst (infos p))" "0 \<le> n"
    "\<forall>x\<in>set (infos p). sorted (map Item_TimeStamp (snd x))"
  shows "\<exists>p'. GetPodMetrics u t n db = (Found p', db(u \<mapsto> p')) \<and>
    (\<forall>c. mlist (infos p') c = filter (in_window t n) (mlist (infos p) c))"
proof -
  have ne: "ContainerInfo p \<noteq> None" using assms(2) by (cases "ContainerInfo p") auto
  have s: "\<forall>x\<in>set (infos p). slice_window (snd x) (t - n * Second) t = Some (filter (in_window t n) (snd x))"
    using slice_window_spec assms(4,5) by (auto simp: in_window_def [abs_def])
  from query_infos_ok [where F = "filter (in_window t n)", OF s ne assms(3)] obtain p' where
    q: "query_infos (infos p) (t - n * Second) t p = (True, p')" and
    l: "\<forall>c. mlist (infos p') c =
      (case map_of (infos p) c of None \<Rightarrow> mlist (infos p) c | Some l \<Rightarrow> filter (in_window t n) l)" by blast
  then have "mlist (infos p') c = filter (in_window t n) (mlist (infos p) c)" for c
    by (cases "map_of (infos p) c") (auto simp: mlist_def)
  with q assms(1,2) show ?thesis by (auto simp: GetPodMetrics_def)
qed

section \<open>Properties\<close>

definition demo_item :: "time \<Rightarrow> PodRawMetricsItem" where
  "demo_item t = \<lparr>Item_TimeStamp = t * Second, CPUUsage = 1, MemoryUsage = 2\<rparr>"

definition demo_metrics :: "time list \<Rightarrow> PodRawMetrics" where
  "demo_metrics ts = \<lparr>Metrics_UID = ''p1'', ContainerInfo = Some [(''c'', map demo_item ts)]\<rparr>"

text \<open>
  C14. Whatever is saved and queried, the database never holds more than 60 records of a container.
\<close>

theorem metrics_window_bounded:
  assumes "metrics_reached db" "db u = Some p"
  shows "length (mlist (infos p) c) \<le> DefaultWindowSize"
  using reached_metrics_ok [OF assms(1)] assms(2) unfolding metrics_ok_def by blast

theorem metrics_window_bounded_witness:
  "length (mlist (infos (demo_metrics [1, 2, 3])) ''c'') \<le> DefaultWindowSize"
proof (rule metrics_window_bounded)
  show "metrics_reached [''p1'' \<mapsto> demo_metrics [1, 2, 3]]"
    by (rule metrics_step [OF metrics_empty, of "POST_Stats (Some [Some (demo_metrics [1, 2, 3])])"])
      (auto simp: AddStatsDataHandler_def save_item_def demo_metrics_def infos_def mlist_def Let_def)
  show "[''p1'' \<mapsto> demo_metrics [1, 2, 3]] ''p1'' = Some (demo_metrics [1, 2, 3])" by simp
qed

text \<open>
  Saving metrics of a known pod appends them to the lists of its containers, keeps the latest 60
  records of each and leaves other containers and pods alone.
\<close>

theorem metrics_save_appends:
  assumes "db (Metrics_UID item) = Some p" "ContainerInfo p \<noteq> None" "distinct (map fst (infos item))"
    "Metrics_UID p = Metrics_UID item"
  shows "\<exists>p'. SavePodMetrics [Some item] db = (True, db(Metrics_UID item \<mapsto> p')) \<and>
    (\<forall>c. mlist (infos p') c = (if c \<in> mkeys (infos item)
       then latest 60 (mlist (infos p) c @ mlist (infos item) c) else mlist (infos p) c))"
proof -
  from save_item_known [of db item p, OF assms] obtain p' where
    "save_item item db = (True, db(Metrics_UID item \<mapsto> p'))"
    "\<forall>c. mlist (infos p') c = (if c \<in> mkeys (infos item)
       then latest 60 (mlist (infos p) c @ mlist (infos item) c) else mlist (infos p) c)" by blast
  then show ?thesis by (intro exI [of _ p']) simp
qed

theorem metrics_save_appends_witness:
  "\<exists>p'. SavePodMetrics [Some (demo_metrics [3])] [''p1'' \<mapsto> demo_metrics [1, 2]] =
      (True, [''p1'' \<mapsto> demo_metrics [1, 2]](Metrics_UID (demo_metrics [3]) \<mapsto> p')) \<and>
    (\<forall>c. mlist (infos p') c = (if c \<in> mkeys (infos (demo_metrics [3]))
       then latest 60 (mlist (infos (demo_metrics [1, 2])) c @ mlist (infos (demo_metrics [3])) c)
       else mlist (infos (demo_metrics [1, 2])) c))"
  by (rule metrics_save_appends) (simp_all add: demo_metrics_def infos_def)

text \<open>
  On lists in the order of time a query returns exactly the records of its window, and writes
  them back: a later query finds nothing else, whatever it asks for.
\<close>

theorem metrics_query_exact:
  assumes "db u = Some p" "infos p \<noteq> []" "distinct (map fst (infos p))" "0 \<le> n"
    "\<forall>x\<in>set (infos p). sorted (map Item_TimeStamp (snd x))"
  shows "\<exists>p'. GetPodMetrics u t n db = (Found p', db(u \<mapsto> p')) \<and>
    (\<forall>c. mlist (infos p') c = filter (in_window t n) (mlist (infos p) c))"
  using assms by (rule GetPodMetrics_spec)

theorem metrics_query_exact_witness:
  "\<exists>p'. GetPodMetrics ''p1'' (3 * Second) 2 [''p1'' \<mapsto> demo_metrics [1, 2, 3, 4]] =
      (Found p', [''p1'' \<mapsto> demo_metrics [1, 2, 3, 4]](''p1'' \<mapsto> p')) \<and>
    (\<forall>c. mlist (infos p') c = filter (in_window (3 * Second) 2) (mlist (infos (demo_metrics [1, 2, 3, 4])) c))"
  by (rule metrics_query_exact) (simp_all add: demo_metrics_def infos_def demo_item_def)

text \<open>
  A pod whose first metrics had no map of containers takes no further ones: the request panics
  and changes nothing.
\<close>

theorem metrics_nil_map_panics:
  assumes "db (Metrics_UID item) = Some p" "ContainerInfo p = None" "infos item \<noteq> []"
  shows "serve_stats (POST_Stats (Some (Some item # items))) db = ([Panic], db)"
  using save_item_nil [of db item p, OF assms(1,2)] assms(3) by (simp add: AddStatsDataHandler_def)

theorem metrics_nil_map_panics_witness:
  "serve_stats (POST_Stats (Some [Some (demo_metrics [1])])) [''p1'' \<mapsto> \<lparr>Metrics_UID = ''p1'', ContainerInfo = None\<rparr>] =
   ([Panic], [''p1'' \<mapsto> \<lparr>Metrics_UID = ''p1'', ContainerInfo = None\<rparr>])"
  by (rule metrics_nil_map_panics [where p = "\<lparr>Metrics_UID = ''p1'', ContainerInfo = None\<rparr>"]) (simp_all add: demo_metrics_def infos_def)

end
