(* ===== verification/Kube_Client.thy ===== *)
theory Kube_Client
  imports Pod_Lifecycle Metrics_Db
begin

text \<open>
  \<open>pkg/kubeclient/client.go\<close>: the client of the API server that the scheduler, the controllers, the
  kube-proxy and the pilot share. A call is a request of \<open>Api_Server\<close>; the uuid and the time stamp that the
  server draws for it are arguments the client leaves open. The network is a parameter: a round trip
  returns the replies that the server wrote or an error. What travels is JSON, so an empty map of
  labels arrives as none. The names in a path are taken not to be empty and to hold no characters that mean
  something in a URL.

  The locale \<open>api_network\<close> says that a network connects to the server of \<open>Api_Server\<close>; every client call then
  is a step of that server.
\<close>

record 'w net =
  http :: "(UID \<Rightarrow> time \<Rightarrow> request) \<Rightarrow> 'w \<Rightarrow> (string + reply list) \<times> 'w"
  stats_http :: "stats_request \<Rightarrow> 'w \<Rightarrow> (string + reply list) \<times> 'w"

section \<open>Documents on the wire\<close>

definition wire_Pod :: "Pod \<Rightarrow> Pod" where
  "wire_Pod x = (case json_doc (JPod x) of JPod y \<Rightarrow> y)"

definition wire_Service :: "Service \<Rightarrow> Service" where
  "wire_Service x = (case json_doc (JService x) of JService y \<Rightarrow> y)"

definition wire_DNS :: "DNS \<Rightarrow> DNS" where
  "wire_DNS x = (case json_doc (JDNS x) of JDNS y \<Rightarrow> y)"

definition wire_Node :: "Node \<Rightarrow> Node" where
  "wire_Node x = (case json_doc (JNode x) of JNode y \<Rightarrow> y)"

definition wire_ReplicaSet :: "ReplicaSet \<Rightarrow> ReplicaSet" where
  "wire_ReplicaSet x = (case json_doc (JReplicaSet x) of JReplicaSet y \<Rightarrow> y)"

definition wire_HPA :: "HorizontalPodAutoscaler \<Rightarrow> HorizontalPodAutoscaler" where
  "wire_HPA x = (case json_doc (JHPA x) of JHPA y \<Rightarrow> y)"

definition wire_VirtualService :: "VirtualService \<Rightarrow> VirtualService" where
  "wire_VirtualService x = (case json_doc (JVirtualService x) of JVirtualService y \<Rightarrow> y)"

definition wire_Subset :: "Subset \<Rightarrow> Subset" where
  "wire_Subset x = (case json_doc (JSubset x) of JSubset y \<Rightarrow> y)"

definition wire_RollingUpdate :: "RollingUpdate \<Rightarrow> RollingUpdate" where
  "wire_RollingUpdate x = (case json_doc (JRollingUpdate x) of JRollingUpdate y \<Rightarrow> y)"

lemmas wire_defs = wire_Pod_def wire_Service_def wire_DNS_def wire_Node_def wire_ReplicaSet_def wire_HPA_def
  wire_VirtualService_def wire_Subset_def wire_RollingUpdate_def

text \<open>An empty map of containers arrives as none.\<close>

definition wire_Metrics :: "PodRawMetrics \<Rightarrow> PodRawMetrics" where
  "wire_Metrics p = p\<lparr>ContainerInfo := norm_map (ContainerInfo p)\<rparr>"

section \<open>Round trips\<close>

text \<open>
  \<open>json.Unmarshal\<close> of the whole body into \<open>BaseResponse\<close>: the data (its zero value if the reply has none)
  and the error text. An empty body, two documents in a row and plain text are errors.
\<close>

definition reply_data :: "'a \<Rightarrow> (body \<Rightarrow> 'a option) \<Rightarrow> body \<Rightarrow> string + ('a \<times> string)" where
  "reply_data zero data b = (case b of
     Error e \<Rightarrow> Inr (zero, e)
   | Message _ \<Rightarrow> Inr (zero, '''')
   | MessageUUID _ _ \<Rightarrow> Inr (zero, '''')
   | NoData \<Rightarrow> Inr (zero, '''')
   | _ \<Rightarrow> (case data b of Some x \<Rightarrow> Inr (x, '''') | None \<Rightarrow> Inl ''json''))"

definition unmarshal_reply :: "'a \<Rightarrow> (body \<Rightarrow> 'a option) \<Rightarrow> reply list \<Rightarrow> string + ('a \<times> string)" where
  "unmarshal_reply zero data rs = (case rs of
     [r] \<Rightarrow> (case r of Reply st b \<Rightarrow> reply_data zero data b | Panic \<Rightarrow> Inl ''json'')
   | _ \<Rightarrow> Inl ''json'')"

text \<open>\<open>json.NewDecoder(resp.Body).Decode\<close> reads the first document only.\<close>

definition decode_reply :: "'a \<Rightarrow> (body \<Rightarrow> 'a option) \<Rightarrow> reply list \<Rightarrow> string + ('a \<times> string)" where
  "decode_reply zero data rs = (case rs of
     r # _ \<Rightarrow> (case r of Reply st b \<Rightarrow> reply_data zero data b | Panic \<Rightarrow> Inl ''json'')
   | [] \<Rightarrow> Inl ''json'')"

text \<open>The shape that the calls share: round trip, decoding, status. Some calls skip the decoding.\<close>

definition finish :: "nat \<Rightarrow> 'a \<Rightarrow> string \<Rightarrow> (string + ('a \<times> string)) \<Rightarrow> reply list \<Rightarrow> 'a \<times> error" where
  "finish expected zero msg d rs = (case d of
     Inl e \<Rightarrow> (zero, Some e)
   | Inr (x, e) \<Rightarrow> if status_of rs \<noteq> expected then (zero, Some (msg @ e)) else (x, None))"

definition call_data :: "'w net \<Rightarrow> (UID \<Rightarrow> time \<Rightarrow> request) \<Rightarrow> nat \<Rightarrow> 'a \<Rightarrow> (body \<Rightarrow> 'a option) \<Rightarrow> string \<Rightarrow>
    'w \<Rightarrow> ('a \<times> error) \<times> 'w" where
  "call_data N q expected zero data msg w = (case http N q w of
     (Inl e, w') \<Rightarrow> ((zero, Some e), w')
   | (Inr rs, w') \<Rightarrow> (finish expected zero msg (unmarshal_reply zero data rs) rs, w'))"

definition call_decode :: "'w net \<Rightarrow> (UID \<Rightarrow> time \<Rightarrow> request) \<Rightarrow> nat \<Rightarrow> (body \<Rightarrow> unit option) \<Rightarrow> string \<Rightarrow> 'w \<Rightarrow> error \<times> 'w" where
  "call_decode N q expected data msg w = (case http N q w of
     (Inl e, w') \<Rightarrow> (Some e, w')
   | (Inr rs, w') \<Rightarrow> (snd (finish expected () msg (decode_reply () data rs) rs), w'))"

definition call_status :: "'w net \<Rightarrow> (UID \<Rightarrow> time \<Rightarrow> request) \<Rightarrow> nat \<Rightarrow> string \<Rightarrow> 'w \<Rightarrow> error \<times> 'w" where
  "call_status N q expected msg w = (case http N q w of
     (Inl e, w') \<Rightarrow> (Some e, w')
   | (Inr rs, w') \<Rightarrow> (if status_of rs \<noteq> expected then Some (msg @ dec (status_of rs)) else None, w'))"

text \<open>A call whose data the client drops.\<close>

definition call_add :: "'w net \<Rightarrow> (UID \<Rightarrow> time \<Rightarrow> request) \<Rightarrow> nat \<Rightarrow> (body \<Rightarrow> unit option) \<Rightarrow> string \<Rightarrow> 'w \<Rightarrow> error \<times> 'w" where
  "call_add N q expected data msg w = (case call_data N q expected () data msg w of ((_, err), w') \<Rightarrow> (err, w'))"

definition in_namespace :: "string \<Rightarrow> string" where
  "in_namespace np = (if np = '''' then ''default'' else np)"

section \<open>Pods\<close>

definition client_GetAllPods :: "'w net \<Rightarrow> 'w \<Rightarrow> (Pod list \<times> error) \<times> 'w" where
  "client_GetAllPods N = call_data N (\<lambda>_ _. GET_AllPods) StatusOK []
     (\<lambda>b. case b of DataPods xs \<Rightarrow> Some (map wire_Pod xs) | _ \<Rightarrow> None) ''get pods failed, error: ''"

definition client_GetPod :: "'w net \<Rightarrow> string \<Rightarrow> string \<Rightarrow> 'w \<Rightarrow> (Pod option \<times> error) \<times> 'w" where
  "client_GetPod N name namespace = call_data N (\<lambda>_ _. GET_Pod namespace name) StatusOK None
     (\<lambda>b. case b of DataPod x \<Rightarrow> Some (Some (wire_Pod x)) | _ \<Rightarrow> None) ''get pod error: ''"

definition client_AddPod :: "'w net \<Rightarrow> Pod \<Rightarrow> 'w \<Rightarrow> error \<times> 'w" where
  "client_AddPod N pod = (let namespace = in_namespace (Namespace (Pod_Meta pod)) in
     call_status N (POST_Pod namespace (Some (wire_Pod pod))) StatusCreated ''error: '')"

definition client_DeletePod :: "'w net \<Rightarrow> string \<Rightarrow> string \<Rightarrow> 'w \<Rightarrow> error \<times> 'w" where
  "client_DeletePod N name namespace = call_status N (\<lambda>_ _. DELETE_Pod namespace name) StatusOK ''delete pod error: ''"

definition client_GetAllUnscheduledPods :: "'w net \<Rightarrow> 'w \<Rightarrow> (Pod list \<times> error) \<times> 'w" where
  "client_GetAllUnscheduledPods N = call_data N (\<lambda>_ _. GET_UnscheduledPods) StatusOK []
     (\<lambda>b. case b of DataPods xs \<Rightarrow> Some (map wire_Pod xs) | _ \<Rightarrow> None) ''get unscheduled pods failed, error: ''"

section \<open>DNS\<close>

definition client_GetAllDNS :: "'w net \<Rightarrow> 'w \<Rightarrow> (DNS list \<times> error) \<times> 'w" where
  "client_GetAllDNS N = call_data N (\<lambda>_ _. GET_AllDNS) StatusOK []
     (\<lambda>b. case b of DataDNSs xs \<Rightarrow> Some (map wire_DNS xs) | _ \<Rightarrow> None) ''get dns failed, error: ''"

text \<open>The server has no route for a single DNS object, service, autoscaler or virtual service.\<close>

definition client_GetDNS :: "'w net \<Rightarrow> string \<Rightarrow> string \<Rightarrow> 'w \<Rightarrow> (DNS option \<times> error) \<times> 'w" where
  "client_GetDNS N name namespace = call_data N (\<lambda>_ _. NoRoute) StatusOK None (\<lambda>_. None) ''get dns error: ''"

definition client_AddDNS :: "'w net \<Rightarrow> DNS \<Rightarrow> 'w \<Rightarrow> error \<times> 'w" where
  "client_AddDNS N dns = (let dns = dns\<lparr>DNS_Meta := (DNS_Meta dns)\<lparr>Namespace := in_namespace (Namespace (DNS_Meta dns))\<rparr>\<rparr> in
     call_add N (POST_DNS (Namespace (DNS_Meta dns)) (Some (wire_DNS dns))) StatusCreated
       (\<lambda>b. case b of DataDNS _ \<Rightarrow> Some () | _ \<Rightarrow> None) ''add dns error: '')"

definition client_DeleteDNS :: "'w net \<Rightarrow> string \<Rightarrow> string \<Rightarrow> 'w \<Rightarrow> error \<times> 'w" where
  "client_DeleteDNS N name namespace = call_add N (\<lambda>_ _. DELETE_DNS namespace name) StatusOK
     (\<lambda>b. case b of DataDNS _ \<Rightarrow> Some () | _ \<Rightarrow> None) ''delete dns error: ''"

section \<open>Nodes\<close>

definition client_GetAllNodes :: "'w net \<Rightarrow> 'w \<Rightarrow> (Node list \<times> error) \<times> 'w" where
  "client_GetAllNodes N = call_data N (\<lambda>_ _. GET_AllNodes) StatusOK []
     (\<lambda>b. case b of DataNodes xs \<Rightarrow> Some (map wire_Node xs) | _ \<Rightarrow> None) ''get nodes failed, error: ''"

definition client_AddPodToNode :: "'w net \<Rightarrow> Pod \<Rightarrow> Node \<Rightarrow> 'w \<Rightarrow> error \<times> 'w" where
  "client_AddPodToNode N pod node = call_status N
     (\<lambda>_ _. POST_Schedule (MetaUID (Pod_Meta pod)) (Name (Node_Meta node))) StatusOK ''add pod to node error: ''"

section \<open>Services\<close>

definition client_GetAllServices :: "'w net \<Rightarrow> 'w \<Rightarrow> (Service list \<times> error) \<times> 'w" where
  "client_GetAllServices N = call_data N (\<lambda>_ _. GET_AllServices) StatusOK []
     (\<lambda>b. case b of DataServices xs \<Rightarrow> Some (map wire_Service xs) | _ \<Rightarrow> None) ''get services failed, error: ''"

definition client_GetService :: "'w net \<Rightarrow> string \<Rightarrow> string \<Rightarrow> 'w \<Rightarrow> (Service option \<times> error) \<times> 'w" where
  "client_GetService N name namespace = call_data N (\<lambda>_ _. NoRoute) StatusOK None (\<lambda>_. None) ''get service error: ''"

definition client_AddService :: "'w net \<Rightarrow> Service \<Rightarrow> 'w \<Rightarrow> error \<times> 'w" where
  "client_AddService N service = (let service = service\<lparr>Svc_Meta := (Svc_Meta service)\<lparr>Namespace := in_namespace (Namespace (Svc_Meta service))\<rparr>\<rparr> in
     call_add N (POST_Service (Namespace (Svc_Meta service)) (Some (wire_Service service))) StatusCreated
       (\<lambda>b. case b of DataService _ \<Rightarrow> Some () | _ \<Rightarrow> None) ''add service error: '')"

definition client_DeleteService :: "'w net \<Rightarrow> string \<Rightarrow> string \<Rightarrow> 'w \<Rightarrow> error \<times> 'w" where
  "client_DeleteService N name namespace = call_add N (\<lambda>_ _. DELETE_Service namespace name) StatusOK
     (\<lambda>b. case b of DataService _ \<Rightarrow> Some () | _ \<Rightarrow> None) ''delete service error: ''"

section \<open>Replica sets\<close>

definition client_GetAllReplicaSets :: "'w net \<Rightarrow> 'w \<Rightarrow> (ReplicaSet list \<times> error) \<times> 'w" where
  "client_GetAllReplicaSets N = call_data N (\<lambda>_ _. GET_AllReplicaSets) StatusOK []
     (\<lambda>b. case b of DataReplicaSets xs \<Rightarrow> Some (map wire_ReplicaSet xs) | _ \<Rightarrow> None) ''get replica sets failed, error: ''"

text \<open>Here the data is a struct, not a pointer: a reply without data gives the zero value.\<close>

definition client_GetReplicaSet :: "'w net \<Rightarrow> string \<Rightarrow> string \<Rightarrow> 'w \<Rightarrow> (ReplicaSet option \<times> error) \<times> 'w" where
  "client_GetReplicaSet N name namespace = call_data N (\<lambda>_ _. GET_ReplicaSet namespace name) StatusOK (Some zero_ReplicaSet)
     (\<lambda>b. case b of DataReplicaSet x \<Rightarrow> Some (Some (wire_ReplicaSet x)) | _ \<Rightarrow> None) ''get replica set error: ''"

definition client_AddReplicaSet :: "'w net \<Rightarrow> ReplicaSet \<Rightarrow> 'w \<Rightarrow> error \<times> 'w" where
  "client_AddReplicaSet N rps = (let rps = rps\<lparr>RS_Meta := (RS_Meta rps)\<lparr>Namespace := in_namespace (Namespace (RS_Meta rps))\<rparr>\<rparr> in
     call_add N (POST_ReplicaSet (Some (wire_ReplicaSet rps))) StatusCreated (\<lambda>_. None) ''add replica set error: '')"

definition client_DeleteReplicaSet :: "'w net \<Rightarrow> string \<Rightarrow> string \<Rightarrow> 'w \<Rightarrow> error \<times> 'w" where
  "client_DeleteReplicaSet N name namespace = call_add N (\<lambda>_ _. DELETE_ReplicaSet namespace name) StatusOK
     (\<lambda>b. case b of DataReplicaSet _ \<Rightarrow> Some () | _ \<Rightarrow> None) ''delete replica set error: ''"

definition client_UpdateReplicaSet :: "'w net \<Rightarrow> string \<Rightarrow> string \<Rightarrow> int \<Rightarrow> 'w \<Rightarrow> error \<times> 'w" where
  "client_UpdateReplicaSet N name namespace repNum = call_status N
     (\<lambda>_ _. PUT_ReplicaSet namespace name (dec_int repNum)) StatusOK ''update replica set error: ''"

section \<open>Autoscalers\<close>

definition client_GetAllHPAScalers :: "'w net \<Rightarrow> 'w \<Rightarrow> (HorizontalPodAutoscaler list \<times> error) \<times> 'w" where
  "client_GetAllHPAScalers N = call_data N (\<lambda>_ _. GET_AllScaling) StatusOK []
     (\<lambda>b. case b of DataHPAs xs \<Rightarrow> Some (map wire_HPA xs) | _ \<Rightarrow> None) ''get hpa scalers failed, error: ''"

definition client_GetHPAScaler :: "'w net \<Rightarrow> string \<Rightarrow> string \<Rightarrow> 'w \<Rightarrow> (HorizontalPodAutoscaler option \<times> error) \<times> 'w" where
  "client_GetHPAScaler N name namespace = call_data N (\<lambda>_ _. NoRoute) StatusOK None (\<lambda>_. None) ''get hpa scaler error: ''"

definition client_AddHPAScaler :: "'w net \<Rightarrow> HorizontalPodAutoscaler \<Rightarrow> 'w \<Rightarrow> error \<times> 'w" where
  "client_AddHPAScaler N hpa = (let hpa = hpa\<lparr>HPA_Meta := (HPA_Meta hpa)\<lparr>Namespace := in_namespace (Namespace (HPA_Meta hpa))\<rparr>\<rparr> in
     call_add N (\<lambda>uuid now. POST_Scaling (Some (wire_HPA hpa)) now uuid) StatusCreated
       (\<lambda>b. case b of DataHPA _ \<Rightarrow> Some () | _ \<Rightarrow> None) ''add hpa scaler error: '')"

definition client_DeleteHPAScaler :: "'w net \<Rightarrow> string \<Rightarrow> string \<Rightarrow> 'w \<Rightarrow> error \<times> 'w" where
  "client_DeleteHPAScaler N name namespace = call_add N (\<lambda>_ _. DELETE_Scaling namespace name) StatusOK
     (\<lambda>b. case b of DataHPA _ \<Rightarrow> Some () | _ \<Rightarrow> None) ''delete hpa scaler error: ''"

section \<open>Metrics\<close>

text \<open>
  The time stamp is written with eight digits after the point. \<open>GetPodMetrics\<close> reads the body of the
  response before it looks at the error of the round trip: after a failed one it dereferences nil.
\<close>

definition client_UploadPodMetrics :: "'w net \<Rightarrow> PodRawMetrics list \<Rightarrow> 'w \<Rightarrow> error \<times> 'w" where
  "client_UploadPodMetrics N metrics w =
     (case stats_http N (POST_Stats (Some (map (\<lambda>p. Some (wire_Metrics p)) metrics))) w of
       (Inl e, w') \<Rightarrow> (Some e, w')
     | (Inr rs, w') \<Rightarrow> (if status_of rs \<noteq> StatusOK
         then Some (''upload metrics failed, statusCode: '' @ dec (status_of rs)) else None, w'))"

datatype 'a outcome = Returns 'a | Crashes

definition client_GetPodMetrics ::
    "'w net \<Rightarrow> UID \<times> time \<times> int \<Rightarrow> 'w \<Rightarrow> (PodRawMetrics option \<times> error) outcome \<times> 'w" where
  "client_GetPodMetrics N metricsQry w = (case metricsQry of (uid, timeStamp, window) \<Rightarrow>
     (case stats_http N (GET_Stats (Some (uid, timeStamp div 10 * 10, window))) w of
       (Inl e, w') \<Rightarrow> (Crashes, w')
     | (Inr rs, w') \<Rightarrow> (Returns (finish StatusOK None ''get pod metrics failed, error: ''
         (unmarshal_reply None (\<lambda>b. case b of DataMetrics p \<Rightarrow> Some (Some (wire_Metrics p)) | _ \<Rightarrow> None) rs) rs), w')))"

section \<open>The service mesh\<close>

definition client_GetSidecarMapping :: "'w net \<Rightarrow> 'w \<Rightarrow> (SidecarMapping \<times> error) \<times> 'w" where
  "client_GetSidecarMapping N = call_data N (\<lambda>_ _. GET_SidecarMapping) StatusOK []
     (\<lambda>b. case b of DataSidecarMapping m \<Rightarrow> Some m | _ \<Rightarrow> None) ''get sidecar mapping failed, error: ''"

definition client_AddSidecarMapping :: "'w net \<Rightarrow> SidecarMapping \<Rightarrow> 'w \<Rightarrow> error \<times> 'w" where
  "client_AddSidecarMapping N maps = call_status N (\<lambda>_ _. POST_SidecarMapping (Some maps)) StatusOK ''error: ''"

definition client_GetSidecarServiceNameMapping :: "'w net \<Rightarrow> 'w \<Rightarrow> (SidecarServiceNameMapping \<times> error) \<times> 'w" where
  "client_GetSidecarServiceNameMapping N = call_data N (\<lambda>_ _. GET_SidecarServiceNameMapping) StatusOK []
     (\<lambda>b. case b of DataSidecarServiceNameMapping m \<Rightarrow> Some m | _ \<Rightarrow> None) ''get sidecar service name mapping failed, error: ''"

definition client_GetAllVirtualServices :: "'w net \<Rightarrow> 'w \<Rightarrow> (VirtualService list \<times> error) \<times> 'w" where
  "client_GetAllVirtualServices N = call_data N (\<lambda>_ _. GET_AllVirtualServices) StatusOK []
     (\<lambda>b. case b of DataVirtualServices xs \<Rightarrow> Some (map wire_VirtualService xs) | _ \<Rightarrow> None) ''get virtual services failed, error: ''"

definition client_GetVirtualService :: "'w net \<Rightarrow> string \<Rightarrow> string \<Rightarrow> 'w \<Rightarrow> (VirtualService option \<times> error) \<times> 'w" where
  "client_GetVirtualService N name namespace = call_data N (\<lambda>_ _. NoRoute) StatusOK None (\<lambda>_. None) ''get virtual service error: ''"

definition client_AddVirtualService :: "'w net \<Rightarrow> VirtualService \<Rightarrow> 'w \<Rightarrow> error \<times> 'w" where
  "client_AddVirtualService N vs = call_decode N
     (\<lambda>uuid now. POST_VirtualService (Namespace (VS_Meta vs)) (Some (wire_VirtualService vs)) now uuid) StatusCreated
     (\<lambda>b. case b of DataVirtualService _ \<Rightarrow> Some () | _ \<Rightarrow> None) ''add virtual service error: ''"

definition client_DeleteVirtualServiceByNameNp :: "'w net \<Rightarrow> string \<Rightarrow> string \<Rightarrow> 'w \<Rightarrow> error \<times> 'w" where
  "client_DeleteVirtualServiceByNameNp N vsName nameSpace = call_status N
     (\<lambda>_ _. DELETE_VirtualService nameSpace vsName) StatusOK ''delete virtual service error: ''"

definition client_DeleteVirtualService :: "'w net \<Rightarrow> VirtualService \<Rightarrow> 'w \<Rightarrow> error \<times> 'w" where
  "client_DeleteVirtualService N vs = call_status N
     (\<lambda>_ _. DELETE_VirtualService (Namespace (VS_Meta vs)) (Name (VS_Meta vs))) StatusOK ''delete virtual service error: ''"

definition client_GetAllSubsets :: "'w net \<Rightarrow> 'w \<Rightarrow> (Subset list \<times> error) \<times> 'w" where
  "client_GetAllSubsets N = call_data N (\<lambda>_ _. GET_AllSubsets) StatusOK []
     (\<lambda>b. case b of DataSubsets xs \<Rightarrow> Some (map wire_Subset xs) | _ \<Rightarrow> None) ''get subsets failed, error: ''"

definition client_GetSubsetByName :: "'w net \<Rightarrow> string \<Rightarrow> string \<Rightarrow> 'w \<Rightarrow> (Subset option \<times> error) \<times> 'w" where
  "client_GetSubsetByName N name namespace = call_data N (\<lambda>_ _. GET_Subset namespace name) StatusOK None
     (\<lambda>b. case b of DataSubset x \<Rightarrow> Some (Some (wire_Subset x)) | _ \<Rightarrow> None) ''get virtual services failed, error: ''"

text \<open>\<open>AddSubset\<close> ignores the error of decoding.\<close>

definition client_AddSubset :: "'w net \<Rightarrow> Subset \<Rightarrow> 'w \<Rightarrow> error \<times> 'w" where
  "client_AddSubset N sset = call_status N
     (\<lambda>uuid now. POST_Subset (Namespace (Subset_Meta sset)) (Some (wire_Subset sset)) now uuid) StatusCreated ''add subset error: ''"

definition client_DeleteSubset :: "'w net \<Rightarrow> Subset \<Rightarrow> 'w \<Rightarrow> error \<times> 'w" where
  "client_DeleteSubset N sset = call_status N
     (\<lambda>_ _. DELETE_Subset (Namespace (Subset_Meta sset)) (Name (Subset_Meta sset))) StatusOK ''delete subset error: ''"

definition client_DeleteSubsetByNameNp :: "'w net \<Rightarrow> string \<Rightarrow> string \<Rightarrow> 'w \<Rightarrow> error \<times> 'w" where
  "client_DeleteSubsetByNameNp N subsetName nameSpace = call_status N
     (\<lambda>_ _. DELETE_Subset nameSpace subsetName) StatusOK ''delete subset error: ''"

definition client_GetAllRollingUpdates :: "'w net \<Rightarrow> 'w \<Rightarrow> (RollingUpdate list \<times> error) \<times> 'w" where
  "client_GetAllRollingUpdates N = call_data N (\<lambda>_ _. GET_AllRollingUpdates) StatusOK []
     (\<lambda>b. case b of DataRollingUpdates xs \<Rightarrow> Some (map wire_RollingUpdate xs) | _ \<Rightarrow> None) ''get rolling updates failed, error: ''"

definition client_AddRollingUpdate :: "'w net \<Rightarrow> RollingUpdate \<Rightarrow> 'w \<Rightarrow> error \<times> 'w" where
  "client_AddRollingUpdate N ru = (let ru = ru\<lparr>RU_Meta := (RU_Meta ru)\<lparr>Namespace := in_namespace (Namespace (RU_Meta ru))\<rparr>\<rparr> in
     call_decode N (\<lambda>uuid now. POST_RollingUpdate (Namespace (RU_Meta ru)) (Some (wire_RollingUpdate ru)) now uuid) StatusCreated
       (\<lambda>b. case b of DataRollingUpdate _ \<Rightarrow> Some () | _ \<Rightarrow> None) ''add rolling update error: '')"

definition client_DeleteRollingUpdate :: "'w net \<Rightarrow> string \<Rightarrow> string \<Rightarrow> 'w \<Rightarrow> error \<times> 'w" where
  "client_DeleteRollingUpdate N name namespace = call_decode N (\<lambda>_ _. DELETE_RollingUpdate namespace name) StatusOK
     (\<lambda>b. case b of DataRollingUpdate _ \<Rightarrow> Some () | _ \<Rightarrow> None) ''delete rolling update error: ''"

definition client_UpdateRollingUpdateStatus :: "'w net \<Rightarrow> string \<Rightarrow> string \<Rightarrow> RollingUpdatePhase \<Rightarrow> 'w \<Rightarrow> error \<times> 'w" where
  "client_UpdateRollingUpdateStatus N name namespace status = call_status N
     (\<lambda>_ _. POST_RollingUpdateStatus namespace name (Some status)) StatusOK ''update rolling update status error: ''"

section \<open>A network that connects to the server\<close>

lemma finish_error: "status_of rs \<noteq> st \<Longrightarrow> snd (finish st zero msg d rs) \<noteq> None"
  by (auto simp: finish_def split: sum.splits)

locale api_network =
  fixes N :: "'w net" and E :: "'v env" and state :: "'w \<Rightarrow> 'v"
  assumes http_law: "http N q w = (r, w') \<Longrightarrow>
      (\<exists>u t rs. serve E (q u t) (state w) = (rs, state w') \<and> (\<forall>rs'. r = Inr rs' \<longrightarrow> rs' = rs)) \<or>
      (\<exists>e. r = Inl e) \<and> state w' = state w"
    and stats_law: "stats_http N q' w = (r, w') \<Longrightarrow> state w' = state w"
begin

text \<open>What a call may do to the server: nothing, or serve requests.\<close>

definition acts :: "('w \<Rightarrow> 'a \<times> 'w) \<Rightarrow> bool" where
  "acts f \<longleftrightarrow> (\<forall>view h w. served E view h (state w) \<longrightarrow> (\<exists>h'. served E view h' (state (snd (f w)))))"

lemma actsD: "acts f \<Longrightarrow> served E view h (state w) \<Longrightarrow> \<exists>h'. served E view h' (state (snd (f w)))"
  by (simp add: acts_def)

lemma acts_http: "acts (http N q)"
  unfolding acts_def
proof (intro allI impI)
  fix view h w
  assume s: "served E view h (state w)"
  obtain r w' where r: "http N q w = (r, w')" by (cases "http N q w")
  from http_law [OF r] s show "\<exists>h'. served E view h' (state (snd (http N q w)))"
    using served.request [OF s] r by auto
qed

lemma NoRoute_fails: "snd (fst (call_data N (\<lambda>_ _. NoRoute) StatusOK zero data msg w)) \<noteq> None"
proof -
  obtain r w' where r: "http N (\<lambda>_ _. NoRoute) w = (r, w')" by fastforce
  show ?thesis
  proof (cases r)
    case (Inr rs)
    with http_law [OF r] have "status_of rs \<noteq> StatusOK" by (auto simp: reply_def status_of_def)
    then show ?thesis using finish_error [of rs StatusOK] by (simp add: call_data_def r Inr)
  qed (simp add: call_data_def r)
qed

lemma acts_stats: "acts (stats_http N q)"
  unfolding acts_def using stats_law by (metis prod.collapse)

lemma acts_return: "acts (\<lambda>w. (x, w))"
  by (auto simp: acts_def)

lemma acts_bind:
  assumes "acts f" "\<And>x. acts (g x)"
  shows "acts (\<lambda>w. case f w of (x, w') \<Rightarrow> g x w')"
  using assms unfolding acts_def by (metis case_prod_beta)

lemma acts_post: "acts f \<Longrightarrow> (\<And>w. snd (g w) = snd (f w)) \<Longrightarrow> acts g"
  by (simp add: acts_def)

lemma acts_calls:
  "acts (call_data N q expected zero data msg)" "acts (call_decode N q expected data' msg)"
  "acts (call_status N q expected msg)" "acts (call_add N q expected data' msg)"
  by (rule acts_post [OF acts_http [of q]]; simp add: call_data_def call_decode_def call_status_def call_add_def
      split: prod.split sum.split)+

lemma acts_client:
  "acts (client_GetAllPods N)" "acts (client_GetPod N name np)" "acts (client_AddPod N pod)"
  "acts (client_DeletePod N name np)" "acts (client_GetAllUnscheduledPods N)" "acts (client_GetAllDNS N)"
  "acts (client_GetAllNodes N)" "acts (client_AddPodToNode N pod node)" "acts (client_GetAllServices N)"
  "acts (client_GetAllReplicaSets N)" "acts (client_UpdateReplicaSet N name np n)"
  "acts (client_GetAllHPAScalers N)" "acts (client_AddSidecarMapping N maps)"
  "acts (client_GetAllVirtualServices N)" "acts (client_GetSubsetByName N name np)"
  "acts (client_AddVirtualService N vs)" "acts (client_DeleteVirtualService N vs)"
  "acts (client_AddSubset N sset)" "acts (client_DeleteSubset N sset)" "acts (client_GetAllRollingUpdates N)"
  "acts (client_UpdateRollingUpdateStatus N name np st)"
  by (simp_all add: client_GetAllPods_def client_GetPod_def client_AddPod_def client_DeletePod_def
    client_GetAllUnscheduledPods_def client_GetAllDNS_def client_GetAllNodes_def client_AddPodToNode_def
    client_GetAllServices_def client_GetAllReplicaSets_def client_UpdateReplicaSet_def client_GetAllHPAScalers_def
    client_AddSidecarMapping_def client_GetAllVirtualServices_def client_GetSubsetByName_def
    client_AddVirtualService_def client_DeleteVirtualService_def client_AddSubset_def client_DeleteSubset_def
    client_GetAllRollingUpdates_def client_UpdateRollingUpdateStatus_def Let_def acts_calls)

end

text \<open>Calls that get through.\<close>

locale reliable_network = api_network +
  assumes http_ok: "\<exists>rs. fst (http N q w) = Inr rs"
begin

lemma http_serves:
  obtains u t rs w' where "http N q w = (Inr rs, w')" "serve E (q u t) (state w) = (rs, state w')"
proof -
  obtain r w' where r: "http N q w = (r, w')" by (cases "http N q w")
  moreover obtain rs where "r = Inr rs" using http_ok [of q w] r by auto
  ultimately show ?thesis using http_law [OF r] that by auto
qed

end

text \<open>The server itself, with the source of its uuids and times, is such a network.\<close>

definition direct_net :: "'v env \<Rightarrow> (nat \<Rightarrow> UID \<times> time) \<Rightarrow> ('v \<times> nat \<times> metricsDb) net" where
  "direct_net E draw = \<lparr>
     http = (\<lambda>q (v, n, db). case draw n of (u, t) \<Rightarrow>
       (case serve E (q u t) v of (rs, v') \<Rightarrow> (Inr rs, (v', Suc n, db)))),
     stats_http = (\<lambda>q (v, n, db). case serve_stats q db of (rs, db') \<Rightarrow> (Inr rs, (v, n, db')))\<rparr>"

interpretation direct: reliable_network "direct_net E draw" E fst for E :: "'v env" and draw
proof
  fix q :: "UID \<Rightarrow> time \<Rightarrow> request" and q' w r w'
  show "http (direct_net E draw) q w = (r, w') \<Longrightarrow>
      (\<exists>u t rs. serve E (q u t) (fst w) = (rs, fst w') \<and> (\<forall>rs'. r = Inr rs' \<longrightarrow> rs' = rs)) \<or>
      (\<exists>e. r = Inl e) \<and> fst w' = fst w"
    by (cases w; cases "draw (fst (snd w))"; auto simp: direct_net_def split: prod.splits)
  show "stats_http (direct_net E draw) q' w = (r, w') \<Longrightarrow> fst w' = fst w"
    by (cases w) (auto simp: direct_net_def split: prod.splits)
  show "\<exists>rs. fst (http (direct_net E draw) q w) = Inr rs"
    by (cases w) (auto simp: direct_net_def split: prod.splits)
qed

section \<open>What the calls return\<close>

lemma wire_meta [simp]:
  "Pod_Meta (wire_Pod p) = norm_meta (Pod_Meta p)" "Node_Meta (wire_Node n) = norm_meta (Node_Meta n)"
  "Pod_Spec (wire_Pod p) = Pod_Spec p" "Pod_Status (wire_Pod p) = Pod_Status p"
  by (simp_all add: wire_defs)

lemma finish_ok: "finish st zero msg (unmarshal_reply zero data [Reply st b]) [Reply st b] = (x, None) \<longleftrightarrow>
    reply_data zero data b = Inr (x, '''') \<or> (\<exists>e. reply_data zero data b = Inr (x, e))"
  by (auto simp: finish_def unmarshal_reply_def status_of_def split: sum.splits)

lemma atoi_dec_int: "in_i64 i \<Longrightarrow> atoi (dec_int i) = Some i"
proof (cases "i < 0")
  case True
  assume "in_i64 i"
  with True dec_digits [of "nat (- i)"] show ?thesis
    by (simp add: dec_int_def atoi_def in_i64_def)
next
  case False
  assume "in_i64 i"
  with False atoi_dec [of "nat i"] show ?thesis by (simp add: dec_int_def in_i64_def)
qed

lemma in_i32_i64: "in_i32 i \<Longrightarrow> in_i64 i"
  by (simp add: in_i32_def in_i64_def)

context reliable_network
begin

lemma call_status_ok:
  assumes "call_status N q st msg w = (None, w')"
  obtains u t rs where "serve E (q u t) (state w) = (rs, state w')" "status_of rs = st"
proof -
  obtain u t rs w2 where h: "http N q w = (Inr rs, w2)" "serve E (q u t) (state w) = (rs, state w2)"
    by (rule http_serves)
  with assms have "w2 = w'" "status_of rs = st" by (auto simp: call_status_def split: if_splits)
  with h(2) that show ?thesis by blast
qed

lemma call_data_serves:
  obtains u t rs w' where "call_data N q st zero data msg w = (finish st zero msg (unmarshal_reply zero data rs) rs, w')"
    "serve E (q u t) (state w) = (rs, state w')"
proof -
  obtain u t rs w' where h: "http N q w = (Inr rs, w')" "serve E (q u t) (state w) = (rs, state w')"
    by (rule http_serves)
  from h(1) have "call_data N q st zero data msg w = (finish st zero msg (unmarshal_reply zero data rs) rs, w')"
    by (simp add: call_data_def)
  with h(2) that show ?thesis by blast
qed

end

context reliable_etcd
begin

lemma GetAllPods_spec:
  assumes "keyed typed (view w)"
  shows "wp view (GetAllPodsHandler E) w (\<lambda>rs V. \<exists>b ps. rs = [Reply StatusOK b] \<and>
    (b = DataPods ps \<or> b = NoData \<and> ps = []) \<and>
    set ps = {p. view w (pod_key (MetaUID (Pod_Meta p))) = Some (JPod p)})"
  unfolding GetAllPodsHandler_def
  by (intro wp_combinators rel; (use assms in simp)?)
    (auto dest!: all_pods_unmarshal [OF assms] simp: pod_key_def)

end

section \<open>Properties\<close>

text \<open>
  C15. Client and server together: when no call fails, the pods that the client returns are exactly
  those in the registry.
\<close>

theorem client_sees_all_pods:
  assumes "reliable_network N E state" "reliable_etcd E view" "well_served E view h (state w)"
  shows "\<exists>ps w'. client_GetAllPods N w = ((map wire_Pod ps, None), w') \<and>
    set ps = {p. view (state w) (pod_key (MetaUID (Pod_Meta p))) = Some (JPod p)}"
proof -
  have t: "keyed typed (view (state w))"
    using assms(2,3) by (metis etcd_server.served_typed reliable_etcd_def well_served_served)
  obtain u t rs w' where c: "client_GetAllPods N w = (finish StatusOK [] ''get pods failed, error: ''
        (unmarshal_reply [] (\<lambda>b. case b of DataPods xs \<Rightarrow> Some (map wire_Pod xs) | _ \<Rightarrow> None) rs) rs, w')"
    and s: "serve E GET_AllPods (state w) = (rs, state w')"
    unfolding client_GetAllPods_def by (rule reliable_network.call_data_serves [OF assms(1)])
  from wp_result [OF _ reliable_etcd.GetAllPods_spec [OF assms(2) t]] s obtain b ps where
    "rs = [Reply StatusOK b]" "b = DataPods ps \<or> b = NoData \<and> ps = []"
    "set ps = {p. view (state w) (pod_key (MetaUID (Pod_Meta p))) = Some (JPod p)}" by auto
  then show ?thesis using c
    by (intro exI [of _ ps] exI [of _ w']) (auto simp: finish_def unmarshal_reply_def reply_data_def status_of_def)
qed

definition demo_draw :: "nat \<Rightarrow> UID \<times> time" where
  "demo_draw n = (''u'' @ dec n, int n)"

definition demo_net :: "((string, document) gomap \<times> nat \<times> metricsDb) net" where
  "demo_net = direct_net calm_env demo_draw"

definition demo_world :: "(string, document) gomap \<times> nat \<times> metricsDb" where
  "demo_world = (snd demo_run, 0, Map.empty)"

theorem client_sees_all_pods_witness:
  "\<exists>ps w'. client_GetAllPods demo_net demo_world = ((map wire_Pod ps, None), w') \<and>
    set ps = {p. map_of (fst demo_world) (pod_key (MetaUID (Pod_Meta p))) = Some (JPod p)}"
proof -
  have "well_served calm_env map_of (fst demo_run) (fst demo_world)"
    by (simp add: demo_run_served demo_world_def)
  with client_sees_all_pods [OF direct.reliable_network_axioms calm.reliable_etcd_axioms]
  show ?thesis unfolding demo_net_def by blast
qed

text \<open>
  The server has no route for a single service, DNS object, autoscaler or virtual service: these
  calls of the client always return an error.
\<close>

theorem client_single_reads_fail:
  assumes "api_network N E state"
  shows "snd (fst (client_GetService N name np w)) \<noteq> None \<and> snd (fst (client_GetDNS N name np w)) \<noteq> None \<and>
    snd (fst (client_GetHPAScaler N name np w)) \<noteq> None \<and> snd (fst (client_GetVirtualService N name np w)) \<noteq> None"
  unfolding client_GetService_def client_GetDNS_def client_GetHPAScaler_def client_GetVirtualService_def
  by (intro conjI api_network.NoRoute_fails [OF assms])

theorem client_single_reads_fail_witness:
  "snd (fst (client_GetService demo_net ''web'' ''default'' demo_world)) \<noteq> None"
  unfolding demo_net_def by (rule client_single_reads_fail [OF direct.api_network_axioms, THEN conjunct1])

text \<open>
  C16. When the client is told that a number of replicas, an \<open>int32\<close>, is stored, then the replica set of this namespace
  and name has exactly this number: its decimal form survives the way through the query string. Nothing else
  in the registry has changed.
\<close>

theorem client_replicas_stored:
  assumes "reliable_network N E state" "etcd_server E view" "in_i32 n"
    "client_UpdateReplicaSet N name np n w = (None, w')"
  shows "\<exists>d rps. view (state w) (ns_key np ''replicasets'' name) = Some d \<and>
    view (state w) (rs_key (text_of E d)) = Some (JReplicaSet rps) \<and>
    view (state w') = (view (state w))
      (rs_key (text_of E d) \<mapsto> json_doc (JReplicaSet (rps\<lparr>RS_Spec := (RS_Spec rps)\<lparr>Replicas := n\<rparr>\<rparr>)))"
proof -
  from assms(4) obtain u t rs where "serve E (PUT_ReplicaSet np name (dec_int n)) (state w) = (rs, state w')"
    "status_of rs = StatusOK"
    unfolding client_UpdateReplicaSet_def by (rule reliable_network.call_status_ok [OF assms(1)])
  then obtain m where "atoi (dec_int n) = Some m" "sets_replicas E np name (i32 m) (view (state w)) (view (state w'))"
    using wp_result [OF _ etcd_server.UpdateReplicaSet_sets [OF assms(2)]] by fastforce
  with atoi_dec_int [OF in_i32_i64 [OF assms(3)]] assms(3) show ?thesis by (auto simp: sets_replicas_def)
qed

text \<open>Two replica sets, of which the call changes one.\<close>

definition demo_rs_world :: "(string, document) gomap \<times> nat \<times> metricsDb" where
  "demo_rs_world = ([(''/registry/namespaces/default/replicasets/r'', Raw ''u''),
     (''/registry/replicaset/u'', JReplicaSet zero_ReplicaSet),
     (''/registry/namespaces/default/replicasets/q'', Raw ''v''), (''/registry/replicaset/v'', JReplicaSet zero_ReplicaSet)], 0, Map.empty)"

theorem client_replicas_stored_witness:
  "map_of (fst (snd (client_UpdateReplicaSet demo_net ''r'' ''default'' (- 3) demo_rs_world))) =
     (map_of (fst demo_rs_world))(rs_key ''u'' \<mapsto>
       json_doc (JReplicaSet (zero_ReplicaSet\<lparr>RS_Spec := (RS_Spec zero_ReplicaSet)\<lparr>Replicas := - 3\<rparr>\<rparr>)))"
proof -
  let ?call = "client_UpdateReplicaSet demo_net ''r'' ''default'' (- 3) demo_rs_world"
  have "in_i32 (- 3)" by code_simp
  moreover have "fst ?call = None" by code_simp
  then have "?call = (None, snd ?call)" by (metis prod.collapse)
  ultimately have "\<exists>d rps. map_of (fst demo_rs_world) (ns_key ''default'' ''replicasets'' ''r'') = Some d \<and>
    map_of (fst demo_rs_world) (rs_key (text_of calm_env d)) = Some (JReplicaSet rps) \<and>
    map_of (fst (snd ?call)) = (map_of (fst demo_rs_world))
      (rs_key (text_of calm_env d) \<mapsto> json_doc (JReplicaSet (rps\<lparr>RS_Spec := (RS_Spec rps)\<lparr>Replicas := - 3\<rparr>\<rparr>)))"
    unfolding demo_net_def
    by (rule client_replicas_stored [OF direct.reliable_network_axioms calm.etcd_server_axioms])
  moreover have "map_of (fst demo_rs_world) (ns_key ''default'' ''replicasets'' ''r'') = Some (Raw ''u'')"
    "map_of (fst demo_rs_world) (rs_key ''u'') = Some (JReplicaSet zero_ReplicaSet)" by code_simp+
  ultimately show ?thesis by auto
qed

end
