(* ===== verification/Scheduler.thy ===== *)
theory Scheduler
  imports Kube_Client
begin

text \<open>
  \<open>pkg/scheduler/scheduler.go\<close>: every second the scheduler asks for the pods that no node runs and assigns
  each to a node, in turn, at random, or to the first node with all the labels of the pod. An empty list
  of nodes arrives as nil, so the two are one here. The requests and limits of the containers are
  collected and ignored by the code; they are left out. The counter of assignments is unbounded here: it
  starts at 0 and would take \<open>2 ^ 63\<close> assignments to wrap.
  The random numbers are a parameter, as the network is.
\<close>

definition Round_Policy :: string where "Round_Policy = ''Round_Policy''"
definition Random_Policy :: string where "Random_Policy = ''Random_Policy''"
definition NodeAffinity_Policy :: string where "NodeAffinity_Policy = ''NodeAffinity_Policy''"

lemmas policy_defs = Round_Policy_def Random_Policy_def NodeAffinity_Policy_def

record scheduler =
  roundRobinCount :: nat
  policy :: string

section \<open>Choosing a node\<close>

definition nodesInRoundPolicy :: "Node list \<Rightarrow> scheduler \<Rightarrow> Node option \<times> scheduler" where
  "nodesInRoundPolicy nodes sc =
     (if nodes = [] then (None, sc)
      else (Some (nodes ! (roundRobinCount sc mod length nodes)), sc\<lparr>roundRobinCount := roundRobinCount sc + 1\<rparr>))"

definition nodesInRandomPolicy :: "(nat \<Rightarrow> 'w \<Rightarrow> nat \<times> 'w) \<Rightarrow> Node list \<Rightarrow> 'w \<Rightarrow> Node option \<times> 'w" where
  "nodesInRandomPolicy intn nodes w =
     (if nodes = [] then (None, w)
      else case intn (length nodes) w of (num, w') \<Rightarrow> (Some (nodes ! num), w'))"

definition labels_match :: "(string, string) gomap \<Rightarrow> Node \<Rightarrow> bool" where
  "labels_match labels node = (case Labels (Node_Meta node) of
     None \<Rightarrow> False
   | Some m \<Rightarrow> list_all (\<lambda>(key, x). map_of m key = Some x) labels)"

definition nodesInNodeAffinityPolicy ::
    "(nat \<Rightarrow> 'w \<Rightarrow> nat \<times> 'w) \<Rightarrow> Node list \<Rightarrow> Pod \<Rightarrow> 'w \<Rightarrow> Node option \<times> 'w" where
  "nodesInNodeAffinityPolicy intn nodes pod w = (case Labels (Pod_Meta pod) of
     None \<Rightarrow> nodesInRandomPolicy intn nodes w
   | Some labels \<Rightarrow> (case find (labels_match labels) nodes of
       None \<Rightarrow> nodesInRandomPolicy intn nodes w
     | Some node \<Rightarrow> (Some node, w)))"

lemma find_SomeD: "find P xs = Some x \<Longrightarrow> x \<in> set xs \<and> P x"
  by (auto simp: find_Some_iff)

section \<open>The loop\<close>

definition informPods :: "'w net \<Rightarrow> 'w \<Rightarrow> (Pod list \<times> error) \<times> 'w" where
  "informPods N = client_GetAllUnscheduledPods N"

definition informNodes :: "'w net \<Rightarrow> 'w \<Rightarrow> (Node list \<times> error) \<times> 'w" where
  "informNodes N = client_GetAllNodes N"

definition addPodToNode :: "'w net \<Rightarrow> Node option \<Rightarrow> Pod \<Rightarrow> 'w \<Rightarrow> error \<times> 'w" where
  "addPodToNode N node pod w = (case node of None \<Rightarrow> (None, w) | Some n \<Rightarrow> client_AddPodToNode N pod n w)"

text \<open>The body of the loop over the pods. An unknown policy assigns nothing.\<close>

definition place_pod :: "'w net \<Rightarrow> (nat \<Rightarrow> 'w \<Rightarrow> nat \<times> 'w) \<Rightarrow> Pod \<Rightarrow> scheduler \<Rightarrow> 'w \<Rightarrow> (error \<times> scheduler) \<times> 'w" where
  "place_pod N intn pod sc w = (case informNodes N w of ((nodes, err), w1) \<Rightarrow>
     if err \<noteq> None then ((err, sc), w1)
     else if policy sc = Round_Policy then
       (case nodesInRoundPolicy nodes sc of (node, sc') \<Rightarrow>
        case addPodToNode N node pod w1 of (err, w2) \<Rightarrow> ((err, sc'), w2))
     else if policy sc = Random_Policy then
       (case nodesInRandomPolicy intn nodes w1 of (node, w2) \<Rightarrow>
        case addPodToNode N node pod w2 of (err, w3) \<Rightarrow> ((err, sc), w3))
     else if policy sc = NodeAffinity_Policy then
       (case nodesInNodeAffinityPolicy intn nodes pod w1 of (node, w2) \<Rightarrow>
        case addPodToNode N node pod w2 of (err, w3) \<Rightarrow> ((err, sc), w3))
     else ((None, sc), w1))"

fun place_pods :: "'w net \<Rightarrow> (nat \<Rightarrow> 'w \<Rightarrow> nat \<times> 'w) \<Rightarrow> Pod list \<Rightarrow> scheduler \<Rightarrow> 'w \<Rightarrow> (error \<times> scheduler) \<times> 'w" where
  "place_pods N intn [] sc w = ((None, sc), w)"
| "place_pods N intn (pod # pods) sc w = (case place_pod N intn pod sc w of ((err, sc'), w') \<Rightarrow>
     if err \<noteq> None then ((err, sc'), w') else place_pods N intn pods sc' w')"

definition syncLoop :: "'w net \<Rightarrow> (nat \<Rightarrow> 'w \<Rightarrow> nat \<times> 'w) \<Rightarrow> scheduler \<Rightarrow> 'w \<Rightarrow> (error \<times> scheduler) \<times> 'w" where
  "syncLoop N intn sc w = (case informPods N w of ((pods, err), w1) \<Rightarrow>
     if err \<noteq> None then ((err, sc), w1) else place_pods N intn pods sc w1)"

text \<open>\<open>Run\<close> after at most \<open>fuel\<close> passes: still running (\<open>None\<close>) or stopped by an error. It never returns otherwise.\<close>

fun Run :: "'w net \<Rightarrow> (nat \<Rightarrow> 'w \<Rightarrow> nat \<times> 'w) \<Rightarrow> nat \<Rightarrow> scheduler \<Rightarrow> 'w \<Rightarrow> (error \<times> scheduler) \<times> 'w" where
  "Run N intn 0 sc w = ((None, sc), w)"
| "Run N intn (Suc fuel) sc w = (case syncLoop N intn sc w of ((err, sc'), w') \<Rightarrow>
     if err \<noteq> None then ((err, sc'), w') else Run N intn fuel sc' w')"

section \<open>The nodes that the server stores\<close>

definition stored_nodes :: "registry \<Rightarrow> Node set" where
  "stored_nodes V = {n. V (node_key (MetaUID (Node_Meta n))) = Some (JNode n)}"

definition nodes_default :: "string \<Rightarrow> document \<Rightarrow> bool" where
  "nodes_default k v \<longleftrightarrow> (\<forall>n. v = JNode n \<longrightarrow> Namespace (Node_Meta n) = Default_Namespace)"

lemma node_key_footprint:
  "node_key u \<in> footprint r \<longleftrightarrow> (\<exists>a b c d. r = POST_RegisterNode a b c d) \<or> (\<exists>n. r = POST_UnregisterNode n)"
  by (cases r) (auto split: option.splits)

lemma dec_no_slash: "CHR ''/'' \<notin> set (dec n)"
  using dec_digits [of n] by (auto simp: list_all_iff is_digit_def dest!: bspec)

lemma node_names_clean:
  assumes "n \<in> node_names"
  shows "n \<noteq> ''''" "no_slash n"
  using assms by (auto simp: node_names_def no_slash_def NodePrefix_def dec_no_slash)

context etcd_server
begin

lemma RegisterNode_default: "keeps view nodes_default (RegisterNodeHandler E req address uuid now)"
  unfolding RegisterNodeHandler_def
  by (intro keeps) (auto simp: nodes_default_def json_Marshal_def)

lemma serve_nodes_default:
  assumes "serve E r w = (rs, w')" "keyed typed (view w)" "keyed nodes_default (view w)"
  shows "keyed nodes_default (view w')"
proof (cases "(\<exists>a b c d. r = POST_RegisterNode a b c d) \<or> (\<exists>n. r = POST_UnregisterNode n)")
  case True
  then have "keeps view nodes_default (serve E r)"
    using RegisterNode_default keeps_UnregisterNode_entries [of nodes_default] by (auto simp: nodes_default_def)
  then show ?thesis using keeps_result [of "serve E r" w] assms(1,3) by blast
next
  case False
  have t: "keyed typed (view w')" using serve_typed [OF assms(1,2)] .
  show ?thesis
    unfolding keyed_def nodes_default_def
  proof (intro allI impI)
    fix k v n
    assume v: "view w' k = Some v" "v = JNode n"
    with t have "k = node_key (MetaUID (Node_Meta n))" using keyedD [OF t] typed.simps(5) by blast
    with False have "k \<notin> footprint r" by (simp add: node_key_footprint)
    with serve_frame [OF assms(1)] v have "view w k = Some (JNode n)" by simp
    with assms(3) show "Namespace (Node_Meta n) = Default_Namespace" by (auto simp: keyed_def nodes_default_def)
  qed
qed

lemma served_nodes_default: "served E view h w \<Longrightarrow> keyed nodes_default (view w)"
proof -
  assume "served E view h w"
  then have "keyed typed (view w) \<and> keyed nodes_default (view w)"
    by (induction rule: served.induct) (auto intro: serve_typed serve_nodes_default)
  then show ?thesis ..
qed

end

context reliable_etcd
begin

text \<open>Every stored node has one of the names of the pool.\<close>

lemma stored_node_names:
  assumes "well_served E view h w" "n \<in> stored_nodes (view w)"
  shows "Name (Node_Meta n) \<in> node_names"
proof -
  have ok: "nodes_ok (view w)" using well_served_indexed [OF assms(1)] by (simp add: registry_indexed_def)
  have "Namespace (Node_Meta n) = Default_Namespace"
    using served_nodes_default [OF well_served_served [OF assms(1)]] assms(2)
    by (auto simp: keyed_def nodes_default_def stored_nodes_def)
  with ok assms(2) have "Name (Node_Meta n) \<in> node_names_of (view w)"
    by (fastforce simp: nodes_ok_def index_ok_def stored_nodes_def node_names_of_def)
  with ok show ?thesis using node_pool.held_names
    by (auto simp: nodes_ok_def split: option.splits)
qed

text \<open>Listing the nodes.\<close>

lemma nodes_typed: "typed k v \<Longrightarrow> has_prefix ''/registry/nodes'' k \<Longrightarrow> \<exists>n. v = JNode n \<and> k = node_key (MetaUID (Node_Meta n))"
  by (cases v) (auto simp: typed.simps key_defs has_prefix_iff)

lemma set_insert_node [simp]: "set (insert_node n ns) = insert n (set ns)"
  by (induction n ns rule: insert_node.induct) auto

lemma set_sort_nodes [simp]: "set (sort_nodes ns) = set ns"
  by (induction ns) (auto simp: sort_nodes_def)

lemma all_nodes_unmarshal:
  assumes "keyed typed V" "\<forall>k v. (k, v) \<in> set m \<longleftrightarrow> has_prefix ''/registry/nodes'' k \<and> V k = Some v"
  shows "\<exists>ns. unmarshal_all json_Unmarshal_Node (map snd m) = Inr ns \<and> set ns = stored_nodes V"
proof -
  have "\<exists>ns. unmarshal_all json_Unmarshal_Node (map snd m) = Inr ns \<and>
      set ns = {p. \<exists>k. has_prefix ''/registry/nodes'' k \<and> V k = Some (JNode p)}"
    by (rule unmarshal_listing)
      (use assms in \<open>auto simp: json_Unmarshal_defs dest: keyedD nodes_typed\<close>)
  moreover have "(\<exists>k. has_prefix ''/registry/nodes'' k \<and> V k = Some (JNode p)) \<longleftrightarrow>
      V (node_key (MetaUID (Node_Meta p))) = Some (JNode p)" for p
    using keyedD [OF assms(1), of _ "JNode p"] by (auto simp: typed.simps node_key_def has_prefix_iff)
  ultimately show ?thesis by (simp add: stored_nodes_def)
qed

lemma GetAllNodes_spec:
  assumes "keyed typed (view w)"
  shows "wp view (GetAllNodesHandler E) w (\<lambda>rs V. V = view w \<and>
    (\<exists>ns. rs = [Reply StatusOK (DataNodes ns)] \<and> set ns = stored_nodes (view w)))"
  unfolding GetAllNodesHandler_def
  by (intro wp_combinators rel; simp; drule all_nodes_unmarshal [OF assms]; erule exE; simp)

lemma rel_delete_mappings:
  assumes "\<And>w'. view w' = without E u kvs (view w) \<Longrightarrow> wp view k w' Q"
  shows "wp view (delete_mappings E u kvs k) w Q"
  using assms
proof (induction kvs arbitrary: w)
  case (Cons e kvs)
  obtain key v where e: "e = (key, v)" by (cases e)
  have "wp view (Delete E key (\<lambda>err. if err \<noteq> None
        then reply StatusInternalServerError (Error ''error in deleting old node-pod mapping from etcd'')
        else delete_mappings E u kvs k)) w Q" if "text_of E v = u"
  proof (rule rel_Delete, simp, rule Cons.IH)
    fix w1 w2
    assume "view w1 = (view w)(key := None)" "view w2 = without E u kvs (view w1)"
    with e that show "wp view k w2 Q" by (intro Cons.prems) (simp add: without.simps)
  qed
  with e Cons show ?case by (auto simp: without.simps)
qed (simp add: without.simps)

end

text \<open>The entry of a pod on a node.\<close>

definition entry_name :: "Pod \<Rightarrow> string" where
  "entry_name p = Namespace (Pod_Meta p) @ ''_'' @ Name (Pod_Meta p)"

definition entry_key :: "string \<Rightarrow> Pod \<Rightarrow> string" where
  "entry_key node p = host_node_key node (''/'' @ entry_name p)"

lemma entry_key_eq:
  "no_slash n \<Longrightarrow> no_slash n' \<Longrightarrow> entry_key n p = entry_key n' p' \<longleftrightarrow> n = n' \<and> entry_name p = entry_name p'"
  by (auto simp: entry_key_def host_node_key_def no_slash_split)

text \<open>The entries that a pass may make.\<close>

definition entries :: "Node set \<Rightarrow> Pod list \<Rightarrow> string set" where
  "entries ns ps = {entry_key (Name (Node_Meta n)) p |n p. n \<in> ns \<and> p \<in> set ps}"

lemma entry_fresh:
  assumes "\<forall>n\<in>ns. no_slash (Name (Node_Meta n))" "n \<in> ns" "\<forall>q\<in>set ps. entry_name p \<noteq> entry_name q"
  shows "entry_key (Name (Node_Meta n)) p \<notin> entries ns ps"
  using assms entry_key_eq by (fastforce simp: entries_def)

context reliable_etcd
begin

lemma SchedulePod_ok:
  assumes "keyed typed (view w)" "view w (pod_key u) = Some (JPod p)" "u \<noteq> ''''" "node \<noteq> ''''"
  shows "wp view (SchedulePodToNodeHandler E u node) w (\<lambda>rs V. rs = [Reply StatusOK NoData] \<and>
    (\<forall>k. \<not> has_prefix ''/registry/host-nodes'' k \<longrightarrow> V k = view w k) \<and>
    assigned V u = {entry_key node p} \<and> (\<forall>u'. u' \<noteq> u \<longrightarrow> assigned V u' = assigned (view w) u' - {entry_key node p}))"
  unfolding SchedulePodToNodeHandler_def
  by (intro wp_combinators rel rel_delete_mappings; use assms in \<open>simp add: json_Unmarshal_defs assigned_insert assigned_without\<close>)
    (auto simp: without_apply entry_key_def entry_name_def assigned_def)

end

section \<open>A pass of the scheduler\<close>

lemma labels_match_wire: "labels \<noteq> [] \<Longrightarrow> labels_match labels (wire_Node n) \<longleftrightarrow> labels_match labels n"
  by (auto simp: labels_match_def norm_meta_def norm_map_def neq_Nil_conv split: option.splits)

definition unscheduled :: "registry \<Rightarrow> Pod \<Rightarrow> bool" where
  "unscheduled V p \<longleftrightarrow> V (pod_key (MetaUID (Pod_Meta p))) = Some (JPod p) \<and> assigned V (MetaUID (Pod_Meta p)) = {}"

text \<open>The scheduler with the server: a network that delivers, an etcd that works, indices in range.\<close>

locale scheduling = net: reliable_network N E state + etcd: reliable_etcd E view
  for N :: "'w net" and E :: "'v env" and state :: "'w \<Rightarrow> 'v" and view :: "'v \<Rightarrow> registry" +
  fixes intn :: "nat \<Rightarrow> 'w \<Rightarrow> nat \<times> 'w"
  assumes intn_law: "0 < n \<Longrightarrow> intn n w = (i, w') \<Longrightarrow> i < n \<and> state w' = state w"
begin

abbreviation stored :: "'w \<Rightarrow> registry" where
  "stored w \<equiv> view (state w)"

lemma informNodes_ok:
  assumes "keyed typed (stored w)"
  obtains ns w' where "informNodes N w = ((map wire_Node ns, None), w')" "set ns = stored_nodes (stored w)"
    "stored w' = stored w"
proof -
  obtain u t rs w' where c: "client_GetAllNodes N w = (finish StatusOK [] ''get nodes failed, error: ''
        (unmarshal_reply [] (\<lambda>b. case b of DataNodes xs \<Rightarrow> Some (map wire_Node xs) | _ \<Rightarrow> None) rs) rs, w')"
    and s: "serve E GET_AllNodes (state w) = (rs, state w')"
    unfolding client_GetAllNodes_def by (rule net.call_data_serves)
  from wp_result [OF _ etcd.GetAllNodes_spec [OF assms]] s obtain ns where
    "rs = [Reply StatusOK (DataNodes ns)]" "set ns = stored_nodes (stored w)" "stored w' = stored w" by auto
  with c show ?thesis
    by (intro that [of ns w']) (simp_all add: informNodes_def finish_def unmarshal_reply_def reply_data_def status_of_def)
qed

lemma AddPodToNode_ok:
  assumes "keyed typed (stored w)" "stored w (pod_key (MetaUID (Pod_Meta p))) = Some (JPod p)"
    "MetaUID (Pod_Meta p) \<noteq> ''''" "Name (Node_Meta n) \<noteq> ''''"
  obtains w' where "client_AddPodToNode N (wire_Pod p) (wire_Node n) w = (None, w')"
    "\<forall>k. \<not> has_prefix ''/registry/host-nodes'' k \<longrightarrow> stored w' k = stored w k"
    "assigned (stored w') (MetaUID (Pod_Meta p)) = {entry_key (Name (Node_Meta n)) p}"
    "\<forall>u. u \<noteq> MetaUID (Pod_Meta p) \<longrightarrow> assigned (stored w') u = assigned (stored w) u - {entry_key (Name (Node_Meta n)) p}"
    "keyed typed (stored w')"
proof -
  obtain u t rs w' where h: "http N (\<lambda>_ _. POST_Schedule (MetaUID (Pod_Meta p)) (Name (Node_Meta n))) w = (Inr rs, w')"
    and s: "serve E (POST_Schedule (MetaUID (Pod_Meta p)) (Name (Node_Meta n))) (state w) = (rs, state w')"
    by (rule net.http_serves [of "\<lambda>_ _. POST_Schedule (MetaUID (Pod_Meta p)) (Name (Node_Meta n))" w])
  from wp_result [OF _ etcd.SchedulePod_ok [OF assms]] s h show ?thesis
    by (intro that [of w'])
      (auto simp: client_AddPodToNode_def call_status_def status_of_def intro: etcd.serve_typed [OF s assms(1)])
qed

text \<open>Every policy picks one of the nodes and leaves the server alone.\<close>

lemma round_picks:
  assumes "nodesInRoundPolicy nodes sc = (node, sc')" "nodes \<noteq> []"
  obtains n where "node = Some n" "n \<in> set nodes" "policy sc' = policy sc"
  using assms by (auto simp: nodesInRoundPolicy_def)

lemma random_picks:
  assumes "nodesInRandomPolicy intn nodes w = (node, w')" "nodes \<noteq> []"
  obtains n where "node = Some n" "n \<in> set nodes" "state w' = state w"
  using assms intn_law [of "length nodes" w] by (auto simp: nodesInRandomPolicy_def split: prod.splits)

lemma affinity_picks:
  assumes "nodesInNodeAffinityPolicy intn nodes pod w = (node, w')" "nodes \<noteq> []"
  obtains n where "node = Some n" "n \<in> set nodes" "state w' = state w"
proof (cases "Labels (Pod_Meta pod)")
  case None
  with assms that show ?thesis by (auto simp: nodesInNodeAffinityPolicy_def elim: random_picks)
next
  case (Some labels)
  show ?thesis
  proof (cases "find (labels_match labels) nodes")
    case (Some n)
    with assms \<open>Labels (Pod_Meta pod) = Some labels\<close> find_SomeD [OF Some] that [of n] show ?thesis
      by (simp add: nodesInNodeAffinityPolicy_def)
  qed (use assms Some that in \<open>auto simp: nodesInNodeAffinityPolicy_def elim: random_picks\<close>)
qed

lemma place_pod_picks:
  assumes "keyed typed (stored w)" "stored_nodes (stored w) \<noteq> {}"
    "policy sc \<in> {Round_Policy, Random_Policy, NodeAffinity_Policy}"
  obtains n sc' w1 where "place_pod N intn pod sc w = (case client_AddPodToNode N pod (wire_Node n) w1 of (err, w2) \<Rightarrow> ((err, sc'), w2))"
    "n \<in> stored_nodes (stored w)" "policy sc' = policy sc" "stored w1 = stored w"
proof -
  obtain ns w1 where ns: "informNodes N w = ((map wire_Node ns, None), w1)" "set ns = stored_nodes (stored w)"
    "stored w1 = stored w" by (rule informNodes_ok [OF assms(1)])
  with assms(2) have ne: "map wire_Node ns \<noteq> []" by auto
  from assms(3) consider "policy sc = Round_Policy" | "policy sc = Random_Policy" | "policy sc = NodeAffinity_Policy"
    by auto
  then show ?thesis
  proof cases
    case 1
    obtain node sc' where p: "nodesInRoundPolicy (map wire_Node ns) sc = (node, sc')" by fastforce
    then obtain n where "node = Some (wire_Node n)" "n \<in> set ns" "policy sc' = policy sc"
      by (rule round_picks [OF _ ne]) auto
    with p 1 ns that [of sc' n w1] show ?thesis by (simp add: place_pod_def addPodToNode_def)
  next
    case 2
    obtain node w2 where p: "nodesInRandomPolicy intn (map wire_Node ns) w1 = (node, w2)" by fastforce
    then obtain n where "node = Some (wire_Node n)" "n \<in> set ns" "state w2 = state w1"
      by (rule random_picks [OF _ ne]) auto
    with p 2 ns that [of sc n w2] show ?thesis by (simp add: place_pod_def addPodToNode_def policy_defs)
  next
    case 3
    obtain node w2 where p: "nodesInNodeAffinityPolicy intn (map wire_Node ns) pod w1 = (node, w2)" by fastforce
    then obtain n where "node = Some (wire_Node n)" "n \<in> set ns" "state w2 = state w1"
      by (rule affinity_picks [OF _ ne]) auto
    with p 3 ns that [of sc n w2] show ?thesis by (simp add: place_pod_def addPodToNode_def policy_defs)
  qed
qed

lemma place_pod_ok:
  assumes "keyed typed (stored w)" "stored_nodes (stored w) \<noteq> {}"
    "policy sc \<in> {Round_Policy, Random_Policy, NodeAffinity_Policy}"
    "stored w (pod_key (MetaUID (Pod_Meta p))) = Some (JPod p)" "MetaUID (Pod_Meta p) \<noteq> ''''"
    "\<And>n. n \<in> stored_nodes (stored w) \<Longrightarrow> Name (Node_Meta n) \<noteq> ''''"
  obtains n sc' w' where "place_pod N intn (wire_Pod p) sc w = ((None, sc'), w')"
    "n \<in> stored_nodes (stored w)" "policy sc' = policy sc"
    "\<forall>k. \<not> has_prefix ''/registry/host-nodes'' k \<longrightarrow> stored w' k = stored w k"
    "assigned (stored w') (MetaUID (Pod_Meta p)) = {entry_key (Name (Node_Meta n)) p}"
    "\<forall>u. u \<noteq> MetaUID (Pod_Meta p) \<longrightarrow> assigned (stored w') u = assigned (stored w) u - {entry_key (Name (Node_Meta n)) p}"
    "keyed typed (stored w')"
proof -
  obtain n sc' w1 where 1: "place_pod N intn (wire_Pod p) sc w =
      (case client_AddPodToNode N (wire_Pod p) (wire_Node n) w1 of (err, w2) \<Rightarrow> ((err, sc'), w2))"
    "n \<in> stored_nodes (stored w)" "policy sc' = policy sc" "stored w1 = stored w"
    by (rule place_pod_picks [OF assms(1-3)])
  note a = AddPodToNode_ok [of w1 p n, unfolded 1(4), OF assms(1,4,5) assms(6) [OF 1(2)]]
  show ?thesis by (rule a) (rule that [OF _ 1(2,3)], use 1(1) in auto)
qed

text \<open>The pods of the pass, each with its own entry name, all end up on one node each.\<close>

lemma place_pods_ok:
  assumes "keyed typed (stored w)" "stored_nodes (stored w) = ns" "ns \<noteq> {}"
    "policy sc \<in> {Round_Policy, Random_Policy, NodeAffinity_Policy}"
    "\<forall>p\<in>set ps. stored w (pod_key (MetaUID (Pod_Meta p))) = Some (JPod p) \<and> MetaUID (Pod_Meta p) \<noteq> ''''"
    "\<forall>n\<in>ns. Name (Node_Meta n) \<noteq> '''' \<and> no_slash (Name (Node_Meta n))"
    "\<forall>p\<in>set ps. \<forall>q\<in>set ps. entry_name p = entry_name q \<longrightarrow> p = q"
  shows "\<exists>sc' w'. place_pods N intn (map wire_Pod ps) sc w = ((None, sc'), w') \<and>
    (\<forall>k. \<not> has_prefix ''/registry/host-nodes'' k \<longrightarrow> stored w' k = stored w k) \<and>
    (\<forall>p\<in>set ps. \<exists>n\<in>ns. assigned (stored w') (MetaUID (Pod_Meta p)) = {entry_key (Name (Node_Meta n)) p}) \<and>
    (\<forall>u. (\<forall>p\<in>set ps. MetaUID (Pod_Meta p) \<noteq> u) \<longrightarrow> assigned (stored w') u \<subseteq> assigned (stored w) u \<and>
      assigned (stored w) u - entries ns ps \<subseteq> assigned (stored w') u)"
  using assms
proof (induction ps arbitrary: sc w)
  case (Cons p ps)
  have pre: "stored_nodes (stored w) \<noteq> {}" "stored w (pod_key (MetaUID (Pod_Meta p))) = Some (JPod p)"
    "MetaUID (Pod_Meta p) \<noteq> ''''" "\<And>n. n \<in> stored_nodes (stored w) \<Longrightarrow> Name (Node_Meta n) \<noteq> ''''"
    using Cons.prems(2,3,5,6) by auto
  obtain n sc1 w1 where 1: "place_pod N intn (wire_Pod p) sc w = ((None, sc1), w1)"
    "n \<in> stored_nodes (stored w)" "policy sc1 = policy sc"
    "\<forall>k. \<not> has_prefix ''/registry/host-nodes'' k \<longrightarrow> stored w1 k = stored w k"
    "assigned (stored w1) (MetaUID (Pod_Meta p)) = {entry_key (Name (Node_Meta n)) p}"
    "\<forall>u. u \<noteq> MetaUID (Pod_Meta p) \<longrightarrow> assigned (stored w1) u = assigned (stored w) u - {entry_key (Name (Node_Meta n)) p}"
    and t: "keyed typed (stored w1)"
    by (rule place_pod_ok [OF Cons.prems(1) pre(1) Cons.prems(4) pre(2,3,4)])
  have ns: "stored_nodes (stored w1) = ns" using 1(4) Cons.prems(2) by (simp add: stored_nodes_def)
  obtain sc' w' where 2: "place_pods N intn (map wire_Pod ps) sc1 w1 = ((None, sc'), w')"
    "\<forall>k. \<not> has_prefix ''/registry/host-nodes'' k \<longrightarrow> stored w' k = stored w1 k"
    "\<forall>p\<in>set ps. \<exists>n\<in>ns. assigned (stored w') (MetaUID (Pod_Meta p)) = {entry_key (Name (Node_Meta n)) p}"
    "\<forall>u. (\<forall>p\<in>set ps. MetaUID (Pod_Meta p) \<noteq> u) \<longrightarrow> assigned (stored w') u \<subseteq> assigned (stored w1) u \<and>
      assigned (stored w1) u - entries ns ps \<subseteq> assigned (stored w') u"
  proof -
    have pol: "policy sc1 \<in> {Round_Policy, Random_Policy, NodeAffinity_Policy}" using 1(3) Cons.prems(4) by simp
    have st: "\<forall>q\<in>set ps. stored w1 (pod_key (MetaUID (Pod_Meta q))) = Some (JPod q) \<and> MetaUID (Pod_Meta q) \<noteq> ''''"
      using Cons.prems(5) 1(4) by simp
    have "\<forall>p\<in>set ps. \<forall>q\<in>set ps. entry_name p = entry_name q \<longrightarrow> p = q" using Cons.prems(7) by simp
    from Cons.IH [OF t ns Cons.prems(3) pol st Cons.prems(6) this] show ?thesis by (elim exE conjE) (rule that)
  qed
  have new: "\<exists>n\<in>ns. assigned (stored w') (MetaUID (Pod_Meta p)) = {entry_key (Name (Node_Meta n)) p}"
  proof (cases "\<exists>q\<in>set ps. MetaUID (Pod_Meta q) = MetaUID (Pod_Meta p)")
    case True
    then obtain q where q: "q \<in> set ps" "MetaUID (Pod_Meta q) = MetaUID (Pod_Meta p)" by blast
    with Cons.prems(5) have "stored w (pod_key (MetaUID (Pod_Meta p))) = Some (JPod q)" by (metis list.set_intros(2))
    with Cons.prems(5) have "q = p" by simp
    with q 2(3) show ?thesis by blast
  next
    case False
    then have "\<forall>q\<in>set ps. entry_name p \<noteq> entry_name q" using Cons.prems(7) by (metis list.set_intros)
    then have "entry_key (Name (Node_Meta n)) p \<notin> entries ns ps"
      using entry_fresh [of ns n ps p] Cons.prems(2,6) 1(2) by simp
    moreover have "assigned (stored w') (MetaUID (Pod_Meta p)) \<subseteq> assigned (stored w1) (MetaUID (Pod_Meta p))"
      "assigned (stored w1) (MetaUID (Pod_Meta p)) - entries ns ps \<subseteq> assigned (stored w') (MetaUID (Pod_Meta p))"
      using 2(4) False by blast+
    ultimately have "assigned (stored w') (MetaUID (Pod_Meta p)) = {entry_key (Name (Node_Meta n)) p}"
      using 1(5) by auto
    with 1(2) Cons.prems(2) show ?thesis by blast
  qed
  have "assigned (stored w') u \<subseteq> assigned (stored w) u \<and> assigned (stored w) u - entries ns (p # ps) \<subseteq> assigned (stored w') u"
    if "\<forall>q\<in>set (p # ps). MetaUID (Pod_Meta q) \<noteq> u" for u
  proof -
    have "assigned (stored w1) u = assigned (stored w) u - {entry_key (Name (Node_Meta n)) p}"
      using 1(6) that by (metis list.set_intros(1))
    moreover have "assigned (stored w') u \<subseteq> assigned (stored w1) u" "assigned (stored w1) u - entries ns ps \<subseteq> assigned (stored w') u"
      using 2(4) that by auto
    moreover have "entries ns ps \<union> {entry_key (Name (Node_Meta n)) p} \<subseteq> entries ns (p # ps)"
      using 1(2) Cons.prems(2) by (auto simp: entries_def)
    ultimately show ?thesis by blast
  qed
  with 1(1,4) 2(1-3) new show ?case by auto
qed simp

lemma informPods_ok:
  assumes "keyed typed (stored w)"
  obtains ps w' where "informPods N w = ((map wire_Pod ps, None), w')" "stored w' = stored w"
    "set ps = {p. stored w (pod_key (MetaUID (Pod_Meta p))) = Some (JPod p) \<and> assigned (stored w) (MetaUID (Pod_Meta p)) = {}}"
proof -
  obtain u t rs w' where c: "client_GetAllUnscheduledPods N w = (finish StatusOK [] ''get unscheduled pods failed, error: ''
        (unmarshal_reply [] (\<lambda>b. case b of DataPods xs \<Rightarrow> Some (map wire_Pod xs) | _ \<Rightarrow> None) rs) rs, w')"
    and s: "serve E GET_UnscheduledPods (state w) = (rs, state w')"
    unfolding client_GetAllUnscheduledPods_def by (rule net.call_data_serves)
  have "stored w' = stored w" using etcd.serve_frame [OF s] by (auto simp: fun_eq_iff)
  with wp_result [OF _ etcd.GetUnscheduled_spec [OF assms]] s c show ?thesis
    by (auto intro: that simp: informPods_def finish_def unmarshal_reply_def reply_data_def status_of_def)
qed

lemma pod_uid_nonempty:
  assumes "well_served E view h (state w)" "stored w (pod_key u) = Some x"
  shows "u \<noteq> ''''"
proof -
  have "index_ok ''pods'' pod_key (stored w)"
    using etcd.well_served_indexed [OF assms(1)] by (simp add: registry_indexed_def)
  with assms(2) show ?thesis unfolding index_ok_def by (metis document.inject(1) option.inject)
qed

lemma pass_complete:
  assumes "well_served E view h (state w)" "stored_nodes (stored w) \<noteq> {}"
    "policy sc \<in> {Round_Policy, Random_Policy, NodeAffinity_Policy}"
    and inj: "\<And>p q. unscheduled (stored w) p \<Longrightarrow> unscheduled (stored w) q \<Longrightarrow> entry_name p = entry_name q \<Longrightarrow> p = q"
  shows "\<exists>sc' w'. syncLoop N intn sc w = ((None, sc'), w') \<and>
    (\<forall>p. unscheduled (stored w) p \<longrightarrow> (\<exists>n\<in>stored_nodes (stored w).
      assigned (stored w') (MetaUID (Pod_Meta p)) = {entry_key (Name (Node_Meta n)) p}))"
proof -
  have t: "keyed typed (stored w)" using etcd.served_typed [OF well_served_served [OF assms(1)]] .
  obtain ps w1 where ps: "informPods N w = ((map wire_Pod ps, None), w1)" "stored w1 = stored w"
    "set ps = {p. unscheduled (stored w) p}"
    using informPods_ok [OF t] unfolding unscheduled_def by blast
  have st: "\<forall>p\<in>set ps. stored w1 (pod_key (MetaUID (Pod_Meta p))) = Some (JPod p) \<and> MetaUID (Pod_Meta p) \<noteq> ''''"
    using ps(2,3) pod_uid_nonempty [OF assms(1)] by (auto simp: unscheduled_def)
  have "\<forall>n\<in>stored_nodes (stored w). Name (Node_Meta n) \<noteq> '''' \<and> no_slash (Name (Node_Meta n))"
    using etcd.stored_node_names [OF assms(1)] node_names_clean by blast
  from place_pods_ok [of w1, unfolded ps(2), OF t refl assms(2,3) st [unfolded ps(2)] this] inj ps(3)
  obtain sc' w' where "place_pods N intn (map wire_Pod ps) sc w1 = ((None, sc'), w')"
    "\<forall>p\<in>set ps. \<exists>n\<in>stored_nodes (stored w). assigned (stored w') (MetaUID (Pod_Meta p)) = {entry_key (Name (Node_Meta n)) p}"
    by auto
  with ps show ?thesis by (simp add: syncLoop_def)
qed

lemma affinity_ok:
  assumes "well_served E view h (state w)" "policy sc = NodeAffinity_Policy"
    "stored w (pod_key (MetaUID (Pod_Meta p))) = Some (JPod p)" "Labels (Pod_Meta p) = Some labels" "labels \<noteq> []"
    "m \<in> stored_nodes (stored w)" "labels_match labels m"
  shows "\<exists>w' n. place_pod N intn (wire_Pod p) sc w = ((None, sc), w') \<and> n \<in> stored_nodes (stored w) \<and>
    labels_match labels n \<and> assigned (stored w') (MetaUID (Pod_Meta p)) = {entry_key (Name (Node_Meta n)) p}"
proof -
  have t: "keyed typed (stored w)" using etcd.served_typed [OF well_served_served [OF assms(1)]] .
  obtain ns w1 where ns: "informNodes N w = ((map wire_Node ns, None), w1)" "set ns = stored_nodes (stored w)"
    "stored w1 = stored w" by (rule informNodes_ok [OF t])
  obtain x where "find (labels_match labels) (map wire_Node ns) = Some x"
    using ns(2) assms(5-7) labels_match_wire [OF assms(5)] by (cases "find (labels_match labels) (map wire_Node ns)") (auto simp: find_None_iff)
  then obtain n where f: "find (labels_match labels) (map wire_Node ns) = Some (wire_Node n)" "n \<in> set ns" "labels_match labels n"
    using find_SomeD [of "labels_match labels" "map wire_Node ns" x] labels_match_wire [OF assms(5)] by auto
  have "Name (Node_Meta n) \<noteq> ''''"
    using etcd.stored_node_names [OF assms(1)] node_names_clean(1) f(2) ns(2) by blast
  note a = AddPodToNode_ok [of w1 p n, unfolded ns(3), OF t assms(3) pod_uid_nonempty [OF assms(1,3)] this]
  obtain w' where w': "client_AddPodToNode N (wire_Pod p) (wire_Node n) w1 = (None, w')"
    "assigned (stored w') (MetaUID (Pod_Meta p)) = {entry_key (Name (Node_Meta n)) p}" by (rule a)
  have "place_pod N intn (wire_Pod p) sc w = ((None, sc), w')"
    using ns(1) f(1) w'(1) assms(2,4,5)
    by (simp add: place_pod_def policy_defs nodesInNodeAffinityPolicy_def addPodToNode_def norm_meta_def norm_map_def)
  with f(2,3) w'(2) ns(2) show ?thesis by blast
qed

end

text \<open>Choosing in turn, \<open>k\<close> times.\<close>

fun round_choices :: "nat \<Rightarrow> Node list \<Rightarrow> scheduler \<Rightarrow> Node list" where
  "round_choices 0 nodes sc = []"
| "round_choices (Suc k) nodes sc = (case nodesInRoundPolicy nodes sc of
     (None, sc') \<Rightarrow> []
   | (Some n, sc') \<Rightarrow> n # round_choices k nodes sc')"

lemma round_choices_nth:
  "nodes \<noteq> [] \<Longrightarrow> round_choices k nodes sc = map (\<lambda>i. nodes ! ((roundRobinCount sc + i) mod length nodes)) [0..<k]"
proof (induction k arbitrary: sc)
  case (Suc k)
  have "[0..<Suc k] = 0 # map Suc [0..<k]" by (simp add: upt_conv_Cons map_Suc_upt del: upt_Suc)
  with Suc show ?case by (simp add: nodesInRoundPolicy_def del: upt_Suc)
qed simp

lemma residues_short:
  fixes c n j :: nat
  assumes "k \<le> n"
  shows "card {i. i < k \<and> (c + i) mod n = j} \<le> 1"
proof -
  have le: "i = i'" if "i \<le> i'" "i' < k" "(c + i) mod n = (c + i') mod n" for i i'
  proof -
    have "n dvd (c + i') - (c + i)" using that mod_eq_dvd_iff_nat [of "c + i" "c + i'" n] by simp
    with that(1,2) assms show ?thesis by (auto dest: dvd_imp_le)
  qed
  have "i = i'" if "i < k" "i' < k" "(c + i) mod n = j" "(c + i') mod n = j" for i i'
    using le [of i i'] le [of i' i] that by (cases "i \<le> i'") auto
  then have "\<forall>x\<in>{i. i < k \<and> (c + i) mod n = j}. \<forall>y\<in>{i. i < k \<and> (c + i) mod n = j}. x = y" by blast
  moreover have "finite {i. i < k \<and> (c + i) mod n = j}" by simp
  ultimately have "card {i. i < k \<and> (c + i) mod n = j} \<le> Suc 0" by (simp only: card_le_Suc0_iff_eq)
  then show ?thesis by simp
qed

lemma residues_round:
  fixes c n j :: nat
  assumes "j < n"
  shows "card {i. i < n \<and> (c + i) mod n = j} = 1"
proof -
  let ?i = "(j + n - c mod n) mod n"
  have "(c + ?i) mod n = (c mod n + (j + n - c mod n)) mod n" by (simp add: mod_add_left_eq mod_add_right_eq)
  also have "\<dots> = (j + n) mod n" using mod_less_divisor [of n c] assms by (simp add: less_imp_le trans_le_add2)
  finally have "(c + ?i) mod n = j" using assms by simp
  moreover have "?i < n" using assms by simp
  ultimately have "?i \<in> {i. i < n \<and> (c + i) mod n = j}" by blast
  then have "card {i. i < n \<and> (c + i) mod n = j} \<noteq> 0" by (metis card_eq_0_iff emptyE finite_Collect_conjI finite_Collect_less_nat)
  with residues_short [of n n c j] show ?thesis by linarith
qed

lemma residues_in_window:
  fixes c n j :: nat
  assumes "j < n"
  shows "k div n \<le> card {i. i < k \<and> (c + i) mod n = j} \<and> card {i. i < k \<and> (c + i) mod n = j} \<le> k div n + 1"
proof (induction k rule: less_induct)
  case (less k)
  show ?case
  proof (cases "k < n")
    case True
    then show ?thesis using residues_short [of k n c j] by simp
  next
    case False
    have "{i. i < k \<and> (c + i) mod n = j} =
        {i. i < n \<and> (c + i) mod n = j} \<union> (\<lambda>i. i + n) ` {i. i < k - n \<and> (c + i) mod n = j}"
    proof (intro set_eqI iffI)
      fix x assume x: "x \<in> {i. i < k \<and> (c + i) mod n = j}"
      show "x \<in> {i. i < n \<and> (c + i) mod n = j} \<union> (\<lambda>i. i + n) ` {i. i < k - n \<and> (c + i) mod n = j}"
      proof (cases "x < n")
        case ge: False
        then have "x = (x - n) + n" "x - n < k - n" using x by auto
        moreover have "(c + (x - n)) mod n = j" using x ge by (simp add: mod_if flip: Nat.add_diff_assoc)
        ultimately show ?thesis by blast
      qed (use x in simp)
    next
      fix x assume "x \<in> {i. i < n \<and> (c + i) mod n = j} \<union> (\<lambda>i. i + n) ` {i. i < k - n \<and> (c + i) mod n = j}"
      then show "x \<in> {i. i < k \<and> (c + i) mod n = j}" using False
        by (auto simp flip: add.assoc)
    qed
    then have "card {i. i < k \<and> (c + i) mod n = j} =
        card {i. i < n \<and> (c + i) mod n = j} + card ((\<lambda>i. i + n) ` {i. i < k - n \<and> (c + i) mod n = j})"
      by (simp only:) (rule card_Un_disjoint, auto)
    also have "\<dots> = 1 + card {i. i < k - n \<and> (c + i) mod n = j}"
      using residues_round [OF assms] by (simp add: card_image)
    finally have "card {i. i < k \<and> (c + i) mod n = j} = 1 + card {i. i < k - n \<and> (c + i) mod n = j}" .
    moreover have "k div n = (k - n) div n + 1" using False assms by (simp add: le_div_geq)
    ultimately show ?thesis using less.IH [of "k - n"] False assms by simp
  qed
qed

lemma count_list_upt: "count_list (map f [0..<k]) x = card {i. i < k \<and> f i = x}"
proof (induction k)
  case (Suc k)
  have "{i. i < Suc k \<and> f i = x} = {i. i < k \<and> f i = x} \<union> (if f k = x then {k} else {})"
    by (auto simp: less_Suc_eq)
  with Suc show ?case by simp
qed simp

lemma round_choices_count:
  assumes "distinct nodes" "n \<in> set nodes"
  shows "k div length nodes \<le> count_list (round_choices k nodes sc) n \<and>
    count_list (round_choices k nodes sc) n \<le> k div length nodes + 1"
proof -
  obtain j where j: "j < length nodes" "nodes ! j = n" using assms(2) by (auto simp: in_set_conv_nth)
  then have ne: "nodes \<noteq> []" by auto
  have "nodes ! ((roundRobinCount sc + i) mod length nodes) = n \<longleftrightarrow> (roundRobinCount sc + i) mod length nodes = j" for i
    using nth_eq_iff_index_eq [OF assms(1), of "(roundRobinCount sc + i) mod length nodes" j] j ne by simp
  then show ?thesis using residues_in_window [OF j(1), of k "roundRobinCount sc"]
    by (simp add: round_choices_nth [OF ne] count_list_upt)
qed

section \<open>Properties\<close>

text \<open>
  C17. A pass of the scheduler, client and server together: when no call fails, there is a node, and no two
  unscheduled pods share the text namespace_name, the pass ends without an error and afterwards every
  pod that was unscheduled is on exactly one of the stored nodes, whatever the policy.
\<close>

theorem scheduler_pass_complete:
  assumes "scheduling N E state view intn" "well_served E view h (state w)"
    "stored_nodes (view (state w)) \<noteq> {}" "policy sc \<in> {Round_Policy, Random_Policy, NodeAffinity_Policy}"
    "\<And>p q. unscheduled (view (state w)) p \<Longrightarrow> unscheduled (view (state w)) q \<Longrightarrow> entry_name p = entry_name q \<Longrightarrow> p = q"
  shows "\<exists>sc' w'. syncLoop N intn sc w = ((None, sc'), w') \<and>
    (\<forall>p. unscheduled (view (state w)) p \<longrightarrow> (\<exists>n\<in>stored_nodes (view (state w)).
      assigned (view (state w')) (MetaUID (Pod_Meta p)) = {entry_key (Name (Node_Meta n)) p}))"
  using assms(2-5) by (rule scheduling.pass_complete [OF assms(1)])

definition demo_intn :: "nat \<Rightarrow> 'w \<Rightarrow> nat \<times> 'w" where
  "demo_intn n w = (0, w)"

definition demo_node :: Node where
  "demo_node = \<lparr>Node_Type = \<lparr>Kind = ''Node'', APIVersion = ''v1''\<rparr>,
     Node_Meta = \<lparr>Name = ''node-0'', Namespace = ''default'', MetaUID = ''n1'', CreationTimestamp = 1, Labels = None\<rparr>,
     Address = ''10.0.0.1''\<rparr>"

interpretation direct_scheduling: scheduling "direct_net calm_env draw" calm_env fst map_of demo_intn for draw
  by unfold_locales (auto simp: demo_intn_def)

theorem scheduler_pass_complete_witness:
  "\<exists>sc' w'. syncLoop demo_net demo_intn \<lparr>roundRobinCount = 0, policy = Round_Policy\<rparr> demo_world = ((None, sc'), w') \<and>
    (\<forall>p. unscheduled (map_of (fst demo_world)) p \<longrightarrow> (\<exists>n\<in>stored_nodes (map_of (fst demo_world)).
      assigned (map_of (fst w')) (MetaUID (Pod_Meta p)) = {entry_key (Name (Node_Meta n)) p}))"
  unfolding demo_net_def
proof (rule scheduler_pass_complete [OF direct_scheduling.scheduling_axioms])
  show "well_served calm_env map_of (fst demo_run) (fst demo_world)"
    by (simp add: demo_run_served demo_world_def)
  have "map_of (fst demo_world) (node_key ''n1'') = Some (JNode demo_node)" by code_simp
  then have "demo_node \<in> stored_nodes (map_of (fst demo_world))" by (simp add: stored_nodes_def demo_node_def)
  then show "stored_nodes (map_of (fst demo_world)) \<noteq> {}" by blast
  let ?pods = "[p. (k, JPod p) \<leftarrow> fst demo_world]"
  have "distinct (map entry_name ?pods)" by code_simp
  moreover have "p \<in> set ?pods" if "unscheduled (map_of (fst demo_world)) p" for p
    using that map_of_SomeD by (fastforce simp: unscheduled_def)
  ultimately show "p = q" if "unscheduled (map_of (fst demo_world)) p" "unscheduled (map_of (fst demo_world)) q"
    "entry_name p = entry_name q" for p q
    using that by (meson distinct_map inj_onD)
qed simp

text \<open>
  C18. Taking turns is fair: of \<open>k\<close> assignments over the same nodes, each node gets \<open>k div n\<close> or one more.
\<close>

theorem round_robin_fair:
  assumes "distinct nodes" "n \<in> set nodes"
  shows "count_list (round_choices k nodes sc) n \<in> {k div length nodes, k div length nodes + 1}"
  using round_choices_count [OF assms, of k sc] by auto

theorem round_robin_fair_witness:
  "count_list (round_choices 5 [zero_Node, demo_node] \<lparr>roundRobinCount = 1, policy = Round_Policy\<rparr>) demo_node \<in>
     {5 div length [zero_Node, demo_node], 5 div length [zero_Node, demo_node] + 1}"
proof (rule round_robin_fair)
  show "distinct [zero_Node, demo_node]" by code_simp
qed simp

text \<open>
  C19. With the affinity policy a pod with labels is assigned to a node that has all of them, whenever a stored
  node does.
\<close>

theorem affinity_respected:
  assumes "scheduling N E state view intn" "well_served E view h (state w)" "policy sc = NodeAffinity_Policy"
    "view (state w) (pod_key (MetaUID (Pod_Meta p))) = Some (JPod p)" "Labels (Pod_Meta p) = Some labels" "labels \<noteq> []"
    "m \<in> stored_nodes (view (state w))" "labels_match labels m"
  shows "\<exists>w' n. place_pod N intn (wire_Pod p) sc w = ((None, sc), w') \<and> n \<in> stored_nodes (view (state w)) \<and>
    labels_match labels n \<and> assigned (view (state w')) (MetaUID (Pod_Meta p)) = {entry_key (Name (Node_Meta n)) p}"
  using assms(2-8) by (rule scheduling.affinity_ok [OF assms(1)])

definition label_run :: "(request \<times> reply list) list \<times> (string, document) gomap" where
  "label_run = serve_all calm_env
     [POST_RegisterNode (Some zero_Node) ''10.0.0.1'' ''n1'' 1,
      POST_RegisterNode (Some (zero_Node\<lparr>Node_Meta := zero_ObjectMeta\<lparr>Labels := Some [(''app'', ''web'')]\<rparr>\<rparr>)) ''10.0.0.2'' ''n2'' 2,
      POST_Pod ''default'' (Some (demo_pod ''web'')) ''p1'' 3] ([], [])"

definition label_node :: Node where
  "label_node = \<lparr>Node_Type = \<lparr>Kind = ''Node'', APIVersion = ''v1''\<rparr>,
     Node_Meta = \<lparr>Name = ''node-1'', Namespace = ''default'', MetaUID = ''n2'', CreationTimestamp = 2,
       Labels = Some [(''app'', ''web'')]\<rparr>,
     Address = ''10.0.0.2''\<rparr>"

definition label_pod :: Pod where
  "label_pod = created_pod (demo_pod ''web'') ''default'' ''p1'' 3"

theorem affinity_respected_witness:
  "\<exists>w' n. place_pod demo_net demo_intn (wire_Pod (label_pod))
      \<lparr>roundRobinCount = 0, policy = NodeAffinity_Policy\<rparr> (snd label_run, 0, Map.empty) =
      ((None, \<lparr>roundRobinCount = 0, policy = NodeAffinity_Policy\<rparr>), w') \<and>
    n \<in> stored_nodes (map_of (snd label_run)) \<and> labels_match [(''app'', ''web'')] n \<and>
    assigned (map_of (fst w')) ''p1'' = {entry_key (Name (Node_Meta n)) (label_pod)}"
proof -
  have l: "well_all calm_env map_of
     [POST_RegisterNode (Some zero_Node) ''10.0.0.1'' ''n1'' 1,
      POST_RegisterNode (Some (zero_Node\<lparr>Node_Meta := zero_ObjectMeta\<lparr>Labels := Some [(''app'', ''web'')]\<rparr>\<rparr>)) ''10.0.0.2'' ''n2'' 2,
      POST_Pod ''default'' (Some (demo_pod ''web'')) ''p1'' 3] []" by code_simp
  have "well_served calm_env map_of (fst label_run) (snd label_run)"
    unfolding label_run_def by (rule well_served_run [OF _ l]) simp
  then have s: "well_served calm_env map_of (fst label_run) (fst (snd label_run, 0 :: nat, Map.empty :: metricsDb))" by simp
  have p: "map_of (fst (snd label_run, 0 :: nat, Map.empty :: metricsDb)) (pod_key (MetaUID (Pod_Meta label_pod))) = Some (JPod label_pod)"
    "Labels (Pod_Meta label_pod) = Some [(''app'', ''web'')]" "MetaUID (Pod_Meta label_pod) = ''p1''" by code_simp+
  have "map_of (snd label_run) (node_key ''n2'') = Some (JNode label_node)" by code_simp
  then have n: "label_node \<in> stored_nodes (map_of (fst (snd label_run, 0 :: nat, Map.empty :: metricsDb)))"
    "labels_match [(''app'', ''web'')] label_node"
    by (simp_all add: stored_nodes_def label_node_def labels_match_def)
  show ?thesis unfolding demo_net_def p(3) [symmetric]
    using affinity_respected [OF direct_scheduling.scheduling_axioms s _ p(1,2) _ n, of "\<lparr>roundRobinCount = 0, policy = NodeAffinity_Policy\<rparr>"]
    by simp
qed

text \<open>
  One failed request stops the scheduler for good: once a pass has ended with an error, no later pass
  happens, however long the program runs.
\<close>

theorem scheduler_stops_at_error:
  assumes "Run N intn k sc w = ((Some e, sc'), w')"
  shows "Run N intn (k + m) sc w = ((Some e, sc'), w')"
  using assms by (induction k arbitrary: sc w) (auto split: prod.splits if_splits)

definition down_net :: "'w net" where
  "down_net = \<lparr>http = (\<lambda>q w. (Inl ''connection refused'', w)), stats_http = (\<lambda>q w. (Inl ''connection refused'', w))\<rparr>"

theorem scheduler_stops_at_error_witness:
  "Run down_net demo_intn (1 + 2) \<lparr>roundRobinCount = 0, policy = Round_Policy\<rparr> () =
     ((Some ''connection refused'', \<lparr>roundRobinCount = 0, policy = Round_Policy\<rparr>), ())"
  by (rule scheduler_stops_at_error)
    (simp add: syncLoop_def informPods_def client_GetAllUnscheduledPods_def call_data_def down_net_def)

end
