(* ===== verification/Replicaset_Controller.thy ===== *)
theory Replicaset_Controller
  imports Scheduler
begin

text \<open>
  \<open>pkg/controller/replicaset/controller.go\<close>: every five seconds the controller lists the replica sets and the
  pods and, for each set, deletes the pods beyond the wanted number or starts the missing ones. The names
  it gives end in a uuid, which is a parameter like the network. Dereferencing the nil selector of a set
  crashes the program. Elements of the lists are never nil: they come from the server.
\<close>

section \<open>The controller\<close>

definition addPod :: "'w net \<Rightarrow> ('w \<Rightarrow> string \<times> 'w) \<Rightarrow> Pod \<Rightarrow> 'w \<Rightarrow> 'w" where
  "addPod N new_uuid pod w = (case new_uuid w of (uuid, w1) \<Rightarrow>
     let pod = pod\<lparr>Pod_Meta := (Pod_Meta pod)\<lparr>Name := Name (Pod_Meta pod) @ ''-'' @ uuid\<rparr>,
       Pod_Type := (Pod_Type pod)\<lparr>Kind := ''Pod''\<rparr>\<rparr>
     in snd (client_AddPod N pod w1))"

definition deletePod :: "'w net \<Rightarrow> string \<Rightarrow> string \<Rightarrow> 'w \<Rightarrow> 'w" where
  "deletePod N name namespace w = snd (client_DeletePod N name namespace w)"

text \<open>A key that a pod lacks reads as the empty string.\<close>

definition belongs :: "LabelSelector \<Rightarrow> (string, string) gomap \<Rightarrow> bool" where
  "belongs sel labels = (case MatchLabels sel of None \<Rightarrow> True
     | Some m \<Rightarrow> list_all (\<lambda>(k, v). mget labels k = v) m)"

fun match_pods :: "LabelSelector option \<Rightarrow> Pod list \<Rightarrow> Pod list outcome" where
  "match_pods sel [] = Returns []"
| "match_pods sel (pod # pods) = (case Labels (Pod_Meta pod) of
     None \<Rightarrow> match_pods sel pods
   | Some labels \<Rightarrow> (case sel of
       None \<Rightarrow> Crashes
     | Some s \<Rightarrow> (case match_pods sel pods of
         Crashes \<Rightarrow> Crashes
       | Returns podBelonged \<Rightarrow> Returns (if belongs s labels then pod # podBelonged else podBelonged))))"

definition oneReplicaSetMatch :: "ReplicaSet \<Rightarrow> Pod list \<Rightarrow> Pod list outcome" where
  "oneReplicaSetMatch rep allPods = match_pods (RS_Selector (RS_Spec rep)) allPods"

definition active :: "Pod \<Rightarrow> bool" where
  "active pod \<longleftrightarrow> Phase (Pod_Status pod) = PodRunning \<or> Phase (Pod_Status pod) = PodPending \<or>
     Phase (Pod_Status pod) = PodSucceeded"

text \<open>The loop with its two variables: from the pod at which the number is reached, all are deleted.\<close>

fun check_loop :: "'w net \<Rightarrow> int \<Rightarrow> Pod list \<Rightarrow> int \<Rightarrow> bool \<Rightarrow> 'w \<Rightarrow> (int \<times> bool) \<times> 'w" where
  "check_loop N wantedNum [] replicasNum stateMark w = ((replicasNum, stateMark), w)"
| "check_loop N wantedNum (pod # pods) replicasNum stateMark w =
     (let stateMark = (stateMark \<or> replicasNum = wantedNum) in
      if stateMark
      then check_loop N wantedNum pods replicasNum stateMark (deletePod N (Name (Pod_Meta pod)) (Namespace (Pod_Meta pod)) w)
      else check_loop N wantedNum pods (if active pod then replicasNum + 1 else replicasNum) stateMark w)"

definition oneReplicaSetCheck :: "'w net \<Rightarrow> Pod list \<Rightarrow> int \<Rightarrow> 'w \<Rightarrow> int \<times> 'w" where
  "oneReplicaSetCheck N allPodsMatch wanted w = (case check_loop N wanted allPodsMatch 0 False w of
     ((replicasNum, stateMark), w') \<Rightarrow> (if \<not> stateMark then wanted - replicasNum else 0, w'))"

definition template_pod :: "ReplicaSet \<Rightarrow> Pod" where
  "template_pod rep = zero_Pod\<lparr>Pod_Type := \<lparr>Kind = ''Pod'', APIVersion = ''v1''\<rparr>,
     Pod_Meta := Template_Meta (Template (RS_Spec rep)), Pod_Spec := Template_Spec (Template (RS_Spec rep))\<rparr>"

fun start_pods :: "'w net \<Rightarrow> ('w \<Rightarrow> string \<times> 'w) \<Rightarrow> ReplicaSet \<Rightarrow> nat \<Rightarrow> 'w \<Rightarrow> 'w" where
  "start_pods N new_uuid rep 0 w = w"
| "start_pods N new_uuid rep (Suc n) w = start_pods N new_uuid rep n (addPod N new_uuid (template_pod rep) w)"

text \<open>The body of the loop over the replica sets, the loop, and one round of \<open>syncReplicaSet\<close>: a failed listing counts as an empty one.\<close>

definition sync_set :: "'w net \<Rightarrow> ('w \<Rightarrow> string \<times> 'w) \<Rightarrow> Pod list \<Rightarrow> ReplicaSet \<Rightarrow> 'w \<Rightarrow> unit outcome \<times> 'w" where
  "sync_set N new_uuid allPods rep w = (case oneReplicaSetMatch rep allPods of
     Crashes \<Rightarrow> (Crashes, w)
   | Returns allPodsMatch \<Rightarrow> (case oneReplicaSetCheck N allPodsMatch (Replicas (RS_Spec rep)) w of
       (toStart, w1) \<Rightarrow> (Returns (), start_pods N new_uuid rep (nat toStart) w1)))"

fun sync_sets :: "'w net \<Rightarrow> ('w \<Rightarrow> string \<times> 'w) \<Rightarrow> Pod list \<Rightarrow> ReplicaSet list \<Rightarrow> 'w \<Rightarrow> unit outcome \<times> 'w" where
  "sync_sets N new_uuid allPods [] w = (Returns (), w)"
| "sync_sets N new_uuid allPods (rep # reps) w = (case sync_set N new_uuid allPods rep w of
     (Crashes, w') \<Rightarrow> (Crashes, w')
   | (Returns u, w') \<Rightarrow> sync_sets N new_uuid allPods reps w')"

definition syncReplicaSet :: "'w net \<Rightarrow> ('w \<Rightarrow> string \<times> 'w) \<Rightarrow> 'w \<Rightarrow> unit outcome \<times> 'w" where
  "syncReplicaSet N new_uuid w = (case client_GetAllReplicaSets N w of ((reps, err), w1) \<Rightarrow>
     case client_GetAllPods N w1 of ((allPods, err), w2) \<Rightarrow> sync_sets N new_uuid allPods reps w2)"

section \<open>What the pure parts compute\<close>

definition matches :: "LabelSelector \<Rightarrow> Pod \<Rightarrow> bool" where
  "matches s pod \<longleftrightarrow> (case Labels (Pod_Meta pod) of None \<Rightarrow> False | Some labels \<Rightarrow> belongs s labels)"

lemma match_pods_filter: "match_pods (Some s) pods = Returns (filter (matches s) pods)"
  by (induction pods) (auto simp: matches_def split: option.splits)

lemma match_pods_nil_selector:
  "match_pods None pods = (if \<exists>p\<in>set pods. Labels (Pod_Meta p) \<noteq> None then Crashes else Returns [])"
  by (induction pods) (auto split: option.splits)

definition delete_all :: "'w net \<Rightarrow> Pod list \<Rightarrow> 'w \<Rightarrow> 'w" where
  "delete_all N pods w = fold (\<lambda>pod. deletePod N (Name (Pod_Meta pod)) (Namespace (Pod_Meta pod))) pods w"

lemma check_loop_marked: "check_loop N n pods r True w = ((r, True), delete_all N pods w)"
  by (induction pods arbitrary: w) (auto simp: delete_all_def)

text \<open>The loop keeps a prefix with just the wanted number of active pods, and deletes the rest.\<close>

lemma check_loop_split:
  assumes "r \<le> n"
  obtains kept dropped where "pods = kept @ dropped"
    "check_loop N n pods r False w =
      ((r + int (length (filter active kept)), dropped \<noteq> []), delete_all N dropped w)"
    "r + int (length (filter active kept)) \<le> n"
    "dropped \<noteq> [] \<longrightarrow> r + int (length (filter active kept)) = n"
proof -
  have "\<exists>kept dropped. pods = kept @ dropped \<and>
    check_loop N n pods r False w =
      ((r + int (length (filter active kept)), dropped \<noteq> []), delete_all N dropped w) \<and>
    r + int (length (filter active kept)) \<le> n \<and> (dropped \<noteq> [] \<longrightarrow> r + int (length (filter active kept)) = n)"
    using assms
  proof (induction pods arbitrary: r w)
    case (Cons p pods)
    show ?case
    proof (cases "r = n")
      case True
      then show ?thesis
        by (intro exI [of _ "[]"] exI [of _ "p # pods"]) (simp add: check_loop_marked delete_all_def)
    next
      case False
      with Cons.prems have "(if active p then r + 1 else r) \<le> n" by simp
      from Cons.IH [OF this, of w] obtain kept dropped where k: "pods = kept @ dropped"
        "check_loop N n pods (if active p then r + 1 else r) False w =
          (((if active p then r + 1 else r) + int (length (filter active kept)), dropped \<noteq> []), delete_all N dropped w)"
        "(if active p then r + 1 else r) + int (length (filter active kept)) \<le> n"
        "dropped \<noteq> [] \<longrightarrow> (if active p then r + 1 else r) + int (length (filter active kept)) = n"
        by blast
      with False show ?thesis
        by (intro exI [of _ "p # kept"] exI [of _ dropped]) (auto simp: Let_def)
    qed
  qed (auto simp: delete_all_def)
  then show ?thesis using that by blast
qed

lemma oneReplicaSetCheck_split:
  assumes "0 \<le> wanted"
  obtains kept dropped where "pods = kept @ dropped"
    "oneReplicaSetCheck N pods wanted w = (wanted - int (length (filter active kept)), delete_all N dropped w)"
    "int (length (filter active kept)) \<le> wanted" "dropped \<noteq> [] \<longrightarrow> int (length (filter active kept)) = wanted"
proof -
  obtain kept dropped where "pods = kept @ dropped"
    "check_loop N wanted pods 0 False w = ((0 + int (length (filter active kept)), dropped \<noteq> []), delete_all N dropped w)"
    "0 + int (length (filter active kept)) \<le> wanted" "dropped \<noteq> [] \<longrightarrow> 0 + int (length (filter active kept)) = wanted"
    by (rule check_loop_split [OF assms])
  then show ?thesis by (intro that) (auto simp: oneReplicaSetCheck_def)
qed

section \<open>Fresh uuids\<close>

text \<open>The active pods of a selector.\<close>

definition live :: "LabelSelector \<Rightarrow> registry \<Rightarrow> UID set" where
  "live s V = {u. \<exists>p. V (pod_key u) = Some (JPod p) \<and> matches s (wire_Pod p) \<and> active p}"

text \<open>A uuid is new when no key ends in it.\<close>

definition fresh_uid :: "registry \<Rightarrow> string \<Rightarrow> bool" where
  "fresh_uid V u \<longleftrightarrow> u \<noteq> '''' \<and> (\<forall>a. V (a @ u) = None)"

lemma fresh_uid_keys:
  assumes "fresh_uid V u"
  shows "V (pod_key u) = None" "V (ns_key np kind (a @ ''-'' @ u)) = None" "u \<noteq> ''''"
proof -
  have "pod_key u = ''/registry/pods/'' @ u" by (simp add: pod_key_def)
  with assms show "V (pod_key u) = None" unfolding fresh_uid_def by metis
  have "ns_key np kind (a @ ''-'' @ u) = (''/registry/namespaces/'' @ np @ ''/'' @ kind @ ''/'' @ a @ ''-'') @ u"
    by (simp add: ns_key_def)
  with assms show "V (ns_key np kind (a @ ''-'' @ u)) = None" unfolding fresh_uid_def by metis
  show "u \<noteq> ''''" using assms by (simp add: fresh_uid_def)
qed

text \<open>Server, network and client draw new uuids.\<close>

locale fresh_network = reliable_network +
  fixes view :: "'b \<Rightarrow> registry" and new_uuid :: "'a \<Rightarrow> string \<times> 'a"
  assumes http_fresh: "http N q w = (Inr rs, w') \<Longrightarrow>
      \<exists>u t. serve E (q u t) (state w) = (rs, state w') \<and> fresh_uid (view (state w)) u"
    and uuid_law: "new_uuid w = (u, w') \<Longrightarrow> state w' = state w \<and> fresh_uid (view (state w)) u"

context fresh_network
begin

lemma http_serves_fresh:
  obtains u t rs w' where "http N q w = (Inr rs, w')" "serve E (q u t) (state w) = (rs, state w')"
    "fresh_uid (view (state w)) u"
proof -
  obtain r w' where r: "http N q w = (r, w')" by (cases "http N q w")
  moreover obtain rs where "r = Inr rs" using http_ok [of q w] r by auto
  ultimately show ?thesis using http_fresh that by blast
qed

end

context reliable_etcd
begin

lemma AddPod_creates:
  assumes "Name (Pod_Meta pod) \<noteq> ''''" "np \<noteq> ''''" "Namespace (Pod_Meta pod) = '''' \<and> np = Default_Namespace \<or> Namespace (Pod_Meta pod) = np"
    "view w (ns_key np ''pods'' (Name (Pod_Meta pod))) = None"
  shows "wp view (AddPodHandler E np (Some pod) uuid now) w (\<lambda>rs V. V = (view w)
    (ns_key np ''pods'' (Name (Pod_Meta pod)) \<mapsto> Raw uuid, pod_key uuid \<mapsto> JPod (created_pod pod np uuid now)))"
  unfolding AddPodHandler_def
  by (intro wp_combinators rel; (use assms in \<open>auto simp: created_pod_def\<close>)?)

end

text \<open>No pod is listed twice.\<close>

lemma unmarshal_pods: "unmarshal_all json_Unmarshal_Pod vs = Inr ps \<Longrightarrow> vs = map JPod ps"
proof (induction vs arbitrary: ps)
  case (Cons v vs)
  then show ?case by (auto simp: unmarshal_Some split: sum.splits prod.splits option.splits)
qed simp

lemma typed_pod_keys:
  "\<forall>k v. (k, v) \<in> set m \<longrightarrow> typed k v \<Longrightarrow> map snd m = map JPod ps \<Longrightarrow>
   map fst m = map (\<lambda>p. pod_key (MetaUID (Pod_Meta p))) ps"
  by (induction m arbitrary: ps) (auto simp: typed.simps)

lemma pods_listing_distinct:
  assumes "keyed typed V" "distinct (map fst m)"
    "\<forall>k v. (k, v) \<in> set m \<longleftrightarrow> has_prefix ''/registry/pods'' k \<and> V k = Some v"
  shows "\<exists>ps. unmarshal_all json_Unmarshal_Pod (map snd m) = Inr ps \<and> distinct (map (\<lambda>p. MetaUID (Pod_Meta p)) ps) \<and>
    set ps = {p. V (pod_key (MetaUID (Pod_Meta p))) = Some (JPod p)}"
proof -
  obtain ps where ps: "unmarshal_all json_Unmarshal_Pod (map snd m) = Inr ps"
    "set ps = {p. V (pod_key (MetaUID (Pod_Meta p))) = Some (JPod p)}"
    using all_pods_unmarshal [OF assms(1,3)] by blast
  have "map fst m = map pod_key (map (\<lambda>p. MetaUID (Pod_Meta p)) ps)"
    using typed_pod_keys [of m ps] unmarshal_pods [OF ps(1)] assms(1,3) by (simp add: keyed_def comp_def)
  with assms(2) have "distinct (map (\<lambda>p. MetaUID (Pod_Meta p)) ps)" by (metis distinct_map)
  with ps show ?thesis by blast
qed

context reliable_etcd
begin

lemma GetAllPods_distinct:
  assumes "keyed typed (view w)"
  shows "wp view (GetAllPodsHandler E) w (\<lambda>rs V. \<exists>b ps. rs = [Reply StatusOK b] \<and>
    (b = DataPods ps \<or> b = NoData \<and> ps = []) \<and> distinct (map (\<lambda>p. MetaUID (Pod_Meta p)) ps) \<and>
    set ps = {p. view w (pod_key (MetaUID (Pod_Meta p))) = Some (JPod p)})"
  unfolding GetAllPodsHandler_def
  by (intro wp_combinators rel; (use assms in simp)?)
    (auto dest!: pods_listing_distinct [OF assms] simp: pod_key_def)

end

lemma start_pods_cong: "(\<And>pod w. client_AddPod M pod w = client_AddPod N pod w) \<Longrightarrow> start_pods M new_uuid rep n w = start_pods N new_uuid rep n w"
  by (induction n arbitrary: w) (simp_all add: addPod_def)

text \<open>A network that loses the listings of the pods and is otherwise like another one.\<close>

definition loses_listings :: "'w net \<Rightarrow> 'w net \<Rightarrow> bool" where
  "loses_listings M N \<longleftrightarrow> (\<forall>q w. q \<noteq> (\<lambda>_ _. GET_AllPods) \<longrightarrow> http M q w = http N q w) \<and>
     (\<forall>w. \<exists>e. http M (\<lambda>_ _. GET_AllPods) w = (Inl e, w))"

lemma lost_listing:
  assumes "loses_listings M N"
  shows "\<exists>e. client_GetAllPods M w = (([], Some e), w)" "client_AddPod M pod w = client_AddPod N pod w"
    "client_GetAllReplicaSets M w = client_GetAllReplicaSets N w"
proof -
  show "\<exists>e. client_GetAllPods M w = (([], Some e), w)"
  proof -
    obtain e where "http M (\<lambda>_ _. GET_AllPods) w = (Inl e, w)" using assms unfolding loses_listings_def by blast
    then show ?thesis by (simp add: client_GetAllPods_def call_data_def)
  qed
  have "(\<lambda>u t. POST_Pod np p u t) \<noteq> (\<lambda>_ _. GET_AllPods)" for np p
    by (simp add: fun_eq_iff)
  then show "client_AddPod M pod w = client_AddPod N pod w"
    using assms by (simp add: loses_listings_def client_AddPod_def call_status_def Let_def)
  have "(\<lambda>(_ :: UID) (_ :: time). GET_AllReplicaSets) \<noteq> (\<lambda>_ _. GET_AllPods)"
    by (simp add: fun_eq_iff)
  then show "client_GetAllReplicaSets M w = client_GetAllReplicaSets N w"
    using assms by (simp add: loses_listings_def client_GetAllReplicaSets_def call_data_def)
qed

locale replica_control = net: fresh_network N E state view new_uuid + etcd: reliable_etcd E view
  for N :: "'w net" and E :: "'v env" and state :: "'w \<Rightarrow> 'v" and view :: "'v \<Rightarrow> registry"
    and new_uuid :: "'w \<Rightarrow> string \<times> 'w"
begin

abbreviation stored :: "'w \<Rightarrow> registry" where
  "stored w \<equiv> view (state w)"

text \<open>What holds between the steps.\<close>

definition sound :: "'w \<Rightarrow> bool" where
  "sound w \<longleftrightarrow> keyed typed (stored w) \<and> index_ok ''pods'' pod_key (stored w)"

lemma deletePod_removes:
  assumes "sound w" "stored w (pod_key (MetaUID (Pod_Meta p))) = Some (JPod p)" "Name (Pod_Meta p) \<noteq> ''''"
  shows "sound (deletePod N (Name (Pod_Meta p)) (Namespace (Pod_Meta p)) w) \<and>
    live s (stored (deletePod N (Name (Pod_Meta p)) (Namespace (Pod_Meta p)) w)) = live s (stored w) - {MetaUID (Pod_Meta p)} \<and>
    (\<forall>u. u \<noteq> MetaUID (Pod_Meta p) \<longrightarrow>
      stored (deletePod N (Name (Pod_Meta p)) (Namespace (Pod_Meta p)) w) (pod_key u) = stored w (pod_key u))"
proof -
  let ?np = "Namespace (Pod_Meta p)" and ?n = "Name (Pod_Meta p)" and ?u = "MetaUID (Pod_Meta p)"
  from assms have ok: "index_ok ''pods'' pod_key (stored w)" and t: "keyed typed (stored w)" by (auto simp: sound_def)
  from ok assms(2) obtain np n where "no_slash np" "label (JPod p) = Some (np, n)"
    "stored w (ns_key np ''pods'' n) = Some (Raw ?u)" unfolding index_ok_def by blast
  with assms(3) have np: "no_slash ?np" and i: "stored w (ns_key ?np ''pods'' ?n) = Some (Raw ?u)" by auto
  obtain u t rs w' where h: "http N (\<lambda>_ _. DELETE_Pod ?np ?n) w = (Inr rs, w')"
    and sv: "serve E (DELETE_Pod ?np ?n) (state w) = (rs, state w')" by (rule net.http_serves)
  have d: "deletePod N ?n ?np w = w'" by (simp add: deletePod_def client_DeletePod_def call_status_def h)
  have v: "stored w' = (stored w)(ns_key ?np ''pods'' ?n := None, pod_key ?u := None)"
    using wp_result [OF _ etcd.DeletePod_succeeds [OF ok np i]] sv by auto
  moreover have "index_ok ''pods'' pod_key (stored w')"
    using wp_result [OF _ etcd.DeletePod_index [OF ok np]] sv by auto
  ultimately show ?thesis using etcd.serve_typed [OF sv t]
    by (auto simp: d sound_def live_def)
qed

lemma delete_all_removes:
  assumes "sound w" "distinct (map (\<lambda>p. MetaUID (Pod_Meta p)) ps)"
    "\<forall>p\<in>set ps. stored w (pod_key (MetaUID (Pod_Meta p))) = Some (JPod p) \<and> Name (Pod_Meta p) \<noteq> ''''"
  shows "sound (delete_all N (map wire_Pod ps) w) \<and>
    live s (stored (delete_all N (map wire_Pod ps) w)) = live s (stored w) - (\<lambda>p. MetaUID (Pod_Meta p)) ` set ps"
  using assms
proof (induction ps arbitrary: w)
  case (Cons p ps)
  let ?w = "deletePod N (Name (Pod_Meta p)) (Namespace (Pod_Meta p)) w"
  have d: "sound ?w" "live s (stored ?w) = live s (stored w) - {MetaUID (Pod_Meta p)}"
    "\<forall>u. u \<noteq> MetaUID (Pod_Meta p) \<longrightarrow> stored ?w (pod_key u) = stored w (pod_key u)"
    using deletePod_removes [OF Cons.prems(1), of p s] Cons.prems(3) by auto
  have "\<forall>q\<in>set ps. stored ?w (pod_key (MetaUID (Pod_Meta q))) = Some (JPod q) \<and> Name (Pod_Meta q) \<noteq> ''''"
  proof
    fix q
    assume q: "q \<in> set ps"
    then have "MetaUID (Pod_Meta q) \<noteq> MetaUID (Pod_Meta p)" using Cons.prems(2) by (force simp: image_iff)
    with q Cons.prems(3) d(3) show "stored ?w (pod_key (MetaUID (Pod_Meta q))) = Some (JPod q) \<and> Name (Pod_Meta q) \<noteq> ''''"
      by simp
  qed
  from Cons.IH [OF d(1) _ this] Cons.prems(2) d(2) show ?case
    by (auto simp: delete_all_def norm_meta_def)
qed (simp add: delete_all_def)

lemma addPod_adds:
  assumes "sound w" "no_slash (Namespace (Pod_Meta p))" "matches s (wire_Pod p)"
  shows "sound (addPod N new_uuid p w) \<and>
    (\<exists>u. u \<notin> live s (stored w) \<and> live s (stored (addPod N new_uuid p w)) = insert u (live s (stored w)))"
proof -
  from assms have ok: "index_ok ''pods'' pod_key (stored w)" and t: "keyed typed (stored w)" by (auto simp: sound_def)
  obtain x w1 where x: "new_uuid w = (x, w1)" by fastforce
  note fx = net.uuid_law [OF x]
  let ?n = "Name (Pod_Meta p) @ ''-'' @ x" and ?np = "in_namespace (Namespace (Pod_Meta p))"
  let ?p = "p\<lparr>Pod_Meta := (Pod_Meta p)\<lparr>Name := ?n\<rparr>, Pod_Type := (Pod_Type p)\<lparr>Kind := ''Pod''\<rparr>\<rparr>"
  have np: "no_slash ?np" "?np \<noteq> ''''" using assms(2) by (auto simp: in_namespace_def no_slash_def)
  obtain u t rs w' where h: "http N (POST_Pod ?np (Some (wire_Pod ?p))) w1 = (Inr rs, w')"
    and sv: "serve E (POST_Pod ?np (Some (wire_Pod ?p)) u t) (state w1) = (rs, state w')"
    and u: "fresh_uid (stored w1) u"
    by (rule net.http_serves_fresh)
  have d: "addPod N new_uuid p w = w'"
    using h by (simp add: addPod_def x client_AddPod_def call_status_def Let_def)
  have free: "stored w1 (ns_key ?np ''pods'' ?n) = None" "stored w1 (pod_key u) = None" "u \<noteq> ''''"
    using fresh_uid_keys [of "stored w1" x] fresh_uid_keys [OF u] fx by auto
  have v: "stored w' = (stored w)(ns_key ?np ''pods'' ?n \<mapsto> Raw u, pod_key u \<mapsto> JPod (created_pod (wire_Pod ?p) ?np u t))"
    using wp_result [OF _ etcd.AddPod_creates [of "wire_Pod ?p" ?np "state w1" u t]] sv free(1) np(2) fx
    by (auto simp: in_namespace_def norm_meta_def)
  have "index_ok ''pods'' pod_key (stored w')"
    using wp_result [OF _ etcd.AddPod_index [OF _ np(1) free(3,2)]] sv ok fx by auto
  moreover have "keyed typed (stored w')" using etcd.serve_typed [OF sv] t fx by simp
  moreover have "matches s (wire_Pod (created_pod (wire_Pod ?p) ?np u t))" "active (created_pod (wire_Pod ?p) ?np u t)"
    using assms(3) by (auto simp: matches_def active_def created_pod_def norm_meta_def)
  ultimately show ?thesis
    using free(2) fx by (intro conjI exI [of _ u]) (auto simp: d v sound_def live_def)
qed

lemma start_pods_adds:
  assumes "sound w" "no_slash (Namespace (Pod_Meta (template_pod rep)))" "matches s (wire_Pod (template_pod rep))"
    "finite (live s (stored w))"
  shows "finite (live s (stored (start_pods N new_uuid rep n w))) \<and>
    card (live s (stored (start_pods N new_uuid rep n w))) = n + card (live s (stored w))"
  using assms(1,4)
proof (induction n arbitrary: w)
  case (Suc n)
  obtain u where a: "sound (addPod N new_uuid (template_pod rep) w)" "u \<notin> live s (stored w)"
    "live s (stored (addPod N new_uuid (template_pod rep) w)) = insert u (live s (stored w))"
    using addPod_adds [OF Suc.prems(1) assms(2,3)] by blast
  with Suc.IH [OF a(1)] Suc.prems(2) show ?case by simp
qed simp

lemma live_listed:
  assumes "sound w" "set ps = {p. stored w (pod_key (MetaUID (Pod_Meta p))) = Some (JPod p)}"
  shows "live s (stored w) = (\<lambda>p. MetaUID (Pod_Meta p)) ` set (filter active (filter (matches s \<circ> wire_Pod) ps))"
proof (intro set_eqI iffI)
  fix u assume "u \<in> live s (stored w)"
  then obtain p where p: "stored w (pod_key u) = Some (JPod p)" "matches s (wire_Pod p)" "active p" by (auto simp: live_def)
  then have "u = MetaUID (Pod_Meta p)" using assms(1) by (auto simp: sound_def dest: keyedD)
  with p assms(2) show "u \<in> (\<lambda>p. MetaUID (Pod_Meta p)) ` set (filter active (filter (matches s \<circ> wire_Pod) ps))" by auto
qed (use assms(2) in \<open>auto simp: live_def\<close>)

text \<open>One replica set, with an exact list of the pods.\<close>

lemma sync_set_converges:
  assumes "sound w" "RS_Selector (RS_Spec rep) = Some s" "0 \<le> Replicas (RS_Spec rep)"
    "no_slash (Namespace (Pod_Meta (template_pod rep)))" "matches s (wire_Pod (template_pod rep))"
    "distinct (map (\<lambda>p. MetaUID (Pod_Meta p)) ps)" "\<forall>p\<in>set ps. matches s (wire_Pod p) \<longrightarrow> Name (Pod_Meta p) \<noteq> ''''"
    "set ps = {p. stored w (pod_key (MetaUID (Pod_Meta p))) = Some (JPod p)}"
  shows "\<exists>w'. sync_set N new_uuid (map wire_Pod ps) rep w = (Returns (), w') \<and>
    finite (live s (stored w')) \<and> int (card (live s (stored w'))) = Replicas (RS_Spec rep)"
proof -
  let ?uid = "\<lambda>p. MetaUID (Pod_Meta p)"
  define qs where "qs = filter (matches s \<circ> wire_Pod) ps"
  have m: "oneReplicaSetMatch rep (map wire_Pod ps) = Returns (map wire_Pod qs)"
    by (simp add: oneReplicaSetMatch_def assms(2) match_pods_filter filter_map qs_def)
  obtain kept dropped where k: "map wire_Pod qs = kept @ dropped"
    "oneReplicaSetCheck N (map wire_Pod qs) (Replicas (RS_Spec rep)) w =
      (Replicas (RS_Spec rep) - int (length (filter active kept)), delete_all N dropped w)"
    "int (length (filter active kept)) \<le> Replicas (RS_Spec rep)"
    by (rule oneReplicaSetCheck_split [OF assms(3)])
  then obtain ks ds where q: "qs = ks @ ds" "kept = map wire_Pod ks" "dropped = map wire_Pod ds"
    by (auto simp: map_eq_append_conv)
  have act: "active (wire_Pod p) = active p" for p by (simp add: active_def)
  have dist: "distinct (map ?uid (ks @ ds))"
    using assms(6) q(1) unfolding qs_def by (metis distinct_map_filter)
  have ds: "\<forall>p\<in>set ds. stored w (pod_key (?uid p)) = Some (JPod p) \<and> Name (Pod_Meta p) \<noteq> ''''"
  proof
    fix p assume "p \<in> set ds"
    then have "p \<in> set qs" by (simp add: q(1))
    with assms(7,8) show "stored w (pod_key (?uid p)) = Some (JPod p) \<and> Name (Pod_Meta p) \<noteq> ''''" by (auto simp: qs_def)
  qed
  note del = delete_all_removes [OF assms(1) _ ds, of s]
  have live0: "live s (stored w) = ?uid ` set (filter active (ks @ ds))"
    using live_listed [OF assms(1,8), of s] by (simp add: q(1) [symmetric] qs_def)
  have "?uid ` set (filter active (ks @ ds)) - ?uid ` set ds = ?uid ` set (filter active ks)"
    using dist by (auto simp: image_iff)
  then have live1: "live s (stored (delete_all N dropped w)) = ?uid ` set (filter active ks)" and
    snd1: "sound (delete_all N dropped w)"
    using del dist live0 by (auto simp: q(3))
  have "distinct (map ?uid (filter active ks))" using dist by (simp add: distinct_map_filter)
  then have c: "card (live s (stored (delete_all N dropped w))) = length (filter active ks)"
    unfolding live1 by (metis distinct_card length_map list.set_map)
  have "length (filter active kept) = length (filter active ks)"
    by (simp add: q(2) filter_map comp_def act)
  with start_pods_adds [OF snd1 assms(4,5), of "nat (Replicas (RS_Spec rep) - int (length (filter active kept)))"] c k(3) live1
  show ?thesis by (auto simp: sync_set_def m k(2))
qed

lemma client_pods_exact:
  assumes "keyed typed (stored w)"
  obtains ps w' where "client_GetAllPods N w = ((map wire_Pod ps, None), w')" "stored w' = stored w"
    "set ps = {p. stored w (pod_key (MetaUID (Pod_Meta p))) = Some (JPod p)}" "distinct (map (\<lambda>p. MetaUID (Pod_Meta p)) ps)"
proof -
  obtain u t rs w' where c: "client_GetAllPods N w = (finish StatusOK [] ''get pods failed, error: ''
        (unmarshal_reply [] (\<lambda>b. case b of DataPods xs \<Rightarrow> Some (map wire_Pod xs) | _ \<Rightarrow> None) rs) rs, w')"
    and s: "serve E GET_AllPods (state w) = (rs, state w')"
    unfolding client_GetAllPods_def by (rule net.call_data_serves)
  have v: "stored w' = stored w" using etcd.serve_frame [OF s] by (auto simp: fun_eq_iff)
  from wp_result [OF _ etcd.GetAllPods_distinct [OF assms]] s obtain b ps where
    "rs = [Reply StatusOK b]" "b = DataPods ps \<or> b = NoData \<and> ps = []"
    "set ps = {p. stored w (pod_key (MetaUID (Pod_Meta p))) = Some (JPod p)}" "distinct (map (\<lambda>p. MetaUID (Pod_Meta p)) ps)"
    by auto
  then show ?thesis using c v
    by (intro that [of ps w']) (auto simp: finish_def unmarshal_reply_def reply_data_def status_of_def)
qed

lemma served_sound: "well_served E view h (state w) \<Longrightarrow> sound w"
  using etcd.well_served_indexed etcd.served_typed [OF well_served_served]
  by (auto simp: sound_def registry_indexed_def)

lemma listed_set_converges:
  assumes "well_served E view h (state w)" "RS_Selector (RS_Spec rep) = Some s" "0 \<le> Replicas (RS_Spec rep)"
    "no_slash (Namespace (Pod_Meta (template_pod rep)))" "matches s (wire_Pod (template_pod rep))"
    "\<And>p. stored w (pod_key (MetaUID (Pod_Meta p))) = Some (JPod p) \<Longrightarrow> matches s (wire_Pod p) \<Longrightarrow> Name (Pod_Meta p) \<noteq> ''''"
  shows "\<exists>allPods w1 w2. client_GetAllPods N w = ((allPods, None), w1) \<and> sync_set N new_uuid allPods rep w1 = (Returns (), w2) \<and>
    int (card (live s (stored w2))) = Replicas (RS_Spec rep)"
proof -
  have sw: "sound w" by (rule served_sound [OF assms(1)])
  then have t: "keyed typed (stored w)" by (simp add: sound_def)
  obtain ps w1 where ps: "client_GetAllPods N w = ((map wire_Pod ps, None), w1)" "stored w1 = stored w"
    "set ps = {p. stored w (pod_key (MetaUID (Pod_Meta p))) = Some (JPod p)}" "distinct (map (\<lambda>p. MetaUID (Pod_Meta p)) ps)"
    by (rule client_pods_exact [OF t])
  have "\<forall>p\<in>set ps. matches s (wire_Pod p) \<longrightarrow> Name (Pod_Meta p) \<noteq> ''''" using ps(3) assms(6) by blast
  moreover have "sound w1" using sw ps(2) by (simp add: sound_def)
  ultimately have "\<exists>w2. sync_set N new_uuid (map wire_Pod ps) rep w1 = (Returns (), w2) \<and>
      finite (live s (stored w2)) \<and> int (card (live s (stored w2))) = Replicas (RS_Spec rep)"
    using sync_set_converges [of w1 rep s ps] assms(2-5) ps by simp
  with ps(1) show ?thesis by blast
qed

lemma replica_listing_stored: "stored (snd (client_GetAllReplicaSets N w)) = stored w"
proof -
  obtain u t rs w' where c: "client_GetAllReplicaSets N w = (finish StatusOK [] ''get replica sets failed, error: ''
        (unmarshal_reply [] (\<lambda>b. case b of DataReplicaSets xs \<Rightarrow> Some (map wire_ReplicaSet xs) | _ \<Rightarrow> None) rs) rs, w')"
    and s: "serve E GET_AllReplicaSets (state w) = (rs, state w')"
    unfolding client_GetAllReplicaSets_def by (rule net.call_data_serves)
  show ?thesis using etcd.serve_frame [OF s] by (auto simp: c fun_eq_iff)
qed

lemma empty_listing_adds:
  assumes "sound w" "RS_Selector (RS_Spec rep) = Some s" "0 \<le> Replicas (RS_Spec rep)"
    "no_slash (Namespace (Pod_Meta (template_pod rep)))" "matches s (wire_Pod (template_pod rep))"
  shows "\<exists>w'. start_pods N new_uuid rep (nat (Replicas (RS_Spec rep))) w = w' \<and>
    int (card (live s (stored w'))) = Replicas (RS_Spec rep) + int (card (live s (stored w)))"
proof -
  have t: "keyed typed (stored w)" using assms(1) by (simp add: sound_def)
  obtain ps where "set ps = {p. stored w (pod_key (MetaUID (Pod_Meta p))) = Some (JPod p)}"
    by (rule client_pods_exact [OF t])
  from live_listed [OF assms(1) this] have "finite (live s (stored w))" by (metis List.finite_set finite_imageI)
  from start_pods_adds [OF assms(1,4,5) this, of "nat (Replicas (RS_Spec rep))"] assms(3) show ?thesis by simp
qed

text \<open>A round in which the listing of the pods is lost.\<close>

lemma lost_listing_adds:
  assumes "well_served E view h (state w)" "RS_Selector (RS_Spec rep) = Some s" "0 \<le> Replicas (RS_Spec rep)"
    "no_slash (Namespace (Pod_Meta (template_pod rep)))" "matches s (wire_Pod (template_pod rep))"
    "loses_listings M N" "fst (client_GetAllReplicaSets M w) = ([rep], None)"
  shows "\<exists>w'. syncReplicaSet M new_uuid w = (Returns (), w') \<and>
    int (card (live s (stored w'))) = Replicas (RS_Spec rep) + int (card (live s (stored w)))"
proof -
  obtain w1 where w1: "client_GetAllReplicaSets M w = (([rep], None), w1)"
    using assms(7) by (cases "client_GetAllReplicaSets M w") auto
  then have st: "stored w1 = stored w"
    using replica_listing_stored [of w] by (simp add: lost_listing(3) [OF assms(6)])
  with served_sound [OF assms(1)] have "sound w1" by (simp add: sound_def)
  from empty_listing_adds [OF this assms(2-5)] st lost_listing(1) [OF assms(6), of w1] w1 show ?thesis
    by (auto simp: syncReplicaSet_def sync_set_def oneReplicaSetMatch_def oneReplicaSetCheck_def
      start_pods_cong [OF lost_listing(2) [OF assms(6)]])
qed

end

section \<open>A network with new uuids\<close>

text \<open>The server over the plain store, drawing a uuid longer than every key.\<close>

definition new_uid :: "(string, document) gomap \<Rightarrow> string" where
  "new_uid m = replicate (Suc (foldr (\<lambda>e n. max (length (fst e)) n) m 0)) CHR ''u''"

lemma new_uid_fresh: "fresh_uid (map_of m) (new_uid m)"
proof -
  have "length k \<le> foldr (\<lambda>e n. max (length (fst e)) n) m 0" if "map_of m k = Some v" for k v
    using map_of_SomeD [OF that] by (induction m) auto
  then have "map_of m (a @ new_uid m) = None" for a
    by (cases "map_of m (a @ new_uid m)") (force simp: new_uid_def)+
  then show ?thesis by (simp add: fresh_uid_def new_uid_def)
qed

definition fresh_net :: "((string, document) gomap \<times> metricsDb) net" where
  "fresh_net = \<lparr>
     http = (\<lambda>q (m, db). case serve calm_env (q (new_uid m) 0) m of (rs, m') \<Rightarrow> (Inr rs, (m', db))),
     stats_http = (\<lambda>q (m, db). case serve_stats q db of (rs, db') \<Rightarrow> (Inr rs, (m, db')))\<rparr>"

definition fresh_uuid :: "(string, document) gomap \<times> metricsDb \<Rightarrow> string \<times> ((string, document) gomap \<times> metricsDb)" where
  "fresh_uuid w = (new_uid (fst w), w)"

interpretation fresh: replica_control fresh_net calm_env fst map_of fresh_uuid
proof
  fix q :: "UID \<Rightarrow> time \<Rightarrow> request" and q' w r w'
  show "http fresh_net q w = (r, w') \<Longrightarrow>
      (\<exists>u t rs. serve calm_env (q u t) (fst w) = (rs, fst w') \<and> (\<forall>rs'. r = Inr rs' \<longrightarrow> rs' = rs)) \<or>
      (\<exists>e. r = Inl e) \<and> fst w' = fst w"
    by (cases w; auto simp: fresh_net_def split: prod.splits)
  show "stats_http fresh_net q' w = (r, w') \<Longrightarrow> fst w' = fst w"
    by (cases w) (auto simp: fresh_net_def split: prod.splits)
  show "\<exists>rs. fst (http fresh_net q w) = Inr rs"
    by (cases w) (auto simp: fresh_net_def split: prod.splits)
next
  fix q :: "UID \<Rightarrow> time \<Rightarrow> request" and w w' rs u
  show "http fresh_net q w = (Inr rs, w') \<Longrightarrow>
      \<exists>u t. serve calm_env (q u t) (fst w) = (rs, fst w') \<and> fresh_uid (map_of (fst w)) u"
    using new_uid_fresh by (cases w) (fastforce simp: fresh_net_def split: prod.splits)
  show "fresh_uuid w = (u, w') \<Longrightarrow> fst w' = fst w \<and> fresh_uid (map_of (fst w)) u"
    using new_uid_fresh by (auto simp: fresh_uuid_def)
qed

section \<open>Properties\<close>

text \<open>
  C20. The replica set controller converges: when no call fails and uuids are new, one round for a replica
  set whose template matches its own selector leaves exactly the wanted number of active pods of the
  selector in the registry.
\<close>

theorem replica_set_converges:
  assumes "replica_control N E state view new_uuid" "well_served E view h (state w)"
    "RS_Selector (RS_Spec rep) = Some s" "0 \<le> Replicas (RS_Spec rep)"
    "no_slash (Namespace (Pod_Meta (template_pod rep)))" "matches s (wire_Pod (template_pod rep))"
    "\<And>p. view (state w) (pod_key (MetaUID (Pod_Meta p))) = Some (JPod p) \<Longrightarrow> matches s (wire_Pod p) \<Longrightarrow> Name (Pod_Meta p) \<noteq> ''''"
  shows "\<exists>allPods w1 w2. client_GetAllPods N w = ((allPods, None), w1) \<and> sync_set N new_uuid allPods rep w1 = (Returns (), w2) \<and>
    int (card (live s (view (state w2)))) = Replicas (RS_Spec rep)"
  using assms(2-7) by (rule replica_control.listed_set_converges [OF assms(1)])

definition demo_rs :: ReplicaSet where
  "demo_rs = zero_ReplicaSet\<lparr>RS_Spec := \<lparr>Replicas = 2,
     RS_Selector = Some \<lparr>MatchLabels = Some [(''app'', ''web'')]\<rparr>,
     Template = \<lparr>Template_Meta = demo_meta ''web'', Template_Spec = Pod_Spec zero_Pod\<rparr>\<rparr>\<rparr>"

lemma demo_rs_facts:
  "RS_Selector (RS_Spec demo_rs) = Some \<lparr>MatchLabels = Some [(''app'', ''web'')]\<rparr>"
  "0 \<le> Replicas (RS_Spec demo_rs)" "no_slash (Namespace (Pod_Meta (template_pod demo_rs)))"
  "matches \<lparr>MatchLabels = Some [(''app'', ''web'')]\<rparr> (wire_Pod (template_pod demo_rs))"
  by (simp_all add: demo_rs_def template_pod_def demo_meta_def zero_ObjectMeta_def no_slash_def matches_def
    wire_meta norm_meta_def norm_map_def belongs_def mget_def zero_Pod_def)

theorem replica_set_converges_witness:
  "\<exists>allPods w1 w2. client_GetAllPods fresh_net (snd demo_run, Map.empty) = ((allPods, None), w1) \<and>
    sync_set fresh_net fresh_uuid allPods demo_rs w1 = (Returns (), w2) \<and>
    int (card (live \<lparr>MatchLabels = Some [(''app'', ''web'')]\<rparr> (map_of (fst w2)))) = Replicas (RS_Spec demo_rs)"
proof (rule replica_set_converges [OF fresh.replica_control_axioms _ demo_rs_facts])
  show "well_served calm_env map_of (fst demo_run) (fst (snd demo_run, Map.empty))"
    by (simp add: demo_run_served)
  have "list_all (\<lambda>(k, v). case v of JPod p \<Rightarrow> Name (Pod_Meta p) \<noteq> '''' | _ \<Rightarrow> True) (snd demo_run)" by code_simp
  then show "Name (Pod_Meta p) \<noteq> ''''"
    if "map_of (fst (snd demo_run, Map.empty)) (pod_key (MetaUID (Pod_Meta p))) = Some (JPod p)" for p
    using map_of_SomeD [of "snd demo_run"] that by (fastforce simp: list_all_iff)
qed

text \<open>
  C21. What one check does: it keeps a prefix of the matching pods with at most the wanted number of active
  ones, asks for the deletion of all the others, and returns how many are missing.
\<close>

theorem replica_check_exact:
  assumes "0 \<le> wanted"
  shows "\<exists>kept dropped. pods = kept @ dropped \<and>
    oneReplicaSetCheck N pods wanted w = (wanted - int (length (filter active kept)), delete_all N dropped w) \<and>
    int (length (filter active kept)) \<le> wanted \<and> (dropped \<noteq> [] \<longrightarrow> int (length (filter active kept)) = wanted)"
  using oneReplicaSetCheck_split [OF assms, of pods N w] by metis

theorem replica_check_exact_witness:
  "\<exists>kept dropped. [demo_pod ''a'', demo_pod ''b''] = kept @ dropped \<and>
    oneReplicaSetCheck down_net [demo_pod ''a'', demo_pod ''b''] 1 () =
      (1 - int (length (filter active kept)), delete_all down_net dropped ()) \<and>
    int (length (filter active kept)) \<le> 1 \<and> (dropped \<noteq> [] \<longrightarrow> int (length (filter active kept)) = 1)"
  by (rule replica_check_exact) simp

text \<open>
  C22. A failed listing of the pods starts all replicas again. When the call for the pods fails and the others do not, and
  the server has one replica set, a round of the controller goes on with an empty list, and returns with the full
  number of pods added to those that are active already.
\<close>

theorem failed_listing_starts_all:
  assumes "replica_control N E state view new_uuid" "well_served E view h (state w)"
    "RS_Selector (RS_Spec rep) = Some s" "0 \<le> Replicas (RS_Spec rep)"
    "no_slash (Namespace (Pod_Meta (template_pod rep)))" "matches s (wire_Pod (template_pod rep))"
    "\<And>q w. q \<noteq> (\<lambda>_ _. GET_AllPods) \<Longrightarrow> http M q w = http N q w" "\<And>w. \<exists>e. http M (\<lambda>_ _. GET_AllPods) w = (Inl e, w)"
    "fst (client_GetAllReplicaSets M w) = ([rep], None)"
  shows "\<exists>w'. syncReplicaSet M new_uuid w = (Returns (), w') \<and>
    int (card (live s (view (state w')))) = Replicas (RS_Spec rep) + int (card (live s (view (state w))))"
proof -
  have "loses_listings M N" using assms(7,8) by (simp add: loses_listings_def)
  from replica_control.lost_listing_adds [OF assms(1-6) this assms(9)] show ?thesis .
qed

text \<open>A cluster with one replica set, over a network that loses the listings of the pods.\<close>

definition lossy_net :: "((string, document) gomap \<times> metricsDb) net" where
  "lossy_net = fresh_net\<lparr>http := (\<lambda>q w. if q = (\<lambda>_ _. GET_AllPods) then (Inl ''connection reset'', w) else http fresh_net q w)\<rparr>"

definition stored_rs :: ReplicaSet where
  "stored_rs = demo_rs\<lparr>RS_Meta := zero_ObjectMeta\<lparr>Name := ''web'', MetaUID := ''r1'', CreationTimestamp := 9\<rparr>\<rparr>"

definition rs_run :: "(request \<times> reply list) list \<times> (string, document) gomap" where
  "rs_run = serve_all calm_env (demo_requests @ [POST_ReplicaSet (Some (demo_rs\<lparr>RS_Meta := zero_ObjectMeta\<lparr>Name := ''web''\<rparr>\<rparr>)) ''r1'' 9]) ([], [])"

lemma rs_run_served: "well_served calm_env map_of (fst rs_run) (snd rs_run)"
proof -
  have "well_all calm_env map_of (demo_requests @ [POST_ReplicaSet (Some (demo_rs\<lparr>RS_Meta := zero_ObjectMeta\<lparr>Name := ''web''\<rparr>\<rparr>)) ''r1'' 9]) []"
    by code_simp
  then show ?thesis unfolding rs_run_def by (rule well_served_run [rotated]) simp
qed

lemma rs_run_listed: "GetAllReplicaSetsHandler calm_env (snd rs_run) = ([Reply StatusOK (DataReplicaSets [stored_rs])], snd rs_run)"
  by code_simp

lemma stored_rs_facts:
  "RS_Selector (RS_Spec stored_rs) = Some \<lparr>MatchLabels = Some [(''app'', ''web'')]\<rparr>"
  "0 \<le> Replicas (RS_Spec stored_rs)" "no_slash (Namespace (Pod_Meta (template_pod stored_rs)))"
  "matches \<lparr>MatchLabels = Some [(''app'', ''web'')]\<rparr> (wire_Pod (template_pod stored_rs))"
  using demo_rs_facts by (simp_all add: stored_rs_def template_pod_def)

theorem failed_listing_starts_all_witness:
  "\<exists>w'. syncReplicaSet lossy_net fresh_uuid (snd rs_run, Map.empty) = (Returns (), w') \<and>
    int (card (live \<lparr>MatchLabels = Some [(''app'', ''web'')]\<rparr> (map_of (fst w')))) = 2 +
      int (card (live \<lparr>MatchLabels = Some [(''app'', ''web'')]\<rparr> (map_of (snd rs_run))))"
proof -
  have "wire_ReplicaSet stored_rs = stored_rs" by code_simp
  then have sets: "fst (client_GetAllReplicaSets lossy_net (snd rs_run, Map.empty)) = ([stored_rs], None)"
    by (simp add: client_GetAllReplicaSets_def call_data_def lossy_net_def fresh_net_def fun_eq_iff rs_run_listed finish_def
      unmarshal_reply_def reply_data_def status_of_def)
  have "Replicas (RS_Spec stored_rs) = 2" by (simp add: stored_rs_def demo_rs_def)
  with failed_listing_starts_all [OF fresh.replica_control_axioms _ stored_rs_facts _ _ sets, of "fst rs_run"] show ?thesis
    by (simp add: lossy_net_def rs_run_served)
qed

end
