(* ===== verification/Hpa.thy ===== *)
theory Hpa
  imports Scheduler Replicaset_Controller
begin

text \<open>
  \<open>pkg/controller/podautoscaler/horizonal.go\<close>: the horizontal pod autoscaler. Every ten seconds it computes, for
  each autoscaler, a number of replicas from the mean load of the pods and asks the server to store it.
  \<open>float32\<close> is IEEE single precision over the rationals: rounding to nearest with ties to even, infinities and
  NaN, without the sign of zero (which only a target smaller than the least subnormal can produce).
  What a conversion of an unrepresentable number to \<open>int32\<close> yields is up to the machine, so it is the
  parameter \<open>cvt\<close>. The clock is a parameter too.
\<close>

section \<open>Single precision\<close>

datatype f32 = Fin rat | PInf | NInf | NaN

fun bit_length :: "nat \<Rightarrow> nat" where
  "bit_length n = (if n = 0 then 0 else Suc (bit_length (n div 2)))"

declare bit_length.simps [simp del]

definition pow2 :: "int \<Rightarrow> rat" where
  "pow2 e = (if 0 \<le> e then 2 ^ nat e else 1 / 2 ^ nat (- e))"

text \<open>The exponent of a positive rational: \<open>2 ^ e \<le> q < 2 ^ (e + 1)\<close>.\<close>

definition exponent :: "rat \<Rightarrow> int" where
  "exponent q = (case quotient_of q of (n, d) \<Rightarrow>
     let e = int (bit_length (nat n)) - int (bit_length (nat d)) in if q < pow2 e then e - 1 else e)"

definition round_half_even :: "rat \<Rightarrow> int" where
  "round_half_even q = (let f = floor q; r = q - of_int f in
     if r < 1 / 2 then f else if r > 1 / 2 then f + 1 else if even f then f else f + 1)"

definition round32 :: "rat \<Rightarrow> f32" where
  "round32 q = (if q = 0 then Fin 0
     else let e = max (exponent \<bar>q\<bar> - 23) (- 149); r = of_int (round_half_even (q / pow2 e)) * pow2 e
       in if \<bar>r\<bar> \<ge> 2 ^ 128 then (if q > 0 then PInf else NInf) else Fin r)"

fun fneg :: "f32 \<Rightarrow> f32" where
  "fneg (Fin a) = Fin (- a)"
| "fneg PInf = NInf"
| "fneg NInf = PInf"
| "fneg NaN = NaN"

fun fadd :: "f32 \<Rightarrow> f32 \<Rightarrow> f32" where
  "fadd (Fin a) (Fin b) = round32 (a + b)"
| "fadd NaN _ = NaN"
| "fadd _ NaN = NaN"
| "fadd PInf NInf = NaN"
| "fadd NInf PInf = NaN"
| "fadd PInf _ = PInf"
| "fadd _ PInf = PInf"
| "fadd NInf _ = NInf"
| "fadd _ NInf = NInf"

definition fsub :: "f32 \<Rightarrow> f32 \<Rightarrow> f32" where
  "fsub a b = fadd a (fneg b)"

definition signed_inf :: "rat \<Rightarrow> f32" where
  "signed_inf a = (if a > 0 then PInf else if a < 0 then NInf else NaN)"

fun fmul :: "f32 \<Rightarrow> f32 \<Rightarrow> f32" where
  "fmul (Fin a) (Fin b) = round32 (a * b)"
| "fmul NaN _ = NaN"
| "fmul _ NaN = NaN"
| "fmul (Fin a) PInf = signed_inf a"
| "fmul PInf (Fin a) = signed_inf a"
| "fmul (Fin a) NInf = signed_inf (- a)"
| "fmul NInf (Fin a) = signed_inf (- a)"
| "fmul PInf PInf = PInf"
| "fmul NInf NInf = PInf"
| "fmul PInf NInf = NInf"
| "fmul NInf PInf = NInf"

fun fdiv :: "f32 \<Rightarrow> f32 \<Rightarrow> f32" where
  "fdiv (Fin a) (Fin b) = (if b = 0 then signed_inf a else round32 (a / b))"
| "fdiv NaN _ = NaN"
| "fdiv _ NaN = NaN"
| "fdiv (Fin a) _ = Fin 0"
| "fdiv PInf (Fin b) = (if b < 0 then NInf else PInf)"
| "fdiv NInf (Fin b) = (if b < 0 then PInf else NInf)"
| "fdiv _ _ = NaN"

fun fless :: "f32 \<Rightarrow> f32 \<Rightarrow> bool" where
  "fless (Fin a) (Fin b) \<longleftrightarrow> a < b"
| "fless NaN _ \<longleftrightarrow> False"
| "fless _ NaN \<longleftrightarrow> False"
| "fless NInf b \<longleftrightarrow> b \<noteq> NInf"
| "fless _ NInf \<longleftrightarrow> False"
| "fless PInf _ \<longleftrightarrow> False"
| "fless _ PInf \<longleftrightarrow> True"

text \<open>\<open>int32(math.Ceil(float64(x)))\<close>.\<close>

definition ceil32 :: "(f32 \<Rightarrow> int) \<Rightarrow> f32 \<Rightarrow> int" where
  "ceil32 cvt x = (case x of Fin r \<Rightarrow> if in_i32 (ceiling r) then ceiling r else i32 (cvt x) | _ \<Rightarrow> i32 (cvt x))"

text \<open>Division of integers truncates.\<close>

definition tdiv :: "int \<Rightarrow> int \<Rightarrow> int" where
  "tdiv a b = sgn a * sgn b * (\<bar>a\<bar> div \<bar>b\<bar>)"

section \<open>Mean loads\<close>

definition defaultUpscalePolicy :: HPAScalingPolicy where
  "defaultUpscalePolicy = \<lparr>Policy_Type = PodsScalingPolicy, Policy_Value = 1, PeriodSeconds = 60\<rparr>"

definition defaultDownscalePolicy :: HPAScalingPolicy where
  "defaultDownscalePolicy = \<lparr>Policy_Type = PodsScalingPolicy, Policy_Value = 1, PeriodSeconds = 60\<rparr>"

definition defaultScaleWindow :: int where "defaultScaleWindow = 15"

definition flen :: "'a list \<Rightarrow> f32" where
  "flen xs = round32 (of_nat (length xs))"

definition sum_usage :: "(PodRawMetricsItem \<Rightarrow> float32) \<Rightarrow> PodRawMetricsItem list \<Rightarrow> f32" where
  "sum_usage usage oneCtnr = fold (\<lambda>i sum. fadd sum (Fin (usage i))) oneCtnr (Fin 0)"

definition container_avg :: "(PodRawMetricsItem \<Rightarrow> float32) \<Rightarrow> PodRawMetricsItem list \<Rightarrow> f32" where
  "container_avg usage oneCtnr =
     (if oneCtnr \<noteq> [] then fdiv (sum_usage usage oneCtnr) (flen oneCtnr) else Fin 0)"

definition pod_avg :: "(PodRawMetricsItem \<Rightarrow> float32) \<Rightarrow> (string, PodRawMetricsItem list) gomap \<Rightarrow> f32" where
  "pod_avg usage m = fdiv (fold (\<lambda>(_, oneCtnr) s. fadd s (container_avg usage oneCtnr)) m (Fin 0)) (flen m)"

text \<open>The loop over the pods; a pod without metrics counts in the number of pods all the same.\<close>

fun pods_sum :: "(PodRawMetricsItem \<Rightarrow> float32) \<Rightarrow> 'w net \<Rightarrow> int \<Rightarrow> time \<Rightarrow> Pod list \<Rightarrow> f32 \<Rightarrow> 'w \<Rightarrow> f32 outcome \<times> 'w" where
  "pods_sum usage N windowSz now [] s w = (Returns s, w)"
| "pods_sum usage N windowSz now (pod # pods) s w =
     (case client_GetPodMetrics N (MetaUID (Pod_Meta pod), now, windowSz) w of
       (Crashes, w') \<Rightarrow> (Crashes, w')
     | (Returns (oneMetrics, err), w') \<Rightarrow> (case oneMetrics of
         None \<Rightarrow> pods_sum usage N windowSz now pods s w'
       | Some m \<Rightarrow> if infos m = [] then pods_sum usage N windowSz now pods s w'
           else pods_sum usage N windowSz now pods (fadd s (pod_avg usage (infos m))) w'))"

definition genAvgUsage ::
    "(PodRawMetricsItem \<Rightarrow> float32) \<Rightarrow> ('w \<Rightarrow> time \<times> 'w) \<Rightarrow> 'w net \<Rightarrow> int \<Rightarrow> Pod list \<Rightarrow> 'w \<Rightarrow> f32 outcome \<times> 'w" where
  "genAvgUsage usage clock N windowSz podsMatch w = (case clock w of (now, w1) \<Rightarrow>
     (case pods_sum usage N windowSz now podsMatch (Fin 0) w1 of
       (Crashes, w2) \<Rightarrow> (Crashes, w2)
     | (Returns s, w2) \<Rightarrow> (Returns (fdiv s (flen podsMatch)), w2)))"

definition genAvgCpuUsage :: "('w \<Rightarrow> time \<times> 'w) \<Rightarrow> 'w net \<Rightarrow> int \<Rightarrow> Pod list \<Rightarrow> 'w \<Rightarrow> f32 outcome \<times> 'w" where
  "genAvgCpuUsage = genAvgUsage CPUUsage"

definition genAvgMemoryUsage :: "('w \<Rightarrow> time \<times> 'w) \<Rightarrow> 'w net \<Rightarrow> int \<Rightarrow> Pod list \<Rightarrow> 'w \<Rightarrow> f32 outcome \<times> 'w" where
  "genAvgMemoryUsage = genAvgUsage MemoryUsage"

section \<open>From loads to numbers of replicas\<close>

text \<open>
  The two branches that change the number. They read the policy from the autoscaler, not the default that
  stands in for a missing one: a nil policy is dereferenced.
\<close>

definition scale_up :: "(f32 \<Rightarrow> int) \<Rightarrow> HorizontalPodAutoscalerSpec \<Rightarrow> f32 \<Rightarrow> int \<Rightarrow> int outcome" where
  "scale_up cvt spec ratio curRpsNum = (case ScaleUp (Behavior spec) of
     None \<Rightarrow> Crashes
   | Some up \<Rightarrow>
     let tryAdd = ceil32 cvt (fmul (fsub ratio (Fin 1)) (round32 (of_int curRpsNum)));
         tryAdd = (if Policy_Type up = PercentScalingPolicy then min tryAdd (tdiv (i32 (Policy_Value up * curRpsNum)) 100)
           else if Policy_Type up = PodsScalingPolicy then min tryAdd (Policy_Value up) else 1);
         newRepNum = i32 (curRpsNum + tryAdd)
     in Returns (if newRepNum > MaxReplicas spec then MaxReplicas spec else newRepNum))"

definition scale_down :: "(f32 \<Rightarrow> int) \<Rightarrow> HorizontalPodAutoscalerSpec \<Rightarrow> f32 \<Rightarrow> int \<Rightarrow> int outcome" where
  "scale_down cvt spec ratio curRpsNum = (case ScaleDown (Behavior spec) of
     None \<Rightarrow> Crashes
   | Some down \<Rightarrow>
     let trySub = ceil32 cvt (fmul (fsub (Fin 1) ratio) (round32 (of_int curRpsNum)));
         trySub = (if Policy_Type down = PercentScalingPolicy then min trySub (tdiv (i32 (Policy_Value down * curRpsNum)) 100)
           else if Policy_Type down = PodsScalingPolicy then min trySub (Policy_Value down) else 1);
         newRepNum = i32 (curRpsNum - trySub)
     in Returns (if newRepNum < MinReplicas spec then MinReplicas spec else newRepNum))"

definition genRepNumFromCPU :: "(f32 \<Rightarrow> int) \<Rightarrow> ('w \<Rightarrow> time \<times> 'w) \<Rightarrow> HorizontalPodAutoscaler \<Rightarrow>
    ResourceMetricSource \<Rightarrow> Pod list \<Rightarrow> int \<Rightarrow> 'w net \<Rightarrow> 'w \<Rightarrow> int outcome \<times> 'w" where
  "genRepNumFromCPU cvt clock hpa metricsTplt podsMatch curRpsNum N w =
     (let spec = HPA_Spec hpa; target = Metric_Target metricsTplt;
          upPeriod = PeriodSeconds (case ScaleUp (Behavior spec) of None \<Rightarrow> defaultUpscalePolicy | Some p \<Rightarrow> p);
          downPeriod = PeriodSeconds (case ScaleDown (Behavior spec) of None \<Rightarrow> defaultDownscalePolicy | Some p \<Rightarrow> p)
      in if Target_Type target \<noteq> UtilizationMetricType then (Returns (- 1), w)
      else case genAvgCpuUsage clock N upPeriod podsMatch w of (Crashes, w1) \<Rightarrow> (Crashes, w1) | (Returns upAvg, w1) \<Rightarrow>
        let ratio = fdiv upAvg (fdiv (Fin (AverageUtilization target)) (Fin 100)) in
        if fless (round32 (11 / 10)) ratio then (scale_up cvt spec ratio curRpsNum, w1)
        else case genAvgCpuUsage clock N downPeriod podsMatch w1 of (Crashes, w2) \<Rightarrow> (Crashes, w2) | (Returns downAvg, w2) \<Rightarrow>
          let ratio = fdiv downAvg (fdiv (Fin (AverageUtilization target)) (Fin 100)) in
          if fless ratio (round32 (9 / 10)) then (scale_down cvt spec ratio curRpsNum, w2)
          else (Returns curRpsNum, w2))"

definition genRepNumFromMemory :: "(f32 \<Rightarrow> int) \<Rightarrow> ('w \<Rightarrow> time \<times> 'w) \<Rightarrow> HorizontalPodAutoscaler \<Rightarrow>
    ResourceMetricSource \<Rightarrow> Pod list \<Rightarrow> int \<Rightarrow> 'w net \<Rightarrow> 'w \<Rightarrow> int outcome \<times> 'w" where
  "genRepNumFromMemory cvt clock hpa metricsTplt podsMatch curRpsNum N w =
     (let spec = HPA_Spec hpa; target = Metric_Target metricsTplt;
          upPeriod = PeriodSeconds (case ScaleUp (Behavior spec) of None \<Rightarrow> defaultUpscalePolicy | Some p \<Rightarrow> p);
          downPeriod = PeriodSeconds (case ScaleDown (Behavior spec) of None \<Rightarrow> defaultDownscalePolicy | Some p \<Rightarrow> p)
      in if Target_Type target \<noteq> AverageValueMetricType then (Returns (- 1), w)
      else case genAvgMemoryUsage clock N upPeriod podsMatch w of (Crashes, w1) \<Rightarrow> (Crashes, w1) | (Returns upAvg, w1) \<Rightarrow>
        let ratio = fdiv upAvg (Fin (AverageValue target)) in
        if fless (round32 (3 / 2)) ratio then (scale_up cvt spec ratio curRpsNum, w1)
        else case genAvgMemoryUsage clock N downPeriod podsMatch w1 of (Crashes, w2) \<Rightarrow> (Crashes, w2) | (Returns downAvg, w2) \<Rightarrow>
          let ratio = fdiv downAvg (Fin (AverageValue target)) in
          if fless ratio (round32 (1 / 2)) then (scale_down cvt spec ratio curRpsNum, w2)
          else (Returns curRpsNum, w2))"

section \<open>One round of the controller\<close>

definition oneMatchRps :: "HorizontalPodAutoscaler \<Rightarrow> ReplicaSet list \<Rightarrow> ReplicaSet option" where
  "oneMatchRps hpa reps = find (\<lambda>rep. Name (RS_Meta rep) = Ref_Name (ScaleTargetRef (HPA_Spec hpa)) \<and>
     Namespace (RS_Meta rep) = Namespace (HPA_Meta hpa)) reps"

definition oneMatchRpsLabels :: "ReplicaSet \<Rightarrow> Pod list \<Rightarrow> Pod list outcome" where
  "oneMatchRpsLabels rep allPods = match_pods (RS_Selector (RS_Spec rep)) allPods"

definition changeRpsPodNum :: "'w net \<Rightarrow> string \<Rightarrow> string \<Rightarrow> int \<Rightarrow> 'w \<Rightarrow> error \<times> 'w" where
  "changeRpsPodNum N name namespace repNum = client_UpdateReplicaSet N name namespace repNum"

text \<open>The loop over the metrics: the largest number any of them asks for, \<open>0\<close> if none does.\<close>

fun max_replicas :: "(f32 \<Rightarrow> int) \<Rightarrow> ('w \<Rightarrow> time \<times> 'w) \<Rightarrow> HorizontalPodAutoscaler \<Rightarrow>
    ResourceMetricSource list \<Rightarrow> Pod list \<Rightarrow> int \<Rightarrow> 'w net \<Rightarrow> int \<Rightarrow> 'w \<Rightarrow> int outcome \<times> 'w" where
  "max_replicas cvt clock hpa [] podsMatch curRpsNum N maxRps w = (Returns maxRps, w)"
| "max_replicas cvt clock hpa (it # its) podsMatch curRpsNum N maxRps w =
     (case (if Metric_Name it = ResourceCPU then genRepNumFromCPU cvt clock hpa it podsMatch curRpsNum N w
            else if Metric_Name it = ResourceMemory then genRepNumFromMemory cvt clock hpa it podsMatch curRpsNum N w
            else (Returns (- 1), w)) of
       (Crashes, w') \<Rightarrow> (Crashes, w')
     | (Returns repNum, w') \<Rightarrow>
         max_replicas cvt clock hpa its podsMatch curRpsNum N (if repNum \<noteq> - 1 then max maxRps repNum else maxRps) w')"

definition scale_window :: "HorizontalPodAutoscaler \<Rightarrow> int" where
  "scale_window hpa = (if ScaleWindowSeconds (HPA_Spec hpa) = 0 then defaultScaleWindow
     else ScaleWindowSeconds (HPA_Spec hpa))"

text \<open>
  The body of the loop over the autoscalers. It keeps in a map when each autoscaler last passed the window,
  also when the number then did not change; an autoscaler without an entry has the zero time, which is long
  past. The last component says what was sent, and when: an observation that the code does not store.
\<close>

type_synonym action = "UID \<times> time \<times> int \<times> int"

definition hpa_step :: "(f32 \<Rightarrow> int) \<Rightarrow> ('w \<Rightarrow> time \<times> 'w) \<Rightarrow> 'w net \<Rightarrow> Pod list \<Rightarrow> HorizontalPodAutoscaler \<Rightarrow>
    (UID \<rightharpoonup> time) \<Rightarrow> 'w \<Rightarrow> ((UID \<rightharpoonup> time) option \<times> action list) \<times> 'w" where
  "hpa_step cvt clock N allPods hpa prevActTimeMap w =
     (case client_GetAllReplicaSets N w of ((reps, err), w1) \<Rightarrow>
      case oneMatchRps hpa reps of
        None \<Rightarrow> ((Some prevActTimeMap, []), w1)
      | Some rep \<Rightarrow> (case oneMatchRpsLabels rep allPods of
          Crashes \<Rightarrow> ((None, []), w1)
        | Returns podsMatch \<Rightarrow>
          if podsMatch = [] then ((Some prevActTimeMap, []), w1)
          else let curRpsNum = Replicas (RS_Spec rep); uid = MetaUID (HPA_Meta hpa) in
            case max_replicas cvt clock hpa (HPA_Metrics (HPA_Spec hpa)) podsMatch curRpsNum N 0 w1 of
              (Crashes, w2) \<Rightarrow> ((None, []), w2)
            | (Returns maxRps, w2) \<Rightarrow>
              (case clock w2 of (now, w3) \<Rightarrow>
               if (case prevActTimeMap uid of None \<Rightarrow> False | Some t \<Rightarrow> now - t < scale_window hpa * Second)
               then ((Some prevActTimeMap, []), w3)
               else case clock w3 of (now', w4) \<Rightarrow>
                 if maxRps \<noteq> curRpsNum \<and> maxRps \<noteq> 0
                 then (case changeRpsPodNum N (Name (RS_Meta rep)) (Namespace (RS_Meta rep)) maxRps w4 of
                   (err, w5) \<Rightarrow> ((Some (prevActTimeMap(uid := Some now')), [(uid, now', scale_window hpa, maxRps)]), w5))
                 else ((Some (prevActTimeMap(uid := Some now')), []), w4))))"

text \<open>\<open>None\<close> for the map stands for a crash.\<close>

fun hpa_steps :: "(f32 \<Rightarrow> int) \<Rightarrow> ('w \<Rightarrow> time \<times> 'w) \<Rightarrow> 'w net \<Rightarrow> Pod list \<Rightarrow> HorizontalPodAutoscaler list \<Rightarrow>
    (UID \<rightharpoonup> time) \<Rightarrow> 'w \<Rightarrow> ((UID \<rightharpoonup> time) option \<times> action list) \<times> 'w" where
  "hpa_steps cvt clock N allPods [] prev w = ((Some prev, []), w)"
| "hpa_steps cvt clock N allPods (hpa # hpas) prev w = (case hpa_step cvt clock N allPods hpa prev w of
     ((None, as), w') \<Rightarrow> ((None, as), w')
   | ((Some prev', as), w') \<Rightarrow> (case hpa_steps cvt clock N allPods hpas prev' w' of
       ((prev'', as'), w'') \<Rightarrow> ((prev'', as @ as'), w'')))"

text \<open>A tick, and the run of \<open>fuel\<close> ticks with the actions so far; failed listings count as empty.\<close>

definition hpa_tick :: "(f32 \<Rightarrow> int) \<Rightarrow> ('w \<Rightarrow> time \<times> 'w) \<Rightarrow> 'w net \<Rightarrow> (UID \<rightharpoonup> time) \<Rightarrow> 'w \<Rightarrow>
    ((UID \<rightharpoonup> time) option \<times> action list) \<times> 'w" where
  "hpa_tick cvt clock N prev w = (case client_GetAllHPAScalers N w of ((hpas, err), w1) \<Rightarrow>
     if hpas = [] then ((Some prev, []), w1)
     else case client_GetAllPods N w1 of ((allPods, err), w2) \<Rightarrow> hpa_steps cvt clock N allPods hpas prev w2)"

fun hpa_run :: "(f32 \<Rightarrow> int) \<Rightarrow> ('w \<Rightarrow> time \<times> 'w) \<Rightarrow> 'w net \<Rightarrow> nat \<Rightarrow> (UID \<rightharpoonup> time) \<Rightarrow> 'w \<Rightarrow> action list \<times> 'w" where
  "hpa_run cvt clock N 0 prev w = ([], w)"
| "hpa_run cvt clock N (Suc fuel) prev w = (case hpa_tick cvt clock N prev w of
     ((None, as), w') \<Rightarrow> (as, w')
   | ((Some prev', as), w') \<Rightarrow> (case hpa_run cvt clock N fuel prev' w' of (as', w'') \<Rightarrow> (as @ as', w'')))"

section \<open>Rounding\<close>

lemma pow2_pos: "0 < pow2 e"
  by (simp add: pow2_def)

lemma round_half_even_nonneg: "0 \<le> q \<Longrightarrow> 0 \<le> round_half_even q"
  by (auto simp: round_half_even_def Let_def)

lemma round32_nonneg: "0 \<le> q \<Longrightarrow> round32 q = PInf \<or> (\<exists>r\<ge>0. round32 q = Fin r)"
  using round_half_even_nonneg [of "q / pow2 e" for e] pow2_pos
  by (auto simp: round32_def Let_def less_imp_le divide_nonneg_pos mult_nonneg_nonneg)

lemma ceil32_range: "in_i32 (ceil32 cvt x)"
  by (auto simp: ceil32_def split: f32.splits)

section \<open>Within the bounds\<close>

definition representable :: "f32 \<Rightarrow> bool" where
  "representable x \<longleftrightarrow> (case x of Fin q \<Rightarrow> in_i32 (ceiling q) | _ \<Rightarrow> False)"

lemma round32_not_neg: "0 \<le> q \<Longrightarrow> round32 q = Fin r \<Longrightarrow> 0 \<le> r"
  using round32_nonneg [of q] by auto

lemma product_nonneg:
  assumes "0 \<le> q" "0 \<le> c" "representable (fmul (round32 q) (round32 c))"
  shows "0 \<le> ceil32 cvt (fmul (round32 q) (round32 c))"
proof -
  obtain x where x: "fmul (round32 q) (round32 c) = Fin x" "in_i32 (ceiling x)"
    using assms(3) by (auto simp: representable_def split: f32.splits)
  from x(1) obtain a b where "round32 q = Fin a" "round32 c = Fin b" "round32 (a * b) = Fin x"
    by (cases "round32 q"; cases "round32 c") (auto simp: signed_inf_def split: if_splits)
  then have "0 \<le> x" using round32_not_neg assms(1,2) by (metis mult_nonneg_nonneg)
  with x show ?thesis by (simp add: ceil32_def)
qed

lemma tdiv_percent:
  assumes "0 \<le> v" "v \<le> 1000" "0 \<le> cur" "cur \<le> 1000000"
  shows "0 \<le> tdiv (i32 (v * cur)) 100" "tdiv (i32 (v * cur)) 100 \<le> 10 * cur"
proof -
  have "v * cur \<le> 1000 * cur" using assms by (intro mult_right_mono) auto
  moreover have "0 \<le> v * cur" using assms by simp
  moreover have "v * cur \<le> 1000000000" using \<open>v * cur \<le> 1000 * cur\<close> assms(4) by linarith
  ultimately have "i32 (v * cur) = v * cur" by (intro i32_id) (simp add: in_i32_def del: mult_nonneg_nonneg)
  moreover have "tdiv x 100 = x div 100" if "0 \<le> x" for x
    using that by (cases "x = 0") (simp_all add: tdiv_def)
  ultimately have "tdiv (i32 (v * cur)) 100 = (v * cur) div 100" using \<open>0 \<le> v * cur\<close> by metis
  then show "0 \<le> tdiv (i32 (v * cur)) 100" "tdiv (i32 (v * cur)) 100 \<le> 10 * cur"
    using \<open>v * cur \<le> 1000 * cur\<close> \<open>0 \<le> v * cur\<close> by linarith+
qed

lemma scale_up_bounds:
  assumes "ScaleUp (Behavior spec) = Some up" "0 \<le> Policy_Value up" "Policy_Value up \<le> 1000"
    "0 \<le> cur" "cur \<le> 1000000" "cur \<le> MaxReplicas spec" "1 \<le> r"
    "representable (fmul (fsub (Fin r) (Fin 1)) (round32 (of_int cur)))"
  shows "\<exists>n. scale_up cvt spec (Fin r) cur = Returns n \<and> cur \<le> n \<and> n \<le> MaxReplicas spec"
proof -
  let ?t = "ceil32 cvt (fmul (fsub (Fin r) (Fin 1)) (round32 (of_int cur)))"
  have f: "fsub (Fin r) (Fin 1) = round32 (r - 1)" by (simp add: fsub_def)
  have t: "0 \<le> ?t" unfolding f using assms(4,7,8) f by (intro product_nonneg) auto
  define a where "a = (if Policy_Type up = PercentScalingPolicy then min ?t (tdiv (i32 (Policy_Value up * cur)) 100)
    else if Policy_Type up = PodsScalingPolicy then min ?t (Policy_Value up) else 1)"
  have "0 \<le> a" "a \<le> 10 * cur + 1000"
    using t tdiv_percent [OF assms(2-5)] assms(2-5) unfolding a_def by auto
  then have "i32 (cur + a) = cur + a" using assms(4,5) by (intro i32_id) (simp add: in_i32_def)
  then have "scale_up cvt spec (Fin r) cur = Returns (if cur + a > MaxReplicas spec then MaxReplicas spec else cur + a)"
    unfolding scale_up_def assms(1) Let_def option.case a_def [symmetric] by simp
  with \<open>0 \<le> a\<close> assms(6) show ?thesis by auto
qed

lemma scale_down_bounds:
  assumes "ScaleDown (Behavior spec) = Some down" "0 \<le> Policy_Value down" "Policy_Value down \<le> 1000"
    "0 \<le> cur" "cur \<le> 1000000" "MinReplicas spec \<le> cur" "r \<le> 1"
    "representable (fmul (fsub (Fin 1) (Fin r)) (round32 (of_int cur)))"
  shows "\<exists>n. scale_down cvt spec (Fin r) cur = Returns n \<and> MinReplicas spec \<le> n \<and> n \<le> cur"
proof -
  let ?t = "ceil32 cvt (fmul (fsub (Fin 1) (Fin r)) (round32 (of_int cur)))"
  have f: "fsub (Fin 1) (Fin r) = round32 (1 - r)" by (simp add: fsub_def)
  have t: "0 \<le> ?t" unfolding f using assms(4,7,8) f by (intro product_nonneg) auto
  define a where "a = (if Policy_Type down = PercentScalingPolicy then min ?t (tdiv (i32 (Policy_Value down * cur)) 100)
    else if Policy_Type down = PodsScalingPolicy then min ?t (Policy_Value down) else 1)"
  have "0 \<le> a" "a \<le> 10 * cur + 1000"
    using t tdiv_percent [OF assms(2-5)] assms(2-5) unfolding a_def by auto
  then have "i32 (cur - a) = cur - a" using assms(4,5) by (intro i32_id) (simp add: in_i32_def)
  then have "scale_down cvt spec (Fin r) cur = Returns (if cur - a < MinReplicas spec then MinReplicas spec else cur - a)"
    unfolding scale_down_def assms(1) Let_def option.case a_def [symmetric] by simp
  with \<open>0 \<le> a\<close> assms(6) show ?thesis by auto
qed

section \<open>Spacing\<close>

definition gap :: "action \<Rightarrow> action \<Rightarrow> bool" where
  "gap a b \<longleftrightarrow> (case (a, b) of ((u, t, _), (u', t', win, _)) \<Rightarrow> u = u' \<longrightarrow> t' - t \<ge> win * Second)"

text \<open>Actions that fit a map of times, and the map they lead to.\<close>

definition fits :: "(UID \<rightharpoonup> time) \<Rightarrow> action list \<Rightarrow> bool" where
  "fits prev as \<longleftrightarrow> sorted_wrt gap as \<and>
     (\<forall>(u, t, win, n)\<in>set as. 0 < n \<and> (\<forall>t0. prev u = Some t0 \<longrightarrow> t - t0 \<ge> win * Second))"

definition leads :: "(UID \<rightharpoonup> time) \<Rightarrow> action list \<Rightarrow> (UID \<rightharpoonup> time) \<Rightarrow> bool" where
  "leads prev as prev' \<longleftrightarrow>
     (\<forall>u t0. prev u = Some t0 \<longrightarrow> (\<exists>t1. prev' u = Some t1 \<and> t0 \<le> t1)) \<and>
     (\<forall>(u, t, win, n)\<in>set as. \<exists>t1. prev' u = Some t1 \<and> t \<le> t1)"

lemma fits_Nil [simp]: "fits prev []"
  by (simp add: fits_def)

lemma leads_refl [simp]: "leads prev [] prev"
  by (simp add: leads_def)

lemma fits_append:
  assumes "fits prev as" "leads prev as prev'" "fits prev' as'"
  shows "fits prev (as @ as')"
proof -
  have "gap a b" if "a \<in> set as" "b \<in> set as'" for a b
    using assms(2,3) that unfolding gap_def fits_def leads_def by fastforce
  moreover have "\<forall>(u, t, win, n)\<in>set as'. 0 < n \<and> (\<forall>t0. prev u = Some t0 \<longrightarrow> t - t0 \<ge> win * Second)"
    using assms(2,3) unfolding fits_def leads_def by fastforce
  ultimately show ?thesis using assms(1,3) by (auto simp: fits_def sorted_wrt_append)
qed

lemma leads_append:
  assumes "leads prev as p1" "leads p1 as' p2"
  shows "leads prev (as @ as') p2"
  using assms unfolding leads_def by fastforce

section \<open>Time\<close>

text \<open>A network and a clock in which time never goes back.\<close>

locale timed_network =
  fixes N :: "'w net" and clock :: "'w \<Rightarrow> time \<times> 'w" and now_of :: "'w \<Rightarrow> time"
  assumes http_time: "now_of w \<le> now_of (snd (http N q w))"
    and stats_time: "now_of w \<le> now_of (snd (stats_http N q' w))"
    and clock_time: "clock w = (t, w') \<Longrightarrow> now_of w \<le> t \<and> t \<le> now_of w'"
begin

lemma http_later: "http N q w = (r, w') \<Longrightarrow> now_of w \<le> now_of w'"
  using http_time [of w q] by simp

lemma stats_later: "stats_http N q w = (r, w') \<Longrightarrow> now_of w \<le> now_of w'"
  using stats_time [of w q] by simp

lemma clock_later: "clock w = (t, w') \<Longrightarrow> now_of w \<le> now_of w'"
  using clock_time [of w t w'] by simp

lemma calls_later:
  "call_data N q expected zero data msg w = (r, w') \<Longrightarrow> now_of w \<le> now_of w'"
  "call_status N q expected msg w = (e, w') \<Longrightarrow> now_of w \<le> now_of w'"
  by (auto simp: call_data_def call_status_def split: prod.splits sum.splits dest: http_later)

lemma pods_sum_later: "pods_sum usage N win t pods s w = (r, w') \<Longrightarrow> now_of w \<le> now_of w'"
proof (induction pods arbitrary: s w)
  case (Cons pod pods)
  obtain m w1 where m: "client_GetPodMetrics N (MetaUID (Pod_Meta pod), t, win) w = (m, w1)" by fastforce
  then have "now_of w \<le> now_of w1"
    by (auto simp: client_GetPodMetrics_def split: prod.splits sum.splits dest: stats_later)
  moreover have "now_of w1 \<le> now_of w'"
    using Cons m by (cases m) (auto split: prod.splits option.splits if_splits)
  ultimately show ?case by simp
qed simp

lemma genAvg_later: "genAvgUsage usage clock N win pods w = (r, w') \<Longrightarrow> now_of w \<le> now_of w'"
  by (auto simp: genAvgUsage_def split: prod.splits outcome.splits dest!: clock_later pods_sum_later)

lemma genRepNum_later:
  "genRepNumFromCPU cvt clock hpa it pods cur N w = (r, w') \<Longrightarrow> now_of w \<le> now_of w'"
  "genRepNumFromMemory cvt clock hpa it pods cur N w = (r, w') \<Longrightarrow> now_of w \<le> now_of w'"
  by (auto simp: genRepNumFromCPU_def genRepNumFromMemory_def genAvgCpuUsage_def genAvgMemoryUsage_def Let_def
      split: prod.splits outcome.splits if_splits dest!: genAvg_later)

lemma max_replicas_later: "max_replicas cvt clock hpa its pods cur N m w = (r, w') \<Longrightarrow> now_of w \<le> now_of w'"
proof (induction its arbitrary: m w)
  case (Cons it its)
  obtain n w1 where n: "(if Metric_Name it = ResourceCPU then genRepNumFromCPU cvt clock hpa it pods cur N w
      else if Metric_Name it = ResourceMemory then genRepNumFromMemory cvt clock hpa it pods cur N w
      else (Returns (- 1), w)) = (n, w1)" by fastforce
  then have "now_of w \<le> now_of w1" by (auto split: if_splits dest: genRepNum_later)
  moreover have "now_of w1 \<le> now_of w'"
    using Cons.IH Cons.prems unfolding max_replicas.simps n by (cases n) (auto split: if_splits)
  ultimately show ?case by simp
qed simp

lemma max_replicas_nonneg: "max_replicas cvt clock hpa its pods cur N m w = (Returns n, w') \<Longrightarrow> m \<le> n"
proof (induction its arbitrary: m w)
  case (Cons it its)
  obtain x w1 where x: "(if Metric_Name it = ResourceCPU then genRepNumFromCPU cvt clock hpa it pods cur N w
      else if Metric_Name it = ResourceMemory then genRepNumFromMemory cvt clock hpa it pods cur N w
      else (Returns (- 1), w)) = (x, w1)" by fastforce
  from Cons.prems show ?case unfolding max_replicas.simps x
    by (cases x) (auto dest!: Cons.IH split: if_splits)
qed simp

text \<open>One autoscaler.\<close>

lemma hpa_step_fits:
  assumes "hpa_step cvt clock N pods hpa prev w = ((p, as), w')" "\<forall>u t. prev u = Some t \<longrightarrow> t \<le> now_of w"
  shows "fits prev as \<and> now_of w \<le> now_of w' \<and>
    (\<forall>prev'. p = Some prev' \<longrightarrow> leads prev as prev' \<and> (\<forall>u t. prev' u = Some t \<longrightarrow> t \<le> now_of w'))"
proof -
  obtain reps err w1 where 1: "client_GetAllReplicaSets N w = ((reps, err), w1)" by (metis surj_pair)
  then have l1: "now_of w \<le> now_of w1" by (auto simp: client_GetAllReplicaSets_def dest: calls_later)
  have unchanged: ?thesis if "p = None \<or> p = Some prev" "as = []" "now_of w \<le> now_of w'"
    using that assms(2) by (auto intro: order_trans)
  show ?thesis
  proof (cases "oneMatchRps hpa reps")
    case None
    with 1 assms(1) l1 show ?thesis by (intro unchanged) (auto simp: hpa_step_def)
  next
    case rep: (Some rep)
    show ?thesis
    proof (cases "oneMatchRpsLabels rep pods")
      case Crashes
      with 1 rep assms(1) l1 show ?thesis by (intro unchanged) (auto simp: hpa_step_def)
    next
      case ps: (Returns ps)
      obtain r w2 where 2: "max_replicas cvt clock hpa (HPA_Metrics (HPA_Spec hpa)) ps (Replicas (RS_Spec rep)) N 0 w1 = (r, w2)"
        by fastforce
      then have l2: "now_of w \<le> now_of w2" using l1 by (auto dest: max_replicas_later)
      obtain now w3 where 3: "clock w2 = (now, w3)" by fastforce
      obtain now' w4 where 4: "clock w3 = (now', w4)" by fastforce
      note c = clock_time [OF 3] clock_time [OF 4]
      let ?uid = "MetaUID (HPA_Meta hpa)"
      let ?in = "case prev ?uid of None \<Rightarrow> False | Some t \<Rightarrow> now - t < scale_window hpa * Second"
      show ?thesis
      proof (cases "ps = [] \<or> r = Crashes \<or> ?in")
        case True
        with 1 2 3 rep ps assms(1) l1 l2 c show ?thesis
          by (intro unchanged; cases r) (auto simp: hpa_step_def Let_def split: if_splits)
      next
        case False
        then obtain n where n: "r = Returns n" "ps \<noteq> []" "\<not> ?in" by (cases r) auto
        have gap: "now' - t \<ge> scale_window hpa * Second" if "prev ?uid = Some t" for t
          using n(3) that c by simp
        have later: "t \<le> now' \<and> t \<le> now_of x" if "prev u = Some t" "now_of w4 \<le> now_of x" for u t x
          using assms(2) that l2 c by (meson order_trans)
        show ?thesis
        proof (cases "n \<noteq> Replicas (RS_Spec rep) \<and> n \<noteq> 0")
          case True
          obtain e w5 where 5: "changeRpsPodNum N (Name (RS_Meta rep)) (Namespace (RS_Meta rep)) n w4 = (e, w5)" by fastforce
          have l5: "now_of w4 \<le> now_of w5"
            using 5 by (auto simp: changeRpsPodNum_def client_UpdateReplicaSet_def dest: calls_later)
          have "p = Some (prev(?uid \<mapsto> now'))" "as = [(?uid, now', scale_window hpa, n)]" "w' = w5"
            using assms(1) 1 2 3 4 5 rep ps n True by (simp_all add: hpa_step_def Let_def)
          moreover have "0 < n" using max_replicas_nonneg [OF 2 [unfolded n(1)]] True by simp
          ultimately show ?thesis using gap later [OF _ l5] l2 l5 c
            by (auto simp: fits_def leads_def)
        next
          case False
          have "p = Some (prev(?uid \<mapsto> now'))" "as = []" "w' = w4"
            using assms(1) 1 2 3 4 rep ps n False by (auto simp: hpa_step_def Let_def)
          then show ?thesis using later [OF _ order_refl] l2 c by (auto simp: leads_def)
        qed
      qed
    qed
  qed
qed

lemma hpa_steps_fits:
  assumes "hpa_steps cvt clock N pods hpas prev w = ((p, as), w')" "\<forall>u t. prev u = Some t \<longrightarrow> t \<le> now_of w"
  shows "fits prev as \<and> now_of w \<le> now_of w' \<and>
    (\<forall>prev'. p = Some prev' \<longrightarrow> leads prev as prev' \<and> (\<forall>u t. prev' u = Some t \<longrightarrow> t \<le> now_of w'))"
  using assms
proof (induction hpas arbitrary: prev w p as w')
  case (Cons hpa hpas)
  obtain q bs w1 where 1: "hpa_step cvt clock N pods hpa prev w = ((q, bs), w1)" by (metis surj_pair)
  note s = hpa_step_fits [OF 1 Cons.prems(2)]
  show ?case
  proof (cases q)
    case None
    with 1 s Cons.prems(1) show ?thesis by auto
  next
    case (Some prev1)
    obtain p2 cs w2 where 2: "hpa_steps cvt clock N pods hpas prev1 w1 = ((p2, cs), w2)" by (metis surj_pair)
    have "\<forall>u t. prev1 u = Some t \<longrightarrow> t \<le> now_of w1" using s Some by simp
    from Cons.IH [OF 2 this] s Some have "fits prev (bs @ cs)" "now_of w \<le> now_of w2"
      "\<forall>prev'. p2 = Some prev' \<longrightarrow> leads prev (bs @ cs) prev' \<and> (\<forall>u t. prev' u = Some t \<longrightarrow> t \<le> now_of w2)"
      by (auto intro: fits_append leads_append)
    moreover have "p = p2" "as = bs @ cs" "w' = w2" using 1 2 Some Cons.prems(1) by auto
    ultimately show ?thesis by simp
  qed
qed simp

lemma hpa_tick_fits:
  assumes "hpa_tick cvt clock N prev w = ((p, as), w')" "\<forall>u t. prev u = Some t \<longrightarrow> t \<le> now_of w"
  shows "fits prev as \<and> now_of w \<le> now_of w' \<and>
    (\<forall>prev'. p = Some prev' \<longrightarrow> leads prev as prev' \<and> (\<forall>u t. prev' u = Some t \<longrightarrow> t \<le> now_of w'))"
proof -
  obtain hpas err w1 where 1: "client_GetAllHPAScalers N w = ((hpas, err), w1)" by (metis surj_pair)
  obtain pods err' w2 where 2: "client_GetAllPods N w1 = ((pods, err'), w2)" by (metis surj_pair)
  have l: "now_of w \<le> now_of w1" "now_of w1 \<le> now_of w2"
    using 1 2 by (auto simp: client_GetAllHPAScalers_def client_GetAllPods_def dest: calls_later)
  show ?thesis
  proof (cases "hpas = []")
    case True
    with 1 assms l show ?thesis by (auto simp: hpa_tick_def intro: order_trans)
  next
    case False
    with 1 2 assms(1) have "hpa_steps cvt clock N pods hpas prev w2 = ((p, as), w')" by (simp add: hpa_tick_def)
    moreover have "\<forall>u t. prev u = Some t \<longrightarrow> t \<le> now_of w2" using assms(2) l by (meson order_trans)
    ultimately show ?thesis using hpa_steps_fits [of cvt pods hpas prev w2 p as w'] l by auto
  qed
qed

lemma hpa_run_fits:
  assumes "hpa_run cvt clock N fuel prev w = (as, w')" "\<forall>u t. prev u = Some t \<longrightarrow> t \<le> now_of w"
  shows "fits prev as"
  using assms
proof (induction fuel arbitrary: prev w as)
  case (Suc fuel)
  obtain p bs w1 where 1: "hpa_tick cvt clock N prev w = ((p, bs), w1)" by (metis surj_pair)
  note s = hpa_tick_fits [OF 1 Suc.prems(2)]
  show ?case
  proof (cases p)
    case None
    with 1 s Suc.prems(1) show ?thesis by auto
  next
    case (Some prev1)
    obtain cs w2 where 2: "hpa_run cvt clock N fuel prev1 w1 = (cs, w2)" by fastforce
    have "\<forall>u t. prev1 u = Some t \<longrightarrow> t \<le> now_of w1" using s Some by simp
    with Suc.IH [of prev1 w1 cs] 1 2 s Some Suc.prems(1) show ?thesis by (auto intro: fits_append)
  qed
qed simp

end

section \<open>Properties\<close>

text \<open>
  C23. Scaling stays between the present number and the bound of the autoscaler: with a load above the target and
  sane policies, scaling up gives between the present number and the maximum, and scaling down between the
  minimum and the present number. Any ratio of loads, any policy type; the product of ratio and number has to be
  representable.
\<close>

theorem hpa_scale_bounds:
  assumes "ScaleUp (Behavior spec) = Some up" "0 \<le> Policy_Value up" "Policy_Value up \<le> 1000"
    "ScaleDown (Behavior spec) = Some down" "0 \<le> Policy_Value down" "Policy_Value down \<le> 1000"
    "0 \<le> cur" "cur \<le> 1000000" "MinReplicas spec \<le> cur" "cur \<le> MaxReplicas spec" "1 \<le> r" "r' \<le> 1"
    "representable (fmul (fsub (Fin r) (Fin 1)) (round32 (of_int cur)))"
    "representable (fmul (fsub (Fin 1) (Fin r')) (round32 (of_int cur)))"
  shows "\<exists>n n'. scale_up cvt spec (Fin r) cur = Returns n \<and> cur \<le> n \<and> n \<le> MaxReplicas spec \<and>
    scale_down cvt spec (Fin r') cur = Returns n' \<and> MinReplicas spec \<le> n' \<and> n' \<le> cur"
  using scale_up_bounds [OF assms(1,2,3,7,8,10,11,13), of cvt] scale_down_bounds [OF assms(4-9,12,14), of cvt] by blast

definition demo_spec :: HorizontalPodAutoscalerSpec where
  "demo_spec = \<lparr>ScaleTargetRef = \<lparr>Ref_Kind = ''ReplicaSet'', Ref_Name = ''web'', Ref_APIVersion = ''v1''\<rparr>,
     MinReplicas = 1, MaxReplicas = 4, ScaleWindowSeconds = 0,
     HPA_Metrics = [\<lparr>Metric_Name = ResourceCPU, Metric_Target = \<lparr>Target_Type = UtilizationMetricType,
       AverageValue = 0, AverageUtilization = 50, UpperThreshold = 0, LowerThreshold = 0\<rparr>\<rparr>],
     Behavior = \<lparr>ScaleUp = Some \<lparr>Policy_Type = PodsScalingPolicy, Policy_Value = 3, PeriodSeconds = 60\<rparr>,
       ScaleDown = Some \<lparr>Policy_Type = PercentScalingPolicy, Policy_Value = 50, PeriodSeconds = 60\<rparr>\<rparr>\<rparr>"

lemma demo_spec_policies:
  "ScaleUp (Behavior demo_spec) = Some \<lparr>Policy_Type = PodsScalingPolicy, Policy_Value = 3, PeriodSeconds = 60\<rparr>"
  "ScaleDown (Behavior demo_spec) = Some \<lparr>Policy_Type = PercentScalingPolicy, Policy_Value = 50, PeriodSeconds = 60\<rparr>"
  by (simp_all add: demo_spec_def)

theorem hpa_scale_bounds_witness:
  "\<exists>n n'. scale_up (\<lambda>_. 0) demo_spec (Fin 2) 3 = Returns n \<and> 3 \<le> n \<and> n \<le> MaxReplicas demo_spec \<and>
    scale_down (\<lambda>_. 0) demo_spec (Fin (1 / 2)) 3 = Returns n' \<and> MinReplicas demo_spec \<le> n' \<and> n' \<le> 3"
proof (rule hpa_scale_bounds [OF demo_spec_policies(1) _ _ demo_spec_policies(2)])
  show "representable (fmul (fsub (Fin 2) (Fin 1)) (round32 (of_int 3)))"
    "representable (fmul (fsub (Fin 1) (Fin (1 / 2))) (round32 (of_int 3)))" by code_simp+
qed (simp_all add: demo_spec_def)

text \<open>
  C24. The controller keeps the window of each autoscaler: in any run, however long, two numbers sent for the
  same autoscaler are at least the window of the later one apart, and every number sent is positive.
\<close>

theorem hpa_cooldown:
  assumes "timed_network N clock now_of" "hpa_run cvt clock N fuel Map.empty w = (as, w')"
  shows "sorted_wrt (\<lambda>(u, t, _, _) (u', t', win', _). u = u' \<longrightarrow> t' - t \<ge> win' * Second) as \<and>
    (\<forall>(u, t, win, n)\<in>set as. 0 < n)"
proof -
  have g: "gap = (\<lambda>(u, t, _, _) (u', t', win', _). u = u' \<longrightarrow> t' - t \<ge> win' * Second)"
    by (auto simp: gap_def fun_eq_iff)
  have "fits Map.empty as" using timed_network.hpa_run_fits [OF assms] by simp
  then show ?thesis unfolding fits_def g by auto
qed

definition demo_hpa :: HorizontalPodAutoscaler where
  "demo_hpa = zero_HorizontalPodAutoscaler\<lparr>HPA_Meta := zero_ObjectMeta\<lparr>Name := ''scaler'', Namespace := ''default'', MetaUID := ''h''\<rparr>,
     HPA_Spec := demo_spec\<rparr>"

definition hpa_world :: "(string, document) gomap \<times> nat \<times> metricsDb" where
  "hpa_world = ([(''/registry/pods/p'', JPod ((demo_pod ''web'')\<lparr>Pod_Meta := (demo_meta ''web'')\<lparr>MetaUID := ''p''\<rparr>\<rparr>)),
     (''/registry/scaling/h'', JHPA demo_hpa),
     (''/registry/namespaces/default/replicasets/web'', Raw ''r''),
     (''/registry/replicaset/r'', JReplicaSet (demo_rs\<lparr>RS_Meta := zero_ObjectMeta\<lparr>Name := ''web'', Namespace := ''default'', MetaUID := ''r''\<rparr>,
        RS_Spec := (RS_Spec demo_rs)\<lparr>Replicas := 1\<rparr>\<rparr>))], 5,
     [''p'' \<mapsto> \<lparr>Metrics_UID = ''p'', ContainerInfo = Some [(''c'', [\<lparr>Item_TimeStamp = 0, CPUUsage = 1, MemoryUsage = 0\<rparr>])]\<rparr>])"

definition demo_clock :: "'v \<times> nat \<times> metricsDb \<Rightarrow> time \<times> ('v \<times> nat \<times> metricsDb)" where
  "demo_clock w = (case w of (v, n, db) \<Rightarrow> (int n, (v, Suc n, db)))"

interpretation demo_time: timed_network demo_net demo_clock "\<lambda>w. int (fst (snd w))"
proof
  fix q :: "UID \<Rightarrow> time \<Rightarrow> request" and q' t and w w' :: "(string, document) gomap \<times> nat \<times> metricsDb"
  show "int (fst (snd w)) \<le> int (fst (snd (snd (http demo_net q w))))"
    by (cases w) (auto simp: demo_net_def direct_net_def split: prod.splits)
  show "int (fst (snd w)) \<le> int (fst (snd (snd (stats_http demo_net q' w))))"
    by (cases w) (auto simp: demo_net_def direct_net_def split: prod.splits)
  show "demo_clock w = (t, w') \<Longrightarrow> int (fst (snd w)) \<le> t \<and> t \<le> int (fst (snd w'))"
    by (auto simp: demo_clock_def split: prod.splits)
qed

theorem hpa_cooldown_witness:
  "fst (hpa_run (\<lambda>_. 0) demo_clock demo_net 2 Map.empty hpa_world) = [(''h'', 10, 15, 2)] \<and>
    sorted_wrt (\<lambda>(u, t, _, _) (u', t', win', _). u = u' \<longrightarrow> t' - t \<ge> win' * Second)
      (fst (hpa_run (\<lambda>_. 0) demo_clock demo_net 2 Map.empty hpa_world))"
proof
  show "fst (hpa_run (\<lambda>_. 0) demo_clock demo_net 2 Map.empty hpa_world) = [(''h'', 10, 15, 2)]" by code_simp
  show "sorted_wrt (\<lambda>(u, t, _, _) (u', t', win', _). u = u' \<longrightarrow> t' - t \<ge> win' * Second)
      (fst (hpa_run (\<lambda>_. 0) demo_clock demo_net 2 Map.empty hpa_world))"
    by (rule hpa_cooldown [OF demo_time.timed_network_axioms prod.collapse [symmetric], THEN conjunct1])
qed

text \<open>
  An autoscaler without a policy for scaling up crashes the controller as soon as its load is above the
  threshold: the default policy serves only for the length of the window.
\<close>

theorem hpa_missing_policy_crashes:
  assumes "ScaleUp (Behavior (HPA_Spec hpa)) = None" "Target_Type (Metric_Target it) = UtilizationMetricType"
    "genAvgCpuUsage clock N (PeriodSeconds defaultUpscalePolicy) pods w = (Returns load, w1)"
    "fless (round32 (11 / 10)) (fdiv load (fdiv (Fin (AverageUtilization (Metric_Target it))) (Fin 100)))"
  shows "genRepNumFromCPU cvt clock hpa it pods cur N w = (Crashes, w1)"
  using assms by (simp add: genRepNumFromCPU_def scale_up_def)

definition bare_hpa :: HorizontalPodAutoscaler where
  "bare_hpa = demo_hpa\<lparr>HPA_Spec := demo_spec\<lparr>Behavior := \<lparr>ScaleUp = None, ScaleDown = None\<rparr>\<rparr>\<rparr>"

definition bare_pods :: "Pod list" where
  "bare_pods = [(demo_pod ''web'')\<lparr>Pod_Meta := (demo_meta ''web'')\<lparr>MetaUID := ''p''\<rparr>\<rparr>]"

theorem hpa_missing_policy_crashes_witness:
  "fst (genRepNumFromCPU (\<lambda>_. 0) demo_clock bare_hpa (hd (HPA_Metrics demo_spec)) bare_pods 1 demo_net hpa_world) = Crashes"
proof -
  let ?g = "genAvgCpuUsage demo_clock demo_net (PeriodSeconds defaultUpscalePolicy) bare_pods hpa_world"
  have "fst ?g = Returns (Fin 1)" by code_simp
  then have g: "?g = (Returns (Fin 1), snd ?g)" by (metis prod.collapse)
  have "fless (round32 (11 / 10)) (fdiv (Fin 1) (fdiv (Fin (AverageUtilization (Metric_Target (hd (HPA_Metrics demo_spec))))) (Fin 100)))"
    by code_simp
  from hpa_missing_policy_crashes [OF _ _ g this, of bare_hpa] show ?thesis
    by (simp add: bare_hpa_def demo_spec_def)
qed

end
