(* ===== verification/Kubelet_Runtime.thy ===== *)
theory Kubelet_Runtime
  imports Hpa
begin

text \<open>
  The container runtime of a node: the types of \<open>pkg/kubelet/runtime/runtime.go\<close>, the runtime manager of
  \<open>pkg/kubelet/runtime/runtime_manager.go\<close> and \<open>pkg/kubelet/network/weave_adapt.go\<close>. The Docker engine, the
  program \<open>weave\<close>, the file system and the clock are parameters: the record \<open>engine\<close> has one
  operation for each call the manager makes. A manager's lock is held during every public operation, so an
  operation is one step over the state of the engine and the map of addresses.
  Not modelled: \<open>injectSideCar\<close> and \<open>getPortBindings\<close>, which nothing calls; closing clients and readers.
\<close>

section \<open>Effects\<close>

text \<open>A step over a state that can fail with an error value or panic.\<close>

datatype failure = Failed string | Panicked

type_synonym ('s, 'a) io = "'s \<Rightarrow> (failure + 'a) \<times> 's"

definition io_return :: "'a \<Rightarrow> ('s, 'a) io" where
  "io_return x s = (Inr x, s)"

definition io_fail :: "string \<Rightarrow> ('s, 'a) io" where
  "io_fail e s = (Inl (Failed e), s)"

definition io_panic :: "('s, 'a) io" where
  "io_panic s = (Inl Panicked, s)"

definition io_bind :: "('s, 'a) io \<Rightarrow> ('a \<Rightarrow> ('s, 'b) io) \<Rightarrow> ('s, 'b) io" where
  "io_bind m k s = (case m s of (Inl e, s') \<Rightarrow> (Inl e, s') | (Inr x, s') \<Rightarrow> k x s')"

definition io_lift :: "('w, 'a) io \<Rightarrow> ('w \<times> 'm, 'a) io" where
  "io_lift m s = (case m (fst s) of (r, w') \<Rightarrow> (r, (w', snd s)))"

definition io_modify :: "('m \<Rightarrow> 'm) \<Rightarrow> ('w \<times> 'm, unit) io" where
  "io_modify f s = (Inr (), (fst s, f (snd s)))"

fun io_each :: "('a \<Rightarrow> ('s, unit) io) \<Rightarrow> 'a list \<Rightarrow> ('s, unit) io" where
  "io_each f [] = io_return ()"
| "io_each f (x # xs) = io_bind (f x) (\<lambda>_. io_each f xs)"

lemmas io_simps = io_return_def io_fail_def io_panic_def io_bind_def io_lift_def io_modify_def

section \<open>Runtime objects\<close>

type_synonym ContainerState = string

definition ContainerStateCreated :: ContainerState where [simp]: "ContainerStateCreated = ''created''"
definition ContainerStateRunning :: ContainerState where [simp]: "ContainerStateRunning = ''running''"
definition ContainerStateExited :: ContainerState where [simp]: "ContainerStateExited = ''exited''"
definition ContainerStateUnknown :: ContainerState where [simp]: "ContainerStateUnknown = ''unknown''"

record RuntimeContainer =
  RC_ID :: string
  RC_Name :: string
  RC_Image :: string
  RC_State :: ContainerState

record RuntimePod =
  RP_ID :: UID
  RP_Name :: string
  RP_Namespace :: string
  RP_CreatedAt :: int
  RP_Containers :: "RuntimeContainer list"

record ContainerResources =
  CPURequest :: string
  CPULimit :: string
  MemoryRequest :: string
  MemoryLimit :: string

record ContainerStatus =
  CS_ID :: string
  CS_Name :: string
  CS_State :: ContainerState
  CS_CreatedAt :: time
  CS_StartedAt :: time
  CS_FinishedAt :: time
  CS_ExitCode :: int
  CS_Image :: string
  CS_Resources :: "ContainerResources option"

record RuntimeStatus =
  ST_ID :: UID
  ST_Name :: string
  ST_Namespace :: string
  IPs :: "string list"
  ContainerStatuses :: "ContainerStatus list"
  ST_TimeStamp :: time

definition zero_RuntimeContainer :: RuntimeContainer where
  "zero_RuntimeContainer = \<lparr>RC_ID = '''', RC_Name = '''', RC_Image = '''', RC_State = ''''\<rparr>"

definition zero_RuntimePod :: RuntimePod where
  "zero_RuntimePod = \<lparr>RP_ID = '''', RP_Name = '''', RP_Namespace = '''', RP_CreatedAt = 0, RP_Containers = []\<rparr>"

definition zero_ContainerStatus :: ContainerStatus where
  "zero_ContainerStatus = \<lparr>CS_ID = '''', CS_Name = '''', CS_State = '''', CS_CreatedAt = 0, CS_StartedAt = 0,
     CS_FinishedAt = 0, CS_ExitCode = 0, CS_Image = '''', CS_Resources = None\<rparr>"

section \<open>The engine\<close>

record DockerContainer =
  DC_ID :: string
  DC_Image :: string
  DC_Created :: int
  DC_State :: string
  DC_Status :: string
  DC_Labels :: "(string, string) gomap"

text \<open>What a container is created with; \<open>''''\<close> and the empty list are the fields that are not set.\<close>

record CreateConfig =
  CC_Image :: string
  CC_Cmd :: "string list"
  CC_Tty :: bool
  CC_Labels :: "(string, string) gomap"
  CC_User :: string
  CC_ExposedPorts :: "string set"
  CC_DNS :: "string list"
  CC_NetworkMode :: string
  CC_PidMode :: string
  CC_Privileged :: bool
  CC_Mounts :: "(string \<times> string) list"

definition plain_config :: "string \<Rightarrow> CreateConfig" where
  "plain_config img = \<lparr>CC_Image = img, CC_Cmd = [], CC_Tty = True, CC_Labels = [], CC_User = '''',
     CC_ExposedPorts = {}, CC_DNS = [], CC_NetworkMode = '''', CC_PidMode = '''', CC_Privileged = False,
     CC_Mounts = []\<rparr>"

text \<open>
  \<open>Wait\<close> gives what arrives first: an error (or its absence) or the exit status. \<open>Weave\<close> runs the program with
  a subcommand and a container and gives what it printed.
\<close>

record 'w engine =
  NewClient :: "('w, unit) io"
  ContainerList :: "('w, DockerContainer list) io"
  ImageList :: "('w, string list list) io"
  ImagePull :: "string \<Rightarrow> ('w, unit) io"
  ContainerCreate :: "CreateConfig \<Rightarrow> ('w, string) io"
  ContainerStart :: "string \<Rightarrow> ('w, unit) io"
  ContainerStop :: "string \<Rightarrow> ('w, unit) io"
  ContainerRestart :: "string \<Rightarrow> ('w, unit) io"
  ContainerRemove :: "string \<Rightarrow> ('w, unit) io"
  ContainerWait :: "string \<Rightarrow> ('w, error + int) io"
  Weave :: "string \<Rightarrow> string \<Rightarrow> ('w, string) io"
  MkdirAll :: "string \<Rightarrow> ('w, unit) io"
  Now :: "'w \<Rightarrow> time \<times> 'w"

section \<open>Weave\<close>

text \<open>\<open>strings.TrimSpace\<close>, for the blanks that are one byte.\<close>

definition is_space :: "char \<Rightarrow> bool" where
  "is_space c \<longleftrightarrow> (of_char c :: nat) \<in> {9, 10, 11, 12, 13, 32}"

definition TrimSpace :: "string \<Rightarrow> string" where
  "TrimSpace s = rev (dropWhile is_space (rev (dropWhile is_space s)))"

definition Attach :: "'w engine \<Rightarrow> string \<Rightarrow> ('w, string) io" where
  "Attach E containerId = io_bind (Weave E ''attach'' containerId) (\<lambda>out.
     let IPString = TrimSpace out in
     if \<not> ParseIP IPString then io_fail (''weave returns invalid IP address: '' @ IPString) else io_return IPString)"

definition Detach :: "'w engine \<Rightarrow> string \<Rightarrow> ('w, unit) io" where
  "Detach E containerId = io_bind (Weave E ''detach'' containerId) (\<lambda>out.
     let IPString = TrimSpace out in
     if \<not> ParseIP IPString then io_fail (''weave detach failed, expect detached IP, actual: '' @ IPString) else io_return ())"

section \<open>Reading the state of the containers\<close>

definition getAllContainersIncludingPause :: "'w engine \<Rightarrow> ('w, DockerContainer list) io" where
  "getAllContainersIncludingPause E = io_bind (NewClient E) (\<lambda>_. ContainerList E)"

definition is_pause :: "DockerContainer \<Rightarrow> bool" where
  "is_pause c \<longleftrightarrow> map_of (DC_Labels c) ''PauseType'' \<noteq> None"

definition getAllContainers :: "'w engine \<Rightarrow> ('w, DockerContainer list) io" where
  "getAllContainers E = io_bind (NewClient E) (\<lambda>_. io_bind (ContainerList E) (\<lambda>containers.
     io_return (filter (\<lambda>c. \<not> is_pause c) containers)))"

definition checkContainerState :: "DockerContainer \<Rightarrow> RuntimeContainer \<Rightarrow> RuntimeContainer" where
  "checkContainerState ct todo = todo\<lparr>RC_State :=
     (if DC_State ct = ''exited'' then ContainerStateExited
      else if DC_State ct = ''running'' then ContainerStateRunning
      else if DC_State ct = ''created'' then ContainerStateCreated
      else ContainerStateUnknown)\<rparr>"

text \<open>\<open>strconv.Atoi\<close> with its error dropped: a number out of range gives the nearest one, other texts give \<open>0\<close>.\<close>

definition atoi_or_zero :: "string \<Rightarrow> int" where
  "atoi_or_zero s = (case sign_of s of (neg, ds) \<Rightarrow>
     if ds = [] \<or> \<not> list_all is_digit ds then 0
     else let v = (if neg then - int (digits_val ds) else int (digits_val ds)) in max (- (2 ^ 63)) (min (2 ^ 63 - 1) v))"

text \<open>
  The exit code stands in parentheses in the status text; a closing parenthesis before the opening one makes
  the slice expression panic (\<open>None\<close>).
\<close>

definition checkContainerStatus :: "DockerContainer \<Rightarrow> ContainerStatus \<Rightarrow> ContainerStatus option" where
  "checkContainerStatus ct todo =
     (if DC_State ct = ''exited'' then
        let todo = todo\<lparr>CS_State := ContainerStateExited\<rparr> in
        (case index_of (CHR ''('') (DC_Status ct) of
           None \<Rightarrow> Some todo
         | Some left \<Rightarrow> (case index_of (CHR '')'') (DC_Status ct) of
             None \<Rightarrow> Some todo
           | Some right \<Rightarrow> if right < left + 1 then None
               else Some (todo\<lparr>CS_ExitCode := atoi_or_zero (drop (left + 1) (take right (DC_Status ct)))\<rparr>)))
      else if DC_State ct = ''running'' then Some (todo\<lparr>CS_State := ContainerStateRunning\<rparr>)
      else if DC_State ct = ''created'' then Some (todo\<lparr>CS_State := ContainerStateCreated\<rparr>)
      else Some (todo\<lparr>CS_State := ContainerStateUnknown\<rparr>))"

text \<open>The inner loop of \<open>GetAllPods\<close>: the container joins the first pod of that name, if there is one.\<close>

fun join_pod :: "string \<Rightarrow> RuntimeContainer \<Rightarrow> RuntimePod list \<Rightarrow> RuntimePod list option" where
  "join_pod podBelonged c [] = None"
| "join_pod podBelonged c (podexist # ps) =
     (if RP_Name podexist = podBelonged then Some (podexist\<lparr>RP_Containers := RP_Containers podexist @ [c]\<rparr> # ps)
      else map_option (Cons podexist) (join_pod podBelonged c ps))"

definition runtime_container :: "DockerContainer \<Rightarrow> RuntimeContainer" where
  "runtime_container c = checkContainerState c (zero_RuntimeContainer\<lparr>RC_ID := DC_ID c, RC_Image := DC_Image c,
     RC_Name := mget (DC_Labels c) ''Name''\<rparr>)"

definition runtime_pod :: "string \<Rightarrow> DockerContainer \<Rightarrow> RuntimePod" where
  "runtime_pod podBelonged c = zero_RuntimePod\<lparr>RP_Name := podBelonged,
     RP_Namespace := mget (DC_Labels c) ''PodNamespace'', RP_Containers := [runtime_container c],
     RP_ID := mget (DC_Labels c) ''PodID''\<rparr>"

fun collect_runtime_pods :: "DockerContainer list \<Rightarrow> RuntimePod list \<Rightarrow> RuntimePod list" where
  "collect_runtime_pods [] ret = ret"
| "collect_runtime_pods (c # cs) ret = (case map_of (DC_Labels c) ''PodName'' of
     None \<Rightarrow> collect_runtime_pods cs ret
   | Some podBelonged \<Rightarrow> (case join_pod podBelonged (runtime_container c) ret of
       Some ret' \<Rightarrow> collect_runtime_pods cs ret'
     | None \<Rightarrow> collect_runtime_pods cs (ret @ [runtime_pod podBelonged c])))"

type_synonym ip_map = "UID \<rightharpoonup> string"

definition RT_GetAllPods :: "'w engine \<Rightarrow> ('w \<times> ip_map, RuntimePod list) io" where
  "RT_GetAllPods E = io_lift (io_bind (getAllContainers E) (\<lambda>containers. io_return (collect_runtime_pods containers [])))"

text \<open>\<open>GetPodStatus\<close> goes by the name of the pod alone.\<close>

fun container_statuses :: "string \<Rightarrow> DockerContainer list \<Rightarrow> ContainerStatus list option" where
  "container_statuses PodName [] = Some []"
| "container_statuses PodName (c # cs) =
     (if mget (DC_Labels c) ''PodName'' = PodName then
        (case checkContainerStatus c (zero_ContainerStatus\<lparr>CS_ID := DC_ID c, CS_Image := DC_Image c,
            CS_Name := mget (DC_Labels c) ''Name'', CS_CreatedAt := DC_Created c * Second\<rparr>) of
           None \<Rightarrow> None
         | Some st \<Rightarrow> map_option (Cons st) (container_statuses PodName cs))
      else container_statuses PodName cs)"

definition getPodContainers :: "'w engine \<Rightarrow> string \<Rightarrow> ('w, ContainerStatus list) io" where
  "getPodContainers E PodName = io_bind (getAllContainers E) (\<lambda>containers.
     case container_statuses PodName containers of None \<Rightarrow> io_panic | Some sts \<Rightarrow> io_return sts)"

definition RT_GetPodStatus :: "'w engine \<Rightarrow> UID \<Rightarrow> string \<Rightarrow> string \<Rightarrow> ('w \<times> ip_map, RuntimeStatus) io" where
  "RT_GetPodStatus E ID PodName PodSpace = io_bind (io_lift (getPodContainers E PodName)) (\<lambda>containers.
     (\<lambda>s. case Now E (fst s) of (now, w) \<Rightarrow>
       (Inr \<lparr>ST_ID = ID, ST_Name = PodName, ST_Namespace = PodSpace,
             IPs = (case snd s ID of None \<Rightarrow> [] | Some ip \<Rightarrow> [ip]),
             ContainerStatuses = containers, ST_TimeStamp = now\<rparr>, (w, snd s))))"

section \<open>Creating pods\<close>

definition PauseContainerImage :: string where
  "PauseContainerImage = ''registry.aliyuncs.com/google_containers/pause:3.6''"

definition checkImages :: "'w engine \<Rightarrow> string \<Rightarrow> ('w, bool) io" where
  "checkImages E repotag = io_bind (NewClient E) (\<lambda>_. io_bind (ImageList E) (\<lambda>images.
     io_return (list_ex (\<lambda>tags. list_ex (\<lambda>rt. rt = repotag) tags) images)))"

text \<open>The shape that the three ways of creating a container share.\<close>

definition ensure_image :: "'w engine \<Rightarrow> string \<Rightarrow> ('w, unit) io" where
  "ensure_image E img = io_bind (checkImages E img) (\<lambda>exi. if \<not> exi then ImagePull E img else io_return ())"

definition exposed_key :: "ContainerPort \<Rightarrow> string" where
  "exposed_key port = dec_int (ContainerPort_Port port) @
     (if ContainerPort_Protocol port = ProtocolTCP then ''/tcp''
      else if ContainerPort_Protocol port = ProtocolUDP then ''/udp'' else ''/tcp'')"

definition getExposedPorts :: "Container list \<Rightarrow> string set" where
  "getExposedPorts containers = (\<Union>c\<in>set containers. exposed_key ` set (Container_Ports c))"

definition pause_labels :: "Pod \<Rightarrow> (string, string) gomap" where
  "pause_labels pod = [(''PodID'', MetaUID (Pod_Meta pod)), (''PodName'', Name (Pod_Meta pod)), (''PauseType'', ''pause''),
     (''Name'', Name (Pod_Meta pod) @ '':PauseContainer''), (''PodNamespace'', Namespace (Pod_Meta pod))]"

definition pause_config :: "string \<Rightarrow> Pod \<Rightarrow> CreateConfig" where
  "pause_config nameserverIP pod = (plain_config PauseContainerImage)\<lparr>CC_Tty := False, CC_Labels := pause_labels pod,
     CC_ExposedPorts := getExposedPorts (Containers (Pod_Spec pod)), CC_DNS := [nameserverIP]\<rparr>"

definition CreatePauseContainer :: "'w engine \<Rightarrow> string \<Rightarrow> Pod \<Rightarrow> ('w \<times> ip_map, string) io" where
  "CreatePauseContainer E nameserverIP pod =
     io_bind (io_lift (NewClient E)) (\<lambda>_.
     io_bind (io_lift (ensure_image E PauseContainerImage)) (\<lambda>_.
     io_bind (io_lift (ContainerCreate E (pause_config nameserverIP pod))) (\<lambda>cid.
     io_bind (io_lift (ContainerStart E cid)) (\<lambda>_.
     io_bind (io_lift (Attach E cid)) (\<lambda>ip.
     io_bind (io_modify (\<lambda>m. m(MetaUID (Pod_Meta pod) := Some ip))) (\<lambda>_.
     io_return cid))))))"

definition is_privileged :: "Container \<Rightarrow> bool" where
  "is_privileged c = (case Container_SecurityContext c of None \<Rightarrow> False | Some sc \<Rightarrow> Privileged sc = Some True)"

definition run_as :: "Container \<Rightarrow> string" where
  "run_as c = (case Container_SecurityContext c of
     None \<Rightarrow> ''''
   | Some sc \<Rightarrow> if Privileged sc = Some True then ''''
       else case RunAsUser sc of None \<Rightarrow> '''' | Some u \<Rightarrow> dec_int u)"

text \<open>An init container runs to its end and is removed; one that fails stays.\<close>

definition createInitContainer :: "'w engine \<Rightarrow> Container \<Rightarrow> string \<Rightarrow> ('w, unit) io" where
  "createInitContainer E c pauseID =
     io_bind (NewClient E) (\<lambda>_.
     io_bind (ensure_image E (Container_Image c)) (\<lambda>_.
     io_bind (ContainerCreate E ((plain_config (Container_Image c))\<lparr>CC_NetworkMode := ''container:'' @ pauseID,
       CC_Privileged := is_privileged c\<rparr>)) (\<lambda>cid.
     io_bind (ContainerStart E cid) (\<lambda>_.
     io_bind (ContainerWait E cid) (\<lambda>ended.
       (case ended of
          Inl (Some e) \<Rightarrow> io_fail e
        | Inl None \<Rightarrow> ContainerRemove E cid
        | Inr st \<Rightarrow> if st \<noteq> 0 then io_fail (''init container exited with status '' @ dec_int st)
            else ContainerRemove E cid))))))"

text \<open>The loop over the mounts of a container: source directory and target.\<close>

fun mounts_of :: "(string, string) gomap \<Rightarrow> VolumeMount list \<Rightarrow> string + (string \<times> string) list" where
  "mounts_of volumes [] = Inr []"
| "mounts_of volumes (v # vs) = (case map_of volumes (VolumeMount_Name v) of
     None \<Rightarrow> Inl (''create container: volume '' @ VolumeMount_Name v @ '' not declared'')
   | Some dir \<Rightarrow> (case mounts_of volumes vs of Inl e \<Rightarrow> Inl e | Inr ms \<Rightarrow> Inr ((dir, MountPath v) # ms)))"

definition container_labels :: "Container \<Rightarrow> UID \<Rightarrow> string \<Rightarrow> string \<Rightarrow> (string, string) gomap" where
  "container_labels ct PodID PodName PodNameSpace =
     [(''PodID'', PodID), (''PodName'', PodName), (''Name'', Container_Name ct), (''PodNamespace'', PodNameSpace)]"

definition container_config ::
    "Container \<Rightarrow> string \<Rightarrow> UID \<Rightarrow> string \<Rightarrow> string \<Rightarrow> (string \<times> string) list \<Rightarrow> CreateConfig" where
  "container_config ct PauseId PodID PodName PodNameSpace mounts = (plain_config (Container_Image ct))\<lparr>
     CC_Cmd := Command ct, CC_Labels := container_labels ct PodID PodName PodNameSpace, CC_User := run_as ct,
     CC_NetworkMode := ''container:'' @ PauseId, CC_PidMode := ''container:'' @ PauseId,
     CC_Privileged := is_privileged ct, CC_Mounts := mounts\<rparr>"

definition createContainer :: "'w engine \<Rightarrow> Container \<Rightarrow> string \<Rightarrow> UID \<Rightarrow> string \<Rightarrow> string \<Rightarrow>
    (string, string) gomap \<Rightarrow> ('w, string) io" where
  "createContainer E ct PauseId PodID PodName PodNameSpace volumes =
     io_bind (NewClient E) (\<lambda>_.
     io_bind (ensure_image E (Container_Image ct)) (\<lambda>_.
     (case mounts_of volumes (VolumeMounts ct) of
        Inl e \<Rightarrow> io_fail e
      | Inr mounts \<Rightarrow>
          io_bind (ContainerCreate E (container_config ct PauseId PodID PodName PodNameSpace mounts)) (\<lambda>cid.
          io_bind (ContainerStart E cid) (\<lambda>_.
          io_return cid)))))"

definition volume_dir :: "UID \<Rightarrow> string \<Rightarrow> string" where
  "volume_dir uid name = ''/tmp/minikubernetes/volumes/'' @ uid @ ''/'' @ name"

fun make_volumes :: "'w engine \<Rightarrow> UID \<Rightarrow> Volume list \<Rightarrow> (string, string) gomap \<Rightarrow> ('w, (string, string) gomap) io" where
  "make_volumes E uid [] ret = io_return ret"
| "make_volumes E uid (volume # vs) ret =
     (let src = Volume_Source volume; name = Volume_Name volume in
      if \<not> EmptyDir src \<and> HostPath src = None then io_fail (''create volume dir: volume '' @ name @ '' has no source'')
      else if HostPath src \<noteq> None \<and> EmptyDir src
        then io_fail (''create volume dir: volume '' @ name @ '' cannot have both hostPath and emptyDir'')
      else let dir = (if EmptyDir src then volume_dir uid name else case HostPath src of None \<Rightarrow> '''' | Some path \<Rightarrow> path) in
        io_bind (\<lambda>s. case MkdirAll E dir s of
            (Inl (Failed e), s') \<Rightarrow> (Inl (Failed (''create volume dir: failed to create volume dir '' @ dir @ '': '' @ e)), s')
          | r \<Rightarrow> r) (\<lambda>_. make_volumes E uid vs (mput name dir ret)))"

definition createVolumeDir :: "'w engine \<Rightarrow> Pod \<Rightarrow> ('w, (string, string) gomap) io" where
  "createVolumeDir E pod = make_volumes E (MetaUID (Pod_Meta pod)) (Volumes (Pod_Spec pod)) []"

definition add_container :: "'w engine \<Rightarrow> Pod \<Rightarrow> string \<Rightarrow> Container \<Rightarrow> ('w, unit) io" where
  "add_container E pod PauseId ct =
     io_bind (createVolumeDir E pod) (\<lambda>volumes.
     io_bind (createContainer E ct PauseId (MetaUID (Pod_Meta pod)) (Name (Pod_Meta pod)) (Namespace (Pod_Meta pod)) volumes)
       (\<lambda>_. io_return ()))"

definition RT_AddPod :: "'w engine \<Rightarrow> string \<Rightarrow> Pod \<Rightarrow> ('w \<times> ip_map, unit) io" where
  "RT_AddPod E nameserverIP pod =
     io_bind (CreatePauseContainer E nameserverIP pod) (\<lambda>PauseId.
     io_bind (io_lift (io_each (\<lambda>c. createInitContainer E c PauseId) (InitContainers (Pod_Spec pod)))) (\<lambda>_.
     io_lift (io_each (add_container E pod PauseId) (Containers (Pod_Spec pod)))))"

section \<open>Deleting and restarting pods\<close>

definition deleteContainer :: "'w engine \<Rightarrow> DockerContainer \<Rightarrow> ('w, unit) io" where
  "deleteContainer E ct =
     io_bind (NewClient E) (\<lambda>_.
     io_bind (if DC_State ct = ''running'' then ContainerStop E (DC_ID ct) else io_return ()) (\<lambda>_.
     ContainerRemove E (DC_ID ct)))"

definition delete_one :: "'w engine \<Rightarrow> UID \<Rightarrow> DockerContainer \<Rightarrow> ('w \<times> ip_map, unit) io" where
  "delete_one E ID c =
     (if mget (DC_Labels c) ''PodID'' = ID then
        io_bind (if is_pause c then
            io_bind (io_lift (Detach E (DC_ID c))) (\<lambda>_. io_modify (\<lambda>m. m(mget (DC_Labels c) ''PodID'' := None)))
          else io_return ()) (\<lambda>_.
        io_lift (deleteContainer E c))
      else io_return ())"

definition RT_DeletePod :: "'w engine \<Rightarrow> UID \<Rightarrow> ('w \<times> ip_map, unit) io" where
  "RT_DeletePod E ID = io_bind (io_lift (getAllContainersIncludingPause E)) (\<lambda>containers.
     io_each (delete_one E ID) containers)"

definition RT_RestartPod :: "'w engine \<Rightarrow> Pod \<Rightarrow> ('w \<times> ip_map, unit) io" where
  "RT_RestartPod E pod =
     io_bind (io_lift (NewClient E)) (\<lambda>_.
     io_bind (io_lift (getAllContainers E)) (\<lambda>containers.
     io_lift (io_each (\<lambda>ct. if mget (DC_Labels ct) ''PodID'' = MetaUID (Pod_Meta pod)
       then ContainerRestart E (DC_ID ct) else io_return ()) containers)))"

section \<open>Listing pods is grouping containers\<close>

definition pod_name :: "DockerContainer \<Rightarrow> string option" where
  "pod_name c = map_of (DC_Labels c) ''PodName''"

text \<open>The reference: the names of the pods in the order of their first containers, each with its containers.\<close>

definition group :: "string \<Rightarrow> DockerContainer list \<Rightarrow> DockerContainer list" where
  "group n cs = filter (\<lambda>c. pod_name c = Some n) cs"

definition pod_names :: "DockerContainer list \<Rightarrow> string list" where
  "pod_names cs = rev (remdups (rev (List.map_filter pod_name cs)))"

definition pod_of_group :: "string \<Rightarrow> DockerContainer list \<Rightarrow> RuntimePod" where
  "pod_of_group n cs = (runtime_pod n (hd cs))\<lparr>RP_Containers := map runtime_container cs\<rparr>"

definition group_pods :: "DockerContainer list \<Rightarrow> RuntimePod list" where
  "group_pods cs = map (\<lambda>n. pod_of_group n (group n cs)) (pod_names cs)"

definition collect_step :: "DockerContainer \<Rightarrow> RuntimePod list \<Rightarrow> RuntimePod list" where
  "collect_step c ret = (case pod_name c of
     None \<Rightarrow> ret
   | Some n \<Rightarrow> (case join_pod n (runtime_container c) ret of Some ret' \<Rightarrow> ret' | None \<Rightarrow> ret @ [runtime_pod n c]))"

lemma collect_runtime_fold: "collect_runtime_pods cs ret = fold collect_step cs ret"
  by (induction cs arbitrary: ret) (auto simp: collect_step_def pod_name_def split: option.splits)

lemma join_pod_None: "join_pod n c ps = None \<longleftrightarrow> n \<notin> RP_Name ` set ps"
  by (induction ps) auto

lemma join_pod_Some:
  assumes "distinct (map RP_Name ps)" "n \<in> RP_Name ` set ps"
  shows "join_pod n c ps = Some (map (\<lambda>p. if RP_Name p = n then p\<lparr>RP_Containers := RP_Containers p @ [c]\<rparr> else p) ps)"
  using assms
proof (induction ps)
  case (Cons p ps)
  show ?case
  proof (cases "RP_Name p = n")
    case True
    then have "RP_Name q \<noteq> n" if "q \<in> set ps" for q
      using Cons.prems(1) that by (metis distinct.simps(2) imageI list.map(2) list.set_map)
    then have "map (\<lambda>p. if RP_Name p = n then p\<lparr>RP_Containers := RP_Containers p @ [c]\<rparr> else p) ps = ps"
      by (intro map_idI) auto
    with True show ?thesis by simp
  next
    case False
    with Cons show ?thesis by auto
  qed
qed simp

lemma RP_Name_group [simp]: "RP_Name (pod_of_group n cs) = n"
  by (simp add: pod_of_group_def runtime_pod_def)

lemma pod_names_snoc:
  "pod_names (cs @ [c]) = (case pod_name c of None \<Rightarrow> pod_names cs
     | Some n \<Rightarrow> if n \<in> set (pod_names cs) then pod_names cs else pod_names cs @ [n])"
  by (auto simp: pod_names_def List.map_filter_def split: option.splits)

lemma distinct_pod_names [simp]: "distinct (pod_names cs)"
  by (simp add: pod_names_def)

lemma in_pod_names: "n \<in> set (pod_names cs) \<longleftrightarrow> group n cs \<noteq> []"
proof -
  have "n \<in> set (List.map_filter pod_name cs) \<longleftrightarrow> (\<exists>c\<in>set cs. pod_name c = Some n)"
    by (induction cs) (auto split: option.splits)
  then show ?thesis by (auto simp: pod_names_def group_def filter_empty_conv)
qed

lemma pod_of_group_snoc:
  "cs \<noteq> [] \<Longrightarrow> pod_of_group n (cs @ [c]) =
     (pod_of_group n cs)\<lparr>RP_Containers := RP_Containers (pod_of_group n cs) @ [runtime_container c]\<rparr>"
  by (simp add: pod_of_group_def)

lemma collect_group_step: "collect_step c (group_pods cs) = group_pods (cs @ [c])"
proof (cases "pod_name c")
  case None
  then show ?thesis by (simp add: collect_step_def group_pods_def pod_names_snoc group_def)
next
  case (Some n)
  have names: "map RP_Name (group_pods cs) = pod_names cs"
    by (simp add: group_pods_def comp_def)
  have other: "group m (cs @ [c]) = group m cs" if "m \<noteq> n" for m
    using that Some by (simp add: group_def)
  have own: "group n (cs @ [c]) = group n cs @ [c]"
    using Some by (simp add: group_def)
  show ?thesis
  proof (cases "n \<in> set (pod_names cs)")
    case True
    then have "n \<in> RP_Name ` set (group_pods cs)"
      using names by (metis set_map)
    then have "collect_step c (group_pods cs) =
        map (\<lambda>p. if RP_Name p = n then p\<lparr>RP_Containers := RP_Containers p @ [runtime_container c]\<rparr> else p) (group_pods cs)"
      using join_pod_Some [of "group_pods cs" n "runtime_container c"] names
      by (simp add: collect_step_def Some)
    also have "\<dots> = group_pods (cs @ [c])"
      using True own other in_pod_names [of n cs]
      by (auto simp: group_pods_def pod_names_snoc Some pod_of_group_snoc)
    finally show ?thesis .
  next
    case False
    then have "n \<notin> RP_Name ` set (group_pods cs)"
      using names by (metis set_map)
    then have "collect_step c (group_pods cs) = group_pods cs @ [runtime_pod n c]"
      using join_pod_None [of n "runtime_container c" "group_pods cs"] by (simp add: collect_step_def Some)
    also have "\<dots> = group_pods (cs @ [c])"
    proof -
      have "runtime_pod n c = pod_of_group n (group n (cs @ [c]))"
        using False in_pod_names [of n cs] own by (simp add: pod_of_group_def runtime_pod_def)
      moreover have "map (\<lambda>m. pod_of_group m (group m (cs @ [c]))) (pod_names cs) = group_pods cs"
        unfolding group_pods_def using False other by (intro map_cong refl) metis
      ultimately show ?thesis using False by (simp add: group_pods_def pod_names_snoc Some)
    qed
    finally show ?thesis .
  qed
qed

lemma collect_runtime_groups: "collect_runtime_pods cs [] = group_pods cs"
proof (induction cs rule: rev_induct)
  case Nil
  show ?case by (simp add: group_pods_def pod_names_def map_filter_simps)
next
  case (snoc c cs)
  then show ?case by (simp add: collect_runtime_fold collect_group_step)
qed

section \<open>Deleting a pod\<close>

definition pod_id :: "DockerContainer \<Rightarrow> string" where
  "pod_id c = mget (DC_Labels c) ''PodID''"

text \<open>
  What the manager relies on: the engine lists its containers, stopping one changes its state and status only,
  a successful removal removes it and a failed one does not, and neither clients nor weave touch the containers.
\<close>

definition docker_law :: "'w engine \<Rightarrow> ('w \<Rightarrow> DockerContainer list) \<Rightarrow> bool" where
  "docker_law E view \<longleftrightarrow>
     (\<forall>w r w'. NewClient E w = (r, w') \<longrightarrow> view w' = view w) \<and>
     (\<forall>w r w'. ContainerList E w = (r, w') \<longrightarrow> view w' = view w \<and> (\<forall>cs. r = Inr cs \<longrightarrow> cs = view w)) \<and>
     (\<forall>i w r w'. ContainerStop E i w = (r, w') \<longrightarrow> (\<exists>st desc. view w' =
        map (\<lambda>c. if DC_ID c = i then c\<lparr>DC_State := st, DC_Status := desc\<rparr> else c) (view w))) \<and>
     (\<forall>i w r w'. ContainerRemove E i w = (r, w') \<longrightarrow> view w' =
        (if r = Inr () then filter (\<lambda>c. DC_ID c \<noteq> i) (view w) else view w)) \<and>
     (\<forall>cmd i w r w'. Weave E cmd i w = (r, w') \<longrightarrow> view w' = view w)"

lemma io_bind_cases:
  assumes "io_bind m k s = (r, s')"
  obtains e where "m s = (Inl e, s')" "r = Inl e"
  | x s1 where "m s = (Inr x, s1)" "k x s1 = (r, s')"
  using assms by (auto simp: io_bind_def split: prod.splits sum.splits)

lemma io_lift_cases:
  assumes "io_lift m s = (r, s')"
  shows "m (fst s) = (r, fst s')" "snd s' = snd s"
  using assms by (auto simp: io_lift_def split: prod.splits)

lemma docker_stop:
  assumes "docker_law E view" "ContainerStop E i w = (r, w')"
  obtains st desc where "view w' = map (\<lambda>c. if DC_ID c = i then c\<lparr>DC_State := st, DC_Status := desc\<rparr> else c) (view w)"
proof -
  have "\<forall>i w r w'. ContainerStop E i w = (r, w') \<longrightarrow> (\<exists>st desc. view w' =
      map (\<lambda>c. if DC_ID c = i then c\<lparr>DC_State := st, DC_Status := desc\<rparr> else c) (view w))"
    using assms(1) unfolding docker_law_def by (elim conjE) assumption
  with assms(2) that show thesis by blast
qed

lemma docker_new: "docker_law E view \<Longrightarrow> NewClient E w = (r, w') \<Longrightarrow> view w' = view w"
  unfolding docker_law_def by (elim conjE) blast

lemma docker_containers:
  "docker_law E view \<Longrightarrow> ContainerList E w = (r, w') \<Longrightarrow> view w' = view w \<and> (\<forall>cs. r = Inr cs \<longrightarrow> cs = view w)"
  unfolding docker_law_def by (elim conjE) blast

lemma docker_remove:
  "docker_law E view \<Longrightarrow> ContainerRemove E i w = (r, w') \<Longrightarrow>
     view w' = (if r = Inr () then filter (\<lambda>c. DC_ID c \<noteq> i) (view w) else view w)"
  unfolding docker_law_def by (elim conjE) blast

lemma docker_weave: "docker_law E view \<Longrightarrow> Weave E cmd i w = (r, w') \<Longrightarrow> view w' = view w"
  unfolding docker_law_def by (elim conjE) blast

lemma docker_list:
  assumes "docker_law E view" "getAllContainersIncludingPause E w = (r, w')"
  shows "view w' = view w \<and> (\<forall>cs. r = Inr cs \<longrightarrow> cs = view w)"
  using assms(2) unfolding getAllContainersIncludingPause_def
proof (rule io_bind_cases)
  fix e assume "NewClient E w = (Inl e, w')" "r = Inl e"
  then show ?thesis using docker_new [OF assms(1)] by auto
next
  fix x s1 assume "NewClient E w = (Inr x, s1)" "ContainerList E s1 = (r, w')"
  then show ?thesis using docker_new [OF assms(1)] docker_containers [OF assms(1)] by metis
qed

text \<open>The containers of the other pods, and the identifiers of the containers of a pod.\<close>

definition others :: "UID \<Rightarrow> DockerContainer list \<Rightarrow> DockerContainer list" where
  "others ID cs = filter (\<lambda>c. pod_id c \<noteq> ID) cs"

definition own :: "UID \<Rightarrow> DockerContainer list \<Rightarrow> string set" where
  "own ID cs = DC_ID ` {c \<in> set cs. pod_id c = ID}"

definition kept :: "UID \<Rightarrow> DockerContainer list \<Rightarrow> DockerContainer list \<Rightarrow> bool" where
  "kept ID cs cs' \<longleftrightarrow> others ID cs' = others ID cs \<and> own ID cs' \<subseteq> own ID cs"

lemma kept_refl [simp]: "kept ID cs cs"
  by (simp add: kept_def)

lemma kept_trans: "kept ID a b \<Longrightarrow> kept ID b c \<Longrightarrow> kept ID a c"
  by (auto simp: kept_def)

lemma kept_stop:
  assumes "i \<notin> DC_ID ` set (others ID cs)"
  shows "kept ID cs (map (\<lambda>c. if DC_ID c = i then c\<lparr>DC_State := st, DC_Status := desc\<rparr> else c) cs)"
    (is "kept ID cs (map ?f cs)")
proof -
  have pid: "pod_id (?f c) = pod_id c" and cid: "DC_ID (?f c) = DC_ID c" for c
    by (simp_all add: pod_id_def)
  have "others ID (map ?f cs) = map ?f (others ID cs)"
    using pid by (simp add: others_def filter_map comp_def)
  also have "\<dots> = others ID cs"
    using assms by (intro map_idI) auto
  finally have "others ID (map ?f cs) = others ID cs" .
  moreover have "own ID (map ?f cs) \<subseteq> own ID cs"
  proof
    fix x assume "x \<in> own ID (map ?f cs)"
    then obtain c where "c \<in> set cs" "x = DC_ID (?f c)" "pod_id (?f c) = ID" by (auto simp: own_def)
    then show "x \<in> own ID cs" using pid cid by (auto simp: own_def)
  qed
  ultimately show ?thesis by (simp add: kept_def)
qed

lemma kept_remove:
  assumes "i \<notin> DC_ID ` set (others ID cs)"
  shows "kept ID cs (filter (\<lambda>c. DC_ID c \<noteq> i) cs)"
  using assms by (auto simp: kept_def own_def others_def filter_filter intro!: filter_cong)

lemma deleteContainer_effect:
  assumes law: "docker_law E view" and run: "deleteContainer E c w = (r, w')"
    and fresh: "DC_ID c \<notin> DC_ID ` set (others ID (view w))"
  shows "kept ID (view w) (view w')" "r = Inr () \<Longrightarrow> DC_ID c \<notin> DC_ID ` set (view w')"
proof -
  define R where "R w1 \<longleftrightarrow> kept ID (view w) (view w1)" for w1
  have new: "NewClient E w = (x, w1) \<Longrightarrow> R w1" for x w1
    using docker_new [OF law] by (simp add: R_def)
  have stop: "R w2" if "(if DC_State c = ''running'' then ContainerStop E (DC_ID c) else io_return ()) w1 = (x, w2)" "R w1" for x w1 w2
  proof (cases "DC_State c = ''running''")
    case True
    with that(1) have "ContainerStop E (DC_ID c) w1 = (x, w2)" by simp
    then obtain st desc where "view w2 = map (\<lambda>d. if DC_ID d = DC_ID c then d\<lparr>DC_State := st, DC_Status := desc\<rparr> else d) (view w1)"
      by (rule docker_stop [OF law])
    moreover have "DC_ID c \<notin> DC_ID ` set (others ID (view w1))" using fresh that(2) by (simp add: R_def kept_def)
    from this have "kept ID (view w1) (map (\<lambda>d. if DC_ID d = DC_ID c then d\<lparr>DC_State := st, DC_Status := desc\<rparr> else d) (view w1))"
      by (rule kept_stop)
    ultimately show ?thesis using that(2) unfolding R_def by (simp add: kept_trans)
  qed (use that in \<open>simp add: io_return_def\<close>)
  have remove: "R w3 \<and> (x = Inr () \<longrightarrow> DC_ID c \<notin> DC_ID ` set (view w3))"
    if "ContainerRemove E (DC_ID c) w2 = (x, w3)" "R w2" for x w2 w3
  proof -
    have "view w3 = (if x = Inr () then filter (\<lambda>d. DC_ID d \<noteq> DC_ID c) (view w2) else view w2)"
      using docker_remove [OF law that(1)] .
    moreover have "DC_ID c \<notin> DC_ID ` set (others ID (view w2))" using fresh that(2) by (simp add: R_def kept_def)
    from kept_trans [OF that(2) [unfolded R_def] kept_remove [OF this]]
    have "kept ID (view w) (filter (\<lambda>d. DC_ID d \<noteq> DC_ID c) (view w2))" .
    ultimately show ?thesis using that(2) unfolding R_def by auto
  qed
  have "R w' \<and> (r = Inr () \<longrightarrow> DC_ID c \<notin> DC_ID ` set (view w'))"
    using run unfolding deleteContainer_def
  proof (rule io_bind_cases)
    fix e assume "NewClient E w = (Inl e, w')" "r = Inl e"
    then show ?thesis using new by auto
  next
    fix x w1 assume 1: "NewClient E w = (Inr x, w1)"
      "io_bind (if DC_State c = ''running'' then ContainerStop E (DC_ID c) else io_return ()) (\<lambda>_. ContainerRemove E (DC_ID c)) w1 = (r, w')"
    from 1(2) show ?thesis
    proof (rule io_bind_cases)
      fix e assume "(if DC_State c = ''running'' then ContainerStop E (DC_ID c) else io_return ()) w1 = (Inl e, w')" "r = Inl e"
      then show ?thesis using stop [OF _ new [OF 1(1)]] by auto
    next
      fix y w2 assume 2: "(if DC_State c = ''running'' then ContainerStop E (DC_ID c) else io_return ()) w1 = (Inr y, w2)"
        "ContainerRemove E (DC_ID c) w2 = (r, w')"
      show ?thesis by (rule remove [OF 2(2) stop [OF 2(1) new [OF 1(1)]]])
    qed
  qed
  then show "kept ID (view w) (view w')" "r = Inr () \<Longrightarrow> DC_ID c \<notin> DC_ID ` set (view w')"
    by (auto simp: R_def)
qed

lemma delete_one_effect:
  assumes law: "docker_law E view" and run: "delete_one E ID c s = (r, s')"
    and c: "DC_ID c \<notin> DC_ID ` set (others ID (view (fst s)))"
  shows "kept ID (view (fst s)) (view (fst s'))" "\<forall>u. u \<noteq> ID \<longrightarrow> snd s' u = snd s u"
    "snd s ID = None \<Longrightarrow> snd s' ID = None"
    "r = Inr () \<Longrightarrow> pod_id c = ID \<Longrightarrow> DC_ID c \<notin> DC_ID ` set (view (fst s')) \<and> (is_pause c \<longrightarrow> snd s' ID = None)"
proof -
  have detach: "view w' = view w" if "Detach E i w = (x, w')" for i x w w'
    using that unfolding Detach_def by (elim io_bind_cases) (auto dest: docker_weave [OF law] simp: io_return_def io_fail_def Let_def split: if_splits)
  define Q where "Q \<longleftrightarrow> kept ID (view (fst s)) (view (fst s')) \<and> (\<forall>u. u \<noteq> ID \<longrightarrow> snd s' u = snd s u)
    \<and> (snd s ID = None \<longrightarrow> snd s' ID = None)
    \<and> (r = Inr () \<longrightarrow> pod_id c = ID \<longrightarrow> DC_ID c \<notin> DC_ID ` set (view (fst s')) \<and> (is_pause c \<longrightarrow> snd s' ID = None))"
  have Q
  proof (cases "pod_id c = ID")
    case False
    with run show ?thesis by (auto simp: Q_def delete_one_def pod_id_def io_return_def)
  next
    case True
    note delete = deleteContainer_effect [OF law, of c _ _ _ ID]
    show ?thesis
    proof (cases "is_pause c")
      case pause: True
      obtain x w1 where d: "Detach E (DC_ID c) (fst s) = (x, w1)" by fastforce
      note v1 = detach [OF d]
      show ?thesis
      proof (cases x)
        case (Inl e)
        with run d True pause have "s' = (w1, snd s)" "r = Inl e"
          by (auto simp: delete_one_def pod_id_def io_bind_def io_lift_def)
        with v1 show ?thesis by (simp add: Q_def)
      next
        case (Inr y)
        with run d True pause have "io_lift (deleteContainer E c) (w1, (snd s)(ID := None)) = (r, s')"
          by (auto simp: delete_one_def pod_id_def io_bind_def io_lift_def io_modify_def)
        from io_lift_cases [OF this] have del: "deleteContainer E c w1 = (r, fst s')" and m: "snd s' = (snd s)(ID := None)"
          by simp_all
        show ?thesis using delete [OF del] c v1 m by (auto simp: Q_def)
      qed
    next
      case False
      with run True have "io_lift (deleteContainer E c) s = (r, s')"
        by (auto simp: delete_one_def pod_id_def io_bind_def io_return_def split: prod.splits)
      from io_lift_cases [OF this] have del: "deleteContainer E c (fst s) = (r, fst s')" and m: "snd s' = snd s"
        by simp_all
      show ?thesis using delete [OF del] c m False by (auto simp: Q_def)
    qed
  qed
  then show "kept ID (view (fst s)) (view (fst s'))" "\<forall>u. u \<noteq> ID \<longrightarrow> snd s' u = snd s u"
    "snd s ID = None \<Longrightarrow> snd s' ID = None"
    "r = Inr () \<Longrightarrow> pod_id c = ID \<Longrightarrow> DC_ID c \<notin> DC_ID ` set (view (fst s')) \<and> (is_pause c \<longrightarrow> snd s' ID = None)"
    by (auto simp: Q_def)
qed

lemma delete_all_effect:
  assumes law: "docker_law E view" and run: "io_each (delete_one E ID) cs s = (r, s')"
    and cs: "\<forall>c\<in>set cs. pod_id c = ID \<longrightarrow> DC_ID c \<notin> DC_ID ` set (others ID (view (fst s)))"
  shows "kept ID (view (fst s)) (view (fst s'))" "\<forall>u. u \<noteq> ID \<longrightarrow> snd s' u = snd s u"
    "snd s ID = None \<Longrightarrow> snd s' ID = None"
    "r = Inr () \<Longrightarrow> \<forall>c\<in>set cs. pod_id c = ID \<longrightarrow> DC_ID c \<notin> own ID (view (fst s')) \<and> (is_pause c \<longrightarrow> snd s' ID = None)"
proof -
  have "kept ID (view (fst s)) (view (fst s')) \<and> (\<forall>u. u \<noteq> ID \<longrightarrow> snd s' u = snd s u) \<and> (snd s ID = None \<longrightarrow> snd s' ID = None)
    \<and> (r = Inr () \<longrightarrow> (\<forall>c\<in>set cs. pod_id c = ID \<longrightarrow> DC_ID c \<notin> own ID (view (fst s')) \<and> (is_pause c \<longrightarrow> snd s' ID = None)))"
    using run cs
  proof (induction cs arbitrary: s)
    case Nil
    then show ?case by (simp add: io_return_def)
  next
    case (Cons c cs)
    show ?case
    proof (cases "pod_id c = ID")
      case False
      then have "delete_one E ID c s = (Inr (), s)"
        by (simp add: delete_one_def pod_id_def io_return_def)
      then have "io_each (delete_one E ID) cs s = (r, s')"
        using Cons.prems(1) by (simp add: io_bind_def)
      from Cons.IH [OF this] Cons.prems(2) False show ?thesis by simp
    next
      case True
      have c: "DC_ID c \<notin> DC_ID ` set (others ID (view (fst s)))" using Cons.prems(2) True by simp
      obtain x s1 where one: "delete_one E ID c s = (x, s1)" by (cases "delete_one E ID c s")
      note e = delete_one_effect [OF law one c]
      show ?thesis
      proof (cases x)
        case (Inl f)
        with Cons.prems(1) one have "s' = s1" "r = Inl f" by (auto simp: io_bind_def)
        with e show ?thesis by auto
      next
        case (Inr y)
        with Cons.prems(1) one have rest: "io_each (delete_one E ID) cs s1 = (r, s')" by (auto simp: io_bind_def)
        have "others ID (view (fst s1)) = others ID (view (fst s))" using e(1) by (simp add: kept_def)
        with Cons.IH [OF rest] Cons.prems(2)
        have IH: "kept ID (view (fst s1)) (view (fst s'))" "\<forall>u. u \<noteq> ID \<longrightarrow> snd s' u = snd s1 u"
          "snd s1 ID = None \<longrightarrow> snd s' ID = None"
          "r = Inr () \<longrightarrow> (\<forall>c\<in>set cs. pod_id c = ID \<longrightarrow> DC_ID c \<notin> own ID (view (fst s')) \<and> (is_pause c \<longrightarrow> snd s' ID = None))"
          by auto
        have "DC_ID c \<notin> own ID (view (fst s1))" using e(4) True Inr by (auto simp: own_def)
        then have "DC_ID c \<notin> own ID (view (fst s'))" using IH(1) by (auto simp: kept_def)
        with IH e True Inr show ?thesis using kept_trans [OF e(1) IH(1)] by auto
      qed
    qed
  qed
  then show "kept ID (view (fst s)) (view (fst s'))" "\<forall>u. u \<noteq> ID \<longrightarrow> snd s' u = snd s u"
    "snd s ID = None \<Longrightarrow> snd s' ID = None"
    "r = Inr () \<Longrightarrow> \<forall>c\<in>set cs. pod_id c = ID \<longrightarrow> DC_ID c \<notin> own ID (view (fst s')) \<and> (is_pause c \<longrightarrow> snd s' ID = None)"
    by auto
qed

section \<open>Properties\<close>

text \<open>
  C25: whatever the engine lists, the runtime manager's pods are the reference grouping: one pod for each name that
  containers carry, in the order of the first container of the name, with all its containers (pause
  containers left out), and with the identifier and the namespace of the first one.
\<close>

theorem list_pods_groups:
  "RT_GetAllPods E s = (case io_lift (getAllContainers E) s of
     (Inl e, s') \<Rightarrow> (Inl e, s')
   | (Inr cs, s') \<Rightarrow> (Inr (map (\<lambda>n. pod_of_group n (group n cs)) (pod_names cs)), s'))"
  by (simp add: RT_GetAllPods_def io_lift_def io_bind_def io_return_def collect_runtime_groups group_pods_def
      split: prod.splits sum.splits)

text \<open>
  C26: deleting a pod leaves the containers of all other pods and their addresses as they were, also when it stops at an
  error; when it succeeds, no container of the pod is left, and its address is forgotten if it had a pause container.
\<close>

theorem delete_pod_exact:
  assumes "docker_law E view" "distinct (map DC_ID (view w))" "RT_DeletePod E ID (w, m) = (r, (w', m'))"
  shows "filter (\<lambda>c. pod_id c \<noteq> ID) (view w') = filter (\<lambda>c. pod_id c \<noteq> ID) (view w) \<and>
    (\<forall>u. u \<noteq> ID \<longrightarrow> m' u = m u) \<and>
    (r = Inr () \<longrightarrow> (\<forall>c\<in>set (view w'). pod_id c \<noteq> ID) \<and>
       ((\<exists>c\<in>set (view w). pod_id c = ID \<and> is_pause c) \<longrightarrow> m' ID = None))"
proof -
  obtain x w1 where l: "getAllContainersIncludingPause E w = (x, w1)" by fastforce
  note list = docker_list [OF assms(1) l]
  show ?thesis
  proof (cases x)
    case (Inl e)
    with assms(3) l list show ?thesis by (auto simp: RT_DeletePod_def io_bind_def io_lift_def)
  next
    case (Inr cs)
    with list have v: "cs = view w" "view w1 = view w" by auto
    from assms(3) l Inr have run: "io_each (delete_one E ID) cs (w1, m) = (r, (w', m'))"
      by (simp add: RT_DeletePod_def io_bind_def io_lift_def)
    have inj: "inj_on DC_ID (set (view w))" using assms(2) by (simp add: distinct_map)
    have "\<forall>c\<in>set cs. pod_id c = ID \<longrightarrow> DC_ID c \<notin> DC_ID ` set (others ID (view (fst (w1, m))))"
      using inj_onD [OF inj] v by (fastforce simp: others_def)
    note e = delete_all_effect [OF assms(1) run this]
    have "pod_id c \<noteq> ID" if "r = Inr ()" "c \<in> set (view w')" for c
    proof
      assume "pod_id c = ID"
      with that(2) have "DC_ID c \<in> own ID (view w')" by (auto simp: own_def)
      moreover from this have "DC_ID c \<in> own ID (view w)" using e(1) v by (auto simp: kept_def)
      then obtain d where "d \<in> set cs" "pod_id d = ID" "DC_ID d = DC_ID c" using v by (auto simp: own_def)
      ultimately show False using e(4) that(1) by auto
    qed
    moreover have "m' ID = None" if "r = Inr ()" "c \<in> set (view w)" "pod_id c = ID" "is_pause c" for c
      using e(4) that v by auto
    ultimately show ?thesis using e(1,2) v by (auto simp: kept_def others_def)
  qed
qed

text \<open>A concrete engine: its state is the list of containers.\<close>

definition demo_engine :: "DockerContainer list engine" where
  "demo_engine = \<lparr>NewClient = io_return (), ContainerList = (\<lambda>w. (Inr w, w)), ImageList = io_return [],
     ImagePull = (\<lambda>_. io_return ()),
     ContainerCreate = (\<lambda>c w. let i = dec (length w) in
       (Inr i, w @ [\<lparr>DC_ID = i, DC_Image = CC_Image c, DC_Created = 0, DC_State = ''created'', DC_Status = [], DC_Labels = CC_Labels c\<rparr>])),
     ContainerStart = (\<lambda>i w. (Inr (), map (\<lambda>c. if DC_ID c = i then c\<lparr>DC_State := ''running''\<rparr> else c) w)),
     ContainerStop = (\<lambda>i w. (Inr (), map (\<lambda>c. if DC_ID c = i
       then c\<lparr>DC_State := ''exited'', DC_Status := ''Exited (137) 1 second ago''\<rparr> else c) w)),
     ContainerRestart = (\<lambda>_. io_return ()),
     ContainerRemove = (\<lambda>i w. (Inr (), filter (\<lambda>c. DC_ID c \<noteq> i) w)),
     ContainerWait = (\<lambda>_. io_return (Inr 0)), Weave = (\<lambda>_ _. io_return ''10.32.0.2''),
     MkdirAll = (\<lambda>_. io_return ()), Now = (\<lambda>w. (7, w))\<rparr>"

lemma demo_engine_law: "docker_law demo_engine (\<lambda>w. w)"
  unfolding docker_law_def demo_engine_def by (auto simp: io_return_def)

definition demo_container :: Container where
  "demo_container = \<lparr>Container_Name = ''c'', Container_Image = ''nginx'', Command = [], Container_Ports = [],
     Resources = \<lparr>Limits = [], Requests = []\<rparr>, VolumeMounts = [], Container_SecurityContext = None\<rparr>"

definition demo_runtime_pod :: "string \<Rightarrow> string \<Rightarrow> Pod" where
  "demo_runtime_pod uid name = zero_Pod\<lparr>Pod_Meta := zero_ObjectMeta\<lparr>Name := name, Namespace := ''default'', MetaUID := uid\<rparr>,
     Pod_Spec := zero_PodSpec\<lparr>Containers := [demo_container]\<rparr>\<rparr>"

text \<open>Two pods are created; deleting the second leaves the two containers and the address of the first.\<close>

definition demo_runtime :: "DockerContainer list \<times> ip_map" where
  "demo_runtime = snd (io_bind (RT_AddPod demo_engine ''1.1.1.1'' (demo_runtime_pod ''u1'' ''a''))
     (\<lambda>_. RT_AddPod demo_engine ''1.1.1.1'' (demo_runtime_pod ''u2'' ''b'')) ([], \<lambda>_. None))"

definition after_delete :: "(failure + unit) \<times> (DockerContainer list \<times> ip_map)" where
  "after_delete = RT_DeletePod demo_engine ''u2'' demo_runtime"

theorem delete_pod_exact_witness:
  "filter (\<lambda>c. pod_id c \<noteq> ''u2'') (fst (snd after_delete)) = filter (\<lambda>c. pod_id c \<noteq> ''u2'') (fst demo_runtime) \<and>
   length (fst demo_runtime) = 4 \<and> length (fst (snd after_delete)) = 2 \<and> fst after_delete = Inr ()"
proof -
  have "distinct (map DC_ID (fst demo_runtime))" "length (fst demo_runtime) = 4"
    "length (fst (snd after_delete)) = 2" "fst after_delete = Inr ()"
    by code_simp+
  moreover have "RT_DeletePod demo_engine ''u2'' (fst demo_runtime, snd demo_runtime) =
      (fst after_delete, (fst (snd after_delete), snd (snd after_delete)))"
    by (simp add: after_delete_def)
  ultimately show ?thesis using delete_pod_exact [OF demo_engine_law] by blast
qed

end
