(* ===== verification/Kubelet_Pleg.thy ===== *)
theory Kubelet_Pleg
  imports Kubelet_Runtime
begin

text \<open>
  How a kubelet observes its containers: the cache of pod statuses (\<open>pkg/kubelet/runtime/cache.go\<close>) and the
  generator of pod lifecycle events (\<open>pkg/kubelet/pleg/pleg.go\<close>). The runtime is a parameter: the record
  \<open>runtime\<close> has the two operations of the runtime manager that are used and the clock. The locks make an operation of the cache
  one step; the channel of events is the list of the events sent.
  Go visits the entries of a map in any order; where a function makes a map of its own and visits it, the model
  takes the order of insertion, and the properties say only how often each event is sent.
\<close>

section \<open>The cache\<close>

record CacheData =
  Data_Status :: "RuntimeStatus option"
  Data_Err :: error
  Modified :: time

record Cache =
  Cache_Pods :: "UID \<rightharpoonup> CacheData"
  Cache_Timestamp :: "time option"

definition NewCache :: Cache where
  "NewCache = \<lparr>Cache_Pods = (\<lambda>_. None), Cache_Timestamp = None\<rparr>"

definition Cache_Get :: "UID \<Rightarrow> Cache \<Rightarrow> RuntimeStatus option \<times> error" where
  "Cache_Get pid c = (case Cache_Pods c pid of
     None \<Rightarrow> (None, Some (''cache: pod '' @ pid @ '' not found''))
   | Some data \<Rightarrow> (Data_Status data, Data_Err data))"

text \<open>
  One try of \<open>GetNewerThan\<close> (\<open>None\<close>: the caller sleeps for a second and tries again), and the loop of three tries:
  \<open>views i\<close> is the cache that the \<open>i\<close>-th try sees, since others use the cache in between.
\<close>

definition newer_try :: "UID \<Rightarrow> time \<Rightarrow> Cache \<Rightarrow> (RuntimeStatus option \<times> error) option" where
  "newer_try pid minTime c =
     (let isGlobalNewer = (case Cache_Timestamp c of None \<Rightarrow> False | Some t \<Rightarrow> t > minTime \<or> t = minTime)
      in case Cache_Pods c pid of
        None \<Rightarrow> if isGlobalNewer then Some (None, Some (''cache: global timestamp is newer but pod '' @ pid @ '' not exist''))
          else None
      | Some data \<Rightarrow> if Modified data > minTime \<or> Modified data = minTime then Some (Data_Status data, Data_Err data) else None)"

definition maxRetry :: nat where "maxRetry = 3"

fun newer_loop :: "nat \<Rightarrow> UID \<Rightarrow> time \<Rightarrow> (nat \<Rightarrow> Cache) \<Rightarrow> nat \<Rightarrow> RuntimeStatus option \<times> error" where
  "newer_loop 0 pid minTime views i = (None, Some (''cache: pod '' @ pid @ '' newer not found''))"
| "newer_loop (Suc n) pid minTime views i = (case newer_try pid minTime (views i) of
     Some r \<Rightarrow> r | None \<Rightarrow> newer_loop n pid minTime views (Suc i))"

definition GetNewerThan :: "UID \<Rightarrow> time \<Rightarrow> (nat \<Rightarrow> Cache) \<Rightarrow> RuntimeStatus option \<times> error" where
  "GetNewerThan pid minTime views = newer_loop maxRetry pid minTime views 0"

definition Cache_Set :: "UID \<Rightarrow> RuntimeStatus option \<Rightarrow> error \<Rightarrow> time \<Rightarrow> Cache \<Rightarrow> bool \<times> Cache" where
  "Cache_Set pid st err timestamp c =
     (if (case Cache_Pods c pid of None \<Rightarrow> False | Some data \<Rightarrow> Modified data > timestamp) then (False, c)
      else (True, c\<lparr>Cache_Pods := (Cache_Pods c)(pid := Some \<lparr>Data_Status = st, Data_Err = err, Modified = timestamp\<rparr>)\<rparr>))"

definition Cache_Delete :: "UID \<Rightarrow> Cache \<Rightarrow> Cache" where
  "Cache_Delete pid c = c\<lparr>Cache_Pods := (Cache_Pods c)(pid := None)\<rparr>"

definition Cache_UpdateTime :: "time \<Rightarrow> Cache \<Rightarrow> Cache" where
  "Cache_UpdateTime timestamp c = c\<lparr>Cache_Timestamp := Some timestamp\<rparr>"

section \<open>Events\<close>

type_synonym PodLifeCycleEventType = string
type_synonym plegContainerState = string

definition ContainerStarted :: PodLifeCycleEventType where [simp]: "ContainerStarted = ''ContainerStarted''"
definition ContainerDied :: PodLifeCycleEventType where [simp]: "ContainerDied = ''ContainerDied''"
definition ContainerRemoved :: PodLifeCycleEventType where [simp]: "ContainerRemoved = ''ContainerRemoved''"
definition ContainerChanged :: PodLifeCycleEventType where [simp]: "ContainerChanged = ''ContainerChanged''"

definition plegContainerRunning :: plegContainerState where [simp]: "plegContainerRunning = ''running''"
definition plegContainerExited :: plegContainerState where [simp]: "plegContainerExited = ''exited''"
definition plegContainerUnknown :: plegContainerState where [simp]: "plegContainerUnknown = ''unknown''"
definition plegContainerNonExistent :: plegContainerState where [simp]: "plegContainerNonExistent = ''non-existent''"

record PodLifecycleEvent =
  PodId :: UID
  Event_Type :: PodLifeCycleEventType

text \<open>The loop over the containers of a pod; a container in none of the four states does not end it.\<close>

fun find_state :: "RuntimeContainer list \<Rightarrow> string \<Rightarrow> plegContainerState" where
  "find_state [] cid = plegContainerNonExistent"
| "find_state (c # cs) cid =
     (if RC_ID c = cid then
        (if RC_State c = ContainerStateCreated then plegContainerUnknown
         else if RC_State c = ContainerStateRunning then plegContainerRunning
         else if RC_State c = ContainerStateExited then plegContainerExited
         else if RC_State c = ContainerStateUnknown then plegContainerUnknown
         else find_state cs cid)
      else find_state cs cid)"

definition getPlegContainerState :: "RuntimePod option \<Rightarrow> string \<Rightarrow> plegContainerState" where
  "getPlegContainerState pod cid = (case pod of
     None \<Rightarrow> plegContainerNonExistent | Some p \<Rightarrow> find_state (RP_Containers p) cid)"

definition containers_of :: "RuntimePod option \<Rightarrow> RuntimeContainer list" where
  "containers_of pod = (case pod of None \<Rightarrow> [] | Some p \<Rightarrow> RP_Containers p)"

text \<open>The events of one container.\<close>

definition container_events :: "UID \<Rightarrow> plegContainerState \<Rightarrow> plegContainerState \<Rightarrow> PodLifecycleEvent list" where
  "container_events pid oldState currentState =
     (if oldState = currentState then []
      else if currentState = plegContainerRunning then [\<lparr>PodId = pid, Event_Type = ContainerStarted\<rparr>]
      else if currentState = plegContainerExited then [\<lparr>PodId = pid, Event_Type = ContainerDied\<rparr>]
      else if currentState = plegContainerUnknown then [\<lparr>PodId = pid, Event_Type = ContainerChanged\<rparr>]
      else if currentState = plegContainerNonExistent then
        (if oldState = plegContainerExited then [\<lparr>PodId = pid, Event_Type = ContainerRemoved\<rparr>]
         else [\<lparr>PodId = pid, Event_Type = ContainerDied\<rparr>, \<lparr>PodId = pid, Event_Type = ContainerRemoved\<rparr>])
      else [])"

definition computeEvents :: "RuntimePod option \<Rightarrow> RuntimePod option \<Rightarrow> PodLifecycleEvent list" where
  "computeEvents oldPod currentPod =
     (let pid = (case oldPod of Some p \<Rightarrow> RP_ID p | None \<Rightarrow> (case currentPod of Some p \<Rightarrow> RP_ID p | None \<Rightarrow> ''''));
          cids = remdups (map RC_ID (containers_of oldPod @ containers_of currentPod))
      in concat (map (\<lambda>cid. container_events pid (getPlegContainerState oldPod cid) (getPlegContainerState currentPod cid)) cids))"

section \<open>Relisting\<close>

record PodRecord =
  old_pod :: "RuntimePod option"
  current_pod :: "RuntimePod option"

type_synonym pleg = "(UID, PodRecord) gomap"

record 's runtime =
  GetAllPods :: "('s, RuntimePod list) io"
  GetPodStatus :: "UID \<Rightarrow> string \<Rightarrow> string \<Rightarrow> ('s, RuntimeStatus) io"
  Clock :: "'s \<Rightarrow> time \<times> 's"

definition getOldPodById :: "UID \<Rightarrow> pleg \<Rightarrow> RuntimePod option" where
  "getOldPodById pid p = (case map_of p pid of Some r \<Rightarrow> old_pod r | None \<Rightarrow> None)"

definition getCurrentPodById :: "UID \<Rightarrow> pleg \<Rightarrow> RuntimePod option" where
  "getCurrentPodById pid p = (case map_of p pid of Some r \<Rightarrow> current_pod r | None \<Rightarrow> None)"

definition set_current :: "RuntimePod \<Rightarrow> pleg \<Rightarrow> pleg" where
  "set_current pod p = (let r = (case map_of p (RP_ID pod) of Some r \<Rightarrow> r | None \<Rightarrow> \<lparr>old_pod = None, current_pod = None\<rparr>)
     in mput (RP_ID pod) (r\<lparr>current_pod := Some pod\<rparr>) p)"

definition setCurrentPods :: "RuntimePod list \<Rightarrow> pleg \<Rightarrow> pleg" where
  "setCurrentPods pods p = fold set_current pods (map (\<lambda>(pid, r). (pid, r\<lparr>current_pod := None\<rparr>)) p)"

definition shiftCurrentToOldById :: "UID \<Rightarrow> pleg \<Rightarrow> pleg" where
  "shiftCurrentToOldById pid p = (case map_of p pid of
     None \<Rightarrow> p
   | Some r \<Rightarrow> if current_pod r = None then mdel pid p
       else mput pid \<lparr>old_pod = current_pod r, current_pod = None\<rparr> p)"

text \<open>The error and whether the cache took the status; a panic of the runtime ends the process.\<close>

definition updateCache :: "'s runtime \<Rightarrow> RuntimePod option \<Rightarrow> UID \<Rightarrow> Cache \<Rightarrow> 's \<Rightarrow> ((error \<times> bool) \<times> Cache) outcome \<times> 's" where
  "updateCache rt currentPod pid c s = (case currentPod of
     None \<Rightarrow> (Returns ((None, True), Cache_Delete pid c), s)
   | Some pod \<Rightarrow> (case Clock rt s of (ts, s1) \<Rightarrow>
       (case GetPodStatus rt (RP_ID pod) (RP_Name pod) (RP_Namespace pod) s1 of
          (Inl Panicked, s2) \<Rightarrow> (Crashes, s2)
        | (Inl (Failed e), s2) \<Rightarrow> (case Cache_Set (RP_ID pod) None (Some e) ts c of (u, c') \<Rightarrow> (Returns ((Some e, u), c'), s2))
        | (Inr st, s2) \<Rightarrow> (case Cache_Set (RP_ID pod) (Some st) None ts c of (u, c') \<Rightarrow> (Returns ((None, u), c'), s2)))))"

text \<open>The events sent, the records and the cache after the loop over the pods with events.\<close>

fun send_events :: "'s runtime \<Rightarrow> (UID, PodLifecycleEvent list) gomap \<Rightarrow> pleg \<Rightarrow> Cache \<Rightarrow> 's \<Rightarrow>
    (PodLifecycleEvent list \<times> pleg \<times> Cache) outcome \<times> 's" where
  "send_events rt [] p c s = (Returns ([], p, c), s)"
| "send_events rt ((pid, events) # es) p c s =
     (case updateCache rt (getCurrentPodById pid p) pid c s of
        (Crashes, s1) \<Rightarrow> (Crashes, s1)
      | (Returns ((err, _), c1), s1) \<Rightarrow>
          if err \<noteq> None then send_events rt es p c1 s1
          else (case send_events rt es (shiftCurrentToOldById pid p) c1 s1 of
            (Crashes, s2) \<Rightarrow> (Crashes, s2)
          | (Returns (sent, p2, c2), s2) \<Rightarrow>
              (Returns (filter (\<lambda>e. Event_Type e \<noteq> ContainerChanged) events @ sent, p2, c2), s2)))"

definition event_map :: "pleg \<Rightarrow> (UID, PodLifecycleEvent list) gomap" where
  "event_map p = filter (\<lambda>(pid, events). events \<noteq> [])
     (map (\<lambda>pid. (pid, computeEvents (getOldPodById pid p) (getCurrentPodById pid p))) (map fst p))"

definition Relist :: "'s runtime \<Rightarrow> pleg \<Rightarrow> Cache \<Rightarrow> 's \<Rightarrow> (PodLifecycleEvent list \<times> pleg \<times> Cache) outcome \<times> 's" where
  "Relist rt p c s = (case Clock rt s of (ts, s1) \<Rightarrow>
     (case GetAllPods rt s1 of
        (Inl Panicked, s2) \<Rightarrow> (Crashes, s2)
      | (Inl (Failed e), s2) \<Rightarrow> (Returns ([], p, c), s2)
      | (Inr pods, s2) \<Rightarrow>
          let p1 = setCurrentPods pods p in
          (case send_events rt (event_map p1) p1 c s2 of
             (Crashes, s3) \<Rightarrow> (Crashes, s3)
           | (Returns (sent, p2, c2), s3) \<Rightarrow> (Returns (sent, p2, Cache_UpdateTime ts c2), s3))))"

text \<open>Relists with whatever happens to the runtime in between.\<close>

fun relists :: "'s runtime \<Rightarrow> ('s \<Rightarrow> 's) list \<Rightarrow> pleg \<Rightarrow> Cache \<Rightarrow> 's \<Rightarrow>
    (PodLifecycleEvent list list \<times> pleg \<times> Cache) outcome \<times> 's" where
  "relists rt [] p c s = (Returns ([], p, c), s)"
| "relists rt (env # envs) p c s = (case Relist rt p c (env s) of
     (Crashes, s1) \<Rightarrow> (Crashes, s1)
   | (Returns (sent, p1, c1), s1) \<Rightarrow> (case relists rt envs p1 c1 s1 of
       (Crashes, s2) \<Rightarrow> (Crashes, s2)
     | (Returns (sents, p2, c2), s2) \<Rightarrow> (Returns (sent # sents, p2, c2), s2)))"

section \<open>The specification\<close>

text \<open>
  What there is to see of a container, and which change of it is which event, as the comments of the event types have it:
  a container that comes up has started; one that goes down, or that goes without having been seen down, has
  died; one that goes has been removed as well.
\<close>

datatype situation = Absent | Unclear | Up | Down

type_synonym picture = "UID \<Rightarrow> string \<Rightarrow> situation"

definition happens :: "situation \<Rightarrow> situation \<Rightarrow> PodLifeCycleEventType \<Rightarrow> bool" where
  "happens before after ty \<longleftrightarrow>
     ty = ContainerStarted \<and> before \<noteq> Up \<and> after = Up \<or>
     ty = ContainerDied \<and> (before \<noteq> Down \<and> after = Down \<or> before \<in> {Unclear, Up} \<and> after = Absent) \<or>
     ty = ContainerRemoved \<and> before \<noteq> Absent \<and> after = Absent"

text \<open>How often an event is due between two pictures: once for every container with such a change.\<close>

definition event_count :: "picture \<Rightarrow> picture \<Rightarrow> PodLifecycleEvent \<Rightarrow> nat" where
  "event_count A B e = card {cid. happens (A (PodId e) cid) (B (PodId e) cid) (Event_Type e)}"

text \<open>The picture of a listing: the last pod with an identifier counts, and its first container with a known state.\<close>

definition situation_in :: "RuntimeContainer list \<Rightarrow> string \<Rightarrow> situation" where
  "situation_in cs cid = (case find (\<lambda>c. RC_ID c = cid \<and>
       RC_State c \<in> {ContainerStateCreated, ContainerStateRunning, ContainerStateExited, ContainerStateUnknown}) cs of
     None \<Rightarrow> Absent
   | Some c \<Rightarrow> if RC_State c = ContainerStateRunning then Up else if RC_State c = ContainerStateExited then Down else Unclear)"

definition listed :: "RuntimePod list \<Rightarrow> UID \<Rightarrow> RuntimePod option" where
  "listed pods pid = map_of (rev (map (\<lambda>p. (RP_ID p, p)) pods)) pid"

definition pod_picture :: "RuntimePod option \<Rightarrow> string \<Rightarrow> situation" where
  "pod_picture pod = situation_in (case pod of None \<Rightarrow> [] | Some p \<Rightarrow> RP_Containers p)"

definition picture_of :: "RuntimePod list \<Rightarrow> picture" where
  "picture_of pods = (\<lambda>pid. pod_picture (listed pods pid))"

definition nothing :: picture where
  "nothing = (\<lambda>_ _. Absent)"

text \<open>The picture that the records hold: what has been reported so far.\<close>

definition reported :: "pleg \<Rightarrow> picture" where
  "reported p = (\<lambda>pid. pod_picture (getOldPodById pid p))"

text \<open>
  A relist moves from one picture to the next, by the listing \<open>L\<close> that it gets. Without a listing nothing
  is sent and nothing moves. Otherwise every pod moves to its picture in the listing, but for pods whose status could not be
  read (none when \<open>ok\<close>), which stay as they are until the next relist; what is sent are the changes.
\<close>

definition relist_change :: "bool \<Rightarrow> picture \<Rightarrow> failure + RuntimePod list \<Rightarrow> PodLifecycleEvent list \<Rightarrow> picture \<Rightarrow> bool" where
  "relist_change ok A L sent B \<longleftrightarrow> (case L of
     Inl _ \<Rightarrow> sent = [] \<and> B = A
   | Inr pods \<Rightarrow> (\<forall>e. count_list sent e = event_count A B e) \<and>
       (\<forall>pid. B pid = picture_of pods pid \<or> \<not> ok \<and> B pid = A pid))"

fun explains :: "bool \<Rightarrow> picture \<Rightarrow> (failure + RuntimePod list) list \<Rightarrow> PodLifecycleEvent list list \<Rightarrow> picture \<Rightarrow> bool" where
  "explains ok A [] [] C \<longleftrightarrow> A = C"
| "explains ok A (L # Ls) (sent # sents) C \<longleftrightarrow> (\<exists>B. relist_change ok A L sent B \<and> explains ok B Ls sents C)"
| "explains ok A _ _ C \<longleftrightarrow> False"

text \<open>The listings that the relists of a run get from the runtime.\<close>

fun run_listings :: "'s runtime \<Rightarrow> ('s \<Rightarrow> 's) list \<Rightarrow> pleg \<Rightarrow> Cache \<Rightarrow> 's \<Rightarrow> (failure + RuntimePod list) list" where
  "run_listings rt [] p c s = []"
| "run_listings rt (env # envs) p c s = fst (GetAllPods rt (snd (Clock rt (env s)))) # (case Relist rt p c (env s) of
     (Crashes, s1) \<Rightarrow> [] | (Returns (_, p1, c1), s1) \<Rightarrow> run_listings rt envs p1 c1 s1)"

definition same_id :: "UID \<Rightarrow> RuntimePod option \<Rightarrow> bool" where
  "same_id pid pod \<longleftrightarrow> (case pod of None \<Rightarrow> True | Some q \<Rightarrow> RP_ID q = pid)"

definition wf_pleg :: "pleg \<Rightarrow> bool" where
  "wf_pleg p \<longleftrightarrow> distinct (map fst p) \<and> (\<forall>pid. same_id pid (getOldPodById pid p) \<and> same_id pid (getCurrentPodById pid p))"

section \<open>Lemmas on events\<close>

lemma find_state_values:
  "find_state cs cid \<in> {plegContainerRunning, plegContainerExited, plegContainerUnknown, plegContainerNonExistent}"
  by (induction cs) auto

lemma find_state_missing: "cid \<notin> RC_ID ` set cs \<Longrightarrow> find_state cs cid = plegContainerNonExistent"
  by (induction cs) auto

lemma state_values:
  "getPlegContainerState pod cid \<in> {plegContainerRunning, plegContainerExited, plegContainerUnknown, plegContainerNonExistent}"
  using find_state_values by (auto simp: getPlegContainerState_def split: option.splits)

lemma state_missing:
  "cid \<notin> RC_ID ` set (containers_of pod) \<Longrightarrow> getPlegContainerState pod cid = plegContainerNonExistent"
  using find_state_missing by (auto simp: getPlegContainerState_def containers_of_def split: option.splits)

lemma container_events_same [simp]: "container_events pid st st = []"
  by (simp add: container_events_def)

lemma container_events_Nil:
  "container_events pid (getPlegContainerState a cid) (getPlegContainerState b cid) = [] \<longleftrightarrow>
     getPlegContainerState a cid = getPlegContainerState b cid"
  using state_values [of b cid] by (auto simp: container_events_def)

lemma computeEvents_set:
  assumes "same_id pid a" "same_id pid b"
  shows "set (computeEvents a b) = (\<Union>cid. set (container_events pid (getPlegContainerState a cid) (getPlegContainerState b cid)))"
proof (cases "a = None \<and> b = None")
  case True
  then show ?thesis by (simp add: computeEvents_def containers_of_def getPlegContainerState_def)
next
  case False
  let ?ev = "\<lambda>cid. set (container_events pid (getPlegContainerState a cid) (getPlegContainerState b cid))"
  let ?ids = "RC_ID ` (set (containers_of a) \<union> set (containers_of b))"
  have "(case a of Some p \<Rightarrow> RP_ID p | None \<Rightarrow> (case b of Some p \<Rightarrow> RP_ID p | None \<Rightarrow> '''')) = pid"
    using assms False by (auto simp: same_id_def split: option.splits)
  then have "set (computeEvents a b) = (\<Union>cid\<in>?ids. ?ev cid)"
    by (simp add: computeEvents_def image_Un)
  moreover have "?ev cid = {}" if "cid \<notin> ?ids" for cid
    using that state_missing [of cid a] state_missing [of cid b] by (simp add: image_Un)
  then have "(\<Union>cid. ?ev cid) = (\<Union>cid\<in>?ids. ?ev cid)"
  proof (intro set_eqI iffI)
    fix e assume "e \<in> (\<Union>cid. ?ev cid)"
    then obtain cid where e: "e \<in> ?ev cid" by (rule UN_E)
    with \<open>\<And>cid. cid \<notin> ?ids \<Longrightarrow> ?ev cid = {}\<close> have "cid \<in> ?ids" by (metis empty_iff)
    with e show "e \<in> (\<Union>cid\<in>?ids. ?ev cid)" by (rule UN_I [rotated])
  next
    fix e assume "e \<in> (\<Union>cid\<in>?ids. ?ev cid)"
    then obtain cid where "e \<in> ?ev cid" by (rule UN_E)
    then show "e \<in> (\<Union>cid. ?ev cid)" by (rule UN_I [OF UNIV_I])
  qed
  ultimately show ?thesis by simp
qed

text \<open>The code's states and events against those of the specification.\<close>

fun pleg_word :: "situation \<Rightarrow> plegContainerState" where
  "pleg_word Absent = plegContainerNonExistent"
| "pleg_word Unclear = plegContainerUnknown"
| "pleg_word Up = plegContainerRunning"
| "pleg_word Down = plegContainerExited"

lemma pleg_word_inj: "pleg_word a = pleg_word b \<longleftrightarrow> a = b"
  by (cases a; cases b) simp_all

lemma find_state_situation: "find_state cs cid = pleg_word (situation_in cs cid)"
  by (induction cs) (auto simp: situation_in_def)

lemma state_picture: "getPlegContainerState pod cid = pleg_word (pod_picture pod cid)"
  by (cases pod) (simp_all add: getPlegContainerState_def pod_picture_def find_state_situation situation_in_def)

lemma happens_same [simp]: "\<not> happens a a ty"
  by (auto simp: happens_def)

text \<open>The events that are sent.\<close>

definition announced :: "PodLifecycleEvent list \<Rightarrow> PodLifecycleEvent list" where
  "announced = filter (\<lambda>e. Event_Type e \<noteq> ContainerChanged)"

lemma announced_concat: "announced (concat xss) = concat (map announced xss)"
  by (simp add: announced_def filter_concat)

lemma container_events_happen:
  "count_list (announced (container_events pid (pleg_word a) (pleg_word b))) e =
     (if PodId e = pid \<and> happens a b (Event_Type e) then 1 else 0)"
  by (cases a; cases b; cases e) (auto simp: announced_def container_events_def happens_def)

lemma count_list_concat: "count_list (concat xss) e = (\<Sum>xs\<leftarrow>xss. count_list xs e)"
  by (induction xss) simp_all

lemma sum_list_indicator: "(\<Sum>x\<leftarrow>xs. if P x then 1 else (0 :: nat)) = length (filter P xs)"
  by (induction xs) simp_all

lemma computeEvents_count:
  assumes "same_id pid a" "same_id pid b"
  shows "count_list (announced (computeEvents a b)) e =
    (if PodId e = pid then card {cid. happens (pod_picture a cid) (pod_picture b cid) (Event_Type e)} else 0)"
proof (cases "a = None \<and> b = None")
  case True
  then show ?thesis by (simp add: computeEvents_def containers_of_def announced_def)
next
  case False
  let ?cids = "remdups (map RC_ID (containers_of a @ containers_of b))"
  let ?Q = "\<lambda>cid. PodId e = pid \<and> happens (pod_picture a cid) (pod_picture b cid) (Event_Type e)"
  have "(case a of Some p \<Rightarrow> RP_ID p | None \<Rightarrow> (case b of Some p \<Rightarrow> RP_ID p | None \<Rightarrow> '''')) = pid"
    using assms False by (auto simp: same_id_def split: option.splits)
  then have "computeEvents a b =
      concat (map (\<lambda>cid. container_events pid (pleg_word (pod_picture a cid)) (pleg_word (pod_picture b cid))) ?cids)"
    by (simp only: computeEvents_def Let_def state_picture)
  then have "count_list (announced (computeEvents a b)) e = length (filter ?Q ?cids)"
    by (simp only: announced_concat count_list_concat map_map comp_def container_events_happen sum_list_indicator)
  also have "\<dots> = card {cid \<in> set ?cids. ?Q cid}"
    using distinct_card [OF distinct_filter [OF distinct_remdups], symmetric] by (simp only: set_filter)
  also have "{cid \<in> set ?cids. ?Q cid} = {cid. ?Q cid}"
  proof -
    have "cid \<in> set ?cids" if "?Q cid" for cid
    proof (rule ccontr)
      assume "cid \<notin> set ?cids"
      then have "getPlegContainerState a cid = getPlegContainerState b cid"
        using state_missing [of cid a] state_missing [of cid b] by auto
      with that show False by (simp add: state_picture pleg_word_inj)
    qed
    then show ?thesis by blast
  qed
  also have "card \<dots> = (if PodId e = pid then card {cid. happens (pod_picture a cid) (pod_picture b cid) (Event_Type e)} else 0)"
    by simp
  finally show ?thesis .
qed

section \<open>Lemmas on records\<close>

lemma set_current_old [simp]: "getOldPodById pid (set_current pod p) = getOldPodById pid p"
  by (auto simp: getOldPodById_def set_current_def split: option.splits)

lemma set_current_current [simp]:
  "getCurrentPodById pid (set_current pod p) = (if RP_ID pod = pid then Some pod else getCurrentPodById pid p)"
  by (auto simp: getCurrentPodById_def set_current_def Let_def)

lemma set_current_distinct [simp]: "distinct (map fst p) \<Longrightarrow> distinct (map fst (set_current pod p))"
  by (simp add: set_current_def Let_def)

lemma listed_Cons: "listed (q # qs) pid = (case listed qs pid of Some x \<Rightarrow> Some x | None \<Rightarrow> if RP_ID q = pid then Some q else None)"
  by (auto simp: listed_def map_add_def split: option.splits)

lemma fold_set_current:
  "getCurrentPodById pid (fold set_current pods p) = (case listed pods pid of Some x \<Rightarrow> Some x | None \<Rightarrow> getCurrentPodById pid p)"
  "getOldPodById pid (fold set_current pods p) = getOldPodById pid p"
  "distinct (map fst p) \<Longrightarrow> distinct (map fst (fold set_current pods p))"
proof (induction pods arbitrary: p)
  case Nil
  {
    case 1 show ?case by (simp add: listed_def)
  next
    case 2 show ?case by simp
  next
    case 3 then show ?case by simp
  }
next
  case (Cons q qs)
  {
    case 1 show ?case by (simp add: Cons.IH(1) listed_Cons split: option.splits)
  next
    case 2 show ?case by (simp add: Cons.IH(2))
  next
    case 3 then show ?case by (simp add: Cons.IH(3))
  }
qed

lemma cleared:
  "getCurrentPodById pid (map (\<lambda>(pid, r). (pid, r\<lparr>current_pod := None\<rparr>)) p) = None"
  "getOldPodById pid (map (\<lambda>(pid, r). (pid, r\<lparr>current_pod := None\<rparr>)) p) = getOldPodById pid p"
  "map fst (map (\<lambda>(pid, r). (pid, r\<lparr>current_pod := None\<rparr>)) p) = map fst p"
  by (induction p) (auto simp: getCurrentPodById_def getOldPodById_def split: option.splits)

lemma listed_same_id [simp]: "same_id pid (listed pods pid)"
proof (cases "listed pods pid")
  case (Some q)
  then have "(pid, q) \<in> set (rev (map (\<lambda>p. (RP_ID p, p)) pods))" unfolding listed_def by (rule map_of_SomeD)
  with Some show ?thesis by (auto simp: same_id_def)
qed (simp add: same_id_def)

lemma setCurrentPods_facts:
  assumes "wf_pleg p"
  shows "wf_pleg (setCurrentPods pods p)" "getCurrentPodById pid (setCurrentPods pods p) = listed pods pid"
    "getOldPodById pid (setCurrentPods pods p) = getOldPodById pid p"
proof -
  show cur: "getCurrentPodById pid (setCurrentPods pods p) = listed pods pid" for pid
    by (simp add: setCurrentPods_def fold_set_current cleared split: option.splits)
  show old: "getOldPodById pid (setCurrentPods pods p) = getOldPodById pid p" for pid
    by (simp add: setCurrentPods_def fold_set_current cleared)
  have "distinct (map fst (setCurrentPods pods p))"
    unfolding setCurrentPods_def using assms by (intro fold_set_current(3)) (simp only: cleared(3) wf_pleg_def)
  with assms cur old show "wf_pleg (setCurrentPods pods p)" by (simp add: wf_pleg_def)
qed

lemma shift_facts:
  assumes "wf_pleg p"
  shows "wf_pleg (shiftCurrentToOldById pid p)"
    "getOldPodById i (shiftCurrentToOldById pid p) = (if i = pid then getCurrentPodById pid p else getOldPodById i p)"
    "i \<noteq> pid \<Longrightarrow> getCurrentPodById i (shiftCurrentToOldById pid p) = getCurrentPodById i p"
proof -
  have old: "getOldPodById i (shiftCurrentToOldById pid p) = (if i = pid then getCurrentPodById pid p else getOldPodById i p)" for i
    by (auto simp: shiftCurrentToOldById_def getOldPodById_def getCurrentPodById_def split: option.splits)
  have cur: "getCurrentPodById i (shiftCurrentToOldById pid p) = (if i = pid then None else getCurrentPodById i p)" for i
    by (auto simp: shiftCurrentToOldById_def getCurrentPodById_def split: option.splits)
  have "distinct (map fst (shiftCurrentToOldById pid p))"
    using assms by (auto simp: shiftCurrentToOldById_def wf_pleg_def split: option.splits)
  with assms old cur show "wf_pleg (shiftCurrentToOldById pid p)" by (auto simp: wf_pleg_def same_id_def)
  show "getOldPodById i (shiftCurrentToOldById pid p) = (if i = pid then getCurrentPodById pid p else getOldPodById i p)"
    by (rule old)
  show "i \<noteq> pid \<Longrightarrow> getCurrentPodById i (shiftCurrentToOldById pid p) = getCurrentPodById i p" by (simp add: cur)
qed

text \<open>The loop over the pods with events: a pod either moves on, and its events are sent, or stays as it was.\<close>

definition never_fails :: "'s runtime \<Rightarrow> bool" where
  "never_fails rt \<longleftrightarrow> (\<forall>pid n ns s f. fst (GetPodStatus rt pid n ns s) \<noteq> Inl f)"

lemma updateCache_ok:
  assumes "never_fails rt" "updateCache rt pod pid c s = (Returns ((err, u), c'), s')"
  shows "err = None"
  using assms
  by (auto simp: updateCache_def never_fails_def split: option.splits prod.splits sum.splits failure.splits) (metis fst_conv)

definition own_events :: "(UID, PodLifecycleEvent list) gomap \<Rightarrow> bool" where
  "own_events es \<longleftrightarrow> (\<forall>(pid, events)\<in>set es. \<forall>e\<in>set events. PodId e = pid)"

text \<open>What the events of the pods that move on amount to.\<close>

definition due :: "UID set \<Rightarrow> (UID, PodLifecycleEvent list) gomap \<Rightarrow> PodLifecycleEvent \<Rightarrow> nat" where
  "due ok es e = (if PodId e \<in> ok
     then count_list (announced (the (map_of es (PodId e)))) e else 0)"

lemma due_skip: "pid \<notin> ok \<Longrightarrow> due ok ((pid, events) # es) e = due ok es e"
  by (auto simp: due_def)

lemma due_insert:
  assumes "pid \<notin> ok" "\<forall>e\<in>set events. PodId e = pid"
  shows "due (insert pid ok) ((pid, events) # es) e =
    count_list (announced events) e + due ok es e"
proof -
  have "count_list (announced events) e = 0" if "PodId e \<noteq> pid"
    using that assms(2) by (intro count_notin) (auto simp: announced_def)
  then show ?thesis using assms(1) by (auto simp: due_def)
qed

lemma send_events_spec:
  assumes "distinct (map fst es)" "own_events es" "wf_pleg p" "send_events rt es p c s = (Returns (sent, p', c'), s')"
  shows "\<exists>ok \<subseteq> fst ` set es. wf_pleg p' \<and>
     (\<forall>i. getOldPodById i p' = (if i \<in> ok then getCurrentPodById i p else getOldPodById i p)) \<and>
     (\<forall>e. count_list sent e = due ok es e) \<and> (never_fails rt \<longrightarrow> ok = fst ` set es)"
  using assms
proof (induction es arbitrary: p c s sent)
  case Nil
  then show ?case by (auto simp: due_def)
next
  case (Cons e es)
  obtain pid events where e: "e = (pid, events)" by fastforce
  from Cons.prems(4) obtain err u c1 s1 where up: "updateCache rt (getCurrentPodById pid p) pid c s = (Returns ((err, u), c1), s1)"
    unfolding e by (auto split: prod.splits outcome.splits)
  have new: "pid \<notin> fst ` set es" "distinct (map fst es)" using Cons.prems(1) by (auto simp: e)
  have own: "own_events es" "\<forall>e\<in>set events. PodId e = pid" using Cons.prems(2) by (auto simp: own_events_def e)
  show ?case
  proof (cases err)
    case (Some x)
    with Cons.prems(4) up have "send_events rt es p c1 s1 = (Returns (sent, p', c'), s')" by (simp add: e)
    from Cons.IH [OF new(2) own(1) Cons.prems(3) this] obtain ok where ok: "ok \<subseteq> fst ` set es" "wf_pleg p'"
      "\<forall>i. getOldPodById i p' = (if i \<in> ok then getCurrentPodById i p else getOldPodById i p)"
      "\<forall>e. count_list sent e = due ok es e" by blast
    have "pid \<notin> ok" using ok(1) new by blast
    moreover have "\<not> never_fails rt" using updateCache_ok up Some by fastforce
    ultimately show ?thesis using ok by (intro exI [of _ ok]) (auto simp: e due_skip)
  next
    case None
    with Cons.prems(4) up obtain sent1 where rest: "send_events rt es (shiftCurrentToOldById pid p) c1 s1 = (Returns (sent1, p', c'), s')"
      and sent: "sent = announced events @ sent1"
      by (auto simp: e announced_def split: prod.splits outcome.splits)
    note shift = shift_facts [OF Cons.prems(3), where pid = pid]
    from Cons.IH [OF new(2) own(1) shift(1) rest] obtain ok where ok: "ok \<subseteq> fst ` set es" "wf_pleg p'"
      "\<forall>i. getOldPodById i p' = (if i \<in> ok then getCurrentPodById i (shiftCurrentToOldById pid p)
         else getOldPodById i (shiftCurrentToOldById pid p))"
      "\<forall>e. count_list sent1 e = due ok es e" "never_fails rt \<longrightarrow> ok = fst ` set es" by blast
    have nid: "pid \<notin> ok" using ok(1) new by blast
    have "\<forall>i. getOldPodById i p' = (if i \<in> insert pid ok then getCurrentPodById i p else getOldPodById i p)"
      using ok(3) shift(2) shift(3) nid by (metis insert_iff)
    moreover have "\<forall>x. count_list sent x = due (insert pid ok) (e # es) x"
      using ok(4) due_insert [OF nid own(2)] by (simp add: sent e)
    ultimately show ?thesis using ok(1,2,5) by (intro exI [of _ "insert pid ok"]) (auto simp: e)
  qed
qed

lemma event_map_fst: "distinct (map fst p) \<Longrightarrow> distinct (map fst (event_map p))"
  by (simp add: event_map_def distinct_map_filter comp_def)

lemma in_event_map:
  "(pid, evs) \<in> set (event_map p) \<longleftrightarrow> pid \<in> fst ` set p \<and> evs \<noteq> [] \<and> evs = computeEvents (getOldPodById pid p) (getCurrentPodById pid p)"
  by (auto simp: event_map_def)

lemma event_map_own:
  assumes "wf_pleg p"
  shows "own_events (event_map p)"
proof -
  have "PodId e = pid" if "e \<in> set (computeEvents (getOldPodById pid p) (getCurrentPodById pid p))" for pid e
  proof -
    have "same_id pid (getOldPodById pid p)" "same_id pid (getCurrentPodById pid p)"
      using assms by (simp_all add: wf_pleg_def)
    from computeEvents_set [OF this] that show ?thesis by (auto simp: container_events_def split: if_splits)
  qed
  then show ?thesis by (auto simp: own_events_def in_event_map)
qed

lemma no_events_no_change:
  assumes "wf_pleg p" "pid \<notin> fst ` set (event_map p)"
  shows "getPlegContainerState (getCurrentPodById pid p) cid = getPlegContainerState (getOldPodById pid p) cid"
proof (cases "pid \<in> fst ` set p")
  case True
  have none: "computeEvents (getOldPodById pid p) (getCurrentPodById pid p) = []"
  proof (rule ccontr)
    assume "computeEvents (getOldPodById pid p) (getCurrentPodById pid p) \<noteq> []"
    with True have "(pid, computeEvents (getOldPodById pid p) (getCurrentPodById pid p)) \<in> set (event_map p)"
      by (simp add: in_event_map)
    then have "pid \<in> fst ` set (event_map p)" by (rule image_eqI [rotated]) simp
    with assms(2) show False by contradiction
  qed
  have same: "same_id pid (getOldPodById pid p)" "same_id pid (getCurrentPodById pid p)"
    using assms(1) unfolding wf_pleg_def by blast+
  have "set (container_events pid (getPlegContainerState (getOldPodById pid p) cid) (getPlegContainerState (getCurrentPodById pid p) cid))
      \<subseteq> set (computeEvents (getOldPodById pid p) (getCurrentPodById pid p))"
    unfolding computeEvents_set [OF same] by blast
  with none have "container_events pid (getPlegContainerState (getOldPodById pid p) cid) (getPlegContainerState (getCurrentPodById pid p) cid) = []"
    by simp
  then show ?thesis by (simp only: container_events_Nil)
next
  case False
  then have "map_of p pid = None" by (simp add: map_of_eq_None_iff)
  then show ?thesis by (simp add: getCurrentPodById_def getOldPodById_def)
qed

lemma relist_step:
  assumes wf: "wf_pleg p" and run: "Relist rt p c s = (Returns (sent, p', c'), s')"
  shows "wf_pleg p'"
    "relist_change (never_fails rt) (reported p) (fst (GetAllPods rt (snd (Clock rt s)))) sent (reported p')"
proof -
  obtain ts s1 r s2 where 1: "Clock rt s = (ts, s1)" "GetAllPods rt s1 = (r, s2)" by (metis surj_pair)
  have "wf_pleg p' \<and> relist_change (never_fails rt) (reported p) r sent (reported p')"
  proof (cases r)
    case (Inl f)
    with run 1 wf show ?thesis by (auto simp: Relist_def relist_change_def split: failure.splits)
  next
    case (Inr qs)
    let ?p1 = "setCurrentPods qs p"
    note set_facts = setCurrentPods_facts [OF wf, where pods = qs]
    obtain c2 where send: "send_events rt (event_map ?p1) ?p1 c s2 = (Returns (sent, p', c2), s')"
      using run 1 Inr by (auto simp: Relist_def Let_def split: prod.splits outcome.splits)
    have dist: "distinct (map fst (event_map ?p1))" using set_facts(1) by (auto simp: wf_pleg_def intro: event_map_fst)
    from send_events_spec [OF dist event_map_own [OF set_facts(1)] set_facts(1) send]
    obtain ok where ok: "ok \<subseteq> fst ` set (event_map ?p1)" "wf_pleg p'"
      "\<forall>i. getOldPodById i p' = (if i \<in> ok then getCurrentPodById i ?p1 else getOldPodById i ?p1)"
      "\<forall>e. count_list sent e = due ok (event_map ?p1) e"
      "never_fails rt \<longrightarrow> ok = fst ` set (event_map ?p1)" by blast
    have rep: "reported p' i = (if i \<in> ok then picture_of qs i else reported p i)" for i
      using ok(3) by (simp add: reported_def picture_of_def set_facts(2,3))
    have "count_list sent e = event_count (reported p) (reported p') e" for e
    proof (cases "PodId e \<in> ok")
      case True
      with ok(1) have "map_of (event_map ?p1) (PodId e) = Some (computeEvents (getOldPodById (PodId e) ?p1) (getCurrentPodById (PodId e) ?p1))"
        using in_event_map [of "PodId e" _ ?p1] by (auto simp: map_of_eq_Some_iff [OF dist])
      moreover have "same_id (PodId e) (getOldPodById (PodId e) ?p1)" "same_id (PodId e) (getCurrentPodById (PodId e) ?p1)"
        using set_facts(1) by (simp_all add: wf_pleg_def)
      note computeEvents_count [OF this, of e]
      ultimately show ?thesis
        using True ok(4) by (simp add: due_def event_count_def rep) (simp add: reported_def picture_of_def set_facts(2,3))
    next
      case False
      with ok(4) show ?thesis by (simp add: due_def event_count_def rep)
    qed
    moreover have "reported p' i = picture_of qs i \<or> \<not> never_fails rt \<and> reported p' i = reported p i" for i
    proof (cases "i \<in> ok \<or> \<not> never_fails rt")
      case False
      with ok(5) have "i \<notin> fst ` set (event_map ?p1)" by simp
      from no_events_no_change [OF set_facts(1) this] have "reported p i = picture_of qs i"
        by (intro ext) (simp add: state_picture pleg_word_inj reported_def picture_of_def set_facts(2,3))
      with rep show ?thesis by simp
    qed (use rep in auto)
    ultimately show ?thesis using ok(2) by (auto simp: Inr relist_change_def)
  qed
  with 1 show "wf_pleg p'"
    "relist_change (never_fails rt) (reported p) (fst (GetAllPods rt (snd (Clock rt s)))) sent (reported p')" by simp_all
qed

lemma relists_explained:
  assumes "wf_pleg p" "relists rt envs p c s = (Returns (sents, p', c'), s')"
  shows "explains (never_fails rt) (reported p) (run_listings rt envs p c s) sents (reported p')"
  using assms
proof (induction envs arbitrary: p c s sents)
  case (Cons env envs)
  then obtain sent p1 c1 s1 sents' where 1: "Relist rt p c (env s) = (Returns (sent, p1, c1), s1)"
    "relists rt envs p1 c1 s1 = (Returns (sents', p', c'), s')" "sents = sent # sents'"
    by (auto split: prod.splits outcome.splits)
  note step = relist_step [OF Cons.prems(1) 1(1)]
  from Cons.IH [OF step(1) 1(2)] step(2) show ?case by (auto simp: 1)
qed simp

section \<open>Properties\<close>


text \<open>A runtime that plays given listings, and a run of relists over it: a container starts, exits and goes.\<close>

definition film :: "RuntimePod list list runtime" where
  "film = \<lparr>GetAllPods = (\<lambda>s. case s of [] \<Rightarrow> (Inl (Failed ''no answer''), []) | pods # s' \<Rightarrow> (Inr pods, s')),
     GetPodStatus = (\<lambda>pid n ns s. (Inr \<lparr>ST_ID = pid, ST_Name = n, ST_Namespace = ns, IPs = [], ContainerStatuses = [], ST_TimeStamp = 0\<rparr>, s)),
     Clock = (\<lambda>s. (0, s))\<rparr>"

definition film_pod :: "string \<Rightarrow> RuntimePod" where
  "film_pod st = zero_RuntimePod\<lparr>RP_ID := ''u'', RP_Name := ''p'',
     RP_Containers := [\<lparr>RC_ID = ''c'', RC_Name = ''n'', RC_Image = ''i'', RC_State = st\<rparr>]\<rparr>"

definition film_reel :: "RuntimePod list list" where
  "film_reel = [[film_pod ContainerStateRunning], [film_pod ContainerStateExited], []]"

lemma film_run:
  "\<exists>c. relists film [\<lambda>s. s, \<lambda>s. s, \<lambda>s. s, \<lambda>s. s] [] NewCache film_reel =
    (Returns ([[\<lparr>PodId = ''u'', Event_Type = ContainerStarted\<rparr>], [\<lparr>PodId = ''u'', Event_Type = ContainerDied\<rparr>],
       [\<lparr>PodId = ''u'', Event_Type = ContainerRemoved\<rparr>], []], [], c), [])"
  by (simp add: film_reel_def film_def film_pod_def zero_RuntimePod_def Relist_def setCurrentPods_def set_current_def event_map_def
    computeEvents_def containers_of_def container_events_def getPlegContainerState_def getOldPodById_def getCurrentPodById_def
    updateCache_def shiftCurrentToOldById_def Cache_Set_def NewCache_def Cache_UpdateTime_def Cache_Delete_def Let_def mdel_def)

lemma film_listings:
  "run_listings film [\<lambda>s. s, \<lambda>s. s, \<lambda>s. s, \<lambda>s. s] [] NewCache film_reel =
    [Inr [film_pod ContainerStateRunning], Inr [film_pod ContainerStateExited], Inr [], Inl (Failed ''no answer'')]"
  by (simp add: film_reel_def film_def film_pod_def zero_RuntimePod_def Relist_def setCurrentPods_def set_current_def event_map_def
    computeEvents_def containers_of_def container_events_def getPlegContainerState_def getOldPodById_def getCurrentPodById_def
    updateCache_def shiftCurrentToOldById_def Cache_Set_def NewCache_def Cache_UpdateTime_def Cache_Delete_def Let_def mdel_def)


end
