(* ===== verification/Kubelet_Workers.thy ===== *)
theory Kubelet_Workers
  imports Kubelet_Pleg
begin

text \<open>
  The main loop of a kubelet (\<open>pkg/kubelet/kubelet.go\<close>), its pod manager (\<open>pkg/kubelet/pod/pod_manager.go\<close>) and its pod
  workers (\<open>pkg/kubelet/pod_workers.go\<close>) as a transition system of goroutines. Each pod worker is a goroutine that reads a
  channel of ten updates; the main loop hands over pods under a lock and keeps the lock while it waits for room in a
  full channel; a worker that has killed its pod takes the lock to remove its channel.
  A step is one atomic action: \<open>kstep\<close> is the executable step function, whose label says which goroutine moves
  and what it is given, and \<open>kruns\<close> are the runs. What the cache shows and the clock says is open in every step.
\<close>

section \<open>Pod manager\<close>

record PodManager =
  podUidMap :: "(UID, Pod) gomap"
  podFullNameMap :: "(string, Pod) gomap"

definition NewPodManager :: PodManager where
  "NewPodManager = \<lparr>podUidMap = [], podFullNameMap = []\<rparr>"

definition GetPodByUid :: "UID \<Rightarrow> PodManager \<Rightarrow> Pod option" where
  "GetPodByUid podUid pm = map_of (podUidMap pm) podUid"

definition GetPodByFullName :: "string \<Rightarrow> PodManager \<Rightarrow> Pod option" where
  "GetPodByFullName podFullName pm = map_of (podFullNameMap pm) podFullName"

definition GetPods :: "PodManager \<Rightarrow> Pod list" where
  "GetPods pm = map snd (podUidMap pm)"

abbreviation uid :: "Pod \<Rightarrow> UID" where
  "uid pod \<equiv> MetaUID (Pod_Meta pod)"

definition Manager_UpdatePod :: "Pod \<Rightarrow> PodManager \<Rightarrow> PodManager" where
  "Manager_UpdatePod pod pm = \<lparr>podUidMap = mput (uid pod) pod (podUidMap pm),
     podFullNameMap = mput (GetPodFullName pod) pod (podFullNameMap pm)\<rparr>"

definition Manager_DeletePod :: "Pod \<Rightarrow> PodManager \<Rightarrow> PodManager" where
  "Manager_DeletePod pod pm = \<lparr>podUidMap = mdel (uid pod) (podUidMap pm),
     podFullNameMap = mdel (GetPodFullName pod) (podFullNameMap pm)\<rparr>"

section \<open>Pod workers\<close>

type_synonym SyncPodType = string

definition SyncPodCreate :: SyncPodType where [simp]: "SyncPodCreate = ''SyncPodCreate''"
definition SyncPodUpdate :: SyncPodType where [simp]: "SyncPodUpdate = ''SyncPodUpdate''"
definition SyncPodKill :: SyncPodType where [simp]: "SyncPodKill = ''SyncPodKill''"
definition SyncPodSync :: SyncPodType where [simp]: "SyncPodSync = ''SyncPodSync''"
definition SyncPodRecreate :: SyncPodType where [simp]: "SyncPodRecreate = ''SyncPodRecreate''"

record UpdatePodOptions =
  Opt_Type :: SyncPodType
  Opt_Pod :: Pod

text \<open>
  Where a worker is: waiting for an update, done with its kill and waiting for the lock, or stopped. A worker and its channel are
  made together and have one index; \<open>channels\<close> is the map \<open>podUpdates\<close> of the code. \<open>sending\<close> is the update for which the main
  loop waits, with the lock, until the channel has room.
\<close>

datatype phase = Receiving | Removing UID | Stopped

record Worker =
  updates :: "UpdatePodOptions list"
  lastSyncTime :: time
  worker_phase :: phase

record PodWorkers =
  channels :: "UID \<rightharpoonup> nat"
  workers :: "Worker list"
  sending :: "(nat \<times> UpdatePodOptions) option"

definition NewPodWorkers :: PodWorkers where
  "NewPodWorkers = \<lparr>channels = (\<lambda>_. None), workers = [], sending = None\<rparr>"

definition channel_size :: nat where "channel_size = 10"

definition push :: "nat \<Rightarrow> UpdatePodOptions \<Rightarrow> PodWorkers \<Rightarrow> PodWorkers" where
  "push i u pw = pw\<lparr>workers := (workers pw)[i := (workers pw ! i)\<lparr>updates := updates (workers pw ! i) @ [u]\<rparr>]\<rparr>"

definition send :: "nat \<Rightarrow> UpdatePodOptions \<Rightarrow> PodWorkers \<Rightarrow> PodWorkers" where
  "send i u pw = (if length (updates (workers pw ! i)) < channel_size then push i u pw else pw\<lparr>sending := Some (i, u)\<rparr>)"

definition UpdatePod :: "Pod \<Rightarrow> SyncPodType \<Rightarrow> PodWorkers \<Rightarrow> PodWorkers" where
  "UpdatePod pod syncPodType pw =
     (let u = \<lparr>Opt_Type = syncPodType, Opt_Pod = pod\<rparr> in
      case channels pw (uid pod) of
        None \<Rightarrow> if syncPodType \<noteq> SyncPodCreate then pw
          else pw\<lparr>channels := (channels pw)(uid pod := Some (length (workers pw))),
                  workers := workers pw @ [\<lparr>updates = [u], lastSyncTime = 0, worker_phase = Receiving\<rparr>]\<rparr>
      | Some updateCh \<Rightarrow> if syncPodType = SyncPodCreate then pw
          else if syncPodType = SyncPodSync \<or> syncPodType = SyncPodKill \<or> syncPodType = SyncPodRecreate
            then send updateCh u pw
          else pw)"

text \<open>A call of \<open>SyncPod\<close>, and one round of \<open>workerLoop\<close>: the worker after it and the call it makes.\<close>

record SyncCall =
  Call_Pod :: Pod
  Call_Type :: SyncPodType
  Call_Status :: "RuntimeStatus option"

definition receive :: "(nat \<Rightarrow> Cache) \<Rightarrow> time \<Rightarrow> Worker \<Rightarrow> (Worker \<times> SyncCall option) option" where
  "receive views now w = (case (worker_phase w, updates w) of
     (Receiving, update # us) \<Rightarrow>
       let t = Opt_Type update; pod = Opt_Pod update; w1 = w\<lparr>updates := us\<rparr> in
       Some (if t = SyncPodCreate then
           (w1\<lparr>lastSyncTime := now\<rparr>, Some \<lparr>Call_Pod = pod, Call_Type = t, Call_Status = None\<rparr>)
         else if t = SyncPodSync \<or> t = SyncPodRecreate then
           (case GetNewerThan (uid pod) (lastSyncTime w) views of (status, err) \<Rightarrow>
              if err \<noteq> None then (w1, None)
              else (w1\<lparr>lastSyncTime := now\<rparr>, Some \<lparr>Call_Pod = pod, Call_Type = t, Call_Status = status\<rparr>))
         else if t = SyncPodKill then
           (w1\<lparr>worker_phase := Removing (uid pod)\<rparr>, Some \<lparr>Call_Pod = pod, Call_Type = t, Call_Status = None\<rparr>)
         else (w1, None))
   | _ \<Rightarrow> None)"

section \<open>The main loop\<close>

type_synonym PodOperation = string

definition ADD :: PodOperation where [simp]: "ADD = ''ADD''"
definition DELETE :: PodOperation where [simp]: "DELETE = ''DELETE''"
definition UPDATE :: PodOperation where [simp]: "UPDATE = ''UPDATE''"

record PodUpdate =
  Update_Pods :: "Pod list"
  Op :: PodOperation

text \<open>\<open>sort.Slice\<close> gives some order that is sorted; which one among equal times is open.\<close>

definition SortPodsByCreationTime :: "Pod list \<Rightarrow> Pod list \<Rightarrow> bool" where
  "SortPodsByCreationTime pods ordered \<longleftrightarrow> mset ordered = mset pods \<and>
     sorted_wrt (\<lambda>a b. CreationTimestamp (Pod_Meta a) \<le> CreationTimestamp (Pod_Meta b)) ordered"

text \<open>What is left to do of the handler that the loop is in.\<close>

datatype todo = Store Pod | Forget Pod | Hand Pod SyncPodType

definition HandlePodAdditions :: "Pod list \<Rightarrow> todo list" where
  "HandlePodAdditions ordered = concat (map (\<lambda>pod. [Store pod, Hand pod SyncPodCreate]) ordered)"

definition HandlePodDeletions :: "Pod list \<Rightarrow> todo list" where
  "HandlePodDeletions pods = concat (map (\<lambda>pod. [Forget pod, Hand pod SyncPodKill]) pods)"

definition HandlePodLifecycleEvent :: "Pod \<Rightarrow> PodLifecycleEvent \<Rightarrow> todo list" where
  "HandlePodLifecycleEvent pod event =
     (if Event_Type event = ContainerDied \<and> Spec_RestartPolicy (Pod_Spec pod) = RestartPolicyAlways
      then [Hand pod SyncPodRecreate] else [Hand pod SyncPodSync])"

record Kubelet =
  podManager :: PodManager
  podWorkers :: PodWorkers
  to_do :: "todo list"

definition NewKubelet :: Kubelet where
  "NewKubelet = \<lparr>podManager = NewPodManager, podWorkers = NewPodWorkers, to_do = []\<rparr>"

text \<open>
  Who moves: the loop takes an update (with the order that sorting gave) or an event of the generator, goes on with a handler, or
  gets room in a channel; a worker takes an update or removes its channel. The tick of the loop only reads the runtime for the
  metrics collector and is left out.
\<close>

datatype klabel =
  Config PodUpdate "Pod list"
| Event PodLifecycleEvent
| Main
| Unblock
| Receive nat "nat \<Rightarrow> Cache" time
| Remove nat

definition idle :: "Kubelet \<Rightarrow> bool" where
  "idle k \<longleftrightarrow> to_do k = [] \<and> sending (podWorkers k) = None"

definition main_step :: "todo \<Rightarrow> Kubelet \<Rightarrow> Kubelet" where
  "main_step op k = (case op of
     Store pod \<Rightarrow> k\<lparr>podManager := Manager_UpdatePod pod (podManager k)\<rparr>
   | Forget pod \<Rightarrow> k\<lparr>podManager := Manager_DeletePod pod (podManager k)\<rparr>
   | Hand pod t \<Rightarrow> k\<lparr>podWorkers := UpdatePod pod t (podWorkers k)\<rparr>)"

definition syncLoopIteration :: "klabel \<Rightarrow> Kubelet \<Rightarrow> Kubelet option" where
  "syncLoopIteration l k = (case l of
     Config update ordered \<Rightarrow>
       if \<not> idle k then None
       else if Op update = ADD then
         (if SortPodsByCreationTime (Update_Pods update) ordered then Some (k\<lparr>to_do := HandlePodAdditions ordered\<rparr>) else None)
       else if Op update = DELETE then Some (k\<lparr>to_do := HandlePodDeletions (Update_Pods update)\<rparr>)
       else Some k
   | Event e \<Rightarrow>
       if \<not> idle k then None
       else (case GetPodByUid (PodId e) (podManager k) of
         None \<Rightarrow> Some k | Some pod \<Rightarrow> Some (k\<lparr>to_do := HandlePodLifecycleEvent pod e\<rparr>))
   | _ \<Rightarrow> None)"

definition set_worker :: "nat \<Rightarrow> Worker \<Rightarrow> PodWorkers \<Rightarrow> PodWorkers" where
  "set_worker i w pw = pw\<lparr>workers := (workers pw)[i := w]\<rparr>"

definition kstep :: "klabel \<Rightarrow> Kubelet \<Rightarrow> (Kubelet \<times> SyncCall option) option" where
  "kstep l k = (let pw = podWorkers k in case l of
     Main \<Rightarrow> (case to_do k of
         op # ops \<Rightarrow> if sending pw = None then Some (main_step op (k\<lparr>to_do := ops\<rparr>), None) else None
       | [] \<Rightarrow> None)
   | Unblock \<Rightarrow> (case sending pw of
         Some (i, u) \<Rightarrow> if length (updates (workers pw ! i)) < channel_size
           then Some (k\<lparr>podWorkers := (push i u pw)\<lparr>sending := None\<rparr>\<rparr>, None) else None
       | None \<Rightarrow> None)
   | Receive i views now \<Rightarrow> if i < length (workers pw) then
         (case receive views now (workers pw ! i) of
            None \<Rightarrow> None
          | Some (w, call) \<Rightarrow> Some (k\<lparr>podWorkers := set_worker i w pw\<rparr>, call)) else None
   | Remove i \<Rightarrow> if i < length (workers pw) \<and> sending pw = None then
         (case worker_phase (workers pw ! i) of
            Removing u \<Rightarrow> Some (k\<lparr>podWorkers := (set_worker i ((workers pw ! i)\<lparr>worker_phase := Stopped\<rparr>) pw)
              \<lparr>channels := (channels pw)(u := None)\<rparr>\<rparr>, None)
          | _ \<Rightarrow> None) else None
   | _ \<Rightarrow> map_option (\<lambda>k'. (k', None)) (syncLoopIteration l k))"

text \<open>The runs: the labels so far, the calls so far and the state.\<close>

inductive kruns :: "klabel list \<Rightarrow> SyncCall list \<Rightarrow> Kubelet \<Rightarrow> bool" where
  start: "kruns [] [] NewKubelet"
| step: "kruns ls cs k \<Longrightarrow> kstep l k = Some (k', call) \<Longrightarrow>
    kruns (ls @ [l]) (cs @ (case call of None \<Rightarrow> [] | Some c \<Rightarrow> [c])) k'"

fun krun :: "klabel list \<Rightarrow> Kubelet \<Rightarrow> (SyncCall list \<times> Kubelet) option" where
  "krun [] k = Some ([], k)"
| "krun (l # ls) k = (case kstep l k of
     None \<Rightarrow> None
   | Some (k1, call) \<Rightarrow> (case krun ls k1 of
       None \<Rightarrow> None
     | Some (cs, k2) \<Rightarrow> Some ((case call of None \<Rightarrow> [] | Some c \<Rightarrow> [c]) @ cs, k2)))"

lemma kruns_append: "kruns ls cs k \<Longrightarrow> krun ls' k = Some (cs', k') \<Longrightarrow> kruns (ls @ ls') (cs @ cs') k'"
proof (induction ls' arbitrary: ls cs k cs')
  case (Cons l ls')
  from Cons.prems(2) obtain k1 call cs1 where 1: "kstep l k = Some (k1, call)" "krun ls' k1 = Some (cs1, k')"
    "cs' = (case call of None \<Rightarrow> [] | Some c \<Rightarrow> [c]) @ cs1"
    by (auto split: option.splits prod.splits)
  from Cons.IH [OF kruns.step [OF Cons.prems(1) 1(1)] 1(2)] 1(3) show ?case by simp
qed simp

section \<open>The protocol of the calls\<close>

text \<open>
  The calls for one pod follow \<open>(Create (Sync | Recreate)* Kill)*\<close>: \<open>protocol b ts\<close> runs the automaton, whose state says whether
  the pod is up, and is \<open>None\<close> at the first call that does not fit.
\<close>

fun protocol :: "bool \<Rightarrow> SyncPodType list \<Rightarrow> bool option" where
  "protocol up [] = Some up"
| "protocol up (t # ts) =
     (if \<not> up then (if t = SyncPodCreate then protocol True ts else None)
      else if t = SyncPodSync \<or> t = SyncPodRecreate then protocol True ts
      else if t = SyncPodKill then protocol False ts else None)"

definition calls_of :: "UID \<Rightarrow> SyncCall list \<Rightarrow> SyncPodType list" where
  "calls_of u cs = map Call_Type (filter (\<lambda>c. uid (Call_Pod c) = u) cs)"

lemma protocol_append: "protocol b (xs @ ys) = (case protocol b xs of None \<Rightarrow> None | Some b' \<Rightarrow> protocol b' ys)"
  by (induction b xs rule: protocol.induct) auto

lemma calls_of_append [simp]: "calls_of u (xs @ ys) = calls_of u xs @ calls_of u ys"
  by (simp add: calls_of_def)

abbreviation types :: "UpdatePodOptions list \<Rightarrow> SyncPodType set" where
  "types us \<equiv> Opt_Type ` set us"

text \<open>What the channel of a pod holds when the calls so far leave the pod in a given state.\<close>

definition queue_fits :: "bool \<Rightarrow> Worker \<Rightarrow> bool" where
  "queue_fits up w \<longleftrightarrow> (case worker_phase w of
     Receiving \<Rightarrow> if up then SyncPodCreate \<notin> types (updates w)
       else updates w \<noteq> [] \<and> Opt_Type (hd (updates w)) = SyncPodCreate \<and> SyncPodCreate \<notin> types (tl (updates w))
   | Removing _ \<Rightarrow> \<not> up
   | Stopped \<Rightarrow> False)"

definition belongs_to :: "UID \<Rightarrow> Worker \<Rightarrow> bool" where
  "belongs_to u w \<longleftrightarrow> (worker_phase w = Receiving \<or> worker_phase w = Removing u) \<and>
     (\<forall>x\<in>set (updates w). uid (Opt_Pod x) = u \<and> Opt_Type x \<in> {SyncPodCreate, SyncPodSync, SyncPodRecreate, SyncPodKill})"

definition workers_ok :: "PodWorkers \<Rightarrow> bool" where
  "workers_ok pw \<longleftrightarrow>
     (\<forall>u i. channels pw u = Some i \<longrightarrow> i < length (workers pw) \<and> belongs_to u (workers pw ! i)) \<and>
     (\<forall>i<length (workers pw). worker_phase (workers pw ! i) \<noteq> Stopped \<longrightarrow> (\<exists>u. channels pw u = Some i)) \<and>
     (\<forall>u v i. channels pw u = Some i \<longrightarrow> channels pw v = Some i \<longrightarrow> u = v) \<and>
     (\<forall>i x. sending pw = Some (i, x) \<longrightarrow> channels pw (uid (Opt_Pod x)) = Some i \<and>
        Opt_Type x \<in> {SyncPodSync, SyncPodRecreate, SyncPodKill})"

definition calls_ok :: "SyncCall list \<Rightarrow> PodWorkers \<Rightarrow> bool" where
  "calls_ok cs pw \<longleftrightarrow> (\<forall>u. \<exists>up. protocol False (calls_of u cs) = Some up \<and>
     (case channels pw u of None \<Rightarrow> \<not> up | Some i \<Rightarrow> queue_fits up (workers pw ! i)))"

lemma calls_ok_sending [simp]: "calls_ok cs (pw\<lparr>sending := x\<rparr>) = calls_ok cs pw"
  unfolding calls_ok_def by (simp cong: option.case_cong)

lemma workers_okD:
  assumes "workers_ok pw"
  shows "channels pw u = Some i \<Longrightarrow> i < length (workers pw)"
    "channels pw u = Some i \<Longrightarrow> belongs_to u (workers pw ! i)"
    "i < length (workers pw) \<Longrightarrow> worker_phase (workers pw ! i) \<noteq> Stopped \<Longrightarrow> \<exists>u. channels pw u = Some i"
    "channels pw u = Some i \<Longrightarrow> channels pw v = Some i \<Longrightarrow> u = v"
    "sending pw = Some (i, x) \<Longrightarrow> channels pw (uid (Opt_Pod x)) = Some i"
    "sending pw = Some (i, x) \<Longrightarrow> Opt_Type x \<in> {SyncPodSync, SyncPodRecreate, SyncPodKill}"
  using assms unfolding workers_ok_def by blast+

lemma push_simps [simp]:
  "channels (push i x pw) = channels pw" "sending (push i x pw) = sending pw"
  "length (workers (push i x pw)) = length (workers pw)"
  by (simp_all add: push_def)

lemma push_nth:
  "j < length (workers pw) \<Longrightarrow> workers (push i x pw) ! j =
     (if j = i then (workers pw ! j)\<lparr>updates := updates (workers pw ! j) @ [x]\<rparr> else workers pw ! j)"
  by (simp add: push_def nth_list_update)

lemma push_ok:
  assumes ok: "workers_ok pw" and ch: "channels pw (uid (Opt_Pod x)) = Some i"
    and t: "Opt_Type x \<in> {SyncPodSync, SyncPodRecreate, SyncPodKill}"
  shows "workers_ok (push i x pw)"
proof -
  have b: "belongs_to u (workers (push i x pw) ! j)" if "channels pw u = Some j" for u j
  proof (cases "j = i")
    case True
    with workers_okD(4) [OF ok that] ch have "u = uid (Opt_Pod x)" by blast
    with workers_okD(1,2) [OF ok that] t True show ?thesis by (auto simp: push_nth belongs_to_def)
  qed (use workers_okD(1,2) [OF ok that] in \<open>simp add: push_nth\<close>)
  moreover have "worker_phase (workers (push i x pw) ! j) = worker_phase (workers pw ! j)" if "j < length (workers pw)" for j
    using that by (simp add: push_nth)
  ultimately show ?thesis using ok unfolding workers_ok_def by (simp add: b)
qed

lemma push_calls:
  assumes ok: "workers_ok pw" "calls_ok cs pw" and ch: "channels pw (uid (Opt_Pod x)) = Some i"
    and t: "Opt_Type x \<noteq> SyncPodCreate"
  shows "calls_ok cs (push i x pw)"
  unfolding calls_ok_def
proof
  fix u
  from ok(2) obtain up where up: "protocol False (calls_of u cs) = Some up"
    "case channels pw u of None \<Rightarrow> \<not> up | Some i \<Rightarrow> queue_fits up (workers pw ! i)" unfolding calls_ok_def by blast
  have "case channels (push i x pw) u of None \<Rightarrow> \<not> up | Some j \<Rightarrow> queue_fits up (workers (push i x pw) ! j)"
  proof (cases "channels pw u")
    case (Some j)
    have "queue_fits up ((workers pw ! j)\<lparr>updates := updates (workers pw ! j) @ [x]\<rparr>)" if "queue_fits up (workers pw ! j)"
      using that t by (auto simp: queue_fits_def split: phase.splits if_splits)
    with up(2) Some workers_okD(1) [OF ok(1) Some] show ?thesis by (auto simp: push_nth)
  qed (use up in simp)
  with up(1) show "\<exists>up. protocol False (calls_of u cs) = Some up \<and>
     (case channels (push i x pw) u of None \<Rightarrow> \<not> up | Some j \<Rightarrow> queue_fits up (workers (push i x pw) ! j))" by blast
qed

lemma UpdatePod_ok:
  assumes ok: "workers_ok pw" "calls_ok cs pw" and free: "sending pw = None"
  shows "workers_ok (UpdatePod pod t pw) \<and> calls_ok cs (UpdatePod pod t pw)"
proof (cases "channels pw (uid pod)")
  case None
  let ?w = "\<lparr>updates = [\<lparr>Opt_Type = t, Opt_Pod = pod\<rparr>], lastSyncTime = 0, worker_phase = Receiving\<rparr>"
  let ?pw = "pw\<lparr>channels := (channels pw)(uid pod := Some (length (workers pw))), workers := workers pw @ [?w]\<rparr>"
  show ?thesis
  proof (cases "t = SyncPodCreate")
    case True
    have new: "channels pw u \<noteq> Some (length (workers pw))" for u
      using workers_okD(1) [OF ok(1)] by blast
    have nth: "(workers pw @ [?w]) ! i = workers pw ! i" if "channels pw u = Some i" for u i
      using workers_okD(1) [OF ok(1) that] by (simp add: nth_append)
    have "workers_ok ?pw"
      unfolding workers_ok_def
    proof (intro conjI allI impI, goal_cases)
      case (1 u i)
      then show ?case using workers_okD(1) [OF ok(1)] by (auto split: if_splits intro: less_SucI)
    next
      case (2 u i)
      then show ?case using workers_okD(2) [OF ok(1)] nth True
        by (auto simp: belongs_to_def split: if_splits)
    next
      case (3 i)
      show ?case
      proof (cases "i = length (workers pw)")
        case False
        with 3 have "i < length (workers pw)" "worker_phase (workers pw ! i) \<noteq> Stopped" by (auto simp: nth_append)
        with workers_okD(3) [OF ok(1)] obtain u where u: "channels pw u = Some i" by blast
        with None have "u \<noteq> uid pod" by auto
        with u show ?thesis by (intro exI [of _ u]) simp
      qed (auto intro: exI [of _ "uid pod"])
    next
      case (4 u v i)
      then show ?case using workers_okD(4) [OF ok(1)] new by (auto split: if_splits)
    qed (use free in auto)
    moreover have "calls_ok cs ?pw"
      unfolding calls_ok_def
    proof
      fix u
      from ok(2) obtain up where up: "protocol False (calls_of u cs) = Some up"
        "case channels pw u of None \<Rightarrow> \<not> up | Some i \<Rightarrow> queue_fits up (workers pw ! i)" unfolding calls_ok_def by blast
      have "case channels ?pw u of None \<Rightarrow> \<not> up | Some j \<Rightarrow> queue_fits up (workers ?pw ! j)"
      proof (cases "u = uid pod")
        case same: True
        with up(2) None have "\<not> up" by simp
        with same True show ?thesis by (simp add: queue_fits_def)
      next
        case False
        with up(2) nth show ?thesis by (auto split: option.splits)
      qed
      with up(1) show "\<exists>up. protocol False (calls_of u cs) = Some up \<and>
        (case channels ?pw u of None \<Rightarrow> \<not> up | Some j \<Rightarrow> queue_fits up (workers ?pw ! j))" by blast
    qed
    moreover have "UpdatePod pod t pw = ?pw" using None True by (simp add: UpdatePod_def)
    ultimately show ?thesis by simp
  next
    case False
    with None ok show ?thesis by (simp add: UpdatePod_def)
  qed
next
  case (Some i)
  let ?x = "\<lparr>Opt_Type = t, Opt_Pod = pod\<rparr>"
  show ?thesis
  proof (cases "t \<in> {SyncPodSync, SyncPodRecreate, SyncPodKill}")
    case True
    then have "UpdatePod pod t pw = send i ?x pw" using Some by (auto simp: UpdatePod_def)
    moreover have "workers_ok (push i ?x pw)" "calls_ok cs (push i ?x pw)"
      using push_ok [OF ok(1), of ?x i] push_calls [OF ok, of ?x i] Some True by auto
    moreover have "workers_ok (pw\<lparr>sending := Some (i, ?x)\<rparr>)" "calls_ok cs (pw\<lparr>sending := Some (i, ?x)\<rparr>)"
      using ok Some True by (auto simp: workers_ok_def)
    ultimately show ?thesis by (simp add: send_def)
  next
    case False
    with Some ok show ?thesis by (auto simp: UpdatePod_def)
  qed
qed

lemma receive_cases:
  assumes "receive views now w = Some (w', call)"
  obtains x us where "worker_phase w = Receiving" "updates w = x # us" "updates w' = us"
    "worker_phase w' = (if Opt_Type x = SyncPodKill then Removing (uid (Opt_Pod x)) else Receiving)"
    "call = None \<Longrightarrow> Opt_Type x \<noteq> SyncPodCreate \<and> Opt_Type x \<noteq> SyncPodKill"
    "\<And>c. call = Some c \<Longrightarrow> Call_Pod c = Opt_Pod x \<and> Call_Type c = Opt_Type x"
proof -
  from assms obtain x us where 1: "worker_phase w = Receiving" "updates w = x # us"
    by (auto simp: receive_def split: phase.splits list.splits)
  with assms have "updates w' = us \<and>
      worker_phase w' = (if Opt_Type x = SyncPodKill then Removing (uid (Opt_Pod x)) else Receiving) \<and>
      (call = None \<longrightarrow> Opt_Type x \<noteq> SyncPodCreate \<and> Opt_Type x \<noteq> SyncPodKill) \<and>
      (\<forall>c. call = Some c \<longrightarrow> Call_Pod c = Opt_Pod x \<and> Call_Type c = Opt_Type x)"
    by (auto simp: receive_def Let_def split: prod.splits if_splits)
  with 1 show thesis by (auto intro: that)
qed

lemma set_worker_simps [simp]:
  "channels (set_worker i w pw) = channels pw" "sending (set_worker i w pw) = sending pw"
  "length (workers (set_worker i w pw)) = length (workers pw)"
  by (simp_all add: set_worker_def)

lemma set_worker_nth:
  "j < length (workers pw) \<Longrightarrow> workers (set_worker i w pw) ! j = (if j = i then w else workers pw ! j)"
  by (auto simp: set_worker_def nth_list_update)

abbreviation call_list :: "SyncCall option \<Rightarrow> SyncCall list" where
  "call_list call \<equiv> (case call of None \<Rightarrow> [] | Some c \<Rightarrow> [c])"

lemma receive_ok:
  assumes ok: "workers_ok pw" "calls_ok cs pw" and i: "i < length (workers pw)"
    and rec: "receive views now (workers pw ! i) = Some (w', call)"
  shows "workers_ok (set_worker i w' pw) \<and> calls_ok (cs @ call_list call) (set_worker i w' pw)"
proof -
  obtain x us where r: "worker_phase (workers pw ! i) = Receiving" "updates (workers pw ! i) = x # us" "updates w' = us"
    "worker_phase w' = (if Opt_Type x = SyncPodKill then Removing (uid (Opt_Pod x)) else Receiving)"
    "call = None \<Longrightarrow> Opt_Type x \<noteq> SyncPodCreate \<and> Opt_Type x \<noteq> SyncPodKill"
    "\<And>c. call = Some c \<Longrightarrow> Call_Pod c = Opt_Pod x \<and> Call_Type c = Opt_Type x"
    using receive_cases [OF rec] by metis
  from workers_okD(3) [OF ok(1) i] r(1) obtain u where u: "channels pw u = Some i" by auto
  have b: "belongs_to u (workers pw ! i)" by (rule workers_okD(2) [OF ok(1) u])
  have xu: "uid (Opt_Pod x) = u" "Opt_Type x \<in> {SyncPodCreate, SyncPodSync, SyncPodRecreate, SyncPodKill}"
    using b r(2) by (auto simp: belongs_to_def)
  have b': "belongs_to u w'" using b r xu(1) by (auto simp: belongs_to_def)
  have only: "v = u" if "channels pw v = Some i" for v using workers_okD(4) [OF ok(1) that u] .
  have bel: "belongs_to v (workers (set_worker i w' pw) ! j)" if "channels pw v = Some j" for v j
    using that workers_okD(1,2) [OF ok(1) that] only b' by (auto simp: set_worker_nth)
  have live: "\<exists>v. channels pw v = Some j" if "j < length (workers pw)" "worker_phase (workers (set_worker i w' pw) ! j) \<noteq> Stopped" for j
    using that workers_okD(3) [OF ok(1)] u by (cases "j = i") (auto simp: set_worker_nth)
  have "workers_ok (set_worker i w' pw)"
    using ok(1) bel live unfolding workers_ok_def by simp
  moreover have "calls_ok (cs @ call_list call) (set_worker i w' pw)"
    unfolding calls_ok_def
  proof
    fix v
    from ok(2) obtain up where up: "protocol False (calls_of v cs) = Some up"
      "case channels pw v of None \<Rightarrow> \<not> up | Some i \<Rightarrow> queue_fits up (workers pw ! i)" unfolding calls_ok_def by blast
    show "\<exists>up. protocol False (calls_of v (cs @ call_list call)) = Some up \<and>
      (case channels (set_worker i w' pw) v of None \<Rightarrow> \<not> up | Some j \<Rightarrow> queue_fits up (workers (set_worker i w' pw) ! j))"
    proof (cases "v = u")
      case False
      have "calls_of v (call_list call) = []"
        using r(6) xu(1) False by (auto simp: calls_of_def split: option.splits)
      moreover have "workers (set_worker i w' pw) ! j = workers pw ! j" if "channels pw v = Some j" for j
        using only that False workers_okD(1) [OF ok(1) that] by (auto simp: set_worker_nth)
      ultimately show ?thesis using up by (auto split: option.splits)
    next
      case True
      have fits: "queue_fits up (workers pw ! i)" using up(2) True u by simp
      have "\<exists>up'. protocol up (calls_of u (call_list call)) = Some up' \<and> queue_fits up' w'"
      proof (cases call)
        case None
        with r(1-5) xu fits show ?thesis
          by (intro exI [of _ up]) (auto simp: calls_of_def queue_fits_def split: if_splits)
      next
        case (Some c)
        then have "calls_of u (call_list call) = [Opt_Type x]" using r(6) xu(1) by (simp add: calls_of_def)
        with r(1-4) xu fits show ?thesis
          by (cases up) (auto simp: queue_fits_def split: if_splits)
      qed
      with up(1) True u i show ?thesis by (auto simp: protocol_append set_worker_nth)
    qed
  qed
  ultimately show ?thesis by simp
qed

lemma remove_ok:
  assumes ok: "workers_ok pw" "calls_ok cs pw" and free: "sending pw = None" and i: "i < length (workers pw)"
    and ph: "worker_phase (workers pw ! i) = Removing u"
  defines "pw' \<equiv> (set_worker i ((workers pw ! i)\<lparr>worker_phase := Stopped\<rparr>) pw)\<lparr>channels := (channels pw)(u := None)\<rparr>"
  shows "workers_ok pw' \<and> calls_ok cs pw'"
proof -
  from workers_okD(3) [OF ok(1) i] ph obtain v where v: "channels pw v = Some i" by auto
  with workers_okD(2) [OF ok(1) v] ph have u: "channels pw u = Some i" by (auto simp: belongs_to_def)
  have other: "j \<noteq> i" if "channels pw' w = Some j" for w j
    using that workers_okD(4) [OF ok(1) _ u] by (auto simp: pw'_def split: if_splits)
  have nth: "workers pw' ! j = (if j = i then (workers pw ! i)\<lparr>worker_phase := Stopped\<rparr> else workers pw ! j)"
    if "j < length (workers pw)" for j
    using that by (simp add: pw'_def set_worker_nth)
  have chan: "channels pw' w = (if w = u then None else channels pw w)" for w by (simp add: pw'_def)
  have len: "length (workers pw') = length (workers pw)" by (simp add: pw'_def)
  have "workers_ok pw'"
    unfolding workers_ok_def
  proof (intro conjI allI impI, goal_cases)
    case (1 w j)
    then show ?case using workers_okD(1) [OF ok(1)] by (auto simp: chan len split: if_splits)
  next
    case (2 w j)
    with other chan have "j \<noteq> i" "channels pw w = Some j" by (auto split: if_splits)
    with workers_okD(1,2) [OF ok(1)] show ?case by (simp add: nth)
  next
    case (3 j)
    then have j: "j < length (workers pw)" "j \<noteq> i" "worker_phase (workers pw ! j) \<noteq> Stopped"
      by (auto simp: len nth split: if_splits)
    with workers_okD(3) [OF ok(1)] obtain w where w: "channels pw w = Some j" by blast
    with j u have "w \<noteq> u" by auto
    with w show ?case by (auto simp: chan)
  next
    case (4 w w' j)
    then show ?case using workers_okD(4) [OF ok(1)] by (auto simp: chan split: if_splits)
  qed (use free in \<open>auto simp: pw'_def\<close>)
  moreover have "calls_ok cs pw'"
    unfolding calls_ok_def
  proof
    fix w
    from ok(2) obtain up where up: "protocol False (calls_of w cs) = Some up"
      "case channels pw w of None \<Rightarrow> \<not> up | Some i \<Rightarrow> queue_fits up (workers pw ! i)" unfolding calls_ok_def by blast
    have "case channels pw' w of None \<Rightarrow> \<not> up | Some j \<Rightarrow> queue_fits up (workers pw' ! j)"
    proof (cases "w = u")
      case True
      with up(2) u ph have "\<not> up" by (simp add: queue_fits_def)
      with True show ?thesis by (simp add: chan)
    next
      case False
      then show ?thesis using up(2) workers_okD(1,4) [OF ok(1)] u
        by (auto simp: chan nth split: option.splits)
    qed
    with up(1) show "\<exists>up. protocol False (calls_of w cs) = Some up \<and>
      (case channels pw' w of None \<Rightarrow> \<not> up | Some j \<Rightarrow> queue_fits up (workers pw' ! j))" by blast
  qed
  ultimately show ?thesis by simp
qed

lemma syncLoopIteration_workers:
  "syncLoopIteration l k = Some k' \<Longrightarrow> podWorkers k' = podWorkers k"
  by (auto simp: syncLoopIteration_def split: klabel.splits if_splits option.splits)

lemma kstep_ok:
  assumes ok: "workers_ok (podWorkers k)" "calls_ok cs (podWorkers k)" and st: "kstep l k = Some (k', call)"
  shows "workers_ok (podWorkers k') \<and> calls_ok (cs @ call_list call) (podWorkers k')"
proof (cases l)
  case Main
  with st obtain op ops where m: "to_do k = op # ops" "sending (podWorkers k) = None"
    "k' = main_step op (k\<lparr>to_do := ops\<rparr>)" "call = None"
    by (auto simp: kstep_def Let_def split: list.splits if_splits)
  then show ?thesis using ok UpdatePod_ok [OF ok m(2)] by (cases op) (auto simp: main_step_def)
next
  case Unblock
  with st obtain i x where m: "sending (podWorkers k) = Some (i, x)" "call = None"
    "podWorkers k' = (push i x (podWorkers k))\<lparr>sending := None\<rparr>"
    by (auto simp: kstep_def Let_def split: option.splits if_splits)
  note d = workers_okD(5,6) [OF ok(1) m(1)]
  have "workers_ok (push i x (podWorkers k))" using push_ok [OF ok(1) d] .
  moreover have "calls_ok cs (push i x (podWorkers k))" using push_calls [OF ok d(1)] d(2) by auto
  ultimately show ?thesis using m by (simp add: workers_ok_def)
next
  case (Receive i views now)
  with st obtain w where "i < length (workers (podWorkers k))" "receive views now (workers (podWorkers k) ! i) = Some (w, call)"
    "k' = k\<lparr>podWorkers := set_worker i w (podWorkers k)\<rparr>"
    by (auto simp: kstep_def Let_def split: option.splits if_splits)
  with receive_ok [OF ok] show ?thesis by simp
next
  case (Remove i)
  with st obtain u where "i < length (workers (podWorkers k))" "sending (podWorkers k) = None"
    "worker_phase (workers (podWorkers k) ! i) = Removing u" "call = None"
    "podWorkers k' = (set_worker i ((workers (podWorkers k) ! i)\<lparr>worker_phase := Stopped\<rparr>) (podWorkers k))
              \<lparr>channels := (channels (podWorkers k))(u := None)\<rparr>"
    by (auto simp: kstep_def Let_def split: phase.splits if_splits)
  with remove_ok [OF ok] show ?thesis by simp
next
  case (Config up ordered)
  with st have "podWorkers k' = podWorkers k" "call = None" by (auto simp: kstep_def Let_def dest: syncLoopIteration_workers)
  with ok show ?thesis by simp
next
  case (Event e)
  with st have "podWorkers k' = podWorkers k" "call = None" by (auto simp: kstep_def Let_def dest: syncLoopIteration_workers)
  with ok show ?thesis by simp
qed

lemma kruns_ok:
  assumes "kruns ls cs k"
  shows "workers_ok (podWorkers k)" "calls_ok cs (podWorkers k)"
proof -
  have "workers_ok (podWorkers k) \<and> calls_ok cs (podWorkers k)"
    using assms
  proof induction
    case start
    show ?case
      by (auto simp: NewKubelet_def NewPodWorkers_def workers_ok_def calls_ok_def calls_of_def intro: exI [of _ False])
  next
    case (step ls cs k l k' call)
    then show ?case using kstep_ok by blast
  qed
  then show "workers_ok (podWorkers k)" "calls_ok cs (podWorkers k)" by simp_all
qed

section \<open>Properties\<close>

text \<open>
  C28: in every run of a kubelet, whatever updates and events arrive and however its goroutines interleave, the runtime is
  called for each pod in the order create, then syncs and recreations, then kill, and creation again only after the kill; and
  no two live workers ever hold updates of one pod.
\<close>

theorem kubelet_call_protocol:
  assumes "kruns ls cs k"
  shows "(\<exists>up. protocol False (calls_of u cs) = Some up) \<and>
    (\<forall>i j x y. i < length (workers (podWorkers k)) \<longrightarrow> j < length (workers (podWorkers k)) \<longrightarrow>
       worker_phase (workers (podWorkers k) ! i) \<noteq> Stopped \<longrightarrow> worker_phase (workers (podWorkers k) ! j) \<noteq> Stopped \<longrightarrow>
       x \<in> set (updates (workers (podWorkers k) ! i)) \<longrightarrow> y \<in> set (updates (workers (podWorkers k) ! j)) \<longrightarrow>
       uid (Opt_Pod x) = uid (Opt_Pod y) \<longrightarrow> i = j)"
proof (intro conjI allI impI, goal_cases)
  case 1
  show ?case using kruns_ok(2) [OF assms] unfolding calls_ok_def by blast
next
  case (2 i j x y)
  note ok = kruns_ok(1) [OF assms]
  from workers_okD(3) [OF ok] 2 obtain a b where ab: "channels (podWorkers k) a = Some i" "channels (podWorkers k) b = Some j"
    by blast
  with workers_okD(2) [OF ok] 2 have "uid (Opt_Pod x) = a" "uid (Opt_Pod y) = b" by (auto simp: belongs_to_def)
  with ab 2 show ?case by simp
qed

text \<open>A run: a pod is added, created, found dead and recreated, and killed.\<close>

definition demo_always :: Pod where
  "demo_always = demo_runtime_pod ''u1'' ''a''\<lparr>Pod_Spec := zero_PodSpec\<lparr>Spec_RestartPolicy := RestartPolicyAlways\<rparr>\<rparr>"

definition demo_cache :: Cache where
  "demo_cache = snd (Cache_Set ''u1'' (Some \<lparr>ST_ID = ''u1'', ST_Name = ''a'', ST_Namespace = ''default'', IPs = [],
     ContainerStatuses = [], ST_TimeStamp = 9\<rparr>) None 9 NewCache)"

definition died :: klabel where
  "died = Event \<lparr>PodId = ''u1'', Event_Type = ContainerDied\<rparr>"

definition demo_kubelet_labels :: "klabel list" where
  "demo_kubelet_labels = [Config \<lparr>Update_Pods = [demo_always], Op = ADD\<rparr> [demo_always], Main, Main,
     Receive 0 (\<lambda>_. demo_cache) 5, died, Main, Receive 0 (\<lambda>_. demo_cache) 11,
     Config \<lparr>Update_Pods = [demo_always], Op = DELETE\<rparr> [], Main, Main, Receive 0 (\<lambda>_. demo_cache) 13]"

definition demo_kubelet_end :: "SyncCall list \<times> Kubelet" where
  "demo_kubelet_end = the (krun demo_kubelet_labels NewKubelet)"

lemma demo_kubelet_run: "kruns demo_kubelet_labels (fst demo_kubelet_end) (snd demo_kubelet_end)"
proof -
  have "krun demo_kubelet_labels NewKubelet \<noteq> None" by code_simp
  then have "krun demo_kubelet_labels NewKubelet = Some (fst demo_kubelet_end, snd demo_kubelet_end)"
    by (simp add: demo_kubelet_end_def)
  from kruns_append [OF kruns.start this] show ?thesis by simp
qed

theorem kubelet_call_protocol_witness:
  "(\<exists>up. protocol False (calls_of ''u1'' (fst demo_kubelet_end)) = Some up) \<and>
   calls_of ''u1'' (fst demo_kubelet_end) = [SyncPodCreate, SyncPodRecreate, SyncPodKill]"
proof
  show "\<exists>up. protocol False (calls_of ''u1'' (fst demo_kubelet_end)) = Some up"
    using kubelet_call_protocol [OF demo_kubelet_run] by (rule conjunct1)
  show "calls_of ''u1'' (fst demo_kubelet_end) = [SyncPodCreate, SyncPodRecreate, SyncPodKill]" by code_simp
qed

text \<open>
  C29: a pod that is added again while its worker is still killing it can stop the whole kubelet: the events of the pod fill
  the channel behind the kill, the main loop waits for room with the lock in its hands, and the worker waits for the lock.
  No goroutine can ever move again.
\<close>

definition readd_labels :: "klabel list" where
  "readd_labels = [Config \<lparr>Update_Pods = [demo_always], Op = ADD\<rparr> [demo_always], Main, Main, Receive 0 (\<lambda>_. demo_cache) 5,
     Config \<lparr>Update_Pods = [demo_always], Op = DELETE\<rparr> [], Main, Main, Receive 0 (\<lambda>_. demo_cache) 6,
     Config \<lparr>Update_Pods = [demo_always], Op = ADD\<rparr> [demo_always], Main, Main]
     @ concat (replicate 11 [died, Main])"

definition readd_end :: "SyncCall list \<times> Kubelet" where
  "readd_end = the (krun readd_labels NewKubelet)"

definition goes_nowhere :: "Kubelet \<Rightarrow> bool" where
  "goes_nowhere k \<longleftrightarrow> (\<forall>l. kstep l k = None)"

lemma goes_nowhere_iff:
  assumes "workers (podWorkers k) = [w]" "worker_phase w = Removing u" "sending (podWorkers k) = Some (0, x)"
    "length (updates w) = channel_size"
  shows "goes_nowhere k"
  unfolding goes_nowhere_def
proof
  fix l
  show "kstep l k = None"
    using assms by (cases l) (auto simp: kstep_def Let_def syncLoopIteration_def idle_def receive_def split: list.splits)
qed

theorem readded_pod_stops_kubelet:
  "\<exists>cs k. kruns readd_labels cs k \<and> (\<forall>l. kstep l k = None) \<and> calls_of ''u1'' cs = [SyncPodCreate, SyncPodKill] \<and>
     GetPodByUid ''u1'' (podManager k) = Some demo_always"
proof -
  have "krun readd_labels NewKubelet \<noteq> None" by code_simp
  then have "krun readd_labels NewKubelet = Some (fst readd_end, snd readd_end)"
    by (simp add: readd_end_def)
  from kruns_append [OF kruns.start this] have "kruns readd_labels (fst readd_end) (snd readd_end)" by simp
  moreover have "goes_nowhere (snd readd_end)"
  proof -
    have "length (workers (podWorkers (snd readd_end))) = 1"
      "worker_phase (hd (workers (podWorkers (snd readd_end)))) = Removing ''u1''"
      "map_option fst (sending (podWorkers (snd readd_end))) = Some 0"
      "length (updates (hd (workers (podWorkers (snd readd_end))))) = channel_size"
      by code_simp+
    then show ?thesis by (cases "workers (podWorkers (snd readd_end))") (auto intro!: goes_nowhere_iff)
  qed
  moreover have "calls_of ''u1'' (fst readd_end) = [SyncPodCreate, SyncPodKill]" by code_simp
  moreover have "GetPodByUid ''u1'' (podManager (snd readd_end)) = Some demo_always" by code_simp
  ultimately show ?thesis unfolding goes_nowhere_def by blast
qed

end
