(* ===== verification/Kubelet_Settles.thy ===== *)
theory Kubelet_Settles
  imports Kubelet_Workers
begin

text \<open>
  When no more updates and events arrive, a kubelet comes to rest: its goroutines make finitely many steps, and if every pod was
  added once and deleted once at most, they all finish, with exactly the pods of the pod manager up.
\<close>

section \<open>Steps of the kubelet itself\<close>

fun internal :: "klabel \<Rightarrow> bool" where
  "internal (Config _ _) = False"
| "internal (Event _) = False"
| "internal _ = True"

definition stuck :: "Kubelet \<Rightarrow> bool" where
  "stuck k \<longleftrightarrow> (\<forall>l. internal l \<longrightarrow> kstep l k = None)"

text \<open>A bound on the number of steps that are left.\<close>

definition load :: "Worker \<Rightarrow> nat" where
  "load w = 2 * length (updates w) + (case worker_phase w of Removing _ \<Rightarrow> 1 | _ \<Rightarrow> 0)"

definition loads :: "PodWorkers \<Rightarrow> nat" where
  "loads pw = sum_list (map load (workers pw)) + (if sending pw = None then 0 else 3)"

definition work :: "Kubelet \<Rightarrow> nat" where
  "work k = 10 * length (to_do k) + loads (podWorkers k)"

lemma sum_load_update:
  "i < length ws \<Longrightarrow> sum_list (map load (ws[i := w])) + load (ws ! i) = sum_list (map load ws) + load w"
proof -
  assume i: "i < length ws"
  have "load (ws ! i) \<le> sum_list (map load ws)" using i by (intro member_le_sum_list) auto
  with i show ?thesis by (simp add: map_update sum_list_update)
qed

lemma load_push: "load (w\<lparr>updates := updates w @ [x]\<rparr>) = load w + 2"
  by (simp add: load_def)

lemma loads_push:
  assumes "i < length (workers pw)"
  shows "sum_list (map load (workers (push i x pw))) = sum_list (map load (workers pw)) + 2"
  using sum_load_update [OF assms, of "(workers pw ! i)\<lparr>updates := updates (workers pw ! i) @ [x]\<rparr>"]
  by (simp add: push_def load_push)

lemma loads_UpdatePod:
  assumes "workers_ok pw" "sending pw = None"
  shows "loads (UpdatePod pod t pw) \<le> loads pw + 3"
proof (cases "channels pw (uid pod)")
  case None
  then show ?thesis using assms by (auto simp: UpdatePod_def loads_def load_def)
next
  case (Some i)
  have "loads (send i x pw) \<le> loads pw + 3" for x
    using loads_push [of i pw x] workers_okD(1) [OF assms(1) Some] assms(2) by (simp add: send_def loads_def)
  with Some show ?thesis by (simp add: UpdatePod_def)
qed

lemma receive_load:
  assumes "receive views now w = Some (w', call)"
  shows "load w' < load w"
proof -
  obtain x us where "worker_phase w = Receiving" "updates w = x # us" "updates w' = us"
    "worker_phase w' = (if Opt_Type x = SyncPodKill then Removing (uid (Opt_Pod x)) else Receiving)"
    by (rule receive_cases [OF assms])
  then show ?thesis by (simp add: load_def)
qed

lemma work_decreases:
  assumes ok: "workers_ok (podWorkers k)" and st: "kstep l k = Some (k', call)" and int: "internal l"
  shows "work k' < work k"
proof (cases l)
  case Main
  with st obtain op ops where m: "to_do k = op # ops" "sending (podWorkers k) = None" "k' = main_step op (k\<lparr>to_do := ops\<rparr>)"
    by (auto simp: kstep_def Let_def split: list.splits if_splits)
  show ?thesis
  proof (cases op)
    case (Hand pod t)
    with m loads_UpdatePod [OF ok m(2), of pod t] show ?thesis by (simp add: main_step_def work_def)
  qed (use m in \<open>simp_all add: main_step_def work_def\<close>)
next
  case Unblock
  with st obtain i x where m: "sending (podWorkers k) = Some (i, x)"
    "k' = k\<lparr>podWorkers := (push i x (podWorkers k))\<lparr>sending := None\<rparr>\<rparr>"
    by (auto simp: kstep_def Let_def split: option.splits if_splits)
  then have "i < length (workers (podWorkers k))" using workers_okD(1,5) [OF ok] by blast
  with m loads_push show ?thesis by (simp add: work_def loads_def)
next
  case (Receive i views now)
  with st obtain w where m: "i < length (workers (podWorkers k))" "receive views now (workers (podWorkers k) ! i) = Some (w, call)"
    "k' = k\<lparr>podWorkers := set_worker i w (podWorkers k)\<rparr>"
    by (auto simp: kstep_def Let_def split: option.splits if_splits)
  with sum_load_update [OF m(1), of w] receive_load [OF m(2)] show ?thesis
    by (simp add: work_def loads_def set_worker_def)
next
  case (Remove i)
  with st obtain u where m: "i < length (workers (podWorkers k))" "worker_phase (workers (podWorkers k) ! i) = Removing u"
    "k' = k\<lparr>podWorkers := (set_worker i ((workers (podWorkers k) ! i)\<lparr>worker_phase := Stopped\<rparr>) (podWorkers k))
              \<lparr>channels := (channels (podWorkers k))(u := None)\<rparr>\<rparr>"
    by (auto simp: kstep_def Let_def split: phase.splits if_splits)
  with sum_load_update [OF m(1), of "(workers (podWorkers k) ! i)\<lparr>worker_phase := Stopped\<rparr>"] show ?thesis
    by (simp add: work_def loads_def set_worker_def load_def)
qed (use int in auto)

lemma internal_runs_end:
  assumes "workers_ok (podWorkers k)" "calls_ok cs (podWorkers k)" "krun ls k = Some (cs', k')" "list_all internal ls"
  shows "length ls + work k' \<le> work k"
  using assms
proof (induction ls arbitrary: k cs cs')
  case (Cons l ls)
  from Cons.prems(3) obtain k1 call cs1 where 1: "kstep l k = Some (k1, call)" "krun ls k1 = Some (cs1, k')"
    by (auto split: option.splits prod.splits)
  from kstep_ok [OF Cons.prems(1,2) 1(1)] have "workers_ok (podWorkers k1)" "calls_ok (cs @ call_list call) (podWorkers k1)"
    by simp_all
  from Cons.IH [OF this 1(2)] Cons.prems(4) have "length ls + work k' \<le> work k1" by simp
  with work_decreases [OF Cons.prems(1) 1(1)] Cons.prems(4) show ?case by simp
qed simp

section \<open>Pods that come once\<close>

fun added :: "klabel list \<Rightarrow> UID list" where
  "added [] = []"
| "added (Config up _ # ls) = (if Op up = ADD then map uid (Update_Pods up) else []) @ added ls"
| "added (_ # ls) = added ls"

fun deleted :: "klabel list \<Rightarrow> UID list" where
  "deleted [] = []"
| "deleted (Config up _ # ls) = (if Op up = DELETE then map uid (Update_Pods up) else []) @ deleted ls"
| "deleted (_ # ls) = deleted ls"

definition once :: "klabel list \<Rightarrow> bool" where
  "once ls \<longleftrightarrow> distinct (added ls) \<and> distinct (deleted ls)"

lemma added_append [simp]: "added (xs @ ys) = added xs @ added ys"
  by (induction xs rule: added.induct) auto

lemma deleted_append [simp]: "deleted (xs @ ys) = deleted xs @ deleted ys"
  by (induction xs rule: deleted.induct) auto

lemma internal_added: "list_all internal ls \<Longrightarrow> added ls = [] \<and> deleted ls = []"
  by (induction ls rule: added.induct) auto

text \<open>The pods that the updates received so far ask for.\<close>

fun received :: "klabel list \<Rightarrow> PodUpdate list" where
  "received [] = []"
| "received (Config up _ # ls) = up # received ls"
| "received (_ # ls) = received ls"

definition apply_update :: "PodUpdate \<Rightarrow> UID set \<Rightarrow> UID set" where
  "apply_update up U = (if Op up = ADD then U \<union> uid ` set (Update_Pods up)
     else if Op up = DELETE then U - uid ` set (Update_Pods up) else U)"

definition wanted :: "klabel list \<Rightarrow> UID set" where
  "wanted ls = fold apply_update (received ls) {}"

lemma received_append [simp]: "received (xs @ ys) = received xs @ received ys"
  by (induction xs rule: received.induct) auto

lemma internal_received: "list_all internal ls \<Longrightarrow> received ls = []"
  by (induction ls rule: received.induct) auto

text \<open>A kill of the pod is on its way: in its channel, waiting for room, or done.\<close>

definition killed :: "PodWorkers \<Rightarrow> UID \<Rightarrow> bool" where
  "killed pw u \<longleftrightarrow> (\<exists>i. channels pw u = Some i \<and>
     (SyncPodKill \<in> types (updates (workers pw ! i)) \<or> worker_phase (workers pw ! i) = Removing u \<or>
      (\<exists>x. sending pw = Some (i, x) \<and> Opt_Type x = SyncPodKill)))"

text \<open>Nothing follows a kill in a channel.\<close>

definition kill_last :: "PodWorkers \<Rightarrow> bool" where
  "kill_last pw \<longleftrightarrow>
     (\<forall>u i. channels pw u = Some i \<longrightarrow> SyncPodKill \<notin> types (butlast (updates (workers pw ! i))) \<and>
        (worker_phase (workers pw ! i) = Removing u \<longrightarrow> updates (workers pw ! i) = [])) \<and>
     (\<forall>i x. sending pw = Some (i, x) \<longrightarrow> SyncPodKill \<notin> types (updates (workers pw ! i)) \<and>
        worker_phase (workers pw ! i) = Receiving)"

abbreviation held :: "Kubelet \<Rightarrow> UID \<Rightarrow> Pod option" where
  "held k u \<equiv> map_of (podUidMap (podManager k)) u"

fun todo_uid :: "todo \<Rightarrow> UID" where
  "todo_uid (Store p) = uid p"
| "todo_uid (Forget p) = uid p"
| "todo_uid (Hand p t) = uid p"

fun decides :: "todo \<Rightarrow> bool" where
  "decides (Hand p t) \<longleftrightarrow> t \<noteq> SyncPodSync \<and> t \<noteq> SyncPodRecreate"
| "decides _ = True"

lemma kill_lastD:
  assumes "kill_last pw"
  shows "channels pw u = Some i \<Longrightarrow> SyncPodKill \<notin> types (butlast (updates (workers pw ! i)))"
    "channels pw u = Some i \<Longrightarrow> worker_phase (workers pw ! i) = Removing u \<Longrightarrow> updates (workers pw ! i) = []"
    "sending pw = Some (i, x) \<Longrightarrow> SyncPodKill \<notin> types (updates (workers pw ! i))"
    "sending pw = Some (i, x) \<Longrightarrow> worker_phase (workers pw ! i) = Receiving"
  using assms unfolding kill_last_def by blast+

lemma killedI:
  assumes "channels pw u = Some i"
  shows "killed pw u \<longleftrightarrow> SyncPodKill \<in> types (updates (workers pw ! i)) \<or> worker_phase (workers pw ! i) = Removing u \<or>
     (\<exists>x. sending pw = Some (i, x) \<and> Opt_Type x = SyncPodKill)"
  using assms by (simp add: killed_def)

lemma not_killed_receiving:
  assumes "workers_ok pw" "channels pw u = Some i" "\<not> killed pw u"
  shows "worker_phase (workers pw ! i) = Receiving" "SyncPodKill \<notin> types (updates (workers pw ! i))"
  using assms(3) workers_okD(2) [OF assms(1,2)] killedI [OF assms(2)] by (auto simp: belongs_to_def)

lemma killed_push:
  assumes ok: "workers_ok pw" and ch: "channels pw v = Some i"
  shows "killed (push i x pw) u \<longleftrightarrow> killed pw u \<or> (u = v \<and> Opt_Type x = SyncPodKill)"
proof (cases "channels pw u")
  case None
  with ch show ?thesis by (auto simp: killed_def)
next
  case (Some j)
  then have "channels (push i x pw) u = Some j" by simp
  from killedI [OF this] killedI [OF Some] show ?thesis
    using workers_okD(1) [OF ok Some] workers_okD(4) [OF ok Some, of v] ch Some
    by (cases "j = i") (auto simp: push_nth)
qed

lemma kill_last_push:
  assumes ok: "workers_ok pw" and kl: "kill_last pw" and i: "i < length (workers pw)"
    and free: "SyncPodKill \<notin> types (updates (workers pw ! i))" "worker_phase (workers pw ! i) = Receiving" "sending pw = None"
  shows "kill_last (push i x pw)"
  unfolding kill_last_def
proof (intro conjI allI impI, goal_cases)
  case (1 u j)
  then have j: "channels pw u = Some j" by simp
  show ?case using kill_lastD(1) [OF kl j] workers_okD(1) [OF ok j] free by (cases "j = i") (auto simp: push_nth)
next
  case (2 u j)
  then have j: "channels pw u = Some j" by simp
  show ?case using kill_lastD(2) [OF kl j] workers_okD(1) [OF ok j] free 2 by (cases "j = i") (auto simp: push_nth)
qed (use free in auto)

section \<open>The invariant\<close>

definition fresh_for :: "Kubelet \<Rightarrow> Pod list \<Rightarrow> bool" where
  "fresh_for k ps \<longleftrightarrow> (\<forall>p\<in>set ps. channels (podWorkers k) (uid p) = None \<and> held k (uid p) = None)"

text \<open>The pods that the rest of the handler touches, and those whose being up or not it changes.\<close>

definition touched :: "todo list \<Rightarrow> UID set" where
  "touched ops = todo_uid ` set ops"

definition decided :: "todo list \<Rightarrow> UID set" where
  "decided ops = todo_uid ` set (filter decides ops)"

lemma touched_simps [simp]:
  "touched [] = {}" "touched (op # ops) = insert (todo_uid op) (touched ops)"
  "touched (HandlePodAdditions ps) = uid ` set ps" "touched (HandlePodDeletions ps) = uid ` set ps"
  by (auto simp: touched_def HandlePodAdditions_def HandlePodDeletions_def image_UN)

lemma decided_simps [simp]:
  "decided [] = {}" "decided (op # ops) = (if decides op then insert (todo_uid op) (decided ops) else decided ops)"
  by (simp_all add: decided_def)

lemma decided_handlers [simp]:
  "decided (HandlePodAdditions ps) = uid ` set ps" "decided (HandlePodDeletions ps) = uid ` set ps"
  by (induction ps) (auto simp: HandlePodAdditions_def HandlePodDeletions_def)

text \<open>Where the main loop is in its handler.\<close>

definition in_additions :: "UID set \<Rightarrow> Kubelet \<Rightarrow> bool" where
  "in_additions A k \<longleftrightarrow> (\<exists>ps. to_do k = HandlePodAdditions ps \<and> distinct (map uid ps) \<and> uid ` set ps \<subseteq> A \<and> fresh_for k ps)"

definition in_creation :: "UID set \<Rightarrow> Kubelet \<Rightarrow> bool" where
  "in_creation A k \<longleftrightarrow> (\<exists>p ps. to_do k = Hand p SyncPodCreate # HandlePodAdditions ps \<and> distinct (map uid (p # ps)) \<and>
     uid ` set (p # ps) \<subseteq> A \<and> fresh_for k ps \<and> held k (uid p) \<noteq> None \<and> channels (podWorkers k) (uid p) = None)"

definition in_deletions :: "UID set \<Rightarrow> Kubelet \<Rightarrow> bool" where
  "in_deletions D k \<longleftrightarrow> (\<exists>ps. to_do k = HandlePodDeletions ps \<and> distinct (map uid ps) \<and> uid ` set ps \<subseteq> D)"

definition in_kill :: "UID set \<Rightarrow> Kubelet \<Rightarrow> bool" where
  "in_kill D k \<longleftrightarrow> (\<exists>p ps. to_do k = Hand p SyncPodKill # HandlePodDeletions ps \<and> distinct (map uid (p # ps)) \<and>
     uid ` set (p # ps) \<subseteq> D \<and> held k (uid p) = None)"

definition in_event :: "Kubelet \<Rightarrow> bool" where
  "in_event k \<longleftrightarrow> (\<exists>p t. to_do k = [Hand p t] \<and> t \<in> {SyncPodSync, SyncPodRecreate} \<and> held k (uid p) \<noteq> None)"

definition tidy :: "UID set \<Rightarrow> UID set \<Rightarrow> Kubelet \<Rightarrow> bool" where
  "tidy A D k \<longleftrightarrow>
     (\<forall>u. killed (podWorkers k) u \<longrightarrow> held k u = None \<and> u \<notin> touched (to_do k) \<and> u \<in> A \<and> u \<in> D) \<and>
     (\<forall>u. channels (podWorkers k) u \<noteq> None \<or> held k u \<noteq> None \<longrightarrow> u \<in> A) \<and>
     kill_last (podWorkers k) \<and>
     (in_additions A k \<or> in_creation A k \<or> in_deletions D k \<or> in_kill D k \<or> in_event k) \<and>
     (\<forall>u p. held k u = Some p \<longrightarrow> uid p = u) \<and>
     (\<forall>u. u \<notin> decided (to_do k) \<longrightarrow>
        (held k u \<noteq> None \<longleftrightarrow> channels (podWorkers k) u \<noteq> None \<and> \<not> killed (podWorkers k) u))"

lemma tidyD:
  assumes "tidy A D k"
  shows "killed (podWorkers k) u \<Longrightarrow> held k u = None" "killed (podWorkers k) u \<Longrightarrow> u \<notin> touched (to_do k)"
    "killed (podWorkers k) u \<Longrightarrow> u \<in> A" "killed (podWorkers k) u \<Longrightarrow> u \<in> D"
    "channels (podWorkers k) u \<noteq> None \<Longrightarrow> u \<in> A" "held k u \<noteq> None \<Longrightarrow> u \<in> A"
    "kill_last (podWorkers k)"
    "in_additions A k \<or> in_creation A k \<or> in_deletions D k \<or> in_kill D k \<or> in_event k"
    "held k u = Some p \<Longrightarrow> uid p = u"
    "u \<notin> decided (to_do k) \<Longrightarrow>
        held k u \<noteq> None \<longleftrightarrow> channels (podWorkers k) u \<noteq> None \<and> \<not> killed (podWorkers k) u"
  using assms unfolding tidy_def by blast+

lemma tidy_mono:
  assumes "tidy A D k" "A \<subseteq> A'" "D \<subseteq> D'"
  shows "tidy A' D' k"
proof -
  have "in_additions A k \<Longrightarrow> in_additions A' k" "in_creation A k \<Longrightarrow> in_creation A' k"
    "in_deletions D k \<Longrightarrow> in_deletions D' k" "in_kill D k \<Longrightarrow> in_kill D' k"
    using assms(2,3) unfolding in_additions_def in_creation_def in_deletions_def in_kill_def by (meson order_trans)+
  then show ?thesis using assms unfolding tidy_def by blast
qed

text \<open>A step of a worker: a channel disappears only behind a kill, and a kill only with its channel.\<close>

lemma tidy_workers:
  assumes tidy: "tidy A D k" and kl: "kill_last pw"
    and ch: "\<And>u. channels pw u = channels (podWorkers k) u \<or> killed (podWorkers k) u \<and> channels pw u = None"
    and ki: "\<And>u. killed pw u \<longleftrightarrow> killed (podWorkers k) u \<and> channels pw u \<noteq> None"
  shows "tidy A D (k\<lparr>podWorkers := pw\<rparr>)"
proof -
  let ?k = "k\<lparr>podWorkers := pw\<rparr>"
  have none: "channels pw u = None" if "channels (podWorkers k) u = None" for u
    using ch [of u] that by auto
  have fresh: "fresh_for ?k ps" if "fresh_for k ps" for ps
    using that none by (simp add: fresh_for_def)
  have "in_additions A ?k" if "in_additions A k"
  proof -
    from that obtain ps where "to_do k = HandlePodAdditions ps" "distinct (map uid ps)" "uid ` set ps \<subseteq> A" "fresh_for k ps"
      unfolding in_additions_def by (elim exE conjE)
    with fresh show ?thesis unfolding in_additions_def by (intro exI [of _ ps]) simp
  qed
  moreover have "in_creation A ?k" if "in_creation A k"
  proof -
    from that obtain p ps where "to_do k = Hand p SyncPodCreate # HandlePodAdditions ps" "distinct (map uid (p # ps))"
      "uid ` set (p # ps) \<subseteq> A" "fresh_for k ps" "held k (uid p) \<noteq> None" "channels (podWorkers k) (uid p) = None"
      unfolding in_creation_def by (elim exE conjE)
    with fresh none show ?thesis unfolding in_creation_def by (intro exI [of _ p] exI [of _ ps]) simp
  qed
  moreover have "in_deletions D k \<Longrightarrow> in_deletions D ?k" "in_kill D k \<Longrightarrow> in_kill D ?k" "in_event k \<Longrightarrow> in_event ?k"
    unfolding in_deletions_def in_kill_def in_event_def by simp_all
  ultimately have shape: "in_additions A ?k \<or> in_creation A ?k \<or> in_deletions D ?k \<or> in_kill D ?k \<or> in_event ?k"
    using tidyD(8) [OF tidy] by blast
  have agree: "held k u \<noteq> None \<longleftrightarrow> channels pw u \<noteq> None \<and> \<not> killed pw u"
    if "u \<notin> decided (to_do k)" for u
    using tidyD(10) [OF tidy that] tidyD(1) [OF tidy, of u] ch [of u] ki [of u] by auto
  show ?thesis
    unfolding tidy_def
  proof (intro conjI allI impI, goal_cases)
    case (1 u)
    then have "killed (podWorkers k) u" using ki by simp
    with tidyD(1) [OF tidy] show ?case by simp
  next
    case (2 u)
    then have "killed (podWorkers k) u" using ki by simp
    with tidyD(2) [OF tidy] show ?case by simp
  next
    case (3 u)
    then have "killed (podWorkers k) u" using ki by simp
    with tidyD(3) [OF tidy] show ?case by simp
  next
    case (4 u)
    then have "killed (podWorkers k) u" using ki by simp
    with tidyD(4) [OF tidy] show ?case by simp
  next
    case (5 u)
    then show ?case using tidyD(5,6) [OF tidy, of u] none [of u] by (cases "channels (podWorkers k) u") auto
  next
    case 6
    show ?case using kl by simp
  next
    case 7
    show ?case by (rule shape)
  next
    case (8 u p)
    then show ?case using tidyD(9) [OF tidy] by simp
  next
    case (9 u)
    then show ?case using agree by simp
  qed
qed

lemma receive_kills:
  assumes ok: "workers_ok pw" and kl: "kill_last pw" and i: "i < length (workers pw)"
    and rec: "receive views now (workers pw ! i) = Some (w', call)"
  shows "kill_last (set_worker i w' pw)" "killed (set_worker i w' pw) u \<longleftrightarrow> killed pw u"
proof -
  obtain x us where r: "worker_phase (workers pw ! i) = Receiving" "updates (workers pw ! i) = x # us" "updates w' = us"
    "worker_phase w' = (if Opt_Type x = SyncPodKill then Removing (uid (Opt_Pod x)) else Receiving)"
    by (rule receive_cases [OF rec])
  from workers_okD(3) [OF ok i] r(1) obtain v where v: "channels pw v = Some i" by auto
  have x: "uid (Opt_Pod x) = v" using workers_okD(2) [OF ok v] r(2) by (auto simp: belongs_to_def)
  have bl: "SyncPodKill \<notin> types (butlast (x # us))" using kill_lastD(1) [OF kl v] r(2) by simp
  have only: "a = v" if "channels pw a = Some i" for a using workers_okD(4) [OF ok that v] .
  have snd: "Opt_Type x \<noteq> SyncPodKill" if "sending pw = Some (i, y)" for y
    using kill_lastD(3) [OF kl that] r(2) by auto
  show "kill_last (set_worker i w' pw)"
    unfolding kill_last_def
  proof (intro conjI allI impI, goal_cases)
    case (1 a j)
    then have a: "channels pw a = Some j" by simp
    show ?case
    proof (cases "j = i")
      case True
      with a workers_okD(1) [OF ok a] bl r(3) show ?thesis by (cases us) (auto simp: set_worker_nth)
    qed (use a workers_okD(1) [OF ok a] kill_lastD(1) [OF kl a] in \<open>simp add: set_worker_nth\<close>)
  next
    case (2 a j)
    then have a: "channels pw a = Some j" by simp
    show ?case
    proof (cases "j = i")
      case True
      with 2 a workers_okD(1) [OF ok a] r(4) have "Opt_Type x = SyncPodKill" by (auto simp: set_worker_nth split: if_splits)
      with bl r(3) True a workers_okD(1) [OF ok a] show ?thesis by (cases us) (auto simp: set_worker_nth)
    qed (use 2 a workers_okD(1) [OF ok a] kill_lastD(2) [OF kl a] in \<open>simp add: set_worker_nth\<close>)
  next
    case (3 j y)
    then have y: "sending pw = Some (j, y)" by simp
    with workers_okD(1,5) [OF ok] have "j < length (workers pw)" by blast
    with kill_lastD(3,4) [OF kl y] y r snd show ?case by (cases "j = i") (auto simp: set_worker_nth)
  next
    case (4 j y)
    then have y: "sending pw = Some (j, y)" by simp
    with workers_okD(1,5) [OF ok] have "j < length (workers pw)" by blast
    with kill_lastD(3,4) [OF kl y] y r snd show ?case by (cases "j = i") (auto simp: set_worker_nth)
  qed
  show "killed (set_worker i w' pw) u \<longleftrightarrow> killed pw u"
  proof (cases "channels pw u")
    case None
    then show ?thesis by (simp add: killed_def)
  next
    case (Some j)
    then have "channels (set_worker i w' pw) u = Some j" by simp
    from killedI [OF this] killedI [OF Some] show ?thesis
      using workers_okD(1) [OF ok Some] only Some r x by (cases "j = i") (auto simp: set_worker_nth)
  qed
qed

lemma remove_kills:
  assumes ok: "workers_ok pw" and kl: "kill_last pw" and i: "i < length (workers pw)"
    and ph: "worker_phase (workers pw ! i) = Removing v" and free: "sending pw = None"
  defines "pw' \<equiv> (set_worker i ((workers pw ! i)\<lparr>worker_phase := Stopped\<rparr>) pw)\<lparr>channels := (channels pw)(v := None)\<rparr>"
  shows "kill_last pw'" "killed pw' u \<longleftrightarrow> killed pw u \<and> channels pw' u \<noteq> None"
    "channels pw' u = channels pw u \<or> killed pw u \<and> channels pw' u = None"
proof -
  from workers_okD(3) [OF ok i] ph obtain a where a: "channels pw a = Some i" by auto
  with workers_okD(2) [OF ok a] ph have v: "channels pw v = Some i" by (auto simp: belongs_to_def)
  have nth: "workers pw' ! j = workers pw ! j" if "channels pw' b = Some j" for b j
    using that workers_okD(1,4) [OF ok] v by (auto simp: pw'_def set_worker_nth split: if_splits)
  have chan: "channels pw' b = (if b = v then None else channels pw b)" for b by (simp add: pw'_def)
  have snd: "sending pw' = None" using free by (simp add: pw'_def)
  show "kill_last pw'"
    unfolding kill_last_def
  proof (intro conjI allI impI, goal_cases)
    case (1 b j)
    with nth kill_lastD(1) [OF kl] chan show ?case by (auto split: if_splits)
  next
    case (2 b j)
    with nth kill_lastD(2) [OF kl] chan show ?case by (auto split: if_splits)
  qed (use snd in auto)
  have kv: "killed pw v" using v ph by (auto simp: killed_def)
  then show "channels pw' u = channels pw u \<or> killed pw u \<and> channels pw' u = None" using chan by auto
  show "killed pw' u \<longleftrightarrow> killed pw u \<and> channels pw' u \<noteq> None"
  proof (cases "channels pw' u")
    case None
    then show ?thesis by (simp add: killed_def)
  next
    case (Some j)
    with chan have "channels pw u = Some j" by (auto split: if_splits)
    from killedI [OF Some] killedI [OF this] nth [OF Some] snd free Some show ?thesis by auto
  qed
qed

text \<open>Waiting for room and getting it leave the kills alone.\<close>

lemma unblock_kills:
  assumes ok: "workers_ok pw" and kl: "kill_last pw" and snd: "sending pw = Some (i, x)"
  defines "pw' \<equiv> (push i x pw)\<lparr>sending := None\<rparr>"
  shows "kill_last pw'" "killed pw' u \<longleftrightarrow> killed pw u"
proof -
  note ch = workers_okD(5) [OF ok snd]
  note free = kill_lastD(3,4) [OF kl snd]
  have nth: "workers pw' ! j = (if j = i then (workers pw ! j)\<lparr>updates := updates (workers pw ! j) @ [x]\<rparr> else workers pw ! j)"
    if "channels pw b = Some j" for b j
    using workers_okD(1) [OF ok that] by (simp add: pw'_def push_nth)
  have chan: "channels pw' = channels pw" and none: "sending pw' = None" by (simp_all add: pw'_def)
  show "kill_last pw'"
    unfolding kill_last_def chan none
  proof (intro conjI allI impI, goal_cases)
    case (1 b j)
    with nth kill_lastD(1) [OF kl] free show ?case by auto
  next
    case (2 b j)
    with nth [OF 2(1)] kill_lastD(2) [OF kl] free show ?case by (auto split: if_splits)
  qed auto
  show "killed pw' u \<longleftrightarrow> killed pw u"
  proof (cases "channels pw u")
    case None
    with chan show ?thesis by (simp add: killed_def)
  next
    case (Some j)
    then have "channels pw' u = Some j" by (simp add: chan)
    from killedI [OF Some] killedI [OF this] nth [OF Some] snd free show ?thesis by (auto simp: none)
  qed
qed

lemma send_kills:
  assumes ok: "workers_ok pw" and kl: "kill_last pw" and ch: "channels pw (uid (Opt_Pod x)) = Some i"
    and nk: "\<not> killed pw (uid (Opt_Pod x))" and free: "sending pw = None"
  shows "kill_last (send i x pw)" "channels (send i x pw) = channels pw"
    "killed (send i x pw) u \<longleftrightarrow> killed pw u \<or> (u = uid (Opt_Pod x) \<and> Opt_Type x = SyncPodKill)"
proof -
  note r = not_killed_receiving [OF ok ch nk]
  show "kill_last (send i x pw)"
    using kill_last_push [OF ok kl workers_okD(1) [OF ok ch] r(2,1) free, of x] kl r
    by (auto simp: send_def kill_last_def)
  show "channels (send i x pw) = channels pw" by (simp add: send_def)
  have "killed (pw\<lparr>sending := Some (i, x)\<rparr>) u \<longleftrightarrow> killed pw u \<or> (u = uid (Opt_Pod x) \<and> Opt_Type x = SyncPodKill)"
  proof (cases "channels pw u")
    case None
    with ch show ?thesis by (auto simp: killed_def)
  next
    case (Some j)
    then have "channels (pw\<lparr>sending := Some (i, x)\<rparr>) u = Some j" by simp
    from killedI [OF Some] killedI [OF this] show ?thesis
      using workers_okD(4) [OF ok Some, of "uid (Opt_Pod x)"] Some ch free by (cases "j = i") auto
  qed
  with killed_push [OF ok ch] show "killed (send i x pw) u \<longleftrightarrow> killed pw u \<or> (u = uid (Opt_Pod x) \<and> Opt_Type x = SyncPodKill)"
    by (simp add: send_def)
qed

lemma create_kills:
  assumes ok: "workers_ok pw" and kl: "kill_last pw" and ch: "channels pw (uid p) = None" and free: "sending pw = None"
  shows "kill_last (UpdatePod p SyncPodCreate pw)"
    "channels (UpdatePod p SyncPodCreate pw) u = (if u = uid p then Some (length (workers pw)) else channels pw u)"
    "killed (UpdatePod p SyncPodCreate pw) u \<longleftrightarrow> killed pw u"
proof -
  let ?pw = "UpdatePod p SyncPodCreate pw" and ?w = "\<lparr>updates = [\<lparr>Opt_Type = SyncPodCreate, Opt_Pod = p\<rparr>], lastSyncTime = 0, worker_phase = Receiving\<rparr>"
  have pw: "?pw = pw\<lparr>channels := (channels pw)(uid p := Some (length (workers pw))), workers := workers pw @ [?w]\<rparr>"
    using ch by (simp add: UpdatePod_def)
  show chan: "channels ?pw u = (if u = uid p then Some (length (workers pw)) else channels pw u)" for u
    unfolding pw by simp
  have nth: "workers ?pw ! j = (if b = uid p then ?w else workers pw ! j)" if "channels ?pw b = Some j" for b j
    using that workers_okD(1) [OF ok] unfolding chan unfolding pw by (auto simp: nth_append split: if_splits)
  have none: "sending ?pw = None" unfolding pw using free by simp
  show "kill_last ?pw"
    unfolding kill_last_def none
  proof (intro conjI allI impI, goal_cases)
    case (1 b j)
    with nth [OF 1] kill_lastD(1) [OF kl] show ?case unfolding chan by (auto split: if_splits)
  next
    case (2 b j)
    with nth [OF 2(1)] kill_lastD(2) [OF kl] show ?case unfolding chan by (auto split: if_splits)
  qed auto
  show "killed ?pw u \<longleftrightarrow> killed pw u"
  proof (cases "channels ?pw u")
    case None
    then have "channels pw u = None" unfolding chan by (auto split: if_splits)
    with None show ?thesis by (simp add: killed_def)
  next
    case (Some j)
    show ?thesis
    proof (cases "u = uid p")
      case True
      with killedI [OF Some] nth [OF Some] none ch show ?thesis by (simp add: killed_def)
    next
      case False
      with Some have "channels pw u = Some j" unfolding chan by simp
      from killedI [OF Some] killedI [OF this] nth [OF Some] none free False show ?thesis by simp
    qed
  qed
qed

lemma adds_Cons: "HandlePodAdditions ps = op # ops \<Longrightarrow> \<exists>p qs. ps = p # qs \<and> op = Store p \<and> ops = Hand p SyncPodCreate # HandlePodAdditions qs"
  by (cases ps) (auto simp: HandlePodAdditions_def)

lemma dels_Cons: "HandlePodDeletions ps = op # ops \<Longrightarrow> \<exists>p qs. ps = p # qs \<and> op = Forget p \<and> ops = Hand p SyncPodKill # HandlePodDeletions qs"
  by (cases ps) (auto simp: HandlePodDeletions_def)

lemma other_uid: "distinct (map uid (p # ps)) \<Longrightarrow> q \<in> set ps \<Longrightarrow> uid q \<noteq> uid p"
proof -
  assume "distinct (map uid (p # ps))" "q \<in> set ps"
  then have "uid p \<notin> uid ` set ps" "uid q \<in> uid ` set ps" by simp_all
  then show "uid q \<noteq> uid p" by metis
qed

lemma main_addition:
  assumes tidy: "tidy A D k" and td: "to_do k = op # ops" and at: "in_additions A k"
  shows "tidy A D (main_step op (k\<lparr>to_do := ops\<rparr>))"
proof -
  from at td adds_Cons obtain p ps where ps: "op = Store p" "ops = Hand p SyncPodCreate # HandlePodAdditions ps"
    "distinct (map uid (p # ps))" "uid ` set (p # ps) \<subseteq> A" "fresh_for k (p # ps)"
    unfolding in_additions_def by metis
  let ?k = "main_step op (k\<lparr>to_do := ops\<rparr>)"
  have held: "held ?k u = (if u = uid p then Some p else held k u)" for u
    by (simp add: ps main_step_def Manager_UpdatePod_def)
  have rest: "podWorkers ?k = podWorkers k" "to_do ?k = ops" by (simp_all add: ps main_step_def)
  have nk: "u \<noteq> uid p" if "killed (podWorkers k) u" for u
    using tidyD(2) [OF tidy that] td ps by auto
  have "fresh_for ?k ps" using ps(5) other_uid [OF ps(3)] unfolding fresh_for_def rest held by simp
  then have "in_creation A ?k"
    unfolding in_creation_def rest held using ps by (intro exI [of _ p] exI [of _ ps]) (auto simp: fresh_for_def)
  moreover have "held ?k u \<noteq> None \<longleftrightarrow> channels (podWorkers k) u \<noteq> None \<and> \<not> killed (podWorkers k) u" if "u \<notin> decided ops" for u
    using tidyD(10) [OF tidy, of u] that td ps unfolding held by auto
  ultimately show ?thesis
    using tidyD(1-7,9) [OF tidy] td ps(4) nk unfolding tidy_def rest held by (auto simp: ps(1,2))
qed

lemma main_creation:
  assumes ok: "workers_ok (podWorkers k)" and free: "sending (podWorkers k) = None"
    and tidy: "tidy A D k" and td: "to_do k = op # ops" and at: "in_creation A k"
  shows "tidy A D (main_step op (k\<lparr>to_do := ops\<rparr>))"
proof -
  from at td obtain p ps where ps: "op = Hand p SyncPodCreate" "ops = HandlePodAdditions ps" "distinct (map uid (p # ps))"
    "uid ` set (p # ps) \<subseteq> A" "fresh_for k ps" "held k (uid p) \<noteq> None" "channels (podWorkers k) (uid p) = None"
    unfolding in_creation_def by (elim exE conjE) auto
  let ?k = "main_step op (k\<lparr>to_do := ops\<rparr>)"
  note new = create_kills [OF ok tidyD(7) [OF tidy] ps(7) free]
  have rest: "podWorkers ?k = UpdatePod p SyncPodCreate (podWorkers k)" "to_do ?k = ops" "podManager ?k = podManager k"
    by (simp_all add: ps(1) main_step_def)
  have nk: "\<not> killed (podWorkers k) (uid p)" using ps(7) by (simp add: killed_def)
  have "fresh_for ?k ps" using ps(5) other_uid [OF ps(3)] unfolding fresh_for_def rest new(2) by simp
  then have "in_additions A ?k" unfolding in_additions_def rest using ps by (intro exI [of _ ps]) auto
  moreover have "held k u \<noteq> None \<longleftrightarrow> channels (podWorkers ?k) u \<noteq> None \<and> \<not> killed (podWorkers k) u" if "u \<notin> decided ops" for u
    using tidyD(10) [OF tidy, of u] that td ps nk unfolding rest new(2) by (cases "u = uid p") auto
  ultimately show ?thesis
    using tidyD(1-6,9) [OF tidy] td ps(4) new(1) unfolding tidy_def rest new(2,3) by (auto simp: ps(1,2))
qed

lemma main_deletion:
  assumes tidy: "tidy A D k" and td: "to_do k = op # ops" and at: "in_deletions D k"
  shows "tidy A D (main_step op (k\<lparr>to_do := ops\<rparr>))"
proof -
  from at td dels_Cons obtain p ps where ps: "op = Forget p" "ops = Hand p SyncPodKill # HandlePodDeletions ps"
    "distinct (map uid (p # ps))" "uid ` set (p # ps) \<subseteq> D"
    unfolding in_deletions_def by metis
  let ?k = "main_step op (k\<lparr>to_do := ops\<rparr>)"
  have held: "held ?k u = (if u = uid p then None else held k u)" for u
    by (simp add: ps main_step_def Manager_DeletePod_def)
  have rest: "podWorkers ?k = podWorkers k" "to_do ?k = ops" by (simp_all add: ps main_step_def)
  have nk: "u \<noteq> uid p" if "killed (podWorkers k) u" for u
    using tidyD(2) [OF tidy that] td ps by auto
  have "in_kill D ?k"
    unfolding in_kill_def rest held using ps by (intro exI [of _ p] exI [of _ ps]) auto
  moreover have "held ?k u \<noteq> None \<longleftrightarrow> channels (podWorkers k) u \<noteq> None \<and> \<not> killed (podWorkers k) u" if "u \<notin> decided ops" for u
    using tidyD(10) [OF tidy, of u] that td ps unfolding held by auto
  ultimately show ?thesis
    using tidyD(1-7,9) [OF tidy] td ps(4) nk unfolding tidy_def rest held by (auto simp: ps(1,2))
qed

lemma main_kill:
  assumes ok: "workers_ok (podWorkers k)" and free: "sending (podWorkers k) = None"
    and tidy: "tidy A D k" and td: "to_do k = op # ops" and at: "in_kill D k"
  shows "tidy A D (main_step op (k\<lparr>to_do := ops\<rparr>))"
proof -
  from at td obtain p ps where ps: "op = Hand p SyncPodKill" "ops = HandlePodDeletions ps" "distinct (map uid (p # ps))"
    "uid ` set (p # ps) \<subseteq> D" "held k (uid p) = None"
    unfolding in_kill_def by (elim exE conjE) auto
  let ?k = "main_step op (k\<lparr>to_do := ops\<rparr>)" and ?x = "\<lparr>Opt_Type = SyncPodKill, Opt_Pod = p\<rparr>"
  have rest: "podWorkers ?k = UpdatePod p SyncPodKill (podWorkers k)" "to_do ?k = ops" "podManager ?k = podManager k"
    by (simp_all add: ps(1) main_step_def)
  have nk: "\<not> killed (podWorkers k) (uid p)" using tidyD(2) [OF tidy] td ps(1) by auto
  have shape: "in_deletions D ?k" unfolding in_deletions_def rest using ps by (intro exI [of _ ps]) auto
  have pn: "uid p \<notin> uid ` set ps" using ps(3) by simp
  show ?thesis
  proof (cases "channels (podWorkers k) (uid p)")
    case None
    then have pw: "UpdatePod p SyncPodKill (podWorkers k) = podWorkers k" by (simp add: UpdatePod_def)
    have "held k u \<noteq> None \<longleftrightarrow> channels (podWorkers k) u \<noteq> None \<and> \<not> killed (podWorkers k) u" if "u \<notin> decided ops" for u
      using tidyD(10) [OF tidy, of u] that td ps None by (cases "u = uid p") auto
    with shape show ?thesis
      using tidyD(1-7,9) [OF tidy] td unfolding tidy_def rest pw by (auto simp: ps(1,2))
  next
    case (Some i)
    then have pw: "UpdatePod p SyncPodKill (podWorkers k) = send i ?x (podWorkers k)" by (simp add: UpdatePod_def)
    have "channels (podWorkers k) (uid (Opt_Pod ?x)) = Some i" "\<not> killed (podWorkers k) (uid (Opt_Pod ?x))"
      using Some nk by simp_all
    note new = send_kills [OF ok tidyD(7) [OF tidy] this free]
    have kill: "killed (send i ?x (podWorkers k)) u \<longleftrightarrow> killed (podWorkers k) u \<or> u = uid p" for u
      unfolding new(3) by simp
    have "uid p \<in> A" using tidyD(5) [OF tidy, of "uid p"] Some by simp
    moreover have "held k u \<noteq> None \<longleftrightarrow> channels (podWorkers k) u \<noteq> None \<and> \<not> (killed (podWorkers k) u \<or> u = uid p)" if "u \<notin> decided ops" for u
      using tidyD(10) [OF tidy, of u] that td ps by (cases "u = uid p") auto
    ultimately show ?thesis
      using tidyD(1-6,9) [OF tidy] td shape new(1) ps(4,5) pn unfolding tidy_def rest pw new(2) kill
      by (auto simp: ps(1,2))
  qed
qed

lemma main_event:
  assumes ok: "workers_ok (podWorkers k)" and free: "sending (podWorkers k) = None"
    and tidy: "tidy A D k" and td: "to_do k = op # ops" and at: "in_event k"
  shows "tidy A D (main_step op (k\<lparr>to_do := ops\<rparr>))"
proof -
  from at td obtain p t where p: "op = Hand p t" "ops = []" "t \<in> {SyncPodSync, SyncPodRecreate}" "held k (uid p) \<noteq> None"
    unfolding in_event_def by auto
  let ?k = "main_step op (k\<lparr>to_do := ops\<rparr>)" and ?x = "\<lparr>Opt_Type = t, Opt_Pod = p\<rparr>"
  have dec: "decided (to_do k) = {}" using td p by auto
  from tidyD(10) [OF tidy, of "uid p"] p(4) obtain i where i: "channels (podWorkers k) (uid p) = Some i"
    and nk: "\<not> killed (podWorkers k) (uid p)" by (auto simp: dec)
  have pw: "UpdatePod p t (podWorkers k) = send i ?x (podWorkers k)" using i p(3) by (auto simp: UpdatePod_def)
  have "channels (podWorkers k) (uid (Opt_Pod ?x)) = Some i" "\<not> killed (podWorkers k) (uid (Opt_Pod ?x))"
    using i nk by simp_all
  note new = send_kills [OF ok tidyD(7) [OF tidy] this free]
  have kill: "killed (send i ?x (podWorkers k)) u \<longleftrightarrow> killed (podWorkers k) u" for u
    unfolding new(3) using p(3) by auto
  have rest: "podWorkers ?k = send i ?x (podWorkers k)" "to_do ?k = []" "podManager ?k = podManager k"
    using pw by (simp_all add: p(1,2) main_step_def)
  have "in_additions A ?k" unfolding in_additions_def rest by (intro exI [of _ "[]"]) (simp add: HandlePodAdditions_def fresh_for_def)
  then show ?thesis
    using tidyD(1-6,9,10) [OF tidy] new(1) unfolding tidy_def rest new(2) kill dec by auto
qed

lemma tidy_main:
  assumes "workers_ok (podWorkers k)" "sending (podWorkers k) = None" "tidy A D k" "to_do k = op # ops"
  shows "tidy A D (main_step op (k\<lparr>to_do := ops\<rparr>))"
  using tidyD(8) [OF assms(3)]
  by (elim disjE) (rule main_addition [OF assms(3,4)] main_creation [OF assms] main_deletion [OF assms(3,4)]
    main_kill [OF assms] main_event [OF assms], assumption)+

lemma idle_agree:
  assumes "tidy A D k" "idle k"
  shows "held k u \<noteq> None \<longleftrightarrow> channels (podWorkers k) u \<noteq> None \<and> \<not> killed (podWorkers k) u"
  using tidyD(10) [OF assms(1), of u] assms(2) by (simp add: idle_def)

lemma tidy_config:
  assumes tidy: "tidy A D k" and idle: "idle k" and st: "syncLoopIteration (Config up ordered) k = Some k'"
    and new: "Op up = ADD \<Longrightarrow> distinct (map uid (Update_Pods up)) \<and> uid ` set (Update_Pods up) \<inter> A = {}"
      "Op up = DELETE \<Longrightarrow> distinct (map uid (Update_Pods up)) \<and> uid ` set (Update_Pods up) \<inter> D = {}"
  defines "U \<equiv> uid ` set (Update_Pods up)"
  shows "tidy (A \<union> (if Op up = ADD then U else {})) (D \<union> (if Op up = DELETE then U else {})) k'"
proof (cases "Op up = ADD")
  case True
  then have nd: "Op up \<noteq> DELETE" by simp
  from st idle True have o: "SortPodsByCreationTime (Update_Pods up) ordered" "k' = k\<lparr>to_do := HandlePodAdditions ordered\<rparr>"
    by (auto simp: syncLoopIteration_def split: if_splits)
  then have m: "mset ordered = mset (Update_Pods up)" by (simp add: SortPodsByCreationTime_def)
  have set: "set ordered = set (Update_Pods up)" using mset_eq_setD [OF m] .
  have "mset (map uid ordered) = mset (map uid (Update_Pods up))" using m by simp
  with new(1) True have dist: "distinct (map uid ordered)" using mset_eq_imp_distinct_iff by blast
  have apart: "uid p \<notin> A" if "p \<in> set ordered" for p using that new(1) [OF True] set by blast
  have "fresh_for k ordered"
    unfolding fresh_for_def using apart tidyD(5,6) [OF tidy] by blast
  then have "fresh_for k' ordered" by (simp add: o(2) fresh_for_def)
  then have "in_additions (A \<union> U) k'"
    unfolding in_additions_def using dist set by (intro exI [of _ ordered]) (auto simp: o(2) U_def)
  moreover have "u \<notin> uid ` set ordered" if "killed (podWorkers k) u" for u
    using tidyD(3) [OF tidy that] apart by blast
  ultimately have "tidy (A \<union> U) D k'"
    using tidyD(1,3-7,9) [OF tidy] idle_agree [OF tidy idle] unfolding tidy_def by (auto simp: o(2))
  with True nd show ?thesis by simp
next
  case na: False
  show ?thesis
  proof (cases "Op up = DELETE")
    case True
    from st idle True na have o: "k' = k\<lparr>to_do := HandlePodDeletions (Update_Pods up)\<rparr>"
      by (auto simp: syncLoopIteration_def split: if_splits)
    have "in_deletions (D \<union> U) k'"
      unfolding in_deletions_def using new(2) [OF True] by (intro exI [of _ "Update_Pods up"]) (auto simp: o U_def)
    moreover have "u \<notin> U" if "killed (podWorkers k) u" for u
      using tidyD(4) [OF tidy that] new(2) [OF True] unfolding U_def by blast
    ultimately have "tidy A (D \<union> U) k'"
      using tidyD(1,3-7,9) [OF tidy] idle_agree [OF tidy idle] unfolding tidy_def by (auto simp: o U_def)
    with True na show ?thesis by simp
  next
    case False
    with st idle na have "k' = k" by (auto simp: syncLoopIteration_def split: if_splits)
    with tidy na False show ?thesis by simp
  qed
qed

lemma tidy_event:
  assumes tidy: "tidy A D k" and idle: "idle k" and st: "syncLoopIteration (Event e) k = Some k'"
  shows "tidy A D k'"
proof (cases "held k (PodId e)")
  case None
  with st idle tidy show ?thesis by (auto simp: syncLoopIteration_def GetPodByUid_def)
next
  case (Some pod)
  have pu: "uid pod = PodId e" by (rule tidyD(9) [OF tidy Some])
  have "HandlePodLifecycleEvent pod e = [Hand pod SyncPodRecreate] \<or> HandlePodLifecycleEvent pod e = [Hand pod SyncPodSync]"
    unfolding HandlePodLifecycleEvent_def by simp
  then obtain t where t: "t \<in> {SyncPodSync, SyncPodRecreate}" "HandlePodLifecycleEvent pod e = [Hand pod t]"
    by blast
  with st idle Some have k': "k' = k\<lparr>to_do := [Hand pod t]\<rparr>"
    by (auto simp: syncLoopIteration_def GetPodByUid_def)
  have "in_event k'" unfolding in_event_def using t Some pu by (intro exI [of _ pod] exI [of _ t]) (simp add: k')
  moreover have "u \<noteq> uid pod" if "killed (podWorkers k) u" for u
    using tidyD(1) [OF tidy that] Some pu by auto
  moreover have "decided [Hand pod t] = {}" using t(1) by auto
  ultimately show ?thesis
    using tidyD(1,3-7,9) [OF tidy] idle_agree [OF tidy idle] unfolding tidy_def by (auto simp: k')
qed

lemma tidy_internal:
  assumes ok: "workers_ok (podWorkers k)" and tidy: "tidy A D k" and st: "kstep l k = Some (k', call)" and int: "internal l"
  shows "tidy A D k'"
proof (cases l)
  case Main
  with st obtain op ops where "to_do k = op # ops" "sending (podWorkers k) = None" "k' = main_step op (k\<lparr>to_do := ops\<rparr>)"
    by (auto simp: kstep_def Let_def split: list.splits if_splits)
  with tidy_main [OF ok _ tidy] show ?thesis by simp
next
  case Unblock
  with st obtain i x where m: "sending (podWorkers k) = Some (i, x)"
    "k' = k\<lparr>podWorkers := (push i x (podWorkers k))\<lparr>sending := None\<rparr>\<rparr>"
    by (auto simp: kstep_def Let_def split: option.splits if_splits)
  note u = unblock_kills [OF ok tidyD(7) [OF tidy] m(1)]
  show ?thesis unfolding m(2) by (rule tidy_workers [OF tidy u(1)]) (use u(2) in \<open>auto simp: killed_def\<close>)
next
  case (Receive i views now)
  with st obtain w where m: "i < length (workers (podWorkers k))" "receive views now (workers (podWorkers k) ! i) = Some (w, call)"
    "k' = k\<lparr>podWorkers := set_worker i w (podWorkers k)\<rparr>"
    by (auto simp: kstep_def Let_def split: option.splits if_splits)
  note r = receive_kills [OF ok tidyD(7) [OF tidy] m(1,2)]
  show ?thesis unfolding m(3) by (rule tidy_workers [OF tidy r(1)]) (use r(2) in \<open>auto simp: killed_def\<close>)
next
  case (Remove i)
  with st obtain u where m: "i < length (workers (podWorkers k))" "sending (podWorkers k) = None"
    "worker_phase (workers (podWorkers k) ! i) = Removing u"
    "k' = k\<lparr>podWorkers := (set_worker i ((workers (podWorkers k) ! i)\<lparr>worker_phase := Stopped\<rparr>) (podWorkers k))
              \<lparr>channels := (channels (podWorkers k))(u := None)\<rparr>\<rparr>"
    by (auto simp: kstep_def Let_def split: phase.splits if_splits)
  note r = remove_kills [OF ok tidyD(7) [OF tidy] m(1,3,2)]
  show ?thesis unfolding m(4) by (rule tidy_workers [OF tidy r(1) r(3) r(2)])
qed (use int in auto)

lemma kruns_tidy:
  assumes "kruns ls cs k" "once ls"
  shows "tidy (set (added ls)) (set (deleted ls)) k"
  using assms
proof induction
  case start
  show ?case
    by (auto simp: tidy_def NewKubelet_def NewPodWorkers_def NewPodManager_def killed_def kill_last_def in_deletions_def
        HandlePodDeletions_def)
next
  case (step ls cs k l k' call)
  then have o: "once ls" by (auto simp: once_def)
  note tidy = step.IH [OF o]
  note ok = kruns_ok(1) [OF step.hyps(1)]
  show ?case
  proof (cases "internal l")
    case True
    then have "added [l] = []" "deleted [l] = []" using internal_added [of "[l]"] by simp_all
    with tidy_internal [OF ok tidy step.hyps(2) True] show ?thesis by simp
  next
    case False
    with step.hyps(2) have it: "syncLoopIteration l k = Some k'" by (cases l) (auto simp: kstep_def Let_def)
    show ?thesis
    proof (cases l)
      case (Config up ordered)
      with it have idle: "idle k" by (auto simp: syncLoopIteration_def split: if_splits)
      have "distinct (map uid (Update_Pods up)) \<and> uid ` set (Update_Pods up) \<inter> set (added ls) = {}" if "Op up = ADD"
        using step.prems that Config by (auto simp: once_def)
      moreover have "distinct (map uid (Update_Pods up)) \<and> uid ` set (Update_Pods up) \<inter> set (deleted ls) = {}" if "Op up = DELETE"
        using step.prems that Config by (auto simp: once_def)
      ultimately show ?thesis using tidy_config [OF tidy idle it [unfolded Config]] Config by (cases "Op up = ADD"; cases "Op up = DELETE") (simp_all add: Un_commute)
    next
      case (Event e)
      with it have idle: "idle k" by (auto simp: syncLoopIteration_def split: if_splits)
      from tidy_event [OF tidy idle it [unfolded Event]] Event show ?thesis by simp
    qed (use False in auto)
  qed
qed

section \<open>Coming to rest\<close>

lemma receive_enabled:
  assumes "worker_phase w = Receiving" "updates w \<noteq> []"
  shows "receive views now w \<noteq> None"
  using assms by (cases "updates w") (simp_all add: receive_def Let_def)

lemma stuck_workers:
  assumes "stuck k" "i < length (workers (podWorkers k))"
  shows "worker_phase (workers (podWorkers k) ! i) = Receiving \<Longrightarrow> updates (workers (podWorkers k) ! i) = []"
    "sending (podWorkers k) = None \<Longrightarrow> worker_phase (workers (podWorkers k) ! i) \<noteq> Removing u"
proof -
  have "kstep (Receive i (\<lambda>_. NewCache) 0) k = None" using assms(1) by (simp add: stuck_def)
  with assms(2) have "receive (\<lambda>_. NewCache) 0 (workers (podWorkers k) ! i) = None"
    by (auto simp: kstep_def Let_def split: option.splits)
  then show "worker_phase (workers (podWorkers k) ! i) = Receiving \<Longrightarrow> updates (workers (podWorkers k) ! i) = []"
    using receive_enabled by blast
  have "kstep (Remove i) k = None" using assms(1) by (simp add: stuck_def)
  with assms(2) show "sending (podWorkers k) = None \<Longrightarrow> worker_phase (workers (podWorkers k) ! i) \<noteq> Removing u"
    by (auto simp: kstep_def Let_def)
qed

lemma stuck_idle:
  assumes ok: "workers_ok (podWorkers k)" and kl: "kill_last (podWorkers k)" and st: "stuck k"
  shows "idle k"
proof -
  have "sending (podWorkers k) = None"
  proof (rule ccontr)
    assume "sending (podWorkers k) \<noteq> None"
    then obtain i x where s: "sending (podWorkers k) = Some (i, x)" by auto
    then have i: "i < length (workers (podWorkers k))" using workers_okD(1,5) [OF ok] by blast
    from stuck_workers(1) [OF st i] kill_lastD(4) [OF kl s] have "updates (workers (podWorkers k) ! i) = []" by simp
    then have "kstep Unblock k \<noteq> None" using s by (simp add: kstep_def Let_def channel_size_def)
    with st show False by (simp add: stuck_def)
  qed
  moreover have "kstep Main k = None" using st by (simp add: stuck_def)
  ultimately show ?thesis by (auto simp: idle_def kstep_def Let_def split: list.splits)
qed

text \<open>The pods that the manager holds once the handler under way is done are the wanted ones.\<close>

fun after :: "todo \<Rightarrow> UID set \<Rightarrow> UID set" where
  "after (Store p) U = insert (uid p) U"
| "after (Forget p) U = U - {uid p}"
| "after (Hand p t) U = U"

lemma fold_after_adds: "fold after (HandlePodAdditions ps) U = U \<union> uid ` set ps"
  by (induction ps arbitrary: U) (auto simp: HandlePodAdditions_def)

lemma fold_after_dels: "fold after (HandlePodDeletions ps) U = U - uid ` set ps"
  by (induction ps arbitrary: U) (auto simp: HandlePodDeletions_def)

definition holds :: "Kubelet \<Rightarrow> UID set" where
  "holds k = dom (map_of (podUidMap (podManager k)))"

lemma holds_main: "fold after ops (holds (main_step op (k\<lparr>to_do := x\<rparr>))) = fold after (op # ops) (holds k)"
  by (cases op) (auto simp: main_step_def holds_def Manager_UpdatePod_def Manager_DeletePod_def)

lemma kruns_wanted:
  assumes "kruns ls cs k"
  shows "fold after (to_do k) (holds k) = wanted ls"
  using assms
proof induction
  case start
  show ?case by (simp add: NewKubelet_def NewPodManager_def wanted_def holds_def)
next
  case (step ls cs k l k' call)
  show ?case
  proof (cases l)
    case (Config up ordered)
    with step.hyps(2) have it: "syncLoopIteration (Config up ordered) k = Some k'" by (auto simp: kstep_def Let_def)
    then have "idle k" by (auto simp: syncLoopIteration_def split: if_splits)
    with step.IH have h: "holds k = wanted ls" by (simp add: idle_def)
    have m: "set ordered = set pods" if "SortPodsByCreationTime pods ordered" for pods
      using that by (auto simp: SortPodsByCreationTime_def dest: mset_eq_setD)
    from it have "fold after (to_do k') (holds k') = apply_update up (holds k)"
      using \<open>idle k\<close> by (auto simp: syncLoopIteration_def apply_update_def idle_def fold_after_adds fold_after_dels holds_def m split: if_splits)
    with h Config show ?thesis by (simp add: wanted_def)
  next
    case (Event e)
    with step.hyps(2) have it: "syncLoopIteration (Event e) k = Some k'" by (auto simp: kstep_def Let_def)
    then have "idle k" by (auto simp: syncLoopIteration_def split: if_splits)
    with it have "fold after (to_do k') (holds k') = holds k"
      by (auto simp: syncLoopIteration_def idle_def HandlePodLifecycleEvent_def holds_def split: if_splits option.splits)
    with step.IH \<open>idle k\<close> Event show ?thesis by (simp add: wanted_def idle_def)
  next
    case Main
    with step.hyps(2) obtain op ops where m: "to_do k = op # ops" "k' = main_step op (k\<lparr>to_do := ops\<rparr>)"
      by (auto simp: kstep_def Let_def split: list.splits if_splits)
    moreover have "to_do k' = ops" using m(2) by (cases op) (simp_all add: main_step_def)
    ultimately show ?thesis using step.IH holds_main [of ops op ops k] Main by (simp add: wanted_def)
  next
    case Unblock
    with step.hyps(2) have "to_do k' = to_do k" "podManager k' = podManager k"
      by (auto simp: kstep_def Let_def split: option.splits if_splits)
    with step.IH Unblock show ?thesis by (simp add: wanted_def holds_def)
  next
    case (Receive i v t)
    with step.hyps(2) have "to_do k' = to_do k" "podManager k' = podManager k"
      by (auto simp: kstep_def Let_def split: option.splits if_splits)
    with step.IH Receive show ?thesis by (simp add: wanted_def holds_def)
  next
    case (Remove i)
    with step.hyps(2) have "to_do k' = to_do k" "podManager k' = podManager k"
      by (auto simp: kstep_def Let_def split: phase.splits if_splits)
    with step.IH Remove show ?thesis by (simp add: wanted_def holds_def)
  qed
qed

lemma at_rest:
  assumes run: "kruns ls cs k" and o: "once ls" and st: "stuck k"
  shows "idle k" "\<forall>w\<in>set (workers (podWorkers k)). worker_phase w \<noteq> Stopped \<longrightarrow> updates w = []"
    "protocol False (calls_of u cs) = Some (u \<in> wanted ls)"
proof -
  note ok = kruns_ok [OF run]
  note tidy = kruns_tidy [OF run o]
  show idle: "idle k" by (rule stuck_idle [OF ok(1) tidyD(7) [OF tidy] st])
  then have free: "sending (podWorkers k) = None" by (simp add: idle_def)
  have quiet: "worker_phase (workers (podWorkers k) ! i) = Stopped \<or>
      worker_phase (workers (podWorkers k) ! i) = Receiving \<and> updates (workers (podWorkers k) ! i) = []"
    if "i < length (workers (podWorkers k))" for i
    using stuck_workers(1) [OF st that] stuck_workers(2) [OF st that free]
    by (cases "worker_phase (workers (podWorkers k) ! i)") auto
  then show "\<forall>w\<in>set (workers (podWorkers k)). worker_phase w \<noteq> Stopped \<longrightarrow> updates w = []"
    by (metis in_set_conv_nth)
  from ok(2) obtain up where up: "protocol False (calls_of u cs) = Some up"
    "case channels (podWorkers k) u of None \<Rightarrow> \<not> up | Some i \<Rightarrow> queue_fits up (workers (podWorkers k) ! i)"
    unfolding calls_ok_def by blast
  have "up \<longleftrightarrow> held k u \<noteq> None"
  proof (cases "channels (podWorkers k) u")
    case None
    with up(2) idle_agree [OF tidy idle, of u] show ?thesis by simp
  next
    case (Some i)
    note i = workers_okD(1) [OF ok(1) Some]
    from workers_okD(2) [OF ok(1) Some] quiet [OF i] have q: "worker_phase (workers (podWorkers k) ! i) = Receiving"
      "updates (workers (podWorkers k) ! i) = []" by (auto simp: belongs_to_def)
    then have "up" using up(2) Some by (auto simp: queue_fits_def split: if_splits)
    moreover have "\<not> killed (podWorkers k) u" using q killedI [OF Some] free by simp
    ultimately show ?thesis using idle_agree [OF tidy idle, of u] Some by simp
  qed
  also have "\<dots> \<longleftrightarrow> u \<in> wanted ls"
    using kruns_wanted [OF run] idle by (auto simp: idle_def holds_def domIff)
  finally show "protocol False (calls_of u cs) = Some (u \<in> wanted ls)" using up(1) by simp
qed

text \<open>
  C30: when pods are added once and deleted once at most, a kubelet comes to rest however its goroutines interleave: from any state of
  any run it makes at most \<open>work\<close> more steps of its own, and when it can make no more, the main loop is idle, all channels of live
  workers are empty, and the calls of each pod end in a state in which the pod is up exactly if the updates ask for it.
\<close>

theorem kubelet_settles:
  assumes "kruns ls cs k" "once ls" "krun ls' k = Some (cs', k')" "list_all internal ls'"
  shows "length ls' \<le> work k \<and>
    (stuck k' \<longrightarrow> idle k' \<and>
       (\<forall>w\<in>set (workers (podWorkers k')). worker_phase w \<noteq> Stopped \<longrightarrow> updates w = []) \<and>
       (\<forall>u. protocol False (calls_of u (cs @ cs')) = Some (u \<in> wanted ls)))"
proof -
  have "once (ls @ ls')" "wanted (ls @ ls') = wanted ls"
    using assms(2) internal_added [OF assms(4)] internal_received [OF assms(4)] by (simp_all add: once_def wanted_def)
  with at_rest [OF kruns_append [OF assms(1,3)]] internal_runs_end [OF kruns_ok [OF assms(1)] assms(3,4)]
  show ?thesis by auto
qed

text \<open>The demo run, and its last step: the worker removes its channel.\<close>

definition demo_rest :: "SyncCall list \<times> Kubelet" where
  "demo_rest = the (krun [Remove 0] (snd demo_kubelet_end))"

lemma stuck_iff:
  assumes "idle k" "workers (podWorkers k) = [w]" "worker_phase w = Stopped"
  shows "stuck k"
  unfolding stuck_def
proof (intro allI impI)
  fix l assume "internal l"
  then show "kstep l k = None"
    using assms by (cases l) (auto simp: kstep_def Let_def idle_def receive_def)
qed

lemma demo_rest_run: "krun [Remove 0] (snd demo_kubelet_end) = Some (fst demo_rest, snd demo_rest)"
proof -
  have "krun [Remove 0] (snd demo_kubelet_end) \<noteq> None" by code_simp
  then show ?thesis by (simp add: demo_rest_def)
qed

lemma demo_stuck: "stuck (snd demo_rest)"
proof -
  have "idle (snd demo_rest)" "length (workers (podWorkers (snd demo_rest))) = 1"
    "worker_phase (hd (workers (podWorkers (snd demo_rest)))) = Stopped"
    by code_simp+
  then show ?thesis by (cases "workers (podWorkers (snd demo_rest))") (auto intro: stuck_iff)
qed

theorem kubelet_settles_witness:
  "1 \<le> work (snd demo_kubelet_end) \<and> idle (snd demo_rest) \<and>
   protocol False (calls_of ''u1'' (fst demo_kubelet_end @ fst demo_rest)) = Some False"
proof -
  have "once demo_kubelet_labels" by code_simp
  moreover have "list_all internal [Remove 0]" by simp
  ultimately have *: "length [Remove 0] \<le> work (snd demo_kubelet_end) \<and> (stuck (snd demo_rest) \<longrightarrow> idle (snd demo_rest) \<and>
      (\<forall>w\<in>set (workers (podWorkers (snd demo_rest))). worker_phase w \<noteq> Stopped \<longrightarrow> updates w = []) \<and>
      (\<forall>u. protocol False (calls_of u (fst demo_kubelet_end @ fst demo_rest)) = Some (u \<in> wanted demo_kubelet_labels)))"
    by (intro kubelet_settles [OF demo_kubelet_run _ demo_rest_run])
  have "''u1'' \<notin> wanted demo_kubelet_labels" by code_simp
  with * demo_stuck show ?thesis by simp
qed

end
