(* ===== verification/Kubelet_Server.thy ===== *)
theory Kubelet_Server
  imports Kubelet_Settles
begin

text \<open>
  The rest of the kubelet: its client of the API server (\<open>pkg/kubelet/client/client.go\<close>), what a call of \<open>SyncPod\<close> does and the status
  it reports (\<open>pkg/kubelet/kubelet.go\<close>), and the watcher that tells the main loop which pods the node has
  (\<open>pkg/kubelet/app/server.go\<close>). Flags, signals, the address of the host and the mock pods are left out.
\<close>

section \<open>Client\<close>

definition GetPodsByNodeName :: "'w net \<Rightarrow> string \<Rightarrow> 'w \<Rightarrow> (Pod list \<times> error) \<times> 'w" where
  "GetPodsByNodeName N nodeName = call_data N (\<lambda>_ _. GET_NodePods nodeName) StatusOK []
     (\<lambda>b. case b of DataPods xs \<Rightarrow> Some (map wire_Pod xs) | _ \<Rightarrow> None) ''get pods failed, error: ''"

definition UpdatePodStatus :: "'w net \<Rightarrow> Pod \<Rightarrow> PodStatus \<Rightarrow> 'w \<Rightarrow> error \<times> 'w" where
  "UpdatePodStatus N pod st = call_status N (\<lambda>_ _. PUT_PodStatus (Namespace (Pod_Meta pod)) (Name (Pod_Meta pod)) (Some st))
     StatusOK ''update pod status failed, statusCode: ''"

definition RegisterNode :: "'w net \<Rightarrow> string \<Rightarrow> Node \<Rightarrow> 'w \<Rightarrow> (Node option \<times> error) \<times> 'w" where
  "RegisterNode N address node = call_data N (POST_RegisterNode (Some (wire_Node node)) address) StatusCreated None
     (\<lambda>b. case b of DataNode x \<Rightarrow> Some (Some (wire_Node x)) | _ \<Rightarrow> None) ''register node failed, error: ''"

definition UnregisterNode :: "'w net \<Rightarrow> string \<Rightarrow> 'w \<Rightarrow> error \<times> 'w" where
  "UnregisterNode N nodeName = call_add N (\<lambda>_ _. POST_UnregisterNode nodeName) StatusOK (\<lambda>_. Some ()) ''unregister node failed, error: ''"

section \<open>Synchronising a pod\<close>

text \<open>Counts of running, exited, succeeded and failed containers.\<close>

fun count_states :: "ContainerStatus list \<Rightarrow> nat \<times> nat \<times> nat \<times> nat \<Rightarrow> nat \<times> nat \<times> nat \<times> nat" where
  "count_states [] n = n"
| "count_states (c # cs) (running, exited, succeeded, failed) = count_states cs
     (if CS_State c = ContainerStateRunning then (running + 1, exited, succeeded, failed)
      else if CS_State c = ContainerStateExited then
        (if CS_ExitCode c = 0 then (running, exited + 1, succeeded + 1, failed)
         else (running, exited + 1, succeeded, failed + 1))
      else (running, exited, succeeded, failed))"

definition computeApiStatus :: "Pod \<Rightarrow> RuntimeStatus \<Rightarrow> PodStatus option" where
  "computeApiStatus pod podStatus =
     (if length (ContainerStatuses podStatus) \<noteq> length (Containers (Pod_Spec pod)) then None
      else let podIP = (if IPs podStatus \<noteq> [] then IPs podStatus ! 0 else '''') in
        case count_states (ContainerStatuses podStatus) (0, 0, 0, 0) of (running, exited, succeeded, failed) \<Rightarrow>
          if running \<noteq> 0 then Some \<lparr>Phase = PodRunning, PodIP = podIP\<rparr>
          else if exited = length (ContainerStatuses podStatus) then
            (if failed > 0 then Some \<lparr>Phase = PodFailed, PodIP = podIP\<rparr> else Some \<lparr>Phase = PodSucceeded, PodIP = podIP\<rparr>)
          else None)"

text \<open>The effect of a call on the node and the server; errors are only logged.\<close>

definition SyncPod :: "'w engine \<Rightarrow> 'w net \<Rightarrow> string \<Rightarrow> Pod \<Rightarrow> SyncPodType \<Rightarrow> RuntimeStatus option \<Rightarrow> 'w \<times> ip_map \<Rightarrow> 'w \<times> ip_map" where
  "SyncPod E N nameserverIP pod syncPodType podStatus s =
     (if syncPodType = SyncPodCreate then snd (RT_AddPod E nameserverIP pod s)
      else if syncPodType = SyncPodSync then
        (case podStatus of None \<Rightarrow> s | Some st \<Rightarrow> (case computeApiStatus pod st of
           None \<Rightarrow> s | Some apiStatus \<Rightarrow> (snd (UpdatePodStatus N pod apiStatus (fst s)), snd s)))
      else if syncPodType = SyncPodKill then snd (RT_DeletePod E (uid pod) s)
      else if syncPodType = SyncPodRecreate then snd (RT_RestartPod E pod s)
      else s)"

text \<open>The runtime as the event generator and the tick of the main loop use it.\<close>

definition docker_runtime :: "'w engine \<Rightarrow> ('w \<times> ip_map) runtime" where
  "docker_runtime E = \<lparr>GetAllPods = RT_GetAllPods E, GetPodStatus = RT_GetPodStatus E,
     Clock = (\<lambda>s. case Now E (fst s) of (t, w) \<Rightarrow> (t, (w, snd s)))\<rparr>"

text \<open>The tick: the statuses handed to the metrics collector (\<open>None\<close>: nothing is handed over; a panic of the runtime ends the process).\<close>

fun pod_statuses :: "'s runtime \<Rightarrow> RuntimePod list \<Rightarrow> 's \<Rightarrow> RuntimeStatus list outcome \<times> 's" where
  "pod_statuses rt [] s = (Returns [], s)"
| "pod_statuses rt (pod # pods) s = (case GetPodStatus rt (RP_ID pod) (RP_Name pod) (RP_Namespace pod) s of
     (Inl Panicked, s1) \<Rightarrow> (Crashes, s1)
   | (Inl (Failed e), s1) \<Rightarrow> pod_statuses rt pods s1
   | (Inr st, s1) \<Rightarrow> (case pod_statuses rt pods s1 of
       (Crashes, s2) \<Rightarrow> (Crashes, s2) | (Returns sts, s2) \<Rightarrow> (Returns (st # sts), s2)))"

definition metrics_tick :: "'s runtime \<Rightarrow> 's \<Rightarrow> RuntimeStatus list option outcome \<times> 's" where
  "metrics_tick rt s = (case GetAllPods rt s of
     (Inl Panicked, s1) \<Rightarrow> (Crashes, s1)
   | (Inl (Failed e), s1) \<Rightarrow> (Returns None, s1)
   | (Inr allPods, s1) \<Rightarrow> (case pod_statuses rt allPods s1 of
       (Crashes, s2) \<Rightarrow> (Crashes, s2) | (Returns sts, s2) \<Rightarrow> (Returns (Some sts), s2)))"

definition DoCleanUp :: "'w net \<Rightarrow> string \<Rightarrow> 'w \<Rightarrow> 'w" where
  "DoCleanUp N nodeName w = snd (UnregisterNode N nodeName w)"

section \<open>Watching the API server\<close>

record KubeletServer =
  nodeName :: string
  latestLocalPods :: "Pod list"

definition NewKubeletServer :: "string \<Rightarrow> KubeletServer" where
  "NewKubeletServer name = \<lparr>nodeName = name, latestLocalPods = []\<rparr>"

text \<open>The tables of the code are only asked for their keys.\<close>

definition pod_table :: "Pod list \<Rightarrow> UID \<Rightarrow> Pod option" where
  "pod_table pods u = map_of (rev (map (\<lambda>pod. (uid pod, pod)) pods)) u"

definition updateLocalPods :: "'w net \<Rightarrow> KubeletServer \<Rightarrow> 'w \<Rightarrow> (PodUpdate list \<times> KubeletServer) \<times> 'w" where
  "updateLocalPods N kls w = (case GetPodsByNodeName N (nodeName kls) w of ((newLocalPods, err), w1) \<Rightarrow>
     if err \<noteq> None then (([], kls), w1)
     else let oldTable = pod_table (latestLocalPods kls); newTable = pod_table newLocalPods;
         deletions = filter (\<lambda>pod. newTable (uid pod) = None) (latestLocalPods kls);
         additions = filter (\<lambda>pod. oldTable (uid pod) = None) newLocalPods
       in (((if length additions \<noteq> 0 then [\<lparr>Update_Pods = additions, Op = ADD\<rparr>] else []) @
            (if length deletions \<noteq> 0 then [\<lparr>Update_Pods = deletions, Op = DELETE\<rparr>] else []),
            kls\<lparr>latestLocalPods := newLocalPods\<rparr>), w1))"

text \<open>\<open>watchApiServer\<close>: the updates that rounds send, with whatever happens to the world in between.\<close>

fun watchApiServer :: "'w net \<Rightarrow> ('w \<Rightarrow> 'w) list \<Rightarrow> KubeletServer \<Rightarrow> 'w \<Rightarrow> (PodUpdate list \<times> KubeletServer) \<times> 'w" where
  "watchApiServer N [] kls w = (([], kls), w)"
| "watchApiServer N (env # envs) kls w = (case updateLocalPods N kls (env w) of ((ups, kls1), w1) \<Rightarrow>
     (case watchApiServer N envs kls1 w1 of ((ups', kls2), w2) \<Rightarrow> ((ups @ ups', kls2), w2)))"

section \<open>Lemmas\<close>

lemma pod_table_None: "pod_table pods u = None \<longleftrightarrow> u \<notin> uid ` set pods"
  by (force simp: pod_table_def map_of_eq_None_iff)

lemma apply_some:
  "fold apply_update (if length pods \<noteq> 0 then [\<lparr>Update_Pods = pods, Op = ADD\<rparr>] else []) S = S \<union> uid ` set pods"
  "fold apply_update (if length pods \<noteq> 0 then [\<lparr>Update_Pods = pods, Op = DELETE\<rparr>] else []) S = S - uid ` set pods"
  by (simp_all add: apply_update_def)

lemma updateLocalPods_mirrors:
  assumes "updateLocalPods N kls w = ((ups, kls'), w')"
  shows "fold apply_update ups (uid ` set (latestLocalPods kls)) = uid ` set (latestLocalPods kls')"
proof -
  obtain new err w1 where g: "GetPodsByNodeName N (nodeName kls) w = ((new, err), w1)" by (metis surj_pair)
  show ?thesis
  proof (cases err)
    case (Some e)
    with assms g show ?thesis by (auto simp: updateLocalPods_def)
  next
    case None
    let ?old = "latestLocalPods kls"
    let ?add = "filter (\<lambda>pod. pod_table ?old (uid pod) = None) new" and ?del = "filter (\<lambda>pod. pod_table new (uid pod) = None) ?old"
    from assms g None have
      "ups = (if length ?add \<noteq> 0 then [\<lparr>Update_Pods = ?add, Op = ADD\<rparr>] else []) @
             (if length ?del \<noteq> 0 then [\<lparr>Update_Pods = ?del, Op = DELETE\<rparr>] else [])"
      unfolding updateLocalPods_def Let_def by (simp del: length_0_conv length_greater_0_conv ADD_def DELETE_def)
    then have "fold apply_update ups (uid ` set ?old) = uid ` set ?old \<union> uid ` set ?add - uid ` set ?del"
      by (simp only: fold_append comp_apply apply_some)
    also have "\<dots> = uid ` set new"
      by (auto simp: pod_table_None) (metis image_eqI)
    also have "new = latestLocalPods kls'" using assms g None by (auto simp: updateLocalPods_def Let_def)
    finally show ?thesis .
  qed
qed

lemma watchApiServer_mirrors:
  assumes "watchApiServer N envs kls w = ((ups, kls'), w')"
  shows "fold apply_update ups (uid ` set (latestLocalPods kls)) = uid ` set (latestLocalPods kls')"
  using assms
proof (induction envs arbitrary: kls w ups)
  case (Cons env envs)
  from Cons.prems obtain ups1 kls1 w1 ups2 where 1: "updateLocalPods N kls (env w) = ((ups1, kls1), w1)"
    "watchApiServer N envs kls1 w1 = ((ups2, kls'), w')" "ups = ups1 @ ups2"
    by (auto split: prod.splits)
  from Cons.IH [OF 1(2)] updateLocalPods_mirrors [OF 1(1)] show ?case by (simp add: 1(3))
qed simp

lemma count_states_sums:
  "count_states cs (r, e, s, f) = (r + length (filter (\<lambda>c. CS_State c = ContainerStateRunning) cs),
     e + length (filter (\<lambda>c. CS_State c = ContainerStateExited) cs),
     s + length (filter (\<lambda>c. CS_State c = ContainerStateExited \<and> CS_ExitCode c = 0) cs),
     f + length (filter (\<lambda>c. CS_State c = ContainerStateExited \<and> CS_ExitCode c \<noteq> 0) cs))"
  by (induction cs arbitrary: r e s f) simp_all

lemma filter_all_length: "length (filter P xs) = length xs \<longleftrightarrow> (\<forall>x\<in>set xs. P x)"
  by (metis filter_True filter_id_conv length_filter_less less_irrefl)

text \<open>The phase that a kubelet reports.\<close>

lemma computeApiStatus_phase:
  assumes "length (ContainerStatuses st) = length (Containers (Pod_Spec pod))"
  shows "map_option Phase (computeApiStatus pod st) =
    (if \<exists>c\<in>set (ContainerStatuses st). CS_State c = ContainerStateRunning then Some PodRunning
     else if \<exists>c\<in>set (ContainerStatuses st). CS_State c \<noteq> ContainerStateExited then None
     else if \<exists>c\<in>set (ContainerStatuses st). CS_ExitCode c \<noteq> 0 then Some PodFailed else Some PodSucceeded)"
  unfolding computeApiStatus_def Let_def count_states_sums split
  using assms by (simp add: filter_all_length) (auto simp: filter_empty_conv filter_all_length simp flip: assms)

section \<open>Properties\<close>

text \<open>
  C31: a node ends up running what the API server last listed for it: take any rounds of the watcher, whatever listings fail, and any run of
  the kubelet that received exactly their updates, among events and steps in any order; if no pod came back after it had gone,
  then once no goroutine can move, the runtime has been called so that exactly the pods of the last good listing are up.
\<close>

theorem node_follows_listing:
  assumes "watchApiServer N envs (NewKubeletServer name) w = ((ups, kls), w')" "kruns ls cs k" "received ls = ups" "once ls" "stuck k"
  shows "protocol False (calls_of u cs) = Some (u \<in> uid ` set (latestLocalPods kls))"
proof -
  have "wanted ls = uid ` set (latestLocalPods kls)"
    using watchApiServer_mirrors [OF assms(1)] assms(3) by (simp add: wanted_def NewKubeletServer_def)
  with at_rest(3) [OF assms(2,4,5)] show ?thesis by simp
qed

text \<open>A network that answers with given listings: the node has the demo pod and then none.\<close>

definition listings_net :: "Pod list list net" where
  "listings_net = \<lparr>http = (\<lambda>q w. case w of [] \<Rightarrow> (Inl ''refused'', []) | ps # w' \<Rightarrow> (Inr [Reply StatusOK (DataPods ps)], w')),
     stats_http = (\<lambda>q w. (Inl ''refused'', w))\<rparr>"

lemma listings_watched:
  "watchApiServer listings_net [\<lambda>w. w, \<lambda>w. w, \<lambda>w. w] (NewKubeletServer ''n'') [[demo_always], []] =
    (([\<lparr>Update_Pods = [demo_always], Op = ADD\<rparr>, \<lparr>Update_Pods = [demo_always], Op = DELETE\<rparr>], NewKubeletServer ''n''), [])"
proof -
  have "wire_Pod demo_always = demo_always" by code_simp
  then show ?thesis
    by (simp add: listings_net_def NewKubeletServer_def updateLocalPods_def GetPodsByNodeName_def call_data_def unmarshal_reply_def
      reply_data_def finish_def status_of_def pod_table_def Let_def)
qed

theorem node_follows_listing_witness:
  "protocol False (calls_of ''u1'' (fst demo_kubelet_end @ fst demo_rest)) = Some False \<and> stuck (snd demo_rest)"
proof
  show stuck: "stuck (snd demo_rest)" by (rule demo_stuck)
  have "received (demo_kubelet_labels @ [Remove 0]) =
      [\<lparr>Update_Pods = [demo_always], Op = ADD\<rparr>, \<lparr>Update_Pods = [demo_always], Op = DELETE\<rparr>]"
    by (simp add: demo_kubelet_labels_def died_def)
  moreover have "once (demo_kubelet_labels @ [Remove 0])" by code_simp
  ultimately have "protocol False (calls_of ''u1'' (fst demo_kubelet_end @ fst demo_rest)) =
      Some (''u1'' \<in> uid ` set (latestLocalPods (NewKubeletServer ''n'')))"
    using node_follows_listing [OF listings_watched kruns_append [OF demo_kubelet_run demo_rest_run]] stuck by blast
  then show "protocol False (calls_of ''u1'' (fst demo_kubelet_end @ fst demo_rest)) = Some False"
    by (simp add: NewKubeletServer_def)
qed

end
