(* ===== verification/Collector.thy ===== *)
theory Collector
  imports Kubelet_Server "HOL-Library.Sublist"
begin

text \<open>
  \<open>pkg/kubelet/metrics/collector.go\<close>: every five seconds a kubelet asks cAdvisor for the samples of its
  running containers and posts those that are newer than the last one it has seen to the API server,
  where \<open>Metrics_Db\<close> keeps them for the autoscaler. The shell and the cAdvisor client are third-party code, the
  record \<open>machine\<close> over a state of its own; the API server is reached over the network of \<open>Kube_Client\<close>.
  The loop over the pods holds the lock that \<open>SetPodInfo\<close> takes, so both are one step; the check for nil
  that reads the pods without the lock is part of the step of the tick. Errors that are only logged are dropped.
\<close>

section \<open>Samples and conversions\<close>

text \<open>A sample of a container: the CPU use and the memory use may be missing.\<close>

record Sample =
  CpuInst :: "64 word option"
  Sample_Memory :: "64 word option"
  Sample_Timestamp :: time

record ('m, 'c) machine =
  Command :: "string \<Rightarrow> string list \<Rightarrow> 'm \<Rightarrow> (string \<times> string \<times> error) \<times> 'm"
  NewCadvisor :: "string \<Rightarrow> 'm \<Rightarrow> ('c option \<times> error) \<times> 'm"
  Stats :: "'c option \<Rightarrow> string \<Rightarrow> 'm \<Rightarrow> ((string, Sample list) gomap \<times> error) outcome \<times> 'm"

text \<open>\<open>float32(n) / d\<close>. The quotient is a finite number (\<open>convert_finite\<close>).\<close>

definition convert :: "64 word \<Rightarrow> rat \<Rightarrow> float32" where
  "convert n d = (case fdiv (round32 (of_nat (unat n))) (Fin d) of Fin r \<Rightarrow> r | _ \<Rightarrow> 0)"

definition NANOCORES :: rat where [simp]: "NANOCORES = 1000000000"
definition MEGABYTE :: rat where [simp]: "MEGABYTE = 1048576"

section \<open>The collector\<close>

record 'c metricsCollector =
  mc_ip :: string
  mc_port :: int
  cad_client :: "'c option"
  podStats :: "RuntimeStatus list option"
  conLastTime :: "string \<rightharpoonup> time"

definition NewMetricsCollector :: "'c metricsCollector" where
  "NewMetricsCollector = \<lparr>mc_ip = ''127.0.0.1'', mc_port = 8090, cad_client = None, podStats = None,
     conLastTime = Map.empty\<rparr>"

definition tryStartCAdvisor :: "('m, 'c) machine \<Rightarrow> 'c metricsCollector \<Rightarrow> 'm \<Rightarrow> 'm" where
  "tryStartCAdvisor M mc m = snd (Command M ''docker''
     [''run'', ''--volume=/:/rootfs:ro'', ''--volume=/var/run:/var/run:rw'', ''--volume=/sys:/sys:ro'',
      ''--volume=/var/lib/docker/:/var/lib/docker:ro'', ''--publish='' @ dec_int (mc_port mc) @ '':8080'',
      ''--detach=true'', ''--name=cadvisor'', ''google/cadvisor:latest''] m)"

definition CheckAlive :: "('m, 'c) machine \<Rightarrow> 'c metricsCollector \<Rightarrow> 'm \<Rightarrow> error \<times> 'm" where
  "CheckAlive M mc m = (case Command M ''docker'' [''ps''] m of
     ((out, out', Some e), m1) \<Rightarrow> (Some (''cadvisor err: '' @ e @ '', stderr: '' @ out'), m1)
   | ((out, out', None), m1) \<Rightarrow>
       if \<not> sublist ''cadvisor'' out then (Some ''cadvisor not found in docker ps'', m1)
       else (case Command M ''nc'' [''-vz'', mc_ip mc, dec_int (mc_port mc)] m1 of
           ((out, out', Some e), m2) \<Rightarrow> (Some (''ping cadvisor err: '' @ e @ '', '' @ out' @ '' , '' @ out), m2)
         | ((out, out', None), m2) \<Rightarrow> (None, m2)))"

definition collector_init :: "('m, 'c) machine \<Rightarrow> 'c metricsCollector \<Rightarrow> 'm \<Rightarrow> 'c metricsCollector \<times> 'm" where
  "collector_init M mc m =
     (case CheckAlive M mc m of (err, m1) \<Rightarrow>
      let m2 = (if err \<noteq> None then tryStartCAdvisor M mc m1 else m1) in
      case NewCadvisor M (''http://'' @ mc_ip mc @ '':'' @ dec_int (mc_port mc)) m2 of ((client, _), m3) \<Rightarrow>
        (mc\<lparr>cad_client := client, conLastTime := Map.empty, podStats := None\<rparr>, m3))"

text \<open>A slice that nothing was appended to is nil.\<close>

definition appended :: "'a list \<Rightarrow> 'a list option" where
  "appended xs = (if xs = [] then None else Some xs)"

definition SetPodInfo :: "RuntimeStatus list option \<Rightarrow> 'c metricsCollector \<Rightarrow> 'c metricsCollector" where
  "SetPodInfo sts mc = mc\<lparr>podStats := sts\<rparr>"

section \<open>One round\<close>

type_synonym collected = "(string, PodRawMetricsItem list) gomap \<times> (string \<rightharpoonup> time)"

definition item_of :: "Sample \<Rightarrow> PodRawMetricsItem option" where
  "item_of item = (case (CpuInst item, Sample_Memory item) of
     (Some total_usage, Some memory_usage) \<Rightarrow> Some \<lparr>Item_TimeStamp = Sample_Timestamp item,
       CPUUsage = convert total_usage NANOCORES, MemoryUsage = convert memory_usage MEGABYTE\<rparr>
   | _ \<Rightarrow> None)"

definition collect_sample :: "string \<Rightarrow> Sample \<Rightarrow> collected \<Rightarrow> collected" where
  "collect_sample dockerId item s = (case s of (info, seen) \<Rightarrow> (case item_of item of
     None \<Rightarrow> (info, seen)
   | Some cMetricItem \<Rightarrow>
       if (case seen dockerId of None \<Rightarrow> False | Some lastTime \<Rightarrow> \<not> Sample_Timestamp item > lastTime)
       then (info, seen)
       else (mput dockerId (mlist info dockerId @ [cMetricItem]) info, seen(dockerId \<mapsto> Sample_Timestamp item))))"

definition collect_container :: "('m, 'c) machine \<Rightarrow> 'c option \<Rightarrow> ContainerStatus \<Rightarrow> collected \<Rightarrow> 'm \<Rightarrow> collected outcome \<times> 'm" where
  "collect_container M client container s m = (case s of (info, seen) \<Rightarrow>
     if CS_State container \<noteq> ContainerStateRunning then (Returns s, m)
     else let dockerId = CS_ID container;
              info = (if map_of info dockerId = None then mput dockerId [] info else info) in
       (case Stats M client (''/docker/'' @ dockerId) m of
         (Crashes, m1) \<Rightarrow> (Crashes, m1)
       | (Returns (samples, _), m1) \<Rightarrow>
           (Returns (fold (collect_sample dockerId) (mlist samples (''/docker/'' @ dockerId)) (info, seen)), m1)))"

fun collect_containers :: "('m, 'c) machine \<Rightarrow> 'c option \<Rightarrow> ContainerStatus list \<Rightarrow> collected \<Rightarrow> 'm \<Rightarrow> collected outcome \<times> 'm" where
  "collect_containers M client [] s m = (Returns s, m)"
| "collect_containers M client (container # cs) s m = (case collect_container M client container s m of
     (Crashes, m1) \<Rightarrow> (Crashes, m1) | (Returns s', m1) \<Rightarrow> collect_containers M client cs s' m1)"

fun pods_metrics :: "('m, 'c) machine \<Rightarrow> 'c option \<Rightarrow> RuntimeStatus list \<Rightarrow> (string \<rightharpoonup> time) \<Rightarrow> 'm \<Rightarrow>
    (PodRawMetrics list \<times> (string \<rightharpoonup> time)) outcome \<times> 'm" where
  "pods_metrics M client [] seen m = (Returns ([], seen), m)"
| "pods_metrics M client (podStat # pods) seen m =
     (case collect_containers M client (ContainerStatuses podStat) ([], seen) m of
       (Crashes, m1) \<Rightarrow> (Crashes, m1)
     | (Returns (info, seen1), m1) \<Rightarrow> (case pods_metrics M client pods seen1 m1 of
         (Crashes, m2) \<Rightarrow> (Crashes, m2)
       | (Returns (ms, seen2), m2) \<Rightarrow>
           (Returns (\<lparr>Metrics_UID = ST_ID podStat, ContainerInfo = Some info\<rparr> # ms, seen2), m2)))"

definition getMetrics :: "('m, 'c) machine \<Rightarrow> 'c metricsCollector \<Rightarrow> 'm \<Rightarrow>
    (PodRawMetrics list \<times> 'c metricsCollector) outcome \<times> 'm" where
  "getMetrics M mc m =
     (case pods_metrics M (cad_client mc) (case podStats mc of None \<Rightarrow> [] | Some sts \<Rightarrow> sts) (conLastTime mc) m of
       (Crashes, m1) \<Rightarrow> (Crashes, m1)
     | (Returns (ms, seen), m1) \<Rightarrow> (Returns (ms, mc\<lparr>conLastTime := seen\<rparr>), m1))"

definition uploadMetrics :: "'w net \<Rightarrow> PodRawMetrics list \<Rightarrow> 'w \<Rightarrow> error \<times> 'w" where
  "uploadMetrics N metrics w = client_UploadPodMetrics N metrics w"

text \<open>The tick. A panic ends the kubelet.\<close>

definition collector_tick :: "('m, 'c) machine \<Rightarrow> 'w net \<Rightarrow> 'c metricsCollector \<Rightarrow> 'm \<times> 'w \<Rightarrow>
    'c metricsCollector outcome \<times> 'm \<times> 'w" where
  "collector_tick M N mc s = (case s of (m, w) \<Rightarrow> (case CheckAlive M mc m of
     (Some _, m1) \<Rightarrow> (Returns mc, tryStartCAdvisor M mc m1, w)
   | (None, m1) \<Rightarrow>
       if podStats mc = None then (Returns mc, m1, w)
       else (case getMetrics M mc m1 of
           (Crashes, m2) \<Rightarrow> (Crashes, m2, w)
         | (Returns (curMetrics, mc'), m2) \<Rightarrow> (Returns mc', m2, snd (uploadMetrics N curMetrics w)))))"

section \<open>The kubelets of a cluster\<close>

text \<open>
  A collector starts with its kubelet, learns of pods, ticks; meanwhile the autoscaler asks the server.
  The collector of a kubelet that has not started or has ended is \<open>None\<close>.
\<close>

datatype collector_event = Start nat | PodInfo nat "RuntimeStatus list" | Tick nat | Query "(UID \<times> time \<times> int) option"

record ('m, 'c, 'w) collecting =
  collectors :: "nat \<rightharpoonup> 'c metricsCollector"
  machines :: 'm
  server :: 'w

fun collector_step :: "(nat \<Rightarrow> ('m, 'c) machine) \<Rightarrow> 'w net \<Rightarrow> collector_event \<Rightarrow> ('m, 'c, 'w) collecting \<Rightarrow> ('m, 'c, 'w) collecting" where
  "collector_step M N (Start n) s = (case collector_init (M n) NewMetricsCollector (machines s) of (mc, m') \<Rightarrow>
     s\<lparr>collectors := (collectors s)(n \<mapsto> mc), machines := m'\<rparr>)"
| "collector_step M N (PodInfo n sts) s = (case collectors s n of None \<Rightarrow> s
     | Some mc \<Rightarrow> s\<lparr>collectors := (collectors s)(n \<mapsto> SetPodInfo (appended sts) mc)\<rparr>)"
| "collector_step M N (Tick n) s = (case collectors s n of None \<Rightarrow> s
     | Some mc \<Rightarrow> (case collector_tick (M n) N mc (machines s, server s) of (r, m', w') \<Rightarrow>
         s\<lparr>collectors := (collectors s)(n := (case r of Crashes \<Rightarrow> None | Returns mc' \<Rightarrow> Some mc')),
           machines := m', server := w'\<rparr>))"
| "collector_step M N (Query q) s = s\<lparr>server := snd (stats_http N (GET_Stats q) (server s))\<rparr>"

definition collector_run :: "(nat \<Rightarrow> ('m, 'c) machine) \<Rightarrow> 'w net \<Rightarrow> collector_event list \<Rightarrow> ('m, 'c, 'w) collecting \<Rightarrow> ('m, 'c, 'w) collecting" where
  "collector_run M N events s = fold (collector_step M N) events s"

text \<open>The kubelets that a sequence of events starts.\<close>

fun starts :: "collector_event list \<Rightarrow> nat list" where
  "starts [] = []"
| "starts (Start n # es) = n # starts es"
| "starts (e # es) = starts es"

section \<open>Conversions are exact to a finite number\<close>

lemma pow2_add_nat: "pow2 (int a - int b) = 2 ^ a / 2 ^ b"
proof (cases "b \<le> a")
  case True
  then have "nat (int a - int b) = a - b" "0 \<le> int a - int b" by auto
  with True show ?thesis by (simp add: pow2_def power_diff)
next
  case False
  then have "nat (- (int a - int b)) = b - a" "\<not> 0 \<le> int a - int b" by auto
  with False show ?thesis by (simp add: pow2_def power_diff)
qed

lemma bit_length_le: "0 < n \<Longrightarrow> 2 ^ bit_length n \<le> 2 * n"
proof (induction n rule: bit_length.induct)
  case (1 n)
  show ?case
  proof (cases "n div 2 = 0")
    case True
    with 1(2) have "n = 1" by auto
    then show ?thesis by (simp add: bit_length.simps)
  next
    case False
    with 1 have "2 ^ bit_length (n div 2) \<le> 2 * (n div 2)" by simp
    then have "2 ^ Suc (bit_length (n div 2)) \<le> 2 * (2 * (n div 2))" by simp
    also have "\<dots> \<le> 2 * n" by simp
    finally show ?thesis using 1(2) by (subst bit_length.simps) simp
  qed
qed

lemma bit_length_gt: "n < 2 ^ bit_length n"
proof (induction n rule: bit_length.induct)
  case (1 n)
  then show ?case by (cases "n = 0") (auto simp: bit_length.simps [of n] bit_length.simps [of 0])
qed

lemma pow2_mono: "a \<le> b \<Longrightarrow> pow2 a \<le> pow2 b"
proof -
  assume "a \<le> b"
  then obtain k where b: "b = a + int k" using zle_iff_zadd by auto
  show ?thesis
  proof (cases "0 \<le> a")
    case True
    then show ?thesis using b by (simp add: pow2_def nat_add_distrib power_increasing)
  next
    case False
    then have "a = int 0 - int (nat (- a))" by simp
    then obtain j where "a = int 0 - int j" by blast
    then show ?thesis using b pow2_add_nat [of 0 j] pow2_add_nat [of k j]
      by (simp add: divide_right_mono)
  qed
qed

lemma exponent_le: "0 < q \<Longrightarrow> pow2 (exponent q) \<le> 2 * q"
proof -
  assume q0: "0 < q"
  obtain n d where q: "quotient_of q = (n, d)" by fastforce
  then have d: "0 < d" and r: "q = of_int n / of_int d" using quotient_of_denom_pos quotient_of_div by auto
  with q0 have n: "0 < n" by (simp add: zero_less_divide_iff)
  define bn bd where "bn = bit_length (nat n)" and "bd = bit_length (nat d)"
  have "(2::nat) ^ bn \<le> 2 * nat n" "nat d < 2 ^ bd" unfolding bn_def bd_def using n bit_length_le bit_length_gt by auto
  then have "int (2 ^ bn) \<le> int (2 * nat n)" "int (nat d) \<le> int (2 ^ bd)" by linarith+
  then have "(2::int) ^ bn \<le> 2 * n" "d \<le> 2 ^ bd" using n d by simp_all
  then have "(2::rat) ^ bn \<le> 2 * of_int n" "of_int d \<le> (2::rat) ^ bd"
    by (metis of_int_le_iff of_int_mult of_int_numeral of_int_power)+
  then have "(2::rat) ^ bn / 2 ^ bd \<le> 2 * of_int n / of_int d" using d n by (intro frac_le) auto
  then have "pow2 (int bn - int bd) \<le> 2 * q" by (simp add: pow2_add_nat r)
  moreover have "exponent q \<le> int bn - int bd" by (simp add: exponent_def q Let_def bn_def bd_def)
  ultimately show ?thesis using pow2_mono order_trans by blast
qed

lemma round_half_even_le: "of_int (round_half_even x) \<le> x + 1"
proof -
  have f: "of_int (floor x) \<le> x" by simp
  show ?thesis
  proof (cases "round_half_even x = floor x")
    case True
    with f show ?thesis by linarith
  next
    case False
    then have "round_half_even x = floor x + 1" by (auto simp: round_half_even_def Let_def split: if_splits)
    with f show ?thesis by simp
  qed
qed

lemma round32_finite:
  assumes "0 \<le> q" "q \<le> 2 ^ 100"
  obtains r where "round32 q = Fin r" "0 \<le> r" "r \<le> 3 * q + 1"
proof (cases "q = 0")
  case False
  define p where "p = pow2 (max (exponent \<bar>q\<bar> - 23) (- 149))"
  define r where "r = of_int (round_half_even (q / p)) * p"
  have q: "0 < q" using False assms(1) by simp
  have "pow2 (exponent q - 23) \<le> pow2 (exponent q)" "pow2 (- 149) \<le> pow2 0" by (rule pow2_mono; simp)+
  then have "p \<le> 2 * q + 1" using exponent_le [OF q] q
    by (auto simp: p_def max_def) (simp_all add: pow2_def)
  moreover have p: "0 < p" by (simp add: p_def pow2_pos)
  moreover have "r \<le> (q / p + 1) * p" unfolding r_def using round_half_even_le p by (intro mult_right_mono) auto
  moreover have "(q / p + 1) * p = q + p" using p by (simp add: distrib_right)
  ultimately have "r \<le> q + p" "p \<le> 2 * q + 1" by simp_all
  then have r: "r \<le> 3 * q + 1" by simp
  moreover have "0 \<le> r" unfolding r_def using p q round_half_even_nonneg [of "q / p"] by simp
  moreover have "r < 2 ^ 128" using r assms(2) by simp
  ultimately show ?thesis using that [of r] False
    by (simp add: round32_def Let_def p_def [symmetric] r_def [symmetric])
qed (use that [of 0] in \<open>simp add: round32_def\<close>)

lemma convert_finite:
  assumes "1 \<le> d"
  shows "fdiv (round32 (of_nat (unat n))) (Fin d) = Fin (convert n d) \<and> 0 \<le> convert n d"
proof -
  have "unat n < 2 ^ 64" using unsigned_less [of n] by simp
  then have n: "of_nat (unat n) \<le> (2::rat) ^ 64"
    by (metis less_imp_le of_nat_le_iff of_nat_numeral of_nat_power)
  then obtain a where a: "round32 (of_nat (unat n)) = Fin a" "0 \<le> a" "a \<le> 3 * of_nat (unat n) + 1"
    by (rule_tac q = "of_nat (unat n)" in round32_finite) (simp_all del: of_nat_unat)
  have "a / d \<le> a / 1" using assms a(2) by (intro divide_left_mono) auto
  with a(3) n have "a / d \<le> 2 ^ 100" by simp
  then obtain r where "round32 (a / d) = Fin r" "0 \<le> r" "r \<le> 3 * (a / d) + 1"
    using a(2) assms by (rule_tac q = "a / d" in round32_finite) auto
  with a(1) assms show ?thesis by (simp add: convert_def)
qed

end
