(* ===== verification/Collected_Metrics.thy ===== *)
theory Collected_Metrics
  imports Collector "HOL-Library.Option_ord"
begin

text \<open>
  Collectors, client, network and metrics database together: what a round posts came in order after what its
  collector had seen, what the database keeps is a subsequence of what was posted, so the lists on which the
  queries of \<open>Metrics_Db\<close> search are in order. The locale \<open>metrics_network\<close> is the interface between the
  client and the database.
\<close>

section \<open>The order of the time stamps\<close>

text \<open>Stamps that came in order between two states of the table of last stamps.\<close>

definition stamped :: "time option \<Rightarrow> time list \<Rightarrow> time option \<Rightarrow> bool" where
  "stamped l ts m \<longleftrightarrow> l \<le> m \<and> sorted_wrt (<) ts \<and> (\<forall>t\<in>set ts. l < Some t \<and> Some t \<le> m)"

lemma stamped_Nil [simp]: "stamped l [] m \<longleftrightarrow> l \<le> m"
  by (simp add: stamped_def)

lemma stamped_append: "stamped l a m \<Longrightarrow> stamped m b n \<Longrightarrow> stamped l (a @ b) n"
  unfolding stamped_def sorted_wrt_append by (auto intro: order_trans le_less_trans)
    (metis le_less_trans less_option_Some)

lemma sorted_wrt_subseq: "subseq xs ys \<Longrightarrow> sorted_wrt P ys \<Longrightarrow> sorted_wrt P xs \<and> set xs \<subseteq> set ys"
  by (induction rule: list_emb.induct) auto

lemma stamped_subseq: "stamped l ts m \<Longrightarrow> subseq ts' ts \<Longrightarrow> stamped l ts' m"
  unfolding stamped_def using sorted_wrt_subseq [of ts' ts "(<)"] by blast

lemma stamped_later: "stamped l ts m \<Longrightarrow> m \<le> n \<Longrightarrow> stamped l ts n"
  using stamped_append [of l ts m "[]" n] by simp

section \<open>What a round collects\<close>

definition times_of :: "(string, PodRawMetricsItem list) gomap \<Rightarrow> string \<Rightarrow> time list" where
  "times_of info c = map Item_TimeStamp (mlist info c)"

text \<open>What a step adds to the items of each container came in order after what was seen.\<close>

definition collects :: "collected \<Rightarrow> collected \<Rightarrow> bool" where
  "collects s s' \<longleftrightarrow> (distinct (map fst (fst s)) \<longrightarrow> distinct (map fst (fst s'))) \<and>
     (\<forall>c. \<exists>ts. times_of (fst s') c = times_of (fst s) c @ ts \<and> stamped (snd s c) ts (snd s' c))"

lemma collects_refl: "collects s s"
  by (auto simp: collects_def)

lemma collects_trans: "collects a b \<Longrightarrow> collects b c \<Longrightarrow> collects a c"
  unfolding collects_def
proof (intro conjI allI)
  fix k
  assume ab: "(distinct (map fst (fst a)) \<longrightarrow> distinct (map fst (fst b))) \<and>
      (\<forall>c. \<exists>ts. times_of (fst b) c = times_of (fst a) c @ ts \<and> stamped (snd a c) ts (snd b c))"
    and bc: "(distinct (map fst (fst b)) \<longrightarrow> distinct (map fst (fst c))) \<and>
      (\<forall>k. \<exists>ts. times_of (fst c) k = times_of (fst b) k @ ts \<and> stamped (snd b k) ts (snd c k))"
  from ab obtain x where "times_of (fst b) k = times_of (fst a) k @ x" "stamped (snd a k) x (snd b k)" by blast
  moreover from bc obtain y where "times_of (fst c) k = times_of (fst b) k @ y" "stamped (snd b k) y (snd c k)" by blast
  ultimately show "\<exists>ts. times_of (fst c) k = times_of (fst a) k @ ts \<and> stamped (snd a k) ts (snd c k)"
    using stamped_append by (intro exI [of _ "x @ y"]) simp
qed blast

lemma item_of_time: "item_of item = Some x \<Longrightarrow> Item_TimeStamp x = Sample_Timestamp item"
  by (auto simp: item_of_def split: option.splits)

lemma collects_sample: "collects s (collect_sample d item s)"
proof (cases "item_of item")
  case None
  then show ?thesis by (cases s) (simp add: collect_sample_def collects_refl)
next
  case (Some x)
  obtain info seen where s: "s = (info, seen)" by fastforce
  show ?thesis
  proof (cases "case seen d of None \<Rightarrow> False | Some t \<Rightarrow> \<not> Sample_Timestamp item > t")
    case True
    then show ?thesis by (simp add: collect_sample_def Some s collects_refl)
  next
    case False
    then have "stamped (seen d) [Sample_Timestamp item] (Some (Sample_Timestamp item))"
      by (cases "seen d") (auto simp: stamped_def)
    with False item_of_time [OF Some] show ?thesis
      by (auto simp: collect_sample_def Some s collects_def times_of_def)
  qed
qed

lemma collects_samples: "collects s (fold (collect_sample d) items s)"
proof (induction items arbitrary: s)
  case (Cons item items)
  show ?case using collects_trans [OF collects_sample Cons.IH, of s d item] by simp
qed (simp add: collects_refl)

lemma collects_entry: "collects (info, seen) (if map_of info d = None then mput d [] info else info, seen)"
  by (auto simp: collects_def times_of_def mlist_def)

lemma collects_container:
  assumes "collect_container M client ct s m = (Returns s', m')"
  shows "collects s s'"
proof (cases "CS_State ct = ContainerStateRunning")
  case True
  obtain info seen where s: "s = (info, seen)" by fastforce
  define info' where "info' = (if map_of info (CS_ID ct) = None then mput (CS_ID ct) [] info else info)"
  from assms True obtain items where "s' = fold (collect_sample (CS_ID ct)) items (info', seen)"
    by (auto simp: collect_container_def s Let_def info'_def [symmetric] split: outcome.splits prod.splits)
  moreover have "collects s (info', seen)" unfolding s info'_def by (rule collects_entry)
  ultimately show ?thesis using collects_trans collects_samples by blast
qed (use assms in \<open>auto simp: collect_container_def collects_refl split: prod.splits\<close>)

lemma collects_containers: "collect_containers M client cs s m = (Returns s', m') \<Longrightarrow> collects s s'"
  by (induction cs arbitrary: s m) (auto simp: collects_refl split: outcome.splits prod.splits
    intro: collects_trans collects_container)

text \<open>Of samples in the order of time, exactly the complete ones later than the last seen are kept.\<close>

lemma collect_samples_exact:
  assumes "sorted_wrt (<) (map Sample_Timestamp items)"
  shows "mlist (fst (fold (collect_sample d) items (info, seen))) d =
    mlist info d @ List.map_filter item_of (filter (\<lambda>i. seen d < Some (Sample_Timestamp i)) items)"
  using assms
proof (induction items arbitrary: info seen)
  case (Cons i items)
  have stale: "(case seen d of None \<Rightarrow> False | Some t \<Rightarrow> \<not> Sample_Timestamp i > t) \<longleftrightarrow> \<not> seen d < Some (Sample_Timestamp i)"
    by (cases "seen d") auto
  show ?case
  proof (cases "seen d < Some (Sample_Timestamp i) \<and> item_of i \<noteq> None")
    case True
    then obtain x where x: "item_of i = Some x" by blast
    define seen' where "seen' = seen(d \<mapsto> Sample_Timestamp i)"
    from x True have step: "collect_sample d i (info, seen) = (mput d (mlist info d @ [x]) info, seen')"
      unfolding collect_sample_def prod.case stale seen'_def by simp
    have d: "seen' d = Some (Sample_Timestamp i)" by (simp add: seen'_def)
    have "filter (\<lambda>j. Some (Sample_Timestamp i) < Some (Sample_Timestamp j)) items = items"
      "filter (\<lambda>j. seen d < Some (Sample_Timestamp j)) items = items"
      using Cons.prems True by (auto simp: filter_id_conv intro: less_trans)
    with Cons.IH [of "mput d (mlist info d @ [x]) info" seen'] Cons.prems True x show ?thesis
      by (simp add: step d map_filter_simps del: less_option_Some)
  next
    case False
    then have "collect_sample d i (info, seen) = (info, seen)" unfolding collect_sample_def prod.case stale by (auto split: option.split)
    with Cons False show ?thesis by (auto simp: map_filter_simps)
  qed
qed (simp add: map_filter_simps)

text \<open>The stamps that a list of metrics holds for a container of a pod.\<close>

definition posted :: "PodRawMetrics list \<Rightarrow> UID \<Rightarrow> string \<Rightarrow> time list" where
  "posted ms u c = concat (map (\<lambda>p. if Metrics_UID p = u then times_of (infos p) c else []) ms)"

lemma pods_metrics_posts:
  "pods_metrics M client pods seen m = (Returns (ms, seen'), m') \<Longrightarrow>
   (\<forall>u c. stamped (seen c) (posted ms u c) (seen' c)) \<and> list_all (\<lambda>p. distinct (map fst (infos p))) ms \<and>
   (\<forall>u c. posted ms u c \<noteq> [] \<longrightarrow> u \<in> ST_ID ` set pods)"
proof (induction pods arbitrary: seen m ms)
  case (Cons st pods)
  then obtain info seen1 m1 ms' where
    c: "collect_containers M client (ContainerStatuses st) ([], seen) m = (Returns (info, seen1), m1)" and
    p: "pods_metrics M client pods seen1 m1 = (Returns (ms', seen'), m')" and
    ms: "ms = \<lparr>Metrics_UID = ST_ID st, ContainerInfo = Some info\<rparr> # ms'"
    by (auto split: outcome.splits prod.splits)
  note a = collects_containers [OF c, unfolded collects_def] and b = Cons.IH [OF p]
  have one: "stamped (seen c) (times_of info c) (seen1 c)" "distinct (map fst info)" for c
    using a by (auto simp: times_of_def [of "[]"])
  have "stamped (seen c) (posted ms u c) (seen' c)" for u c
  proof (cases "ST_ID st = u")
    case True
    then show ?thesis using stamped_append [OF one(1) b [THEN conjunct1, rule_format]]
      by (simp add: ms posted_def infos_def)
  next
    case False
    have "stamped (seen c) [] (seen1 c)" using one(1) by (auto simp: stamped_def)
    from stamped_append [OF this b [THEN conjunct1, rule_format]] False show ?thesis
      by (simp add: ms posted_def)
  qed
  moreover have "list_all (\<lambda>p. distinct (map fst (infos p))) ms" using b one(2) by (simp add: ms infos_def)
  moreover have "u \<in> ST_ID ` set (st # pods)" if "posted ms u c \<noteq> []" for u c
  proof (cases "ST_ID st = u")
    case False
    with that have "posted ms' u c \<noteq> []" by (simp add: ms posted_def)
    with b have "u \<in> ST_ID ` set pods" by blast
    then show ?thesis by simp
  qed simp
  ultimately show ?case by blast
qed (simp add: posted_def)

section \<open>What the database keeps\<close>

definition db_times :: "metricsDb \<Rightarrow> UID \<Rightarrow> string \<Rightarrow> time list" where
  "db_times db u c = (case db u of None \<Rightarrow> [] | Some p \<Rightarrow> times_of (infos p) c)"

lemma subseq_latest: "subseq (latest n xs) xs"
  by (metis append_take_drop_id latest_def list_emb_append2 subseq_order.refl)

lemma times_latest: "subseq (map Item_TimeStamp (latest n xs)) (map Item_TimeStamp xs)"
  by (intro subseq_map subseq_latest)

lemma save_item_times:
  assumes "metrics_ok db" "distinct (map fst (infos item))" "save_item item db = (ok, db')"
  shows "subseq (db_times db' u c) (db_times db u c @ (if Metrics_UID item = u then times_of (infos item) c else []))"
proof (cases "db (Metrics_UID item)")
  case None
  from save_item_new [of db item, OF None] assms(3) obtain p' where "db' = db(Metrics_UID item \<mapsto> p')"
    "mlist (infos p') c = latest 60 (mlist (infos item) c)" by auto
  then show ?thesis using None times_latest by (auto simp: db_times_def times_of_def)
next
  case (Some p)
  then have p: "Metrics_UID p = Metrics_UID item" using assms(1) by (simp add: metrics_ok_def)
  show ?thesis
  proof (cases "ContainerInfo p = None")
    case True
    with save_item_nil [of db item p, OF Some] assms(3) show ?thesis by (auto split: if_splits)
  next
    case False
    from save_item_known [of db item p, OF Some False assms(2) p] assms(3) obtain p' where "db' = db(Metrics_UID item \<mapsto> p')"
      "mlist (infos p') c = (if c \<in> mkeys (infos item)
        then latest 60 (mlist (infos p) c @ mlist (infos item) c) else mlist (infos p) c)" by auto
    then show ?thesis using Some times_latest [of 60 "mlist (infos p) c @ mlist (infos item) c"]
      by (auto simp: db_times_def times_of_def)
  qed
qed

lemma SavePodMetrics_times:
  assumes "metrics_ok db" "list_all (\<lambda>p. distinct (map fst (infos p))) ms" "SavePodMetrics (map Some ms) db = (ok, db')"
  shows "subseq (db_times db' u c) (db_times db u c @ posted ms u c)"
  using assms
proof (induction ms arbitrary: db)
  case (Cons p ms)
  obtain ok1 db1 where p: "save_item p db = (ok1, db1)" by fastforce
  have one: "subseq (db_times db1 u c) (db_times db u c @ (if Metrics_UID p = u then times_of (infos p) c else []))"
    using save_item_times [OF Cons.prems(1) _ p] Cons.prems(2) by simp
  show ?case
  proof (cases ok1)
    case False
    with Cons.prems(3) p have "db' = db1" by simp
    then have "subseq (db_times db' u c) ((db_times db u c @ (if Metrics_UID p = u then times_of (infos p) c else [])) @ posted ms u c)"
      using list_emb_prefix [OF one] by simp
    then show ?thesis by (simp add: posted_def)
  next
    case True
    with Cons.prems(3) p have r: "SavePodMetrics (map Some ms) db1 = (ok, db')" by simp
    have "subseq (db_times db' u c) (db_times db1 u c @ posted ms u c)"
      using Cons.prems(2) by (intro Cons.IH [OF save_item_ok [OF Cons.prems(1) _ p] _ r]) simp_all
    also have "subseq \<dots> ((db_times db u c @ (if Metrics_UID p = u then times_of (infos p) c else [])) @ posted ms u c)"
      using one by (rule list_emb_append_mono) simp
    finally show ?thesis by (simp add: posted_def)
  qed
qed (simp add: posted_def)

lemma subseq_slice: "slice_window l e t = Some l' \<Longrightarrow> subseq l' l"
proof -
  have "subseq (take i (drop j l)) l" for i j
    by (metis append_take_drop_id list_emb_append2 list_emb_prefix subseq_order.refl)
  then show "slice_window l e t = Some l' \<Longrightarrow> subseq l' l" by (auto simp: slice_window_def Let_def split: if_splits)
qed

lemma query_infos_times:
  assumes "query_infos cs e t p = (ok, p')" "ContainerInfo p \<noteq> None" "distinct (map fst cs)"
    "\<forall>x\<in>set cs. mlist (infos p) (fst x) = snd x"
  shows "subseq (times_of (infos p') c) (times_of (infos p) c)"
  using assms
proof (induction cs e t p arbitrary: ok p' rule: query_infos.induct)
  case (2 cName l cs e t p)
  show ?case
  proof (cases "slice_window l e t")
    case None
    with 2(2) show ?thesis by simp
  next
    case (Some l')
    define p1 where "p1 = set_info cName l' p"
    have i: "infos p1 = mput cName l' (infos p)" "ContainerInfo p1 \<noteq> None" using 2(3) by (auto simp: p1_def)
    from 2(4) have "cName \<notin> fst ` set cs" by simp
    then have "\<forall>x\<in>set cs. mlist (infos p1) (fst x) = snd x" using 2(5) by (auto simp: i image_iff)
    then have "subseq (times_of (infos p') c) (times_of (infos p1) c)"
      using 2(1) [OF Some, of ok p'] 2(2,4) i(2) by (simp add: Some p1_def)
    moreover have "subseq (times_of (infos p1) c) (times_of (infos p) c)"
      using 2(5) subseq_slice [OF Some] by (auto simp: i times_of_def intro!: subseq_map)
    ultimately show ?thesis by (rule subseq_order.trans)
  qed
qed simp

lemma GetPodMetrics_times:
  assumes "metrics_ok db" "GetPodMetrics i t n db = (r, db')"
  shows "subseq (db_times db' u c) (db_times db u c)"
proof (cases "\<exists>p. db i = Some p \<and> infos p \<noteq> []")
  case True
  then obtain p where p: "db i = Some p" "infos p \<noteq> []" by blast
  obtain ok q where q: "query_infos (infos p) (t - n * Second) t p = (ok, q)" by fastforce
  have "distinct (map fst (infos p))" using assms(1) p(1) by (simp add: metrics_ok_def)
  moreover have "ContainerInfo p \<noteq> None" using p(2) by (cases "ContainerInfo p") auto
  ultimately have "subseq (times_of (infos q) c) (times_of (infos p) c)"
    using infos_entry [of p] by (intro query_infos_times [OF q]) auto
  moreover have "db' = db(i \<mapsto> q)" using assms(2) p q by (auto simp: GetPodMetrics_def)
  ultimately show ?thesis using p(1) by (simp add: db_times_def)
next
  case False
  then show ?thesis using assms(2) by (auto simp: GetPodMetrics_def split: option.splits if_splits)
qed

text \<open>A pod whose metrics were first stored without a map stays without metrics.\<close>

lemma save_item_nil_stays:
  assumes "db u = Some p" "ContainerInfo p = None" "save_item item db = (ok, db')"
  shows "db' u = Some p"
proof (cases "Metrics_UID item = u")
  case True
  with save_item_nil [of db item p] assms show ?thesis by simp
next
  case False
  with assms show ?thesis by (auto simp: save_item_def split: prod.splits if_splits)
qed

lemma SavePodMetrics_nil_stays:
  "SavePodMetrics items db = (ok, db') \<Longrightarrow> db u = Some p \<Longrightarrow> ContainerInfo p = None \<Longrightarrow> db' u = Some p"
  by (induction items db arbitrary: ok db' rule: SavePodMetrics.induct)
    (auto split: prod.splits if_splits dest: save_item_nil_stays)

lemma GetPodMetrics_nil_stays:
  "GetPodMetrics i t n db = (r, db') \<Longrightarrow> db u = Some p \<Longrightarrow> ContainerInfo p = None \<Longrightarrow> db' u = Some p"
  by (cases "i = u") (auto simp: GetPodMetrics_def split: option.splits prod.splits if_splits)

section \<open>The network to the metrics server\<close>

lemma infos_wire [simp]: "infos (wire_Metrics p) = infos p" "Metrics_UID (wire_Metrics p) = Metrics_UID p"
  by (auto simp: wire_Metrics_def infos_def norm_map_def split: option.splits)

text \<open>A network whose requests for metrics are served by one database; requests that get lost change nothing.\<close>

locale metrics_network =
  fixes N :: "'w net" and db :: "'w \<Rightarrow> metricsDb"
  assumes stats_served: "stats_http N q w = (r, w') \<Longrightarrow> (\<exists>rs. serve_stats q (db w) = (rs, db w')) \<or> db w' = db w"
begin

lemma query_keeps:
  assumes "metrics_ok (db w)" "w' = snd (stats_http N (GET_Stats q) w)"
  shows "metrics_ok (db w')" "subseq (db_times (db w') u c) (db_times (db w) u c)"
proof -
  obtain r where "stats_http N (GET_Stats q) w = (r, w')" using assms(2) by (metis prod.collapse)
  from stats_served [OF this] have "db w' = db w \<or> (\<exists>i t n r. GetPodMetrics i t n (db w) = (r, db w'))"
    by (auto simp: GetStatsDataHandler_def split: option.splits prod.splits query_result.splits)
  then have "metrics_ok (db w') \<and> subseq (db_times (db w') u c) (db_times (db w) u c)"
    using GetPodMetrics_ok [OF assms(1)] GetPodMetrics_times [OF assms(1)] assms(1) by auto
  then show "metrics_ok (db w')" "subseq (db_times (db w') u c) (db_times (db w) u c)" by simp_all
qed

lemma upload_keeps:
  assumes "metrics_ok (db w)" "list_all (\<lambda>p. distinct (map fst (infos p))) ms" "w' = snd (uploadMetrics N ms w)"
  shows "metrics_ok (db w')" "subseq (db_times (db w') u c) (db_times (db w) u c @ posted ms u c)"
proof -
  let ?q = "POST_Stats (Some (map (\<lambda>p. Some (wire_Metrics p)) ms))"
  obtain r where r: "stats_http N ?q w = (r, w')"
    using assms(3) by (cases "stats_http N ?q w") (auto simp: uploadMetrics_def client_UploadPodMetrics_def split: sum.splits)
  have ms: "map (\<lambda>p. Some (wire_Metrics p)) ms = map Some (map wire_Metrics ms)" by simp
  have d: "list_all (\<lambda>p. distinct (map fst (infos p))) (map wire_Metrics ms)" using assms(2) by (simp add: list_all_iff)
  have p: "posted (map wire_Metrics ms) u c = posted ms u c" by (simp add: posted_def o_def cong: if_cong)
  from stats_served [OF r] have "db w' = db w \<or> (\<exists>ok. SavePodMetrics (map Some (map wire_Metrics ms)) (db w) = (ok, db w'))"
    unfolding ms by (auto simp: AddStatsDataHandler_def split: prod.splits if_splits)
  moreover have "metrics_ok (db w')" if "SavePodMetrics (map Some (map wire_Metrics ms)) (db w) = (ok, db w')" for ok
    using SavePodMetrics_ok [OF assms(1) that] d by (simp add: list_all_iff)
  ultimately have "metrics_ok (db w') \<and> subseq (db_times (db w') u c) (db_times (db w) u c @ posted ms u c)"
    using assms(1) SavePodMetrics_times [OF assms(1) d, of _ _ u c] by (auto simp: p)
  then show "metrics_ok (db w')" "subseq (db_times (db w') u c) (db_times (db w) u c @ posted ms u c)" by simp_all
qed

text \<open>A tick adds to the lists of its pods what is later than all it has seen.\<close>

lemma tick_collects:
  assumes "metrics_ok (db w)" "collector_tick Mn N mc (m, w) = (r, m', w')"
  shows "metrics_ok (db w') \<and> (\<forall>mc'. r = Returns mc' \<longrightarrow> podStats mc' = podStats mc) \<and>
    (\<forall>u c. \<exists>ts. stamped (conLastTime mc c) ts (conLastTime (case r of Crashes \<Rightarrow> mc | Returns mc' \<Rightarrow> mc') c) \<and>
       subseq (db_times (db w') u c) (db_times (db w) u c @ ts) \<and>
       (ts \<noteq> [] \<longrightarrow> (\<exists>sts. podStats mc = Some sts \<and> u \<in> ST_ID ` set sts)))"
proof (cases "\<exists>ms mc' m1 m2 sts. podStats mc = Some sts \<and> getMetrics Mn mc m1 = (Returns (ms, mc'), m2) \<and>
    r = Returns mc' \<and> w' = snd (uploadMetrics N ms w)")
  case True
  then obtain ms mc' m1 m2 sts where s: "podStats mc = Some sts" and
    g: "getMetrics Mn mc m1 = (Returns (ms, mc'), m2)" and r: "r = Returns mc'" and
    w': "w' = snd (uploadMetrics N ms w)" by blast
  from g s obtain seen where p: "pods_metrics Mn (cad_client mc) sts (conLastTime mc) m1 = (Returns (ms, seen), m2)"
    and mc': "mc' = mc\<lparr>conLastTime := seen\<rparr>"
    by (auto simp: getMetrics_def split: outcome.splits prod.splits)
  from pods_metrics_posts [OF p] have "list_all (\<lambda>p. distinct (map fst (infos p))) ms"
    "stamped (conLastTime mc c) (posted ms u c) (seen c)" "posted ms u c \<noteq> [] \<Longrightarrow> u \<in> ST_ID ` set sts" for u c
    by blast+
  with upload_keeps [OF assms(1) _ w'] s show ?thesis by (auto simp: r mc' intro!: exI [of _ "posted ms _ _"])
next
  case False
  then have "w' = w \<and> (r = Crashes \<or> r = Returns mc)"
    using assms(2) by (fastforce simp: collector_tick_def split: prod.splits option.splits if_splits outcome.splits)
  with assms(1) show ?thesis by (auto intro!: exI [of _ "[]"])
qed

definition in_order :: "(UID \<Rightarrow> nat) \<Rightarrow> nat set \<Rightarrow> ('m, 'c, 'w) collecting \<Rightarrow> bool" where
  "in_order node started s \<longleftrightarrow> metrics_ok (db (server s)) \<and> dom (collectors s) \<subseteq> started \<and>
     (\<forall>n mc sts. collectors s n = Some mc \<longrightarrow> podStats mc = Some sts \<longrightarrow> (\<forall>st\<in>set sts. node (ST_ID st) = n)) \<and>
     (\<forall>u c. (\<exists>l. stamped None (db_times (db (server s)) u c) l) \<and>
        (\<forall>mc. collectors s (node u) = Some mc \<longrightarrow> stamped None (db_times (db (server s)) u c) (conLastTime mc c)) \<and>
        (node u \<notin> started \<longrightarrow> db_times (db (server s)) u c = []))"

lemma in_order_start:
  assumes "in_order node started s" "n \<notin> started"
  shows "in_order node (insert n started) (collector_step M N (Start n) s)"
proof -
  obtain mc m' where i: "collector_init (M n) NewMetricsCollector (machines s) = (mc, m')" by fastforce
  then have mc: "conLastTime mc = Map.empty" "podStats mc = None"
    by (auto simp: collector_init_def Let_def split: prod.splits)
  show ?thesis using assms unfolding in_order_def by (auto simp: i mc split: if_splits)
qed

lemma in_order_pods:
  assumes "in_order node started s" "\<forall>st\<in>set sts. node (ST_ID st) = n"
  shows "in_order node started (collector_step M N (PodInfo n sts) s)"
proof (cases "collectors s n")
  case (Some mc)
  with assms(1) have "n \<in> started" by (auto simp: in_order_def)
  with assms Some show ?thesis unfolding in_order_def
    by (auto simp: SetPodInfo_def appended_def split: if_splits)
qed (use assms in simp)

lemma in_order_query:
  assumes "in_order node started s"
  shows "in_order node started (collector_step M N (Query q) s)"
proof -
  define w' where "w' = snd (stats_http N (GET_Stats q) (server s))"
  have k: "metrics_ok (db w')" "\<And>u c. subseq (db_times (db w') u c) (db_times (db (server s)) u c)"
    using query_keeps [OF _ w'_def] assms by (auto simp: in_order_def)
  have e: "db_times (db (server s)) u c = [] \<Longrightarrow> db_times (db w') u c = []" for u c using k(2) [of u c] by simp
  show ?thesis using assms k(1) stamped_subseq [OF _ k(2)] e unfolding in_order_def
    by (simp add: w'_def [symmetric]) blast
qed

lemma in_order_tick:
  assumes "in_order node started s"
  shows "in_order node started (collector_step M N (Tick n) s)"
proof (cases "collectors s n")
  case (Some mc)
  obtain r m' w' where t: "collector_tick (M n) N mc (machines s, server s) = (r, m', w')" by (cases "collector_tick (M n) N mc (machines s, server s)") auto
  define r' where "r' = (case r of Crashes \<Rightarrow> None | Returns mc' \<Rightarrow> Some mc')"
  define l where "l c = conLastTime (case r of Crashes \<Rightarrow> mc | Returns mc' \<Rightarrow> mc') c" for c
  have own: "podStats mc = Some sts \<Longrightarrow> u \<in> ST_ID ` set sts \<Longrightarrow> node u = n" for sts u
    using assms Some unfolding in_order_def by blast
  have n: "n \<in> started" and ok: "metrics_ok (db (server s))" and
    old: "\<exists>l. stamped None (db_times (db (server s)) u c) l" for u c
    using assms Some unfolding in_order_def by auto
  have seen: "stamped None (db_times (db (server s)) u c) (conLastTime mc c)" if "node u = n" for u c
    using assms Some that unfolding in_order_def by blast
  note k = tick_collects [OF ok t]
  have new: "node u = n \<and> stamped None (db_times (db w') u c) (l c) \<or>
      node u \<noteq> n \<and> subseq (db_times (db w') u c) (db_times (db (server s)) u c)" for u c
  proof -
    from k obtain ts where ts: "stamped (conLastTime mc c) ts (l c)"
      "subseq (db_times (db w') u c) (db_times (db (server s)) u c @ ts)"
      "ts \<noteq> [] \<longrightarrow> (\<exists>sts. podStats mc = Some sts \<and> u \<in> ST_ID ` set sts)" unfolding l_def by blast
    show ?thesis
    proof (cases "node u = n")
      case True
      from stamped_append [OF seen [OF True] ts(1)] True stamped_subseq [OF _ ts(2)] show ?thesis by blast
    next
      case False
      with own ts(3) have "ts = []" by blast
      with False ts(2) show ?thesis by simp
    qed
  qed
  have e: "\<exists>l. stamped None (db_times (db w') u c) l" for u c
    using new [of u c] old [of u c] stamped_subseq by blast
  have later: "stamped None (db_times (db w') u c) (conLastTime mc' c)"
    if "((collectors s)(n := r')) (node u) = Some mc'" for u c mc'
  proof (cases "node u = n")
    case True
    with that have "r = Returns mc'" by (auto simp: r'_def split: outcome.splits)
    with True new [of u c] show ?thesis by (simp add: l_def)
  next
    case False
    with that assms have "stamped None (db_times (db (server s)) u c) (conLastTime mc' c)"
      unfolding in_order_def by simp
    with False new [of u c] show ?thesis using stamped_subseq by blast
  qed
  have unstarted: "db_times (db w') u c = []" if "node u \<notin> started" for u c
    using assms that n new [of u c] unfolding in_order_def by auto
  have pods: "\<forall>st\<in>set sts. node (ST_ID st) = n'"
    if "((collectors s)(n := r')) n' = Some mc'" "podStats mc' = Some sts" for n' mc' sts
  proof (cases "n' = n")
    case True
    with that k have "podStats mc = Some sts" by (auto simp: r'_def split: outcome.splits)
    with own True show ?thesis by blast
  next
    case False
    with that assms show ?thesis unfolding in_order_def by simp
  qed
  have "dom ((collectors s)(n := r')) \<subseteq> started"
    using assms n unfolding in_order_def by (auto split: if_splits)
  moreover have "collector_step M N (Tick n) s = s\<lparr>collectors := (collectors s)(n := r'), machines := m', server := w'\<rparr>"
    by (simp add: Some t r'_def)
  ultimately show ?thesis using k e later unstarted pods unfolding in_order_def by (simp del: fun_upd_apply)
qed (use assms in simp)

lemma in_order_run:
  assumes "in_order node started s" "distinct (starts es)" "started \<inter> set (starts es) = {}"
    "\<forall>n sts st. PodInfo n sts \<in> set es \<longrightarrow> st \<in> set sts \<longrightarrow> node (ST_ID st) = n"
  shows "in_order node (started \<union> set (starts es)) (collector_run M N es s)"
  using assms
proof (induction es arbitrary: started s)
  case (Cons e es)
  have ih: "in_order node started' (collector_step M N e s) \<Longrightarrow> started' \<inter> set (starts es) = {} \<Longrightarrow> distinct (starts es) \<Longrightarrow>
      in_order node (started' \<union> set (starts es)) (collector_run M N (e # es) s)" for started'
    using Cons.IH [of started' "collector_step M N e s"] Cons.prems(4) by (simp add: collector_run_def)
  show ?case
  proof (cases e)
    case (Start n)
    with Cons.prems in_order_start [of node started s n M] ih [of "insert n started"] show ?thesis by auto
  next
    case (PodInfo n sts)
    with Cons.prems in_order_pods [of node started s sts n M] ih [of started] show ?thesis by auto
  next
    case (Tick n)
    with Cons.prems in_order_tick [of node started s M n] ih [of started] show ?thesis by auto
  next
    case (Query q)
    with Cons.prems in_order_query [of node started s M q] ih [of started] show ?thesis by auto
  qed
qed (simp add: collector_run_def)

lemma nil_stays_served:
  assumes "stats_http N q w = (r, w')" "db w u = Some p" "ContainerInfo p = None"
  shows "db w' u = Some p"
proof -
  from stats_served [OF assms(1)] have "db w' = db w \<or> (\<exists>i t n r. GetPodMetrics i t n (db w) = (r, db w')) \<or>
      (\<exists>items ok. SavePodMetrics items (db w) = (ok, db w'))"
    by (cases q) (auto simp: GetStatsDataHandler_def AddStatsDataHandler_def split: option.splits prod.splits query_result.splits if_splits)
  with assms(2,3) GetPodMetrics_nil_stays SavePodMetrics_nil_stays show ?thesis by metis
qed

lemma upload_nil_stays:
  "db w u = Some p \<Longrightarrow> ContainerInfo p = None \<Longrightarrow> db (snd (uploadMetrics N ms w)) u = Some p"
  by (cases "stats_http N (POST_Stats (Some (map (\<lambda>p. Some (wire_Metrics p)) ms))) w")
    (auto simp: uploadMetrics_def client_UploadPodMetrics_def split: sum.splits dest: nil_stays_served)

lemma nil_stays_step:
  assumes "db (server s) u = Some p" "ContainerInfo p = None"
  shows "db (server (collector_step M N e s)) u = Some p"
proof (cases e)
  case (Query q)
  with assms show ?thesis by (cases "stats_http N (GET_Stats q) (server s)") (auto dest: nil_stays_served)
next
  case (Tick n)
  have "db (snd (snd (collector_tick (M n) N mc (machines s, server s)))) u = Some p" for mc
    using assms(1) upload_nil_stays [OF assms] by (simp add: collector_tick_def split: prod.split option.split outcome.split)
  with Tick assms(1) show ?thesis by (simp split: option.split) (auto split: prod.splits, metis snd_conv)
qed (use assms in \<open>auto split: option.splits prod.splits\<close>)

lemma nil_stays_run:
  "db (server s) u = Some p \<Longrightarrow> ContainerInfo p = None \<Longrightarrow> db (server (collector_run M N es s)) u = Some p"
  by (induction es arbitrary: s) (auto simp: collector_run_def nil_stays_step)

end

interpretation direct_metrics: metrics_network "direct_net E draw" "\<lambda>w. snd (snd w)" for E :: "'v env" and draw
  by unfold_locales (auto simp: direct_net_def split: prod.splits)


section \<open>Properties\<close>

text \<open>
  C38. Whatever cAdvisor returns and whichever requests get lost: while every kubelet starts at most
  once and reports its own pods, the database keeps the records of each container in the strict
  order of their time stamps, so none twice, and every query returns exactly its window.
\<close>

theorem collected_metrics_exact:
  assumes "metrics_network N db" "distinct (starts events)"
    "\<forall>n sts st. PodInfo n sts \<in> set events \<longrightarrow> st \<in> set sts \<longrightarrow> node (ST_ID st) = n"
    "db w = Map.empty" "s = collector_run M N events \<lparr>collectors = Map.empty, machines = m, server = w\<rparr>"
    "db (server s) u = Some p" "infos p \<noteq> []" "0 \<le> n"
  shows "sorted_wrt (<) (map Item_TimeStamp (mlist (infos p) c)) \<and>
    (\<exists>p'. GetPodMetrics u t n (db (server s)) = (Found p', (db (server s))(u \<mapsto> p')) \<and>
      (\<forall>c. mlist (infos p') c = filter (in_window t n) (mlist (infos p) c)))"
proof -
  have "metrics_network.in_order db node {} \<lparr>collectors = Map.empty, machines = m, server = w\<rparr>"
    by (simp add: metrics_network.in_order_def [OF assms(1)] assms(4) metrics_ok_def db_times_def)
  from metrics_network.in_order_run [OF assms(1) this assms(2) _ assms(3)]
  have "metrics_network.in_order db node (set (starts events)) s" by (simp add: assms(5))
  then have ok: "metrics_ok (db (server s))" and st: "\<exists>l. stamped None (db_times (db (server s)) u c) l" for c
    by (auto simp: metrics_network.in_order_def [OF assms(1)])
  have o: "sorted_wrt (<) (map Item_TimeStamp (mlist (infos p) c))" for c
    using st [of c] assms(6) by (auto simp: stamped_def db_times_def times_of_def)
  have d: "distinct (map fst (infos p))" using ok assms(6) by (simp add: metrics_ok_def)
  have "\<forall>x\<in>set (infos p). sorted (map Item_TimeStamp (snd x))"
    using infos_entry [OF d] o strict_sorted_imp_sorted by (metis prod.collapse)
  from GetPodMetrics_spec [where db = "db (server s)", OF assms(6,7) d assms(8) this, of t] o show ?thesis by blast
qed

text \<open>A machine where cAdvisor runs and has three samples, the first without the CPU use.\<close>

definition demo_sample :: "time \<Rightarrow> Sample" where
  "demo_sample t = \<lparr>CpuInst = Some 0, Sample_Memory = Some 0, Sample_Timestamp = t\<rparr>"

definition demo_machine :: "(unit, unit) machine" where
  "demo_machine = \<lparr>Command = (\<lambda>_ _ m. ((''cadvisor'', '''', None), m)), NewCadvisor = (\<lambda>_ m. ((Some (), None), m)),
     Stats = (\<lambda>_ p m. (Returns ([(p, [(demo_sample 0)\<lparr>CpuInst := None\<rparr>, demo_sample 1, demo_sample 2])], None), m))\<rparr>"

definition demo_status :: "ContainerState \<Rightarrow> RuntimeStatus" where
  "demo_status st = \<lparr>ST_ID = ''p1'', ST_Name = ''p'', ST_Namespace = ''default'', IPs = [],
     ContainerStatuses = [zero_ContainerStatus\<lparr>CS_ID := ''c'', CS_State := st\<rparr>], ST_TimeStamp = 0\<rparr>"

definition demo_collecting :: "(unit, unit, (string, document) gomap \<times> nat \<times> metricsDb) collecting" where
  "demo_collecting = \<lparr>collectors = Map.empty, machines = (), server = ([], 0, Map.empty)\<rparr>"

abbreviation demo_collect :: "collector_event list \<Rightarrow> (unit, unit, (string, document) gomap \<times> nat \<times> metricsDb) collecting" where
  "demo_collect events \<equiv> collector_run (\<lambda>_. demo_machine) demo_net events demo_collecting"

definition demo_rounds :: "collector_event list" where
  "demo_rounds = [Start 0, PodInfo 0 [demo_status ContainerStateRunning], Tick 0, Tick 0]"

lemma convert_0: "1 \<le> d \<Longrightarrow> convert 0 d = 0"
  by (simp add: convert_def round32_def)

lemma demo_machine_simps [simp]:
  "CheckAlive demo_machine mc m = (None, m)"
  "NewCadvisor demo_machine url m = ((Some (), None), m)"
  "Stats demo_machine client p m =
     (Returns ([(p, [(demo_sample 0)\<lparr>CpuInst := None\<rparr>, demo_sample 1, demo_sample 2])], None), m)"
  by (simp_all add: CheckAlive_def demo_machine_def)

lemma demo_init: "collector_init demo_machine mc m =
    (mc\<lparr>cad_client := Some (), conLastTime := Map.empty, podStats := None\<rparr>, m)"
  by (simp add: collector_init_def)

lemmas demo_collect_defs = collector_run_def demo_init NewMetricsCollector_def
  demo_collecting_def demo_net_def direct_net_def collector_tick_def getMetrics_def collect_container_def
  collect_sample_def item_of_def demo_sample_def convert_0 demo_status_def zero_ContainerStatus_def SetPodInfo_def
  appended_def uploadMetrics_def client_UploadPodMetrics_def wire_Metrics_def norm_map_def AddStatsDataHandler_def
  save_item_def infos_def mlist_def db_times_def times_of_def set_info_def Let_def

definition demo_stored :: PodRawMetrics where
  "demo_stored = \<lparr>Metrics_UID = ''p1'', ContainerInfo = Some [(''c'',
     [\<lparr>Item_TimeStamp = 1, CPUUsage = 0, MemoryUsage = 0\<rparr>, \<lparr>Item_TimeStamp = 2, CPUUsage = 0, MemoryUsage = 0\<rparr>])]\<rparr>"

lemma demo_rounds_stored: "snd (snd (server (demo_collect demo_rounds))) ''p1'' = Some demo_stored"
  by (simp add: demo_collect_defs demo_rounds_def demo_stored_def)

text \<open>A kubelet that starts again posts what is already there.\<close>

lemma restarted_kubelet_repeats:
  "db_times (snd (snd (server (demo_collect (demo_rounds @ demo_rounds))))) ''p1'' ''c'' = [1, 2, 1, 2]"
  by (simp add: demo_collect_defs demo_rounds_def)

theorem collected_metrics_exact_witness:
  "sorted_wrt (<) (map Item_TimeStamp (mlist (infos demo_stored) ''c'')) \<and>
   (\<exists>p'. GetPodMetrics ''p1'' Second 1 (snd (snd (server (demo_collect demo_rounds)))) =
       (Found p', (snd (snd (server (demo_collect demo_rounds))))(''p1'' \<mapsto> p')) \<and>
     (\<forall>c. mlist (infos p') c = filter (in_window Second 1) (mlist (infos demo_stored) c)))"
proof (rule collected_metrics_exact [where node = "\<lambda>_. 0"])
  show "metrics_network demo_net (\<lambda>w. snd (snd w))"
    unfolding demo_net_def by (rule direct_metrics.metrics_network_axioms)
  show "snd (snd ([] :: (string, document) gomap, 0 :: nat, Map.empty)) = (Map.empty :: metricsDb)" by simp
  show "demo_collect demo_rounds =
      collector_run (\<lambda>_. demo_machine) demo_net demo_rounds \<lparr>collectors = Map.empty, machines = (), server = ([], 0, Map.empty)\<rparr>"
    by (simp add: demo_collecting_def)
qed (simp_all only: demo_rounds_stored, simp_all add: demo_rounds_def demo_stored_def infos_def)

text \<open>
  C39. A pod that the database holds without a map of containers, as the first round leaves it when it finds
  no running container (see the witness), never gets a record: whatever the kubelets collect later, the
  autoscaler is told that there is nothing.
\<close>

theorem waiting_pod_never_measured:
  assumes "metrics_network N db" "db (server s) u = Some p" "ContainerInfo p = None"
  shows "fst (GetPodMetrics u t n (db (server (collector_run M N events s)))) = NotFound ''containerInfo is empty''"
  using metrics_network.nil_stays_run [OF assms, of M events] assms(3) by (simp add: GetPodMetrics_def)

definition demo_waiting :: "collector_event list" where
  "demo_waiting = [Start 0, PodInfo 0 [demo_status ContainerStateCreated], Tick 0]"

theorem waiting_pod_never_measured_witness:
  "fst (GetPodMetrics ''p1'' Second 1 (snd (snd (server (collector_run (\<lambda>_. demo_machine) demo_net
     [PodInfo 0 [demo_status ContainerStateRunning], Tick 0] (demo_collect demo_waiting)))))) =
   NotFound ''containerInfo is empty''"
proof (rule waiting_pod_never_measured)
  show "metrics_network demo_net (\<lambda>w. snd (snd w))"
    unfolding demo_net_def by (rule direct_metrics.metrics_network_axioms)
  show "snd (snd (server (demo_collect demo_waiting))) ''p1'' = Some \<lparr>Metrics_UID = ''p1'', ContainerInfo = None\<rparr>"
    by (simp add: demo_collect_defs demo_waiting_def)
qed simp

end
