(* ===== verification/Proxy_Watch.thy ===== *)
theory Proxy_Watch
  imports Kubelet_Runtime
begin

text \<open>
  The half of the kube-proxy that watches the API server (\<open>pkg/kubeproxy/app/server.go\<close>, \<open>pkg/kubeproxy/types\<close>): from the pods and the
  services it computes the endpoints of every service, and it sends what has changed since the last round.
  Go visits the entries of a map in any order and \<open>sort.Slice\<close> may put equal elements in any order: both
  are parameters, the record \<open>choices\<close>. Left out: flags, signals, timers and the mock data.
\<close>

section \<open>Types\<close>

record BackendPort =
  BP_Port :: int
  BP_Protocol :: Protocol

record Backend =
  BE_IP :: string
  BE_Ports :: "BackendPort list"

record ServiceItem =
  Item_Service :: Service
  Item_Endpoints :: "Backend list"

type_synonym ServiceOperation = string

definition ServiceAdd :: ServiceOperation where [simp]: "ServiceAdd = ''ServiceAdd''"
definition ServiceDelete :: ServiceOperation where [simp]: "ServiceDelete = ''ServiceDelete''"
definition ServiceEndpointsUpdate :: ServiceOperation where [simp]: "ServiceEndpointsUpdate = ''ServiceEndpointsUpdate''"

record ServiceUpdateSingle =
  Update_Service :: Service
  EndpointAdditions :: "Backend list"
  EndpointDeletions :: "Backend list"

record ServiceUpdate =
  Updates :: "ServiceUpdateSingle list"
  Update_Op :: ServiceOperation

type_synonym DNSOperation = string

definition DNSAdd :: DNSOperation where [simp]: "DNSAdd = ''DNSAdd''"
definition DNSDelete :: DNSOperation where [simp]: "DNSDelete = ''DNSDelete''"

record DNSUpdate =
  Update_DNS :: "DNS list"
  DNS_Op :: DNSOperation

record choices =
  visit_services :: "(UID, ServiceItem) gomap \<Rightarrow> (UID, ServiceItem) gomap"
  visit_dns :: "(UID, DNS) gomap \<Rightarrow> (UID, DNS) gomap"
  visit_ips :: "(string, BackendPort list) gomap \<Rightarrow> (string, BackendPort list) gomap"
  sort_ports :: "BackendPort list \<Rightarrow> BackendPort list"

definition fair_choices :: "choices \<Rightarrow> bool" where
  "fair_choices V \<longleftrightarrow> (\<forall>m. mset (visit_services V m) = mset m) \<and> (\<forall>m. mset (visit_dns V m) = mset m) \<and>
     (\<forall>m. mset (visit_ips V m) = mset m) \<and>
     (\<forall>ps. mset (sort_ports V ps) = mset ps \<and> sorted_wrt (\<lambda>p q. BP_Port p \<le> BP_Port q) (sort_ports V ps))"

section \<open>Endpoints of a service\<close>

definition isSelectorMatched :: "Pod \<Rightarrow> Service \<Rightarrow> bool" where
  "isSelectorMatched pod svc \<longleftrightarrow> (\<forall>(key, val) \<in> set (Selector (Svc_Spec svc)).
     (case Labels (Pod_Meta pod) of None \<Rightarrow> False | Some labels \<Rightarrow> map_of labels key = Some val))"

text \<open>The loop \<open>SearchLoop\<close>: whether some container of the pod has the port.\<close>

definition has_port :: "Pod \<Rightarrow> ServicePort \<Rightarrow> bool" where
  "has_port pod port \<longleftrightarrow> (\<exists>c\<in>set (Containers (Pod_Spec pod)). \<exists>cp\<in>set (Container_Ports c).
     ContainerPort_Port cp = TargetPort port \<and> ContainerPort_Protocol cp = ServicePort_Protocol port)"

definition backend_ports :: "Pod \<Rightarrow> Service \<Rightarrow> BackendPort list" where
  "backend_ports pod service = map (\<lambda>port. \<lparr>BP_Port = TargetPort port, BP_Protocol = ServicePort_Protocol port\<rparr>)
     (filter (has_port pod) (Service_Ports (Svc_Spec service)))"

definition serves :: "Pod \<Rightarrow> Service \<Rightarrow> bool" where
  "serves pod service \<longleftrightarrow> isSelectorMatched pod service \<and> Phase (Pod_Status pod) = PodRunning \<and> PodIP (Pod_Status pod) \<noteq> ''''"

definition service_item :: "Pod list \<Rightarrow> Service \<Rightarrow> ServiceItem" where
  "service_item pods service = \<lparr>Item_Service = service,
     Item_Endpoints = map (\<lambda>pod. \<lparr>BE_IP = PodIP (Pod_Status pod), BE_Ports = backend_ports pod service\<rparr>)
       (filter (\<lambda>pod. serves pod service) pods)\<rparr>"

definition service_items :: "Pod list \<Rightarrow> Service list \<Rightarrow> (UID, ServiceItem) gomap" where
  "service_items pods services = fold (\<lambda>service. mput (MetaUID (Svc_Meta service)) (service_item pods service)) services []"

section \<open>Differences\<close>

text \<open>
  \<open>isEndpointPortsEqual\<close> sorts the slices it is given; the second component is what the new slice holds afterwards.
\<close>

definition isEndpointPortsEqual :: "choices \<Rightarrow> BackendPort list \<Rightarrow> BackendPort list \<Rightarrow> bool" where
  "isEndpointPortsEqual V a b \<longleftrightarrow> length a = length b \<and> list_all2 (=) (sort_ports V a) (sort_ports V b)"

definition sorted_slice :: "choices \<Rightarrow> BackendPort list \<Rightarrow> BackendPort list \<Rightarrow> BackendPort list" where
  "sorted_slice V other ps = (if length other = length ps then sort_ports V ps else ps)"

definition ip_ports :: "Backend list \<Rightarrow> (string, BackendPort list) gomap" where
  "ip_ports eps = fold (\<lambda>ep. mput (BE_IP ep) (BE_Ports ep)) eps []"

text \<open>The loop over the old addresses: the deletions, and the additions for changed ports.\<close>

definition changed_ip :: "choices \<Rightarrow> (string, BackendPort list) gomap \<Rightarrow> string \<times> BackendPort list \<Rightarrow> bool" where
  "changed_ip V newIPMap = (\<lambda>(ip, oldPorts). case map_of newIPMap ip of
     None \<Rightarrow> True | Some newPorts \<Rightarrow> \<not> isEndpointPortsEqual V oldPorts newPorts)"

definition calculateDiff :: "choices \<Rightarrow> ServiceItem option \<Rightarrow> ServiceItem \<Rightarrow> bool \<times> ServiceUpdateSingle \<times> ServiceOperation" where
  "calculateDiff V oldItem newItem =
     (let op = (if oldItem = None then ServiceAdd else ServiceEndpointsUpdate);
          oldIPMap = ip_ports (case oldItem of None \<Rightarrow> [] | Some item \<Rightarrow> Item_Endpoints item);
          newIPMap = ip_ports (Item_Endpoints newItem);
          changed = filter (changed_ip V newIPMap) (visit_ips V oldIPMap);
          deletions = map (\<lambda>(ip, oldPorts). \<lparr>BE_IP = ip, BE_Ports = (case map_of newIPMap ip of
              None \<Rightarrow> oldPorts | Some newPorts \<Rightarrow> sorted_slice V newPorts oldPorts)\<rparr>) changed;
          replaced = map (\<lambda>(ip, oldPorts). \<lparr>BE_IP = ip,
              BE_Ports = sorted_slice V oldPorts (the (map_of newIPMap ip))\<rparr>)
            (filter (\<lambda>(ip, oldPorts). map_of newIPMap ip \<noteq> None) changed);
          fresh = map (\<lambda>(ip, newPorts). \<lparr>BE_IP = ip, BE_Ports = newPorts\<rparr>)
            (filter (\<lambda>(ip, newPorts). map_of oldIPMap ip = None) (visit_ips V newIPMap))
      in (oldItem = None \<or> changed \<noteq> [] \<or> fresh \<noteq> [],
          \<lparr>Update_Service = Item_Service newItem, EndpointAdditions = replaced @ fresh, EndpointDeletions = deletions\<rparr>, op))"

text \<open>
  What the new item holds after the comparison: slices that were compared are sorted in place. Of several endpoints with one
  address only the last is in the table of addresses.
\<close>

fun settle_ports :: "choices \<Rightarrow> (string, BackendPort list) gomap \<Rightarrow> Backend list \<Rightarrow> Backend list" where
  "settle_ports V oldIPMap [] = []"
| "settle_ports V oldIPMap (ep # eps) =
     (if BE_IP ep \<in> BE_IP ` set eps then ep
      else case map_of oldIPMap (BE_IP ep) of None \<Rightarrow> ep
        | Some oldPorts \<Rightarrow> ep\<lparr>BE_Ports := sorted_slice V oldPorts (BE_Ports ep)\<rparr>) # settle_ports V oldIPMap eps"

definition settle_item :: "choices \<Rightarrow> ServiceItem option \<Rightarrow> ServiceItem \<Rightarrow> ServiceItem" where
  "settle_item V oldItem newItem = newItem\<lparr>Item_Endpoints :=
     settle_ports V (ip_ports (case oldItem of None \<Rightarrow> [] | Some item \<Rightarrow> Item_Endpoints item)) (Item_Endpoints newItem)\<rparr>"

section \<open>The watcher\<close>

record ProxyServer =
  latestItems :: "(UID, ServiceItem) gomap"
  latestDNS :: "(UID, DNS) gomap"

definition NewProxyServer :: ProxyServer where
  "NewProxyServer = \<lparr>latestItems = [], latestDNS = []\<rparr>"

definition send_some :: "ServiceOperation \<Rightarrow> ServiceUpdateSingle list \<Rightarrow> ServiceUpdate list" where
  "send_some op us = (if length us > 0 then [\<lparr>Updates = us, Update_Op = op\<rparr>] else [])"

text \<open>The part of \<open>updateService\<close> after the new table is made.\<close>

definition service_updates :: "choices \<Rightarrow> (UID, ServiceItem) gomap \<Rightarrow> (UID, ServiceItem) gomap \<Rightarrow> ServiceUpdate list" where
  "service_updates V old newMap =
     (let deletions = map (\<lambda>(u, oldItem). \<lparr>Update_Service = Item_Service oldItem, EndpointAdditions = [], EndpointDeletions = []\<rparr>)
            (filter (\<lambda>(u, oldItem). map_of newMap u = None) (visit_services V old));
          diffs = filter fst (map (\<lambda>(u, newItem). calculateDiff V (map_of old u) newItem) (visit_services V newMap));
          additions = map (fst \<circ> snd) (filter (\<lambda>(diff, update, op). op = ServiceAdd) diffs);
          endpointUpdates = map (fst \<circ> snd) (filter (\<lambda>(diff, update, op). op \<noteq> ServiceAdd) diffs)
      in send_some ServiceAdd additions @ send_some ServiceDelete deletions @ send_some ServiceEndpointsUpdate endpointUpdates)"

definition settle_items :: "choices \<Rightarrow> (UID, ServiceItem) gomap \<Rightarrow> (UID, ServiceItem) gomap \<Rightarrow> (UID, ServiceItem) gomap" where
  "settle_items V old newMap = map (\<lambda>(u, newItem). (u, settle_item V (map_of old u) newItem)) newMap"

definition updateService :: "'w net \<Rightarrow> choices \<Rightarrow> ProxyServer \<Rightarrow> 'w \<Rightarrow> (ServiceUpdate list \<times> ProxyServer) \<times> 'w" where
  "updateService N V ps w = (case client_GetAllPods N w of ((pods, err), w1) \<Rightarrow>
     if err \<noteq> None then (([], ps), w1)
     else (case client_GetAllServices N w1 of ((services, err), w2) \<Rightarrow>
       if err \<noteq> None then (([], ps), w2)
       else let newMap = service_items pods services in
         ((service_updates V (latestItems ps) newMap, ps\<lparr>latestItems := settle_items V (latestItems ps) newMap\<rparr>), w2)))"

definition dns_map :: "DNS list \<Rightarrow> (UID, DNS) gomap" where
  "dns_map dnsSlice = fold (\<lambda>dns. mput (MetaUID (DNS_Meta dns)) dns) dnsSlice []"

definition updateDNS :: "'w net \<Rightarrow> choices \<Rightarrow> ProxyServer \<Rightarrow> 'w \<Rightarrow> (DNSUpdate list \<times> ProxyServer) \<times> 'w" where
  "updateDNS N V ps w = (case client_GetAllDNS N w of ((dnsSlice, err), w1) \<Rightarrow>
     if err \<noteq> None then (([], ps), w1)
     else let newMap = dns_map dnsSlice;
         dnsDeletions = map snd (filter (\<lambda>(u, dns). map_of newMap u = None) (visit_dns V (latestDNS ps)));
         dnsAdditions = map snd (filter (\<lambda>(u, dns). map_of (latestDNS ps) u = None) (visit_dns V newMap))
       in (((if length dnsAdditions > 0 then [\<lparr>Update_DNS = dnsAdditions, DNS_Op = DNSAdd\<rparr>] else []) @
            (if length dnsDeletions > 0 then [\<lparr>Update_DNS = dnsDeletions, DNS_Op = DNSDelete\<rparr>] else []),
           ps\<lparr>latestDNS := newMap\<rparr>), w1))"

text \<open>
  \<open>watchApiServer\<close>: for every round what it sends and the state after it, with whatever happens to the world before the round.
\<close>

fun proxy_rounds :: "'w net \<Rightarrow> (choices \<times> ('w \<Rightarrow> 'w)) list \<Rightarrow> ProxyServer \<Rightarrow> 'w \<Rightarrow>
    (ServiceUpdate list \<times> DNSUpdate list \<times> ProxyServer) list" where
  "proxy_rounds N [] ps w = []"
| "proxy_rounds N ((V, env) # envs) ps w = (case updateService N V ps (env w) of ((sups, ps1), w1) \<Rightarrow>
     (case updateDNS N V ps1 w1 of ((dups, ps2), w2) \<Rightarrow> (sups, dups, ps2) # proxy_rounds N envs ps2 w2))"

end
