(* ===== verification/Proxy_Diff.thy ===== *)
theory Proxy_Diff
  imports Proxy_Watch
begin

text \<open>
  What the differences that the watcher sends amount to: taking the deleted pairs of address and port away from the old ones and adding the
  new ones gives the pairs of the new endpoints.
\<close>

definition pairs :: "Backend list \<Rightarrow> (string \<times> BackendPort) set" where
  "pairs eps = {(BE_IP ep, q) | ep q. ep \<in> set eps \<and> q \<in> set (BE_Ports ep)}"

text \<open>The pairs of an item: of several endpoints with one address the last one counts.\<close>

definition backend_pairs :: "ServiceItem \<Rightarrow> (string \<times> BackendPort) set" where
  "backend_pairs item = {(ip, q) | ip q ps. map_of (ip_ports (Item_Endpoints item)) ip = Some ps \<and> q \<in> set ps}"

definition old_pairs :: "ServiceItem option \<Rightarrow> (string \<times> BackendPort) set" where
  "old_pairs item = (case item of None \<Rightarrow> {} | Some i \<Rightarrow> backend_pairs i)"

text \<open>The addresses that serve a port.\<close>

definition ips_at :: "(string \<times> BackendPort) set \<Rightarrow> int \<Rightarrow> string set" where
  "ips_at X port = {ip. \<exists>q. (ip, q) \<in> X \<and> BP_Port q = port}"

lemma pairs_append [simp]: "pairs (xs @ ys) = pairs xs \<union> pairs ys"
  by (auto simp: pairs_def)

lemma pairs_map: "(ip, q) \<in> pairs (map (\<lambda>(ip, x). \<lparr>BE_IP = ip, BE_Ports = f ip x\<rparr>) xs) \<longleftrightarrow> (\<exists>x. (ip, x) \<in> set xs \<and> q \<in> set (f ip x))"
  unfolding pairs_def by (force simp: image_iff)

lemma ip_ports_lookup: "map_of (ip_ports eps) = map_of (rev (map (\<lambda>ep. (BE_IP ep, BE_Ports ep)) eps))"
  unfolding ip_ports_def by (subst map_of_fold_mput) simp

lemma ip_ports_distinct: "distinct (map fst (ip_ports eps))"
  unfolding ip_ports_def by (rule distinct_fold_mput) simp

lemma ip_ports_set: "(ip, ps) \<in> set (ip_ports eps) \<longleftrightarrow> map_of (ip_ports eps) ip = Some ps"
  using ip_ports_distinct by (simp add: map_of_distinct_iff)

lemma fair_sets:
  assumes "fair_choices V"
  shows "set (visit_services V m) = set m" "set (visit_dns V d) = set d" "set (visit_ips V i) = set i" "set (sort_ports V ps) = set ps"
    "mset (visit_services V m) = mset m"
  using assms unfolding fair_choices_def by (metis set_mset_mset)+

lemma isEndpointPortsEqual_set: "fair_choices V \<Longrightarrow> isEndpointPortsEqual V a b \<Longrightarrow> set a = set b"
  unfolding isEndpointPortsEqual_def list.rel_eq by (metis fair_sets(4))

lemma isEndpointPortsEqual_refl: "isEndpointPortsEqual V a a"
  by (simp add: isEndpointPortsEqual_def list.rel_eq)

lemma sorted_slice_set [simp]: "fair_choices V \<Longrightarrow> set (sorted_slice V other ps) = set ps"
  by (simp add: sorted_slice_def fair_sets)

lemma settle_ports_IPs: "BE_IP ` set (settle_ports V m eps) = BE_IP ` set eps"
  by (induction eps) (auto split: option.splits)

definition port_set :: "Backend list \<Rightarrow> string \<Rightarrow> BackendPort set option" where
  "port_set eps ip = map_option set (map_of (ip_ports eps) ip)"

lemma port_set_Nil [simp]: "port_set [] ip = None"
  by (simp add: port_set_def ip_ports_def)

lemma port_set_Cons [simp]: "port_set (e # es) ip = (case port_set es ip of
    None \<Rightarrow> if BE_IP e = ip then Some (set (BE_Ports e)) else None | Some S \<Rightarrow> Some S)"
  unfolding port_set_def ip_ports_lookup by (simp add: map_add_def split: option.splits)

lemma backend_pairs_iff: "(ip, q) \<in> backend_pairs item \<longleftrightarrow>
    (case port_set (Item_Endpoints item) ip of None \<Rightarrow> False | Some S \<Rightarrow> q \<in> S)"
  unfolding backend_pairs_def port_set_def by (cases "map_of (ip_ports (Item_Endpoints item)) ip") simp_all

lemma settle_port_set:
  assumes "fair_choices V"
  shows "port_set (settle_ports V m eps) ip = port_set eps ip"
proof (induction eps)
  case (Cons ep eps)
  define ep' where "ep' = (if BE_IP ep \<in> BE_IP ` set eps then ep
      else case map_of m (BE_IP ep) of None \<Rightarrow> ep | Some oldPorts \<Rightarrow> ep\<lparr>BE_Ports := sorted_slice V oldPorts (BE_Ports ep)\<rparr>)"
  have "BE_IP ep' = BE_IP ep" "set (BE_Ports ep') = set (BE_Ports ep)"
    using assms by (auto simp: ep'_def split: option.splits)
  moreover have "settle_ports V m (ep # eps) = ep' # settle_ports V m eps" by (simp add: ep'_def)
  ultimately show ?case using Cons.IH by (simp cong: option.case_cong)
qed simp

lemma settle_item_same [simp]:
  assumes "fair_choices V"
  shows "Item_Service (settle_item V old item) = Item_Service item" "backend_pairs (settle_item V old item) = backend_pairs item"
proof -
  have "(ip, q) \<in> backend_pairs (settle_item V old item) \<longleftrightarrow> (ip, q) \<in> backend_pairs item" for ip q
    unfolding backend_pairs_iff by (simp add: settle_item_def settle_port_set [OF assms])
  then show "backend_pairs (settle_item V old item) = backend_pairs item" by auto
qed (simp add: settle_item_def)

section \<open>The differences of one service\<close>

lemma calculateDiff_simps:
  assumes "calculateDiff V old new = (diff, u, op)"
  shows "Update_Service u = Item_Service new" "op = (if old = None then ServiceAdd else ServiceEndpointsUpdate)"
    "old = None \<Longrightarrow> diff" "\<not> diff \<Longrightarrow> EndpointAdditions u = [] \<and> EndpointDeletions u = []"
  using assms by (auto simp: calculateDiff_def Let_def filter_empty_conv)

lemma calculateDiff_pairs:
  assumes V: "fair_choices V" and d: "calculateDiff V old new = (diff, u, op)"
  defines "oldMap \<equiv> ip_ports (case old of None \<Rightarrow> [] | Some item \<Rightarrow> Item_Endpoints item)"
    and "newMap \<equiv> ip_ports (Item_Endpoints new)"
  shows "(ip, q) \<in> pairs (EndpointDeletions u) \<longleftrightarrow>
      (\<exists>ps. map_of oldMap ip = Some ps \<and> q \<in> set ps \<and> changed_ip V newMap (ip, ps))"
    and "(ip, q) \<in> pairs (EndpointAdditions u) \<longleftrightarrow>
      (\<exists>ps. map_of newMap ip = Some ps \<and> q \<in> set ps \<and>
        (case map_of oldMap ip of None \<Rightarrow> True | Some ops \<Rightarrow> changed_ip V newMap (ip, ops)))"
proof -
  have vis: "(i, ps) \<in> set (visit_ips V (ip_ports eps)) \<longleftrightarrow> map_of (ip_ports eps) i = Some ps" for i ps eps
    by (simp only: fair_sets [OF V] ip_ports_set)
  let ?O = "visit_ips V oldMap" and ?N = "visit_ips V newMap"
  have u: "EndpointDeletions u = map (\<lambda>(ip, oldPorts). \<lparr>BE_IP = ip, BE_Ports = (case map_of newMap ip of
              None \<Rightarrow> oldPorts | Some newPorts \<Rightarrow> sorted_slice V newPorts oldPorts)\<rparr>) (filter (changed_ip V newMap) ?O)"
    "EndpointAdditions u = map (\<lambda>(ip, oldPorts). \<lparr>BE_IP = ip, BE_Ports = sorted_slice V oldPorts (the (map_of newMap ip))\<rparr>)
        (filter (\<lambda>(ip, oldPorts). map_of newMap ip \<noteq> None) (filter (changed_ip V newMap) ?O)) @
      map (\<lambda>(ip, newPorts). \<lparr>BE_IP = ip, BE_Ports = newPorts\<rparr>) (filter (\<lambda>(ip, newPorts). map_of oldMap ip = None) ?N)"
    using d unfolding calculateDiff_def Let_def oldMap_def newMap_def by auto
  have vO: "(i, ps) \<in> set ?O \<longleftrightarrow> map_of oldMap i = Some ps" and vN: "(i, ps) \<in> set ?N \<longleftrightarrow> map_of newMap i = Some ps" for i ps
    by (simp_all only: oldMap_def newMap_def vis)
  show "(ip, q) \<in> pairs (EndpointDeletions u) \<longleftrightarrow>
      (\<exists>ps. map_of oldMap ip = Some ps \<and> q \<in> set ps \<and> changed_ip V newMap (ip, ps))"
  proof -
    have "set (case map_of newMap i of None \<Rightarrow> ps | Some ns \<Rightarrow> sorted_slice V ns ps) = set ps" for i ps
      using V by (simp split: option.splits)
    then show ?thesis unfolding u(1) pairs_map by (auto simp: vO)
  qed
  have "(ip, q) \<in> pairs (EndpointAdditions u) \<longleftrightarrow>
      (\<exists>ops. map_of oldMap ip = Some ops \<and> changed_ip V newMap (ip, ops) \<and> map_of newMap ip \<noteq> None \<and> q \<in> set (the (map_of newMap ip))) \<or>
      (\<exists>ps. map_of newMap ip = Some ps \<and> map_of oldMap ip = None \<and> q \<in> set ps)"
    unfolding u(2) pairs_append Un_iff pairs_map using V by (auto simp: vO vN)
  then show "(ip, q) \<in> pairs (EndpointAdditions u) \<longleftrightarrow>
      (\<exists>ps. map_of newMap ip = Some ps \<and> q \<in> set ps \<and>
        (case map_of oldMap ip of None \<Rightarrow> True | Some ops \<Rightarrow> changed_ip V newMap (ip, ops)))"
    by (cases "map_of oldMap ip"; cases "map_of newMap ip") auto
qed

lemma old_pairs_iff: "(ip, q) \<in> old_pairs old \<longleftrightarrow>
    (\<exists>ps. map_of (ip_ports (case old of None \<Rightarrow> [] | Some item \<Rightarrow> Item_Endpoints item)) ip = Some ps \<and> q \<in> set ps)"
  by (cases old) (auto simp: old_pairs_def backend_pairs_def ip_ports_def)

lemma new_pairs_iff: "(ip, q) \<in> backend_pairs new \<longleftrightarrow> (\<exists>ps. map_of (ip_ports (Item_Endpoints new)) ip = Some ps \<and> q \<in> set ps)"
  by (simp add: backend_pairs_def)

lemma calculateDiff_sub:
  assumes "fair_choices V" "calculateDiff V old new = (diff, u, op)"
  shows "pairs (EndpointDeletions u) \<subseteq> old_pairs old" "pairs (EndpointAdditions u) \<subseteq> backend_pairs new"
proof -
  show "pairs (EndpointDeletions u) \<subseteq> old_pairs old"
    by (auto simp only: calculateDiff_pairs(1) [OF assms] old_pairs_iff subset_iff)
  show "pairs (EndpointAdditions u) \<subseteq> backend_pairs new"
    by (auto simp only: calculateDiff_pairs(2) [OF assms] new_pairs_iff subset_iff)
qed

text \<open>An address keeps its ports, or all its old ports are deleted and all its new ones added.\<close>

lemma calculateDiff_ips:
  assumes V: "fair_choices V" and d: "calculateDiff V old new = (diff, u, op)"
  shows "ips_at (backend_pairs new) t =
    ips_at (old_pairs old) t - ips_at (pairs (EndpointDeletions u)) t \<union> ips_at (pairs (EndpointAdditions u)) t"
proof -
  let ?O = "map_of (ip_ports (case old of None \<Rightarrow> [] | Some item \<Rightarrow> Item_Endpoints item))"
  let ?N = "map_of (ip_ports (Item_Endpoints new))"
  let ?ch = "\<lambda>ip ps. changed_ip V (ip_ports (Item_Endpoints new)) (ip, ps)"
  let ?at = "\<lambda>ps. \<exists>q. q \<in> set ps \<and> BP_Port q = t"
  have new: "ip \<in> ips_at (backend_pairs new) t \<longleftrightarrow> (case ?N ip of None \<Rightarrow> False | Some ps \<Rightarrow> ?at ps)"
    and old: "ip \<in> ips_at (old_pairs old) t \<longleftrightarrow> (case ?O ip of None \<Rightarrow> False | Some ps \<Rightarrow> ?at ps)"
    and del: "ip \<in> ips_at (pairs (EndpointDeletions u)) t \<longleftrightarrow> (case ?O ip of None \<Rightarrow> False | Some ps \<Rightarrow> ?at ps \<and> ?ch ip ps)"
    and add: "ip \<in> ips_at (pairs (EndpointAdditions u)) t \<longleftrightarrow> (case ?N ip of None \<Rightarrow> False | Some ps \<Rightarrow>
       ?at ps \<and> (case ?O ip of None \<Rightarrow> True | Some ops \<Rightarrow> ?ch ip ops))" for ip
    unfolding ips_at_def old_pairs_iff new_pairs_iff calculateDiff_pairs [OF V d] by (auto split: option.split)
  show ?thesis
  proof (rule set_eqI)
    fix ip
    have same: "set ps = set ps'" if "?O ip = Some ps" "?N ip = Some ps'" "\<not> ?ch ip ps" for ps ps'
      using that isEndpointPortsEqual_set [OF V] by (simp add: changed_ip_def)
    have gone: "?ch ip ps" if "?N ip = None" for ps
      using that by (simp add: changed_ip_def)
    show "ip \<in> ips_at (backend_pairs new) t \<longleftrightarrow>
      ip \<in> ips_at (old_pairs old) t - ips_at (pairs (EndpointDeletions u)) t \<union> ips_at (pairs (EndpointAdditions u)) t"
    proof (cases "?O ip")
      case None
      then show ?thesis unfolding Un_iff Diff_iff new old del add by (simp split: option.split)
    next
      case (Some ps)
      note O = this
      show ?thesis
      proof (cases "?N ip")
        case None
        with O gone [OF None] show ?thesis unfolding Un_iff Diff_iff new old del add by auto
      next
        case (Some ps')
        then show ?thesis
          using same [OF O Some] O unfolding Un_iff Diff_iff new old del add by (cases "?ch ip ps") auto
      qed
    qed
  qed
qed

end
