(* ===== verification/Kube_Proxy.thy ===== *)
theory Kube_Proxy
  imports Proxy_Watch Go_Net
begin

text \<open>
  The half of the kube-proxy that programs the node: the virtual servers of the kernel (\<open>pkg/kubeproxy/route/ipvs.go\<close>) and the handlers
  that keep them, the hosts file of coredns and the files of nginx (\<open>pkg/kubeproxy/proxy.go\<close>).
  The calls of the libraries for IPVS and netlink, of programs and of the file system are parameters: the record \<open>host\<close>.
  An address is kept as its text. Left out: finding the address of the host and of the name server, and logging.
\<close>

section \<open>The host\<close>

record virtual =
  V_Address :: string
  V_Protocol :: int
  V_Port :: int

record real =
  R_Address :: string
  R_Port :: int

record 's host =
  NewService :: "virtual \<Rightarrow> ('s, unit) io"
  DelService :: "virtual \<Rightarrow> ('s, unit) io"
  NewDestination :: "virtual \<Rightarrow> real \<Rightarrow> ('s, unit) io"
  DelDestination :: "virtual \<Rightarrow> real \<Rightarrow> ('s, unit) io"
  Flush :: "('s, unit) io"
  LinkAdd :: "string \<Rightarrow> ('s, unit) io"
  LinkByName :: "string \<Rightarrow> ('s, unit) io"
  LinkDel :: "string \<Rightarrow> ('s, unit) io"
  AddrAdd :: "string \<Rightarrow> string \<Rightarrow> ('s, unit) io"
  AddrDel :: "string \<Rightarrow> string \<Rightarrow> ('s, unit) io"
  Exec :: "string list \<Rightarrow> ('s, unit) io"
  ReadFile :: "string \<Rightarrow> ('s, string) io"
  WriteFile :: "string \<Rightarrow> string \<Rightarrow> ('s, unit) io"
  IsNotExist :: "string \<Rightarrow> 's \<Rightarrow> bool \<times> 's"
  Remove_File :: "string \<Rightarrow> ('s, unit) io"
  ReadDir :: "string \<Rightarrow> ('s, string list) io"
  Truncate :: "string \<Rightarrow> ('s, unit) io"

text \<open>The result or the text of the error; a call whose error is only logged.\<close>

definition io_attempt :: "('s, 'a) io \<Rightarrow> ('s, string + 'a) io" where
  "io_attempt m s = (case m s of
     (Inl Panicked, s') \<Rightarrow> (Inl Panicked, s')
   | (Inl (Failed e), s') \<Rightarrow> (Inr (Inl e), s')
   | (Inr x, s') \<Rightarrow> (Inr (Inr x), s'))"

definition io_logged :: "('s, 'a) io \<Rightarrow> ('s, unit) io" where
  "io_logged m = io_bind (io_attempt m) (\<lambda>_. io_return ())"

definition io_wrap :: "(string \<Rightarrow> string) \<Rightarrow> ('s, 'a) io \<Rightarrow> ('s, 'a) io" where
  "io_wrap f m = io_bind (io_attempt m) (\<lambda>r. case r of Inl e \<Rightarrow> io_fail (f e) | Inr x \<Rightarrow> io_return x)"

definition io_get :: "('w \<times> 'm, 'm) io" where
  "io_get s = (Inr (snd s), s)"

section \<open>Virtual servers\<close>

definition protocol2Unix :: "Protocol \<Rightarrow> int" where
  "protocol2Unix protocol = (if protocol = ProtocolTCP then 6 else if protocol = ProtocolUDP then 17 else 6)"

text \<open>\<open>net.ParseCIDR\<close>, as far as it says whether the text is a network.\<close>

definition ParseCIDR :: "string \<Rightarrow> bool" where
  "ParseCIDR s = (case index_of (CHR ''/'') s of
     None \<Rightarrow> False
   | Some i \<Rightarrow> let addr = take i s; mask = drop (i + 1) s in
       ParseIP addr \<and> mask \<noteq> [] \<and> list_all is_digit mask \<and> digits_val mask \<le> (if parse_ipv4 addr then 32 else 128))"

definition dummy_name :: string where "dummy_name = ''minik8s-dummy''"

definition createDummy :: "'s host \<Rightarrow> ('s, unit) io" where
  "createDummy H = LinkAdd H dummy_name"

definition deleteDummy :: "'s host \<Rightarrow> ('s, unit) io" where
  "deleteDummy H = io_bind (LinkByName H dummy_name) (\<lambda>_. LinkDel H dummy_name)"

definition addAddrToDummy :: "'s host \<Rightarrow> string \<Rightarrow> ('s, unit) io" where
  "addAddrToDummy H cidr = io_bind (LinkByName H dummy_name) (\<lambda>_.
     if \<not> ParseCIDR cidr then io_fail (''invalid CIDR address: '' @ cidr) else AddrAdd H dummy_name cidr)"

definition delAddrFromDummy :: "'s host \<Rightarrow> string \<Rightarrow> ('s, unit) io" where
  "delAddrFromDummy H cidr = io_bind (LinkByName H dummy_name) (\<lambda>_.
     if \<not> ParseCIDR cidr then io_fail (''invalid CIDR address: '' @ cidr) else AddrDel H dummy_name cidr)"

text \<open>An error that says that the thing is there already is none.\<close>

definition unless_exists :: "(string \<Rightarrow> string) \<Rightarrow> ('s, unit) io \<Rightarrow> ('s, unit) io" where
  "unless_exists f m = io_bind (io_attempt m) (\<lambda>r. case r of
     Inl e \<Rightarrow> if e = ''file exists'' then io_return () else io_fail (f e) | Inr _ \<Rightarrow> io_return ())"

definition sysctl :: "'s host \<Rightarrow> string \<Rightarrow> ('s, unit) io" where
  "sysctl H setting = io_wrap (\<lambda>e. ''sysctl --write '' @ setting @ '' failed: '' @ e) (Exec H [''sysctl'', ''--write'', setting])"

definition IPVS_Init :: "'s host \<Rightarrow> ('s, unit) io" where
  "IPVS_Init H =
     io_bind (io_wrap (\<lambda>e. ''modprobe br_netfilter failed: '' @ e) (Exec H [''modprobe'', ''br_netfilter''])) (\<lambda>_.
     io_bind (unless_exists (\<lambda>e. ''create dummy failed: '' @ e) (createDummy H)) (\<lambda>_.
     io_bind (sysctl H ''net.bridge.bridge-nf-call-iptables=1'') (\<lambda>_.
     io_bind (sysctl H ''net.ipv4.ip_forward=1'') (\<lambda>_.
     sysctl H ''net.ipv4.vs.conntrack=1''))))"

definition invalid_ip :: "string \<Rightarrow> ('s, unit) io" where
  "invalid_ip ip = io_fail (''invalid ip address: '' @ ip)"

definition virtual_of :: "string \<Rightarrow> int \<Rightarrow> Protocol \<Rightarrow> virtual" where
  "virtual_of vip port protocol = \<lparr>V_Address = vip, V_Protocol = protocol2Unix protocol, V_Port = port\<rparr>"

definition AddVirtual :: "'s host \<Rightarrow> string \<Rightarrow> int \<Rightarrow> Protocol \<Rightarrow> bool \<Rightarrow> ('s, unit) io" where
  "AddVirtual H vip port protocol isVirtualDummy =
     (if \<not> ParseIP vip then invalid_ip vip
      else io_bind (NewService H (virtual_of vip port protocol)) (\<lambda>_.
        if \<not> isVirtualDummy then io_return ()
        else unless_exists (\<lambda>e. e) (addAddrToDummy H (vip @ ''/32''))))"

definition AddRoute :: "'s host \<Rightarrow> string \<Rightarrow> int \<Rightarrow> string \<Rightarrow> int \<Rightarrow> Protocol \<Rightarrow> ('s, unit) io" where
  "AddRoute H vip vport rip rport protocol =
     (if \<not> ParseIP vip then invalid_ip vip else if \<not> ParseIP rip then invalid_ip rip
      else NewDestination H (virtual_of vip vport protocol) \<lparr>R_Address = rip, R_Port = rport\<rparr>)"

definition DeleteVirtual :: "'s host \<Rightarrow> string \<Rightarrow> int \<Rightarrow> Protocol \<Rightarrow> bool \<Rightarrow> ('s, unit) io" where
  "DeleteVirtual H vip port protocol isVirtualDummy =
     (if \<not> ParseIP vip then invalid_ip vip
      else io_bind (DelService H (virtual_of vip port protocol)) (\<lambda>_.
        if \<not> isVirtualDummy then io_return () else delAddrFromDummy H (vip @ ''/32'')))"

definition DeleteRoute :: "'s host \<Rightarrow> string \<Rightarrow> int \<Rightarrow> string \<Rightarrow> int \<Rightarrow> Protocol \<Rightarrow> ('s, unit) io" where
  "DeleteRoute H vip vport rip rport protocol =
     (if \<not> ParseIP vip then invalid_ip vip else if \<not> ParseIP rip then invalid_ip rip
      else DelDestination H (virtual_of vip vport protocol) \<lparr>R_Address = rip, R_Port = rport\<rparr>)"

definition IPVS_Clear :: "'s host \<Rightarrow> ('s, unit) io" where
  "IPVS_Clear H = io_bind (Flush H) (\<lambda>_. deleteDummy H)"

section \<open>Files\<close>

text \<open>\<open>strings.Fields\<close>.\<close>

fun fields_from :: "string \<Rightarrow> string \<Rightarrow> string list" where
  "fields_from acc [] = (if acc = [] then [] else [rev acc])"
| "fields_from acc (c # cs) =
     (if is_space c then (if acc = [] then fields_from [] cs else rev acc # fields_from [] cs) else fields_from (c # acc) cs)"

definition Fields :: "string \<Rightarrow> string list" where
  "Fields line = fields_from [] line"

definition coredns_hosts :: string where "coredns_hosts = ''/etc/coredns/hosts''"

definition hosts_line :: "string \<Rightarrow> string \<Rightarrow> string" where
  "hosts_line ip host = ip @ '' '' @ host"

text \<open>\<open>strings.Fields(line)[1]\<close> panics on a line with fewer fields.\<close>

definition addCorednsHosts :: "'s host \<Rightarrow> string \<Rightarrow> DNS \<Rightarrow> ('s, unit) io" where
  "addCorednsHosts H hostIP dns = io_bind (ReadFile H coredns_hosts) (\<lambda>file.
     let ls = scan_lines file; hosts = (\<lambda>l. Fields l ! 1) ` set ls in
     if \<exists>l\<in>set ls. length (Fields l) < 2 then io_panic
     else WriteFile H coredns_hosts (unlines (ls @ map (\<lambda>rule. hosts_line hostIP (Host rule))
       (filter (\<lambda>rule. Host rule \<notin> hosts) (Rules dns)))))"

definition deleteCorednsHosts :: "'s host \<Rightarrow> DNS \<Rightarrow> ('s, unit) io" where
  "deleteCorednsHosts H dns = io_bind (ReadFile H coredns_hosts) (\<lambda>file.
     let ls = scan_lines file in
     if \<exists>l\<in>set ls. length (Fields l) < 2 then io_panic
     else WriteFile H coredns_hosts (unlines (filter (\<lambda>l. Fields l ! 1 \<notin> Host ` set (Rules dns)) ls)))"

text \<open>The first line that does not have two fields.\<close>

definition bad_line :: "string list \<Rightarrow> string option" where
  "bad_line ls = List.find (\<lambda>l. length (Fields l) \<noteq> 2) ls"

definition addServiceNameDNS :: "'s host \<Rightarrow> Service \<Rightarrow> ('s, unit) io" where
  "addServiceNameDNS H service = io_bind (ReadFile H coredns_hosts) (\<lambda>file.
     let ls = scan_lines file; name = Name (Svc_Meta service) in
     case bad_line ls of
       Some line \<Rightarrow> io_fail (''invalid coredns hosts file: '' @ line)
     | None \<Rightarrow>
         if name \<in> (\<lambda>l. Fields l ! 1) ` set ls then io_fail (''service name '' @ name @ '' already exists in coredns hosts'')
         else if ClusterIP (Svc_Spec service) = '''' then io_fail (''service '' @ name @ '' has no cluster ip'')
         else WriteFile H coredns_hosts (unlines (ls @ [hosts_line (ClusterIP (Svc_Spec service)) name])))"

text \<open>The loop over the lines: the lines kept, or the error at the first bad line or at an entry with another address.\<close>

fun drop_service_lines :: "string \<Rightarrow> string \<Rightarrow> string list \<Rightarrow> string + string list" where
  "drop_service_lines name ip [] = Inr []"
| "drop_service_lines name ip (line # ls) =
     (if length (Fields line) \<noteq> 2 then Inl (''invalid coredns hosts file: '' @ line)
      else if Fields line ! 1 \<noteq> name then
        (case drop_service_lines name ip ls of Inl e \<Rightarrow> Inl e | Inr rest \<Rightarrow> Inr (line # rest))
      else if Fields line ! 0 \<noteq> ip then Inl (''cluster ip mismatch for service '' @ name)
      else drop_service_lines name ip ls)"

definition deleteServiceNameDNS :: "'s host \<Rightarrow> Service \<Rightarrow> ('s, unit) io" where
  "deleteServiceNameDNS H service = io_bind (ReadFile H coredns_hosts) (\<lambda>file.
     case drop_service_lines (Name (Svc_Meta service)) (ClusterIP (Svc_Spec service)) (scan_lines file) of
       Inl e \<Rightarrow> io_fail e | Inr rest \<Rightarrow> WriteFile H coredns_hosts (unlines rest))"

definition nginx_file :: "string \<Rightarrow> string" where
  "nginx_file host = ''/etc/nginx/conf.d/'' @ host @ ''.conf''"

text \<open>The locations of a rule, or the name of the first service that is not in the cache.\<close>

fun nginx_locations :: "(string, string) gomap \<Rightarrow> string \<Rightarrow> DNSPath list \<Rightarrow> string + string" where
  "nginx_locations cache np [] = Inr ''''"
| "nginx_locations cache np (path # paths) =
     (let svcFullName = np @ ''_'' @ Backend_Name (Backend_Service path) in
      case map_of cache svcFullName of
        None \<Rightarrow> Inl (''service '' @ svcFullName @ '' not found in cache'')
      | Some clusterIP \<Rightarrow> (case nginx_locations cache np paths of
          Inl e \<Rightarrow> Inl e
        | Inr rest \<Rightarrow> Inr (''location '' @ Path path @ '' {proxy_pass http://'' @ clusterIP @ '':'' @
            dec_int (Backend_Port (Backend_Service path)) @ ''/;}'' @ rest)))"

definition nginx_conf :: "string \<Rightarrow> string \<Rightarrow> string" where
  "nginx_conf host location = ''server{listen 80;server_name '' @ host @ '';'' @ location @ ''}''"

definition addNginxRule :: "'s host \<Rightarrow> (string, string) gomap \<Rightarrow> DNS \<Rightarrow> DNSRule \<Rightarrow> ('s, unit) io" where
  "addNginxRule H cache dns rule = io_bind (\<lambda>s. apfst Inr (IsNotExist H (nginx_file (Host rule)) s)) (\<lambda>absent.
     if \<not> absent then io_fail (''nginx config file '' @ nginx_file (Host rule) @ '' already exists'')
     else case nginx_locations cache (Namespace (DNS_Meta dns)) (Paths rule) of
       Inl e \<Rightarrow> io_fail e
     | Inr location \<Rightarrow>
         if location = '''' then io_fail (''no service found for dns '' @ Name (DNS_Meta dns))
         else io_wrap (\<lambda>e. ''failed to write nginx config: '' @ e)
           (WriteFile H (nginx_file (Host rule)) (nginx_conf (Host rule) location)))"

definition addNginxConfig :: "'s host \<Rightarrow> (string, string) gomap \<Rightarrow> DNS \<Rightarrow> ('s, unit) io" where
  "addNginxConfig H cache dns = io_each (addNginxRule H cache dns) (Rules dns)"

definition deleteNginxConfig :: "'s host \<Rightarrow> DNS \<Rightarrow> ('s, unit) io" where
  "deleteNginxConfig H dns = io_each (\<lambda>rule. Remove_File H (nginx_file (Host rule))) (Rules dns)"

definition reload_nginx :: "'s host \<Rightarrow> ('s, unit) io" where
  "reload_nginx H = Exec H [''nginx'', ''-s'', ''reload'']"

section \<open>Handlers\<close>

text \<open>A proxy keeps the addresses of the services by their full name: the second component of its state.\<close>

type_synonym service_cache = "(string, string) gomap"

definition HandleDNSAdditions :: "'s host \<Rightarrow> string \<Rightarrow> DNS list \<Rightarrow> ('s \<times> service_cache, unit) io" where
  "HandleDNSAdditions H hostIP dns = io_each (\<lambda>d. io_logged (
     io_bind io_get (\<lambda>cache. io_lift (
     io_bind (addNginxConfig H cache d) (\<lambda>_.
     io_bind (reload_nginx H) (\<lambda>_. addCorednsHosts H hostIP d)))))) dns"

definition HandleDNSDeletions :: "'s host \<Rightarrow> DNS list \<Rightarrow> ('s \<times> service_cache, unit) io" where
  "HandleDNSDeletions H dns = io_each (\<lambda>d. io_logged (io_lift (
     io_bind (deleteCorednsHosts H d) (\<lambda>_.
     io_bind (deleteNginxConfig H d) (\<lambda>_. reload_nginx H))))) dns"

text \<open>The two reverse maps from target ports to the ports of the service and of the node.\<close>

type_synonym port_maps = "(int \<rightharpoonup> int) \<times> (int \<rightharpoonup> int)"

definition isNodePort :: "Service \<Rightarrow> bool" where
  "isNodePort svc \<longleftrightarrow> Service_Type (Svc_Spec svc) = ServiceTypeNodePort"

definition add_port :: "'s host \<Rightarrow> string \<Rightarrow> Service \<Rightarrow> ServicePort \<Rightarrow> port_maps \<Rightarrow> ('s, port_maps) io" where
  "add_port H hostIP svc svcPort = (\<lambda>(svcMap, nodeMap).
     io_bind (io_attempt (AddVirtual H (ClusterIP (Svc_Spec svc)) (u16 (Port svcPort)) (ServicePort_Protocol svcPort) True)) (\<lambda>r.
     case r of Inl e \<Rightarrow> io_return (svcMap, nodeMap)
     | Inr _ \<Rightarrow>
         if isNodePort svc then
           io_bind (io_attempt (AddVirtual H hostIP (u16 (NodePort svcPort)) (ServicePort_Protocol svcPort) False)) (\<lambda>r.
           case r of Inl e \<Rightarrow> io_return (svcMap, nodeMap)
           | Inr _ \<Rightarrow> io_return (svcMap(TargetPort svcPort \<mapsto> Port svcPort), nodeMap(TargetPort svcPort \<mapsto> NodePort svcPort)))
         else io_return (svcMap(TargetPort svcPort \<mapsto> Port svcPort), nodeMap)))"

fun add_ports :: "'s host \<Rightarrow> string \<Rightarrow> Service \<Rightarrow> ServicePort list \<Rightarrow> port_maps \<Rightarrow> ('s, port_maps) io" where
  "add_ports H hostIP svc [] maps = io_return maps"
| "add_ports H hostIP svc (p # ps) maps = io_bind (add_port H hostIP svc p maps) (\<lambda>maps'. add_ports H hostIP svc ps maps')"

definition reverse_maps :: "Service \<Rightarrow> port_maps" where
  "reverse_maps svc = fold (\<lambda>p (svcMap, nodeMap). (svcMap(TargetPort p \<mapsto> Port p),
     if isNodePort svc then nodeMap(TargetPort p \<mapsto> NodePort p) else nodeMap))
     (Service_Ports (Svc_Spec svc)) (Map.empty, Map.empty)"

text \<open>The loops over endpoints and their ports; \<open>op\<close> is \<open>AddRoute\<close> or \<open>DeleteRoute\<close>.\<close>

definition route_port :: "(string \<Rightarrow> int \<Rightarrow> string \<Rightarrow> int \<Rightarrow> Protocol \<Rightarrow> ('s, unit) io) \<Rightarrow> string \<Rightarrow> string \<Rightarrow> port_maps \<Rightarrow>
    string \<Rightarrow> BackendPort \<Rightarrow> ('s, unit) io" where
  "route_port op vip hostIP maps ip p =
     io_bind (case fst maps (BP_Port p) of None \<Rightarrow> io_return ()
       | Some svcPort \<Rightarrow> io_logged (op vip (u16 svcPort) ip (u16 (BP_Port p)) (BP_Protocol p))) (\<lambda>_.
     case snd maps (BP_Port p) of None \<Rightarrow> io_return ()
       | Some nodePort \<Rightarrow> io_logged (op hostIP (u16 nodePort) ip (u16 (BP_Port p)) (BP_Protocol p)))"

definition route_all :: "(string \<Rightarrow> int \<Rightarrow> string \<Rightarrow> int \<Rightarrow> Protocol \<Rightarrow> ('s, unit) io) \<Rightarrow> string \<Rightarrow> string \<Rightarrow> port_maps \<Rightarrow>
    Backend list \<Rightarrow> ('s, unit) io" where
  "route_all op vip hostIP maps eps = io_each (\<lambda>ep. io_each (route_port op vip hostIP maps (BE_IP ep)) (BE_Ports ep)) eps"

definition add_service :: "'s host \<Rightarrow> string \<Rightarrow> ServiceUpdateSingle \<Rightarrow> ('s \<times> service_cache, unit) io" where
  "add_service H hostIP update = (let svc = Update_Service update; vip = ClusterIP (Svc_Spec svc) in
     io_bind (io_lift (io_bind (add_ports H hostIP svc (Service_Ports (Svc_Spec svc)) (Map.empty, Map.empty)) (\<lambda>maps.
       route_all (AddRoute H) vip hostIP maps (EndpointAdditions update)))) (\<lambda>_.
     io_bind (io_modify (mput (GetObjectFullName (Svc_Meta svc)) vip)) (\<lambda>_.
     io_lift (io_logged (addServiceNameDNS H svc)))))"

definition HandleServiceAdditions :: "'s host \<Rightarrow> string \<Rightarrow> ServiceUpdateSingle list \<Rightarrow> ('s \<times> service_cache, unit) io" where
  "HandleServiceAdditions H hostIP updates = io_each (add_service H hostIP) updates"

definition delete_port :: "'s host \<Rightarrow> string \<Rightarrow> Service \<Rightarrow> ServicePort \<Rightarrow> ('s, unit) io" where
  "delete_port H hostIP svc svcPort =
     io_bind (io_logged (DeleteVirtual H (ClusterIP (Svc_Spec svc)) (u16 (Port svcPort)) (ServicePort_Protocol svcPort) True)) (\<lambda>_.
     if isNodePort svc then io_logged (DeleteVirtual H hostIP (u16 (NodePort svcPort)) (ServicePort_Protocol svcPort) False)
     else io_return ())"

definition delete_service :: "'s host \<Rightarrow> string \<Rightarrow> ServiceUpdateSingle \<Rightarrow> ('s \<times> service_cache, unit) io" where
  "delete_service H hostIP update = (let svc = Update_Service update in
     io_bind (io_lift (io_each (delete_port H hostIP svc) (Service_Ports (Svc_Spec svc)))) (\<lambda>_.
     io_bind (io_modify (mdel (GetObjectFullName (Svc_Meta svc)))) (\<lambda>_.
     io_lift (io_logged (deleteServiceNameDNS H svc)))))"

definition HandleServiceDeletions :: "'s host \<Rightarrow> string \<Rightarrow> ServiceUpdateSingle list \<Rightarrow> ('s \<times> service_cache, unit) io" where
  "HandleServiceDeletions H hostIP updates = io_each (delete_service H hostIP) updates"

definition update_endpoints :: "'s host \<Rightarrow> string \<Rightarrow> ServiceUpdateSingle \<Rightarrow> ('s \<times> service_cache, unit) io" where
  "update_endpoints H hostIP update =
     (let svc = Update_Service update; vip = ClusterIP (Svc_Spec svc); maps = reverse_maps svc in
      io_lift (io_bind (route_all (DeleteRoute H) vip hostIP maps (EndpointDeletions update)) (\<lambda>_.
        route_all (AddRoute H) vip hostIP maps (EndpointAdditions update))))"

definition HandleServiceEndpointsUpdate :: "'s host \<Rightarrow> string \<Rightarrow> ServiceUpdateSingle list \<Rightarrow> ('s \<times> service_cache, unit) io" where
  "HandleServiceEndpointsUpdate H hostIP updates = io_each (update_endpoints H hostIP) updates"

section \<open>The loop\<close>

datatype proxy_input = ServiceInput ServiceUpdate | DNSInput DNSUpdate

definition proxy_iteration :: "'s host \<Rightarrow> string \<Rightarrow> proxy_input \<Rightarrow> ('s \<times> service_cache, unit) io" where
  "proxy_iteration H hostIP i = (case i of
     ServiceInput u \<Rightarrow>
       if Update_Op u = ServiceAdd then HandleServiceAdditions H hostIP (Updates u)
       else if Update_Op u = ServiceDelete then HandleServiceDeletions H hostIP (Updates u)
       else if Update_Op u = ServiceEndpointsUpdate then HandleServiceEndpointsUpdate H hostIP (Updates u)
       else io_return ()
   | DNSInput u \<Rightarrow>
       if DNS_Op u = DNSAdd then HandleDNSAdditions H hostIP (Update_DNS u)
       else if DNS_Op u = DNSDelete then HandleDNSDeletions H (Update_DNS u)
       else io_return ())"

definition cleanConfigFiles :: "'s host \<Rightarrow> ('s, unit) io" where
  "cleanConfigFiles H =
     io_bind (io_attempt (ReadDir H ''/etc/nginx/conf.d'')) (\<lambda>r.
     io_bind (io_each (\<lambda>file. io_logged (Remove_File H (''/etc/nginx/conf.d/'' @ file)))
       (case r of Inl e \<Rightarrow> [] | Inr files \<Rightarrow> files)) (\<lambda>_.
     io_logged (Truncate H coredns_hosts)))"

definition Proxy_DoCleanUp :: "'s host \<Rightarrow> ('s, unit) io" where
  "Proxy_DoCleanUp H = io_bind (io_logged (IPVS_Clear H)) (\<lambda>_. cleanConfigFiles H)"

definition resolv_conf :: "string \<Rightarrow> string" where
  "resolv_conf nameserverIP = ''nameserver '' @ nameserverIP @ [newline] @ ''nameserver 127.0.0.53'' @ [newline]"

text \<open>\<open>Run\<close> with the addresses it has found: the inputs that arrive until the context ends.\<close>

definition Proxy_Run :: "'s host \<Rightarrow> string \<Rightarrow> string \<Rightarrow> proxy_input list \<Rightarrow> ('s \<times> service_cache, unit) io" where
  "Proxy_Run H hostIP nameserverIP inputs =
     io_bind (io_lift (IPVS_Init H)) (\<lambda>_.
     io_bind (io_lift (WriteFile H ''/etc/resolv.conf'' (resolv_conf nameserverIP))) (\<lambda>_.
     io_bind (io_each (proxy_iteration H hostIP) inputs) (\<lambda>_.
     io_lift (Proxy_DoCleanUp H))))"

end
