(* ===== verification/Proxy_Tables.thy ===== *)
theory Proxy_Tables
  imports Proxy_Diff Kube_Proxy
begin

text \<open>
  What the table of virtual servers should be, what the handlers of the proxy do to it, and that a round of updates leads from the right
  table for the old services to the right one for the new.
\<close>

type_synonym table = "virtual \<rightharpoonup> real set"

section \<open>The right table\<close>

definition port_keys :: "string \<Rightarrow> Service \<Rightarrow> ServicePort \<Rightarrow> virtual list" where
  "port_keys hostIP svc p = virtual_of (ClusterIP (Svc_Spec svc)) (u16 (Port p)) (ServicePort_Protocol p) #
     (if isNodePort svc then [virtual_of hostIP (u16 (NodePort p)) (ServicePort_Protocol p)] else [])"

definition service_keys :: "string \<Rightarrow> Service \<Rightarrow> virtual list" where
  "service_keys hostIP svc = concat (map (port_keys hostIP svc) (Service_Ports (Svc_Spec svc)))"

text \<open>The virtual server of a port forwards to the target port at every address that serves it.\<close>

definition reals_at :: "(string \<times> BackendPort) set \<Rightarrow> int \<Rightarrow> real set" where
  "reals_at X port = (\<lambda>ip. \<lparr>R_Address = ip, R_Port = u16 port\<rparr>) ` ips_at X port"

definition item_table :: "string \<Rightarrow> ServiceItem \<Rightarrow> table" where
  "item_table hostIP item k =
     (case List.find (\<lambda>p. k \<in> set (port_keys hostIP (Item_Service item) p)) (Service_Ports (Svc_Spec (Item_Service item))) of
        None \<Rightarrow> None | Some p \<Rightarrow> Some (reals_at (backend_pairs item) (TargetPort p)))"

definition wanted_table :: "string \<Rightarrow> (UID, ServiceItem) gomap \<Rightarrow> table" where
  "wanted_table hostIP items k =
     (case List.find (\<lambda>(u, item). k \<in> set (service_keys hostIP (Item_Service item))) items of
        None \<Rightarrow> None | Some (u, item) \<Rightarrow> item_table hostIP item k)"

text \<open>A service whose ports have keys and targets of their own, and an item whose endpoints fit it.\<close>

definition plain_service :: "string \<Rightarrow> Service \<Rightarrow> bool" where
  "plain_service hostIP svc \<longleftrightarrow> distinct (service_keys hostIP svc) \<and> distinct (map TargetPort (Service_Ports (Svc_Spec svc))) \<and>
     ParseIP (ClusterIP (Svc_Spec svc)) \<and> ParseCIDR (ClusterIP (Svc_Spec svc) @ ''/32'')"

definition fitting :: "Service \<Rightarrow> (string \<times> BackendPort) set \<Rightarrow> bool" where
  "fitting svc X \<longleftrightarrow> (\<forall>(ip, q)\<in>X. ParseIP ip \<and>
     (\<exists>p\<in>set (Service_Ports (Svc_Spec svc)). q = \<lparr>BP_Port = TargetPort p, BP_Protocol = ServicePort_Protocol p\<rparr>))"

lemma find_unique:
  assumes "x \<in> set xs" "P x" "\<And>y. y \<in> set xs \<Longrightarrow> P y \<Longrightarrow> y = x"
  shows "List.find P xs = Some x"
  using assms
proof (induction xs)
  case (Cons y ys)
  show ?case
  proof (cases "P y")
    case True
    with Cons.prems(3) [of y] show ?thesis by simp
  next
    case False
    with Cons.prems(1,2) have "x \<in> set ys" by auto
    from Cons.IH [OF this Cons.prems(2)] Cons.prems(3) have "List.find P ys = Some x" by (meson list.set_intros(2))
    with False show ?thesis by simp
  qed
qed simp

lemma find_None: "List.find P xs = None \<longleftrightarrow> (\<forall>x\<in>set xs. \<not> P x)"
  by (induction xs) auto

lemma distinct_concat_unique:
  assumes "distinct (concat (map f xs))" "distinct xs" "x \<in> set xs" "y \<in> set xs" "k \<in> set (f x)" "k \<in> set (f y)"
  shows "x = y"
  using assms
proof (induction xs)
  case (Cons z zs)
  have apart: "set (f z) \<inter> (\<Union>a\<in>set zs. set (f a)) = {}" and rest: "distinct (concat (map f zs))" "distinct zs"
    using Cons.prems(1,2) by auto
  consider "x = z" "y = z" | "x \<in> set zs" "y \<in> set zs" | "x = z" "y \<in> set zs" | "x \<in> set zs" "y = z"
    using Cons.prems(3,4) by fastforce
  then show ?case
  proof cases
    case 2
    from Cons.IH [OF rest this Cons.prems(5,6)] show ?thesis .
  qed (use apart Cons.prems(5,6) in blast)+
qed simp

lemma plain_serviceD:
  assumes "plain_service hostIP svc" "p \<in> set (Service_Ports (Svc_Spec svc))"
  shows "q \<in> set (Service_Ports (Svc_Spec svc)) \<Longrightarrow> TargetPort q = TargetPort p \<Longrightarrow> q = p"
    "q \<in> set (Service_Ports (Svc_Spec svc)) \<Longrightarrow> k \<in> set (port_keys hostIP svc p) \<Longrightarrow> k \<in> set (port_keys hostIP svc q) \<Longrightarrow> q = p"
proof -
  have d: "distinct (map TargetPort (Service_Ports (Svc_Spec svc)))" "distinct (concat (map (port_keys hostIP svc) (Service_Ports (Svc_Spec svc))))"
    using assms(1) by (simp_all add: plain_service_def service_keys_def)
  from d(1) assms(2) show "q \<in> set (Service_Ports (Svc_Spec svc)) \<Longrightarrow> TargetPort q = TargetPort p \<Longrightarrow> q = p"
    by (auto simp: distinct_map inj_on_def)
  from d(1) have "distinct (Service_Ports (Svc_Spec svc))" by (simp add: distinct_map)
  from distinct_concat_unique [OF d(2) this] assms(2)
  show "q \<in> set (Service_Ports (Svc_Spec svc)) \<Longrightarrow> k \<in> set (port_keys hostIP svc p) \<Longrightarrow> k \<in> set (port_keys hostIP svc q) \<Longrightarrow> q = p"
    by blast
qed

lemma in_service_keys: "k \<in> set (service_keys hostIP svc) \<longleftrightarrow> (\<exists>p\<in>set (Service_Ports (Svc_Spec svc)). k \<in> set (port_keys hostIP svc p))"
  by (simp add: service_keys_def)

lemma item_table_at:
  assumes "plain_service hostIP (Item_Service item)" "p \<in> set (Service_Ports (Svc_Spec (Item_Service item)))"
    "k \<in> set (port_keys hostIP (Item_Service item) p)"
  shows "item_table hostIP item k = Some (reals_at (backend_pairs item) (TargetPort p))"
  unfolding item_table_def using find_unique [where P = "\<lambda>p. k \<in> set (port_keys hostIP (Item_Service item) p)", OF assms(2,3)]
    plain_serviceD(2) [OF assms(1,2) _ assms(3)] by (simp only: option.case)

section \<open>Changes of a table\<close>

text \<open>Adding and removing destinations does nothing where there is no virtual server.\<close>

definition add_reals :: "(virtual \<times> real) set \<Rightarrow> table \<Rightarrow> table" where
  "add_reals R T = (\<lambda>k. map_option (\<lambda>D. D \<union> R `` {k}) (T k))"

definition del_reals :: "(virtual \<times> real) set \<Rightarrow> table \<Rightarrow> table" where
  "del_reals R T = (\<lambda>k. map_option (\<lambda>D. D - R `` {k}) (T k))"

lemma add_reals_comp: "add_reals S (add_reals R T) = add_reals (R \<union> S) T"
  by (auto simp: add_reals_def fun_eq_iff option.map_comp comp_def intro!: option.map_cong)

lemma del_reals_comp: "del_reals S (del_reals R T) = del_reals (R \<union> S) T"
  by (auto simp: del_reals_def fun_eq_iff option.map_comp comp_def intro!: option.map_cong)

lemma reals_empty [simp]: "add_reals {} T = T" "del_reals {} T = T"
  by (simp_all add: add_reals_def del_reals_def option.map_ident)

text \<open>The routes that the loops over endpoints ask for.\<close>

definition routes_to :: "string \<Rightarrow> (int \<rightharpoonup> int) \<Rightarrow> (string \<times> BackendPort) set \<Rightarrow> (virtual \<times> real) set" where
  "routes_to a m X = {(virtual_of a (u16 n) (BP_Protocol q), \<lparr>R_Address = ip, R_Port = u16 (BP_Port q)\<rparr>) | ip q n.
     (ip, q) \<in> X \<and> m (BP_Port q) = Some n}"

definition routes :: "string \<Rightarrow> string \<Rightarrow> port_maps \<Rightarrow> (string \<times> BackendPort) set \<Rightarrow> (virtual \<times> real) set" where
  "routes vip hostIP maps X = routes_to vip (fst maps) X \<union> routes_to hostIP (snd maps) X"

lemma routes_to_Un: "routes_to a m (X \<union> Y) = routes_to a m X \<union> routes_to a m Y"
  unfolding routes_to_def by blast

lemma routes_to_iff: "(k, d) \<in> routes_to a m X \<longleftrightarrow> (\<exists>ip q n. (ip, q) \<in> X \<and> m (BP_Port q) = Some n \<and>
    k = virtual_of a (u16 n) (BP_Protocol q) \<and> d = \<lparr>R_Address = ip, R_Port = u16 (BP_Port q)\<rparr>)"
  unfolding routes_to_def by blast

lemma routes_Un [simp]: "routes vip hostIP maps (X \<union> Y) = routes vip hostIP maps X \<union> routes vip hostIP maps Y"
  by (auto simp: routes_def routes_to_Un)

lemma routes_empty [simp]: "routes vip hostIP maps {} = {}"
  by (simp add: routes_def routes_to_def)

lemma pairs_simps [simp]: "pairs [] = {}" "pairs (ep # eps) = Pair (BE_IP ep) ` set (BE_Ports ep) \<union> pairs eps"
  by (auto simp: pairs_def)

lemma reverse_maps_fold:
  fixes ps :: "ServicePort list"
  assumes "distinct (map TargetPort ps)"
  shows "fold (\<lambda>p (svcMap, nodeMap). (svcMap(TargetPort p \<mapsto> Port p), if b then nodeMap(TargetPort p \<mapsto> NodePort p) else nodeMap)) ps (M, N) =
    (M ++ map_of (map (\<lambda>p. (TargetPort p, Port p)) ps), if b then N ++ map_of (map (\<lambda>p. (TargetPort p, NodePort p)) ps) else N)"
  using assms
proof (induction ps arbitrary: M N)
  case (Cons p ps)
  then have "map_of (map (\<lambda>p. (TargetPort p, f p)) ps) (TargetPort p) = None" for f :: "ServicePort \<Rightarrow> int"
    by (force simp: map_of_eq_None_iff)
  with Cons show ?case by (auto simp: fun_eq_iff map_add_def split: option.splits)
qed simp

lemma reverse_maps_at:
  assumes "plain_service hostIP svc" "p \<in> set (Service_Ports (Svc_Spec svc))"
  shows "fst (reverse_maps svc) (TargetPort p) = Some (Port p)"
    "snd (reverse_maps svc) (TargetPort p) = (if isNodePort svc then Some (NodePort p) else None)"
proof -
  have d: "distinct (map TargetPort (Service_Ports (Svc_Spec svc)))" using assms(1) by (simp add: plain_service_def)
  have "map_of (map (\<lambda>p. (TargetPort p, f p)) (Service_Ports (Svc_Spec svc))) (TargetPort p) = Some (f p)" for f :: "ServicePort \<Rightarrow> int"
    using d assms(2) by (subst map_of_eq_Some_iff) (auto simp: comp_def)
  then show "fst (reverse_maps svc) (TargetPort p) = Some (Port p)"
    "snd (reverse_maps svc) (TargetPort p) = (if isNodePort svc then Some (NodePort p) else None)"
    unfolding reverse_maps_def reverse_maps_fold [OF d] by simp_all
qed

text \<open>At a virtual server of a port these are the addresses that serve the port; elsewhere there are none.\<close>

lemma routes_iff:
  assumes "plain_service hostIP svc" "fitting svc X"
  shows "(k', d) \<in> routes (ClusterIP (Svc_Spec svc)) hostIP (reverse_maps svc) X \<longleftrightarrow> (\<exists>ip q p'. (ip, q) \<in> X \<and> p' \<in> set (Service_Ports (Svc_Spec svc)) \<and>
      q = \<lparr>BP_Port = TargetPort p', BP_Protocol = ServicePort_Protocol p'\<rparr> \<and> k' \<in> set (port_keys hostIP svc p') \<and>
      d = \<lparr>R_Address = ip, R_Port = u16 (BP_Port q)\<rparr>)"
    (is "(k', d) \<in> ?R \<longleftrightarrow> _")
proof
  assume "(k', d) \<in> ?R"
  then obtain ip q where q: "(ip, q) \<in> X" "d = \<lparr>R_Address = ip, R_Port = u16 (BP_Port q)\<rparr>"
    "(\<exists>sp. fst (reverse_maps svc) (BP_Port q) = Some sp \<and> k' = virtual_of (ClusterIP (Svc_Spec svc)) (u16 sp) (BP_Protocol q)) \<or>
     (\<exists>np. snd (reverse_maps svc) (BP_Port q) = Some np \<and> k' = virtual_of hostIP (u16 np) (BP_Protocol q))"
    unfolding routes_def Un_iff routes_to_iff by blast
  from q(1) assms(2) obtain p' where p': "p' \<in> set (Service_Ports (Svc_Spec svc))"
    "q = \<lparr>BP_Port = TargetPort p', BP_Protocol = ServicePort_Protocol p'\<rparr>" unfolding fitting_def by blast
  have "k' \<in> set (port_keys hostIP svc p')"
    using q(3) reverse_maps_at [OF assms(1) p'(1)] p'(2) by (auto simp: port_keys_def split: if_splits)
  with q(1,2) p' show "\<exists>ip q p'. (ip, q) \<in> X \<and> p' \<in> set (Service_Ports (Svc_Spec svc)) \<and>
    q = \<lparr>BP_Port = TargetPort p', BP_Protocol = ServicePort_Protocol p'\<rparr> \<and> k' \<in> set (port_keys hostIP svc p') \<and>
    d = \<lparr>R_Address = ip, R_Port = u16 (BP_Port q)\<rparr>" by blast
next
  assume "\<exists>ip q p'. (ip, q) \<in> X \<and> p' \<in> set (Service_Ports (Svc_Spec svc)) \<and>
    q = \<lparr>BP_Port = TargetPort p', BP_Protocol = ServicePort_Protocol p'\<rparr> \<and> k' \<in> set (port_keys hostIP svc p') \<and>
    d = \<lparr>R_Address = ip, R_Port = u16 (BP_Port q)\<rparr>"
  then obtain ip q p' where q: "(ip, q) \<in> X" "p' \<in> set (Service_Ports (Svc_Spec svc))"
    "q = \<lparr>BP_Port = TargetPort p', BP_Protocol = ServicePort_Protocol p'\<rparr>" "k' \<in> set (port_keys hostIP svc p')"
    "d = \<lparr>R_Address = ip, R_Port = u16 (BP_Port q)\<rparr>" by blast
  note at = reverse_maps_at [OF assms(1) q(2)]
  from q(4) consider "k' = virtual_of (ClusterIP (Svc_Spec svc)) (u16 (Port p')) (ServicePort_Protocol p')" |
    "isNodePort svc" "k' = virtual_of hostIP (u16 (NodePort p')) (ServicePort_Protocol p')"
    by (auto simp: port_keys_def split: if_splits)
  then show "(k', d) \<in> ?R"
  proof cases
    case 1
    with q at show ?thesis unfolding routes_def Un_iff routes_to_iff
      by (intro disjI1 exI [of _ ip] exI [of _ q] exI [of _ "Port p'"]) simp
  next
    case 2
    with q at show ?thesis unfolding routes_def Un_iff routes_to_iff
      by (intro disjI2 exI [of _ ip] exI [of _ q] exI [of _ "NodePort p'"]) simp
  qed
qed

lemma routes_at:
  assumes "plain_service hostIP svc" "fitting svc X" "p \<in> set (Service_Ports (Svc_Spec svc))" "k \<in> set (port_keys hostIP svc p)"
  shows "routes (ClusterIP (Svc_Spec svc)) hostIP (reverse_maps svc) X `` {k} = reals_at X (TargetPort p)"
proof -
  let ?R = "routes (ClusterIP (Svc_Spec svc)) hostIP (reverse_maps svc) X"
  note iff = routes_iff [OF assms(1,2)]
  show ?thesis
  proof (intro set_eqI iffI)
    fix d assume "d \<in> ?R `` {k}"
    then obtain ip q p' where q: "(ip, q) \<in> X" "p' \<in> set (Service_Ports (Svc_Spec svc))" "k \<in> set (port_keys hostIP svc p')"
      "q = \<lparr>BP_Port = TargetPort p', BP_Protocol = ServicePort_Protocol p'\<rparr>" "d = \<lparr>R_Address = ip, R_Port = u16 (BP_Port q)\<rparr>"
      using iff by blast
    from plain_serviceD(2) [OF assms(1,3) q(2) assms(4) q(3)] q(1,4,5) show "d \<in> reals_at X (TargetPort p)"
      by (auto simp: reals_at_def ips_at_def intro!: imageI exI [of _ q])
  next
    fix d assume "d \<in> reals_at X (TargetPort p)"
    then obtain ip q where q: "(ip, q) \<in> X" "BP_Port q = TargetPort p" "d = \<lparr>R_Address = ip, R_Port = u16 (TargetPort p)\<rparr>"
      by (auto simp: reals_at_def ips_at_def)
    from q(1) assms(2) obtain p' where p': "p' \<in> set (Service_Ports (Svc_Spec svc))"
      "q = \<lparr>BP_Port = TargetPort p', BP_Protocol = ServicePort_Protocol p'\<rparr>" unfolding fitting_def by blast
    from plain_serviceD(1) [OF assms(1,3) p'(1)] p'(2) q(2) have "p' = p" by simp
    with q p' assms(3,4) show "d \<in> ?R `` {k}" unfolding Image_singleton mem_Collect_eq iff
      by (intro exI [of _ ip] exI [of _ q] exI [of _ p]) simp
  qed
qed

lemma routes_out:
  assumes "plain_service hostIP svc" "fitting svc X" "k \<notin> set (service_keys hostIP svc)"
  shows "routes (ClusterIP (Svc_Spec svc)) hostIP (reverse_maps svc) X `` {k} = {}"
  using assms(3) unfolding in_service_keys Image_singleton routes_iff [OF assms(1,2)] by blast

section \<open>The effect of the handlers\<close>

text \<open>
  What the kernel, netlink, the file system and programs are relied on: each call takes effect as documented, calls for addresses and
  files leave the virtual servers alone, and nothing panics. \<open>tab\<close> is the table that the kernel shows.
\<close>

definition leaves :: "('s \<Rightarrow> 't) \<Rightarrow> ('s, 'a) io \<Rightarrow> bool" where
  "leaves tab m \<longleftrightarrow> (\<forall>s. fst (m s) \<noteq> Inl Panicked \<and> tab (snd (m s)) = tab s)"

locale ipvs_host =
  fixes H :: "'s host" and tab :: "'s \<Rightarrow> table"
  assumes new_service: "tab s k = None \<Longrightarrow> fst (NewService H k s) = Inr ()" "tab s k \<noteq> None \<Longrightarrow> \<exists>e. fst (NewService H k s) = Inl (Failed e)"
      "tab (snd (NewService H k s)) = (if tab s k = None then (tab s)(k \<mapsto> {}) else tab s)"
    and del_service: "fst (DelService H k s) \<noteq> Inl Panicked" "tab (snd (DelService H k s)) = (tab s)(k := None)"
    and new_destination: "fst (NewDestination H k d s) \<noteq> Inl Panicked" "tab (snd (NewDestination H k d s)) = add_reals {(k, d)} (tab s)"
    and del_destination: "fst (DelDestination H k d s) \<noteq> Inl Panicked" "tab (snd (DelDestination H k d s)) = del_reals {(k, d)} (tab s)"
    and link_by_name: "leaves tab (LinkByName H l)" "fst (LinkByName H l s) = Inr ()"
    and addr_add: "leaves tab (AddrAdd H l a)" "fst (AddrAdd H l a s) \<in> {Inr (), Inl (Failed ''file exists'')}"
    and others: "leaves tab (AddrDel H l a)" "leaves tab (Exec H c)" "leaves tab (ReadFile H f)" "leaves tab (WriteFile H f x)"
      "tab (snd (IsNotExist H f s)) = tab s" "leaves tab (Remove_File H f)"

text \<open>A step that always returns and changes the table by a function.\<close>

definition does :: "('s \<Rightarrow> 't) \<Rightarrow> ('s, unit) io \<Rightarrow> ('t \<Rightarrow> 't) \<Rightarrow> bool" where
  "does tab m f \<longleftrightarrow> (\<forall>s. fst (m s) = Inr () \<and> tab (snd (m s)) = f (tab s))"

lemma does_return: "does tab (io_return ()) (\<lambda>T. T)"
  by (simp add: does_def io_return_def)

lemma does_bind: "does tab m f \<Longrightarrow> does tab n g \<Longrightarrow> does tab (io_bind m (\<lambda>_. n)) (\<lambda>T. g (f T))"
  by (auto simp: does_def io_bind_def split: prod.splits sum.splits) (metis fst_conv snd_conv Inl_Inr_False)+

lemma does_each: "(\<And>x. x \<in> set xs \<Longrightarrow> does tab (a x) (f x)) \<Longrightarrow> does tab (io_each a xs) (fold f xs)"
proof (induction xs)
  case Nil
  show ?case using does_return [of tab] by (simp add: id_def)
next
  case (Cons x xs)
  then show ?case using does_bind [of tab "a x" "f x" "io_each a xs" "fold f xs"] by (simp add: comp_def)
qed

lemma does_logged: "(\<And>s. fst (m s) \<noteq> Inl Panicked) \<Longrightarrow> (\<And>s. tab (snd (m s)) = f (tab s)) \<Longrightarrow> does tab (io_logged m) f"
  unfolding does_def io_logged_def io_bind_def io_attempt_def io_return_def
  by (auto split: prod.splits sum.splits failure.splits) (metis fst_conv snd_conv)+

lemma leaves_bind: "leaves tab m \<Longrightarrow> (\<And>x. leaves tab (k x)) \<Longrightarrow> leaves tab (io_bind m k)"
  by (auto simp: leaves_def io_bind_def split: prod.splits sum.splits) (metis fst_conv snd_conv)+

lemma leaves_simps [simp]: "leaves tab (io_return x)" "leaves tab (io_fail e)"
  by (simp_all add: leaves_def io_return_def io_fail_def)

lemma leaves_logged: "leaves tab m \<Longrightarrow> does tab (io_logged m) (\<lambda>T. T)"
  by (intro does_logged) (auto simp: leaves_def)

lemma fold_add_reals: "fold (\<lambda>x. add_reals (R x)) xs T = add_reals (\<Union>x\<in>set xs. R x) T"
  by (induction xs arbitrary: T) (simp_all add: add_reals_comp)

lemma fold_del_reals: "fold (\<lambda>x. del_reals (R x)) xs T = del_reals (\<Union>x\<in>set xs. R x) T"
  by (induction xs arbitrary: T) (simp_all add: del_reals_comp)

lemma does_lift: "does tab m f \<Longrightarrow> does (tab \<circ> fst) (io_lift m) f"
  by (auto simp: does_def io_lift_def split: prod.splits) (metis fst_conv snd_conv)+

lemma does_modify: "does (tab \<circ> fst) (io_modify f) (\<lambda>T. T)"
  by (simp add: does_def io_modify_def)

lemma route_all_does:
  assumes op: "\<And>a n ip r pr. a \<in> {vip, hostIP} \<Longrightarrow> ParseIP ip \<Longrightarrow>
      does tab (io_logged (op a n ip r pr)) (F {(virtual_of a n pr, \<lparr>R_Address = ip, R_Port = r\<rparr>)})"
    and F: "\<And>R S T. F S (F R T) = F (R \<union> S) T" "\<And>T. F {} T = T"
    and ips: "\<And>ip q. (ip, q) \<in> pairs eps \<Longrightarrow> ParseIP ip"
  shows "does tab (route_all op vip hostIP maps eps) (F (routes vip hostIP maps (pairs eps)))"
proof -
  have one: "does tab (case m (BP_Port q) of None \<Rightarrow> io_return ()
       | Some n \<Rightarrow> io_logged (op a (u16 n) ip (u16 (BP_Port q)) (BP_Protocol q))) (F (routes_to a m {(ip, q)}))"
    if "a \<in> {vip, hostIP}" "ParseIP ip" for a ip q m
  proof (cases "m (BP_Port q)")
    case None
    then have "routes_to a m {(ip, q)} = {}" by (auto simp: routes_to_def)
    with None does_return [of tab] show ?thesis by (simp add: F(2) [abs_def])
  next
    case (Some n)
    then have "routes_to a m {(ip, q)} = {(virtual_of a (u16 n) (BP_Protocol q), \<lparr>R_Address = ip, R_Port = u16 (BP_Port q)\<rparr>)}"
      by (auto simp: routes_to_def)
    with Some op [OF that] show ?thesis by simp
  qed
  have port: "does tab (route_port op vip hostIP maps ip q) (F (routes vip hostIP maps {(ip, q)}))" if "ParseIP ip" for ip q
    unfolding route_port_def routes_def F(1) [symmetric] by (intro does_bind one that) simp_all
  have fold_F: "fold (\<lambda>x. F (R x)) xs T = F (\<Union>x\<in>set xs. R x) T" for R :: "'z \<Rightarrow> _" and xs T
    by (induction xs arbitrary: T) (simp_all add: F)
  have U: "(\<Union>q\<in>set qs. routes vip hostIP maps {(ip, q)}) = routes vip hostIP maps (Pair ip ` set qs)" for ip qs
    by (induction qs) (simp_all flip: routes_Un)
  have endpoint: "does tab (io_each (route_port op vip hostIP maps (BE_IP ep)) (BE_Ports ep)) (F (routes vip hostIP maps (Pair (BE_IP ep) ` set (BE_Ports ep))))"
    if "ep \<in> set eps" for ep
  proof -
    have "does tab (io_each (route_port op vip hostIP maps (BE_IP ep)) (BE_Ports ep))
        (fold (\<lambda>q. F (routes vip hostIP maps {(BE_IP ep, q)})) (BE_Ports ep))"
      by (intro does_each port ips [of "BE_IP ep"]) (use that in \<open>auto simp: pairs_def\<close>)
    moreover have "fold (\<lambda>q. F (routes vip hostIP maps {(BE_IP ep, q)})) (BE_Ports ep) =
        F (routes vip hostIP maps (Pair (BE_IP ep) ` set (BE_Ports ep)))"
      by (simp add: fun_eq_iff fold_F U)
    ultimately show ?thesis by simp
  qed
  have "does tab (route_all op vip hostIP maps eps) (fold (\<lambda>ep. F (routes vip hostIP maps (Pair (BE_IP ep) ` set (BE_Ports ep)))) eps)"
    unfolding route_all_def by (intro does_each endpoint)
  moreover have "(\<Union>ep\<in>set eps. routes vip hostIP maps (Pair (BE_IP ep) ` set (BE_Ports ep))) = routes vip hostIP maps (pairs eps)"
    by (induction eps) simp_all
  then have "fold (\<lambda>ep. F (routes vip hostIP maps (Pair (BE_IP ep) ` set (BE_Ports ep)))) eps = F (routes vip hostIP maps (pairs eps))"
    by (simp add: fun_eq_iff fold_F)
  ultimately show ?thesis by simp
qed

text \<open>A step that returns and replaces the table on some keys, if it holds there what is expected.\<close>

definition resets :: "('s \<Rightarrow> table) \<Rightarrow> ('s, unit) io \<Rightarrow> virtual set \<Rightarrow> table \<Rightarrow> table \<Rightarrow> bool" where
  "resets tab m K A B \<longleftrightarrow> (\<forall>s. (\<forall>k\<in>K. tab s k = A k) \<longrightarrow>
     fst (m s) = Inr () \<and> tab (snd (m s)) = (\<lambda>k. if k \<in> K then B k else tab s k))"

lemma resetsD:
  assumes "resets tab m K A B" "\<And>k. k \<in> K \<Longrightarrow> tab s k = A k"
  shows "fst (m s) = Inr ()" "tab (snd (m s)) = (\<lambda>k. if k \<in> K then B k else tab s k)"
  using assms unfolding resets_def by blast+

lemma resets_return: "resets tab (io_return ()) {} A B"
  by (simp add: resets_def io_return_def)

lemma resets_bind:
  assumes "resets tab m K A B" "resets tab n L A B" "K \<inter> L = {}"
  shows "resets tab (io_bind m (\<lambda>_. n)) (K \<union> L) A B"
  unfolding resets_def
proof (intro allI impI)
  fix s assume pre: "\<forall>k\<in>K \<union> L. tab s k = A k"
  with assms(1) have 1: "fst (m s) = Inr ()" "tab (snd (m s)) = (\<lambda>k. if k \<in> K then B k else tab s k)"
    by (simp_all add: resets_def)
  with pre assms(3) have "\<forall>k\<in>L. tab (snd (m s)) k = A k" by auto
  with assms(2) have 2: "fst (n (snd (m s))) = Inr ()"
    "tab (snd (n (snd (m s)))) = (\<lambda>k. if k \<in> L then B k else tab (snd (m s)) k)"
    by (simp_all add: resets_def)
  have "io_bind m (\<lambda>_. n) s = n (snd (m s))" using 1(1) by (cases "m s") (simp add: io_bind_def)
  with 1 2 show "fst (io_bind m (\<lambda>_. n) s) = Inr () \<and>
      tab (snd (io_bind m (\<lambda>_. n) s)) = (\<lambda>k. if k \<in> K \<union> L then B k else tab s k)" by auto
qed

lemma resets_each:
  assumes "\<And>x. x \<in> set xs \<Longrightarrow> resets tab (a x) (K x) A B" "distinct xs"
    "\<And>x y. x \<in> set xs \<Longrightarrow> y \<in> set xs \<Longrightarrow> x \<noteq> y \<Longrightarrow> K x \<inter> K y = {}"
  shows "resets tab (io_each a xs) (\<Union>x\<in>set xs. K x) A B"
  using assms
proof (induction xs)
  case Nil
  show ?case using resets_return by simp
next
  case (Cons x xs)
  have "K x \<inter> (\<Union>y\<in>set xs. K y) = {}"
    using Cons.prems(2,3) by fastforce
  from resets_bind [OF Cons.prems(1) Cons.IH this] Cons.prems show ?case by simp
qed

lemma reals_at_Un: "reals_at (X \<union> Y) t = reals_at X t \<union> reals_at Y t"
  by (auto simp: reals_at_def ips_at_def)

context ipvs_host
begin

lemma add_route: "ParseIP a \<Longrightarrow> ParseIP ip \<Longrightarrow>
    does tab (io_logged (AddRoute H a n ip r pr)) (add_reals {(virtual_of a n pr, \<lparr>R_Address = ip, R_Port = r\<rparr>)})"
  by (intro does_logged) (simp_all add: AddRoute_def new_destination)

lemma delete_route: "ParseIP a \<Longrightarrow> ParseIP ip \<Longrightarrow>
    does tab (io_logged (DeleteRoute H a n ip r pr)) (del_reals {(virtual_of a n pr, \<lparr>R_Address = ip, R_Port = r\<rparr>)})"
  by (intro does_logged) (simp_all add: DeleteRoute_def del_destination)

lemma add_routes:
  assumes "ParseIP vip" "ParseIP hostIP" "\<And>ip q. (ip, q) \<in> pairs eps \<Longrightarrow> ParseIP ip"
  shows "does tab (route_all (AddRoute H) vip hostIP maps eps) (add_reals (routes vip hostIP maps (pairs eps)))"
  by (rule route_all_does) (use assms in \<open>auto intro: add_route simp: add_reals_comp\<close>)

lemma delete_routes:
  assumes "ParseIP vip" "ParseIP hostIP" "\<And>ip q. (ip, q) \<in> pairs eps \<Longrightarrow> ParseIP ip"
  shows "does tab (route_all (DeleteRoute H) vip hostIP maps eps) (del_reals (routes vip hostIP maps (pairs eps)))"
  by (rule route_all_does) (use assms in \<open>auto intro: delete_route simp: del_reals_comp\<close>)

lemma add_addr:
  assumes "ParseCIDR cidr"
  shows "fst (unless_exists f (addAddrToDummy H cidr) s) = Inr ()" "tab (snd (unless_exists f (addAddrToDummy H cidr) s)) = tab s"
proof -
  obtain r1 s1 where 1: "LinkByName H dummy_name s = (r1, s1)" by fastforce
  obtain r s2 where 2: "AddrAdd H dummy_name cidr s1 = (r, s2)" by fastforce
  have "r1 = Inr ()" "tab s1 = tab s" using link_by_name(2) [of dummy_name s] link_by_name(1) [of dummy_name] 1
    by (simp_all add: leaves_def) (metis snd_conv)
  note 1 = 1 this
  have "r \<in> {Inr (), Inl (Failed ''file exists'')}" "tab s2 = tab s1"
    using addr_add(2) [of dummy_name cidr s1] addr_add(1) [of dummy_name cidr] 2 by (simp_all add: leaves_def) (metis snd_conv)
  note 2 = 2 this
  have "addAddrToDummy H cidr s = (r, s2)"
    using 1 2 assms by (simp add: addAddrToDummy_def io_bind_def)
  with 1 2 show "fst (unless_exists f (addAddrToDummy H cidr) s) = Inr ()" "tab (snd (unless_exists f (addAddrToDummy H cidr) s)) = tab s"
    by (auto simp: unless_exists_def io_bind_def io_attempt_def io_return_def)
qed

lemma add_virtual:
  assumes "ParseIP vip" "b \<longrightarrow> ParseCIDR (vip @ ''/32'')" "tab s (virtual_of vip port pr) = None"
  shows "fst (AddVirtual H vip port pr b s) = Inr ()"
    "tab (snd (AddVirtual H vip port pr b s)) = (tab s)(virtual_of vip port pr \<mapsto> {})"
proof -
  obtain s1 where 1: "NewService H (virtual_of vip port pr) s = (Inr (), s1)" "tab s1 = (tab s)(virtual_of vip port pr \<mapsto> {})"
    using new_service(1,3) [where s = s and k = "virtual_of vip port pr"] assms(3) by (metis prod.collapse)
  show "fst (AddVirtual H vip port pr b s) = Inr ()"
    "tab (snd (AddVirtual H vip port pr b s)) = (tab s)(virtual_of vip port pr \<mapsto> {})"
    using 1 assms(1,2) add_addr by (simp_all add: AddVirtual_def io_bind_def io_return_def)
qed

lemma delete_virtual: "ParseIP vip \<Longrightarrow> does tab (io_logged (DeleteVirtual H vip port pr b)) (\<lambda>T. T(virtual_of vip port pr := None))"
proof -
  assume vip: "ParseIP vip"
  have del: "leaves tab (delAddrFromDummy H cidr)" for cidr
    unfolding delAddrFromDummy_def using link_by_name(1) others(1) by (intro leaves_bind) simp_all
  have "fst (DeleteVirtual H vip port pr b s) \<noteq> Inl Panicked \<and>
      tab (snd (DeleteVirtual H vip port pr b s)) = (tab s)(virtual_of vip port pr := None)" for s
  proof -
    obtain r s1 where 1: "DelService H (virtual_of vip port pr) s = (r, s1)" by fastforce
    with del_service [of "virtual_of vip port pr" s] have "r \<noteq> Inl Panicked" "tab s1 = (tab s)(virtual_of vip port pr := None)" by simp_all
    with 1 vip del [unfolded leaves_def] show ?thesis
      by (auto simp: DeleteVirtual_def io_bind_def io_return_def split: sum.splits)
  qed
  then show ?thesis by (intro does_logged) simp_all
qed

lemma add_port_effect:
  assumes "ParseIP (ClusterIP (Svc_Spec svc))" "ParseCIDR (ClusterIP (Svc_Spec svc) @ ''/32'')" "ParseIP hostIP"
    "distinct (port_keys hostIP svc p)" "\<And>k. k \<in> set (port_keys hostIP svc p) \<Longrightarrow> tab s k = None"
  shows "fst (add_port H hostIP svc p (M, N) s) = Inr (M(TargetPort p \<mapsto> Port p), if isNodePort svc then N(TargetPort p \<mapsto> NodePort p) else N)"
    "tab (snd (add_port H hostIP svc p (M, N) s)) = (\<lambda>k. if k \<in> set (port_keys hostIP svc p) then Some {} else tab s k)"
proof -
  let ?v = "virtual_of (ClusterIP (Svc_Spec svc)) (u16 (Port p)) (ServicePort_Protocol p)"
  let ?n = "virtual_of hostIP (u16 (NodePort p)) (ServicePort_Protocol p)"
  have "tab s ?v = None" using assms(5) by (simp add: port_keys_def)
  with add_virtual [OF assms(1) _ this, where b = True] assms(2) obtain s1 where 1: "tab s1 = (tab s)(?v \<mapsto> {})"
    "AddVirtual H (ClusterIP (Svc_Spec svc)) (u16 (Port p)) (ServicePort_Protocol p) True s = (Inr (), s1)"
    by (metis prod.collapse)
  have "fst (add_port H hostIP svc p (M, N) s) = Inr (M(TargetPort p \<mapsto> Port p), if isNodePort svc then N(TargetPort p \<mapsto> NodePort p) else N) \<and>
    tab (snd (add_port H hostIP svc p (M, N) s)) = (\<lambda>k. if k \<in> set (port_keys hostIP svc p) then Some {} else tab s k)"
  proof (cases "isNodePort svc")
    case False
    with 1 show ?thesis by (auto simp: add_port_def io_bind_def io_attempt_def io_return_def port_keys_def)
  next
    case True
    then have "?v \<noteq> ?n" "tab s ?n = None" using assms(4,5) by (simp_all add: port_keys_def)
    with 1 have "tab s1 ?n = None" by simp
    with add_virtual [OF assms(3) _ this, where b = False] obtain s2 where 2: "tab s2 = (tab s1)(?n \<mapsto> {})"
      "AddVirtual H hostIP (u16 (NodePort p)) (ServicePort_Protocol p) False s1 = (Inr (), s2)"
      by (metis prod.collapse)
    with 1 True show ?thesis by (auto simp: add_port_def io_bind_def io_attempt_def io_return_def port_keys_def)
  qed
  then show "fst (add_port H hostIP svc p (M, N) s) = Inr (M(TargetPort p \<mapsto> Port p), if isNodePort svc then N(TargetPort p \<mapsto> NodePort p) else N)"
    "tab (snd (add_port H hostIP svc p (M, N) s)) = (\<lambda>k. if k \<in> set (port_keys hostIP svc p) then Some {} else tab s k)" by simp_all
qed

lemma add_ports_effect:
  assumes "ParseIP (ClusterIP (Svc_Spec svc))" "ParseCIDR (ClusterIP (Svc_Spec svc) @ ''/32'')" "ParseIP hostIP"
    "distinct (concat (map (port_keys hostIP svc) ps))" "\<And>k. k \<in> set (concat (map (port_keys hostIP svc) ps)) \<Longrightarrow> tab s k = None"
  shows "fst (add_ports H hostIP svc ps maps s) = Inr (fold (\<lambda>p (svcMap, nodeMap). (svcMap(TargetPort p \<mapsto> Port p),
       if isNodePort svc then nodeMap(TargetPort p \<mapsto> NodePort p) else nodeMap)) ps maps) \<and>
    tab (snd (add_ports H hostIP svc ps maps s)) =
      (\<lambda>k. if k \<in> set (concat (map (port_keys hostIP svc) ps)) then Some {} else tab s k)"
  using assms(4,5)
proof (induction ps arbitrary: maps s)
  case Nil
  show ?case by (simp add: io_return_def)
next
  case (Cons p ps)
  obtain M N where maps: "maps = (M, N)" by fastforce
  have "distinct (port_keys hostIP svc p)" "\<And>k. k \<in> set (port_keys hostIP svc p) \<Longrightarrow> tab s k = None"
    using Cons.prems by simp_all
  note eff = add_port_effect [OF assms(1-3) this, of M N]
  define s1 where "s1 = snd (add_port H hostIP svc p (M, N) s)"
  from eff have
    1: "add_port H hostIP svc p (M, N) s = (Inr (M(TargetPort p \<mapsto> Port p), if isNodePort svc then N(TargetPort p \<mapsto> NodePort p) else N), s1)"
      "tab s1 = (\<lambda>k. if k \<in> set (port_keys hostIP svc p) then Some {} else tab s k)"
    by (simp_all only: s1_def prod_eq_iff fst_conv snd_conv simp_thms)
  have "distinct (concat (map (port_keys hostIP svc) ps))" using Cons.prems(1) by simp
  moreover have "tab s1 k = None" if "k \<in> set (concat (map (port_keys hostIP svc) ps))" for k
  proof -
    from Cons.prems(1) that have "k \<notin> set (port_keys hostIP svc p)" by auto
    with 1(2) Cons.prems(2) [of k] that show ?thesis by auto
  qed
  ultimately have IH: "fst (add_ports H hostIP svc ps maps' s1) = Inr (fold (\<lambda>p (svcMap, nodeMap). (svcMap(TargetPort p \<mapsto> Port p),
       if isNodePort svc then nodeMap(TargetPort p \<mapsto> NodePort p) else nodeMap)) ps maps') \<and>
    tab (snd (add_ports H hostIP svc ps maps' s1)) =
      (\<lambda>k. if k \<in> set (concat (map (port_keys hostIP svc) ps)) then Some {} else tab s1 k)" for maps'
    by (rule Cons.IH)
  have "add_ports H hostIP svc (p # ps) maps s = add_ports H hostIP svc ps
      (M(TargetPort p \<mapsto> Port p), if isNodePort svc then N(TargetPort p \<mapsto> NodePort p) else N) s1"
    by (simp add: maps io_bind_def 1(1))
  with IH show ?case by (simp only: maps fold_simps split) (auto simp: 1(2))
qed

end

end
