(* ===== verification/Proxy_Round.thy ===== *)
theory Proxy_Round
  imports Proxy_Tables
begin

text \<open>
  A round of updates of the watcher, handled by the proxy, leads from the right table for the old services to the right one for the new;
  and so do all rounds together.
\<close>

section \<open>One service\<close>

lemma item_table_out: "k \<notin> set (service_keys hostIP (Item_Service item)) \<Longrightarrow> item_table hostIP item k = None"
  by (auto simp: item_table_def in_service_keys find_None split: option.split dest!: find_Some_iff [THEN iffD1])

context ipvs_host
begin

lemma service_dns_leaves: "leaves tab (addServiceNameDNS H svc)" "leaves tab (deleteServiceNameDNS H svc)"
  unfolding addServiceNameDNS_def deleteServiceNameDNS_def Let_def
  by (intro leaves_bind others; simp add: others split: option.split sum.split)+

lemma add_service_resets:
  assumes plain: "plain_service hostIP (Item_Service item)" and host: "ParseIP hostIP" and u: "Update_Service u = Item_Service item"
    and fit: "fitting (Item_Service item) (pairs (EndpointAdditions u))"
    and ips: "\<And>t. ips_at (pairs (EndpointAdditions u)) t = ips_at (backend_pairs item) t"
  shows "resets (tab \<circ> fst) (add_service H hostIP u) (set (service_keys hostIP (Item_Service item))) (\<lambda>_. None) (item_table hostIP item)"
  unfolding resets_def
proof (intro allI impI)
  fix s :: "'s \<times> service_cache"
  let ?svc = "Item_Service item"
  let ?K = "set (service_keys hostIP ?svc)"
  let ?R = "routes (ClusterIP (Svc_Spec ?svc)) hostIP (reverse_maps ?svc) (pairs (EndpointAdditions u))"
  assume pre: "\<forall>k\<in>?K. (tab \<circ> fst) s k = None"
  obtain s0 c where s: "s = (s0, c)" by fastforce
  have ok: "ParseIP (ClusterIP (Svc_Spec ?svc))" "ParseCIDR (ClusterIP (Svc_Spec ?svc) @ ''/32'')"
    "distinct (concat (map (port_keys hostIP ?svc) (Service_Ports (Svc_Spec ?svc))))"
    using plain by (simp_all add: plain_service_def service_keys_def)
  have "tab s0 k = None" if "k \<in> set (concat (map (port_keys hostIP ?svc) (Service_Ports (Svc_Spec ?svc))))" for k
    using pre that by (auto simp: s service_keys_def)
  note eff = add_ports_effect [OF ok(1,2) host ok(3) this, of "(Map.empty, Map.empty)", folded reverse_maps_def service_keys_def]
  define s1 where "s1 = snd (add_ports H hostIP ?svc (Service_Ports (Svc_Spec ?svc)) (Map.empty, Map.empty) s0)"
  from eff have 1: "add_ports H hostIP ?svc (Service_Ports (Svc_Spec ?svc)) (Map.empty, Map.empty) s0 = (Inr (reverse_maps ?svc), s1)"
    "tab s1 = (\<lambda>k. if k \<in> ?K then Some {} else tab s0 k)"
    by (simp_all only: s1_def prod_eq_iff fst_conv snd_conv simp_thms)
  have "ParseIP ip" if "(ip, q) \<in> pairs (EndpointAdditions u)" for ip q
    using fit that unfolding fitting_def by blast
  note routed = add_routes [where eps = "EndpointAdditions u" and maps = "reverse_maps ?svc", OF ok(1) host this]
  define s2 where "s2 = snd (route_all (AddRoute H) (ClusterIP (Svc_Spec ?svc)) hostIP (reverse_maps ?svc) (EndpointAdditions u) s1)"
  from routed have 2: "route_all (AddRoute H) (ClusterIP (Svc_Spec ?svc)) hostIP (reverse_maps ?svc) (EndpointAdditions u) s1 = (Inr (), s2)"
    "tab s2 = add_reals ?R (tab s1)"
    by (simp_all add: does_def s2_def prod_eq_iff)
  have tab2: "tab s2 = (\<lambda>k. if k \<in> ?K then item_table hostIP item k else tab s0 k)"
  proof
    fix k
    show "tab s2 k = (if k \<in> ?K then item_table hostIP item k else tab s0 k)"
    proof (cases "k \<in> ?K")
      case True
      then obtain p where p: "p \<in> set (Service_Ports (Svc_Spec ?svc))" "k \<in> set (port_keys hostIP ?svc p)"
        by (auto simp: in_service_keys)
      from routes_at [OF plain fit p] ips item_table_at [OF plain p] True show ?thesis
        by (simp add: 2(2) 1(2) add_reals_def reals_at_def)
    next
      case False
      with routes_out [OF plain fit False] show ?thesis by (simp add: 2(2) 1(2) add_reals_def option.map_ident)
    qed
  qed
  obtain s3 where 3: "io_logged (addServiceNameDNS H ?svc) s2 = (Inr (), s3)" "tab s3 = tab s2"
    using leaves_logged [OF service_dns_leaves(1)] unfolding does_def by (metis prod.collapse)
  show "fst (add_service H hostIP u s) = Inr () \<and>
      (tab \<circ> fst) (snd (add_service H hostIP u s)) = (\<lambda>k. if k \<in> ?K then item_table hostIP item k else (tab \<circ> fst) s k)"
    using 1(1) 2(1) 3 tab2 by (simp add: s add_service_def u Let_def io_bind_def io_lift_def io_modify_def cong: if_cong)
qed

lemma delete_service_resets:
  assumes "ParseIP (ClusterIP (Svc_Spec (Update_Service u)))" "ParseIP hostIP"
  shows "resets (tab \<circ> fst) (delete_service H hostIP u) (set (service_keys hostIP (Update_Service u))) A (\<lambda>_. None)"
proof -
  let ?svc = "Update_Service u"
  have port: "does tab (delete_port H hostIP ?svc p) (\<lambda>T k. if k \<in> set (port_keys hostIP ?svc p) then None else T k)" for p
  proof (cases "isNodePort ?svc")
    case True
    let ?v = "virtual_of (ClusterIP (Svc_Spec ?svc)) (u16 (Port p)) (ServicePort_Protocol p)"
    let ?n = "virtual_of hostIP (u16 (NodePort p)) (ServicePort_Protocol p)"
    have "does tab (delete_port H hostIP ?svc p) (\<lambda>T. T(?v := None, ?n := None))"
      unfolding delete_port_def using True does_bind [OF delete_virtual [OF assms(1)] delete_virtual [OF assms(2)]] by simp
    moreover have "(\<lambda>T :: table. T(?v := None, ?n := None)) = (\<lambda>T k. if k \<in> set (port_keys hostIP ?svc p) then None else T k)"
      using True by (auto simp: fun_eq_iff port_keys_def)
    ultimately show ?thesis by simp
  next
    case False
    let ?v = "virtual_of (ClusterIP (Svc_Spec ?svc)) (u16 (Port p)) (ServicePort_Protocol p)"
    have "does tab (delete_port H hostIP ?svc p) (\<lambda>T. T(?v := None))"
      unfolding delete_port_def using False does_bind [OF delete_virtual [OF assms(1)] does_return] by simp
    moreover have "(\<lambda>T :: table. T(?v := None)) = (\<lambda>T k. if k \<in> set (port_keys hostIP ?svc p) then None else T k)"
      using False by (auto simp: fun_eq_iff port_keys_def)
    ultimately show ?thesis by simp
  qed
  have "fold (\<lambda>p T k. if k \<in> set (port_keys hostIP ?svc p) then None else T k) ps T =
      (\<lambda>k. if \<exists>p\<in>set ps. k \<in> set (port_keys hostIP ?svc p) then None else T k)" for ps and T :: table
    by (induction ps arbitrary: T) (auto simp: fun_eq_iff)
  with does_each [where a = "delete_port H hostIP ?svc", OF port, where xs = "Service_Ports (Svc_Spec ?svc)"]
  have ports: "does tab (io_each (delete_port H hostIP ?svc) (Service_Ports (Svc_Spec ?svc)))
      (\<lambda>T k. if k \<in> set (service_keys hostIP ?svc) then None else T k)"
    by (simp add: does_def in_service_keys)
  have "does (tab \<circ> fst) (delete_service H hostIP u) (\<lambda>T k. if k \<in> set (service_keys hostIP ?svc) then None else T k)"
    unfolding delete_service_def Let_def
    by (rule does_bind [OF does_lift [OF ports] does_bind [OF does_modify does_lift [OF leaves_logged [OF service_dns_leaves(2)]]]])
  then show ?thesis by (simp add: does_def resets_def)
qed

lemma update_endpoints_resets:
  assumes plain: "plain_service hostIP (Item_Service new)" and host: "ParseIP hostIP"
    and u: "Update_Service u = Item_Service new" "Item_Service old = Item_Service new"
    and fit: "fitting (Item_Service new) (pairs (EndpointAdditions u))" "fitting (Item_Service new) (pairs (EndpointDeletions u))"
    and ips: "\<And>t. ips_at (backend_pairs new) t =
      ips_at (backend_pairs old) t - ips_at (pairs (EndpointDeletions u)) t \<union> ips_at (pairs (EndpointAdditions u)) t"
  shows "resets (tab \<circ> fst) (update_endpoints H hostIP u) (set (service_keys hostIP (Item_Service new)))
    (item_table hostIP old) (item_table hostIP new)"
proof -
  let ?svc = "Item_Service new"
  let ?R = "routes (ClusterIP (Svc_Spec ?svc)) hostIP (reverse_maps ?svc)"
  have ok: "ParseIP (ClusterIP (Svc_Spec ?svc))" using plain by (simp add: plain_service_def)
  have ips_ok: "ParseIP ip" if "(ip, q) \<in> pairs (EndpointAdditions u) \<or> (ip, q) \<in> pairs (EndpointDeletions u)" for ip q
    using fit that unfolding fitting_def by blast
  have eff: "does (tab \<circ> fst) (update_endpoints H hostIP u)
      (\<lambda>T. add_reals (?R (pairs (EndpointAdditions u))) (del_reals (?R (pairs (EndpointDeletions u))) T))"
    unfolding update_endpoints_def Let_def u(1) using ips_ok
    by (intro does_lift does_bind add_routes delete_routes ok host) blast+
  have "add_reals (?R (pairs (EndpointAdditions u))) (del_reals (?R (pairs (EndpointDeletions u))) T) k =
      (if k \<in> set (service_keys hostIP ?svc) then item_table hostIP new k else T k)"
    if pre: "\<forall>k\<in>set (service_keys hostIP ?svc). T k = item_table hostIP old k" for T k
  proof (cases "k \<in> set (service_keys hostIP ?svc)")
    case True
    then obtain p where p: "p \<in> set (Service_Ports (Svc_Spec ?svc))" "k \<in> set (port_keys hostIP ?svc p)"
      by (auto simp: in_service_keys)
    have old: "T k = Some (reals_at (backend_pairs old) (TargetPort p))"
      using pre True item_table_at [of hostIP old p k] plain p u(2) by simp
    have inj: "reals_at X t = (\<lambda>ip. \<lparr>R_Address = ip, R_Port = u16 t\<rparr>) ` ips_at X t" for X t by (simp add: reals_at_def)
    have "reals_at (backend_pairs old) (TargetPort p) - reals_at (pairs (EndpointDeletions u)) (TargetPort p) \<union>
        reals_at (pairs (EndpointAdditions u)) (TargetPort p) = reals_at (backend_pairs new) (TargetPort p)"
      unfolding inj ips [of "TargetPort p"] by (subst image_Un, subst image_set_diff) (auto simp: inj_def)
    with routes_at [OF plain fit(1) p] routes_at [OF plain fit(2) p] item_table_at [OF plain p] True old
    show ?thesis by (simp add: add_reals_def del_reals_def)
  next
    case False
    with routes_out [OF plain fit(1) False] routes_out [OF plain fit(2) False] show ?thesis
      by (cases "T k") (simp_all add: add_reals_def del_reals_def)
  qed
  with eff show ?thesis by (auto simp: does_def resets_def fun_eq_iff)
qed

end

section \<open>One round\<close>

text \<open>
  Consecutive tables of services: an identifier keeps its service, every service is plain, services with different identifiers have no
  virtual server in common, and all addresses of endpoints are addresses.
\<close>

definition item_fits :: "string \<Rightarrow> ServiceItem \<Rightarrow> bool" where
  "item_fits hostIP item \<longleftrightarrow> plain_service hostIP (Item_Service item) \<and> fitting (Item_Service item) (backend_pairs item)"

definition follows :: "string \<Rightarrow> (UID, ServiceItem) gomap \<Rightarrow> (UID, ServiceItem) gomap \<Rightarrow> bool" where
  "follows hostIP old new \<longleftrightarrow>
     distinct (map fst old) \<and> distinct (map fst new) \<and>
     (\<forall>u a. (u, a) \<in> set old \<union> set new \<longrightarrow> item_fits hostIP a) \<and>
     (\<forall>u a b. (u, a) \<in> set old \<longrightarrow> (u, b) \<in> set new \<longrightarrow> Item_Service a = Item_Service b) \<and>
     (\<forall>u a v b. (u, a) \<in> set old \<union> set new \<longrightarrow> (v, b) \<in> set old \<union> set new \<longrightarrow> u \<noteq> v \<longrightarrow>
        set (service_keys hostIP (Item_Service a)) \<inter> set (service_keys hostIP (Item_Service b)) = {})"

lemma followsD:
  assumes "follows hostIP old new"
  shows "distinct (map fst old)" "distinct (map fst new)"
    "(u, a) \<in> set old \<union> set new \<Longrightarrow> item_fits hostIP a"
    "(u, a) \<in> set old \<Longrightarrow> (u, b) \<in> set new \<Longrightarrow> Item_Service a = Item_Service b"
    "(u, a) \<in> set old \<union> set new \<Longrightarrow> (v, b) \<in> set old \<union> set new \<Longrightarrow> u \<noteq> v \<Longrightarrow>
       set (service_keys hostIP (Item_Service a)) \<inter> set (service_keys hostIP (Item_Service b)) = {}"
  using assms unfolding follows_def by meson+

lemma wanted_table_at:
  assumes "distinct (map fst items)" "(u, item) \<in> set items" "k \<in> set (service_keys hostIP (Item_Service item))"
    "\<And>v b. (v, b) \<in> set items \<Longrightarrow> v \<noteq> u \<Longrightarrow> k \<notin> set (service_keys hostIP (Item_Service b))"
  shows "wanted_table hostIP items k = item_table hostIP item k"
proof -
  have "List.find (\<lambda>(u, item). k \<in> set (service_keys hostIP (Item_Service item))) items = Some (u, item)"
  proof (rule find_unique)
    fix y assume y: "y \<in> set items" "case y of (u, item) \<Rightarrow> k \<in> set (service_keys hostIP (Item_Service item))"
    then obtain v b where "y = (v, b)" "(v, b) \<in> set items" "k \<in> set (service_keys hostIP (Item_Service b))" by fastforce
    moreover from this assms(4) have "v = u" by blast
    ultimately show "y = (u, item)" using eq_key_imp_eq_value [OF assms(1)] assms(2) by blast
  qed (use assms in simp_all)
  then show ?thesis by (simp add: wanted_table_def)
qed

lemma wanted_table_out:
  assumes "\<And>u item. (u, item) \<in> set items \<Longrightarrow> k \<notin> set (service_keys hostIP (Item_Service item))"
  shows "wanted_table hostIP items k = None"
proof -
  have "List.find (\<lambda>(u, item). k \<in> set (service_keys hostIP (Item_Service item))) items = None"
    using assms by (auto simp: find_None)
  then show ?thesis by (simp add: wanted_table_def)
qed

lemma item_table_cong:
  assumes "Item_Service a = Item_Service b" "backend_pairs a = backend_pairs b"
  shows "item_table hostIP a = item_table hostIP b"
  by (simp only: item_table_def fun_eq_iff assms simp_thms)

lemma wanted_table_settle:
  assumes "fair_choices V"
  shows "wanted_table hostIP (settle_items V old items) = wanted_table hostIP items"
proof
  fix k
  show "wanted_table hostIP (settle_items V old items) k = wanted_table hostIP items k"
    using assms item_table_cong [OF settle_item_same [OF assms]]
    by (induction items) (auto simp: wanted_table_def settle_items_def split: prod.splits)
qed

lemma io_each_map: "io_each f (map g xs) = io_each (\<lambda>x. f (g x)) xs"
  by (induction xs) simp_all

lemma resets_cong:
  assumes "resets tab m K A B" "\<And>k. k \<in> K \<Longrightarrow> A k = A' k" "\<And>k. k \<in> K \<Longrightarrow> B k = B' k"
  shows "resets tab m K A' B'"
  using assms by (auto simp: resets_def fun_eq_iff)

text \<open>The keys of an entry, and the update that a comparison gives.\<close>

definition entry_keys :: "string \<Rightarrow> UID \<times> ServiceItem \<Rightarrow> virtual set" where
  "entry_keys hostIP e = set (service_keys hostIP (Item_Service (snd e)))"

definition update_of :: "choices \<Rightarrow> (UID, ServiceItem) gomap \<Rightarrow> UID \<times> ServiceItem \<Rightarrow> ServiceUpdateSingle" where
  "update_of V old e = fst (snd (calculateDiff V (map_of old (fst e)) (snd e)))"

definition differs :: "choices \<Rightarrow> (UID, ServiceItem) gomap \<Rightarrow> UID \<times> ServiceItem \<Rightarrow> bool" where
  "differs V old e = fst (calculateDiff V (map_of old (fst e)) (snd e))"

lemma service_updates_eq:
  "service_updates V old new =
    send_some ServiceAdd (map (update_of V old) (filter (\<lambda>e. map_of old (fst e) = None) (visit_services V new))) @
    send_some ServiceDelete (map (\<lambda>e. \<lparr>Update_Service = Item_Service (snd e), EndpointAdditions = [], EndpointDeletions = []\<rparr>)
      (filter (\<lambda>e. map_of new (fst e) = None) (visit_services V old))) @
    send_some ServiceEndpointsUpdate (map (update_of V old)
      (filter (\<lambda>e. map_of old (fst e) \<noteq> None \<and> differs V old e) (visit_services V new)))"
proof -
  have op: "snd (snd (calculateDiff V o' item)) = (if o' = None then ServiceAdd else ServiceEndpointsUpdate)"
    "fst (calculateDiff V None item)" for o' item
    using calculateDiff_simps(2,3) by (metis prod.collapse)+
  have adds: "map (fst \<circ> snd) (filter (\<lambda>(diff, update, op). op = ServiceAdd) (filter fst (map (\<lambda>(u, newItem). calculateDiff V (map_of old u) newItem) xs)))
     = map (update_of V old) (filter (\<lambda>e. map_of old (fst e) = None) xs)" for xs
    using op by (induction xs) (auto simp: update_of_def case_prod_beta)
  have upds: "map (fst \<circ> snd) (filter (\<lambda>(diff, update, op). op \<noteq> ServiceAdd) (filter fst (map (\<lambda>(u, newItem). calculateDiff V (map_of old u) newItem) xs)))
     = map (update_of V old) (filter (\<lambda>e. map_of old (fst e) \<noteq> None \<and> differs V old e) xs)" for xs
    using op by (induction xs) (auto simp: update_of_def differs_def case_prod_beta)
  show ?thesis
    unfolding service_updates_def Let_def adds upds by (simp add: split_def)
qed

lemma keys_apart:
  assumes "follows hostIP old new" "e \<in> set old \<union> set new" "f \<in> set old \<union> set new" "fst e \<noteq> fst f"
  shows "entry_keys hostIP e \<inter> entry_keys hostIP f = {}"
  using followsD(5) [OF assms(1), of "fst e" "snd e" "fst f" "snd f"] assms(2-4) by (simp add: entry_keys_def)

lemma wanted_at_entry:
  assumes "follows hostIP old new" "e \<in> set xs" "k \<in> entry_keys hostIP e" "xs = old \<or> xs = new"
  shows "wanted_table hostIP xs k = item_table hostIP (snd e) k"
proof (rule wanted_table_at)
  show "distinct (map fst xs)" using followsD(1,2) [OF assms(1)] assms(4) by blast
  show "(fst e, snd e) \<in> set xs" "k \<in> set (service_keys hostIP (Item_Service (snd e)))"
    using assms(2,3) by (simp_all add: entry_keys_def)
  show "k \<notin> set (service_keys hostIP (Item_Service b))" if "(v, b) \<in> set xs" "v \<noteq> fst e" for v b
    using keys_apart [OF assms(1), of "(v, b)" e] that assms(2-4) by (auto simp: entry_keys_def)
qed

lemma wanted_no_entry:
  assumes "follows hostIP old new" "e \<in> set old \<union> set new" "k \<in> entry_keys hostIP e" "xs = old \<or> xs = new" "fst e \<notin> fst ` set xs"
  shows "wanted_table hostIP xs k = None"
proof (rule wanted_table_out)
  fix v b assume vb: "(v, b) \<in> set xs"
  with assms(5) have "fst e \<noteq> v" by (metis fst_conv image_eqI)
  with keys_apart [OF assms(1), of e "(v, b)"] vb assms(2-4) show "k \<notin> set (service_keys hostIP (Item_Service b))"
    by (auto simp: entry_keys_def)
qed

lemma map_of_fst_None: "map_of xs k = None \<longleftrightarrow> k \<notin> fst ` set xs"
  by (simp add: map_of_eq_None_iff)

lemma update_of_facts:
  assumes V: "fair_choices V" and fol: "follows hostIP old new" and e: "e \<in> set new"
  shows "Update_Service (update_of V old e) = Item_Service (snd e)"
    "fitting (Item_Service (snd e)) (pairs (EndpointAdditions (update_of V old e)))"
    "fitting (Item_Service (snd e)) (pairs (EndpointDeletions (update_of V old e)))"
    "ips_at (backend_pairs (snd e)) t = ips_at (old_pairs (map_of old (fst e))) t -
       ips_at (pairs (EndpointDeletions (update_of V old e))) t \<union> ips_at (pairs (EndpointAdditions (update_of V old e))) t"
    "\<not> differs V old e \<Longrightarrow> EndpointAdditions (update_of V old e) = [] \<and> EndpointDeletions (update_of V old e) = []"
proof -
  obtain d u op where d: "calculateDiff V (map_of old (fst e)) (snd e) = (d, u, op)" by (metis surj_pair)
  then have u: "update_of V old e = u" "differs V old e = d" by (simp_all add: update_of_def differs_def)
  have fits: "item_fits hostIP (snd e)" using followsD(3) [OF fol, of "fst e" "snd e"] e by simp
  show "Update_Service (update_of V old e) = Item_Service (snd e)" using calculateDiff_simps(1) [OF d] u by simp
  show "\<not> differs V old e \<Longrightarrow> EndpointAdditions (update_of V old e) = [] \<and> EndpointDeletions (update_of V old e) = []"
    using calculateDiff_simps(4) [OF d] u by simp
  show "fitting (Item_Service (snd e)) (pairs (EndpointAdditions (update_of V old e)))"
    using fits calculateDiff_sub(2) [OF V d] u unfolding item_fits_def fitting_def by blast
  have "fitting (Item_Service (snd e)) (old_pairs (map_of old (fst e)))"
  proof (cases "map_of old (fst e)")
    case (Some o')
    then have "(fst e, o') \<in> set old" by (rule map_of_SomeD)
    with followsD(3) [OF fol, of "fst e" o'] followsD(4) [OF fol, of "fst e" o' "snd e"] e
    have "fitting (Item_Service (snd e)) (backend_pairs o')" by (simp add: item_fits_def)
    with Some show ?thesis by (simp add: old_pairs_def)
  qed (simp add: old_pairs_def fitting_def)
  then show "fitting (Item_Service (snd e)) (pairs (EndpointDeletions (update_of V old e)))"
    using calculateDiff_sub(1) [OF V d] u unfolding fitting_def by blast
  show "ips_at (backend_pairs (snd e)) t = ips_at (old_pairs (map_of old (fst e))) t -
       ips_at (pairs (EndpointDeletions (update_of V old e))) t \<union> ips_at (pairs (EndpointAdditions (update_of V old e))) t"
    using calculateDiff_ips [OF V d] u by simp
qed

text \<open>A service whose comparison finds no difference has the table it had.\<close>

lemma same_table:
  assumes V: "fair_choices V" and fol: "follows hostIP old new" and e: "e \<in> set new" "map_of old (fst e) \<noteq> None" "\<not> differs V old e"
    and k: "k \<in> entry_keys hostIP e"
  shows "wanted_table hostIP old k = wanted_table hostIP new k"
proof -
  from e(2) obtain a where a: "map_of old (fst e) = Some a" by blast
  then have old: "(fst e, a) \<in> set old" by (rule map_of_SomeD)
  have svc: "Item_Service a = Item_Service (snd e)" using followsD(4) [OF fol old] e(1) by simp
  have "ips_at (backend_pairs (snd e)) t = ips_at (backend_pairs a) t" for t
    using update_of_facts(4,5) [OF V fol e(1)] e(3) a by (simp add: old_pairs_def ips_at_def)
  then have "item_table hostIP a k = item_table hostIP (snd e) k"
    by (simp add: item_table_def svc reals_at_def cong: option.case_cong)
  moreover have "k \<in> entry_keys hostIP (fst e, a)" using k svc by (simp add: entry_keys_def)
  ultimately show ?thesis
    using wanted_at_entry [OF fol old, of k] wanted_at_entry [OF fol e(1) k] by simp
qed

section \<open>A list of updates\<close>

text \<open>\<open>leads_to\<close>: handling the updates one after the other takes the table from one to the other, and every handler returns.\<close>

definition handles :: "('s \<Rightarrow> table) \<Rightarrow> 's host \<Rightarrow> string \<Rightarrow> ServiceUpdate \<Rightarrow> table \<Rightarrow> table \<Rightarrow> bool" where
  "handles tab H hostIP u T T' \<longleftrightarrow> (\<forall>s. tab (fst s) = T \<longrightarrow>
     fst (proxy_iteration H hostIP (ServiceInput u) s) = Inr () \<and> tab (fst (snd (proxy_iteration H hostIP (ServiceInput u) s))) = T')"

fun leads_to :: "('s \<Rightarrow> table) \<Rightarrow> 's host \<Rightarrow> string \<Rightarrow> ServiceUpdate list \<Rightarrow> table \<Rightarrow> table \<Rightarrow> bool" where
  "leads_to tab H hostIP [] T T' = (T = T')"
| "leads_to tab H hostIP (u # us) T T' = (\<exists>T1. handles tab H hostIP u T T1 \<and> leads_to tab H hostIP us T1 T')"

lemma leads_to_append: "leads_to tab H hostIP us T T1 \<Longrightarrow> leads_to tab H hostIP vs T1 T2 \<Longrightarrow> leads_to tab H hostIP (us @ vs) T T2"
  by (induction us arbitrary: T) auto

lemma leads_to_some:
  fixes tab :: "'s \<Rightarrow> table"
  assumes m: "resets (tab \<circ> fst) m K A B" and T: "\<And>k. k \<in> K \<Longrightarrow> T k = A k"
    and run: "\<And>s. us \<noteq> [] \<Longrightarrow> proxy_iteration H hostIP (ServiceInput \<lparr>Updates = us, Update_Op = op\<rparr>) s = m s" and none: "us = [] \<Longrightarrow> K = {}"
  shows "leads_to tab H hostIP (send_some op us) T (\<lambda>k. if k \<in> K then B k else T k)"
proof (cases "us = []")
  case True
  with none show ?thesis by (simp add: send_some_def)
next
  case False
  have "handles tab H hostIP \<lparr>Updates = us, Update_Op = op\<rparr> T (\<lambda>k. if k \<in> K then B k else T k)"
    unfolding handles_def run [OF False]
  proof (intro allI impI)
    fix s :: "'s \<times> service_cache" assume s: "tab (fst s) = T"
    with T have "(tab \<circ> fst) s k = A k" if "k \<in> K" for k using that by simp
    from resetsD [OF m this] s show "fst (m s) = Inr () \<and> tab (fst (snd (m s))) = (\<lambda>k. if k \<in> K then B k else T k)"
      by (simp cong: if_cong)
  qed
  with False show ?thesis by (simp add: send_some_def)
qed

definition union_keys :: "string \<Rightarrow> (UID \<times> ServiceItem) list \<Rightarrow> virtual set" where
  "union_keys hostIP es = (\<Union>e\<in>set es. entry_keys hostIP e)"

lemma entries_reset:
  assumes fol: "follows hostIP old new" and es: "set es \<subseteq> set xs" "distinct (map fst es)" "xs = old \<or> xs = new"
    and one: "\<And>e. e \<in> set es \<Longrightarrow> resets tab (a (g e)) (entry_keys hostIP e) (wanted_table hostIP old) (wanted_table hostIP new)"
  shows "resets tab (io_each a (map g es)) (union_keys hostIP es) (wanted_table hostIP old) (wanted_table hostIP new)"
  unfolding io_each_map union_keys_def
proof (rule resets_each)
  show "distinct es" using es(2) by (simp add: distinct_map)
  fix e f assume "e \<in> set es" "f \<in> set es" "e \<noteq> f"
  moreover from this es(2) have "fst e \<noteq> fst f" by (metis distinct_map inj_onD)
  ultimately show "entry_keys hostIP e \<inter> entry_keys hostIP f = {}"
    using keys_apart [OF fol] es(1,3) by blast
qed (rule one)

lemma visited_entries:
  assumes "fair_choices V" "distinct (map fst xs)"
  shows "set (filter P (visit_services V xs)) \<subseteq> set xs" "distinct (map fst (filter P (visit_services V xs)))"
proof -
  from fair_sets(1) [OF assms(1)] show "set (filter P (visit_services V xs)) \<subseteq> set xs" by auto
  have "mset (map fst (visit_services V xs)) = mset (map fst xs)" using fair_sets(5) [OF assms(1)] by simp
  with assms(2) have "distinct (map fst (visit_services V xs))" by (metis mset_eq_imp_distinct_iff)
  then show "distinct (map fst (filter P (visit_services V xs)))" by (simp add: distinct_map_filter)
qed

context ipvs_host
begin

lemma add_entry:
  assumes V: "fair_choices V" and fol: "follows hostIP old new" and host: "ParseIP hostIP" and e: "e \<in> set new" "map_of old (fst e) = None"
  shows "resets (tab \<circ> fst) (add_service H hostIP (update_of V old e)) (entry_keys hostIP e) (wanted_table hostIP old) (wanted_table hostIP new)"
proof (rule resets_cong)
  note facts = update_of_facts [OF V fol e(1)]
  have plain: "plain_service hostIP (Item_Service (snd e))"
    using followsD(3) [OF fol, of "fst e" "snd e"] e(1) by (simp add: item_fits_def)
  have "ips_at (pairs (EndpointAdditions (update_of V old e))) t = ips_at (backend_pairs (snd e)) t" for t
    using facts(4) [of t] e(2) by (simp add: old_pairs_def ips_at_def)
  then show "resets (tab \<circ> fst) (add_service H hostIP (update_of V old e)) (entry_keys hostIP e) (\<lambda>_. None) (item_table hostIP (snd e))"
    unfolding entry_keys_def by (intro add_service_resets plain host facts(1,2))
  fix k assume k: "k \<in> entry_keys hostIP e"
  show "None = wanted_table hostIP old k"
    using wanted_no_entry [OF fol _ k, of old] e by (simp add: map_of_fst_None)
  show "item_table hostIP (snd e) k = wanted_table hostIP new k" using wanted_at_entry [OF fol e(1) k] by simp
qed

lemma delete_entry:
  assumes fol: "follows hostIP old new" and host: "ParseIP hostIP" and e: "e \<in> set old" "map_of new (fst e) = None"
  shows "resets (tab \<circ> fst) (delete_service H hostIP \<lparr>Update_Service = Item_Service (snd e), EndpointAdditions = [], EndpointDeletions = []\<rparr>)
    (entry_keys hostIP e) (wanted_table hostIP old) (wanted_table hostIP new)"
proof (rule resets_cong)
  have "ParseIP (ClusterIP (Svc_Spec (Item_Service (snd e))))"
    using followsD(3) [OF fol, of "fst e" "snd e"] e(1) by (simp add: item_fits_def plain_service_def)
  then show "resets (tab \<circ> fst) (delete_service H hostIP \<lparr>Update_Service = Item_Service (snd e), EndpointAdditions = [], EndpointDeletions = []\<rparr>)
    (entry_keys hostIP e) (wanted_table hostIP old) (\<lambda>_. None)"
    using delete_service_resets [OF _ host, of "\<lparr>Update_Service = Item_Service (snd e), EndpointAdditions = [], EndpointDeletions = []\<rparr>"]
    by (simp add: entry_keys_def)
  fix k assume k: "k \<in> entry_keys hostIP e"
  show "None = wanted_table hostIP new k"
    using wanted_no_entry [OF fol _ k, of new] e by (simp add: map_of_fst_None)
qed simp

lemma update_entry:
  assumes V: "fair_choices V" and fol: "follows hostIP old new" and host: "ParseIP hostIP" and e: "e \<in> set new" "map_of old (fst e) \<noteq> None"
  shows "resets (tab \<circ> fst) (update_endpoints H hostIP (update_of V old e)) (entry_keys hostIP e) (wanted_table hostIP old) (wanted_table hostIP new)"
proof -
  note facts = update_of_facts [OF V fol e(1)]
  from e(2) obtain a where a: "map_of old (fst e) = Some a" by blast
  then have old: "(fst e, a) \<in> set old" by (rule map_of_SomeD)
  have svc: "Item_Service a = Item_Service (snd e)" using followsD(4) [OF fol old] e(1) by simp
  have plain: "plain_service hostIP (Item_Service (snd e))"
    using followsD(3) [OF fol, of "fst e" "snd e"] e(1) by (simp add: item_fits_def)
  have ips: "ips_at (backend_pairs (snd e)) t = ips_at (backend_pairs a) t -
       ips_at (pairs (EndpointDeletions (update_of V old e))) t \<union> ips_at (pairs (EndpointAdditions (update_of V old e))) t" for t
    using facts(4) [of t] a by (simp add: old_pairs_def)
  show ?thesis
  proof (rule resets_cong)
    from ips show "resets (tab \<circ> fst) (update_endpoints H hostIP (update_of V old e)) (entry_keys hostIP e) (item_table hostIP a) (item_table hostIP (snd e))"
      unfolding entry_keys_def by (intro update_endpoints_resets plain host facts(1,2,3) svc)
    fix k assume k: "k \<in> entry_keys hostIP e"
    then have "k \<in> entry_keys hostIP (fst e, a)" using svc by (simp add: entry_keys_def)
    from wanted_at_entry [OF fol old this] show "item_table hostIP a k = wanted_table hostIP old k" by simp
    show "item_table hostIP (snd e) k = wanted_table hostIP new k" using wanted_at_entry [OF fol e(1) k] by simp
  qed
qed

lemma round_leads:
  assumes V: "fair_choices V" and fol: "follows hostIP old new" and host: "ParseIP hostIP"
  shows "leads_to tab H hostIP (service_updates V old new) (wanted_table hostIP old) (wanted_table hostIP new)"
proof -
  let ?W0 = "wanted_table hostIP old" and ?W1 = "wanted_table hostIP new"
  define adds where "adds = filter (\<lambda>e. map_of old (fst e) = None) (visit_services V new)"
  define dels where "dels = filter (\<lambda>e. map_of new (fst e) = None) (visit_services V old)"
  define upds where "upds = filter (\<lambda>e. map_of old (fst e) \<noteq> None \<and> differs V old e) (visit_services V new)"
  let ?del = "\<lambda>e :: UID \<times> ServiceItem. \<lparr>Update_Service = Item_Service (snd e), EndpointAdditions = [], EndpointDeletions = []\<rparr>"
  note seen = visited_entries [OF V followsD(1) [OF fol]] visited_entries [OF V followsD(2) [OF fol]]
  have sub: "set adds \<subseteq> set new" "set dels \<subseteq> set old" "set upds \<subseteq> set new"
    "distinct (map fst adds)" "distinct (map fst dels)" "distinct (map fst upds)"
    unfolding adds_def dels_def upds_def by (rule seen)+
  have in_adds: "map_of old (fst e) = None" if "e \<in> set adds" for e using that by (simp add: adds_def)
  have in_dels: "map_of new (fst e) = None" if "e \<in> set dels" for e using that by (simp add: dels_def)
  have in_upds: "map_of old (fst e) \<noteq> None" if "e \<in> set upds" for e using that by (simp add: upds_def)
  have r1: "resets (tab \<circ> fst) (io_each (add_service H hostIP) (map (update_of V old) adds)) (union_keys hostIP adds) ?W0 ?W1"
    using sub(1) in_adds by (intro entries_reset [OF fol sub(1,4)] add_entry V fol host) auto
  have r2: "resets (tab \<circ> fst) (io_each (delete_service H hostIP) (map ?del dels)) (union_keys hostIP dels) ?W0 ?W1"
    using sub(2) in_dels by (intro entries_reset [OF fol sub(2,5)] delete_entry fol host) auto
  have r3: "resets (tab \<circ> fst) (io_each (update_endpoints H hostIP) (map (update_of V old) upds)) (union_keys hostIP upds) ?W0 ?W1"
    using sub(3) in_upds by (intro entries_reset [OF fol sub(3,6)] update_entry V fol host) auto
  have apart: "union_keys hostIP xs \<inter> union_keys hostIP ys = {}"
    if "set xs \<subseteq> set old \<union> set new" "set ys \<subseteq> set old \<union> set new" "\<And>e f. e \<in> set xs \<Longrightarrow> f \<in> set ys \<Longrightarrow> fst e \<noteq> fst f" for xs ys
    using keys_apart [OF fol] that unfolding union_keys_def by blast
  have dels_old: "map_of old (fst e) \<noteq> None" if "e \<in> set dels" for e using that sub(2) unfolding map_of_fst_None by blast
  have upds_new: "map_of new (fst e) \<noteq> None" if "e \<in> set upds" for e using that sub(3) unfolding map_of_fst_None by blast
  have subs: "set adds \<subseteq> set old \<union> set new" "set dels \<subseteq> set old \<union> set new" "set upds \<subseteq> set old \<union> set new"
    using sub(1-3) by blast+
  have ad: "union_keys hostIP adds \<inter> union_keys hostIP dels = {}"
    by (rule apart [OF subs(1,2)]) (metis in_adds dels_old)
  have au: "union_keys hostIP adds \<inter> union_keys hostIP upds = {}"
    by (rule apart [OF subs(1,3)]) (metis in_adds in_upds)
  have du: "union_keys hostIP dels \<inter> union_keys hostIP upds = {}"
    by (rule apart [OF subs(2,3)]) (metis in_dels upds_new)
  define T1 where "T1 = (\<lambda>k. if k \<in> union_keys hostIP adds then ?W1 k else ?W0 k)"
  define T2 where "T2 = (\<lambda>k. if k \<in> union_keys hostIP dels then ?W1 k else T1 k)"
  define T3 where "T3 = (\<lambda>k. if k \<in> union_keys hostIP upds then ?W1 k else T2 k)"
  have l1: "leads_to tab H hostIP (send_some ServiceAdd (map (update_of V old) adds)) ?W0 T1"
    unfolding T1_def by (rule leads_to_some [OF r1]) (simp_all add: proxy_iteration_def HandleServiceAdditions_def union_keys_def)
  have l2: "leads_to tab H hostIP (send_some ServiceDelete (map ?del dels)) T1 T2"
    unfolding T2_def by (rule leads_to_some [OF r2])
      (use ad in \<open>auto simp: T1_def proxy_iteration_def HandleServiceDeletions_def union_keys_def\<close>)
  have l3: "leads_to tab H hostIP (send_some ServiceEndpointsUpdate (map (update_of V old) upds)) T2 T3"
    unfolding T3_def by (rule leads_to_some [OF r3])
      (use au du in \<open>auto simp: T1_def T2_def proxy_iteration_def HandleServiceEndpointsUpdate_def union_keys_def\<close>)
  have "T3 = ?W1"
  proof
    fix k
    consider "k \<in> union_keys hostIP adds \<union> union_keys hostIP dels \<union> union_keys hostIP upds" |
      "k \<notin> union_keys hostIP adds \<union> union_keys hostIP dels \<union> union_keys hostIP upds" by blast
    then show "T3 k = ?W1 k"
    proof cases
      case 2
      have vis: "e \<in> set (visit_services V xs) \<longleftrightarrow> e \<in> set xs" for e xs using fair_sets(1) [OF V] by simp
      show ?thesis
      proof (cases "\<exists>e\<in>set old \<union> set new. k \<in> entry_keys hostIP e")
        case True
        then obtain e where e: "e \<in> set old \<union> set new" "k \<in> entry_keys hostIP e" by blast
        obtain f where f: "f \<in> set new" "fst f = fst e" "map_of old (fst f) \<noteq> None" "k \<in> entry_keys hostIP f"
        proof (cases "e \<in> set new")
          case True
          with 2 e(2) have "e \<notin> set adds" by (auto simp: union_keys_def)
          with True have "map_of old (fst e) \<noteq> None" by (simp add: adds_def vis)
          with True e(2) that show ?thesis by blast
        next
          case False
          with e(1) have old: "e \<in> set old" by blast
          with 2 e(2) have "e \<notin> set dels" by (auto simp: union_keys_def)
          with old have "map_of new (fst e) \<noteq> None" by (simp add: dels_def vis)
          then obtain b where b: "(fst e, b) \<in> set new" by (auto dest: map_of_SomeD)
          moreover have "map_of old (fst e) \<noteq> None" using old by (simp add: map_of_fst_None)
          moreover have "k \<in> entry_keys hostIP (fst e, b)"
            using followsD(4) [OF fol, of "fst e" "snd e" b] old b e(2) by (simp add: entry_keys_def)
          ultimately show ?thesis using that by simp
        qed
        with 2 have "f \<notin> set upds" by (auto simp: union_keys_def)
        with f have "\<not> differs V old f" by (simp add: upds_def vis)
        from same_table [OF V fol f(1,3) this f(4)] 2 show ?thesis by (simp add: T1_def T2_def T3_def)
      next
        case False
        have "k \<notin> set (service_keys hostIP (Item_Service a))" if "(u, a) \<in> set old \<union> set new" for u a
        proof -
          from False that have "k \<notin> entry_keys hostIP (u, a)" by blast
          then show ?thesis by (simp add: entry_keys_def)
        qed
        then have "?W0 k = None" "?W1 k = None" by (auto intro!: wanted_table_out)
        with 2 show ?thesis by (simp add: T1_def T2_def T3_def)
      qed
    qed (auto simp: T1_def T2_def T3_def)
  qed
  with leads_to_append [OF l1 leads_to_append [OF l2 l3]] show ?thesis
    unfolding service_updates_eq adds_def dels_def upds_def by simp
qed

end

end
