(* ===== verification/Proxy_Properties.thy ===== *)
theory Proxy_Properties
  imports Proxy_Round
begin

text \<open>
  The properties of the kube-proxy: watcher and handlers together keep the table of virtual servers that the listings of the API server ask for,
  unless an address is used again within a round. \<open>mem_host\<close> is a concrete host.
\<close>

section \<open>A host in memory\<close>

record node_state =
  servers :: table
  disk :: "(string, string) gomap"

definition mem_host :: "node_state host" where
  "mem_host = \<lparr>
     NewService = (\<lambda>k n. if servers n k = None then (Inr (), n\<lparr>servers := (servers n)(k \<mapsto> {})\<rparr>) else (Inl (Failed ''file exists''), n)),
     DelService = (\<lambda>k n. if servers n k = None then (Inl (Failed ''no such process''), n) else (Inr (), n\<lparr>servers := (servers n)(k := None)\<rparr>)),
     NewDestination = (\<lambda>k d n. case servers n k of None \<Rightarrow> (Inl (Failed ''no such process''), n)
       | Some D \<Rightarrow> if d \<in> D then (Inl (Failed ''file exists''), n) else (Inr (), n\<lparr>servers := (servers n)(k \<mapsto> D \<union> {d})\<rparr>)),
     DelDestination = (\<lambda>k d n. case servers n k of None \<Rightarrow> (Inl (Failed ''no such process''), n)
       | Some D \<Rightarrow> if d \<in> D then (Inr (), n\<lparr>servers := (servers n)(k \<mapsto> D - {d})\<rparr>) else (Inl (Failed ''no such file or directory''), n)),
     Flush = (\<lambda>n. (Inr (), n\<lparr>servers := Map.empty\<rparr>)),
     LinkAdd = (\<lambda>l n. (Inr (), n)), LinkByName = (\<lambda>l n. (Inr (), n)), LinkDel = (\<lambda>l n. (Inr (), n)),
     AddrAdd = (\<lambda>l a n. (Inr (), n)), AddrDel = (\<lambda>l a n. (Inr (), n)), Exec = (\<lambda>c n. (Inr (), n)),
     ReadFile = (\<lambda>f n. case map_of (disk n) f of None \<Rightarrow> (Inl (Failed ''no such file or directory''), n) | Some x \<Rightarrow> (Inr x, n)),
     WriteFile = (\<lambda>f x n. (Inr (), n\<lparr>disk := mput f x (disk n)\<rparr>)),
     IsNotExist = (\<lambda>f n. (map_of (disk n) f = None, n)),
     Remove_File = (\<lambda>f n. if map_of (disk n) f = None then (Inl (Failed ''no such file or directory''), n)
       else (Inr (), n\<lparr>disk := mdel f (disk n)\<rparr>)),
     ReadDir = (\<lambda>d n. (Inr (map (drop (length d + 1)) (filter (has_prefix (d @ ''/'')) (map fst (disk n)))), n)),
     Truncate = (\<lambda>f n. (Inr (), n\<lparr>disk := mput f '''' (disk n)\<rparr>))\<rparr>"

lemma one_image: "{(k, d)} `` {x} = (if x = k then {d} else {})"
  by auto

lemma add_one: "add_reals {(k, d)} T = (case T k of None \<Rightarrow> T | Some D \<Rightarrow> T(k \<mapsto> D \<union> {d}))"
  unfolding add_reals_def one_image by (auto simp: fun_eq_iff option.map_ident split: option.split)

lemma del_one: "del_reals {(k, d)} T = (case T k of None \<Rightarrow> T | Some D \<Rightarrow> T(k \<mapsto> D - {d}))"
  unfolding del_reals_def one_image by (auto simp: fun_eq_iff option.map_ident split: option.split)

interpretation mem: ipvs_host mem_host servers
  by unfold_locales
    (auto simp: mem_host_def leaves_def add_one del_one insert_absorb fun_upd_idem split: option.splits)

section \<open>All rounds\<close>

definition services_of :: "proxy_input list \<Rightarrow> ServiceUpdate list" where
  "services_of inputs = concat (map (\<lambda>i. case i of ServiceInput u \<Rightarrow> [u] | DNSInput u \<Rightarrow> []) inputs)"

lemma services_of_simps [simp]: "services_of [] = []" "services_of (ServiceInput u # is) = u # services_of is"
  "services_of (DNSInput d # is) = services_of is"
  by (simp_all add: services_of_def)

definition keeps_table :: "('s \<Rightarrow> 't) \<Rightarrow> ('s, 'a) io \<Rightarrow> bool" where
  "keeps_table tab m \<longleftrightarrow> (\<forall>s. tab (snd (m s)) = tab s)"

lemma keeps_simps [simp]: "keeps_table tab (io_return x)" "keeps_table tab (io_fail e)" "keeps_table tab io_panic"
  by (simp_all add: keeps_table_def io_return_def io_fail_def io_panic_def)

lemma keeps_get [simp]: "keeps_table tab io_get"
  by (simp add: keeps_table_def io_get_def)

lemma keeps_bind: "keeps_table tab m \<Longrightarrow> (\<And>x. keeps_table tab (k x)) \<Longrightarrow> keeps_table tab (io_bind m k)"
  by (auto simp: keeps_table_def io_bind_def split: prod.splits sum.splits) (metis snd_conv)+

lemma keeps_attempt: "keeps_table tab m \<Longrightarrow> keeps_table tab (io_attempt m)"
  by (auto simp: keeps_table_def io_attempt_def split: prod.splits sum.splits failure.splits) (metis snd_conv)+

lemma keeps_each: "(\<And>x. x \<in> set xs \<Longrightarrow> keeps_table tab (f x)) \<Longrightarrow> keeps_table tab (io_each f xs)"
  by (induction xs) (auto intro: keeps_bind)

lemma keeps_logged: "keeps_table tab m \<Longrightarrow> keeps_table tab (io_logged m)"
  unfolding io_logged_def by (intro keeps_bind keeps_attempt) simp_all

lemma keeps_lift: "keeps_table tab m \<Longrightarrow> keeps_table (tab \<circ> fst) (io_lift m)"
  by (auto simp: keeps_table_def io_lift_def split: prod.splits) (metis snd_conv)

lemma leaves_keeps: "leaves tab m \<Longrightarrow> keeps_table tab m"
  by (simp add: leaves_def keeps_table_def)

text \<open>A step that is only logged when it fails either returns or panics.\<close>

definition total :: "('s, unit) io \<Rightarrow> bool" where
  "total m \<longleftrightarrow> (\<forall>s. fst (m s) = Inr () \<or> fst (m s) = Inl Panicked)"

lemma total_logged [simp]: "total (io_logged m)"
  by (auto simp: total_def io_logged_def io_bind_def io_attempt_def io_return_def split: prod.splits sum.splits failure.splits)

lemma total_return [simp]: "total (io_return ())"
  by (simp add: total_def io_return_def)

lemma total_bind: "total m \<Longrightarrow> total n \<Longrightarrow> total (io_bind m (\<lambda>_. n))"
  unfolding total_def
proof (intro allI)
  fix s
  assume "\<forall>s. fst (m s) = Inr () \<or> fst (m s) = Inl Panicked" "\<forall>s. fst (n s) = Inr () \<or> fst (n s) = Inl Panicked"
  then show "fst (io_bind m (\<lambda>_. n) s) = Inr () \<or> fst (io_bind m (\<lambda>_. n) s) = Inl Panicked"
    by (cases "m s"; cases "fst (m s)") (auto simp: io_bind_def dest: spec [of _ s])
qed

lemma total_each: "(\<And>x. total (f x)) \<Longrightarrow> total (io_each f xs)"
  by (induction xs) (simp_all add: total_bind)

context ipvs_host
begin

lemma dns_handlers: "keeps_table (tab \<circ> fst) (proxy_iteration H hostIP (DNSInput d))" "total (proxy_iteration H hostIP (DNSInput d))"
proof -
  note base = others(1-4,6) [THEN leaves_keeps]
  have absent: "keeps_table tab (\<lambda>s. apfst Inr (IsNotExist H f s))" for f
    by (simp add: keeps_table_def others)
  have rule: "keeps_table tab (addNginxRule H cache x r)" for cache x r
    unfolding addNginxRule_def io_wrap_def Let_def
    by (intro keeps_bind absent) (auto intro!: keeps_bind keeps_attempt base split: sum.split)
  have hosts: "keeps_table tab (addCorednsHosts H hostIP x)" "keeps_table tab (deleteCorednsHosts H x)" for x
    unfolding addCorednsHosts_def deleteCorednsHosts_def Let_def by (auto intro!: keeps_bind base)
  have nginx: "keeps_table tab (addNginxConfig H cache x)" "keeps_table tab (deleteNginxConfig H x)" "keeps_table tab (reload_nginx H)" for cache x
    unfolding addNginxConfig_def deleteNginxConfig_def reload_nginx_def by (auto intro!: keeps_each rule base)
  show "keeps_table (tab \<circ> fst) (proxy_iteration H hostIP (DNSInput d))"
    unfolding proxy_iteration_def HandleDNSAdditions_def HandleDNSDeletions_def
    by (auto intro!: keeps_each keeps_logged keeps_bind keeps_lift hosts nginx)
  show "total (proxy_iteration H hostIP (DNSInput d))"
    unfolding proxy_iteration_def HandleDNSAdditions_def HandleDNSDeletions_def by (auto intro: total_each)
qed

lemma inputs_lead:
  assumes "leads_to tab H hostIP (services_of inputs) (tab (fst s)) T"
  shows "fst (io_each (proxy_iteration H hostIP) inputs s) = Inr () \<and> tab (fst (snd (io_each (proxy_iteration H hostIP) inputs s))) = T \<or>
    fst (io_each (proxy_iteration H hostIP) inputs s) = Inl Panicked \<and> (\<exists>d. DNSInput d \<in> set inputs)"
  using assms
proof (induction inputs arbitrary: s)
  case (Cons i inputs)
  show ?case
  proof (cases i)
    case (ServiceInput u)
    with Cons.prems obtain T1 where "handles tab H hostIP u (tab (fst s)) T1" "leads_to tab H hostIP (services_of inputs) T1 T" by auto
    then obtain s1 where "proxy_iteration H hostIP i s = (Inr (), s1)" "leads_to tab H hostIP (services_of inputs) (tab (fst s1)) T"
      unfolding handles_def ServiceInput by (metis prod.collapse)
    with Cons.IH [of s1] show ?thesis by (auto simp: io_bind_def)
  next
    case (DNSInput d)
    obtain r s1 where 1: "proxy_iteration H hostIP i s = (r, s1)" by (metis surj_pair)
    have "fst (proxy_iteration H hostIP i s) = Inr () \<or> fst (proxy_iteration H hostIP i s) = Inl Panicked"
      using dns_handlers(2) [of hostIP d] unfolding total_def DNSInput by blast
    moreover have "(tab \<circ> fst) (snd (proxy_iteration H hostIP i s)) = (tab \<circ> fst) s"
      using dns_handlers(1) [of hostIP d] unfolding keeps_table_def DNSInput by blast
    ultimately have "tab (fst s1) = tab (fst s)" "r = Inr () \<or> r = Inl Panicked" by (simp_all add: 1)
    with Cons.IH [of s1] Cons.prems 1 DNSInput show ?thesis by (auto simp: io_bind_def)
  qed
qed (simp add: io_return_def)

end

lemma settle_items_follow:
  assumes V: "fair_choices V" and fol: "follows hostIP old (settle_items V old' new)"
  shows "follows hostIP old new"
proof -
  let ?new = "settle_items V old' new"
  have mem: "\<exists>b. (u, b) \<in> set ?new \<and> Item_Service b = Item_Service a \<and> item_fits hostIP b = item_fits hostIP a"
    if "(u, a) \<in> set new" for u a
  proof (intro exI conjI)
    show "(u, settle_item V (map_of old' u) a) \<in> set ?new" using that by (force simp: settle_items_def)
  qed (use V in \<open>simp_all add: item_fits_def\<close>)
  then have both: "\<exists>b. (u, b) \<in> set old \<union> set ?new \<and> Item_Service b = Item_Service a \<and> item_fits hostIP b = item_fits hostIP a"
    if "(u, a) \<in> set old \<union> set new" for u a using that by blast
  have "distinct (map fst new)" using followsD(2) [OF fol] by (simp add: settle_items_def split_def comp_def)
  moreover have "item_fits hostIP a" if "(u, a) \<in> set old \<union> set new" for u a
    using both [OF that] followsD(3) [OF fol] by blast
  moreover have "Item_Service a = Item_Service b" if "(u, a) \<in> set old" "(u, b) \<in> set new" for u a b
    using mem [OF that(2)] followsD(4) [OF fol that(1)] by metis
  moreover have "set (service_keys hostIP (Item_Service a)) \<inter> set (service_keys hostIP (Item_Service b)) = {}"
    if "(u, a) \<in> set old \<union> set new" "(v, b) \<in> set old \<union> set new" "u \<noteq> v" for u a v b
    using both [OF that(1)] both [OF that(2)] followsD(5) [OF fol _ _ that(3)] by metis
  ultimately show ?thesis using followsD(1) [OF fol] unfolding follows_def by blast
qed

context ipvs_host
begin

lemma updateService_leads:
  assumes "updateService N V ps w = ((sups, ps1), w1)" "fair_choices V" "ParseIP hostIP"
    and fol: "follows hostIP (latestItems ps) (latestItems ps1)"
  shows "leads_to tab H hostIP sups (wanted_table hostIP (latestItems ps)) (wanted_table hostIP (latestItems ps1))"
proof -
  obtain pods err w2 where 1: "client_GetAllPods N w = ((pods, err), w2)" by (metis surj_pair)
  obtain services err2 w3 where 2: "client_GetAllServices N w2 = ((services, err2), w3)" by (metis surj_pair)
  show ?thesis
  proof (cases "err = None \<and> err2 = None")
    case False
    with assms(1) 1 2 show ?thesis by (auto simp: updateService_def split: if_splits)
  next
    case True
    let ?new = "service_items pods services"
    from True assms(1) 1 2 have sups: "sups = service_updates V (latestItems ps) ?new"
      and ps1: "latestItems ps1 = settle_items V (latestItems ps) ?new" by (auto simp: updateService_def Let_def)
    have "follows hostIP (latestItems ps) ?new" using settle_items_follow [OF assms(2)] fol ps1 by simp
    from round_leads [OF assms(2) this assms(3)] show ?thesis
      by (simp add: sups ps1 wanted_table_settle [OF assms(2)])
  qed
qed

lemma rounds_lead:
  assumes "ParseIP hostIP" "\<forall>(V, env)\<in>set envs. fair_choices V"
    "successively (follows hostIP) (latestItems ps # map (\<lambda>(_, _, ps). latestItems ps) (proxy_rounds N envs ps w))"
  shows "leads_to tab H hostIP (concat (map fst (proxy_rounds N envs ps w))) (wanted_table hostIP (latestItems ps))
    (wanted_table hostIP (last (latestItems ps # map (\<lambda>(_, _, ps). latestItems ps) (proxy_rounds N envs ps w))))"
  using assms(2,3)
proof (induction envs arbitrary: ps w)
  case (Cons c envs)
  obtain V env where c: "c = (V, env)" by fastforce
  obtain sups ps1 w1 where 1: "updateService N V ps (env w) = ((sups, ps1), w1)" by (metis surj_pair)
  obtain dups ps2 w2 where 2: "updateDNS N V ps1 w1 = ((dups, ps2), w2)" by (metis surj_pair)
  from 2 have same: "latestItems ps2 = latestItems ps1" by (auto simp: updateDNS_def Let_def split: prod.splits if_splits)
  have rounds: "proxy_rounds N (c # envs) ps w = (sups, dups, ps2) # proxy_rounds N envs ps2 w2" by (simp add: c 1 2)
  from Cons.prems(2) have "follows hostIP (latestItems ps) (latestItems ps1)"
    and rest: "successively (follows hostIP) (latestItems ps2 # map (\<lambda>(_, _, ps). latestItems ps) (proxy_rounds N envs ps2 w2))"
    unfolding rounds by (simp_all add: same)
  moreover have "fair_choices V" using Cons.prems(1) by (simp add: c)
  ultimately have "leads_to tab H hostIP sups (wanted_table hostIP (latestItems ps)) (wanted_table hostIP (latestItems ps2))"
    using updateService_leads [OF 1 _ assms(1)] same by simp
  from leads_to_append [OF this Cons.IH [OF _ rest]] Cons.prems(1) show ?case unfolding rounds by simp
qed simp

end

section \<open>Properties\<close>

text \<open>
  C32: the kube-proxy refines its specification: take any rounds of the watcher, whatever requests fail and in whatever order Go visits its maps,
  whose services are plain and share no virtual server, and let the proxy handle exactly the updates they sent, among updates of DNS objects.
  Then the kernel has exactly the virtual servers of the last listing, each forwarding to the target port at the addresses of the running pods
  that serve it. Only handling a DNS object can end the program instead, by a panic.
\<close>

theorem proxy_follows_registry:
  assumes "ipvs_host H tab" "ParseIP hostIP" "\<forall>(V, env)\<in>set envs. fair_choices V"
    "proxy_rounds N envs NewProxyServer w = rounds"
    "successively (follows hostIP) ([] # map (\<lambda>(_, _, ps). latestItems ps) rounds)"
    "services_of inputs = concat (map fst rounds)" "tab (fst s) = Map.empty"
  shows "case io_each (proxy_iteration H hostIP) inputs s of (r, s') \<Rightarrow>
    r = Inr () \<and> tab (fst s') = wanted_table hostIP (last ([] # map (\<lambda>(_, _, ps). latestItems ps) rounds)) \<or>
    r = Inl Panicked \<and> (\<exists>d. DNSInput d \<in> set inputs)"
proof -
  have start: "latestItems NewProxyServer = []" "wanted_table hostIP [] = Map.empty"
    by (auto simp: NewProxyServer_def wanted_table_def fun_eq_iff)
  have "leads_to tab H hostIP (services_of inputs) (tab (fst s)) (wanted_table hostIP (last ([] # map (\<lambda>(_, _, ps). latestItems ps) rounds)))"
    using ipvs_host.rounds_lead [OF assms(1-3), of NewProxyServer N w] assms(4-7) by (simp add: start)
  from ipvs_host.inputs_lead [OF assms(1) this] show ?thesis by (simp add: case_prod_beta)
qed

text \<open>A network that answers every request for pods and services with the same listing: one running pod and one service for it.\<close>

definition web_service :: "UID \<Rightarrow> string \<Rightarrow> Service" where
  "web_service u name = zero_Service\<lparr>Svc_Meta := zero_ObjectMeta\<lparr>Name := name, Namespace := ''default'', MetaUID := u\<rparr>,
     Svc_Spec := \<lparr>Service_Type = ServiceTypeClusterIP, Service_Ports = [\<lparr>ServicePort_Name = ''http'', ServicePort_Protocol = ProtocolTCP,
       Port = 80, TargetPort = 8080, NodePort = 0\<rparr>], Selector = [(''app'', ''web'')], ClusterIP = ''100.0.0.1''\<rparr>\<rparr>"

definition web_pod :: Pod where
  "web_pod = zero_Pod\<lparr>Pod_Meta := zero_ObjectMeta\<lparr>Name := ''p'', Namespace := ''default'', MetaUID := ''p1'', Labels := Some [(''app'', ''web'')]\<rparr>,
     Pod_Spec := zero_PodSpec\<lparr>Containers := [demo_container\<lparr>Container_Ports := [\<lparr>ContainerPort_Port = 8080, ContainerPort_Protocol = ProtocolTCP\<rparr>]\<rparr>]\<rparr>,
     Pod_Status := \<lparr>Phase = PodRunning, PodIP = ''10.32.0.1''\<rparr>\<rparr>"

definition web_net :: "unit net" where
  "web_net = \<lparr>http = (\<lambda>q w. (Inr [Reply StatusOK (case q '''' 0 of GET_AllPods \<Rightarrow> DataPods [web_pod]
       | GET_AllServices \<Rightarrow> DataServices [web_service ''s1'' ''web''] | _ \<Rightarrow> NoData)], w)),
     stats_http = (\<lambda>q w. (Inl ''refused'', w))\<rparr>"

definition plain_choices :: choices where
  "plain_choices = \<lparr>visit_services = (\<lambda>m. m), visit_dns = (\<lambda>m. m), visit_ips = (\<lambda>m. m), sort_ports = sort_key BP_Port\<rparr>"

lemma plain_choices_fair: "fair_choices plain_choices"
proof -
  have "sorted_wrt (\<lambda>p q. BP_Port p \<le> BP_Port q) (sort_key BP_Port ps)" for ps :: "BackendPort list"
    using sorted_sort_key [of BP_Port ps] unfolding sorted_map .
  then show ?thesis by (simp add: fair_choices_def plain_choices_def)
qed

definition web_item :: ServiceItem where
  "web_item = \<lparr>Item_Service = web_service ''s1'' ''web'',
     Item_Endpoints = [\<lparr>BE_IP = ''10.32.0.1'', BE_Ports = [\<lparr>BP_Port = 8080, BP_Protocol = ProtocolTCP\<rparr>]\<rparr>]\<rparr>"

definition web_update :: ServiceUpdate where
  "web_update = \<lparr>Updates = [\<lparr>Update_Service = web_service ''s1'' ''web'',
     EndpointAdditions = [\<lparr>BE_IP = ''10.32.0.1'', BE_Ports = [\<lparr>BP_Port = 8080, BP_Protocol = ProtocolTCP\<rparr>]\<rparr>], EndpointDeletions = []\<rparr>],
     Update_Op = ServiceAdd\<rparr>"

lemma web_rounds:
  "proxy_rounds web_net [(plain_choices, \<lambda>w. w), (plain_choices, \<lambda>w. w)] NewProxyServer () =
    [([web_update], [], \<lparr>latestItems = [(''s1'', web_item)], latestDNS = []\<rparr>),
     ([], [], \<lparr>latestItems = [(''s1'', web_item)], latestDNS = []\<rparr>)]"
  by code_simp

lemma web_follows: "successively (follows ''192.168.1.5'') [[], [(''s1'', web_item)], [(''s1'', web_item)]]"
proof -
  have "plain_service ''192.168.1.5'' (Item_Service web_item)" by code_simp
  moreover have "ParseIP ''10.32.0.1''" by code_simp
  ultimately have "item_fits ''192.168.1.5'' web_item"
    by (simp add: item_fits_def fitting_def backend_pairs_def web_item_def web_service_def ip_ports_def)
  then show ?thesis by (simp add: follows_def)
qed

text \<open>The witness: two rounds over that network; the virtual server forwards to the pod.\<close>

theorem proxy_follows_registry_witness:
  "servers (fst (snd (io_each (proxy_iteration mem_host ''192.168.1.5'') [ServiceInput web_update] (\<lparr>servers = Map.empty, disk = []\<rparr>, [])))) =
     wanted_table ''192.168.1.5'' [(''s1'', web_item)] \<and>
   wanted_table ''192.168.1.5'' [(''s1'', web_item)] \<lparr>V_Address = ''100.0.0.1'', V_Protocol = 6, V_Port = 80\<rparr> =
     Some {\<lparr>R_Address = ''10.32.0.1'', R_Port = 8080\<rparr>}"
proof
  have "ParseIP ''192.168.1.5''" by code_simp
  from proxy_follows_registry [OF mem.ipvs_host_axioms this _ web_rounds, of "[ServiceInput web_update]" "(\<lparr>servers = Map.empty, disk = []\<rparr>, [])"]
    web_follows
  show "servers (fst (snd (io_each (proxy_iteration mem_host ''192.168.1.5'') [ServiceInput web_update] (\<lparr>servers = Map.empty, disk = []\<rparr>, [])))) =
     wanted_table ''192.168.1.5'' [(''s1'', web_item)]"
    by (simp add: plain_choices_fair case_prod_beta del: io_each.simps)
  show "wanted_table ''192.168.1.5'' [(''s1'', web_item)] \<lparr>V_Address = ''100.0.0.1'', V_Protocol = 6, V_Port = 80\<rparr> =
     Some {\<lparr>R_Address = ''10.32.0.1'', R_Port = 8080\<rparr>}"
    by (simp add: wanted_table_def item_table_def service_keys_def port_keys_def virtual_of_def web_item_def web_service_def protocol2Unix_def
      isNodePort_def u16_def reals_at_def ips_at_def backend_pairs_def ip_ports_def)
qed

lemma visit_one: "fair_choices V \<Longrightarrow> visit_services V [x] = [x]"
  unfolding fair_choices_def by (metis mset_single_iff_right mset.simps(1) mset.simps(2))

lemma no_difference:
  assumes "fair_choices V"
  shows "service_updates V [(v, b)] [(v, b)] = []"
proof -
  have at: "map_of (ip_ports (Item_Endpoints b)) (fst e) = Some (snd e)" if "e \<in> set (visit_ips V (ip_ports (Item_Endpoints b)))" for e
    using that ip_ports_set [of "fst e" "snd e"] unfolding fair_sets(3) [OF assms] by simp
  then have "\<not> changed_ip V (ip_ports (Item_Endpoints b)) e" if "e \<in> set (visit_ips V (ip_ports (Item_Endpoints b)))" for e
    using at [OF that] isEndpointPortsEqual_refl by (cases e) (simp add: changed_ip_def)
  moreover have "map_of (ip_ports (Item_Endpoints b)) (fst e) \<noteq> None" if "e \<in> set (visit_ips V (ip_ports (Item_Endpoints b)))" for e
    using at [OF that] by simp
  ultimately have "\<not> differs V [(v, b)] (v, b)"
    by (auto simp: differs_def calculateDiff_def Let_def filter_empty_conv)
  then show ?thesis by (simp add: service_updates_eq visit_one [OF assms] send_some_def)
qed

lemma settle_new: "settle_items V [(u, a)] [(v, b)] = [(v, b)]" if "u \<noteq> v"
proof -
  have "settle_ports V [] eps = eps" for eps by (induction eps) auto
  with that show ?thesis by (simp add: settle_items_def settle_item_def ip_ports_def)
qed

context ipvs_host
begin

lemma add_port_taken:
  assumes "tab s (virtual_of (ClusterIP (Svc_Spec svc)) (u16 (Port p)) (ServicePort_Protocol p)) \<noteq> None"
  shows "fst (add_port H hostIP svc p maps s) = Inr maps \<and> tab (snd (add_port H hostIP svc p maps s)) = tab s"
proof -
  let ?v = "virtual_of (ClusterIP (Svc_Spec svc)) (u16 (Port p)) (ServicePort_Protocol p)"
  obtain e s1 where "NewService H ?v s = (Inl (Failed e), s1)" "tab s1 = tab s"
    using new_service(2) [OF assms] new_service(3) [where s = s and k = ?v] assms by (metis prod.collapse)
  then show ?thesis
    by (cases maps) (simp add: add_port_def AddVirtual_def invalid_ip_def io_fail_def io_bind_def io_attempt_def io_return_def)
qed

lemma add_ports_taken:
  assumes "\<And>p. p \<in> set ps \<Longrightarrow> tab s (virtual_of (ClusterIP (Svc_Spec svc)) (u16 (Port p)) (ServicePort_Protocol p)) \<noteq> None"
  shows "fst (add_ports H hostIP svc ps maps s) = Inr maps \<and> tab (snd (add_ports H hostIP svc ps maps s)) = tab s"
  using assms
proof (induction ps arbitrary: s)
  case (Cons p ps)
  define s1 where "s1 = snd (add_port H hostIP svc p maps s)"
  have 1: "add_port H hostIP svc p maps s = (Inr maps, s1)" "tab s1 = tab s"
    using add_port_taken [OF Cons.prems [of p]] by (simp_all add: s1_def prod_eq_iff)
  with Cons.IH [of s1] Cons.prems show ?case by (simp add: io_bind_def)
qed (simp add: io_return_def)

lemma no_routes: "does tab (route_all op vip hostIP (Map.empty, Map.empty) eps) (\<lambda>T. T)"
proof -
  have id: "fold (\<lambda>_. \<lambda>T. T) xs = (\<lambda>T. T)" for xs :: "'z list" by (induction xs) (simp_all add: comp_def id_def)
  have port: "does tab (route_port op vip hostIP (Map.empty, Map.empty) ip q) (\<lambda>T. T)" for ip q
    by (simp add: does_def route_port_def io_bind_def io_return_def)
  have "does tab (io_each (route_port op vip hostIP (Map.empty, Map.empty) ip) qs) (\<lambda>T. T)" for ip qs
    using does_each [where a = "route_port op vip hostIP (Map.empty, Map.empty) ip" and f = "\<lambda>_ T. T", OF port, where xs = qs] by (simp add: id)
  then show ?thesis unfolding route_all_def
    using does_each [where a = "\<lambda>ep. io_each (route_port op vip hostIP (Map.empty, Map.empty) (BE_IP ep)) (BE_Ports ep)"
      and f = "\<lambda>_ T. T" and xs = eps and tab = tab] by (simp add: id)
qed

lemma add_service_taken:
  assumes "\<And>k. k \<in> set (service_keys hostIP (Update_Service u)) \<Longrightarrow> tab (fst s) k \<noteq> None"
  shows "fst (add_service H hostIP u s) = Inr () \<and> tab (fst (snd (add_service H hostIP u s))) = tab (fst s)"
proof -
  let ?svc = "Update_Service u"
  obtain s0 c where s: "s = (s0, c)" by fastforce
  have "tab s0 (virtual_of (ClusterIP (Svc_Spec ?svc)) (u16 (Port p)) (ServicePort_Protocol p)) \<noteq> None"
    if "p \<in> set (Service_Ports (Svc_Spec ?svc))" for p
  proof -
    from that have "virtual_of (ClusterIP (Svc_Spec ?svc)) (u16 (Port p)) (ServicePort_Protocol p) \<in> set (service_keys hostIP ?svc)"
      by (auto simp: service_keys_def port_keys_def)
    from assms [OF this] show ?thesis by (simp add: s)
  qed
  note taken = add_ports_taken [OF this, of "Service_Ports (Svc_Spec ?svc)" hostIP "(Map.empty, Map.empty)"]
  define s1 where "s1 = snd (add_ports H hostIP ?svc (Service_Ports (Svc_Spec ?svc)) (Map.empty, Map.empty) s0)"
  have 1: "add_ports H hostIP ?svc (Service_Ports (Svc_Spec ?svc)) (Map.empty, Map.empty) s0 = (Inr (Map.empty, Map.empty), s1)" "tab s1 = tab s0"
    using taken by (simp_all add: s1_def prod_eq_iff)
  define s2 where "s2 = snd (route_all (AddRoute H) (ClusterIP (Svc_Spec ?svc)) hostIP (Map.empty, Map.empty) (EndpointAdditions u) s1)"
  have 2: "route_all (AddRoute H) (ClusterIP (Svc_Spec ?svc)) hostIP (Map.empty, Map.empty) (EndpointAdditions u) s1 = (Inr (), s2)" "tab s2 = tab s1"
    using no_routes by (simp_all add: does_def s2_def prod_eq_iff)
  obtain s3 where 3: "io_logged (addServiceNameDNS H ?svc) s2 = (Inr (), s3)" "tab s3 = tab s2"
    using leaves_logged [OF service_dns_leaves(1)] unfolding does_def by (metis prod.collapse)
  show ?thesis using 1 2 3 by (simp add: s add_service_def Let_def io_bind_def io_lift_def io_modify_def)
qed

end

text \<open>
  C33: a service that gets the address and ports of one that was deleted in the same round loses its virtual servers for good: the additions are
  handled before the deletions, so the proxy finds the virtual servers there, adds no route, and then deletes them; later rounds with the same
  listing send nothing. The API server hands out the least free address, so a deleted service's address is the next one used.
\<close>

theorem reused_ip_loses_service:
  assumes "ipvs_host H tab" "fair_choices V" "ParseIP hostIP" "u \<noteq> v" "plain_service hostIP (Item_Service a)"
    "service_keys hostIP (Item_Service b) = service_keys hostIP (Item_Service a)"
    "tab (fst s) = wanted_table hostIP [(u, a)]"
  shows "fst (io_each (proxy_iteration H hostIP) (map ServiceInput (service_updates V [(u, a)] [(v, b)])) s) = Inr () \<and>
    tab (fst (snd (io_each (proxy_iteration H hostIP) (map ServiceInput (service_updates V [(u, a)] [(v, b)])) s))) = Map.empty \<and>
    service_updates V (settle_items V [(u, a)] [(v, b)]) [(v, b)] = []"
proof -
  let ?a = "\<lparr>Update_Service = Item_Service a, EndpointAdditions = [], EndpointDeletions = []\<rparr>"
  let ?b = "update_of V [(u, a)] (v, b)"
  let ?K = "set (service_keys hostIP (Item_Service a))"
  have ups: "service_updates V [(u, a)] [(v, b)] = [\<lparr>Updates = [?b], Update_Op = ServiceAdd\<rparr>, \<lparr>Updates = [?a], Update_Op = ServiceDelete\<rparr>]"
    using assms(4) by (auto simp: service_updates_eq visit_one [OF assms(2)] send_some_def)
  have b: "Update_Service ?b = Item_Service b"
  proof -
    obtain d x op where "calculateDiff V None b = (d, x, op)" by (metis surj_pair)
    with calculateDiff_simps(1) [OF this] assms(4) show ?thesis by (simp add: update_of_def)
  qed
  have inK: "tab (fst s) k \<noteq> None" if "k \<in> ?K" for k
  proof -
    from that obtain p where "p \<in> set (Service_Ports (Svc_Spec (Item_Service a)))" "k \<in> set (port_keys hostIP (Item_Service a) p)"
      by (auto simp: in_service_keys)
    from item_table_at [OF assms(5) this] that show ?thesis by (simp add: assms(7) wanted_table_def)
  qed
  define s1 where "s1 = snd (add_service H hostIP ?b s)"
  have 1: "add_service H hostIP ?b s = (Inr (), s1)" "tab (fst s1) = tab (fst s)"
    using ipvs_host.add_service_taken [OF assms(1), of hostIP ?b s] inK by (simp_all add: s1_def prod_eq_iff b assms(6))
  define s2 where "s2 = snd (delete_service H hostIP ?a s1)"
  have "ParseIP (ClusterIP (Svc_Spec (Update_Service ?a)))" using assms(5) by (simp add: plain_service_def)
  from resetsD [OF ipvs_host.delete_service_resets [OF assms(1) this assms(3), of "tab (fst s1)"], of s1]
  have 2: "delete_service H hostIP ?a s1 = (Inr (), s2)" "tab (fst s2) = (\<lambda>k. if k \<in> ?K then None else tab (fst s1) k)"
    by (simp_all add: s2_def prod_eq_iff comp_def cong: if_cong)
  have "tab (fst s2) = Map.empty"
    unfolding 2(2) 1(2) assms(7) by (auto simp: wanted_table_def)
  moreover have "io_each (proxy_iteration H hostIP) (map ServiceInput (service_updates V [(u, a)] [(v, b)])) s = (Inr (), s2)"
    using 1(1) 2(1) by (simp add: ups proxy_iteration_def HandleServiceAdditions_def HandleServiceDeletions_def io_bind_def io_return_def)
  ultimately show ?thesis using settle_new [OF assms(4)] no_difference [OF assms(2)] by simp
qed

text \<open>A second service with the address of the first: the kernel ends with no virtual server, where one is wanted.\<close>

definition other_item :: ServiceItem where
  "other_item = web_item\<lparr>Item_Service := web_service ''s2'' ''other''\<rparr>"

theorem reused_ip_loses_service_witness:
  "servers (fst (snd (io_each (proxy_iteration mem_host ''192.168.1.5'')
      (map ServiceInput (service_updates plain_choices [(''s1'', web_item)] [(''s2'', other_item)]))
      (\<lparr>servers = wanted_table ''192.168.1.5'' [(''s1'', web_item)], disk = []\<rparr>, [])))) = Map.empty \<and>
   wanted_table ''192.168.1.5'' [(''s2'', other_item)] \<lparr>V_Address = ''100.0.0.1'', V_Protocol = 6, V_Port = 80\<rparr> \<noteq> None"
proof
  have "ParseIP ''192.168.1.5''" "''s1'' \<noteq> ''s2''" "plain_service ''192.168.1.5'' (Item_Service web_item)"
    "service_keys ''192.168.1.5'' (Item_Service other_item) = service_keys ''192.168.1.5'' (Item_Service web_item)"
    by code_simp+
  from reused_ip_loses_service [OF mem.ipvs_host_axioms plain_choices_fair this,
      of "(\<lparr>servers = wanted_table ''192.168.1.5'' [(''s1'', web_item)], disk = []\<rparr>, [])"]
  show "servers (fst (snd (io_each (proxy_iteration mem_host ''192.168.1.5'')
      (map ServiceInput (service_updates plain_choices [(''s1'', web_item)] [(''s2'', other_item)]))
      (\<lparr>servers = wanted_table ''192.168.1.5'' [(''s1'', web_item)], disk = []\<rparr>, [])))) = Map.empty"
    by simp
  show "wanted_table ''192.168.1.5'' [(''s2'', other_item)] \<lparr>V_Address = ''100.0.0.1'', V_Protocol = 6, V_Port = 80\<rparr> \<noteq> None"
    by (simp add: wanted_table_def item_table_def service_keys_def port_keys_def virtual_of_def other_item_def web_item_def web_service_def
      protocol2Unix_def isNodePort_def u16_def)
qed

end
