(* ===== verification/Envoy.thy ===== *)
theory Envoy
  imports Kubelet_Runtime Go_Net
begin

text \<open>
  The sidecar proxy: \<open>pkg/microservice/envoy/envoy.go\<close> and the rules of \<open>pkg/microservice/envoy/init/envoy_init.go\<close>
  that send the traffic of a pod to it. Parameters are the random numbers, the regular expressions, the reverse
  proxy (a request ends in the scheme and the host it is forwarded to) and \<open>iptables\<close>. A handler that panics is
  recovered by the router, which answers 500. The maps are replaced by one goroutine while others read
  them; a request sees one value of each.
  Not modelled: the start of the two listeners and the signal that ends the program.
\<close>

definition InboundPort :: string where "InboundPort = ''15006''"
definition OutboundPort :: string where "OutboundPort = ''15001''"
definition Envoy_UID :: string where "Envoy_UID = ''1337''"
definition Envoy_GID :: string where "Envoy_GID = ''1337''"

lemmas envoy_consts = InboundPort_def OutboundPort_def Envoy_UID_def Envoy_GID_def

record Envoy =
  Envoy_mapping :: SidecarMapping
  Envoy_nameMapping :: SidecarServiceNameMapping

definition NewEnvoy :: Envoy where
  "NewEnvoy = \<lparr>Envoy_mapping = [], Envoy_nameMapping = []\<rparr>"

text \<open>What the handlers read of a request, and what becomes of it.\<close>

record proxy_request =
  Req_Host :: string
  URL_Scheme :: string
  URL_Host :: string
  Param_Path :: string

datatype proxied = Forward string string | Unavailable string | Recovered

definition target_scheme :: "proxy_request \<Rightarrow> string" where
  "target_scheme c = (if URL_Scheme c = '''' then ''http'' else URL_Scheme c)"

section \<open>Inbound\<close>

definition inbound_address :: "string \<Rightarrow> (string \<times> string) option" where
  "inbound_address host = (case SplitHostPort host of
     Some (ip, port) \<Rightarrow> Some (ip, port)
   | None \<Rightarrow> if ParseIP host then Some (host, ''80'') else None)"

definition inbound_port :: "Envoy \<Rightarrow> string \<Rightarrow> string \<Rightarrow> string" where
  "inbound_port e ip port = (case map_of (Envoy_mapping e) (ip @ '':'' @ port) of
     None \<Rightarrow> port
   | Some [] \<Rightarrow> port
   | Some (x # _) \<Rightarrow> (case Endpoints x of [] \<Rightarrow> port | ep # _ \<Rightarrow> dec_int (Endpoint_TargetPort ep)))"

definition inboundProxy :: "Envoy \<Rightarrow> proxy_request \<Rightarrow> proxied" where
  "inboundProxy e c = (case inbound_address (Req_Host c) of
     None \<Rightarrow> Unavailable ''Domain name not supported in inbound proxy''
   | Some (ip, port) \<Rightarrow> Forward (target_scheme c) (''127.0.0.1:'' @ inbound_port e ip port))"

section \<open>Choosing an endpoint\<close>

text \<open>\<open>rand.Intn\<close> panics unless its bound is positive.\<close>

definition rand_Intn :: "(nat \<Rightarrow> 'w \<Rightarrow> nat \<times> 'w) \<Rightarrow> int \<Rightarrow> ('w, nat) io" where
  "rand_Intn intn n w = (if n \<le> 0 then (Inl Panicked, w) else case intn (nat n) w of (r, w') \<Rightarrow> (Inr r, w'))"

definition endpoint_address :: "SingleEndpoint \<Rightarrow> string" where
  "endpoint_address ep = Endpoint_IP ep @ '':'' @ dec_int (Endpoint_TargetPort ep)"

text \<open>The first loop: the total weight in 32 bits, or nothing when a weight is missing.\<close>

fun total_weight :: "SidecarEndpoints list \<Rightarrow> int \<Rightarrow> int option" where
  "total_weight [] totalWeight = Some totalWeight"
| "total_weight (endpoint # endpoints) totalWeight = (case Weight endpoint of
     None \<Rightarrow> None
   | Some weight \<Rightarrow> total_weight endpoints
       (i32 (totalWeight + i32 (weight * i32 (int (length (Endpoints endpoint)))))))"

text \<open>The second loop, where all weights are there, with its inner loop.\<close>

fun pick_endpoint :: "int \<Rightarrow> SingleEndpoint list \<Rightarrow> int \<Rightarrow> string + int" where
  "pick_endpoint weight [] randWeight = Inr randWeight"
| "pick_endpoint weight (ep # eps) randWeight =
     (if randWeight < weight then Inl (endpoint_address ep) else pick_endpoint weight eps (i32 (randWeight - weight)))"

fun pick_weighted :: "SidecarEndpoints list \<Rightarrow> int \<Rightarrow> string option" where
  "pick_weighted [] randWeight = None"
| "pick_weighted (endpoint # endpoints) randWeight =
     (case pick_endpoint (the (Weight endpoint)) (Endpoints endpoint) randWeight of
       Inl dest \<Rightarrow> Some dest
     | Inr randWeight \<Rightarrow> pick_weighted endpoints randWeight)"

definition getDestinationWithWeight :: "(nat \<Rightarrow> 'w \<Rightarrow> nat \<times> 'w) \<Rightarrow> SidecarEndpoints list \<Rightarrow> ('w, string) io" where
  "getDestinationWithWeight intn endpoints = (case total_weight endpoints 0 of
     None \<Rightarrow> io_fail ''weight not set''
   | Some totalWeight \<Rightarrow> io_bind (rand_Intn intn totalWeight) (\<lambda>r. case pick_weighted endpoints (i32 (int r)) of
       Some dest \<Rightarrow> io_return dest
     | None \<Rightarrow> io_fail ''no available endpoint''))"

fun getDestinationWithURL :: "(nat \<Rightarrow> 'w \<Rightarrow> nat \<times> 'w) \<Rightarrow> (string \<Rightarrow> string \<Rightarrow> string + bool) \<Rightarrow>
    SidecarEndpoints list \<Rightarrow> string \<Rightarrow> ('w, string) io" where
  "getDestinationWithURL intn matchString [] requestURL = io_fail ''no available endpoint''"
| "getDestinationWithURL intn matchString (endpoint # endpoints) requestURL = (case URL endpoint of
     None \<Rightarrow> io_fail ''url not set''
   | Some url \<Rightarrow> (case matchString url requestURL of
       Inl err \<Rightarrow> io_fail err
     | Inr found \<Rightarrow>
       if found then
         (if Endpoints endpoint = [] then io_fail ''no available endpoint''
          else io_bind (rand_Intn intn (int (length (Endpoints endpoint)))) (\<lambda>randIdx.
            io_return (endpoint_address (Endpoints endpoint ! randIdx))))
       else getDestinationWithURL intn matchString endpoints requestURL))"

section \<open>Outbound\<close>

text \<open>
  The address and port that a host stands for, or nothing for a domain name. When the host has no port
  \<open>net.SplitHostPort\<close> leaves the address empty, and that is what is looked up.
\<close>

definition outbound_address :: "Envoy \<Rightarrow> string \<Rightarrow> (string \<times> string) option" where
  "outbound_address e host = (case SplitHostPort host of
     None \<Rightarrow>
       if ParseIP host then Some (host, ''80'')
       else (case map_of (Envoy_nameMapping e) '''' of None \<Rightarrow> None | Some svcIP \<Rightarrow> Some (svcIP, ''80''))
   | Some (ip, port) \<Rightarrow>
       if ParseIP ip then Some (ip, port)
       else (case map_of (Envoy_nameMapping e) ip of None \<Rightarrow> None | Some svcIP \<Rightarrow> Some (svcIP, port)))"

definition outbound_endpoints :: "Envoy \<Rightarrow> string \<Rightarrow> SidecarEndpoints list option" where
  "outbound_endpoints e host = (case outbound_address e host of
     None \<Rightarrow> None
   | Some (ip, port) \<Rightarrow> map_of (Envoy_mapping e) (ip @ '':'' @ port))"

definition outboundProxy :: "(nat \<Rightarrow> 'w \<Rightarrow> nat \<times> 'w) \<Rightarrow> (string \<Rightarrow> string \<Rightarrow> string + bool) \<Rightarrow>
    Envoy \<Rightarrow> proxy_request \<Rightarrow> 'w \<Rightarrow> proxied \<times> 'w" where
  "outboundProxy intn matchString e c w = (case outbound_endpoints e (Req_Host c) of
     None \<Rightarrow> (Forward (target_scheme c) (if URL_Host c = '''' then Req_Host c else URL_Host c), w)
   | Some [] \<Rightarrow> (Unavailable ''No available endpoints'', w)
   | Some (x # xs) \<Rightarrow>
     (case (if Weight x \<noteq> None then getDestinationWithWeight intn (x # xs) w
            else getDestinationWithURL intn matchString (x # xs) (Param_Path c) w) of
       (Inl (Failed err), w') \<Rightarrow> (Unavailable err, w')
     | (Inl Panicked, w') \<Rightarrow> (Recovered, w')
     | (Inr dest, w') \<Rightarrow> (Forward (target_scheme c) dest, w')))"

section \<open>The maps\<close>

text \<open>One turn of \<open>watchMapping\<close>, and its loop over the changes that the world makes during the pauses.\<close>

definition watch_round :: "'w net \<Rightarrow> Envoy \<Rightarrow> 'w \<Rightarrow> Envoy \<times> 'w" where
  "watch_round N e w = (case client_GetSidecarMapping N w of ((mapping, err), w1) \<Rightarrow>
     let e1 = (if err \<noteq> None then e else e\<lparr>Envoy_mapping := mapping\<rparr>) in
     case client_GetSidecarServiceNameMapping N w1 of ((nameMapping, err), w2) \<Rightarrow>
     (if err \<noteq> None then e1 else e1\<lparr>Envoy_nameMapping := nameMapping\<rparr>, w2))"

fun watchMapping :: "'w net \<Rightarrow> ('w \<Rightarrow> 'w) list \<Rightarrow> Envoy \<Rightarrow> 'w \<Rightarrow> Envoy \<times> 'w" where
  "watchMapping N [] e w = (e, w)"
| "watchMapping N (pause # pauses) e w = (case watch_round N e w of (e', w') \<Rightarrow> watchMapping N pauses e' (pause w'))"

text \<open>The routes of \<open>Run\<close>: every path of a listener has its one handler.\<close>

definition envoy_listener :: "(nat \<Rightarrow> 'w \<Rightarrow> nat \<times> 'w) \<Rightarrow> (string \<Rightarrow> string \<Rightarrow> string + bool) \<Rightarrow>
    Envoy \<Rightarrow> string \<Rightarrow> proxy_request \<Rightarrow> 'w \<Rightarrow> (proxied \<times> 'w) option" where
  "envoy_listener intn matchString e port c w =
     (if port = InboundPort then Some (inboundProxy e c, w)
      else if port = OutboundPort then Some (outboundProxy intn matchString e c w) else None)"

definition local_endpoint :: "int \<Rightarrow> SingleEndpoint" where
  "local_endpoint port = \<lparr>Endpoint_IP = ''127.0.0.1'', Endpoint_TargetPort = port\<rparr>"

definition weighted :: "int \<Rightarrow> int list \<Rightarrow> SidecarEndpoints" where
  "weighted weight ports = \<lparr>Weight = Some weight, URL = None, Endpoints = map local_endpoint ports\<rparr>"

definition routed :: "string \<Rightarrow> int list \<Rightarrow> SidecarEndpoints" where
  "routed url ports = \<lparr>Weight = None, URL = Some url, Endpoints = map local_endpoint ports\<rparr>"

definition getMockMapping :: SidecarMapping where
  "getMockMapping =
    [(''100.0.0.0:80'', [weighted 1 [801, 802], weighted 2 [803]]),
     (''100.0.0.0:90'', [weighted 0 [801, 802], weighted 1 [803]]),
     (''100.0.0.1:80'', [routed ''^/api/v1/.*$'' [801, 802], routed ''^/api/v2/.*$'' [803]]),
     (''100.0.0.1:90'', [routed ''^/api/v1/.*$'' [801, 802], routed ''^/api/v2/.*$'' [803]])]"

section \<open>The rules in the network namespace of a pod\<close>

text \<open>\<open>NewChain\<close> and \<open>Append\<close> of the package \<open>iptables\<close>.\<close>

record 'w iptables =
  NewChain :: "string \<Rightarrow> string \<Rightarrow> ('w, unit) io"
  IPT_Append :: "string \<Rightarrow> string \<Rightarrow> string list \<Rightarrow> ('w, unit) io"

text \<open>A call: a new chain, or a rule at the end of a chain.\<close>

datatype ipt_call = Chain string | Rule string "string list"

definition ipt_do :: "'w iptables \<Rightarrow> ipt_call \<Rightarrow> ('w, unit) io" where
  "ipt_do ipt call = (case call of Chain ch \<Rightarrow> NewChain ipt ''nat'' ch | Rule ch rule \<Rightarrow> IPT_Append ipt ''nat'' ch rule)"

definition init_calls :: "ipt_call list" where
  "init_calls =
    [Chain ''MISTIO_REDIRECT'',
     Rule ''MISTIO_REDIRECT'' [''-p'', ''tcp'', ''-j'', ''REDIRECT'', ''--to-port'', OutboundPort],
     Chain ''MISTIO_IN_REDIRECT'',
     Rule ''MISTIO_IN_REDIRECT'' [''-p'', ''tcp'', ''-j'', ''REDIRECT'', ''--to-port'', InboundPort],
     Chain ''MISTIO_INBOUND'',
     Rule ''PREROUTING'' [''-p'', ''tcp'', ''-j'', ''MISTIO_INBOUND''],
     Rule ''MISTIO_INBOUND'' [''-p'', ''tcp'', ''-j'', ''MISTIO_IN_REDIRECT''],
     Chain ''MISTIO_OUTPUT'',
     Rule ''OUTPUT'' [''-p'', ''tcp'', ''-j'', ''MISTIO_OUTPUT''],
     Rule ''MISTIO_OUTPUT'' [''-o'', ''lo'', ''!'', ''-d'', ''127.0.0.1/32'', ''-m'', ''owner'', ''--uid-owner'', Envoy_UID,
       ''-j'', ''MISTIO_IN_REDIRECT''],
     Rule ''MISTIO_OUTPUT'' [''-o'', ''lo'', ''-m'', ''owner'', ''!'', ''--uid-owner'', Envoy_UID, ''-j'', ''RETURN''],
     Rule ''MISTIO_OUTPUT'' [''-m'', ''owner'', ''--uid-owner'', Envoy_UID, ''-j'', ''RETURN''],
     Rule ''MISTIO_OUTPUT'' [''-o'', ''lo'', ''!'', ''-d'', ''127.0.0.1/32'', ''-m'', ''owner'', ''--gid-owner'', Envoy_GID,
       ''-j'', ''MISTIO_IN_REDIRECT''],
     Rule ''MISTIO_OUTPUT'' [''-o'', ''lo'', ''-m'', ''owner'', ''!'', ''--gid-owner'', Envoy_GID, ''-j'', ''RETURN''],
     Rule ''MISTIO_OUTPUT'' [''-m'', ''owner'', ''--gid-owner'', Envoy_GID, ''-j'', ''RETURN''],
     Rule ''MISTIO_OUTPUT'' [''-d'', ''127.0.0.1/32'', ''-j'', ''RETURN'']]"

text \<open>\<open>Init\<close>: an error ends it, except that of the last call, which nothing looks at.\<close>

definition last_call :: ipt_call where
  "last_call = Rule ''MISTIO_OUTPUT'' [''-j'', ''MISTIO_REDIRECT'']"

definition EnvoyInit_Init :: "'w iptables \<Rightarrow> ('w, unit) io" where
  "EnvoyInit_Init ipt = io_bind (io_each (ipt_do ipt) init_calls) (\<lambda>_ w. (Inr (), snd (ipt_do ipt last_call w)))"

section \<open>How the draws fall on the endpoints\<close>

text \<open>The sum of the weights without a bound, each counted once for every endpoint of its group.\<close>

definition weight_sum :: "SidecarEndpoints list \<Rightarrow> int" where
  "weight_sum es = (\<Sum>e\<leftarrow>es. the (Weight e) * int (length (Endpoints e)))"

definition weights_given :: "SidecarEndpoints list \<Rightarrow> bool" where
  "weights_given es \<longleftrightarrow> list_all (\<lambda>e. case Weight e of None \<Rightarrow> False | Some w \<Rightarrow> 0 \<le> w) es"

definition weights_ok :: "SidecarEndpoints list \<Rightarrow> bool" where
  "weights_ok es \<longleftrightarrow> weights_given es \<and> weight_sum es < 2 ^ 31"

text \<open>The share of an address: the weights of its endpoints.\<close>

definition address_weight :: "string \<Rightarrow> SidecarEndpoints list \<Rightarrow> int" where
  "address_weight a es = (\<Sum>e\<leftarrow>es. the (Weight e) * int (length (filter (\<lambda>ep. endpoint_address ep = a) (Endpoints e))))"

lemma weight_sum_simps [simp]:
  "weight_sum [] = 0" "weight_sum (e # es) = the (Weight e) * int (length (Endpoints e)) + weight_sum es"
  by (simp_all add: weight_sum_def)

lemma address_weight_simps [simp]:
  "address_weight a [] = 0"
  "address_weight a (e # es) =
     the (Weight e) * int (length (filter (\<lambda>ep. endpoint_address ep = a) (Endpoints e))) + address_weight a es"
  by (simp_all add: address_weight_def)

lemma weights_given_simps [simp]:
  "weights_given []"
  "weights_given (e # es) \<longleftrightarrow> (\<exists>w. Weight e = Some w \<and> 0 \<le> w) \<and> weights_given es"
  by (auto simp: weights_given_def split: option.splits)

lemma weight_sum_nonneg: "weights_given es \<Longrightarrow> 0 \<le> weight_sum es"
  by (induction es) (auto split: option.splits)

lemma i32_mult_length:
  assumes "0 \<le> w" "w * int n < 2 ^ 31"
  shows "i32 (w * i32 (int n)) = w * int n"
proof (cases "w = 0")
  case False
  with assms(1) have w: "1 \<le> w" by simp
  then have "int n \<le> w * int n" by (simp add: mult_le_cancel_right1)
  with assms(2) have "in_i32 (int n)" by (simp add: in_i32_def)
  moreover have "0 \<le> w * int n" using assms(1) by simp
  then have "in_i32 (w * int n)" unfolding in_i32_def using assms(2) by linarith
  ultimately show ?thesis by simp
qed (simp add: i32_def)

lemma total_weight_exact:
  assumes "weights_given es" "0 \<le> t" "t + weight_sum es < 2 ^ 31"
  shows "total_weight es t = Some (t + weight_sum es)"
  using assms
proof (induction es arbitrary: t)
  case (Cons e es)
  then obtain w where w: "Weight e = Some w" "0 \<le> w" by (auto split: option.splits)
  have "0 \<le> weight_sum es" using Cons.prems(1) by (simp add: weight_sum_nonneg)
  moreover have "0 \<le> w * int (length (Endpoints e))" using w(2) by simp
  ultimately have "w * int (length (Endpoints e)) < 2 ^ 31" "in_i32 (t + w * int (length (Endpoints e)))"
    using Cons.prems(2,3) w(1) by (simp_all add: in_i32_def)
  with w show ?case
    using Cons.IH [of "t + w * int (length (Endpoints e))"] Cons.prems \<open>0 \<le> w * int (length (Endpoints e))\<close>
    by (simp add: i32_mult_length add.assoc)
qed simp

text \<open>The two loops visit one list of weights and addresses.\<close>

definition draw_list :: "SidecarEndpoints list \<Rightarrow> (int \<times> string) list" where
  "draw_list es = concat (map (\<lambda>e. map (\<lambda>ep. (the (Weight e), endpoint_address ep)) (Endpoints e)) es)"

fun pick_draw :: "(int \<times> string) list \<Rightarrow> int \<Rightarrow> string option" where
  "pick_draw [] r = None"
| "pick_draw ((w, a) # xs) r = (if r < w then Some a else pick_draw xs (r - w))"

lemma pick_endpoint_draw:
  assumes "0 \<le> w" "0 \<le> r" "r < 2 ^ 31"
  shows "pick_draw (map (\<lambda>ep. (w, endpoint_address ep)) eps @ xs) r =
      (case pick_endpoint w eps r of Inl a \<Rightarrow> Some a | Inr r' \<Rightarrow> pick_draw xs r')"
    "pick_endpoint w eps r = Inr r' \<Longrightarrow> 0 \<le> r' \<and> r' < 2 ^ 31"
proof -
  have "pick_draw (map (\<lambda>ep. (w, endpoint_address ep)) eps @ xs) r =
      (case pick_endpoint w eps r of Inl a \<Rightarrow> Some a | Inr r' \<Rightarrow> pick_draw xs r') \<and>
    (\<forall>r'. pick_endpoint w eps r = Inr r' \<longrightarrow> 0 \<le> r' \<and> r' < 2 ^ 31)"
    using assms
  proof (induction eps arbitrary: r)
    case (Cons ep eps)
    show ?case
    proof (cases "r < w")
      case False
      with Cons.prems have "i32 (r - w) = r - w" "0 \<le> r - w" "r - w < 2 ^ 31"
        by (auto simp: in_i32_def intro!: i32_id)
      with False Cons.IH [of "r - w"] Cons.prems(1) show ?thesis by simp
    qed simp
  qed simp
  then show "pick_draw (map (\<lambda>ep. (w, endpoint_address ep)) eps @ xs) r =
      (case pick_endpoint w eps r of Inl a \<Rightarrow> Some a | Inr r' \<Rightarrow> pick_draw xs r')"
    "pick_endpoint w eps r = Inr r' \<Longrightarrow> 0 \<le> r' \<and> r' < 2 ^ 31" by blast+
qed

lemma pick_weighted_draw:
  assumes "weights_given es" "0 \<le> r" "r < 2 ^ 31"
  shows "pick_weighted es r = pick_draw (draw_list es) r"
  using assms
proof (induction es arbitrary: r)
  case (Cons e es)
  then have w: "0 \<le> the (Weight e)" by (auto split: option.splits)
  show ?case
    using Cons.IH Cons.prems(1) pick_endpoint_draw [OF w Cons.prems(2,3), of "Endpoints e"]
    by (auto simp: draw_list_def split: sum.splits)
qed (simp add: draw_list_def)

lemma card_shift:
  assumes "\<And>r. Q (n + r) \<longleftrightarrow> P r"
  shows "card {r. r < n + m \<and> Q r} = card {r. r < n \<and> Q r} + card {r. r < m \<and> P (r :: nat)}"
proof -
  have "{r. r < n + m \<and> Q r} = {r. r < n \<and> Q r} \<union> (\<lambda>r. n + r) ` {r. r < m \<and> P r}"
  proof (intro set_eqI iffI)
    fix r assume r: "r \<in> {r. r < n + m \<and> Q r}"
    show "r \<in> {r. r < n \<and> Q r} \<union> (\<lambda>r. n + r) ` {r. r < m \<and> P r}"
    proof (cases "r < n")
      case False
      then have "r = n + (r - n)" by simp
      with r assms [of "r - n"] False show ?thesis by (intro UnI2 image_eqI [of _ _ "r - n"]) auto
    qed (use r in simp)
  qed (use assms in auto)
  moreover have "card ((\<lambda>r. n + r) ` {r. r < m \<and> P r}) = card {r. r < m \<and> P r}"
    by (rule card_image) (simp add: inj_on_def)
  moreover have "card ({r. r < n \<and> Q r} \<union> (\<lambda>r. n + r) ` {r. r < m \<and> P r}) =
      card {r. r < n \<and> Q r} + card ((\<lambda>r. n + r) ` {r. r < m \<and> P r})"
    by (rule card_Un_disjoint) auto
  ultimately show ?thesis by simp
qed

text \<open>Of all draws below the sum, as many pick an address as its weights say.\<close>

lemma card_pick_draw:
  assumes "\<forall>(w, b)\<in>set xs. 0 \<le> w"
  shows "card {r. r < nat (\<Sum>(w, b)\<leftarrow>xs. w) \<and> pick_draw xs (int r) = Some a} =
    nat (\<Sum>(w, b)\<leftarrow>xs. if b = a then w else 0)"
  using assms
proof (induction xs)
  case (Cons x xs)
  obtain w b where x: "x = (w, b)" by (cases x)
  have w: "0 \<le> w" and xs: "\<forall>(w, b)\<in>set xs. 0 \<le> w" using Cons.prems x by auto
  have s: "0 \<le> (\<Sum>(w, b)\<leftarrow>xs. w)" "0 \<le> (\<Sum>(w, b)\<leftarrow>xs. if b = a then w else 0)"
    using xs by (induction xs) auto
  have first: "card {r. r < nat w \<and> pick_draw (x # xs) (int r) = Some a} = nat (if b = a then w else 0)"
  proof -
    have "{r. r < nat w \<and> pick_draw (x # xs) (int r) = Some a} = (if b = a then {..<nat w} else {})"
      by (auto simp: x zless_nat_eq_int_zless)
    then show ?thesis by simp
  qed
  have "card {r. r < nat w + nat (\<Sum>(w, b)\<leftarrow>xs. w) \<and> pick_draw (x # xs) (int r) = Some a} =
      card {r. r < nat w \<and> pick_draw (x # xs) (int r) = Some a} +
      card {r. r < nat (\<Sum>(w, b)\<leftarrow>xs. w) \<and> pick_draw xs (int r) = Some a}"
    by (rule card_shift) (simp add: x w)
  with first Cons.IH [OF xs] s w show ?case by (simp add: x nat_add_distrib)
qed simp

lemma pick_draw_total:
  assumes "\<forall>(w, b)\<in>set xs. 0 \<le> w" "0 \<le> r" "r < (\<Sum>(w, b)\<leftarrow>xs. w)"
  shows "\<exists>a. pick_draw xs r = Some a"
  using assms
proof (induction xs arbitrary: r)
  case (Cons x xs)
  then show ?case using Cons.IH [of "r - fst x"] by (cases x) (auto simp: not_less)
qed simp

lemma sum_list_map_const: "(\<Sum>x\<leftarrow>xs. if P x then (c :: int) else 0) = c * int (length (filter P xs))"
  by (induction xs) (auto simp: algebra_simps)

lemma draw_list_sums:
  "(\<Sum>(w, b)\<leftarrow>draw_list es. w) = weight_sum es"
  "(\<Sum>(w, b)\<leftarrow>draw_list es. if b = a then w else 0) = address_weight a es"
  by (induction es) (simp_all add: draw_list_def sum_list_triv comp_def sum_list_map_const algebra_simps)

lemma draw_list_nonneg:
  "weights_given es \<Longrightarrow> \<forall>(w, b)\<in>set (draw_list es). 0 \<le> w"
  by (fastforce simp: draw_list_def weights_given_def list_all_iff split: option.splits)

lemma address_weight_nonneg: "weights_given es \<Longrightarrow> 0 \<le> address_weight a es"
  by (induction es) auto

lemma pick_draw_weight:
  assumes "pick_draw xs r = Some a" "0 \<le> r" "\<forall>(w, b)\<in>set xs. 0 \<le> w"
  shows "0 < (\<Sum>(w, b)\<leftarrow>xs. if b = a then w else 0)"
  using assms
proof (induction xs arbitrary: r)
  case (Cons x xs)
  obtain w b where x: "x = (w, b)" by (cases x)
  have xs: "\<forall>(w, b)\<in>set xs. 0 \<le> w" and w: "0 \<le> w" using Cons.prems(3) x by auto
  have s: "0 \<le> (\<Sum>(w, b)\<leftarrow>xs. if b = a then w else 0)" using xs by (induction xs) auto
  show ?case
  proof (cases "r < w")
    case True
    then show ?thesis using Cons.prems(1,2) s x by simp
  next
    case False
    then have "0 < (\<Sum>(w, b)\<leftarrow>xs. if b = a then w else 0)"
      using Cons.IH [of "r - w"] Cons.prems(1) x xs by simp
    then show ?thesis using w x by simp
  qed
qed simp

text \<open>A source of random numbers that answers \<open>r\<close> when it is asked for a number below the sum.\<close>

lemma getDestinationWithWeight_draw:
  assumes "weights_ok es" "intn (nat (weight_sum es)) s = (r, s')" "r < nat (weight_sum es)"
  shows "getDestinationWithWeight intn es s = (case pick_draw (draw_list es) (int r) of
    Some a \<Rightarrow> (Inr a, s') | None \<Rightarrow> (Inl (Failed ''no available endpoint''), s'))"
proof -
  have r: "int r < weight_sum es" "0 < weight_sum es" using assms(3) by auto
  then have "int r < 2 ^ 31" using assms(1) by (simp add: weights_ok_def)
  moreover from this have "i32 (int r) = int r" by (simp add: in_i32_def)
  ultimately show ?thesis
    using assms(1,2) r total_weight_exact [of es 0] pick_weighted_draw [of es "int r"]
    by (auto simp: getDestinationWithWeight_def weights_ok_def rand_Intn_def io_simps split: option.splits)
qed

text \<open>The address that a random number stands for.\<close>

definition picked :: "SidecarEndpoints list \<Rightarrow> nat \<Rightarrow> string" where
  "picked es r = the (pick_draw (draw_list es) (int r))"

lemma pick_draw_picked:
  assumes "weights_ok es" "r < nat (weight_sum es)"
  shows "pick_draw (draw_list es) (int r) = Some (picked es r)"
proof -
  have "\<exists>a. pick_draw (draw_list es) (int r) = Some a"
    by (rule pick_draw_total [OF draw_list_nonneg]) (use assms in \<open>simp_all add: weights_ok_def draw_list_sums\<close>)
  then show ?thesis by (auto simp: picked_def)
qed

lemma outboundProxy_picks:
  assumes "outbound_endpoints e (Req_Host c) = Some es" "weights_ok es"
    "intn (nat (weight_sum es)) s = (r, s')" "r < nat (weight_sum es)"
  shows "outboundProxy intn matchString e c s = (Forward (target_scheme c) (picked es r), s')"
proof -
  obtain x xs where es: "es = x # xs" using assms(4) by (cases es) auto
  with assms(2) have "Weight x \<noteq> None" by (auto simp: weights_ok_def)
  with es show ?thesis
    using getDestinationWithWeight_draw [OF assms(2), of intn s r s'] assms(1,3,4) pick_draw_picked [OF assms(2,4)]
    by (simp add: outboundProxy_def)
qed

lemma picked_weight: "weights_ok es \<Longrightarrow> r < nat (weight_sum es) \<Longrightarrow> 0 < address_weight (picked es r) es"
  using pick_draw_weight [OF pick_draw_picked _ draw_list_nonneg [of es]] by (simp add: weights_ok_def draw_list_sums)

lemma draws_to_address:
  assumes "weights_ok es"
  shows "int (card {r. r < nat (weight_sum es) \<and> picked es r = a}) = address_weight a es"
proof -
  have given: "weights_given es" using assms by (simp add: weights_ok_def)
  have "r < nat (weight_sum es) \<and> picked es r = a \<longleftrightarrow> r < nat (weight_sum es) \<and> pick_draw (draw_list es) (int r) = Some a" for r
    using pick_draw_picked [OF assms, of r] by auto
  then show ?thesis
    using card_pick_draw [OF draw_list_nonneg [OF given], of a] address_weight_nonneg [OF given, of a]
    by (simp add: draw_list_sums)
qed

text \<open>A set of addresses gets the sum of their shares.\<close>

lemma draws_to_set:
  assumes "weights_ok es" "finite A"
  shows "int (card {r. r < nat (weight_sum es) \<and> picked es r \<in> A}) = (\<Sum>a\<in>A. address_weight a es)"
proof -
  let ?R = "\<lambda>a. {r. r < nat (weight_sum es) \<and> picked es r = a}"
  have "{r. r < nat (weight_sum es) \<and> picked es r \<in> A} = (\<Union>a\<in>A. ?R a)"
    by auto
  moreover have "card (\<Union>a\<in>A. ?R a) = (\<Sum>a\<in>A. card (?R a))"
    by (rule card_UN_disjoint [OF assms(2)]) auto
  ultimately show ?thesis by (simp add: draws_to_address [OF assms(1)])
qed

text \<open>
  C34: weighted routing is exact. For a host whose endpoints have weights, none negative and with a sum below
  \<open>2 ^ 31\<close>, a request draws one random number, and it asks for one below exactly this sum, whatever the source of random
  numbers does. The number alone decides where the request goes, always to an endpoint of positive weight, and of
  the numbers below the sum exactly as many lead to an address as the weights of the endpoints with that address add up to.
\<close>

theorem envoy_weighted_choice:
  assumes "outbound_endpoints e (Req_Host c) = Some es" "weights_ok es"
  shows "\<exists>dest.
    (\<forall>intn s r s'. intn (nat (weight_sum es)) s = (r, s') \<and> r < nat (weight_sum es) \<longrightarrow>
      outboundProxy intn matchString e c s = (Forward (target_scheme c) (dest r), s') \<and> 0 < address_weight (dest r) es) \<and>
    (\<forall>a. int (card {r. r < nat (weight_sum es) \<and> dest r = a}) = address_weight a es)"
proof (intro exI [of _ "picked es"] conjI allI impI; (elim conjE)?)
  show "outboundProxy intn matchString e c s = (Forward (target_scheme c) (picked es r), s')"
    if "intn (nat (weight_sum es)) s = (r, s')" "r < nat (weight_sum es)" for intn s r s'
    using outboundProxy_picks [OF assms, of intn s r s' matchString] that by simp
qed (use draws_to_address [OF assms(2)] picked_weight [OF assms(2)] in blast)+

definition mock_envoy :: Envoy where
  "mock_envoy = NewEnvoy\<lparr>Envoy_mapping := getMockMapping\<rparr>"

definition mock_request :: proxy_request where
  "mock_request = \<lparr>Req_Host = ''100.0.0.0:80'', URL_Scheme = '''', URL_Host = '''', Param_Path = ''/''\<rparr>"

lemma mock_endpoints:
  "outbound_endpoints mock_envoy (Req_Host mock_request) = Some [weighted 1 [801, 802], weighted 2 [803]]"
  by code_simp

text \<open>A source of random numbers that writes down the bounds it is asked for.\<close>

definition noted :: "nat \<Rightarrow> nat \<Rightarrow> nat list \<Rightarrow> nat \<times> nat list" where
  "noted r n s = (r, s @ [n])"

theorem envoy_weighted_choice_witness:
  "\<exists>dest. (\<forall>r < 4. outboundProxy (noted r) (\<lambda>_ _. Inr False) mock_envoy mock_request [] = (Forward ''http'' (dest r), [4])) \<and>
     card {r. r < 4 \<and> dest r = ''127.0.0.1:803''} = (2 :: nat)"
proof -
  let ?es = "[weighted 1 [801, 802], weighted 2 [803]]"
  have ok: "weights_ok ?es" "weight_sum ?es = 4" "address_weight ''127.0.0.1:803'' ?es = 2" "target_scheme mock_request = ''http''"
    by code_simp+
  obtain dest where d: "\<forall>(intn :: nat \<Rightarrow> nat list \<Rightarrow> nat \<times> nat list) s r s'. intn (nat 4) s = (r, s') \<and> r < nat 4 \<longrightarrow>
      outboundProxy intn (\<lambda>_ _. Inr False) mock_envoy mock_request s = (Forward ''http'' (dest r), s') \<and> 0 < address_weight (dest r) ?es"
    "\<forall>a. int (card {r. r < nat 4 \<and> dest r = a}) = address_weight a ?es"
    using envoy_weighted_choice [OF mock_endpoints ok(1), of "\<lambda>_ _. Inr False", unfolded ok(2,4)] by (elim exE conjE) (rule that)
  have "outboundProxy (noted r) (\<lambda>_ _. Inr False) mock_envoy mock_request [] = (Forward ''http'' (dest r), [4])" if "r < 4" for r
    using that d(1) [rule_format, of "noted r" "[]" r "[4]"] by (simp add: noted_def)
  moreover have "card {r. r < 4 \<and> dest r = ''127.0.0.1:803''} = 2"
    using d(2) [rule_format, of "''127.0.0.1:803''"] ok(3) by simp
  ultimately show ?thesis by blast
qed

text \<open>No positive total, be it from weights that are all 0 or from a sum that wraps: every request panics.\<close>

lemma no_total_recovers:
  assumes "outbound_endpoints e (Req_Host c) = Some es" "es \<noteq> []" "total_weight es 0 = Some t" "t \<le> 0"
  shows "outboundProxy intn matchString e c w = (Recovered, w)"
proof -
  obtain x xs where es: "es = x # xs" using assms(2) by (cases es) auto
  with assms(3) have "Weight x \<noteq> None" by (auto split: option.splits)
  with assms es show ?thesis
    by (simp add: outboundProxy_def getDestinationWithWeight_def rand_Intn_def io_simps)
qed

lemma wrapped_total_recovers:
  assumes "outbound_endpoints e (Req_Host c) = Some [weighted (2 ^ 30) [801], weighted (2 ^ 30) [802]]"
  shows "outboundProxy intn matchString e c w = (Recovered, w)"
  by (rule no_total_recovers [OF assms, of "- (2 ^ 31)"]) (simp_all add: weighted_def i32_def)

text \<open>A service name without a port is never looked up: the request keeps its host.\<close>

lemma bare_name_unresolved:
  assumes "SplitHostPort (Req_Host c) = None" "\<not> ParseIP (Req_Host c)" "map_of (Envoy_nameMapping e) '''' = None" "URL_Host c = ''''"
  shows "outboundProxy intn matchString e c w = (Forward (target_scheme c) (Req_Host c), w)"
  using assms by (simp add: outboundProxy_def outbound_endpoints_def outbound_address_def)

end
