(* ===== verification/Pilot.thy ===== *)
theory Pilot
  imports Envoy
begin

text \<open>
  The control plane of the service mesh, \<open>pkg/microservice/pilot/pilot.go\<close>: every five seconds it computes the
  routing table of all sidecars (\<open>syncLoopIteration\<close>) from the pods, the services and the virtual services,
  and starts a goroutine for each pending rolling update (\<open>rollingUpdateWorkerLoop\<close>).
  The network is a parameter, as in the client; a \<open>routing_order\<close> says in which order the loops visit
  the entries of a map; pauses are a parameter by which the rest of the cluster may act. Where the code
  dereferences a nil pointer or indexes out of range the model panics, which ends the program.
  A goroutine is one sequence of calls over the state of the network.
\<close>

record routing_order =
  visit_marked :: "(string, bool) gomap \<Rightarrow> (string, bool) gomap"
  visit_waited :: "(UID, int list) gomap \<Rightarrow> (UID, int list) gomap"
  visit_ports :: "(string, ServiceAndEndpoints) gomap \<Rightarrow> (string, ServiceAndEndpoints) gomap"
  visit_endpoints :: "(string, Endpoint) gomap \<Rightarrow> (string, Endpoint) gomap"

definition fair_order :: "routing_order \<Rightarrow> bool" where
  "fair_order V \<longleftrightarrow> (\<forall>m. mset (visit_marked V m) = mset m) \<and> (\<forall>m. mset (visit_waited V m) = mset m) \<and>
     (\<forall>m. mset (visit_ports V m) = mset m) \<and> (\<forall>m. mset (visit_endpoints V m) = mset m)"

section \<open>Endpoints of services\<close>

definition pilot_isSelectorMatched :: "Pod \<Rightarrow> Service \<Rightarrow> bool" where
  "pilot_isSelectorMatched pod svc \<longleftrightarrow> (\<forall>(key, val) \<in> set (Selector (Svc_Spec svc)).
     (case Labels (Pod_Meta pod) of None \<Rightarrow> False | Some labels \<Rightarrow> map_of labels key = Some val))"

definition ready :: "Pod \<Rightarrow> Service \<Rightarrow> bool" where
  "ready pod service \<longleftrightarrow> pilot_isSelectorMatched pod service \<and> Phase (Pod_Status pod) = PodRunning \<and>
     PodIP (Pod_Status pod) \<noteq> ''''"

text \<open>The search of the containers for the target port of a service port.\<close>

definition offers :: "Pod \<Rightarrow> ServicePort \<Rightarrow> bool" where
  "offers pod port \<longleftrightarrow> (\<exists>container\<in>set (Containers (Pod_Spec pod)). \<exists>containerPort\<in>set (Container_Ports container).
     ContainerPort_Port containerPort = TargetPort port \<and> ContainerPort_Protocol containerPort = ServicePort_Protocol port)"

definition endpoint_ports :: "Pod \<Rightarrow> ServicePort list \<Rightarrow> EndpointPort list" where
  "endpoint_ports pod ports =
     map (\<lambda>port. \<lparr>EP_Port = TargetPort port, EP_Protocol = ServicePort_Protocol port\<rparr>) (filter (offers pod) ports)"

text \<open>The entries by name of pod, for all ports of a service or for one.\<close>

definition endpoints_by_pod :: "Pod list \<Rightarrow> Service \<Rightarrow> ServicePort list \<Rightarrow> (string, Endpoint) gomap" where
  "endpoints_by_pod pods service ports =
     fold (\<lambda>pod. mput (Name (Pod_Meta pod)) \<lparr>EP_IP = PodIP (Pod_Status pod), EP_Ports = endpoint_ports pod ports\<rparr>)
       (filter (\<lambda>pod. ready pod service) pods) []"

definition getEndpoints :: "Pod list \<Rightarrow> Service list \<Rightarrow> (UID, ServiceAndEndpoints) gomap" where
  "getEndpoints pods services =
     fold (\<lambda>service. mput (MetaUID (Svc_Meta service)) \<lparr>SE_Service = service,
       EndpointsMapWithPodName = endpoints_by_pod pods service (Service_Ports (Svc_Spec service))\<rparr>) services []"

definition makeFullMap :: "Service list \<Rightarrow> (string, Service) gomap" where
  "makeFullMap services = fold (\<lambda>service. mput (GetObjectFullName (Svc_Meta service)) service) services []"

definition makeUIDMap :: "Service list \<Rightarrow> (UID, Service) gomap" where
  "makeUIDMap services = fold (\<lambda>service. mput (MetaUID (Svc_Meta service)) service) services []"

definition getFullPort :: "UID \<Rightarrow> int \<Rightarrow> string" where
  "getFullPort uid port = uid @ ''_'' @ dec_int port"

text \<open>Without an underscore the second part is missing; an error of \<open>strconv.Atoi\<close> is ignored.\<close>

definition splitFullPort :: "string \<Rightarrow> (UID \<times> int) option" where
  "splitFullPort fp = (case split_on (CHR ''_'') fp of
     uid # port # _ \<Rightarrow> Some (uid, i32 (atoi_or_zero port))
   | _ \<Rightarrow> None)"

definition makeMarkedMap :: "Service list \<Rightarrow> (string, bool) gomap" where
  "makeMarkedMap services = fold (\<lambda>service m. fold (\<lambda>port. mput (getFullPort (MetaUID (Svc_Meta service)) (Port port)) False)
     (Service_Ports (Svc_Spec service)) m) services []"

section \<open>Weights\<close>

text \<open>The inner loop of \<open>calculate\<close>, over the subsets from the \<open>j\<close>-th on.\<close>

fun times_others :: "nat \<Rightarrow> nat \<Rightarrow> int list \<Rightarrow> int \<Rightarrow> int" where
  "times_others i j [] temp = temp"
| "times_others i j (STPW # SbsToPodNum) temp =
     times_others i (Suc j) SbsToPodNum (if i \<noteq> j \<and> STPW \<noteq> 0 then i32 (temp * STPW) else temp)"

definition calculate :: "int list \<Rightarrow> int list \<Rightarrow> int list" where
  "calculate VsToSbsWeight SbsToPodNum =
     map (\<lambda>(i, VTSW). times_others i 0 SbsToPodNum VTSW) (enumerate 0 VsToSbsWeight)"

section \<open>Virtual services\<close>

text \<open>A call of the client whose error is returned.\<close>

definition io_call :: "('w \<Rightarrow> ('a \<times> error) \<times> 'w) \<Rightarrow> ('w, 'a) io" where
  "io_call f w = (case f w of ((x, err), w') \<Rightarrow> (case err of None \<Rightarrow> (Inr x, w') | Some e \<Rightarrow> (Inl (Failed e), w')))"

definition target_port :: "Service \<Rightarrow> int \<Rightarrow> int" where
  "target_port service vs_port =
     (case find (\<lambda>port. Port port = vs_port) (Service_Ports (Svc_Spec service)) of None \<Rightarrow> 0 | Some port \<Rightarrow> TargetPort port)"

text \<open>The endpoints of a pod of a subset; a pod that is not there has none.\<close>

definition single_endpoints :: "ServiceAndEndpoints \<Rightarrow> int \<Rightarrow> string \<Rightarrow> SingleEndpoint list" where
  "single_endpoints se targetPort podName = (case map_of (EndpointsMapWithPodName se) podName of
     None \<Rightarrow> []
   | Some endpoints \<Rightarrow> map (\<lambda>endpoint. \<lparr>Endpoint_IP = EP_IP endpoints, Endpoint_TargetPort = EP_Port endpoint\<rparr>)
       (filter (\<lambda>endpoint. EP_Port endpoint = targetPort) (EP_Ports endpoints)))"

text \<open>\<open>GetSubsetByName\<close> and the pods of what it returns; a nil subset panics.\<close>

definition subset_pods :: "'w net \<Rightarrow> string \<Rightarrow> string \<Rightarrow> ('w, string list) io" where
  "subset_pods N name namespace = io_bind (io_call (client_GetSubsetByName N name namespace)) (\<lambda>sset. case sset of
     None \<Rightarrow> io_panic
   | Some sset \<Rightarrow> io_return (Subset_Pods sset))"

fun url_routes :: "'w net \<Rightarrow> ServiceAndEndpoints \<Rightarrow> int \<Rightarrow> string \<Rightarrow> VirtualServiceSubset list \<Rightarrow> ('w, SidecarEndpoints list) io" where
  "url_routes N se targetPort namespace [] = io_return []"
| "url_routes N se targetPort namespace (sbs # subsets) =
     io_bind (subset_pods N (VSS_Name sbs) namespace) (\<lambda>podNames.
     io_bind (url_routes N se targetPort namespace subsets) (\<lambda>sidecarEndpoints.
     io_return (map (\<lambda>podName. \<lparr>Weight = None, URL = VSS_URL sbs, Endpoints = single_endpoints se targetPort podName\<rparr>) podNames
       @ sidecarEndpoints)))"

text \<open>The first loop over the subsets: weights (a nil weight panics) and numbers of pods.\<close>

fun weights_and_pods :: "'w net \<Rightarrow> string \<Rightarrow> VirtualServiceSubset list \<Rightarrow> ('w, (int \<times> int) list) io" where
  "weights_and_pods N namespace [] = io_return []"
| "weights_and_pods N namespace (sbs # subsets) =
     io_bind (subset_pods N (VSS_Name sbs) namespace) (\<lambda>podNames. case VSS_Weight sbs of
       None \<Rightarrow> io_panic
     | Some weight \<Rightarrow> io_bind (weights_and_pods N namespace subsets) (\<lambda>xs.
         io_return ((weight, i32 (int (length podNames))) # xs)))"

fun weight_routes :: "'w net \<Rightarrow> ServiceAndEndpoints \<Rightarrow> int \<Rightarrow> string \<Rightarrow> (VirtualServiceSubset \<times> int) list \<Rightarrow> ('w, SidecarEndpoints list) io" where
  "weight_routes N se targetPort namespace [] = io_return []"
| "weight_routes N se targetPort namespace ((sbs, weight) # subsets) =
     io_bind (subset_pods N (VSS_Name sbs) namespace) (\<lambda>podNames.
     io_bind (weight_routes N se targetPort namespace subsets) (\<lambda>sidecarEndpoints.
     io_return (map (\<lambda>podName. \<lparr>Weight = Some weight, URL = None, Endpoints = single_endpoints se targetPort podName\<rparr>) podNames
       @ sidecarEndpoints)))"

definition weighted_routes :: "'w net \<Rightarrow> ServiceAndEndpoints \<Rightarrow> int \<Rightarrow> string \<Rightarrow> VirtualServiceSubset list \<Rightarrow> ('w, SidecarEndpoints list) io" where
  "weighted_routes N se targetPort namespace subsets =
     io_bind (weights_and_pods N namespace subsets) (\<lambda>xs.
     weight_routes N se targetPort namespace (zip subsets (calculate (map fst xs) (map snd xs))))"

definition ip_and_port :: "Service \<Rightarrow> int \<Rightarrow> string" where
  "ip_and_port service port = ClusterIP (Svc_Spec service) @ '':'' @ dec_int port"

text \<open>The body of the loop over the virtual services; it marks the port and adds its route.\<close>

definition route_virtual_service :: "'w net \<Rightarrow> (string, Service) gomap \<Rightarrow> (UID, ServiceAndEndpoints) gomap \<Rightarrow> VirtualService \<Rightarrow>
    (string, bool) gomap \<times> SidecarMapping \<Rightarrow> ('w, (string, bool) gomap \<times> SidecarMapping) io" where
  "route_virtual_service N servicesMap endpointMap vs maps = (case maps of (markedMap, sideCarMap) \<Rightarrow>
     let serviceNamespace = Namespace (VS_Meta vs) in
     case map_of servicesMap (serviceNamespace @ ''_'' @ VS_ServiceRef (VS_Spec vs)) of
       None \<Rightarrow> io_panic
     | Some service \<Rightarrow>
       let serviceUID = MetaUID (Svc_Meta service);
         markedMap = mput (getFullPort serviceUID (VS_Port (VS_Spec vs))) True markedMap in
       case map_of endpointMap serviceUID of
         None \<Rightarrow> io_panic
       | Some se \<Rightarrow>
         let targetPort = target_port (SE_Service se) (VS_Port (VS_Spec vs)) in
         case Subsets (VS_Spec vs) of
           [] \<Rightarrow> io_panic
         | sbs # _ \<Rightarrow>
           io_bind (if VSS_URL sbs \<noteq> None then url_routes N se targetPort serviceNamespace (Subsets (VS_Spec vs))
                    else weighted_routes N se targetPort serviceNamespace (Subsets (VS_Spec vs))) (\<lambda>sidecarEndpoints.
           io_return (markedMap, mput (ip_and_port (SE_Service se) (VS_Port (VS_Spec vs))) sidecarEndpoints sideCarMap)))"

fun route_virtual_services :: "'w net \<Rightarrow> (string, Service) gomap \<Rightarrow> (UID, ServiceAndEndpoints) gomap \<Rightarrow> VirtualService list \<Rightarrow>
    (string, bool) gomap \<times> SidecarMapping \<Rightarrow> ('w, (string, bool) gomap \<times> SidecarMapping) io" where
  "route_virtual_services N servicesMap endpointMap [] maps = io_return maps"
| "route_virtual_services N servicesMap endpointMap (vs # virtualServices) maps =
     io_bind (route_virtual_service N servicesMap endpointMap vs maps) (\<lambda>maps.
     route_virtual_services N servicesMap endpointMap virtualServices maps)"

section \<open>Ports without a virtual service\<close>

text \<open>The three loops; a missing part of a name or a missing service is a panic, \<open>None\<close>.\<close>

fun waited_ports :: "(string, bool) gomap \<Rightarrow> (UID, int list) gomap \<Rightarrow> (UID, int list) gomap option" where
  "waited_ports [] waited = Some waited"
| "waited_ports ((serviceUIDAndPort, isDone) # markedMap) waited =
     (if isDone then waited_ports markedMap waited
      else case splitFullPort serviceUIDAndPort of
        None \<Rightarrow> None
      | Some (uid, port) \<Rightarrow> waited_ports markedMap
          (mput uid ((case map_of waited uid of None \<Rightarrow> [] | Some ports \<Rightarrow> ports) @ [port]) waited))"

definition zero_ServicePort :: ServicePort where
  "zero_ServicePort = \<lparr>ServicePort_Name = '''', ServicePort_Protocol = '''', Port = 0, TargetPort = 0, NodePort = 0\<rparr>"

text \<open>The last port with the number.\<close>

definition port_with :: "Service \<Rightarrow> int \<Rightarrow> ServicePort" where
  "port_with service port_i = (case find (\<lambda>port. port_i = Port port) (rev (Service_Ports (Svc_Spec service))) of
     None \<Rightarrow> zero_ServicePort | Some port \<Rightarrow> port)"

definition waited_entry :: "Pod list \<Rightarrow> Service \<Rightarrow> int \<Rightarrow> (string, ServiceAndEndpoints) gomap \<Rightarrow> (string, ServiceAndEndpoints) gomap" where
  "waited_entry pods service port_i = mput (getFullPort (MetaUID (Svc_Meta service)) port_i)
     \<lparr>SE_Service = service, EndpointsMapWithPodName = endpoints_by_pod pods service [port_with service port_i]\<rparr>"

fun waited_endpoints :: "Pod list \<Rightarrow> (UID, ServiceAndEndpoints) gomap \<Rightarrow> (UID, int list) gomap \<Rightarrow>
    (string, ServiceAndEndpoints) gomap \<Rightarrow> (string, ServiceAndEndpoints) gomap option" where
  "waited_endpoints pods endpointMap [] newMap = Some newMap"
| "waited_endpoints pods endpointMap ((uid, ports) # waited) newMap = (case map_of endpointMap uid of
     None \<Rightarrow> None
   | Some se \<Rightarrow> waited_endpoints pods endpointMap waited (fold (waited_entry pods (SE_Service se)) ports newMap))"

definition default_endpoints :: "(string, Endpoint) gomap \<Rightarrow> SidecarEndpoints list" where
  "default_endpoints m = map (\<lambda>singles. \<lparr>Weight = Some 1, URL = None, Endpoints = singles\<rparr>) (filter (\<lambda>singles. singles \<noteq> [])
     (map (\<lambda>(podName, endpoint). map (\<lambda>port. \<lparr>Endpoint_IP = EP_IP endpoint, Endpoint_TargetPort = EP_Port port\<rparr>) (EP_Ports endpoint)) m))"

fun default_routes :: "routing_order \<Rightarrow> (string, ServiceAndEndpoints) gomap \<Rightarrow> SidecarMapping \<Rightarrow> SidecarMapping option" where
  "default_routes V [] sideCarMap = Some sideCarMap"
| "default_routes V ((port, se) # newMap) sideCarMap = (case splitFullPort port of
     None \<Rightarrow> None
   | Some (_, port_i) \<Rightarrow> default_routes V newMap
       (mput (ip_and_port (SE_Service se) port_i) (default_endpoints (visit_endpoints V (EndpointsMapWithPodName se))) sideCarMap))"

definition unmarked_routes :: "routing_order \<Rightarrow> Pod list \<Rightarrow> (UID, ServiceAndEndpoints) gomap \<Rightarrow>
    (string, bool) gomap \<Rightarrow> SidecarMapping \<Rightarrow> SidecarMapping option" where
  "unmarked_routes V pods endpointMap markedMap sideCarMap =
     (case waited_ports (visit_marked V markedMap) [] of
        None \<Rightarrow> None
      | Some waited \<Rightarrow> (case waited_endpoints pods endpointMap (visit_waited V waited) [] of
          None \<Rightarrow> None
        | Some newMap \<Rightarrow> default_routes V (visit_ports V newMap) sideCarMap))"

section \<open>Rolling updates\<close>

text \<open>The goroutines that a round starts: the update, its service and the pods that are up.\<close>

definition doRollingUpdate :: "RollingUpdate list \<Rightarrow> (string, Service) gomap \<Rightarrow> Pod list \<Rightarrow> (RollingUpdate \<times> Service \<times> Pod list) list" where
  "doRollingUpdate rollingUpdates serviceMap pods = concat (map (\<lambda>ru.
     if RU_Phase ru \<noteq> RollingUpdatePending then []
     else case map_of serviceMap (Namespace (RU_Meta ru) @ ''_'' @ RU_ServiceRef (RU_Spec ru)) of
       None \<Rightarrow> []
     | Some service \<Rightarrow> let servicePods = filter (\<lambda>pod. ready pod service) pods in
         if servicePods = [] then [] else [(ru, service, servicePods)]) rollingUpdates)"

text \<open>
  The calls that a goroutine makes. The calls of the first group end it when they fail; later errors are only logged,
  so the rest is one sequence of calls.
\<close>

datatype update_call =
  SetStatus RollingUpdatePhase
| PutSubset Subset
| PutVirtualService VirtualService
| RemovePod string
| PutPod Pod
| Sleep
| RemoveVirtualService VirtualService
| RemoveSubset Subset

fun update_do :: "'w net \<Rightarrow> (int \<Rightarrow> 'w \<Rightarrow> 'w) \<Rightarrow> RollingUpdate \<Rightarrow> update_call \<Rightarrow> 'w \<Rightarrow> error \<times> 'w" where
  "update_do N sleep ru (SetStatus phase) w = client_UpdateRollingUpdateStatus N (Name (RU_Meta ru)) (Namespace (RU_Meta ru)) phase w"
| "update_do N sleep ru (PutSubset sset) w = client_AddSubset N sset w"
| "update_do N sleep ru (PutVirtualService vs) w = client_AddVirtualService N vs w"
| "update_do N sleep ru (RemovePod name) w = client_DeletePod N name (Namespace (RU_Meta ru)) w"
| "update_do N sleep ru (PutPod pod) w = client_AddPod N pod w"
| "update_do N sleep ru Sleep w = (None, sleep (Interval (RU_Spec ru)) w)"
| "update_do N sleep ru (RemoveVirtualService vs) w = client_DeleteVirtualService N vs w"
| "update_do N sleep ru (RemoveSubset sset) w = client_DeleteSubset N sset w"

definition update_subset :: "RollingUpdate \<Rightarrow> Service \<Rightarrow> string \<Rightarrow> string list \<Rightarrow> Subset" where
  "update_subset ru service suffix podNames = \<lparr>Subset_Type = \<lparr>Kind = ''Subset'', APIVersion = ''v1''\<rparr>,
     Subset_Meta = zero_ObjectMeta\<lparr>Name := Name (Svc_Meta service) @ suffix, Namespace := Namespace (RU_Meta ru)\<rparr>,
     Subset_Pods = podNames\<rparr>"

abbreviation subsetBlocked :: "RollingUpdate \<Rightarrow> Service \<Rightarrow> string list \<Rightarrow> Subset" where
  "subsetBlocked ru service \<equiv> update_subset ru service ''-blocked''"

abbreviation subsetAvailable :: "RollingUpdate \<Rightarrow> Service \<Rightarrow> string list \<Rightarrow> Subset" where
  "subsetAvailable ru service \<equiv> update_subset ru service ''-available''"

definition update_vs :: "RollingUpdate \<Rightarrow> Service \<Rightarrow> VirtualService" where
  "update_vs ru service = \<lparr>VS_Type = \<lparr>Kind = ''VirtualService'', APIVersion = ''v1''\<rparr>,
     VS_Meta = zero_ObjectMeta\<lparr>Name := Name (Svc_Meta service) @ ''-rolling-update'', Namespace := Namespace (RU_Meta ru)\<rparr>,
     VS_Spec = \<lparr>VS_ServiceRef = RU_ServiceRef (RU_Spec ru), VS_Port = RU_Port (RU_Spec ru), Subsets =
       [\<lparr>VSS_Name = Name (Svc_Meta service) @ ''-available'', VSS_Weight = Some 1, VSS_URL = None\<rparr>,
        \<lparr>VSS_Name = Name (Svc_Meta service) @ ''-blocked'', VSS_Weight = Some 0, VSS_URL = None\<rparr>]\<rparr>\<rparr>"

definition setup_calls :: "RollingUpdate \<Rightarrow> Service \<Rightarrow> update_call list" where
  "setup_calls ru service = [SetStatus RollingUpdateRunning, PutSubset (subsetBlocked ru service []),
     PutSubset (subsetAvailable ru service []), PutVirtualService (update_vs ru service)]"

definition new_pod :: "RollingUpdate \<Rightarrow> Pod \<Rightarrow> Pod" where
  "new_pod ru blockedPod = \<lparr>Pod_Type = Pod_Type blockedPod, Pod_Meta = Pod_Meta blockedPod, Pod_Spec = NewPodSpec (RU_Spec ru),
     Pod_Status = zero_PodStatus\<rparr>"

text \<open>One turn of the loop: the pods from \<open>i\<close> to \<open>j\<close> are blocked, deleted and added again.\<close>

definition batch :: "RollingUpdate \<Rightarrow> Service \<Rightarrow> Pod list \<Rightarrow> nat \<Rightarrow> nat \<Rightarrow> update_call list" where
  "batch ru service pods i j =
     (let blockedPodNames = [Name (Pod_Meta (pods ! k)). k \<leftarrow> [0..<length pods], i \<le> k \<and> k < j];
          availablePodNames = [Name (Pod_Meta (pods ! k)). k \<leftarrow> [0..<length pods], \<not> (i \<le> k \<and> k < j)];
          blockedPods = drop i (take j pods) in
      [PutSubset (subsetBlocked ru service blockedPodNames), PutSubset (subsetAvailable ru service availablePodNames)]
      @ map RemovePod blockedPodNames @ [Sleep] @ map (\<lambda>pod. PutPod (new_pod ru pod)) blockedPods @ [Sleep])"

text \<open>The loop; the step is positive, as checked at the start.\<close>

function batches :: "RollingUpdate \<Rightarrow> Service \<Rightarrow> Pod list \<Rightarrow> nat \<Rightarrow> nat \<Rightarrow> update_call list" where
  "batches ru service pods updateNum i =
     (if i < length pods \<and> 0 < updateNum
      then batch ru service pods i (min (i + updateNum) (length pods)) @ batches ru service pods updateNum (i + updateNum)
      else [])"
  by pat_completeness auto
termination by (relation "measure (\<lambda>(ru, service, pods, updateNum, i). length pods - i)") auto

declare batches.simps [simp del]

text \<open>The subsets are pointers whose pods the loop sets; what is deleted at the end are the same objects by name.\<close>

definition final_calls :: "RollingUpdate \<Rightarrow> Service \<Rightarrow> update_call list" where
  "final_calls ru service = [SetStatus RollingUpdateFinished, RemoveVirtualService (update_vs ru service),
     RemoveSubset (subsetBlocked ru service []), RemoveSubset (subsetAvailable ru service [])]"

definition updateNum :: "RollingUpdate \<Rightarrow> Pod list \<Rightarrow> int" where
  "updateNum ru pods = int (length pods) - MinimumAlive (RU_Spec ru)"

fun until_error :: "('c \<Rightarrow> 'w \<Rightarrow> error \<times> 'w) \<Rightarrow> 'c list \<Rightarrow> 'w \<Rightarrow> error \<times> 'w" where
  "until_error f [] w = (None, w)"
| "until_error f (c # cs) w = (case f c w of (err, w') \<Rightarrow> if err \<noteq> None then (err, w') else until_error f cs w')"

fun log_errors :: "('c \<Rightarrow> 'w \<Rightarrow> error \<times> 'w) \<Rightarrow> 'c list \<Rightarrow> 'w \<Rightarrow> 'w" where
  "log_errors f [] w = w"
| "log_errors f (c # cs) w = log_errors f cs (snd (f c w))"

definition rollingUpdateWorkerLoop :: "'w net \<Rightarrow> (int \<Rightarrow> 'w \<Rightarrow> 'w) \<Rightarrow> RollingUpdate \<Rightarrow> Service \<Rightarrow> Pod list \<Rightarrow> 'w \<Rightarrow> 'w" where
  "rollingUpdateWorkerLoop N sleep ru service pods w =
     (if updateNum ru pods \<le> 0 then w
      else case until_error (update_do N sleep ru) (setup_calls ru service) w of (err, w') \<Rightarrow>
        if err \<noteq> None then w'
        else log_errors (update_do N sleep ru)
          (batches ru service pods (nat (updateNum ru pods)) 0 @ final_calls ru service) w')"

section \<open>A round\<close>

definition listings :: "'w net \<Rightarrow> ('w, Pod list \<times> Service list \<times> VirtualService list \<times> RollingUpdate list) io" where
  "listings N = io_bind (io_call (client_GetAllPods N)) (\<lambda>pods.
     io_bind (io_call (client_GetAllServices N)) (\<lambda>services.
     io_bind (io_call (client_GetAllVirtualServices N)) (\<lambda>virtualServices.
     io_bind (io_call (client_GetAllRollingUpdates N)) (\<lambda>rollingUpdates.
     io_return (pods, services, virtualServices, rollingUpdates)))))"

text \<open>What follows the start of the goroutines.\<close>

definition publish :: "'w net \<Rightarrow> routing_order \<Rightarrow> Pod list \<Rightarrow> Service list \<Rightarrow> VirtualService list \<Rightarrow> ('w, unit) io" where
  "publish N V pods services virtualServices =
     (let servicesMap = makeFullMap services; endpointMap = getEndpoints pods services; markedMap = makeMarkedMap services in
      io_bind (route_virtual_services N servicesMap endpointMap virtualServices (markedMap, [])) (\<lambda>(markedMap, sideCarMap).
      case unmarked_routes V pods endpointMap markedMap sideCarMap of
        None \<Rightarrow> io_panic
      | Some sideCarMap \<Rightarrow> io_call (\<lambda>w. case client_AddSidecarMapping N sideCarMap w of (err, w') \<Rightarrow> (((), err), w'))))"

definition pilot_iteration :: "'w net \<Rightarrow> routing_order \<Rightarrow> 'w \<Rightarrow> ((failure + unit) \<times> (RollingUpdate \<times> Service \<times> Pod list) list) \<times> 'w" where
  "pilot_iteration N V w = (case listings N w of
     (Inl e, w1) \<Rightarrow> ((Inl e, []), w1)
   | (Inr (pods, services, virtualServices, rollingUpdates), w1) \<Rightarrow>
     let started = doRollingUpdate rollingUpdates (makeFullMap services) pods in
     (case publish N V pods services virtualServices w1 of (r, w2) \<Rightarrow> ((r, started), w2)))"

text \<open>\<open>SyncLoop\<close> for as many rounds as there are pauses: an error is printed, a panic ends the program.\<close>

fun pilot_loop :: "'w net \<Rightarrow> routing_order \<Rightarrow> ('w \<Rightarrow> 'w) list \<Rightarrow> 'w \<Rightarrow> (bool \<times> (RollingUpdate \<times> Service \<times> Pod list) list) \<times> 'w" where
  "pilot_loop N V [] w = ((True, []), w)"
| "pilot_loop N V (pause # pauses) w = (case pilot_iteration N V w of ((r, started), w1) \<Rightarrow>
     if r = Inl Panicked then ((False, started), w1)
     else case pilot_loop N V pauses (pause w1) of ((alive, later), w2) \<Rightarrow> ((alive, started @ later), w2))"

section \<open>A small mesh\<close>

definition mesh_pod :: "nat \<Rightarrow> Pod" where
  "mesh_pod i = \<lparr>Pod_Type = \<lparr>Kind = ''Pod'', APIVersion = ''v1''\<rparr>,
     Pod_Meta = zero_ObjectMeta\<lparr>Name := ''p'' @ dec i, Namespace := ''default'', Labels := Some [(''app'', ''web'')]\<rparr>,
     Pod_Spec = zero_PodSpec\<lparr>Containers := [\<lparr>Container_Name = ''c'', Container_Image = ''i'', Command = [],
       Container_Ports = [\<lparr>ContainerPort_Port = 88, ContainerPort_Protocol = ProtocolTCP\<rparr>],
       Resources = \<lparr>Limits = [], Requests = []\<rparr>, VolumeMounts = [], Container_SecurityContext = None\<rparr>]\<rparr>,
     Pod_Status = \<lparr>Phase = PodRunning, PodIP = ''10.32.0.'' @ dec i\<rparr>\<rparr>"

definition mesh_port :: ServicePort where
  "mesh_port = \<lparr>ServicePort_Name = ''http'', ServicePort_Protocol = ProtocolTCP, Port = 80, TargetPort = 88, NodePort = 0\<rparr>"

definition mesh_service :: Service where
  "mesh_service = \<lparr>Svc_Type = \<lparr>Kind = ''Service'', APIVersion = ''v1''\<rparr>,
     Svc_Meta = zero_ObjectMeta\<lparr>Name := ''web'', Namespace := ''default'', MetaUID := ''s''\<rparr>,
     Svc_Spec = \<lparr>Service_Type = ''ClusterIP'', Service_Ports = [mesh_port], Selector = [(''app'', ''web'')], ClusterIP = ''100.0.0.1''\<rparr>\<rparr>"

definition mesh_update :: RollingUpdate where
  "mesh_update = zero_RollingUpdate\<lparr>RU_Meta := zero_ObjectMeta\<lparr>Name := ''ru'', Namespace := ''default''\<rparr>,
     RU_Spec := \<lparr>RU_ServiceRef = ''web'', RU_Port = 80, MinimumAlive = 1, Interval = 10, NewPodSpec = zero_PodSpec\<rparr>\<rparr>"

definition same_order :: routing_order where
  "same_order = \<lparr>visit_marked = (\<lambda>m. m), visit_waited = (\<lambda>m. m), visit_ports = (\<lambda>m. m), visit_endpoints = (\<lambda>m. m)\<rparr>"

end
