(* ===== verification/Mesh_Traffic.thy ===== *)
theory Mesh_Traffic
  imports Pilot
begin

text \<open>
  The weights of virtual services from the pilot to the sidecars: what \<open>calculate\<close> computes, what the pilot makes of the
  subsets in the registry, and how the draws of a sidecar then fall. The locale \<open>mesh\<close> joins the pilot with client
  and server.
\<close>

section \<open>The weights that the pilot computes\<close>

definition nonzero_product :: "int list \<Rightarrow> int" where
  "nonzero_product ns = prod_list (filter (\<lambda>n. n \<noteq> 0) ns)"

text \<open>The product of the numbers of the others.\<close>

definition others_product :: "nat \<Rightarrow> nat \<Rightarrow> int list \<Rightarrow> int" where
  "others_product i j ns = prod_list (map snd (filter (\<lambda>(k, n). k \<noteq> i \<and> n \<noteq> 0) (enumerate j ns)))"

lemma product_pos: "\<forall>n\<in>set ns. 0 \<le> n \<Longrightarrow> 1 \<le> nonzero_product ns"
proof (induction ns)
  case (Cons n ns)
  then show ?case using mult_mono [of 1 n 1 "nonzero_product ns"] by (auto simp: nonzero_product_def)
qed (simp add: nonzero_product_def)

lemma others_product_Cons:
  "others_product i j (n # ns) = (if i \<noteq> j \<and> n \<noteq> 0 then n else 1) * others_product i (Suc j) ns"
  by (auto simp: others_product_def)

lemma others_product_pos: "\<forall>n\<in>set ns. 0 \<le> n \<Longrightarrow> 1 \<le> others_product i j ns"
proof (induction ns arbitrary: j)
  case (Cons n ns)
  then show ?case using mult_mono [of 1 n 1 "others_product i (Suc j) ns"] by (auto simp: others_product_Cons)
qed (simp add: others_product_def)

lemma times_others_exact:
  assumes "0 \<le> t" "\<forall>n\<in>set ns. 0 \<le> n" "t * others_product i j ns < 2 ^ 31"
  shows "times_others i j ns t = t * others_product i j ns"
  using assms
proof (induction ns arbitrary: t j)
  case (Cons n ns)
  let ?f = "if i \<noteq> j \<and> n \<noteq> 0 then n else 1"
  have f: "0 \<le> t * ?f" using Cons.prems(1,2) by simp
  have p: "1 \<le> others_product i (Suc j) ns" using Cons.prems(2) by (intro others_product_pos) simp
  have lt: "t * ?f * others_product i (Suc j) ns < 2 ^ 31"
    using Cons.prems(3) by (simp only: others_product_Cons mult.assoc)
  moreover have "t * ?f \<le> t * ?f * others_product i (Suc j) ns"
    using mult_left_mono [OF p f] by simp
  ultimately have "in_i32 (t * ?f)" using f unfolding in_i32_def by linarith
  then have "(if i \<noteq> j \<and> n \<noteq> 0 then i32 (t * n) else t) = t * ?f" by auto
  then show ?case
    using Cons.IH [OF f _ lt] Cons.prems(2) by (simp only: times_others.simps others_product_Cons mult.assoc) simp
qed (simp add: others_product_def)

lemma others_product_ge: "i < j \<Longrightarrow> others_product i j ns = nonzero_product ns"
proof (induction ns arbitrary: j)
  case (Cons n ns)
  then show ?case by (simp add: others_product_Cons nonzero_product_def)
qed (simp add: others_product_def nonzero_product_def)

lemma others_product_own:
  "j \<le> i \<Longrightarrow> i < j + length ns \<Longrightarrow> ns ! (i - j) \<noteq> 0 \<Longrightarrow> ns ! (i - j) * others_product i j ns = nonzero_product ns"
proof (induction ns arbitrary: j)
  case (Cons n ns)
  show ?case
  proof (cases "i = j")
    case True
    with Cons.prems(3) show ?thesis by (simp add: others_product_Cons others_product_ge nonzero_product_def)
  next
    case False
    then have "i - j = Suc (i - Suc j)" using Cons.prems(1) by simp
    with False Cons.prems Cons.IH [of "Suc j"] show ?thesis
      by (simp add: others_product_Cons nonzero_product_def)
  qed
qed simp

lemma others_product_le:
  assumes "\<forall>n\<in>set ns. 0 \<le> n" "i < length ns"
  shows "others_product i 0 ns \<le> nonzero_product ns"
proof (cases "ns ! i = 0")
  case True
  have "others_product i j ns = nonzero_product ns" if "j \<le> i" "i < j + length ns" "ns ! (i - j) = 0" for j
    using that
  proof (induction ns arbitrary: j)
    case (Cons n ns)
    show ?case
    proof (cases "i = j")
      case True
      with Cons.prems(3) show ?thesis by (simp add: others_product_Cons others_product_ge nonzero_product_def)
    next
      case False
      then have "i - j = Suc (i - Suc j)" using Cons.prems(1) by simp
      with False Cons.prems Cons.IH [of "Suc j"] show ?thesis
        by (simp add: others_product_Cons nonzero_product_def)
    qed
  qed simp
  from this [of 0] True assms(2) show ?thesis by simp
next
  case False
  with assms have "1 \<le> ns ! i" by (metis int_one_le_iff_zero_less nth_mem order_le_neq_trans)
  moreover have "1 \<le> others_product i 0 ns" by (rule others_product_pos [OF assms(1)])
  ultimately show ?thesis
    using others_product_own [of 0 i ns] assms(2) False mult_right_mono [of 1 "ns ! i" "others_product i 0 ns"] by simp
qed

text \<open>The share of a subset: its weight times the product of all numbers of pods, spread over its pods.\<close>

lemma calculate_exact:
  assumes "i < length ws" "length ws = length ns" "\<forall>w\<in>set ws. 0 \<le> w" "\<forall>n\<in>set ns. 0 \<le> n"
    "ws ! i * nonzero_product ns < 2 ^ 31"
  shows "0 \<le> calculate ws ns ! i"
    "ns ! i \<noteq> 0 \<Longrightarrow> calculate ws ns ! i * ns ! i = ws ! i * nonzero_product ns"
proof -
  have w: "0 \<le> ws ! i" using assms(1,3) by simp
  have "ws ! i * others_product i 0 ns \<le> ws ! i * nonzero_product ns"
    using w others_product_le [OF assms(4)] assms(1,2) by (intro mult_left_mono) simp_all
  with assms(5) have "times_others i 0 ns (ws ! i) = ws ! i * others_product i 0 ns"
    by (intro times_others_exact [OF w assms(4)]) simp
  then have c: "calculate ws ns ! i = ws ! i * others_product i 0 ns"
    using assms(1) by (simp add: calculate_def nth_enumerate_eq)
  then show "0 \<le> calculate ws ns ! i" using w others_product_pos [OF assms(4), of i 0] by simp
  show "calculate ws ns ! i * ns ! i = ws ! i * nonzero_product ns" if "ns ! i \<noteq> 0"
    using others_product_own [of 0 i ns] assms(1,2) that by (simp add: c mult.assoc mult.commute [of "ns ! i"])
qed

lemma length_calculate [simp]: "length (calculate ws ns) = length ws"
  by (simp add: calculate_def)

lemma member_le_product: "\<forall>n\<in>set ns. 0 \<le> n \<Longrightarrow> n \<in> set ns \<Longrightarrow> n \<le> nonzero_product ns"
proof (induction ns)
  case (Cons m ns)
  then have p: "1 \<le> nonzero_product ns" by (intro product_pos) simp
  show ?case
  proof (cases "n = m")
    case True
    with Cons.prems p show ?thesis using mult_left_mono [OF p, of m] by (auto simp: nonzero_product_def)
  next
    case False
    with Cons have "n \<le> nonzero_product ns" by auto
    moreover have "nonzero_product ns \<le> (if m = 0 then 1 else m) * nonzero_product ns"
      using p Cons.prems(1) by (intro mult_le_cancel_right1 [THEN iffD2]) auto
    ultimately show ?thesis by (auto simp: nonzero_product_def)
  qed
qed simp

section \<open>Reading the subsets\<close>

definition stores_subset :: "registry \<Rightarrow> string \<Rightarrow> string \<Rightarrow> string list \<Rightarrow> bool" where
  "stores_subset V np name podNames \<longleftrightarrow> (\<exists>u sset. V (ns_key np ''subsets'' name) = Some (Raw u) \<and> u \<noteq> '''' \<and>
     V (subset_key u) = Some (JSubset sset) \<and> Subset_Pods sset = podNames)"

context reliable_etcd
begin

lemma GetSubset_finds:
  assumes "view w (ns_key np ''subsets'' name) = Some (Raw u)" "u \<noteq> ''''" "view w (subset_key u) = Some (JSubset sset)"
    "np \<noteq> ''''" "name \<noteq> ''''"
  shows "wp view (GetSubsetHandler E np name) w (\<lambda>rs V. rs = [Reply StatusOK (DataSubset sset)] \<and> V = view w)"
  unfolding GetSubsetHandler_def using assms
  by (intro wp_combinators rel) (auto simp: json_Unmarshal_defs)

end

text \<open>The pilot with client and server: a network that delivers and an etcd that works.\<close>

locale mesh = net: reliable_network N E state + etcd: reliable_etcd E view
  for N :: "'w net" and E :: "'v env" and state :: "'w \<Rightarrow> 'v" and view :: "'v \<Rightarrow> registry"
begin

abbreviation stored :: "'w \<Rightarrow> registry" where
  "stored w \<equiv> view (state w)"

lemma subset_pods_reads:
  assumes "stores_subset (stored w) np name podNames" "np \<noteq> ''''" "name \<noteq> ''''"
  obtains w' where "subset_pods N name np w = (Inr podNames, w')" "stored w' = stored w"
proof -
  from assms(1) obtain u sset where V: "stored w (ns_key np ''subsets'' name) = Some (Raw u)" "u \<noteq> ''''"
    "stored w (subset_key u) = Some (JSubset sset)" "Subset_Pods sset = podNames"
    by (auto simp: stores_subset_def)
  obtain u' t rs w' where c: "client_GetSubsetByName N name np w = (finish StatusOK None ''get virtual services failed, error: ''
      (unmarshal_reply None (\<lambda>b. case b of DataSubset x \<Rightarrow> Some (Some (wire_Subset x)) | _ \<Rightarrow> None) rs) rs, w')"
    and s: "serve E (GET_Subset np name) (state w) = (rs, state w')"
    unfolding client_GetSubsetByName_def by (rule net.call_data_serves)
  from wp_result [OF _ etcd.GetSubset_finds [OF V(1-3) assms(2,3)]] s
  have "rs = [Reply StatusOK (DataSubset sset)]" "stored w' = stored w" by auto
  with c V(4) show ?thesis
    by (intro that [of w']) (simp_all add: subset_pods_def io_call_def io_simps finish_def unmarshal_reply_def
      reply_data_def status_of_def wire_defs)
qed

lemma weights_and_pods_reads:
  assumes "\<forall>sbs\<in>set subsets. VSS_Weight sbs \<noteq> None \<and> VSS_Name sbs \<noteq> '''' \<and>
    stores_subset (stored w) np (VSS_Name sbs) (f (VSS_Name sbs))" "np \<noteq> ''''"
  shows "\<exists>w'. weights_and_pods N np subsets w =
    (Inr (map (\<lambda>sbs. (the (VSS_Weight sbs), i32 (int (length (f (VSS_Name sbs)))))) subsets), w') \<and> stored w' = stored w"
  using assms
proof (induction subsets arbitrary: w)
  case (Cons sbs subsets)
  then have "stores_subset (stored w) np (VSS_Name sbs) (f (VSS_Name sbs))" "VSS_Name sbs \<noteq> ''''" by auto
  with Cons.prems(2) obtain w1 where w1: "subset_pods N (VSS_Name sbs) np w = (Inr (f (VSS_Name sbs)), w1)" "stored w1 = stored w"
    by (metis subset_pods_reads)
  with Cons.IH [of w1] Cons.prems obtain w2 where "weights_and_pods N np subsets w1 =
      (Inr (map (\<lambda>sbs. (the (VSS_Weight sbs), i32 (int (length (f (VSS_Name sbs)))))) subsets), w2)" "stored w2 = stored w"
    by auto
  with w1 Cons.prems(1) show ?case by (auto simp: io_simps)
qed (simp add: io_simps)

lemma weight_routes_reads:
  assumes "\<forall>(sbs, c)\<in>set xs. VSS_Name sbs \<noteq> '''' \<and> stores_subset (stored w) np (VSS_Name sbs) (f (VSS_Name sbs))" "np \<noteq> ''''"
  shows "\<exists>w'. weight_routes N se tp np xs w = (Inr (concat (map (\<lambda>(sbs, c). map (\<lambda>podName.
      \<lparr>Weight = Some c, URL = None, Endpoints = single_endpoints se tp podName\<rparr>) (f (VSS_Name sbs))) xs)), w') \<and> stored w' = stored w"
  using assms
proof (induction xs arbitrary: w)
  case (Cons x xs)
  obtain sbs c where x: "x = (sbs, c)" by (cases x)
  with Cons have "stores_subset (stored w) np (VSS_Name sbs) (f (VSS_Name sbs))" "VSS_Name sbs \<noteq> ''''" by auto
  with Cons.prems(2) obtain w1 where w1: "subset_pods N (VSS_Name sbs) np w = (Inr (f (VSS_Name sbs)), w1)" "stored w1 = stored w"
    by (metis subset_pods_reads)
  with Cons.IH [of w1] Cons.prems obtain w2 where "weight_routes N se tp np xs w1 = (Inr (concat (map (\<lambda>(sbs, c). map (\<lambda>podName.
      \<lparr>Weight = Some c, URL = None, Endpoints = single_endpoints se tp podName\<rparr>) (f (VSS_Name sbs))) xs)), w2)" "stored w2 = stored w"
    by auto
  with w1 x show ?case by (auto simp: io_simps)
qed (simp add: io_simps)

end

interpretation direct_mesh: mesh "direct_net calm_env draw" calm_env fst map_of for draw
  by unfold_locales

section \<open>The shares of the subsets\<close>

text \<open>The routes of groups of pods, each pod with one endpoint and the weight of its group.\<close>

definition group_routes :: "(string \<Rightarrow> SingleEndpoint) \<Rightarrow> (string list \<times> int) list \<Rightarrow> SidecarEndpoints list" where
  "group_routes ep xs = concat (map (\<lambda>(ps, c). map (\<lambda>p. \<lparr>Weight = Some c, URL = None, Endpoints = [ep p]\<rparr>) ps) xs)"

lemma group_routes_Cons:
  "group_routes ep ((ps, c) # xs) = map (\<lambda>p. \<lparr>Weight = Some c, URL = None, Endpoints = [ep p]\<rparr>) ps @ group_routes ep xs"
  by (simp add: group_routes_def)

lemma sums_append [simp]:
  "weight_sum (xs @ ys) = weight_sum xs + weight_sum ys" "address_weight a (xs @ ys) = address_weight a xs + address_weight a ys"
  by (simp_all add: weight_sum_def address_weight_def)

lemma group_weight_sum: "weight_sum (group_routes ep xs) = (\<Sum>(ps, c)\<leftarrow>xs. c * int (length ps))"
proof (induction xs)
  case (Cons x xs)
  obtain ps c where x: "x = (ps, c)" by (cases x)
  have "weight_sum (map (\<lambda>p. \<lparr>Weight = Some c, URL = None, Endpoints = [ep p]\<rparr>) ps) = c * int (length ps)"
    by (induction ps) (simp_all add: algebra_simps)
  with Cons x show ?case by (simp add: group_routes_Cons)
qed (simp add: group_routes_def)

lemma group_address_weight:
  "address_weight a (group_routes ep xs) = (\<Sum>(ps, c)\<leftarrow>xs. c * int (length (filter (\<lambda>p. endpoint_address (ep p) = a) ps)))"
proof (induction xs)
  case (Cons x xs)
  obtain ps c where x: "x = (ps, c)" by (cases x)
  have "address_weight a (map (\<lambda>p. \<lparr>Weight = Some c, URL = None, Endpoints = [ep p]\<rparr>) ps) =
      c * int (length (filter (\<lambda>p. endpoint_address (ep p) = a) ps))"
    by (induction ps) (simp_all add: algebra_simps)
  with Cons x show ?case by (simp add: group_routes_Cons)
qed (simp add: group_routes_def)

lemma group_weights_given: "\<forall>(ps, c)\<in>set xs. 0 \<le> c \<Longrightarrow> weights_given (group_routes ep xs)"
  by (induction xs) (auto simp: group_routes_def weights_given_def list_all_iff)

lemma filter_none: "a \<notin> set (map g ps) \<Longrightarrow> filter (\<lambda>p. g p = a) ps = []"
  by (auto simp: filter_empty_conv)

lemma filter_one: "distinct (map g ps) \<Longrightarrow> p \<in> set ps \<Longrightarrow> length (filter (\<lambda>q. g q = g p) ps) = 1"
proof (induction ps)
  case (Cons q ps)
  show ?case
  proof (cases "g q = g p")
    case True
    then have "g p \<notin> set (map g ps)" using Cons.prems(1) by auto
    with True filter_none [OF this] show ?thesis by simp
  next
    case False
    with Cons show ?thesis by auto
  qed
qed simp

text \<open>With addresses that are all different, an address has the weight of the group of its pod.\<close>

lemma group_share:
  assumes "distinct (concat (map (\<lambda>(ps, c). map (\<lambda>p. endpoint_address (ep p)) ps) xs))" "(ps, c) \<in> set xs" "p \<in> set ps"
  shows "address_weight (endpoint_address (ep p)) (group_routes ep xs) = c"
  using assms(1,2)
proof (induction xs)
  case (Cons x xs)
  obtain qs d where x: "x = (qs, d)" by (cases x)
  let ?g = "\<lambda>p. endpoint_address (ep p)"
  have dist: "distinct (map ?g qs)" "distinct (concat (map (\<lambda>(ps, c). map ?g ps) xs))"
    "set (map ?g qs) \<inter> set (concat (map (\<lambda>(ps, c). map ?g ps) xs)) = {}"
    using Cons.prems(1) x by auto
  have none: "address_weight (?g p) (group_routes ep xs) = 0" if "?g p \<notin> set (concat (map (\<lambda>(ps, c). map ?g ps) xs))"
    unfolding group_address_weight using that by (induction xs) (auto simp: filter_none)
  show ?case
  proof (cases "(ps, c) = x")
    case True
    then have "?g p \<in> set (map ?g qs)" using x assms(3) by auto
    with dist(3) have "?g p \<notin> set (concat (map (\<lambda>(ps, c). map ?g ps) xs))" by blast
    from none [OF this] show ?thesis
      using True x filter_one [OF dist(1), of p] assms(3) by (simp add: group_address_weight)
  next
    case False
    with Cons.prems(2) have in_xs: "(ps, c) \<in> set xs" by simp
    then have "?g p \<in> set (concat (map (\<lambda>(ps, c). map ?g ps) xs))" using assms(3) by force
    with dist(3) have "?g p \<notin> set (map ?g qs)" by blast
    from filter_none [OF this] Cons.IH [OF dist(2) in_xs] show ?thesis
      by (simp add: x group_address_weight)
  qed
qed simp

lemma group_draws:
  assumes "distinct (concat (map (\<lambda>(ps, c). map (\<lambda>p. endpoint_address (ep p)) ps) xs))" "(ps, c) \<in> set xs"
    "weights_ok (group_routes ep xs)"
  shows "int (card {r. r < nat (weight_sum (group_routes ep xs)) \<and>
    (\<exists>p\<in>set ps. picked (group_routes ep xs) r = endpoint_address (ep p))}) = c * int (length ps)"
proof -
  let ?g = "\<lambda>p. endpoint_address (ep p)"
  have d: "distinct (map ?g ps)" using assms(1,2) by (induction xs) auto
  then have "card (?g ` set ps) = length ps" by (metis distinct_card length_map list.set_map)
  moreover have "(\<Sum>a\<in>?g ` set ps. address_weight a (group_routes ep xs)) = (\<Sum>a\<in>?g ` set ps. c)"
    by (rule sum.cong [OF refl]) (auto simp: group_share [OF assms(1,2)])
  ultimately show ?thesis
    using draws_to_set [OF assms(3), of "?g ` set ps"] by (simp add: mult.commute image_iff)
qed

lemma dec_int_chars: "set (dec_int i) \<inter> {CHR '':'', CHR ''['', CHR '']'', CHR ''_''} = {}"
proof -
  have "\<forall>c\<in>set (dec n). is_digit c" for n using dec_digits [of n] by (simp add: list_all_iff)
  moreover have "\<not> is_digit (CHR '':'')" "\<not> is_digit (CHR ''['')" "\<not> is_digit (CHR '']'')" "\<not> is_digit (CHR ''_'')"
    by code_simp+
  ultimately show ?thesis unfolding dec_int_def by auto
qed

definition plain_ip :: "string \<Rightarrow> bool" where
  "plain_ip ip \<longleftrightarrow> ParseIP ip \<and> set ip \<inter> {CHR '':'', CHR ''['', CHR '']''} = {}"

lemma service_endpoints:
  assumes "plain_ip (ClusterIP (Svc_Spec service))"
  shows "outbound_endpoints e (ip_and_port service port) = map_of (Envoy_mapping e) (ip_and_port service port)"
proof -
  have "set (ClusterIP (Svc_Spec service) @ dec_int port) \<inter> {CHR '':'', CHR ''['', CHR '']''} = {}"
    using assms dec_int_chars [of port] by (auto simp: plain_ip_def)
  from SplitHostPort_join [OF this] show ?thesis
    using assms by (simp add: outbound_endpoints_def outbound_address_def ip_and_port_def plain_ip_def)
qed

text \<open>What is asked of a subset of a virtual service.\<close>

definition split_subset :: "registry \<Rightarrow> string \<Rightarrow> (string \<Rightarrow> string list) \<Rightarrow> VirtualServiceSubset \<Rightarrow> bool" where
  "split_subset V np f sbs \<longleftrightarrow> VSS_URL sbs = None \<and> (\<exists>weight. VSS_Weight sbs = Some weight \<and> 0 \<le> weight) \<and>
     VSS_Name sbs \<noteq> '''' \<and> stores_subset V np (VSS_Name sbs) (f (VSS_Name sbs))"

text \<open>The groups of a virtual service: the pods of each subset, with the weight of each pod.\<close>

definition pod_counts :: "(string \<Rightarrow> string list) \<Rightarrow> VirtualServiceSubset list \<Rightarrow> int list" where
  "pod_counts f subsets = map (\<lambda>sbs. int (length (f (VSS_Name sbs)))) subsets"

definition subset_weights :: "VirtualServiceSubset list \<Rightarrow> int list" where
  "subset_weights subsets = map (\<lambda>sbs. the (VSS_Weight sbs)) subsets"

definition split_groups :: "(string \<Rightarrow> string list) \<Rightarrow> VirtualServiceSubset list \<Rightarrow> (string list \<times> int) list" where
  "split_groups f subsets = zip (map (\<lambda>sbs. f (VSS_Name sbs)) subsets) (calculate (subset_weights subsets) (pod_counts f subsets))"

definition split_fits :: "(string \<Rightarrow> string list) \<Rightarrow> VirtualServiceSubset list \<Rightarrow> bool" where
  "split_fits f subsets \<longleftrightarrow> nonzero_product (pod_counts f subsets) < 2 ^ 31 \<and>
     sum_list (subset_weights subsets) * nonzero_product (pod_counts f subsets) < 2 ^ 31"

lemma pod_counts_nonneg: "\<forall>n\<in>set (pod_counts f subsets). 0 \<le> n"
  by (simp add: pod_counts_def)

lemma split_group:
  assumes "\<forall>weight\<in>set (subset_weights subsets). 0 \<le> weight" "split_fits f subsets" "i < length subsets"
  shows "0 \<le> calculate (subset_weights subsets) (pod_counts f subsets) ! i"
    "calculate (subset_weights subsets) (pod_counts f subsets) ! i * pod_counts f subsets ! i =
      (if pod_counts f subsets ! i = 0 then 0 else subset_weights subsets ! i * nonzero_product (pod_counts f subsets))"
proof -
  have len: "length (subset_weights subsets) = length subsets" "length (pod_counts f subsets) = length subsets"
    by (simp_all add: subset_weights_def pod_counts_def)
  have "subset_weights subsets ! i \<le> sum_list (subset_weights subsets)"
    using assms(1,3) len by (intro member_le_sum_list) auto
  then have "subset_weights subsets ! i * nonzero_product (pod_counts f subsets) \<le>
      sum_list (subset_weights subsets) * nonzero_product (pod_counts f subsets)"
    using product_pos [OF pod_counts_nonneg, of f subsets] by (intro mult_right_mono) simp_all
  also have "\<dots> < 2 ^ 31" using assms(2) by (simp add: split_fits_def)
  finally have "subset_weights subsets ! i * nonzero_product (pod_counts f subsets) < 2 ^ 31" .
  with calculate_exact [of i "subset_weights subsets" "pod_counts f subsets"] assms(1,3) len pod_counts_nonneg
  show "0 \<le> calculate (subset_weights subsets) (pod_counts f subsets) ! i"
    "calculate (subset_weights subsets) (pod_counts f subsets) ! i * pod_counts f subsets ! i =
      (if pod_counts f subsets ! i = 0 then 0 else subset_weights subsets ! i * nonzero_product (pod_counts f subsets))"
    by auto
qed

lemma length_split_groups [simp]: "length (split_groups f subsets) = length subsets"
  by (simp add: split_groups_def subset_weights_def)

lemma nth_split_groups: "i < length subsets \<Longrightarrow> split_groups f subsets ! i =
    (f (VSS_Name (subsets ! i)), calculate (subset_weights subsets) (pod_counts f subsets) ! i)"
  by (simp add: split_groups_def subset_weights_def)

text \<open>The total: the sum of the weights of the subsets that have pods, times the product.\<close>

definition split_total :: "(string \<Rightarrow> string list) \<Rightarrow> VirtualServiceSubset list \<Rightarrow> int" where
  "split_total f subsets = (\<Sum>i\<leftarrow>[0..<length subsets]. if pod_counts f subsets ! i = 0 then 0
     else subset_weights subsets ! i * nonzero_product (pod_counts f subsets))"

lemma split_groups_sum:
  assumes "\<forall>weight\<in>set (subset_weights subsets). 0 \<le> weight" "split_fits f subsets"
  shows "weight_sum (group_routes ep (split_groups f subsets)) = split_total f subsets"
    "weights_ok (group_routes ep (split_groups f subsets))"
proof -
  have "(\<Sum>(ps, c)\<leftarrow>split_groups f subsets. c * int (length ps)) =
      (\<Sum>i\<leftarrow>[0..<length subsets]. calculate (subset_weights subsets) (pod_counts f subsets) ! i * pod_counts f subsets ! i)"
    by (rule arg_cong [of _ _ sum_list], rule nth_equalityI) (simp_all add: nth_split_groups pod_counts_def)
  also have "\<dots> = split_total f subsets"
    unfolding split_total_def by (rule arg_cong [of _ _ sum_list], rule map_cong) (simp_all add: split_group(2) [OF assms])
  finally show sum: "weight_sum (group_routes ep (split_groups f subsets)) = split_total f subsets"
    by (simp add: group_weight_sum)
  have nths: "map (\<lambda>i. subset_weights subsets ! i) [0..<length subsets] = subset_weights subsets"
    using map_nth [of "subset_weights subsets"] by (simp add: subset_weights_def)
  have "split_total f subsets \<le> (\<Sum>i\<leftarrow>[0..<length subsets]. subset_weights subsets ! i * nonzero_product (pod_counts f subsets))"
    unfolding split_total_def using assms(1) product_pos [OF pod_counts_nonneg, of f subsets]
    by (intro sum_list_mono) (auto simp: subset_weights_def)
  also have "\<dots> = sum_list (subset_weights subsets) * nonzero_product (pod_counts f subsets)"
    by (simp only: sum_list_mult_const nths)
  also have "\<dots> < 2 ^ 31" using assms(2) by (simp add: split_fits_def)
  finally have "split_total f subsets < 2 ^ 31" .
  moreover have "\<forall>(ps, c)\<in>set (split_groups f subsets). 0 \<le> c"
    using split_group(1) [OF assms] by (auto simp: in_set_conv_nth nth_split_groups)
  ultimately show "weights_ok (group_routes ep (split_groups f subsets))"
    unfolding weights_ok_def sum by (simp add: group_weights_given)
qed

section \<open>The traffic of a virtual service\<close>

definition vs_service_key :: "VirtualService \<Rightarrow> string" where
  "vs_service_key vs = Namespace (VS_Meta vs) @ ''_'' @ VS_ServiceRef (VS_Spec vs)"

text \<open>Every pod of the subsets has one endpoint for the port, and no two have one address.\<close>

definition one_endpoint_each :: "(string \<Rightarrow> string list) \<Rightarrow> (string \<Rightarrow> SingleEndpoint) \<Rightarrow> ServiceAndEndpoints \<Rightarrow> int \<Rightarrow>
    VirtualServiceSubset list \<Rightarrow> bool" where
  "one_endpoint_each f ep se tp subsets \<longleftrightarrow>
     (\<forall>sbs\<in>set subsets. \<forall>p\<in>set (f (VSS_Name sbs)). single_endpoints se tp p = [ep p]) \<and>
     distinct (concat (map (\<lambda>sbs. map (\<lambda>p. endpoint_address (ep p)) (f (VSS_Name sbs))) subsets))"

lemma split_groups_addresses:
  "concat (map (\<lambda>(ps, c). map (\<lambda>p. endpoint_address (ep p)) ps) (split_groups f subsets)) =
   concat (map (\<lambda>sbs. map (\<lambda>p. endpoint_address (ep p)) (f (VSS_Name sbs))) subsets)"
  by (rule arg_cong [of _ _ concat], rule nth_equalityI) (simp_all add: nth_split_groups)

context mesh
begin

lemma weighted_routes_split:
  assumes "\<forall>sbs\<in>set subsets. split_subset (stored w) np f sbs" "np \<noteq> ''''" "split_fits f subsets"
    "\<forall>sbs\<in>set subsets. \<forall>p\<in>set (f (VSS_Name sbs)). single_endpoints se tp p = [ep p]"
  shows "\<exists>w'. weighted_routes N se tp np subsets w = (Inr (group_routes ep (split_groups f subsets)), w') \<and> stored w' = stored w"
proof -
  have i32: "i32 (int (length (f (VSS_Name sbs)))) = int (length (f (VSS_Name sbs)))" if "sbs \<in> set subsets" for sbs
  proof -
    have "int (length (f (VSS_Name sbs))) \<le> nonzero_product (pod_counts f subsets)"
      using that by (intro member_le_product [OF pod_counts_nonneg]) (simp add: pod_counts_def)
    then show ?thesis using assms(3) by (intro i32_id) (simp add: split_fits_def in_i32_def)
  qed
  let ?ws = "calculate (subset_weights subsets) (pod_counts f subsets)"
  obtain xs w1 where w1: "weights_and_pods N np subsets w = (Inr xs, w1)" "stored w1 = stored w"
    and xs: "map snd xs = pod_counts f subsets" "map fst xs = subset_weights subsets"
  proof -
    obtain w1 where "weights_and_pods N np subsets w =
        (Inr (map (\<lambda>sbs. (the (VSS_Weight sbs), i32 (int (length (f (VSS_Name sbs)))))) subsets), w1)" "stored w1 = stored w"
      using weights_and_pods_reads [of subsets w np f] assms(1,2) by (auto simp: split_subset_def)
    then show ?thesis by (rule that) (simp_all add: i32 pod_counts_def subset_weights_def)
  qed
  have "\<forall>(sbs, c)\<in>set (zip subsets ?ws). VSS_Name sbs \<noteq> '''' \<and> stores_subset (stored w1) np (VSS_Name sbs) (f (VSS_Name sbs))"
    using assms(1) w1(2) by (auto simp: split_subset_def dest!: set_zip_leftD)
  from weight_routes_reads [OF this assms(2), of se tp] obtain w2 where
    w2: "weight_routes N se tp np (zip subsets ?ws) w1 = (Inr (concat (map (\<lambda>(sbs, c). map (\<lambda>podName.
      \<lparr>Weight = Some c, URL = None, Endpoints = single_endpoints se tp podName\<rparr>) (f (VSS_Name sbs))) (zip subsets ?ws))), w2)"
      "stored w2 = stored w1" by blast
  have "concat (map (\<lambda>(sbs, c). map (\<lambda>podName. \<lparr>Weight = Some c, URL = None, Endpoints = single_endpoints se tp podName\<rparr>)
      (f (VSS_Name sbs))) (zip subsets ?ws)) = group_routes ep (split_groups f subsets)"
    unfolding group_routes_def
    by (rule arg_cong [of _ _ concat], rule nth_equalityI)
      (simp_all add: nth_split_groups subset_weights_def, use assms(4) nth_mem in blast)
  with w1 w2 show ?thesis by (auto simp: weighted_routes_def io_simps xs)
qed

lemma route_split:
  assumes "map_of servicesMap (vs_service_key vs) = Some service" "map_of endpointMap (MetaUID (Svc_Meta service)) = Some se"
    "SE_Service se = service" "Subsets (VS_Spec vs) \<noteq> []" "Namespace (VS_Meta vs) \<noteq> ''''"
    "\<forall>sbs\<in>set (Subsets (VS_Spec vs)). split_subset (stored w) (Namespace (VS_Meta vs)) f sbs" "split_fits f (Subsets (VS_Spec vs))"
    "one_endpoint_each f ep se (target_port service (VS_Port (VS_Spec vs))) (Subsets (VS_Spec vs))"
  shows "\<exists>marked routes w'. route_virtual_service N servicesMap endpointMap vs maps w = (Inr (marked, routes), w') \<and>
    map_of routes (ip_and_port service (VS_Port (VS_Spec vs))) = Some (group_routes ep (split_groups f (Subsets (VS_Spec vs))))"
proof -
  obtain w' where "weighted_routes N se (target_port service (VS_Port (VS_Spec vs))) (Namespace (VS_Meta vs)) (Subsets (VS_Spec vs)) w =
      (Inr (group_routes ep (split_groups f (Subsets (VS_Spec vs)))), w')"
    using weighted_routes_split [OF assms(6,5,7)] assms(8) unfolding one_endpoint_each_def by blast
  moreover obtain sbs rest where "Subsets (VS_Spec vs) = sbs # rest" "VSS_URL sbs = None"
    using assms(4,6) by (cases "Subsets (VS_Spec vs)") (auto simp: split_subset_def)
  ultimately show ?thesis
    using assms(1-3) by (cases maps) (simp add: route_virtual_service_def Let_def io_simps vs_service_key_def)
qed

end

text \<open>
  C35: a virtual service splits the traffic by its weights. For a service whose virtual service gives every subset a
  weight, the pilot publishes routes by which every sidecar sends its requests to the subsets in the ratio of these weights,
  whatever the numbers of pods. A request draws one random number, below the sum of the weights of the subsets that have
  pods times the product of the numbers of pods, whatever the source of random numbers does; the number decides
  where the request goes, and of the numbers a subset with pods gets its weight times the product, and a subset without
  pods none. The subsets are those in the registry when no call fails; each of
  their pods has one endpoint, with its own address, and the product with the weights stays in 32 bits.
\<close>

theorem mesh_traffic_split:
  assumes "mesh N E state view"
    "map_of servicesMap (vs_service_key vs) = Some service" "map_of endpointMap (MetaUID (Svc_Meta service)) = Some se"
    "SE_Service se = service" "Subsets (VS_Spec vs) \<noteq> []" "Namespace (VS_Meta vs) \<noteq> ''''"
    "\<forall>sbs\<in>set (Subsets (VS_Spec vs)). split_subset (view (state w)) (Namespace (VS_Meta vs)) f sbs"
    "split_fits f (Subsets (VS_Spec vs))"
    "one_endpoint_each f ep se (target_port service (VS_Port (VS_Spec vs))) (Subsets (VS_Spec vs))"
    "plain_ip (ClusterIP (Svc_Spec service))" "Req_Host c = ip_and_port service (VS_Port (VS_Spec vs))"
  shows "\<exists>marked routes w' dest. route_virtual_service N servicesMap endpointMap vs maps w = (Inr (marked, routes), w') \<and>
    (\<forall>intn s r s'. intn (nat (split_total f (Subsets (VS_Spec vs)))) s = (r, s') \<and> r < nat (split_total f (Subsets (VS_Spec vs))) \<longrightarrow>
      outboundProxy intn matchString (e\<lparr>Envoy_mapping := routes\<rparr>) c s = (Forward (target_scheme c) (dest r), s')) \<and>
    (\<forall>sbs\<in>set (Subsets (VS_Spec vs)).
      int (card {r. r < nat (split_total f (Subsets (VS_Spec vs))) \<and> (\<exists>p\<in>set (f (VSS_Name sbs)). dest r = endpoint_address (ep p))}) =
      (if f (VSS_Name sbs) = [] then 0 else the (VSS_Weight sbs) * nonzero_product (pod_counts f (Subsets (VS_Spec vs)))))"
proof -
  let ?subsets = "Subsets (VS_Spec vs)" and ?es = "group_routes ep (split_groups f (Subsets (VS_Spec vs)))"
  obtain marked routes w' where r: "route_virtual_service N servicesMap endpointMap vs maps w = (Inr (marked, routes), w')"
    "map_of routes (ip_and_port service (VS_Port (VS_Spec vs))) = Some ?es"
    using mesh.route_split [OF assms(1-9)] by blast
  have nonneg: "\<forall>weight\<in>set (subset_weights ?subsets). 0 \<le> weight"
    using assms(7) by (auto simp: subset_weights_def split_subset_def)
  note sums = split_groups_sum [OF nonneg assms(8), of ep]
  have o: "outbound_endpoints (e\<lparr>Envoy_mapping := routes\<rparr>) (Req_Host c) = Some ?es"
    using r(2) assms(11) by (simp add: service_endpoints [OF assms(10)])
  have dist: "distinct (concat (map (\<lambda>(ps, c). map (\<lambda>p. endpoint_address (ep p)) ps) (split_groups f ?subsets)))"
    using assms(9) by (simp add: split_groups_addresses one_endpoint_each_def)
  have share: "int (card {d. d < nat (split_total f ?subsets) \<and> (\<exists>p\<in>set (f (VSS_Name sbs)). picked ?es d = endpoint_address (ep p))}) =
      (if f (VSS_Name sbs) = [] then 0 else the (VSS_Weight sbs) * nonzero_product (pod_counts f ?subsets))"
    if sbs: "sbs \<in> set ?subsets" for sbs
  proof -
    obtain i where i: "i < length ?subsets" "sbs = ?subsets ! i" using sbs by (auto simp: in_set_conv_nth)
    then have "(f (VSS_Name sbs), calculate (subset_weights ?subsets) (pod_counts f ?subsets) ! i) \<in> set (split_groups f ?subsets)"
      using nth_mem [of i "split_groups f ?subsets"] by (simp add: nth_split_groups)
    from group_draws [OF dist this sums(2)] split_group(2) [OF nonneg assms(8) i(1)] i show ?thesis
      by (simp add: sums(1) pod_counts_def subset_weights_def)
  qed
  have draw: "outboundProxy intn matchString (e\<lparr>Envoy_mapping := routes\<rparr>) c s = (Forward (target_scheme c) (picked ?es d), s')"
    if "intn (nat (split_total f ?subsets)) s = (d, s')" "d < nat (split_total f ?subsets)" for intn s d s'
    using outboundProxy_picks [OF o sums(2), of intn s d s' matchString] that by (simp add: sums(1))
  show ?thesis
    by (rule exI [of _ marked], rule exI [of _ routes], rule exI [of _ w'], rule exI [of _ "picked ?es"],
      intro conjI allI impI ballI, rule r(1), elim conjE, rule draw, assumption+, rule share, assumption)
qed

text \<open>One pod with weight 1 and two with weight 3: of 8 random numbers, 6 lead to the two.\<close>

definition mesh_subset :: "string list \<Rightarrow> Subset" where
  "mesh_subset podNames = zero_Subset\<lparr>Subset_Pods := podNames\<rparr>"

definition mesh_vs :: VirtualService where
  "mesh_vs = zero_VirtualService\<lparr>VS_Meta := zero_ObjectMeta\<lparr>Name := ''vs'', Namespace := ''default''\<rparr>,
     VS_Spec := \<lparr>VS_ServiceRef = ''web'', VS_Port = 80, Subsets =
       [\<lparr>VSS_Name = ''old'', VSS_Weight = Some 1, VSS_URL = None\<rparr>, \<lparr>VSS_Name = ''new'', VSS_Weight = Some 3, VSS_URL = None\<rparr>]\<rparr>\<rparr>"

definition mesh_members :: "string \<Rightarrow> string list" where
  "mesh_members name = (if name = ''old'' then [''p1''] else [''p2'', ''p3''])"

definition mesh_endpoint :: "string \<Rightarrow> SingleEndpoint" where
  "mesh_endpoint p = \<lparr>Endpoint_IP = ''10.32.0.'' @ drop 1 p, Endpoint_TargetPort = 88\<rparr>"

definition mesh_world :: "(string, document) gomap \<times> nat \<times> metricsDb" where
  "mesh_world = ([(''/registry/namespaces/default/subsets/old'', Raw ''u1''), (''/registry/subsets/u1'', JSubset (mesh_subset [''p1''])),
     (''/registry/namespaces/default/subsets/new'', Raw ''u2''), (''/registry/subsets/u2'', JSubset (mesh_subset [''p2'', ''p3'']))], 0, Map.empty)"

definition mesh_request :: proxy_request where
  "mesh_request = \<lparr>Req_Host = ''100.0.0.1:80'', URL_Scheme = '''', URL_Host = '''', Param_Path = ''/''\<rparr>"

theorem mesh_traffic_split_witness:
  "\<exists>marked routes w' dest. route_virtual_service demo_net (makeFullMap [mesh_service])
      (getEndpoints (map mesh_pod [1, 2, 3]) [mesh_service]) mesh_vs ([], []) mesh_world = (Inr (marked, routes), w') \<and>
    (\<forall>r < 8. outboundProxy (noted r) (\<lambda>_ _. Inr False) (NewEnvoy\<lparr>Envoy_mapping := routes\<rparr>) mesh_request [] =
      (Forward ''http'' (dest r), [8])) \<and>
    card {r. r < 8 \<and> (\<exists>p\<in>{''p2'', ''p3''}. dest r = endpoint_address (mesh_endpoint p))} = (6 :: nat)"
proof -
  let ?subsets = "Subsets (VS_Spec mesh_vs)" and ?services = "makeFullMap [mesh_service]"
  let ?se = "\<lparr>SE_Service = mesh_service, EndpointsMapWithPodName = endpoints_by_pod (map mesh_pod [1, 2, 3]) mesh_service [mesh_port]\<rparr>"
  let ?endpoints = "getEndpoints (map mesh_pod [1, 2, 3]) [mesh_service]"
  have look: "map_of ?services (vs_service_key mesh_vs) = Some mesh_service" "map_of ?endpoints (MetaUID (Svc_Meta mesh_service)) = Some ?se"
    "?subsets \<noteq> []" "Namespace (VS_Meta mesh_vs) \<noteq> ''''" "plain_ip (ClusterIP (Svc_Spec mesh_service))"
    "Req_Host mesh_request = ip_and_port mesh_service (VS_Port (VS_Spec mesh_vs))"
    by code_simp+
  have stored: "stores_subset (map_of (fst mesh_world)) ''default'' ''old'' [''p1'']"
    "stores_subset (map_of (fst mesh_world)) ''default'' ''new'' [''p2'', ''p3'']"
    unfolding stores_subset_def
    by (rule exI [of _ "''u1''"], rule exI [of _ "mesh_subset [''p1'']"], code_simp)
      (rule exI [of _ "''u2''"], rule exI [of _ "mesh_subset [''p2'', ''p3'']"], code_simp)
  have subsets: "\<forall>sbs\<in>set ?subsets. split_subset (map_of (fst mesh_world)) (Namespace (VS_Meta mesh_vs)) mesh_members sbs"
    using stored by (simp add: mesh_vs_def split_subset_def mesh_members_def)
  have ok: "split_fits mesh_members ?subsets" "one_endpoint_each mesh_members mesh_endpoint ?se
      (target_port mesh_service (VS_Port (VS_Spec mesh_vs))) ?subsets" "split_total mesh_members ?subsets = 8"
    "target_scheme mesh_request = ''http''" "mesh_members ''new'' = [''p2'', ''p3'']"
    "nonzero_product (pod_counts mesh_members ?subsets) = 2"
    by code_simp+
  have new: "\<lparr>VSS_Name = ''new'', VSS_Weight = Some 3, VSS_URL = None\<rparr> \<in> set ?subsets" by (simp add: mesh_vs_def)
  obtain marked routes w' dest where r: "route_virtual_service demo_net ?services ?endpoints mesh_vs ([], []) mesh_world = (Inr (marked, routes), w')"
    and draw: "\<forall>(intn :: nat \<Rightarrow> nat list \<Rightarrow> nat \<times> nat list) s r s'. intn (nat 8) s = (r, s') \<and> r < nat 8 \<longrightarrow>
      outboundProxy intn (\<lambda>_ _. Inr False) (NewEnvoy\<lparr>Envoy_mapping := routes\<rparr>) mesh_request s = (Forward ''http'' (dest r), s')"
    and all: "\<forall>sbs\<in>set ?subsets. int (card {r. r < nat 8 \<and> (\<exists>p\<in>set (mesh_members (VSS_Name sbs)). dest r = endpoint_address (mesh_endpoint p))}) =
      (if mesh_members (VSS_Name sbs) = [] then 0 else the (VSS_Weight sbs) * 2)"
    using mesh_traffic_split [OF direct_mesh.mesh_axioms look(1,2) _ look(3,4) subsets ok(1,2) look(5,6), of demo_draw "([], [])"
        "\<lambda>_ _. Inr False" NewEnvoy, unfolded ok(3,4,6), folded demo_net_def]
    by (elim meta_impE exE conjE) (simp, rule that)
  have "outboundProxy (noted r) (\<lambda>_ _. Inr False) (NewEnvoy\<lparr>Envoy_mapping := routes\<rparr>) mesh_request [] = (Forward ''http'' (dest r), [8])"
    if "r < 8" for r
    using that draw [rule_format, of "noted r" "[]" r "[8]"] by (simp add: noted_def)
  moreover have "card {r. r < 8 \<and> (\<exists>p\<in>{''p2'', ''p3''}. dest r = endpoint_address (mesh_endpoint p))} = 6"
    using bspec [OF all new] by (simp add: ok(5))
  ultimately show ?thesis using r by blast
qed

end
