(* ===== verification/Mesh_Routes.thy ===== *)
theory Mesh_Routes
  imports Mesh_Traffic
begin

text \<open>
  The table that the pilot publishes: the names of ports come apart again, the loops over the unmarked ports visit each
  port once, and the published routes are the right ones; what a virtual service without its service does.
\<close>

section \<open>Names of ports\<close>

lemma atoi_or_zero_dec_int: "in_i64 i \<Longrightarrow> atoi_or_zero (dec_int i) = i"
proof (cases "i < 0")
  case True
  assume "in_i64 i"
  with True dec_digits [of "nat (- i)"] show ?thesis
    by (simp add: dec_int_def atoi_or_zero_def in_i64_def)
next
  case False
  assume "in_i64 i"
  with False dec_digits [of "nat i"] show ?thesis
    by (simp add: dec_int_def atoi_or_zero_def sign_of_digits in_i64_def)
qed

lemma dec_int_inj: "dec_int i = dec_int j \<longleftrightarrow> i = j"
proof
  assume eq: "dec_int i = dec_int j"
  have minus: "dec n \<noteq> CHR ''-'' # s" for n s
    using dec_digits [of n] by (auto simp: is_digit_def)
  show "i = j" using eq minus [of "nat i"] minus [of "nat j"]
    by (auto simp: dec_int_def dec_inj split: if_splits) (metis)+
qed simp

text \<open>Taking the name of a port apart gives back what it was made of.\<close>

lemma splitFullPort_getFullPort:
  assumes "CHR ''_'' \<notin> set uid" "in_i32 port"
  shows "splitFullPort (getFullPort uid port) = Some (uid, port)"
proof -
  have "CHR ''_'' \<notin> set (dec_int port)" using dec_int_chars [of port] by auto
  with assms(1) have "split_on (CHR ''_'') (getFullPort uid port) = [uid, dec_int port]"
    by (simp add: getFullPort_def split_on_append split_on_notin)
  then show ?thesis
    using assms(2) by (simp add: splitFullPort_def atoi_or_zero_dec_int in_i32_i64)
qed

lemma append_char_eq: "c \<notin> set xs \<Longrightarrow> c \<notin> set ys \<Longrightarrow> xs @ c # us = ys @ c # vs \<longleftrightarrow> xs = ys \<and> us = vs"
proof (induction xs arbitrary: ys)
  case Nil
  then show ?case by (cases ys) auto
next
  case (Cons x xs)
  then show ?case by (cases ys) auto
qed

lemma getFullPort_eq:
  "CHR ''_'' \<notin> set uid \<Longrightarrow> CHR ''_'' \<notin> set uid' \<Longrightarrow> getFullPort uid port = getFullPort uid' port' \<longleftrightarrow> uid = uid' \<and> port = port'"
  by (simp add: getFullPort_def append_char_eq dec_int_inj)

section \<open>Services and pods with proper names\<close>

abbreviation svc_uid :: "Service \<Rightarrow> UID" where
  "svc_uid service \<equiv> MetaUID (Svc_Meta service)"

abbreviation svc_ports :: "Service \<Rightarrow> ServicePort list" where
  "svc_ports service \<equiv> Service_Ports (Svc_Spec service)"

definition services_ok :: "Service list \<Rightarrow> bool" where
  "services_ok services \<longleftrightarrow> distinct (map svc_uid services) \<and> distinct (map (\<lambda>s. ClusterIP (Svc_Spec s)) services) \<and>
     (\<forall>s\<in>set services. CHR ''_'' \<notin> set (svc_uid s) \<and> CHR '':'' \<notin> set (ClusterIP (Svc_Spec s)) \<and>
       distinct (map Port (svc_ports s)) \<and> (\<forall>port\<in>set (svc_ports s). in_i32 (Port port)))"

definition pods_ok :: "Pod list \<Rightarrow> Service list \<Rightarrow> bool" where
  "pods_ok pods services \<longleftrightarrow> (\<forall>s\<in>set services. distinct (map (\<lambda>pod. Name (Pod_Meta pod)) (filter (\<lambda>pod. ready pod s) pods)))"

lemma same_service:
  assumes "services_ok services" "s \<in> set services" "s' \<in> set services"
  shows "svc_uid s = svc_uid s' \<Longrightarrow> s = s'" "ClusterIP (Svc_Spec s) = ClusterIP (Svc_Spec s') \<Longrightarrow> s = s'"
  using assms by (auto simp: services_ok_def distinct_map inj_on_def)

lemma ip_and_port_eq:
  assumes "services_ok services" "s \<in> set services" "s' \<in> set services"
  shows "ip_and_port s p = ip_and_port s' p' \<longleftrightarrow> s = s' \<and> p = p'"
  using assms same_service(2) [OF assms]
  by (auto simp: ip_and_port_def services_ok_def append_char_eq dec_int_inj)

lemma full_port_eq:
  assumes "services_ok services" "s \<in> set services" "s' \<in> set services"
  shows "getFullPort (svc_uid s) p = getFullPort (svc_uid s') p' \<longleftrightarrow> s = s' \<and> p = p'"
  using assms same_service(1) [OF assms] getFullPort_eq [of "svc_uid s" "svc_uid s'" p p']
  by (auto simp: services_ok_def)

lemma split_service_port:
  "services_ok services \<Longrightarrow> s \<in> set services \<Longrightarrow> port \<in> set (svc_ports s) \<Longrightarrow>
    splitFullPort (getFullPort (svc_uid s) (Port port)) = Some (svc_uid s, Port port)"
  by (intro splitFullPort_getFullPort) (auto simp: services_ok_def)

lemma port_with_own:
  assumes "services_ok services" "s \<in> set services" "port \<in> set (svc_ports s)"
  shows "port_with s (Port port) = port"
proof -
  have "distinct (map Port (rev (svc_ports s)))" using assms(1,2) by (auto simp: services_ok_def rev_map [symmetric])
  from find_distinct [OF this] show ?thesis using assms(3) by (simp add: port_with_def)
qed

section \<open>The maps\<close>

lemma endpoints_by_pod_list:
  assumes "pods_ok pods services" "s \<in> set services"
  shows "endpoints_by_pod pods s ports = map (\<lambda>pod. (Name (Pod_Meta pod),
    \<lparr>EP_IP = PodIP (Pod_Status pod), EP_Ports = endpoint_ports pod ports\<rparr>)) (filter (\<lambda>pod. ready pod s) pods)"
  unfolding endpoints_by_pod_def using assms by (subst fold_mput_new) (auto simp: pods_ok_def)

lemma getEndpoints_lookup:
  assumes "services_ok services" "s \<in> set services"
  shows "map_of (getEndpoints pods services) (svc_uid s) =
    Some \<lparr>SE_Service = s, EndpointsMapWithPodName = endpoints_by_pod pods s (svc_ports s)\<rparr>"
proof -
  have d: "distinct (map svc_uid services)" using assms(1) by (simp add: services_ok_def)
  have "getEndpoints pods services = map (\<lambda>s. (svc_uid s,
      \<lparr>SE_Service = s, EndpointsMapWithPodName = endpoints_by_pod pods s (svc_ports s)\<rparr>)) services"
    unfolding getEndpoints_def by (subst fold_mput_new [OF d]) simp_all
  then show ?thesis
    using assms(2) d by (simp add: map_of_eq_Some_iff comp_def)
qed

lemma makeFullMap_in: "map_of (makeFullMap services) k = Some s \<Longrightarrow> s \<in> set services"
  unfolding makeFullMap_def by (subst (asm) map_of_fold_mput) (auto dest!: map_of_SomeD)

lemma marked_inner: "map_of (fold (\<lambda>port. mput (getFullPort uid (Port port)) False) ports m) k =
    (if \<exists>port\<in>set ports. k = getFullPort uid (Port port) then Some False else map_of m k)"
  by (induction ports arbitrary: m) auto

lemma makeMarkedMap_lookup: "map_of (makeMarkedMap services) k =
    (if \<exists>s\<in>set services. \<exists>port\<in>set (svc_ports s). k = getFullPort (svc_uid s) (Port port) then Some False else None)"
proof -
  have "map_of (fold (\<lambda>service m. fold (\<lambda>port. mput (getFullPort (svc_uid service) (Port port)) False) (svc_ports service) m) services m) k =
      (if \<exists>s\<in>set services. \<exists>port\<in>set (svc_ports s). k = getFullPort (svc_uid s) (Port port) then Some False else map_of m k)" for m
    by (induction services arbitrary: m) (auto simp: marked_inner)
  from this [of "[]"] show ?thesis by (simp add: makeMarkedMap_def)
qed

lemma makeMarkedMap_distinct: "distinct (map fst (makeMarkedMap services))"
proof -
  have "distinct (map fst m) \<Longrightarrow> distinct (map fst (fold (\<lambda>service m. fold (\<lambda>port. mput (getFullPort (svc_uid service) (Port port)) False)
      (svc_ports service) m) services m))" for m
    by (induction services arbitrary: m) (simp_all add: distinct_fold_mput)
  then show ?thesis by (simp add: makeMarkedMap_def)
qed

text \<open>What the virtual services mark.\<close>

definition marks :: "Service list \<Rightarrow> VirtualService list \<Rightarrow> string set" where
  "marks services vss = {getFullPort (svc_uid s) (VS_Port (VS_Spec vs)) |s vs. vs \<in> set vss \<and>
     map_of (makeFullMap services) (vs_service_key vs) = Some s}"

lemma route_marks:
  assumes "route_virtual_service N (makeFullMap services) M vs (marked, routes) w = (Inr (marked', routes'), w')"
  obtains s where "map_of (makeFullMap services) (vs_service_key vs) = Some s"
    "marked' = mput (getFullPort (svc_uid s) (VS_Port (VS_Spec vs))) True marked"
  using assms
  by (auto simp: route_virtual_service_def Let_def io_simps vs_service_key_def split: option.splits list.splits sum.splits prod.splits if_splits)

lemma routes_mark:
  assumes "route_virtual_services N (makeFullMap services) M vss (marked, routes) w = (Inr (marked', routes'), w')"
  shows "map_of marked' k = (if k \<in> marks services vss then Some True else map_of marked k) \<and>
    (distinct (map fst marked) \<longrightarrow> distinct (map fst marked'))"
  using assms
proof (induction vss arbitrary: marked routes w)
  case (Cons vs vss)
  from Cons.prems obtain marked1 routes1 w1 where
    1: "route_virtual_service N (makeFullMap services) M vs (marked, routes) w = (Inr (marked1, routes1), w1)" and
    2: "route_virtual_services N (makeFullMap services) M vss (marked1, routes1) w1 = (Inr (marked', routes'), w')"
    by (auto simp: io_simps split: sum.splits prod.splits)
  obtain s where s: "map_of (makeFullMap services) (vs_service_key vs) = Some s"
    "marked1 = mput (getFullPort (svc_uid s) (VS_Port (VS_Spec vs))) True marked"
    by (rule route_marks [OF 1])
  have "marks services (vs # vss) = insert (getFullPort (svc_uid s) (VS_Port (VS_Spec vs))) (marks services vss)"
    using s(1) by (auto simp: marks_def)
  with Cons.IH [OF 2] s(2) show ?case by auto
qed (simp add: marks_def io_simps)

section \<open>Ports without a virtual service\<close>

definition waiting :: "(UID, int list) gomap \<Rightarrow> (UID \<times> int) set" where
  "waiting m = {(uid, port). \<exists>ports. (uid, ports) \<in> set m \<and> port \<in> set ports}"

lemma waiting_mput:
  assumes "distinct (map fst m)"
  shows "waiting (mput uid ((case map_of m uid of None \<Rightarrow> [] | Some ports \<Rightarrow> ports) @ [port]) m) = insert (uid, port) (waiting m)"
proof -
  let ?ps = "case map_of m uid of None \<Rightarrow> [] | Some ports \<Rightarrow> ports"
  have "(uid, p) \<in> waiting m \<longleftrightarrow> p \<in> set ?ps" for p
  proof (cases "map_of m uid")
    case None
    then have "uid \<notin> mkeys m" by (simp add: map_of_eq_None_iff)
    then have "(uid, p) \<notin> waiting m" by (force simp: waiting_def)
    with None show ?thesis by simp
  next
    case (Some ports)
    have "(uid, ps) \<in> set m \<longleftrightarrow> ps = ports" for ps
      using map_of_distinct_iff [OF assms, of uid ps] Some by auto
    then show ?thesis by (simp add: waiting_def Some)
  qed
  note own = this
  have "(a, b) \<in> waiting (mput uid (?ps @ [port]) m) \<longleftrightarrow> (a, b) \<in> insert (uid, port) (waiting m)" for a b
  proof (cases "a = uid")
    case True
    have "(uid, b) \<in> waiting (mput uid (?ps @ [port]) m) \<longleftrightarrow> b \<in> set (?ps @ [port])"
      unfolding waiting_def set_mput [OF assms] by auto
    then show ?thesis using own [of b] True by auto
  next
    case False
    then show ?thesis unfolding waiting_def set_mput [OF assms] by auto
  qed
  then show ?thesis by (simp add: set_eq_iff split_paired_all)
qed

lemma waited_ports_all:
  assumes "\<forall>k. (k, False) \<in> set xs \<longrightarrow> (\<exists>uid port. splitFullPort k = Some (uid, port))" "distinct (map fst m)"
    "\<forall>(uid, ports)\<in>set m. ports \<noteq> []"
  shows "\<exists>wd. waited_ports xs m = Some wd \<and> distinct (map fst wd) \<and> (\<forall>(uid, ports)\<in>set wd. ports \<noteq> []) \<and>
    waiting wd = waiting m \<union> {(uid, port). \<exists>k. (k, False) \<in> set xs \<and> splitFullPort k = Some (uid, port)}"
  using assms
proof (induction xs arbitrary: m)
  case (Cons x xs)
  obtain k done' where x: "x = (k, done')" by (cases x)
  show ?case
  proof (cases done')
    case True
    with Cons.IH [OF _ Cons.prems(2,3)] Cons.prems(1) x show ?thesis by simp
  next
    case False
    with Cons.prems(1) x obtain uid port where k: "splitFullPort k = Some (uid, port)" by auto
    let ?m = "mput uid ((case map_of m uid of None \<Rightarrow> [] | Some ports \<Rightarrow> ports) @ [port]) m"
    have "\<forall>(uid, ports)\<in>set ?m. ports \<noteq> []" using Cons.prems(3) by (auto simp: set_mput [OF Cons.prems(2)])
    with Cons.prems have "\<exists>wd. waited_ports xs ?m = Some wd \<and> distinct (map fst wd) \<and> (\<forall>(uid, ports)\<in>set wd. ports \<noteq> []) \<and>
        waiting wd = waiting ?m \<union> {(uid, port). \<exists>k. (k, False) \<in> set xs \<and> splitFullPort k = Some (uid, port)}"
      by (intro Cons.IH) simp_all
    then show ?thesis unfolding waiting_mput [OF Cons.prems(2)] using k False x by auto
  qed
qed simp

text \<open>The entry of a port of a service.\<close>

definition port_entry :: "Pod list \<Rightarrow> Service \<Rightarrow> int \<Rightarrow> ServiceAndEndpoints" where
  "port_entry pods s port = \<lparr>SE_Service = s, EndpointsMapWithPodName = endpoints_by_pod pods s [port_with s port]\<rparr>"

lemma waited_entries:
  "set (fold (waited_entry pods s) ports m) \<subseteq> set m \<union> (\<lambda>p. (getFullPort (svc_uid s) p, port_entry pods s p)) ` set ports \<and>
   mkeys (fold (waited_entry pods s) ports m) = mkeys m \<union> getFullPort (svc_uid s) ` set ports"
proof (induction ports arbitrary: m)
  case (Cons p ports)
  have "set (waited_entry pods s p m) \<subseteq> insert (getFullPort (svc_uid s) p, port_entry pods s p) (set m)"
    "mkeys (waited_entry pods s p m) = insert (getFullPort (svc_uid s) p) (mkeys m)"
    unfolding waited_entry_def port_entry_def using set_mput_subset by simp_all
  with Cons.IH [of "waited_entry pods s p m"] show ?case by (simp add: subset_iff) blast
qed simp

lemma waited_endpoints_all:
  assumes "\<forall>(uid, ports)\<in>set wd. \<exists>s. P s \<and> svc_uid s = uid \<and> (\<exists>x. map_of M uid = Some x \<and> SE_Service x = s)"
  shows "\<exists>nm. waited_endpoints pods M wd m = Some nm \<and>
    set nm \<subseteq> set m \<union> {(getFullPort (svc_uid s) p, port_entry pods s p) |s p. P s \<and> (svc_uid s, p) \<in> waiting wd} \<and>
    mkeys nm = mkeys m \<union> {getFullPort uid p |uid p. (uid, p) \<in> waiting wd}"
  using assms
proof (induction wd arbitrary: m)
  case (Cons e wd)
  obtain uid ports where e: "e = (uid, ports)" by (cases e)
  with Cons.prems obtain s x where s: "P s" "svc_uid s = uid" "map_of M uid = Some x" "SE_Service x = s" by auto
  let ?m = "fold (waited_entry pods s) ports m"
  obtain nm where nm: "waited_endpoints pods M wd ?m = Some nm"
    "set nm \<subseteq> set ?m \<union> {(getFullPort (svc_uid s) p, port_entry pods s p) |s p. P s \<and> (svc_uid s, p) \<in> waiting wd}"
    "mkeys nm = mkeys ?m \<union> {getFullPort uid p |uid p. (uid, p) \<in> waiting wd}"
  proof -
    have "\<forall>(uid, ports)\<in>set wd. \<exists>s. P s \<and> svc_uid s = uid \<and> (\<exists>x. map_of M uid = Some x \<and> SE_Service x = s)"
      using Cons.prems by simp
    from Cons.IH [OF this, of ?m] that show ?thesis by blast
  qed
  have w: "waiting (e # wd) = Pair uid ` set ports \<union> waiting wd" by (auto simp: waiting_def e)
  have "set nm \<subseteq> set m \<union> {(getFullPort (svc_uid s) p, port_entry pods s p) |s p. P s \<and> (svc_uid s, p) \<in> waiting (e # wd)}"
  proof
    fix y assume "y \<in> set nm"
    then consider "y \<in> set m" | p where "p \<in> set ports" "y = (getFullPort (svc_uid s) p, port_entry pods s p)"
      | s' p where "P s'" "(svc_uid s', p) \<in> waiting wd" "y = (getFullPort (svc_uid s') p, port_entry pods s' p)"
    proof -
      have "y \<in> set ?m \<or> y \<in> {(getFullPort (svc_uid s) p, port_entry pods s p) |s p. P s \<and> (svc_uid s, p) \<in> waiting wd}"
        using \<open>y \<in> set nm\<close> nm(2) by (meson UnE subsetD)
      moreover have "y \<in> set m \<or> y \<in> (\<lambda>p. (getFullPort (svc_uid s) p, port_entry pods s p)) ` set ports" if "y \<in> set ?m"
        using that waited_entries [of pods s ports m] by (meson UnE subsetD)
      ultimately show ?thesis using that by (elim disjE CollectE exE conjE imageE) blast+
    qed
    then show "y \<in> set m \<union> {(getFullPort (svc_uid s) p, port_entry pods s p) |s p. P s \<and> (svc_uid s, p) \<in> waiting (e # wd)}"
    proof cases
      case 2
      then show ?thesis using s(1,2) w by blast
    qed (use w in blast)+
  qed
  moreover have "mkeys nm = mkeys m \<union> {getFullPort uid p |uid p. (uid, p) \<in> waiting (e # wd)}"
  proof -
    have "{getFullPort uid p |uid p. (uid, p) \<in> waiting (e # wd)} = getFullPort uid ` set ports \<union> {getFullPort uid p |uid p. (uid, p) \<in> waiting wd}"
      unfolding w by blast
    then show ?thesis unfolding nm(3) using waited_entries [of pods s ports m] s(2) by (simp add: Un_assoc)
  qed
  moreover have "waited_endpoints pods M (e # wd) m = Some nm" using nm(1) s(3,4) by (simp add: e)
  ultimately show ?case by blast
qed (simp add: waiting_def)

lemma default_routes_all:
  assumes "\<forall>(fp, se)\<in>set xs. \<exists>uid port. splitFullPort fp = Some (uid, port)"
  shows "\<exists>m'. default_routes V xs m = Some m' \<and>
    map_of m' = map_of m ++ map_of (rev (map (\<lambda>(fp, se). (ip_and_port (SE_Service se) (snd (the (splitFullPort fp))),
      default_endpoints (visit_endpoints V (EndpointsMapWithPodName se)))) xs))"
  using assms
proof (induction xs arbitrary: m)
  case (Cons x xs)
  obtain fp se where x: "x = (fp, se)" by (cases x)
  with Cons.prems obtain uid port where k: "splitFullPort fp = Some (uid, port)" by auto
  have "\<forall>(fp, se)\<in>set xs. \<exists>uid port. splitFullPort fp = Some (uid, port)" using Cons.prems by simp
  from Cons.IH [OF this, of "mput (ip_and_port (SE_Service se) port)
      (default_endpoints (visit_endpoints V (EndpointsMapWithPodName se))) m"]
  obtain m' where m': "default_routes V xs (mput (ip_and_port (SE_Service se) port)
      (default_endpoints (visit_endpoints V (EndpointsMapWithPodName se))) m) = Some m'"
    "map_of m' = map_of (mput (ip_and_port (SE_Service se) port) (default_endpoints (visit_endpoints V (EndpointsMapWithPodName se))) m) ++
      map_of (rev (map (\<lambda>(fp, se). (ip_and_port (SE_Service se) (snd (the (splitFullPort fp))),
        default_endpoints (visit_endpoints V (EndpointsMapWithPodName se)))) xs))" by blast
  show ?case by (rule exI [of _ m']) (simp add: x k m')
qed simp

section \<open>What is published\<close>

definition default_route :: "Pod list \<Rightarrow> Service \<Rightarrow> ServicePort \<Rightarrow> SidecarEndpoints list" where
  "default_route pods s port = map (\<lambda>pod. \<lparr>Weight = Some 1, URL = None,
     Endpoints = [\<lparr>Endpoint_IP = PodIP (Pod_Status pod), Endpoint_TargetPort = TargetPort port\<rparr>]\<rparr>)
     (filter (\<lambda>pod. ready pod s \<and> offers pod port) pods)"

lemma mset_default_endpoints: "mset m = mset m' \<Longrightarrow> mset (default_endpoints m) = mset (default_endpoints m')"
  by (simp add: default_endpoints_def)

lemma default_endpoints_entry:
  assumes "services_ok services" "pods_ok pods services" "s \<in> set services" "port \<in> set (svc_ports s)" "fair_order V"
  shows "mset (default_endpoints (visit_endpoints V (EndpointsMapWithPodName (port_entry pods s (Port port))))) = mset (default_route pods s port)"
proof -
  have "mset (default_endpoints (visit_endpoints V m)) = mset (default_endpoints m)" for m
    using assms(5) by (intro mset_default_endpoints) (simp add: fair_order_def)
  moreover have "default_endpoints (EndpointsMapWithPodName (port_entry pods s (Port port))) = default_route pods s port"
    unfolding port_entry_def default_endpoints_def default_route_def
    by (simp add: endpoints_by_pod_list [OF assms(2,3)] port_with_own [OF assms(1,3,4)] endpoint_ports_def comp_def)
      (induction pods, auto)
  ultimately show ?thesis by simp
qed

text \<open>The ports that no virtual service marks.\<close>

definition unmarked :: "Service list \<Rightarrow> string set \<Rightarrow> (Service \<times> int) set" where
  "unmarked services X = {(s, Port port) |s port. s \<in> set services \<and> port \<in> set (svc_ports s) \<and> getFullPort (svc_uid s) (Port port) \<notin> X}"

text \<open>The table of the unmarked ports that the first two loops build.\<close>

lemma unmarked_table:
  assumes "services_ok services" "distinct (map fst marked)" "fair_order V"
    "\<forall>k. map_of marked k = (if k \<in> X then Some True else map_of (makeMarkedMap services) k)"
  obtains wd nm where "waited_ports (visit_marked V marked) [] = Some wd"
    "waited_endpoints pods (getEndpoints pods services) (visit_waited V wd) [] = Some nm"
    "set nm = {(getFullPort (svc_uid s) p, port_entry pods s p) |s p. (s, p) \<in> unmarked services X}"
proof -
  have set_marked: "set (visit_marked V marked) = set marked"
    using assms(3) by (metis fair_order_def mset_eq_setD)
  have False_iff: "(k, False) \<in> set (visit_marked V marked) \<longleftrightarrow> (\<exists>(s, p)\<in>unmarked services X. k = getFullPort (svc_uid s) p)" for k
    unfolding set_marked map_of_distinct_iff [OF assms(2), symmetric]
    using assms(4) by (auto simp: makeMarkedMap_lookup unmarked_def split: if_splits)
  have split: "splitFullPort (getFullPort (svc_uid s) p) = Some (svc_uid s, p)" if "(s, p) \<in> unmarked services X" for s p
    using that by (auto simp: unmarked_def split_service_port [OF assms(1)])
  have "\<forall>k. (k, False) \<in> set (visit_marked V marked) \<longrightarrow> (\<exists>uid port. splitFullPort k = Some (uid, port))"
    unfolding False_iff using split by auto
  from waited_ports_all [OF this, of "[]"] obtain wd where wd: "waited_ports (visit_marked V marked) [] = Some wd"
    "\<forall>(uid, ports)\<in>set wd. ports \<noteq> []"
    "waiting wd = {(uid, port). \<exists>k. (k, False) \<in> set (visit_marked V marked) \<and> splitFullPort k = Some (uid, port)}"
    by (auto simp: waiting_def)
  have w: "(uid, p) \<in> waiting wd \<longleftrightarrow> (\<exists>s. (s, p) \<in> unmarked services X \<and> uid = svc_uid s)" for uid p
    unfolding wd(3) False_iff using split by fastforce
  have set_wd: "set (visit_waited V wd) = set wd" using assms(3) by (metis fair_order_def mset_eq_setD)
  have "\<forall>(uid, ports)\<in>set (visit_waited V wd). \<exists>s. s \<in> set services \<and> svc_uid s = uid \<and>
      (\<exists>x. map_of (getEndpoints pods services) uid = Some x \<and> SE_Service x = s)"
  proof (intro ballI, clarify)
    fix uid ports
    assume "(uid, ports) \<in> set (visit_waited V wd)"
    then have "(uid, ports) \<in> set wd" by (simp add: set_wd)
    moreover from this wd(2) obtain p where "p \<in> set ports" by (cases ports) auto
    ultimately have "(uid, p) \<in> waiting wd" by (auto simp: waiting_def)
    then obtain s where "s \<in> set services" "uid = svc_uid s" by (auto simp: w unmarked_def)
    then show "\<exists>s. s \<in> set services \<and> svc_uid s = uid \<and> (\<exists>x. map_of (getEndpoints pods services) uid = Some x \<and> SE_Service x = s)"
      using getEndpoints_lookup [OF assms(1), of s pods] by auto
  qed
  from waited_endpoints_all [OF this, of pods "[]"] obtain nm where
    nm: "waited_endpoints pods (getEndpoints pods services) (visit_waited V wd) [] = Some nm"
      "set nm \<subseteq> {(getFullPort (svc_uid s) p, port_entry pods s p) |s p. s \<in> set services \<and> (svc_uid s, p) \<in> waiting wd}"
      "mkeys nm = {getFullPort uid p |uid p. (uid, p) \<in> waiting wd}"
    by (auto simp: waiting_def set_wd)
  have own: "(s, p) \<in> unmarked services X" if "s \<in> set services" "(svc_uid s, p) \<in> waiting wd" for s p
    using that same_service(1) [OF assms(1)] by (auto simp: w unmarked_def)
  have "set nm = {(getFullPort (svc_uid s) p, port_entry pods s p) |s p. (s, p) \<in> unmarked services X}"
  proof (intro equalityI subsetI)
    fix e assume "e \<in> set nm"
    with nm(2) own show "e \<in> {(getFullPort (svc_uid s) p, port_entry pods s p) |s p. (s, p) \<in> unmarked services X}" by blast
  next
    fix e assume "e \<in> {(getFullPort (svc_uid s) p, port_entry pods s p) |s p. (s, p) \<in> unmarked services X}"
    then obtain s p where e: "e = (getFullPort (svc_uid s) p, port_entry pods s p)" "(s, p) \<in> unmarked services X" by auto
    then have "getFullPort (svc_uid s) p \<in> mkeys nm" unfolding nm(3) using w by auto
    then obtain v where v: "(getFullPort (svc_uid s) p, v) \<in> set nm" by auto
    with nm(2) obtain s' p' where s': "s' \<in> set services" "getFullPort (svc_uid s) p = getFullPort (svc_uid s') p'"
      "v = port_entry pods s' p'" by blast
    moreover have "s \<in> set services" using e(2) by (auto simp: unmarked_def)
    ultimately have "s = s'" "p = p'" using full_port_eq [OF assms(1), of s s' p p'] by auto
    with v s'(3) e(1) show "e \<in> set nm" by simp
  qed
  with wd(1) nm(1) show ?thesis by (rule that)
qed

lemma unmarked_routes_exact:
  assumes "services_ok services" "pods_ok pods services" "fair_order V" "distinct (map fst marked)"
    "\<forall>k. map_of marked k = (if k \<in> X then Some True else map_of (makeMarkedMap services) k)"
  shows "\<exists>m. unmarked_routes V pods (getEndpoints pods services) marked routes = Some m \<and>
    (\<forall>s\<in>set services. \<forall>port\<in>set (svc_ports s).
      if getFullPort (svc_uid s) (Port port) \<in> X then map_of m (ip_and_port s (Port port)) = map_of routes (ip_and_port s (Port port))
      else \<exists>es. map_of m (ip_and_port s (Port port)) = Some es \<and> mset es = mset (default_route pods s port))"
proof -
  obtain wd nm where wd: "waited_ports (visit_marked V marked) [] = Some wd"
    "waited_endpoints pods (getEndpoints pods services) (visit_waited V wd) [] = Some nm"
    and nm: "set nm = {(getFullPort (svc_uid s) p, port_entry pods s p) |s p. (s, p) \<in> unmarked services X}"
    by (rule unmarked_table [OF assms(1,4,3,5)])
  have set_nm: "set (visit_ports V nm) = set nm" using assms(3) by (metis fair_order_def mset_eq_setD)
  have split: "splitFullPort (getFullPort (svc_uid s) p) = Some (svc_uid s, p)" if "(s, p) \<in> unmarked services X" for s p
    using that by (auto simp: unmarked_def split_service_port [OF assms(1)])
  let ?v = "\<lambda>s p. default_endpoints (visit_endpoints V (EndpointsMapWithPodName (port_entry pods s p)))"
  let ?new = "rev (map (\<lambda>(fp, se). (ip_and_port (SE_Service se) (snd (the (splitFullPort fp))),
      default_endpoints (visit_endpoints V (EndpointsMapWithPodName se)))) (visit_ports V nm))"
  have "\<forall>(fp, se)\<in>set (visit_ports V nm). \<exists>uid port. splitFullPort fp = Some (uid, port)"
    using split by (auto simp: set_nm nm)
  from default_routes_all [OF this, of V routes] obtain m where
    m: "default_routes V (visit_ports V nm) routes = Some m" "map_of m = map_of routes ++ map_of ?new" by blast
  have new: "(K, v) \<in> set ?new \<longleftrightarrow> (\<exists>s p. (s, p) \<in> unmarked services X \<and> K = ip_and_port s p \<and> v = ?v s p)" for K v
  proof -
    have "set ?new = (\<lambda>(s, p). (ip_and_port s p, ?v s p)) ` unmarked services X"
    proof -
      have "set (visit_ports V nm) = (\<lambda>(s, p). (getFullPort (svc_uid s) p, port_entry pods s p)) ` unmarked services X"
        unfolding set_nm nm by auto
      then show ?thesis unfolding set_rev set_map
        by (simp add: image_image) (intro image_cong, auto simp: split port_entry_def)
    qed
    then show ?thesis by (simp only:) (auto intro: rev_image_eqI)
  qed
  have "if getFullPort (svc_uid s) (Port port) \<in> X then map_of m (ip_and_port s (Port port)) = map_of routes (ip_and_port s (Port port))
      else \<exists>es. map_of m (ip_and_port s (Port port)) = Some es \<and> mset es = mset (default_route pods s port)"
    if s: "s \<in> set services" "port \<in> set (svc_ports s)" for s port
  proof (cases "getFullPort (svc_uid s) (Port port) \<in> X")
    case True
    have "map_of ?new (ip_and_port s (Port port)) = None"
    proof (rule map_of_missing, rule notI)
      fix v
      assume "(ip_and_port s (Port port), v) \<in> set ?new"
      then obtain s' p where "(s', p) \<in> unmarked services X" "ip_and_port s (Port port) = ip_and_port s' p" unfolding new by blast
      with True s ip_and_port_eq [OF assms(1), of s s'] show False by (auto simp: unmarked_def)
    qed
    with True show ?thesis by (simp only: m(2) map_add_def) simp
  next
    case False
    with s have u: "(s, Port port) \<in> unmarked services X" by (auto simp: unmarked_def)
    have "map_of ?new (ip_and_port s (Port port)) = Some (?v s (Port port))"
    proof (rule map_of_unique)
      show "(ip_and_port s (Port port), ?v s (Port port)) \<in> set ?new" unfolding new using u by blast
      show "\<forall>v'. (ip_and_port s (Port port), v') \<in> set ?new \<longrightarrow> v' = ?v s (Port port)"
        unfolding new using ip_and_port_eq [OF assms(1) s(1)] by (auto simp: unmarked_def)
    qed
    then have "map_of m (ip_and_port s (Port port)) = Some (?v s (Port port))" by (simp only: m(2) map_add_Some_iff) simp
    with False default_endpoints_entry [OF assms(1,2) s assms(3)] show ?thesis by simp
  qed
  moreover have "unmarked_routes V pods (getEndpoints pods services) marked routes = Some m"
    by (simp add: unmarked_routes_def wd m(1))
  ultimately show ?thesis by blast
qed

text \<open>
  C37: the routing table is complete and right. When the routes of the virtual services can be made, the pilot publishes one table
  in which every port of every service that no virtual service names leads, with equal weights, to exactly the running pods of the
  service that have the port, and every port that one names leads where its virtual services say.
\<close>

theorem pilot_publishes_endpoints:
  assumes "services_ok services" "pods_ok pods services" "fair_order V"
    "route_virtual_services N (makeFullMap services) (getEndpoints pods services) vss (makeMarkedMap services, []) w =
      (Inr (marked, routes), w1)"
  shows "\<exists>m. publish N V pods services vss w = io_call (\<lambda>w. case client_AddSidecarMapping N m w of (err, w') \<Rightarrow> (((), err), w')) w1 \<and>
    (\<forall>s\<in>set services. \<forall>port\<in>set (svc_ports s).
      if \<exists>vs\<in>set vss. map_of (makeFullMap services) (vs_service_key vs) = Some s \<and> VS_Port (VS_Spec vs) = Port port
      then map_of m (ip_and_port s (Port port)) = map_of routes (ip_and_port s (Port port))
      else \<exists>es. map_of m (ip_and_port s (Port port)) = Some es \<and> mset es = mset (default_route pods s port))"
proof -
  have marked: "\<forall>k. map_of marked k = (if k \<in> marks services vss then Some True else map_of (makeMarkedMap services) k)"
    "distinct (map fst marked)"
    using routes_mark [OF assms(4)] makeMarkedMap_distinct by auto
  obtain m where m: "unmarked_routes V pods (getEndpoints pods services) marked routes = Some m"
    "\<forall>s\<in>set services. \<forall>port\<in>set (svc_ports s).
      if getFullPort (svc_uid s) (Port port) \<in> marks services vss
      then map_of m (ip_and_port s (Port port)) = map_of routes (ip_and_port s (Port port))
      else \<exists>es. map_of m (ip_and_port s (Port port)) = Some es \<and> mset es = mset (default_route pods s port)"
    using unmarked_routes_exact [OF assms(1-3) marked(2,1)] by blast
  have marks: "getFullPort (svc_uid s) (Port port) \<in> marks services vss \<longleftrightarrow>
      (\<exists>vs\<in>set vss. map_of (makeFullMap services) (vs_service_key vs) = Some s \<and> VS_Port (VS_Spec vs) = Port port)"
    if "s \<in> set services" for s port
  proof
    assume "getFullPort (svc_uid s) (Port port) \<in> marks services vss"
    then obtain s' vs where vs: "vs \<in> set vss" "map_of (makeFullMap services) (vs_service_key vs) = Some s'"
      "getFullPort (svc_uid s) (Port port) = getFullPort (svc_uid s') (VS_Port (VS_Spec vs))" unfolding marks_def by blast
    then have "s = s'" "Port port = VS_Port (VS_Spec vs)"
      using full_port_eq [OF assms(1) that makeFullMap_in [OF vs(2)]] by simp_all
    with vs(1,2) show "\<exists>vs\<in>set vss. map_of (makeFullMap services) (vs_service_key vs) = Some s \<and> VS_Port (VS_Spec vs) = Port port"
      by (intro bexI [of _ vs]) simp_all
  next
    assume "\<exists>vs\<in>set vss. map_of (makeFullMap services) (vs_service_key vs) = Some s \<and> VS_Port (VS_Spec vs) = Port port"
    then obtain vs where "vs \<in> set vss" "map_of (makeFullMap services) (vs_service_key vs) = Some s" "VS_Port (VS_Spec vs) = Port port"
      by blast
    then show "getFullPort (svc_uid s) (Port port) \<in> marks services vss"
      unfolding marks_def by (intro CollectI exI [of _ s] exI [of _ vs]) simp
  qed
  have "\<forall>s\<in>set services. \<forall>port\<in>set (svc_ports s).
      if \<exists>vs\<in>set vss. map_of (makeFullMap services) (vs_service_key vs) = Some s \<and> VS_Port (VS_Spec vs) = Port port
      then map_of m (ip_and_port s (Port port)) = map_of routes (ip_and_port s (Port port))
      else \<exists>es. map_of m (ip_and_port s (Port port)) = Some es \<and> mset es = mset (default_route pods s port)"
    by (intro ballI, subst marks [symmetric], assumption) (rule m(2) [rule_format])
  moreover have "publish N V pods services vss w =
      io_call (\<lambda>w. case client_AddSidecarMapping N m w of (err, w') \<Rightarrow> (((), err), w')) w1"
    by (simp add: publish_def Let_def io_bind_def assms(4) m(1))
  ultimately show ?thesis by blast
qed

lemma mesh_services_ok: "services_ok [mesh_service]" "pods_ok (map mesh_pod [1, 2, 3]) [mesh_service]"
  by code_simp+

theorem pilot_publishes_endpoints_witness:
  "\<exists>m es. publish demo_net same_order (map mesh_pod [1, 2, 3]) [mesh_service] [] mesh_world =
      io_call (\<lambda>w. case client_AddSidecarMapping demo_net m w of (err, w') \<Rightarrow> (((), err), w')) mesh_world \<and>
    map_of m ''100.0.0.1:80'' = Some es \<and> mset es = mset (default_route (map mesh_pod [1, 2, 3]) mesh_service mesh_port) \<and>
    length (default_route (map mesh_pod [1, 2, 3]) mesh_service mesh_port) = 3"
proof -
  have fair: "fair_order same_order" by (simp add: fair_order_def same_order_def)
  have "route_virtual_services demo_net (makeFullMap [mesh_service]) (getEndpoints (map mesh_pod [1, 2, 3]) [mesh_service]) []
      (makeMarkedMap [mesh_service], []) mesh_world = (Inr (makeMarkedMap [mesh_service], []), mesh_world)"
    by (simp add: io_simps)
  note p = pilot_publishes_endpoints [OF mesh_services_ok fair this]
  have k: "ip_and_port mesh_service (Port mesh_port) = ''100.0.0.1:80''" "svc_ports mesh_service = [mesh_port]"
    "length (default_route (map mesh_pod [1, 2, 3]) mesh_service mesh_port) = 3"
    by code_simp+
  from p show ?thesis using k by auto
qed

section \<open>Missing services\<close>

text \<open>A virtual service whose service is gone: nothing is published, and as the first in the list it ends the pilot.\<close>

lemma orphan_never_published:
  assumes "vs \<in> set vss" "map_of (makeFullMap services) (vs_service_key vs) = None"
  shows "\<exists>e. fst (publish N V pods services vss w) = Inl e"
proof -
  have "\<exists>e. fst (route_virtual_services N (makeFullMap services) M vss maps w) = Inl e" for M maps
    using assms(1)
  proof (induction vss arbitrary: maps w)
    case (Cons x vss)
    show ?case
    proof (cases "route_virtual_service N (makeFullMap services) M x maps w")
      case (Pair r w1)
      have "x \<noteq> vs" if "r = Inr maps1" for maps1
        using Pair that assms(2)
        by (auto simp: route_virtual_service_def vs_service_key_def Let_def io_simps split: prod.splits)
      with Pair Cons show ?thesis by (cases r) (auto simp: io_simps)
    qed
  qed simp
  from this [of "getEndpoints pods services" "(makeMarkedMap services, [])"] show ?thesis
    by (auto simp: publish_def Let_def io_simps split: prod.splits sum.splits)
qed

lemma orphan_ends_pilot:
  assumes "map_of (makeFullMap services) (vs_service_key vs) = None"
  shows "publish N V pods services (vs # vss) w = (Inl Panicked, w)"
  using assms by (simp add: publish_def route_virtual_service_def vs_service_key_def Let_def io_simps)

end
