(* ===== verification/Rolling_Update.thy ===== *)
theory Rolling_Update
  imports Mesh_Traffic Replicaset_Controller
begin

text \<open>
  A rolling update with client, server and registry: \<open>rollingUpdateWorkerLoop\<close> of \<open>Pilot\<close> over a network that delivers, an
  etcd that works and uuids that are new. The pauses of the goroutine are where the rest of the cluster works; what the
  update relies on is that they are long enough for the new pods to start. Then enough pods run all the time, the subset
  that gets the traffic has running pods only, and in the end every pod has been replaced.
\<close>

section \<open>The pods and subsets of a registry\<close>

text \<open>The pod under a namespace and a name, as the server finds it.\<close>

definition pod_of :: "registry \<Rightarrow> string \<Rightarrow> string \<Rightarrow> Pod option" where
  "pod_of V np name = (case V (ns_key np ''pods'' name) of
     Some (Raw u) \<Rightarrow> (case V (pod_key u) of Some (JPod p) \<Rightarrow> Some p | _ \<Rightarrow> None)
   | _ \<Rightarrow> None)"

definition running :: "registry \<Rightarrow> string \<Rightarrow> string \<Rightarrow> bool" where
  "running V np name \<longleftrightarrow> (case pod_of V np name of None \<Rightarrow> False | Some p \<Rightarrow> Phase (Pod_Status p) = PodRunning)"

definition has_spec :: "PodSpec \<Rightarrow> registry \<Rightarrow> string \<Rightarrow> string \<Rightarrow> bool" where
  "has_spec spec V np name \<longleftrightarrow> (case pod_of V np name of None \<Rightarrow> False | Some p \<Rightarrow> Pod_Spec p = spec)"

lemma running_iff: "running V np name \<longleftrightarrow> (\<exists>p. pod_of V np name = Some p \<and> Phase (Pod_Status p) = PodRunning)"
  by (simp add: running_def split: option.split)

lemma has_spec_iff: "has_spec spec V np name \<longleftrightarrow> (\<exists>p. pod_of V np name = Some p \<and> Pod_Spec p = spec)"
  by (simp add: has_spec_def split: option.split)

definition consistent :: "registry \<Rightarrow> bool" where
  "consistent V \<longleftrightarrow> keyed typed V \<and> registry_indexed V"

lemma consistent_index:
  assumes "consistent V"
  shows "index_ok ''pods'' pod_key V" "index_ok ''subsets'' subset_key V"
  using assms by (simp_all add: consistent_def registry_indexed_def)

text \<open>An index entry leads to a pod.\<close>

lemma index_pod:
  assumes "consistent V" "no_slash np" "V (ns_key np ''pods'' name) = Some v"
  obtains u p where "v = Raw u" "u \<noteq> ''''" "V (pod_key u) = Some (JPod p)" "label (JPod p) = Some (np, name)"
    "pod_of V np name = Some p"
proof -
  obtain u x where u: "v = Raw u" "u \<noteq> ''''" "V (pod_key u) = Some x" "label x = Some (np, name)"
    using consistent_index(1) [OF assms(1)] assms(2,3) unfolding index_ok_def by blast
  moreover from u(3) assms(1) obtain p where "x = JPod p"
    by (auto simp: consistent_def dest!: keyedD)
  ultimately show ?thesis using assms(3) by (intro that [of u p]) (auto simp: pod_of_def)
qed

lemma pod_of_None: "consistent V \<Longrightarrow> no_slash np \<Longrightarrow> pod_of V np name = None \<longleftrightarrow> V (ns_key np ''pods'' name) = None"
  by (cases "V (ns_key np ''pods'' name)") (simp add: pod_of_def, metis index_pod option.distinct(1))

lemma pod_of_delete:
  assumes "consistent V" "no_slash np" "V (ns_key np ''pods'' name) = Some (Raw u)"
  shows "pod_of (V(ns_key np ''pods'' name := None, pod_key u := None)) np = (pod_of V np)(name := None)"
proof
  fix n
  show "pod_of (V(ns_key np ''pods'' name := None, pod_key u := None)) np n = ((pod_of V np)(name := None)) n"
  proof (cases "n = name \<or> V (ns_key np ''pods'' n) = None")
    case False
    then obtain u' p where u': "V (ns_key np ''pods'' n) = Some (Raw u')" "V (pod_key u') = Some (JPod p)"
      "label (JPod p) = Some (np, n)" "pod_of V np n = Some p"
      using index_pod [OF assms(1,2), of n] by blast
    obtain q where "V (pod_key u) = Some (JPod q)" "label (JPod q) = Some (np, name)"
      using index_pod [OF assms] by blast
    with u'(2,3) False have "u' \<noteq> u" by auto
    with u' False show ?thesis by (simp add: pod_of_def pods.ns_key_eq [OF assms(2,2)])
  qed (auto simp: pod_of_def pods.ns_key_eq [OF assms(2,2)])
qed

lemma pod_of_add:
  assumes "consistent V" "no_slash np" "V (pod_key u) = None"
  shows "pod_of (V(ns_key np ''pods'' name \<mapsto> Raw u, pod_key u \<mapsto> JPod p)) np = (pod_of V np)(name \<mapsto> p)"
proof
  fix n
  show "pod_of (V(ns_key np ''pods'' name \<mapsto> Raw u, pod_key u \<mapsto> JPod p)) np n = ((pod_of V np)(name \<mapsto> p)) n"
  proof (cases "n = name \<or> V (ns_key np ''pods'' n) = None")
    case False
    then obtain u' q where u': "V (ns_key np ''pods'' n) = Some (Raw u')" "V (pod_key u') = Some (JPod q)" "pod_of V np n = Some q"
      using index_pod [OF assms(1,2), of n] by blast
    with assms(3) have "u' \<noteq> u" by auto
    with u' False show ?thesis by (simp add: pod_of_def pods.ns_key_eq [OF assms(2,2)])
  qed (auto simp: pod_of_def pods.ns_key_eq [OF assms(2,2)])
qed

lemma pod_of_write:
  assumes "consistent V" "no_slash np" "V (ns_key np ''pods'' name) = Some (Raw u)"
  shows "pod_of (V(pod_key u \<mapsto> JPod p)) np = (pod_of V np)(name \<mapsto> p)"
proof
  fix n
  show "pod_of (V(pod_key u \<mapsto> JPod p)) np n = ((pod_of V np)(name \<mapsto> p)) n"
  proof (cases "n = name \<or> V (ns_key np ''pods'' n) = None")
    case False
    then obtain u' q where u': "V (ns_key np ''pods'' n) = Some (Raw u')" "V (pod_key u') = Some (JPod q)" "label (JPod q) = Some (np, n)"
      "pod_of V np n = Some q"
      using index_pod [OF assms(1,2), of n] by blast
    obtain q' where "V (pod_key u) = Some (JPod q')" "label (JPod q') = Some (np, name)"
      using index_pod [OF assms] by blast
    with u'(2,3) False have "u' \<noteq> u" by auto
    with u' False show ?thesis by (simp add: pod_of_def)
  qed (use assms(3) in \<open>auto simp: pod_of_def\<close>)
qed

text \<open>Writing one subset leaves the others, and settles its own.\<close>

lemma stores_subset_write:
  assumes "consistent V" "no_slash np" "u \<noteq> ''''"
    "V (ns_key np ''subsets'' name) = Some (Raw u) \<or> V (subset_key u) = None"
  shows "stores_subset (V(ns_key np ''subsets'' name \<mapsto> Raw u, subset_key u \<mapsto> JSubset s)) np n ps \<longleftrightarrow>
    (if n = name then ps = Subset_Pods s else stores_subset V np n ps)"
proof (cases "n = name")
  case False
  have "u' \<noteq> u" if "V (ns_key np ''subsets'' n) = Some (Raw u')" for u'
  proof
    assume "u' = u"
    from that obtain x where x: "V (subset_key u') = Some x" "label x = Some (np, n)"
      using consistent_index(2) [OF assms(1)] assms(2) unfolding index_ok_def by blast
    moreover from assms(4) this \<open>u' = u\<close> have "V (ns_key np ''subsets'' name) = Some (Raw u)" by auto
    then obtain y where "V (subset_key u) = Some y" "label y = Some (np, name)"
      using consistent_index(2) [OF assms(1)] assms(2) unfolding index_ok_def by blast
    ultimately show False using \<open>u' = u\<close> False by auto
  qed
  then have "(V(ns_key np ''subsets'' name \<mapsto> Raw u, subset_key u \<mapsto> JSubset s)) (subset_key u') = V (subset_key u')"
    if "V (ns_key np ''subsets'' n) = Some (Raw u')" for u' using that by simp
  with False show ?thesis by (simp add: stores_subset_def subsets.ns_key_eq [OF assms(2,2)] cong: conj_cong)
qed (use assms(3) in \<open>auto simp: stores_subset_def\<close>)

lemma stores_subset_less: "V' \<subseteq>\<^sub>m V \<Longrightarrow> stores_subset V' np name ps \<Longrightarrow> stores_subset V np name ps"
  unfolding stores_subset_def map_le_def by (metis domI)

section \<open>Single requests\<close>

lemma some_subset: "Subset_Pods s = ps \<Longrightarrow> \<exists>s'. Subset_Pods s' = ps \<and> (V :: registry)(k \<mapsto> JSubset s) = V(k \<mapsto> JSubset s')"
  by blast

context reliable_etcd
begin

lemma serve_consistent:
  assumes "consistent (view w)" "uuid_fresh (view w) r" "request_ok r" "serve E r w = (rs, w')"
  shows "consistent (view w')"
  using assms(1) serve_typed [OF assms(4)] serve_index [OF _ assms(2,3,4)] by (simp add: consistent_def registry_indexed_def)

lemma serve_other_kind:
  assumes "serve E r w = (rs, w')" "request_ok r" "no_slash np"
  shows "request_kind r \<noteq> ''pods'' \<Longrightarrow> pod_of (view w') np = pod_of (view w) np"
    "request_kind r \<noteq> ''subsets'' \<Longrightarrow> stores_subset (view w') np name ps = stores_subset (view w) np name ps"
proof -
  have "view w' (ns_key np kind n) = view w (ns_key np kind n)" if "request_kind r \<noteq> kind" "no_slash kind" for kind n
    using serve_frame [OF assms(1)] ns_footprint_kind [OF assms(2,3) that(2)] that(1) by blast
  moreover have "view w' (pod_key u) = view w (pod_key u)" if "request_kind r \<noteq> ''pods''" for u
    using serve_frame [OF assms(1)] footprint_kind(1) that by blast
  moreover have "view w' (subset_key u) = view w (subset_key u)" if "request_kind r \<noteq> ''subsets''" for u
    using serve_frame [OF assms(1)] footprint_kind(8) that by blast
  ultimately show "request_kind r \<noteq> ''pods'' \<Longrightarrow> pod_of (view w') np = pod_of (view w) np"
    "request_kind r \<noteq> ''subsets'' \<Longrightarrow> stores_subset (view w') np name ps = stores_subset (view w) np name ps"
    by (auto simp: fun_eq_iff pod_of_def stores_subset_def no_slash_kinds cong: option.case_cong document.case_cong)
qed

lemma wp_check_pods_known:
  assumes "\<forall>p\<in>set ps. rget (view w) (ns_key np ''pods'' p) \<noteq> Raw ''''" "\<And>w'. view w' = view w \<Longrightarrow> wp view k w' Q"
  shows "wp view (check_pods E np ps k) w Q"
  using assms
proof (induction ps arbitrary: w)
  case (Cons p ps)
  show ?case by (simp only: check_pods.simps) (intro rel_Get wp_if Cons.IH; use Cons.prems in simp)
qed simp

lemma AddSubset_writes:
  assumes "np \<noteq> ''''" "validateSubset sset np = None" "\<forall>p\<in>set (Subset_Pods sset). rget (view w) (ns_key np ''pods'' p) \<noteq> Raw ''''"
  shows "wp view (AddSubsetHandler E np (Some sset) now uuid) w (\<lambda>rs V. \<exists>s. Subset_Pods s = Subset_Pods sset \<and>
    V = (let name = Name (Subset_Meta sset); d = rget (view w) (ns_key np ''subsets'' name);
             u = (if d \<noteq> Raw '''' then text_of E d else uuid) in
         (view w)(ns_key np ''subsets'' name \<mapsto> Raw u, subset_key u \<mapsto> JSubset s)))"
  unfolding AddSubsetHandler_def json_Marshal_def
  by (intro wp_combinators rel wp_check_pods_known; (use assms in simp)?) (auto simp: Let_def intro!: some_subset)

lemma DeleteSubset_less: "wp view (DeleteSubsetHandler E np name) w (\<lambda>rs V. V \<subseteq>\<^sub>m view w)"
  unfolding DeleteSubsetHandler_def
  by (intro wp_combinators rel) (auto simp: map_le_def)

end

lemma fresh_uid_objects:
  assumes "fresh_uid V u"
  shows "V (pod_key u) = None" "V (subset_key u) = None" "V (vs_key u) = None" "u \<noteq> ''''"
proof -
  have "subset_key u = ''/registry/subsets/'' @ u" "vs_key u = ''/registry/virtualservices/'' @ u"
    by (simp_all add: subset_key_def vs_key_def)
  with assms show "V (subset_key u) = None" "V (vs_key u) = None" unfolding fresh_uid_def by metis+
qed (use fresh_uid_keys [OF assms] in simp_all)

lemma call_world [simp]:
  "snd (call_status N q st msg w) = snd (http N q w)" "snd (call_decode N q st data msg w) = snd (http N q w)"
  by (auto simp: call_status_def call_decode_def split: prod.splits sum.splits)

section \<open>The calls of an update\<close>

locale update_network = mesh N E state view
  for N :: "'w net" and E :: "'v env" and state :: "'w \<Rightarrow> 'v" and view :: "'v \<Rightarrow> registry" +
  assumes http_fresh: "http N q w = (Inr rs, w') \<Longrightarrow>
    \<exists>u t. serve E (q u t) (state w) = (rs, state w') \<and> fresh_uid (view (state w)) u"
begin

lemma request_step:
  assumes "consistent (stored w)" "\<And>u t. fresh_uid (stored w) u \<Longrightarrow> uuid_fresh (stored w) (q u t)" "\<And>u t. request_ok (q u t)"
  obtains u t rs where "serve E (q u t) (state w) = (rs, state (snd (http N q w)))" "fresh_uid (stored w) u"
    "consistent (stored (snd (http N q w)))"
proof -
  obtain r w' where h: "http N q w = (r, w')" by fastforce
  obtain rs where "r = Inr rs" using net.http_ok [of q w] h by auto
  with h http_fresh obtain u t where "serve E (q u t) (state w) = (rs, state w')" "fresh_uid (stored w) u" by blast
  with etcd.serve_consistent [OF assms(1) assms(2,3)] h show ?thesis by (intro that) auto
qed

lemma quiet_request:
  assumes "consistent (stored w)" "no_slash np" "\<And>u t. fresh_uid (stored w) u \<Longrightarrow> uuid_fresh (stored w) (q u t)"
    "\<And>u t. request_ok (q u t)" "\<And>u t. request_kind (q u t) \<noteq> ''pods''" "\<And>u t. request_kind (q u t) \<noteq> ''subsets''"
  shows "consistent (stored (snd (http N q w)))" "pod_of (stored (snd (http N q w))) np = pod_of (stored w) np"
    "stores_subset (stored (snd (http N q w))) np name ps = stores_subset (stored w) np name ps"
proof -
  obtain u t rs where s: "serve E (q u t) (state w) = (rs, state (snd (http N q w)))" "consistent (stored (snd (http N q w)))"
    by (rule request_step [OF assms(1,3,4)])
  from etcd.serve_other_kind [OF s(1) assms(4,2)] assms(5,6) s(2)
  show "consistent (stored (snd (http N q w)))" "pod_of (stored (snd (http N q w))) np = pod_of (stored w) np"
    "stores_subset (stored (snd (http N q w))) np name ps = stores_subset (stored w) np name ps" by blast+
qed

lemma remove_pod:
  assumes "consistent (stored w)" "no_slash np" "pod_of (stored w) np name \<noteq> None"
  shows "consistent (stored (snd (client_DeletePod N name np w)))"
    "pod_of (stored (snd (client_DeletePod N name np w))) np = (pod_of (stored w) np)(name := None)"
    "stores_subset (stored (snd (client_DeletePod N name np w))) np n ps = stores_subset (stored w) np n ps"
proof -
  let ?q = "\<lambda>_ _. DELETE_Pod np name"
  obtain v where "stored w (ns_key np ''pods'' name) = Some v" using assms(3) pod_of_None [OF assms(1,2)] by auto
  from index_pod [OF assms(1,2) this] this obtain u where u: "stored w (ns_key np ''pods'' name) = Some (Raw u)" by metis
  obtain u' t rs where s: "serve E (?q u' t) (state w) = (rs, state (snd (http N ?q w)))" "consistent (stored (snd (http N ?q w)))"
    by (rule request_step [OF assms(1), of ?q]) (simp_all add: assms(2))
  have "stored (snd (http N ?q w)) = (stored w)(ns_key np ''pods'' name := None, pod_key u := None)"
    using wp_result [OF _ etcd.DeletePod_succeeds [OF consistent_index(1) [OF assms(1)] assms(2) u]] s(1) by auto
  with s etcd.serve_other_kind(2) [OF s(1) _ assms(2), of n ps] pod_of_delete [OF assms(1,2) u] assms(2)
  show "consistent (stored (snd (client_DeletePod N name np w)))"
    "pod_of (stored (snd (client_DeletePod N name np w))) np = (pod_of (stored w) np)(name := None)"
    "stores_subset (stored (snd (client_DeletePod N name np w))) np n ps = stores_subset (stored w) np n ps"
    by (simp_all add: client_DeletePod_def)
qed

lemma put_pod:
  assumes "consistent (stored w)" "no_slash np" "np \<noteq> ''''" "Namespace (Pod_Meta pod) = np" "Name (Pod_Meta pod) \<noteq> ''''"
    "pod_of (stored w) np (Name (Pod_Meta pod)) = None"
  shows "consistent (stored (snd (client_AddPod N pod w)))"
    "\<exists>p. pod_of (stored (snd (client_AddPod N pod w))) np = (pod_of (stored w) np)(Name (Pod_Meta pod) \<mapsto> p) \<and> Pod_Spec p = Pod_Spec pod"
    "stores_subset (stored (snd (client_AddPod N pod w))) np n ps = stores_subset (stored w) np n ps"
proof -
  let ?q = "POST_Pod np (Some (wire_Pod pod))" and ?n = "Name (Pod_Meta pod)"
  have c: "snd (client_AddPod N pod w) = snd (http N ?q w)"
    using assms(3,4) by (simp add: client_AddPod_def in_namespace_def)
  obtain u t rs where s: "serve E (?q u t) (state w) = (rs, state (snd (http N ?q w)))" "fresh_uid (stored w) u"
    "consistent (stored (snd (http N ?q w)))"
    by (rule request_step [OF assms(1), of ?q]) (auto simp: assms(2) fresh_uid_objects)
  have none: "stored w (ns_key np ''pods'' ?n) = None" using assms(6) pod_of_None [OF assms(1,2)] by simp
  have V: "stored (snd (http N ?q w)) = (stored w)(ns_key np ''pods'' ?n \<mapsto> Raw u, pod_key u \<mapsto> JPod (created_pod (wire_Pod pod) np u t))"
    using wp_result [OF _ etcd.AddPod_creates [of "wire_Pod pod" np "state w" u t]] s(1) assms(3-5) none by auto
  show "consistent (stored (snd (client_AddPod N pod w)))" using s(3) by (simp add: c)
  show "\<exists>p. pod_of (stored (snd (client_AddPod N pod w))) np = (pod_of (stored w) np)(?n \<mapsto> p) \<and> Pod_Spec p = Pod_Spec pod"
    unfolding c V pod_of_add [OF assms(1,2) fresh_uid_objects(1) [OF s(2)]]
    by (intro exI [of _ "created_pod (wire_Pod pod) np u t"]) (simp add: created_pod_def)
  show "stores_subset (stored (snd (client_AddPod N pod w))) np n ps = stores_subset (stored w) np n ps"
    using etcd.serve_other_kind(2) [OF s(1) _ assms(2), of n ps] assms(2) by (simp add: c)
qed

lemma put_subset:
  assumes "consistent (stored w)" "no_slash np" "np \<noteq> ''''" "Namespace (Subset_Meta sset) = np" "Name (Subset_Meta sset) \<noteq> ''''"
    "Kind (Subset_Type sset) = ''Subset''" "\<forall>p\<in>set (Subset_Pods sset). pod_of (stored w) np p \<noteq> None"
  shows "consistent (stored (snd (client_AddSubset N sset w)))"
    "pod_of (stored (snd (client_AddSubset N sset w))) np = pod_of (stored w) np"
    "stores_subset (stored (snd (client_AddSubset N sset w))) np n ps \<longleftrightarrow>
      (if n = Name (Subset_Meta sset) then ps = Subset_Pods sset else stores_subset (stored w) np n ps)"
proof -
  let ?q = "\<lambda>uuid now. POST_Subset np (Some (wire_Subset sset)) now uuid" and ?k = "ns_key np ''subsets'' (Name (Subset_Meta sset))"
  have c: "snd (client_AddSubset N sset w) = snd (http N ?q w)" by (simp add: client_AddSubset_def assms(4))
  have wire: "Subset_Pods (wire_Subset sset) = Subset_Pods sset" "Name (Subset_Meta (wire_Subset sset)) = Name (Subset_Meta sset)"
    "validateSubset (wire_Subset sset) np = None"
    using assms(3-6) by (auto simp: wire_defs validateSubset_def namespace_mismatch_def)
  obtain u t rs where s: "serve E (?q u t) (state w) = (rs, state (snd (http N ?q w)))" "fresh_uid (stored w) u"
    "consistent (stored (snd (http N ?q w)))"
    by (rule request_step [OF assms(1), of ?q]) (auto simp: assms(2) fresh_uid_objects)
  have "rget (stored w) (ns_key np ''pods'' p) \<noteq> Raw ''''" if p: "p \<in> set (Subset_Pods sset)" for p
  proof -
    have "stored w (ns_key np ''pods'' p) \<noteq> None" using assms(7) p pod_of_None [OF assms(1,2)] by blast
    then show ?thesis using index_pod [OF assms(1,2), of p] by fastforce
  qed
  then obtain s' where "Subset_Pods s' = Subset_Pods sset" and V: "stored (snd (http N ?q w)) =
     (let u = (if rget (stored w) ?k \<noteq> Raw '''' then text_of E (rget (stored w) ?k) else u) in
      (stored w)(?k \<mapsto> Raw u, subset_key u \<mapsto> JSubset s'))"
    using wp_result [OF _ etcd.AddSubset_writes [OF assms(3) wire(3), of "state w" t u]] s(1) by (auto simp: wire Let_def)
  moreover have "\<exists>u'. u' \<noteq> '''' \<and> (stored w ?k = Some (Raw u') \<or> stored w (subset_key u') = None) \<and>
      (if rget (stored w) ?k \<noteq> Raw '''' then text_of E (rget (stored w) ?k) else u) = u'"
  proof (cases "rget (stored w) ?k = Raw ''''")
    case True
    then show ?thesis using fresh_uid_objects [OF s(2)] by simp
  next
    case False
    from subsets.index_okD1 [OF consistent_index(2) [OF assms(1)] assms(2) False] show ?thesis by fastforce
  qed
  ultimately have "stores_subset (stored (snd (http N ?q w))) np n ps \<longleftrightarrow>
      (if n = Name (Subset_Meta sset) then ps = Subset_Pods sset else stores_subset (stored w) np n ps)"
    using stores_subset_write [OF assms(1,2)] by (auto simp: Let_def)
  then show "stores_subset (stored (snd (client_AddSubset N sset w))) np n ps \<longleftrightarrow>
      (if n = Name (Subset_Meta sset) then ps = Subset_Pods sset else stores_subset (stored w) np n ps)" by (simp add: c)
  show "consistent (stored (snd (client_AddSubset N sset w)))" using s(3) by (simp add: c)
  show "pod_of (stored (snd (client_AddSubset N sset w))) np = pod_of (stored w) np"
    using etcd.serve_other_kind(1) [OF s(1) _ assms(2)] assms(2) by (simp add: c)
qed

lemma drop_subset:
  assumes "consistent (stored w)" "no_slash np" "Namespace (Subset_Meta sset) = np"
  shows "consistent (stored (snd (client_DeleteSubset N sset w)))"
    "pod_of (stored (snd (client_DeleteSubset N sset w))) np = pod_of (stored w) np"
    "stores_subset (stored (snd (client_DeleteSubset N sset w))) np n ps \<Longrightarrow> stores_subset (stored w) np n ps"
proof -
  let ?q = "\<lambda>_ _. DELETE_Subset np (Name (Subset_Meta sset))"
  have c: "snd (client_DeleteSubset N sset w) = snd (http N ?q w)" by (simp add: client_DeleteSubset_def assms(3))
  obtain u t rs where s: "serve E (?q u t) (state w) = (rs, state (snd (http N ?q w)))" "consistent (stored (snd (http N ?q w)))"
    by (rule request_step [OF assms(1), of ?q]) (simp_all add: assms(2))
  show "consistent (stored (snd (client_DeleteSubset N sset w)))" using s(2) by (simp add: c)
  show "pod_of (stored (snd (client_DeleteSubset N sset w))) np = pod_of (stored w) np"
    using etcd.serve_other_kind(1) [OF s(1) _ assms(2)] assms(2) by (simp add: c)
  have "stored (snd (http N ?q w)) \<subseteq>\<^sub>m stored w"
    using wp_result [OF _ etcd.DeleteSubset_less] s(1) by auto
  then show "stores_subset (stored (snd (client_DeleteSubset N sset w))) np n ps \<Longrightarrow> stores_subset (stored w) np n ps"
    unfolding c by (rule stores_subset_less)
qed

end

section \<open>The worlds that an update passes\<close>

text \<open>A network and pauses that write down every world they leave behind.\<close>

definition watch_net :: "'w net \<Rightarrow> ('w \<times> 'w list) net" where
  "watch_net N = \<lparr>http = (\<lambda>q (w, ws). case http N q w of (r, w') \<Rightarrow> (r, (w', ws @ [w']))),
     stats_http = (\<lambda>q (w, ws). case stats_http N q w of (r, w') \<Rightarrow> (r, (w', ws @ [w'])))\<rparr>"

definition watch_pause :: "(int \<Rightarrow> 'w \<Rightarrow> 'w) \<Rightarrow> int \<Rightarrow> 'w \<times> 'w list \<Rightarrow> 'w \<times> 'w list" where
  "watch_pause sleep n = (\<lambda>(w, ws). (sleep n w, ws @ [sleep n w]))"

fun call_worlds :: "('c \<Rightarrow> 'w \<Rightarrow> error \<times> 'w) \<Rightarrow> 'c list \<Rightarrow> 'w \<Rightarrow> 'w list" where
  "call_worlds f [] w = []"
| "call_worlds f (c # cs) w = snd (f c w) # call_worlds f cs (snd (f c w))"

fun until_worlds :: "('c \<Rightarrow> 'w \<Rightarrow> error \<times> 'w) \<Rightarrow> 'c list \<Rightarrow> 'w \<Rightarrow> 'w list" where
  "until_worlds f [] w = []"
| "until_worlds f (c # cs) w = snd (f c w) # (if fst (f c w) \<noteq> None then [] else until_worlds f cs (snd (f c w)))"

lemma log_errors_append [simp]: "log_errors f (cs @ cs') w = log_errors f cs' (log_errors f cs w)"
  by (induction cs arbitrary: w) simp_all

lemma call_worlds_append [simp]: "call_worlds f (cs @ cs') w = call_worlds f cs w @ call_worlds f cs' (log_errors f cs w)"
  by (induction cs arbitrary: w) simp_all

lemma until_worlds_calls: "set (until_worlds f cs w) \<subseteq> set (call_worlds f cs w)"
  by (induction cs arbitrary: w) auto

lemma until_error_None: "until_error f cs w = (None, w') \<Longrightarrow> w' = log_errors f cs w"
  by (induction cs arbitrary: w) (auto split: prod.splits if_splits)

lemma watch_call:
  "update_do (watch_net N) (watch_pause sleep) ru c (w, ws) =
     (case update_do N sleep ru c w of (err, w') \<Rightarrow> (err, (w', ws @ [w'])))"
  by (cases c) (auto simp: client_UpdateRollingUpdateStatus_def client_AddSubset_def client_AddVirtualService_def client_DeletePod_def
    client_AddPod_def client_DeleteVirtualService_def client_DeleteSubset_def call_status_def call_decode_def Let_def
    watch_net_def watch_pause_def split: prod.splits sum.splits)

lemma watch_log: "log_errors (update_do (watch_net N) (watch_pause sleep) ru) cs (w, ws) =
    (log_errors (update_do N sleep ru) cs w, ws @ call_worlds (update_do N sleep ru) cs w)"
  by (induction cs arbitrary: w ws) (simp_all add: watch_call split: prod.splits)

lemma watch_until: "until_error (update_do (watch_net N) (watch_pause sleep) ru) cs (w, ws) =
    (case until_error (update_do N sleep ru) cs w of (err, w') \<Rightarrow> (err, (w', ws @ until_worlds (update_do N sleep ru) cs w)))"
  by (induction cs arbitrary: w ws) (auto simp: watch_call split: prod.splits)

text \<open>Watching changes nothing, and what is written down are the worlds of the calls.\<close>

lemma watch_update:
  obtains ws where "rollingUpdateWorkerLoop (watch_net N) (watch_pause sleep) ru service pods (w, []) =
      (rollingUpdateWorkerLoop N sleep ru service pods w, ws)"
    "\<And>v. v \<in> set ws \<Longrightarrow> 0 < updateNum ru pods \<and> (v \<in> set (call_worlds (update_do N sleep ru) (setup_calls ru service) w) \<or>
      fst (until_error (update_do N sleep ru) (setup_calls ru service) w) = None \<and>
      v \<in> set (call_worlds (update_do N sleep ru) (batches ru service pods (nat (updateNum ru pods)) 0 @ final_calls ru service)
        (log_errors (update_do N sleep ru) (setup_calls ru service) w)))"
proof -
  let ?f = "update_do N sleep ru"
  obtain err w' where u: "until_error ?f (setup_calls ru service) w = (err, w')" by fastforce
  show ?thesis
  proof (cases "0 < updateNum ru pods \<and> err = None")
    case True
    with u until_error_None [of ?f "setup_calls ru service" w w'] show ?thesis
      using until_worlds_calls [of ?f "setup_calls ru service" w]
      by (intro that [of "until_worlds ?f (setup_calls ru service) w @
          call_worlds ?f (batches ru service pods (nat (updateNum ru pods)) 0 @ final_calls ru service) w'"])
        (auto simp: rollingUpdateWorkerLoop_def watch_until watch_log)
  next
    case False
    then show ?thesis
      using u until_worlds_calls [of ?f "setup_calls ru service" w]
      by (intro that [of "if 0 < updateNum ru pods then until_worlds ?f (setup_calls ru service) w else []"])
        (auto simp: rollingUpdateWorkerLoop_def watch_until)
  qed
qed

section \<open>Batches\<close>

definition names :: "Pod list \<Rightarrow> string list" where
  "names pods = map (\<lambda>pod. Name (Pod_Meta pod)) pods"

lemma new_pod_meta [simp]: "Pod_Meta (new_pod ru pod) = Pod_Meta pod"
  by (simp add: new_pod_def)

lemma in_names: "q \<in> set qs \<Longrightarrow> Name (Pod_Meta q) \<in> set (names qs)"
  by (simp add: names_def)

text \<open>The names of a batch are a slice of the names.\<close>

definition batch_names :: "Pod list \<Rightarrow> nat \<Rightarrow> nat \<Rightarrow> string list" where
  "batch_names pods i j = names (drop i (take j pods))"

lemma concat_if: "concat (map (\<lambda>k. if P k then [f k] else []) xs) = map f (filter P xs)"
  by (induction xs) auto

lemma batch_names_map: "j \<le> length pods \<Longrightarrow> batch_names pods i j = map (\<lambda>k. Name (Pod_Meta (pods ! k))) [i..<j]"
  by (intro nth_equalityI) (auto simp: batch_names_def names_def)

lemma batch_names_filter:
  assumes "j \<le> length pods"
  shows "[Name (Pod_Meta (pods ! k)). k \<leftarrow> [0..<length pods], i \<le> k \<and> k < j] = batch_names pods i j"
proof -
  have "filter (\<lambda>k. i \<le> k \<and> k < j) [0..<n] = [i..<min j n]" for n
  proof (induction n)
    case (Suc n)
    then show ?case by (cases "n < j") auto
  qed simp
  from this [of "length pods"] show ?thesis using assms by (simp add: batch_names_map concat_if)
qed

lemma batch_names_others:
  assumes "j \<le> length pods" "distinct (names pods)"
  shows "set [Name (Pod_Meta (pods ! k)). k \<leftarrow> [0..<length pods], \<not> (i \<le> k \<and> k < j)] \<inter> set (batch_names pods i j) = {}"
proof -
  have inj: "k = l" if "Name (Pod_Meta (pods ! k)) = Name (Pod_Meta (pods ! l))" "k < length pods" "l < length pods" for k l
    using assms(2) that nth_eq_iff_index_eq [of "names pods" k l] by (simp add: names_def)
  show ?thesis
    unfolding concat_if batch_names_map [OF assms(1)]
  proof (intro equals0I, elim IntE)
    fix x
    assume "x \<in> set (map (\<lambda>k. Name (Pod_Meta (pods ! k))) (filter (\<lambda>k. \<not> (i \<le> k \<and> k < j)) [0..<length pods]))"
      "x \<in> set (map (\<lambda>k. Name (Pod_Meta (pods ! k))) [i..<j])"
    then obtain k l where kl: "k \<in> set (filter (\<lambda>k. \<not> (i \<le> k \<and> k < j)) [0..<length pods])" "l \<in> set [i..<j]"
      "x = Name (Pod_Meta (pods ! k))" "x = Name (Pod_Meta (pods ! l))" unfolding set_map by (elim imageE)
    then have "k = l" using assms(1) by (intro inj) auto
    with kl(1,2) show False by simp
  qed
qed

lemma batch_names_length: "length (batch_names pods i j) \<le> j - i"
  by (simp add: batch_names_def names_def)

definition other_names :: "Pod list \<Rightarrow> nat \<Rightarrow> nat \<Rightarrow> string list" where
  "other_names pods i j = [Name (Pod_Meta (pods ! k)). k \<leftarrow> [0..<length pods], \<not> (i \<le> k \<and> k < j)]"

lemma batch_shape: "j \<le> length pods \<Longrightarrow> batch ru service pods i j =
    PutSubset (subsetBlocked ru service (batch_names pods i j)) # PutSubset (subsetAvailable ru service (other_names pods i j)) #
    map RemovePod (batch_names pods i j) @ [Sleep] @ map (\<lambda>pod. PutPod (new_pod ru pod)) (drop i (take j pods)) @ [Sleep]"
  by (simp only: batch_def other_names_def batch_names_filter Let_def append_Cons append_Nil)

section \<open>What holds during an update\<close>

text \<open>
  The pods \<open>Up\<close> run, the subset that gets the traffic has no others, and the pods \<open>New\<close> have the specification \<open>spec\<close>.
\<close>

definition on_course :: "PodSpec \<Rightarrow> string \<Rightarrow> string \<Rightarrow> string set \<Rightarrow> string set \<Rightarrow> registry \<Rightarrow> bool" where
  "on_course spec np av Up New V \<longleftrightarrow> consistent V \<and> New \<subseteq> Up \<and> (\<forall>n\<in>Up. running V np n) \<and>
     (\<forall>ps. stores_subset V np av ps \<longrightarrow> set ps \<subseteq> Up) \<and> (\<forall>n\<in>New. has_spec spec V np n)"

lemma on_course_keep:
  assumes "on_course spec np av Up New V" "consistent V'" "\<And>n. n \<in> Up \<Longrightarrow> pod_of V' np n = pod_of V np n"
    "\<And>ps. stores_subset V' np av ps \<Longrightarrow> set ps \<subseteq> Up \<or> stores_subset V np av ps"
  shows "on_course spec np av Up New V'"
  using assms by (auto simp: on_course_def running_iff has_spec_iff subset_iff) blast+

lemma on_course_weaken: "on_course spec np av Up New V \<Longrightarrow> New' \<subseteq> New \<Longrightarrow> on_course spec np av Up New' V"
  by (auto simp: on_course_def)

text \<open>
  The pauses: whatever happens in them, the pods \<open>NS\<close> that there are have come up when they end, with their specification, no one
  adds those that are not there, and the subset \<open>av\<close> is left alone.
\<close>

definition lets_pods_start :: "('w \<Rightarrow> registry) \<Rightarrow> string \<Rightarrow> string set \<Rightarrow> string \<Rightarrow> (int \<Rightarrow> 'w \<Rightarrow> 'w) \<Rightarrow> bool" where
  "lets_pods_start reg np NS av sleep \<longleftrightarrow> (\<forall>t w. consistent (reg w) \<longrightarrow> consistent (reg (sleep t w)) \<and>
     (\<forall>n\<in>NS. case pod_of (reg w) np n of
        None \<Rightarrow> pod_of (reg (sleep t w)) np n = None
      | Some p \<Rightarrow> running (reg (sleep t w)) np n \<and> has_spec (Pod_Spec p) (reg (sleep t w)) np n) \<and>
     (\<forall>ps. stores_subset (reg (sleep t w)) np av ps \<longrightarrow> stores_subset (reg w) np av ps))"

lemma pause_on_course:
  assumes "lets_pods_start reg np NS av sleep" "on_course spec np av Up New (reg w)" "Up \<subseteq> NS"
  shows "on_course spec np av Up New (reg (sleep t w))"
proof -
  have c: "consistent (reg w)" using assms(2) by (simp add: on_course_def)
  have up: "running (reg (sleep t w)) np n \<and> has_spec (Pod_Spec p) (reg (sleep t w)) np n" if "n \<in> NS" "pod_of (reg w) np n = Some p" for n p
    using assms(1) c that unfolding lets_pods_start_def by fastforce
  have "\<forall>n\<in>Up. running (reg (sleep t w)) np n" using assms(2,3) up unfolding on_course_def running_iff by blast
  moreover have "\<forall>n\<in>New. has_spec spec (reg (sleep t w)) np n"
    using assms(2,3) up unfolding on_course_def has_spec_iff by blast
  ultimately show ?thesis using assms(1,2) c unfolding on_course_def lets_pods_start_def by blast
qed

lemma pause_all_up:
  assumes "lets_pods_start reg np NS av sleep" "on_course spec np av Up New (reg w)"
    "\<And>n. n \<in> NS \<Longrightarrow> n \<notin> Up \<Longrightarrow> has_spec spec (reg w) np n" "Up \<subseteq> NS"
  shows "on_course spec np av NS (New \<union> (NS - Up)) (reg (sleep t w))"
proof -
  note o = pause_on_course [OF assms(1,2,4), of t]
  have "running (reg (sleep t w)) np n \<and> has_spec spec (reg (sleep t w)) np n" if n: "n \<in> NS" "n \<notin> Up" for n
  proof -
    obtain p where "pod_of (reg w) np n = Some p" "Pod_Spec p = spec" using assms(3) [OF n] by (auto simp: has_spec_iff)
    with assms(1,2) n(1) show ?thesis unfolding on_course_def lets_pods_start_def by fastforce
  qed
  with o assms(4) show ?thesis unfolding on_course_def by blast
qed

context update_network
begin

lemma quiet_calls:
  assumes "consistent (stored w)" "no_slash np" "np = Namespace (RU_Meta ru)"
    "c = SetStatus phase \<or> c = PutVirtualService (update_vs ru service) \<or> c = RemoveVirtualService (update_vs ru service)"
  shows "consistent (stored (snd (update_do N sleep ru c w)))"
    "pod_of (stored (snd (update_do N sleep ru c w))) np = pod_of (stored w) np"
    "stores_subset (stored (snd (update_do N sleep ru c w))) np n ps = stores_subset (stored w) np n ps"
proof -
  have "Namespace (VS_Meta (update_vs ru service)) = np" by (simp add: update_vs_def assms(3))
  then obtain q where q: "snd (update_do N sleep ru c w) = snd (http N q w)" "\<And>u t. request_ok (q u t)"
    "\<And>u t. fresh_uid (stored w) u \<Longrightarrow> uuid_fresh (stored w) (q u t)" "\<And>u t. request_kind (q u t) \<noteq> ''pods''"
    "\<And>u t. request_kind (q u t) \<noteq> ''subsets''"
  proof -
    assume ns: "Namespace (VS_Meta (update_vs ru service)) = np"
    from assms(4) show thesis
    proof (elim disjE)
      assume "c = SetStatus phase"
      then show thesis using assms(2,3)
        by (intro that [of "\<lambda>_ _. POST_RollingUpdateStatus np (Name (RU_Meta ru)) (Some phase)"])
          (simp_all add: client_UpdateRollingUpdateStatus_def)
    next
      assume "c = PutVirtualService (update_vs ru service)"
      then show thesis using assms(2) ns fresh_uid_objects
        by (intro that [of "\<lambda>uuid now. POST_VirtualService np (Some (wire_VirtualService (update_vs ru service))) now uuid"])
          (simp_all add: client_AddVirtualService_def)
    next
      assume "c = RemoveVirtualService (update_vs ru service)"
      then show thesis using assms(2) ns
        by (intro that [of "\<lambda>_ _. DELETE_VirtualService np (Name (VS_Meta (update_vs ru service)))"])
          (simp_all add: client_DeleteVirtualService_def)
    qed
  qed
  from quiet_request [OF assms(1,2) q(3,2,4,5)] show "consistent (stored (snd (update_do N sleep ru c w)))"
    "pod_of (stored (snd (update_do N sleep ru c w))) np = pod_of (stored w) np"
    "stores_subset (stored (snd (update_do N sleep ru c w))) np n ps = stores_subset (stored w) np n ps"
    by (simp_all only: q(1))
qed

lemma subset_call:
  assumes "consistent (stored w)" "no_slash np" "np \<noteq> ''''" "np = Namespace (RU_Meta ru)" "suffix \<noteq> ''''"
    "\<forall>p\<in>set ns. pod_of (stored w) np p \<noteq> None"
  shows "consistent (stored (snd (update_do N sleep ru (PutSubset (update_subset ru service suffix ns)) w)))"
    "pod_of (stored (snd (update_do N sleep ru (PutSubset (update_subset ru service suffix ns)) w))) np = pod_of (stored w) np"
    "stores_subset (stored (snd (update_do N sleep ru (PutSubset (update_subset ru service suffix ns)) w))) np n ps \<longleftrightarrow>
      (if n = Name (Svc_Meta service) @ suffix then ps = ns else stores_subset (stored w) np n ps)"
  using put_subset [OF assms(1-3), of "update_subset ru service suffix ns"] assms(4-6) by (simp_all add: update_subset_def)

lemma unsubset_call:
  assumes "consistent (stored w)" "no_slash np" "np = Namespace (RU_Meta ru)"
  shows "consistent (stored (snd (update_do N sleep ru (RemoveSubset (update_subset ru service suffix ns)) w)))"
    "pod_of (stored (snd (update_do N sleep ru (RemoveSubset (update_subset ru service suffix ns)) w))) np = pod_of (stored w) np"
    "stores_subset (stored (snd (update_do N sleep ru (RemoveSubset (update_subset ru service suffix ns)) w))) np n ps \<Longrightarrow>
      stores_subset (stored w) np n ps"
  using drop_subset [OF assms(1,2), of "update_subset ru service suffix ns"] assms(3) by (simp_all add: update_subset_def)

lemma removes_on_course:
  assumes "on_course spec np av Up New (stored w)" "no_slash np" "np = Namespace (RU_Meta ru)" "distinct ns" "set ns \<inter> Up = {}"
    "\<forall>n\<in>set ns. pod_of (stored w) np n \<noteq> None"
  shows "(\<forall>v\<in>set (call_worlds (update_do N sleep ru) (map RemovePod ns) w). on_course spec np av Up New (stored v)) \<and>
    on_course spec np av Up New (stored (log_errors (update_do N sleep ru) (map RemovePod ns) w)) \<and>
    pod_of (stored (log_errors (update_do N sleep ru) (map RemovePod ns) w)) np = (\<lambda>n. if n \<in> set ns then None else pod_of (stored w) np n)"
  using assms(1,4-6)
proof (induction ns arbitrary: w)
  case (Cons a ns)
  let ?w = "snd (update_do N sleep ru (RemovePod a) w)"
  have w: "?w = snd (client_DeletePod N a np w)" by (simp add: assms(3))
  have "consistent (stored w)" using Cons.prems(1) by (simp add: on_course_def)
  note r = remove_pod [OF this assms(2), of a, folded w]
  have "pod_of (stored w) np a \<noteq> None" using Cons.prems(4) by simp
  note r = r(1) [OF this] r(2) [OF this] r(3) [OF this]
  have o: "on_course spec np av Up New (stored ?w)"
    by (rule on_course_keep [OF Cons.prems(1) r(1)]) (use r(2,3) Cons.prems(3) in auto)
  have "distinct ns" "set ns \<inter> Up = {}" "\<forall>n\<in>set ns. pod_of (stored ?w) np n \<noteq> None"
    using Cons.prems(2-4) unfolding r(2) by auto
  note ih = Cons.IH [OF o this]
  have "a \<notin> set ns" using Cons.prems(2) by simp
  then have "pod_of (stored (log_errors (update_do N sleep ru) (map RemovePod ns) ?w)) np =
      (\<lambda>n. if n \<in> set (a # ns) then None else pod_of (stored w) np n)"
    using ih unfolding r(2) by auto
  with ih o show ?case by (simp del: update_do.simps)
qed simp

lemma puts_on_course:
  assumes "on_course (NewPodSpec (RU_Spec ru)) np av Up New (stored w)" "no_slash np" "np \<noteq> ''''"
    "distinct (names qs)" "set (names qs) \<inter> Up = {}"
    "\<forall>q\<in>set qs. Name (Pod_Meta q) \<noteq> '''' \<and> Namespace (Pod_Meta q) = np \<and> pod_of (stored w) np (Name (Pod_Meta q)) = None"
  shows "(\<forall>v\<in>set (call_worlds (update_do N sleep ru) (map (\<lambda>q. PutPod (new_pod ru q)) qs) w).
      on_course (NewPodSpec (RU_Spec ru)) np av Up New (stored v)) \<and>
    on_course (NewPodSpec (RU_Spec ru)) np av Up New (stored (log_errors (update_do N sleep ru) (map (\<lambda>q. PutPod (new_pod ru q)) qs) w)) \<and>
    (\<forall>n. n \<notin> set (names qs) \<longrightarrow> pod_of (stored (log_errors (update_do N sleep ru) (map (\<lambda>q. PutPod (new_pod ru q)) qs) w)) np n =
      pod_of (stored w) np n) \<and>
    (\<forall>n\<in>set (names qs). has_spec (NewPodSpec (RU_Spec ru)) (stored (log_errors (update_do N sleep ru) (map (\<lambda>q. PutPod (new_pod ru q)) qs) w)) np n)"
  using assms(1,4-6)
proof (induction qs arbitrary: w)
  case (Cons q qs)
  let ?w = "snd (update_do N sleep ru (PutPod (new_pod ru q)) w)" and ?n = "Name (Pod_Meta q)"
  have c: "consistent (stored w)" using Cons.prems(1) by (simp add: on_course_def)
  have q: "Namespace (Pod_Meta (new_pod ru q)) = np" "Name (Pod_Meta (new_pod ru q)) \<noteq> ''''"
    "pod_of (stored w) np (Name (Pod_Meta (new_pod ru q))) = None" using Cons.prems(4) by simp_all
  note r = put_pod [OF c assms(2,3) q]
  obtain p where p: "pod_of (stored ?w) np = (pod_of (stored w) np)(?n \<mapsto> p)" "Pod_Spec p = NewPodSpec (RU_Spec ru)"
    using r(2) by (auto simp: new_pod_def)
  have o: "on_course (NewPodSpec (RU_Spec ru)) np av Up New (stored ?w)"
    by (rule on_course_keep [OF Cons.prems(1)]) (use r(1,3) p(1) Cons.prems(3) in \<open>auto simp: names_def\<close>)
  have qs: "distinct (names qs)" "set (names qs) \<inter> Up = {}" "?n \<notin> set (names qs)"
    using Cons.prems(2,3) by (simp_all add: names_def)
  have "\<forall>q\<in>set qs. Name (Pod_Meta q) \<noteq> '''' \<and> Namespace (Pod_Meta q) = np \<and> pod_of (stored ?w) np (Name (Pod_Meta q)) = None"
  proof
    fix q'
    assume q': "q' \<in> set qs"
    with qs(3) have "Name (Pod_Meta q') \<noteq> ?n" by (metis in_names)
    with Cons.prems(4) q' show "Name (Pod_Meta q') \<noteq> '''' \<and> Namespace (Pod_Meta q') = np \<and> pod_of (stored ?w) np (Name (Pod_Meta q')) = None"
      unfolding p(1) by simp
  qed
  note ih = Cons.IH [OF o qs(1,2) this]
  have "has_spec (NewPodSpec (RU_Spec ru)) (stored (log_errors (update_do N sleep ru) (map (\<lambda>q. PutPod (new_pod ru q)) qs) ?w)) np ?n"
    using ih qs(3) p by (simp add: has_spec_iff)
  with ih o qs(3) show ?case unfolding p(1) by (simp add: names_def del: update_do.simps)
qed (simp add: names_def)

text \<open>A batch first moves its pods to the blocked subset, then replaces them.\<close>

lemma block_on_course:
  fixes ru service np
  defines "av \<equiv> Name (Svc_Meta service) @ ''-available''"
  assumes o: "on_course spec np av NS New (stored w)" and np: "no_slash np" "np \<noteq> ''''" "np = Namespace (RU_Meta ru)"
    and ns: "set ns \<subseteq> NS" "set os \<subseteq> NS - set ns"
    and w1: "w1 = snd (update_do N sleep ru (PutSubset (subsetBlocked ru service ns)) w)"
    and w2: "w2 = snd (update_do N sleep ru (PutSubset (subsetAvailable ru service os)) w1)"
  shows "on_course spec np av NS New (stored w1)" "on_course spec np av (NS - set ns) (New - set ns) (stored w2)"
    "pod_of (stored w2) np = pod_of (stored w) np"
proof -
  have there: "pod_of (stored w) np n \<noteq> None" if "n \<in> NS" for n using o that by (auto simp: on_course_def running_iff)
  have "consistent (stored w)" using o by (simp add: on_course_def)
  note s1 = subset_call [OF this np(1,2,3), of "''-blocked''" ns sleep service, folded w1]
  have s1: "consistent (stored w1)" "pod_of (stored w1) np = pod_of (stored w) np"
    "\<And>ps. stores_subset (stored w1) np av ps \<Longrightarrow> stores_subset (stored w) np av ps"
    using s1 there ns(1) by (auto simp: av_def subset_iff)
  show "on_course spec np av NS New (stored w1)" by (rule on_course_keep [OF o s1(1)]) (use s1(2,3) in simp_all)
  have "\<forall>p\<in>set os. pod_of (stored w1) np p \<noteq> None" using there ns(2) s1(2) by auto
  note s2 = subset_call [OF s1(1) np(1,2,3) _ this, of "''-available''" sleep service, folded w2]
  have s2: "consistent (stored w2)" "pod_of (stored w2) np = pod_of (stored w) np"
    "\<And>ps. stores_subset (stored w2) np av ps \<Longrightarrow> ps = os"
    using s2 s1(2) by (auto simp: av_def)
  show "on_course spec np av (NS - set ns) (New - set ns) (stored w2)"
    using o ns(2) s2 by (auto simp: on_course_def running_iff has_spec_iff)
  show "pod_of (stored w2) np = pod_of (stored w) np" by (rule s2(2))
qed

lemma replace_on_course:
  fixes ru qs np
  defines "B \<equiv> set (names qs)" and "spec \<equiv> NewPodSpec (RU_Spec ru)"
  assumes sleep: "lets_pods_start stored np NS av sleep" and o: "on_course spec np av (NS - B) (New - B) (stored w)"
    and np: "no_slash np" "np \<noteq> ''''" "np = Namespace (RU_Meta ru)" and B: "B \<subseteq> NS" "distinct (names qs)"
    and there: "\<forall>n\<in>B. pod_of (stored w) np n \<noteq> None" and qs: "\<forall>q\<in>set qs. Name (Pod_Meta q) \<noteq> '''' \<and> Namespace (Pod_Meta q) = np"
    and cs: "cs = map RemovePod (names qs) @ [Sleep] @ map (\<lambda>q. PutPod (new_pod ru q)) qs @ [Sleep]"
  shows "(\<forall>v\<in>set (call_worlds (update_do N sleep ru) cs w).
      on_course spec np av NS {} (stored v) \<or> on_course spec np av (NS - B) {} (stored v)) \<and>
    on_course spec np av NS (New \<union> B) (stored (log_errors (update_do N sleep ru) cs w))"
proof -
  let ?f = "update_do N sleep ru"
  define w3 where "w3 = log_errors ?f (map RemovePod (names qs)) w"
  define w4 where "w4 = sleep (Interval (RU_Spec ru)) w3"
  define w5 where "w5 = log_errors ?f (map (\<lambda>q. PutPod (new_pod ru q)) qs) w4"
  define w6 where "w6 = sleep (Interval (RU_Spec ru)) w5"
  note o3 = removes_on_course [OF o np(1,3) B(2) _ there [unfolded B_def], of sleep, folded w3_def]
  have o3: "\<forall>v\<in>set (call_worlds ?f (map RemovePod (names qs)) w). on_course spec np av (NS - B) (New - B) (stored v)"
    "on_course spec np av (NS - B) (New - B) (stored w3)" "\<forall>n\<in>B. pod_of (stored w3) np n = None"
    using o3 by (auto simp: B_def)
  have o4: "on_course spec np av (NS - B) (New - B) (stored w4)"
    unfolding w4_def by (rule pause_on_course [OF sleep o3(2)]) simp
  have "\<forall>n\<in>B. pod_of (stored w4) np n = None"
    using sleep o3(2,3) B(1) unfolding w4_def lets_pods_start_def on_course_def by fastforce
  with qs have "\<forall>q\<in>set qs. Name (Pod_Meta q) \<noteq> '''' \<and> Namespace (Pod_Meta q) = np \<and> pod_of (stored w4) np (Name (Pod_Meta q)) = None"
    unfolding B_def using in_names by blast
  note o5 = puts_on_course [OF o4 [unfolded spec_def] np(1,2) B(2) _ this, of sleep, folded w5_def spec_def]
  have o5: "\<forall>v\<in>set (call_worlds ?f (map (\<lambda>q. PutPod (new_pod ru q)) qs) w4). on_course spec np av (NS - B) (New - B) (stored v)"
    "on_course spec np av (NS - B) (New - B) (stored w5)" "\<forall>n\<in>B. has_spec spec (stored w5) np n"
    using o5 by (auto simp: B_def)
  have "on_course spec np av NS ((New - B) \<union> (NS - (NS - B))) (stored w6)"
    unfolding w6_def by (rule pause_all_up [OF sleep o5(2)]) (use o5(3) in auto)
  moreover have "New - B \<union> (NS - (NS - B)) = New \<union> B" using B(1) by blast
  ultimately have o6: "on_course spec np av NS (New \<union> B) (stored w6)" by simp
  have "call_worlds ?f cs w = call_worlds ?f (map RemovePod (names qs)) w @
      w4 # call_worlds ?f (map (\<lambda>q. PutPod (new_pod ru q)) qs) w4 @ [w6]" "log_errors ?f cs w = w6"
    by (simp_all add: cs w3_def w4_def w5_def w6_def)
  with o3(1) o4 o5(1) o6 show ?thesis by (auto intro: on_course_weaken [where New' = "{}"])
qed

lemma batch_on_course:
  fixes ru service pods i j np
  defines "NS \<equiv> set (names pods)" and "B \<equiv> set (batch_names pods i j)" and "av \<equiv> Name (Svc_Meta service) @ ''-available''"
    and "spec \<equiv> NewPodSpec (RU_Spec ru)"
  assumes sleep: "lets_pods_start stored np NS av sleep" and o: "on_course spec np av NS New (stored w)"
    and np: "no_slash np" "np \<noteq> ''''" "np = Namespace (RU_Meta ru)" and dist: "distinct (names pods)" and j: "j \<le> length pods"
    and pods: "\<forall>pod\<in>set pods. Name (Pod_Meta pod) \<noteq> '''' \<and> Namespace (Pod_Meta pod) = np"
  shows "(\<forall>v\<in>set (call_worlds (update_do N sleep ru) (batch ru service pods i j) w).
      on_course spec np av NS {} (stored v) \<or> on_course spec np av (NS - B) {} (stored v)) \<and>
    on_course spec np av NS (New \<union> B) (stored (log_errors (update_do N sleep ru) (batch ru service pods i j) w))"
proof -
  let ?f = "update_do N sleep ru" and ?ns = "batch_names pods i j" and ?os = "other_names pods i j" and ?qs = "drop i (take j pods)"
  have ns: "names ?qs = ?ns" "distinct ?ns" "B \<subseteq> NS"
    using dist in_set_dropD [of _ i "take j (names pods)"] in_set_takeD [of _ j "names pods"]
    by (auto simp: B_def NS_def batch_names_def names_def simp flip: drop_map take_map)
  have os: "set ?os \<subseteq> NS - B"
    using batch_names_others [OF j dist, of i] by (auto simp: other_names_def NS_def B_def names_def)
  define w1 where "w1 = snd (?f (PutSubset (subsetBlocked ru service ?ns)) w)"
  define w2 where "w2 = snd (?f (PutSubset (subsetAvailable ru service ?os)) w1)"
  note b = block_on_course [OF o [unfolded av_def] np ns(3) [unfolded B_def] os [unfolded B_def] w1_def w2_def, folded av_def B_def]
  have "\<forall>n\<in>B. pod_of (stored w2) np n \<noteq> None"
    using o ns(3) unfolding b(3) by (auto simp: on_course_def running_iff)
  moreover have "\<forall>q\<in>set ?qs. Name (Pod_Meta q) \<noteq> '''' \<and> Namespace (Pod_Meta q) = np"
    using pods in_set_dropD in_set_takeD by fast
  ultimately have r: "(\<forall>v\<in>set (call_worlds ?f cs w2). on_course spec np av NS {} (stored v) \<or> on_course spec np av (NS - B) {} (stored v)) \<and>
      on_course spec np av NS (New \<union> B) (stored (log_errors ?f cs w2))"
    if "cs = map RemovePod ?ns @ [Sleep] @ map (\<lambda>q. PutPod (new_pod ru q)) ?qs @ [Sleep]" for cs
    using replace_on_course [of np NS av sleep ru ?qs New w2 cs, unfolded ns(1), folded B_def spec_def] sleep b(2) np ns(2,3) that
    by blast
  obtain cs where cs: "cs = map RemovePod ?ns @ [Sleep] @ map (\<lambda>q. PutPod (new_pod ru q)) ?qs @ [Sleep]" by simp
  then have "batch ru service pods i j = PutSubset (subsetBlocked ru service ?ns) # PutSubset (subsetAvailable ru service ?os) # cs"
    by (simp add: batch_shape [OF j])
  then have "call_worlds ?f (batch ru service pods i j) w = w1 # w2 # call_worlds ?f cs w2"
    "log_errors ?f (batch ru service pods i j) w = log_errors ?f cs w2"
    by (simp_all add: w1_def w2_def)
  with r [OF cs] b(1,2) show ?thesis by (auto intro: on_course_weaken [where New' = "{}"])
qed

lemma batches_on_course:
  fixes ru service pods np
  defines "NS \<equiv> set (names pods)" and "av \<equiv> Name (Svc_Meta service) @ ''-available''" and "spec \<equiv> NewPodSpec (RU_Spec ru)"
  assumes sleep: "lets_pods_start stored np NS av sleep" and np: "no_slash np" "np \<noteq> ''''" "np = Namespace (RU_Meta ru)"
    and dist: "distinct (names pods)" and pods: "\<forall>pod\<in>set pods. Name (Pod_Meta pod) \<noteq> '''' \<and> Namespace (Pod_Meta pod) = np"
    and n: "0 < n" and o: "on_course spec np av NS (set (names (take i pods))) (stored w)"
  shows "(\<forall>v\<in>set (call_worlds (update_do N sleep ru) (batches ru service pods n i) w).
      \<exists>Up \<subseteq> NS. length pods - n \<le> card Up \<and> on_course spec np av Up {} (stored v)) \<and>
    on_course spec np av NS NS (stored (log_errors (update_do N sleep ru) (batches ru service pods n i) w))"
  using o
proof (induction "length pods - i" arbitrary: i w rule: less_induct)
  case less
  have len: "card NS = length pods" using dist distinct_card by (fastforce simp: NS_def names_def)
  show ?case
  proof (cases "i < length pods")
    case True
    let ?j = "min (i + n) (length pods)" and ?f = "update_do N sleep ru"
    let ?w = "log_errors ?f (batch ru service pods i ?j) w" and ?B = "set (batch_names pods i ?j)"
    have b: "batches ru service pods n i = batch ru service pods i ?j @ batches ru service pods n (i + n)"
      using True n by (subst batches.simps) simp
    have "set (names (take i pods)) \<union> ?B = set (names (take ?j pods))"
    proof -
      have "take ?j pods = take i pods @ drop i (take ?j pods)"
        using append_take_drop_id [of i "take ?j pods", symmetric] True by (simp only: take_take) (simp add: min_absorb1)
      then show ?thesis by (metis batch_names_def map_append names_def set_append)
    qed
    moreover have "take ?j pods = take (i + n) pods" by (simp add: min_def)
    ultimately have o': "on_course spec np av NS (set (names (take (i + n) pods))) (stored ?w)"
      and ws: "\<forall>v\<in>set (call_worlds ?f (batch ru service pods i ?j) w).
        on_course spec np av NS {} (stored v) \<or> on_course spec np av (NS - ?B) {} (stored v)"
      using batch_on_course [OF sleep [unfolded NS_def av_def] less.prems [unfolded NS_def av_def spec_def] np dist _ pods, of ?j i]
      by (simp_all add: NS_def av_def spec_def)
    have "card ?B \<le> n" using card_length [of "batch_names pods i ?j"] batch_names_length [of pods i ?j] by linarith
    then have "length pods - n \<le> card (NS - ?B)"
      using diff_card_le_card_Diff [of ?B NS] by (simp add: len)
    then have "\<forall>v\<in>set (call_worlds ?f (batch ru service pods i ?j) w).
        \<exists>Up \<subseteq> NS. length pods - n \<le> card Up \<and> on_course spec np av Up {} (stored v)"
      using ws len by (metis Diff_subset diff_le_self order_refl)
    with less.hyps [OF _ o'] True n show ?thesis unfolding b by auto
  next
    case False
    then have "batches ru service pods n i = []" by (subst batches.simps) simp
    with less.prems False show ?thesis by (simp add: NS_def)
  qed
qed

text \<open>Before the batches the pods stay as they are, and the subset that gets the traffic becomes empty; after them both stay.\<close>

lemma setup_on_course:
  fixes ru service np
  defines "av \<equiv> Name (Svc_Meta service) @ ''-available''"
  assumes np: "no_slash np" "np \<noteq> ''''" "np = Namespace (RU_Meta ru)" and o: "on_course spec np av Up {} (stored w)"
  shows "\<forall>v\<in>set (call_worlds (update_do N sleep ru) (setup_calls ru service) w). on_course spec np av Up {} (stored v)"
    "pod_of (stored (log_errors (update_do N sleep ru) (setup_calls ru service) w)) np = pod_of (stored w) np"
    "stores_subset (stored (log_errors (update_do N sleep ru) (setup_calls ru service) w)) np av ps \<Longrightarrow> ps = []"
proof -
  let ?f = "update_do N sleep ru"
  define w1 where "w1 = snd (?f (SetStatus RollingUpdateRunning) w)"
  define w2 where "w2 = snd (?f (PutSubset (subsetBlocked ru service [])) w1)"
  define w3 where "w3 = snd (?f (PutSubset (subsetAvailable ru service [])) w2)"
  define w4 where "w4 = snd (?f (PutVirtualService (update_vs ru service)) w3)"
  have c: "consistent (stored w)" using o by (simp add: on_course_def)
  note s1 = quiet_calls [OF c np(1,3) disjI1 [OF refl], where sleep = sleep and phase = RollingUpdateRunning, folded w1_def]
  note s2 = subset_call [OF s1(1) np, of "''-blocked''" "[]" sleep service, folded w2_def, simplified]
  note s3 = subset_call [OF s2(1) np, of "''-available''" "[]" sleep service, folded w3_def, simplified]
  note s4 = quiet_calls [OF s3(1) np(1,3) disjI2 [OF disjI1 [OF refl]], where sleep = sleep and service = service, folded w4_def]
  have o1: "on_course spec np av Up {} (stored w1)" by (rule on_course_keep [OF o s1(1)]) (use s1(2,3) in simp_all)
  have o2: "on_course spec np av Up {} (stored w2)" by (rule on_course_keep [OF o1 s2(1)]) (use s2(2,3) in \<open>simp_all add: av_def\<close>)
  have o3: "on_course spec np av Up {} (stored w3)" by (rule on_course_keep [OF o2 s3(1)]) (use s3(2,3) in \<open>auto simp: av_def\<close>)
  have o4: "on_course spec np av Up {} (stored w4)" by (rule on_course_keep [OF o3 s4(1)]) (use s4(2,3) in simp_all)
  have worlds: "call_worlds ?f (setup_calls ru service) w = [w1, w2, w3, w4]" "log_errors ?f (setup_calls ru service) w = w4"
    by (simp_all add: setup_calls_def w1_def w2_def w3_def w4_def)
  show "\<forall>v\<in>set (call_worlds ?f (setup_calls ru service) w). on_course spec np av Up {} (stored v)"
    using o1 o2 o3 o4 by (simp add: worlds)
  show "pod_of (stored (log_errors ?f (setup_calls ru service) w)) np = pod_of (stored w) np"
    using s1(2) s2(2) s3(2) s4(2) by (simp add: worlds)
  show "stores_subset (stored (log_errors ?f (setup_calls ru service) w)) np av ps \<Longrightarrow> ps = []"
    using s3(3) s4(3) by (simp add: worlds av_def)
qed

lemma final_on_course:
  fixes ru service np
  defines "av \<equiv> Name (Svc_Meta service) @ ''-available''"
  assumes np: "no_slash np" "np = Namespace (RU_Meta ru)" and o: "on_course spec np av Up New (stored w)"
  shows "\<forall>v\<in>set (call_worlds (update_do N sleep ru) (final_calls ru service) w). on_course spec np av Up New (stored v)"
    "on_course spec np av Up New (stored (log_errors (update_do N sleep ru) (final_calls ru service) w))"
proof -
  let ?f = "update_do N sleep ru"
  define w1 where "w1 = snd (?f (SetStatus RollingUpdateFinished) w)"
  define w2 where "w2 = snd (?f (RemoveVirtualService (update_vs ru service)) w1)"
  define w3 where "w3 = snd (?f (RemoveSubset (subsetBlocked ru service [])) w2)"
  define w4 where "w4 = snd (?f (RemoveSubset (subsetAvailable ru service [])) w3)"
  have c: "consistent (stored w)" using o by (simp add: on_course_def)
  note s1 = quiet_calls [OF c np disjI1 [OF refl], where sleep = sleep and phase = RollingUpdateFinished, folded w1_def]
  note s2 = quiet_calls [OF s1(1) np disjI2 [OF disjI2 [OF refl]], where sleep = sleep and service = service, folded w2_def]
  note s3 = unsubset_call [OF s2(1) np, of sleep service "''-blocked''" "[]", folded w3_def]
  note s4 = unsubset_call [OF s3(1) np, of sleep service "''-available''" "[]", folded w4_def]
  have o1: "on_course spec np av Up New (stored w1)" by (rule on_course_keep [OF o s1(1)]) (use s1(2,3) in simp_all)
  have o2: "on_course spec np av Up New (stored w2)" by (rule on_course_keep [OF o1 s2(1)]) (use s2(2,3) in simp_all)
  have o3: "on_course spec np av Up New (stored w3)" by (rule on_course_keep [OF o2 s3(1)]) (use s3(2,3) in simp_all)
  have o4: "on_course spec np av Up New (stored w4)" by (rule on_course_keep [OF o3 s4(1)]) (use s4(2,3) in simp_all)
  have worlds: "call_worlds ?f (final_calls ru service) w = [w1, w2, w3, w4]" "log_errors ?f (final_calls ru service) w = w4"
    by (simp_all add: final_calls_def w1_def w2_def w3_def w4_def)
  show "\<forall>v\<in>set (call_worlds ?f (final_calls ru service) w). on_course spec np av Up New (stored v)"
    "on_course spec np av Up New (stored (log_errors ?f (final_calls ru service) w))"
    using o1 o2 o3 o4 by (simp_all add: worlds)
qed

end

section \<open>Pauses in which the kubelets report\<close>

text \<open>In a pause the kubelets start the pods that are assigned to them, and report it with \<open>UpdatePodStatus\<close>.\<close>

definition running_status :: PodStatus where
  "running_status = \<lparr>Phase = PodRunning, PodIP = ''10.32.0.9''\<rparr>"

definition kubelets_report :: "'w net \<Rightarrow> string \<Rightarrow> string list \<Rightarrow> int \<Rightarrow> 'w \<Rightarrow> 'w" where
  "kubelets_report N np ns t w = fold (\<lambda>n w. snd (http N (\<lambda>_ _. PUT_PodStatus np n (Some running_status)) w)) ns w"

definition came_up :: "string set \<Rightarrow> (string \<Rightarrow> Pod option) \<Rightarrow> (string \<Rightarrow> Pod option) \<Rightarrow> bool" where
  "came_up A m m' \<longleftrightarrow> (\<forall>n. rel_option (\<lambda>p q. Pod_Spec q = Pod_Spec p \<and>
     (n \<in> A \<or> Phase (Pod_Status p) = PodRunning \<longrightarrow> Phase (Pod_Status q) = PodRunning)) (m n) (m' n))"

lemma came_up_trans: "came_up A m m1 \<Longrightarrow> came_up B m1 m2 \<Longrightarrow> came_up (A \<union> B) m m2"
  unfolding came_up_def
  by (rule allI, erule_tac x = n in allE, erule_tac x = n in allE) (auto simp: option_rel_Some1 option_rel_Some2 elim!: option.rel_cases)

lemma came_up_one:
  assumes "\<And>p. Pod_Spec (f p) = Pod_Spec p" "\<And>p. Phase (Pod_Status (f p)) = PodRunning"
  shows "came_up {a} m (m(a := map_option f (m a)))"
  using assms by (auto simp: came_up_def option.rel_map option.rel_refl intro!: option.rel_refl)

context reliable_etcd
begin

lemma PutPodStatus_unknown:
  assumes "view w (ns_key np ''pods'' name) = None"
  shows "wp view (PutPodStatusHandler E np name (Some st)) w (\<lambda>rs V. V = view w)"
  unfolding PutPodStatusHandler_def Let_def using assms by (intro wp_combinators rel) auto

lemma PutPodStatus_writes:
  assumes "view w (ns_key np ''pods'' name) = Some (Raw u)" "u \<noteq> ''''" "view w (pod_key u) = Some (JPod p)"
  shows "wp view (PutPodStatusHandler E np name (Some st)) w
    (\<lambda>rs V. V = (view w)(pod_key u \<mapsto> JPod (p\<lparr>Pod_Meta := norm_meta (Pod_Meta p), Pod_Status := st\<rparr>)))"
  unfolding PutPodStatusHandler_def Let_def using assms by (intro wp_combinators rel) (auto simp: json_Unmarshal_defs)

end

context update_network
begin

lemma report_one:
  assumes "consistent (stored w)" "no_slash np" "w' = snd (http N (\<lambda>_ _. PUT_PodStatus np name (Some st)) w)"
  shows "consistent (stored w')"
    "pod_of (stored w') np = (pod_of (stored w) np)(name := map_option (\<lambda>p. p\<lparr>Pod_Meta := norm_meta (Pod_Meta p), Pod_Status := st\<rparr>)
      (pod_of (stored w) np name))"
    "stores_subset (stored w') np n ps = stores_subset (stored w) np n ps"
proof -
  obtain u t rs where s: "serve E (PUT_PodStatus np name (Some st)) (state w) = (rs, state w')" "consistent (stored w')"
    unfolding assms(3) by (rule request_step [OF assms(1), of "\<lambda>_ _. PUT_PodStatus np name (Some st)"]) (simp_all add: assms(2))
  then show "consistent (stored w')" by simp
  show "stores_subset (stored w') np n ps = stores_subset (stored w) np n ps"
    using etcd.serve_other_kind(2) [OF s(1) _ assms(2)] assms(2) by simp
  show "pod_of (stored w') np = (pod_of (stored w) np)(name := map_option (\<lambda>p. p\<lparr>Pod_Meta := norm_meta (Pod_Meta p), Pod_Status := st\<rparr>)
      (pod_of (stored w) np name))"
  proof (cases "stored w (ns_key np ''pods'' name)")
    case None
    with wp_result [OF _ etcd.PutPodStatus_unknown] s(1) have V: "stored w' = stored w" by simp
    from None have "pod_of (stored w) np name = None" by (simp add: pod_of_def)
    then show ?thesis unfolding V by (simp add: fun_eq_iff)
  next
    case (Some v)
    then obtain u p where u: "stored w (ns_key np ''pods'' name) = Some (Raw u)" "u \<noteq> ''''" "stored w (pod_key u) = Some (JPod p)"
      "pod_of (stored w) np name = Some p"
      using index_pod [OF assms(1,2) Some] by metis
    from wp_result [OF _ etcd.PutPodStatus_writes [OF u(1-3)]] s(1)
    have "stored w' = (stored w)(pod_key u \<mapsto> JPod (p\<lparr>Pod_Meta := norm_meta (Pod_Meta p), Pod_Status := st\<rparr>))" by simp
    with pod_of_write [OF assms(1,2) u(1)] u(4) show ?thesis by simp
  qed
qed

lemma report_all:
  assumes "consistent (stored w)" "no_slash np"
  shows "consistent (stored (kubelets_report N np ns t w)) \<and>
    came_up (set ns) (pod_of (stored w) np) (pod_of (stored (kubelets_report N np ns t w)) np) \<and>
    (\<forall>av ps. stores_subset (stored (kubelets_report N np ns t w)) np av ps = stores_subset (stored w) np av ps)"
  using assms(1)
proof (induction ns arbitrary: w)
  case Nil
  then show ?case by (simp add: kubelets_report_def came_up_def option.rel_refl)
next
  case (Cons a ns)
  define w1 where "w1 = snd (http N (\<lambda>_ _. PUT_PodStatus np a (Some running_status)) w)"
  have w1: "kubelets_report N np (a # ns) t w = kubelets_report N np ns t w1" by (simp add: kubelets_report_def w1_def)
  note r = report_one [OF Cons.prems assms(2) w1_def]
  have "came_up {a} (pod_of (stored w) np) (pod_of (stored w1) np)"
    unfolding r(2) by (rule came_up_one) (simp_all add: running_status_def)
  from came_up_trans [OF this] Cons.IH [OF r(1)] r(3) show ?case unfolding w1 by force
qed

lemma report_lets_pods_start: "no_slash np \<Longrightarrow> lets_pods_start stored np (set ns) av (kubelets_report N np ns)"
  unfolding lets_pods_start_def
proof (intro allI impI conjI ballI)
  fix t w n
  assume np: "no_slash np" and c: "consistent (stored w)"
  note r = report_all [OF c np, of ns t]
  show "consistent (stored (kubelets_report N np ns t w))" using r by blast
  show "stores_subset (stored (kubelets_report N np ns t w)) np av ps \<Longrightarrow> stores_subset (stored w) np av ps" for ps using r by simp
  assume "n \<in> set ns"
  moreover have "came_up (set ns) (pod_of (stored w) np) (pod_of (stored (kubelets_report N np ns t w)) np)" using r by blast
  ultimately show "case pod_of (stored w) np n of None \<Rightarrow> pod_of (stored (kubelets_report N np ns t w)) np n = None
      | Some p \<Rightarrow> running (stored (kubelets_report N np ns t w)) np n \<and> has_spec (Pod_Spec p) (stored (kubelets_report N np ns t w)) np n"
    unfolding came_up_def running_def has_spec_def by (auto split: option.split dest!: spec [of _ n] simp: option_rel_Some1 option_rel_Some2)
qed

text \<open>The whole update.\<close>

lemma update_on_course:
  fixes ru service pods np
  defines "NS \<equiv> set (names pods)" and "av \<equiv> Name (Svc_Meta service) @ ''-available''" and "spec \<equiv> NewPodSpec (RU_Spec ru)"
  assumes sleep: "lets_pods_start stored np NS av sleep" and np: "no_slash np" "np \<noteq> ''''" "np = Namespace (RU_Meta ru)"
    and dist: "distinct (names pods)" and pods: "\<forall>pod\<in>set pods. Name (Pod_Meta pod) \<noteq> '''' \<and> Namespace (Pod_Meta pod) = np"
    and o: "on_course spec np av NS {} (stored w)"
    and run: "rollingUpdateWorkerLoop (watch_net N) (watch_pause sleep) ru service pods (w, []) = (w', ws)"
  shows "w' = rollingUpdateWorkerLoop N sleep ru service pods w"
    "v \<in> set ws \<Longrightarrow> \<exists>Up \<subseteq> NS. MinimumAlive (RU_Spec ru) \<le> int (card Up) \<and> on_course spec np av Up {} (stored v)"
    "0 < updateNum ru pods \<Longrightarrow> fst (until_error (update_do N sleep ru) (setup_calls ru service) w) = None \<Longrightarrow>
      on_course spec np av NS NS (stored w')"
proof -
  let ?f = "update_do N sleep ru" and ?n = "nat (updateNum ru pods)"
  let ?w1 = "log_errors ?f (setup_calls ru service) w"
  obtain ws' where watch: "rollingUpdateWorkerLoop (watch_net N) (watch_pause sleep) ru service pods (w, []) =
      (rollingUpdateWorkerLoop N sleep ru service pods w, ws')"
    "\<And>v. v \<in> set ws' \<Longrightarrow> 0 < updateNum ru pods \<and> (v \<in> set (call_worlds ?f (setup_calls ru service) w) \<or>
      fst (until_error ?f (setup_calls ru service) w) = None \<and>
      v \<in> set (call_worlds ?f (batches ru service pods ?n 0 @ final_calls ru service) ?w1))"
    by (rule watch_update [of N sleep ru service pods w]) blast
  with run show w': "w' = rollingUpdateWorkerLoop N sleep ru service pods w" by simp
  have len: "card NS = length pods" using dist distinct_card by (fastforce simp: NS_def names_def)
  note s = setup_on_course [OF np o [unfolded av_def], of sleep, folded av_def]
  have c: "consistent (stored ?w1)"
    using s(1) o by (cases "setup_calls ru service") (auto simp: setup_calls_def on_course_def)
  have o1: "on_course spec np av NS (set (names (take 0 pods))) (stored ?w1)"
  proof (rule on_course_keep [of _ _ _ _ _ "stored w"])
    show "set ps \<subseteq> NS \<or> stores_subset (stored w) np av ps" if "stores_subset (stored ?w1) np av ps" for ps
      using s(3) [OF that] by simp
  qed (use o c s(2) in \<open>simp_all add: names_def\<close>)
  show "\<exists>Up \<subseteq> NS. MinimumAlive (RU_Spec ru) \<le> int (card Up) \<and> on_course spec np av Up {} (stored v)" if "v \<in> set ws"
  proof -
    have "v \<in> set ws'" using that run watch(1) by simp
    note v = watch(2) [OF this]
    then have n: "0 < updateNum ru pods" by simp
    note b = batches_on_course [OF sleep [unfolded NS_def av_def] np dist pods, of ?n 0, folded NS_def av_def spec_def, OF _ o1]
    have small: "MinimumAlive (RU_Spec ru) \<le> int k" if "length pods - ?n \<le> k" for k
      using that n by (simp add: updateNum_def)
    from v consider "v \<in> set (call_worlds ?f (setup_calls ru service) w)" | "v \<in> set (call_worlds ?f (batches ru service pods ?n 0) ?w1)"
      | "v \<in> set (call_worlds ?f (final_calls ru service) (log_errors ?f (batches ru service pods ?n 0) ?w1))" by auto
    then show ?thesis
    proof cases
      case 1
      with s(1) small [of "card NS"] len show ?thesis by (intro exI [of _ NS]) simp
    next
      case 2
      with b n small show ?thesis by (metis zero_less_nat_eq)
    next
      case 3
      with final_on_course(1) [OF np(1,3), of _ service NS NS] b n have "on_course spec np av NS NS (stored v)"
        unfolding av_def by (metis zero_less_nat_eq)
      with small [of "card NS"] len show ?thesis by (intro exI [of _ NS]) (auto intro: on_course_weaken)
    qed
  qed
  show "on_course spec np av NS NS (stored w')" if n: "0 < updateNum ru pods" and
    ok: "fst (until_error ?f (setup_calls ru service) w) = None"
  proof -
    have "w' = log_errors ?f (final_calls ru service) (log_errors ?f (batches ru service pods ?n 0) ?w1)"
      using n ok until_error_None [of ?f "setup_calls ru service" w]
      by (cases "until_error ?f (setup_calls ru service) w") (simp add: w' rollingUpdateWorkerLoop_def)
    with batches_on_course [OF sleep [unfolded NS_def av_def] np dist pods, of ?n 0, folded NS_def av_def spec_def, OF _ o1] n
      final_on_course(2) [OF np(1,3), of _ service NS NS] show ?thesis unfolding av_def by simp
  qed
qed

end

interpretation fresh_update: update_network fresh_net calm_env fst map_of
  by unfold_locales (rule fresh.net.http_fresh)

section \<open>The property\<close>

lemma served_consistent: "reliable_etcd E view \<Longrightarrow> well_served E view h v \<Longrightarrow> consistent (view v)"
  using etcd_server.served_typed reliable_etcd.well_served_indexed
  by (metis consistent_def reliable_etcd_def well_served_served)

lemma on_course_start:
  assumes "consistent V" "\<forall>pod\<in>set pods. running V np (Name (Pod_Meta pod))"
    "\<forall>ps. stores_subset V np av ps \<longrightarrow> set ps \<subseteq> set (names pods)"
  shows "on_course spec np av (set (names pods)) {} V"
  using assms by (simp add: on_course_def names_def)

lemma on_course_running:
  assumes "on_course spec np av Up New V" "Up \<subseteq> NS" "finite NS" "k \<le> int (card Up)"
  shows "k \<le> int (card {n \<in> NS. running V np n})" "stores_subset V np av ps \<Longrightarrow> n \<in> set ps \<Longrightarrow> running V np n"
proof -
  have "Up \<subseteq> {n \<in> NS. running V np n}" using assms(1,2) by (auto simp: on_course_def)
  then have "card Up \<le> card {n \<in> NS. running V np n}" by (rule card_mono [rotated]) (simp add: assms(3))
  with assms(4) show "k \<le> int (card {n \<in> NS. running V np n})" by linarith
  show "stores_subset V np av ps \<Longrightarrow> n \<in> set ps \<Longrightarrow> running V np n" using assms(1) unfolding on_course_def by blast
qed

text \<open>
  C36. A rolling update keeps the service alive. The goroutine runs against the served registry, over a network that delivers
  and an etcd that works; the pods of the service run when it starts, and the rest of the cluster does as it likes during the
  pauses, as long as they are long enough for the pods that there are to come up. After every call and every pause at least
  \<open>MinimumAlive\<close> of the pods run, and the pods of the stored subset that the virtual service sends the traffic to all run; when
  the update gets to its batches, every pod runs in the end with the new specification. The worlds after the calls and
  pauses are those that \<open>watch_net\<close> and \<open>watch_pause\<close> write down.
\<close>

theorem rolling_update_keeps_alive:
  fixes ru service
  defines "np \<equiv> Namespace (RU_Meta ru)" and "available \<equiv> Name (Svc_Meta service) @ ''-available''"
  assumes N: "update_network N E state view" and h: "well_served E view h (state w)"
    and np: "no_slash np" "np \<noteq> ''''" and d: "distinct (names pods)"
    and pods: "\<forall>pod\<in>set pods. Name (Pod_Meta pod) \<noteq> '''' \<and> Namespace (Pod_Meta pod) = np \<and>
      running (view (state w)) np (Name (Pod_Meta pod))"
    and sub: "\<forall>ps. stores_subset (view (state w)) np available ps \<longrightarrow> set ps \<subseteq> set (names pods)"
    and sleep: "lets_pods_start (\<lambda>v. view (state v)) np (set (names pods)) available sleep"
    and run: "rollingUpdateWorkerLoop (watch_net N) (watch_pause sleep) ru service pods (w, []) = (w', worlds)"
  shows "w' = rollingUpdateWorkerLoop N sleep ru service pods w \<and>
    (\<forall>v\<in>set worlds. MinimumAlive (RU_Spec ru) \<le> int (card {n \<in> set (names pods). running (view (state v)) np n}) \<and>
      (\<forall>ps. stores_subset (view (state v)) np available ps \<longrightarrow> (\<forall>n\<in>set ps. running (view (state v)) np n))) \<and>
    (0 < updateNum ru pods \<and> fst (until_error (update_do N sleep ru) (setup_calls ru service) w) = None \<longrightarrow>
      (\<forall>n\<in>set (names pods). running (view (state w')) np n \<and> has_spec (NewPodSpec (RU_Spec ru)) (view (state w')) np n))"
proof -
  have "consistent (view (state w))" using N h by (auto simp: update_network_def mesh_def intro: served_consistent)
  then have o: "on_course (NewPodSpec (RU_Spec ru)) np available (set (names pods)) {} (view (state w))"
    using pods sub by (blast intro: on_course_start)
  have p: "\<forall>pod\<in>set pods. Name (Pod_Meta pod) \<noteq> '''' \<and> Namespace (Pod_Meta pod) = np" using pods by blast
  note u = update_network.update_on_course [OF N sleep [unfolded available_def] np np_def [THEN meta_eq_to_obj_eq] d p
    o [unfolded available_def] run, folded available_def]
  show ?thesis
  proof (intro conjI ballI allI impI)
    fix v
    assume "v \<in> set worlds"
    with u(2) obtain Up where "Up \<subseteq> set (names pods)" "MinimumAlive (RU_Spec ru) \<le> int (card Up)"
      "on_course (NewPodSpec (RU_Spec ru)) np available Up {} (view (state v))" by blast
    note r = on_course_running [OF this(3,1) _ this(2)]
    show "MinimumAlive (RU_Spec ru) \<le> int (card {n \<in> set (names pods). running (view (state v)) np n})" using r(1) by simp
    show "running (view (state v)) np n" if "stores_subset (view (state v)) np available ps" "n \<in> set ps" for ps n
      using r(2) that by simp
  qed (use u(1,3) in \<open>auto simp: on_course_def\<close>)
qed

text \<open>Three pods of a service, two of which may be down at a time; the kubelets report in the pauses.\<close>

definition update_run :: "(request \<times> reply list) list \<times> (string, document) gomap" where
  "update_run = serve_all calm_env
     ([POST_Pod ''default'' (Some (mesh_pod i)) (''u'' @ dec i) 1. i \<leftarrow> [1, 2, 3]]
      @ [PUT_PodStatus ''default'' (''p'' @ dec i) (Some running_status). i \<leftarrow> [1, 2, 3]]
      @ [POST_Service ''default'' (Some mesh_service) ''s'' 2, POST_RollingUpdate ''default'' (Some mesh_update) 3 ''r'']) ([], [])"

lemma update_run_served: "well_served calm_env map_of (fst update_run) (snd update_run)"
proof -
  have "well_all calm_env map_of
     ([POST_Pod ''default'' (Some (mesh_pod i)) (''u'' @ dec i) 1. i \<leftarrow> [1, 2, 3]]
      @ [PUT_PodStatus ''default'' (''p'' @ dec i) (Some running_status). i \<leftarrow> [1, 2, 3]]
      @ [POST_Service ''default'' (Some mesh_service) ''s'' 2, POST_RollingUpdate ''default'' (Some mesh_update) 3 ''r'']) []"
    by code_simp
  then show ?thesis unfolding update_run_def by (rule well_served_run [rotated]) simp
qed

abbreviation update_pause :: "int \<Rightarrow> (string, document) gomap \<times> metricsDb \<Rightarrow> (string, document) gomap \<times> metricsDb" where
  "update_pause \<equiv> kubelets_report fresh_net ''default'' [''p1'', ''p2'', ''p3'']"

lemma update_run_starts:
  "fst (until_error (update_do fresh_net update_pause mesh_update) (setup_calls mesh_update mesh_service) (snd update_run, Map.empty)) = None"
  by code_simp

theorem rolling_update_keeps_alive_witness:
  "\<exists>w' worlds. rollingUpdateWorkerLoop (watch_net fresh_net) (watch_pause update_pause) mesh_update mesh_service (map mesh_pod [1, 2, 3])
      ((snd update_run, Map.empty), []) = (w', worlds) \<and>
    list_all (\<lambda>v. 1 \<le> int (card {n \<in> {''p1'', ''p2'', ''p3''}. running (map_of (fst v)) ''default'' n})) worlds \<and>
    has_spec zero_PodSpec (map_of (fst w')) ''default'' ''p1'' \<and> running (map_of (fst w')) ''default'' ''p1''"
proof -
  obtain w' worlds where run: "rollingUpdateWorkerLoop (watch_net fresh_net) (watch_pause update_pause) mesh_update mesh_service
      (map mesh_pod [1, 2, 3]) ((snd update_run, Map.empty), []) = (w', worlds)" by fastforce
  have ru: "Namespace (RU_Meta mesh_update) = ''default''" "MinimumAlive (RU_Spec mesh_update) = 1"
    "NewPodSpec (RU_Spec mesh_update) = zero_PodSpec" by (simp_all add: mesh_update_def)
  have names: "names (map mesh_pod [1, 2, 3]) = [''p1'', ''p2'', ''p3'']" "updateNum mesh_update (map mesh_pod [1, 2, 3]) = 2" by code_simp+
  have pods: "\<forall>pod\<in>set (map mesh_pod [1, 2, 3]). Name (Pod_Meta pod) \<noteq> '''' \<and> Namespace (Pod_Meta pod) = ''default'' \<and>
      running (map_of (fst (snd update_run, Map.empty))) ''default'' (Name (Pod_Meta pod))" by code_simp
  have "map_of (snd update_run) (ns_key ''default'' ''subsets'' (Name (Svc_Meta mesh_service) @ ''-available'')) = None" by code_simp
  then have sub: "\<forall>ps. stores_subset (map_of (fst (snd update_run, Map.empty))) ''default'' (Name (Svc_Meta mesh_service) @ ''-available'') ps \<longrightarrow>
      set ps \<subseteq> set (names (map mesh_pod [1, 2, 3]))" by (simp add: stores_subset_def)
  have np: "no_slash ''default''" by code_simp
  have d: "distinct (names (map mesh_pod [1, 2, 3]))" unfolding names by simp
  have sleep: "lets_pods_start (\<lambda>v. map_of (fst v)) ''default'' (set (names (map mesh_pod [1, 2, 3])))
      (Name (Svc_Meta mesh_service) @ ''-available'') update_pause"
    unfolding names by (rule fresh_update.report_lets_pods_start [OF np])
  note alive = rolling_update_keeps_alive [where ru = mesh_update and service = mesh_service and pods = "map mesh_pod [1, 2, 3]" and
    sleep = update_pause and w = "(snd update_run, Map.empty)" and h = "fst update_run", unfolded ru,
    OF fresh_update.update_network_axioms _ np _ d pods sub sleep run]
  from alive update_run_served update_run_starts names run show ?thesis by (auto simp: list_all_iff)
qed

end
