(* ===== verification/Kubectl.thy ===== *)
theory Kubectl
  imports Kubelet_Runtime
begin

text \<open>
  The command line \<open>kubectl\<close>: its client \<open>pkg/kubectl/client/client.go\<close>, the parsing of
  \<open>pkg/kubectl/utils/parse.go\<close> and the commands of \<open>pkg/kubectl/cmd\<close>. A command maps the world behind the
  network to what it prints and the world afterwards; a table is its header and its rows, which the
  package \<open>tablewriter\<close> lays out. Files, YAML and the decoding of JSON into each type are the record
  \<open>codec\<close>. What \<open>%v\<close> makes of floats and of pointers inside structures (their addresses) is the record
  \<open>printer\<close>. The options and arguments arrive as \<open>cobra\<close> hands them over.
\<close>

section \<open>Parsing\<close>

text \<open>An entry of a YAML document: a text or anything else.\<close>

datatype 'y yaml = Text string | Other 'y

record 'y codec =
  ReadFile :: "string \<Rightarrow> string + string"
  yaml_Unmarshal :: "string \<Rightarrow> string + (string, 'y yaml) gomap"
  yaml_Marshal :: "(string, 'y yaml) gomap \<Rightarrow> string + string"
  json_of_map :: "(string, 'y yaml) gomap \<Rightarrow> string + string"
  map_of_json :: "string \<Rightarrow> string + (string, 'y yaml) gomap"
  as_Pod :: "string \<Rightarrow> string + Pod"
  as_Service :: "string \<Rightarrow> string + Service"
  as_ReplicaSet :: "string \<Rightarrow> string + ReplicaSet"
  as_HPA :: "string \<Rightarrow> string + HorizontalPodAutoscaler"
  as_VirtualService :: "string \<Rightarrow> string + VirtualService"
  as_Subset :: "string \<Rightarrow> string + Subset"
  as_DNS :: "string \<Rightarrow> string + DNS"
  as_RollingUpdate :: "string \<Rightarrow> string + RollingUpdate"

definition JSON2YAML :: "'y codec \<Rightarrow> string \<Rightarrow> string + string" where
  "JSON2YAML C jsonBytes = (case map_of_json C jsonBytes of
     Inl e \<Rightarrow> Inl e
   | Inr intermediate \<Rightarrow> (case yaml_Marshal C intermediate of Inl e \<Rightarrow> Inl e | Inr yamlBytes \<Rightarrow> Inr yamlBytes))"

definition YAML2JSON :: "'y codec \<Rightarrow> string \<Rightarrow> string + string" where
  "YAML2JSON C yamlBytes = (case yaml_Unmarshal C yamlBytes of
     Inl e \<Rightarrow> Inl e
   | Inr intermediate \<Rightarrow> (case json_of_map C intermediate of Inl e \<Rightarrow> Inl e | Inr jsonBytes \<Rightarrow> Inr jsonBytes))"

definition JSON2Pod :: "'y codec \<Rightarrow> string \<Rightarrow> string + Pod" where
  "JSON2Pod C jsonBytes = (case as_Pod C jsonBytes of Inl e \<Rightarrow> Inl e | Inr pod \<Rightarrow> Inr pod)"

text \<open>A kind that is no text fails the type assertion, which panics.\<close>

definition GetKind :: "'y codec \<Rightarrow> string \<Rightarrow> string outcome" where
  "GetKind C content = (case yaml_Unmarshal C content of
     Inl e \<Rightarrow> Returns ''''
   | Inr intermediate \<Rightarrow> (case map_of intermediate ''kind'' of
       None \<Rightarrow> Returns ''''
     | Some (Text kind) \<Rightarrow> Returns kind
     | Some (Other _) \<Rightarrow> Crashes))"

section \<open>The client of its own\<close>

text \<open>The bytes of the file are sent as they are, and the server decodes them as the client has.\<close>

definition kubectl_AddPod :: "'y codec \<Rightarrow> 'w net \<Rightarrow> string \<Rightarrow> 'w \<Rightarrow> error \<times> 'w" where
  "kubectl_AddPod C N jsonBytes w = (case JSON2Pod C jsonBytes of
     Inl e \<Rightarrow> (Some e, w)
   | Inr pod \<Rightarrow> let namespace = (if Namespace (Pod_Meta pod) = '''' then ''default'' else Namespace (Pod_Meta pod)) in
       call_status N (POST_Pod namespace (Some pod)) StatusCreated ''error: '' w)"

definition kubectl_DeletePod :: "'w net \<Rightarrow> string \<Rightarrow> string \<Rightarrow> 'w \<Rightarrow> error \<times> 'w" where
  "kubectl_DeletePod N name namespace = call_status N (\<lambda>_ _. DELETE_Pod namespace name) StatusOK ''delete pod error: ''"

definition kubectl_GetPods :: "'w net \<Rightarrow> 'w \<Rightarrow> (Pod list \<times> error) \<times> 'w" where
  "kubectl_GetPods N = call_data N (\<lambda>_ _. GET_AllPods) StatusOK []
     (\<lambda>b. case b of DataPods xs \<Rightarrow> Some (map wire_Pod xs) | _ \<Rightarrow> None) ''get pods failed, error: ''"

section \<open>Commands\<close>

datatype out = Line string | Table "string list" "string list list"

type_synonym 'w command = "'w \<Rightarrow> out list outcome \<times> 'w"

text \<open>The wrappers around the calls print the error, if there is one.\<close>

definition report :: "('w \<Rightarrow> error \<times> 'w) \<Rightarrow> 'w \<Rightarrow> out list \<times> 'w" where
  "report call w = (case call w of (err, w') \<Rightarrow> (case err of None \<Rightarrow> [] | Some e \<Rightarrow> [Line e], w'))"

definition nothing_done :: "out list \<Rightarrow> 'w command" where
  "nothing_done out w = (Returns out, w)"

subsection \<open>apply\<close>

definition applyPod :: "'w net \<Rightarrow> Pod \<Rightarrow> 'w \<Rightarrow> out list \<times> 'w" where
  "applyPod N pod = report (client_AddPod N pod)"

definition applyService :: "'w net \<Rightarrow> Service \<Rightarrow> 'w \<Rightarrow> out list \<times> 'w" where
  "applyService N service = report (client_AddService N service)"

definition applyReplicaSet :: "'w net \<Rightarrow> ReplicaSet \<Rightarrow> 'w \<Rightarrow> out list \<times> 'w" where
  "applyReplicaSet N replicaSet = report (client_AddReplicaSet N replicaSet)"

definition applyHPAScaler :: "'w net \<Rightarrow> HorizontalPodAutoscaler \<Rightarrow> 'w \<Rightarrow> out list \<times> 'w" where
  "applyHPAScaler N hpa = report (client_AddHPAScaler N hpa)"

definition applyVirtualService :: "'w net \<Rightarrow> VirtualService \<Rightarrow> 'w \<Rightarrow> out list \<times> 'w" where
  "applyVirtualService N virtualService = report (client_AddVirtualService N virtualService)"

definition applySubset :: "'w net \<Rightarrow> Subset \<Rightarrow> 'w \<Rightarrow> out list \<times> 'w" where
  "applySubset N sset = report (client_AddSubset N sset)"

definition applyDNS :: "'w net \<Rightarrow> DNS \<Rightarrow> 'w \<Rightarrow> out list \<times> 'w" where
  "applyDNS N dns = report (client_AddDNS N dns)"

definition applyRolingUpdate :: "'w net \<Rightarrow> RollingUpdate \<Rightarrow> 'w \<Rightarrow> out list \<times> 'w" where
  "applyRolingUpdate N rol = report (client_AddRollingUpdate N rol)"

text \<open>One case of the switch: announce, decode, call, confirm.\<close>

definition apply_case :: "string \<Rightarrow> (string \<Rightarrow> string + 'a) \<Rightarrow> ('a \<Rightarrow> 'w \<Rightarrow> out list \<times> 'w) \<Rightarrow> string \<Rightarrow> 'w \<Rightarrow> out list \<times> 'w" where
  "apply_case what decode act jsonBytes w = (case decode jsonBytes of
     Inl e \<Rightarrow> ([Line (''Apply '' @ what), Line e], w)
   | Inr generated \<Rightarrow> (case act generated w of (out, w') \<Rightarrow>
       (Line (''Apply '' @ what) # out @ [Line (what @ '' Applied'')], w')))"

definition apply_kind :: "'y codec \<Rightarrow> 'w net \<Rightarrow> string \<Rightarrow> string \<Rightarrow> 'w \<Rightarrow> out list \<times> 'w" where
  "apply_kind C N kind jsonBytes =
     (if kind = ''Pod'' then apply_case ''Pod'' (as_Pod C) (applyPod N) jsonBytes
      else if kind = ''Service'' then apply_case ''Service'' (as_Service C) (applyService N) jsonBytes
      else if kind = ''ReplicaSet'' then apply_case ''ReplicaSet'' (as_ReplicaSet C) (applyReplicaSet N) jsonBytes
      else if kind = ''HorizontalPodAutoscaler'' then
        apply_case ''HorizontalPodAutoscaler'' (as_HPA C) (applyHPAScaler N) jsonBytes
      else if kind = ''VirtualService'' then
        apply_case ''VirtualService'' (as_VirtualService C) (applyVirtualService N) jsonBytes
      else if kind = ''Subset'' then apply_case ''Subset'' (as_Subset C) (applySubset N) jsonBytes
      else if kind = ''DNS'' then apply_case ''DNS'' (as_DNS C) (applyDNS N) jsonBytes
      else if kind = ''RollingUpdate'' then
        apply_case ''Rolling Update'' (as_RollingUpdate C) (applyRolingUpdate N) jsonBytes
      else Pair [])"

text \<open>What \<open>apply\<close> and \<open>delete\<close> do with a file before they look at its kind.\<close>

definition with_file :: "'y codec \<Rightarrow> string \<Rightarrow> (string \<Rightarrow> string \<Rightarrow> 'w \<Rightarrow> out list \<times> 'w) \<Rightarrow> 'w command" where
  "with_file C filename act w = (case ReadFile C filename of
     Inl e \<Rightarrow> (Returns [Line e], w)
   | Inr content \<Rightarrow> (case GetKind C content of
       Crashes \<Rightarrow> (Crashes, w)
     | Returns kind \<Rightarrow>
         if kind = '''' then (Returns [Line ''kind not found''], w)
         else (case YAML2JSON C content of
             Inl e \<Rightarrow> (Returns [Line e], w)
           | Inr jsonBytes \<Rightarrow> (case act kind jsonBytes w of (out, w') \<Rightarrow>
               (Returns (Line (''get json: '' @ jsonBytes) # out), w')))))"

definition apply_file :: "'y codec \<Rightarrow> 'w net \<Rightarrow> string \<Rightarrow> 'w command" where
  "apply_file C N filename = with_file C filename (apply_kind C N)"

definition applyCmd :: "'y codec \<Rightarrow> 'w net \<Rightarrow> string \<Rightarrow> 'w command" where
  "applyCmd C N filename =
     (if filename = '''' then nothing_done [Line ''Usage: kubectl apply -f [filename]''] else apply_file C N filename)"

subsection \<open>delete\<close>

definition kubectl_deletePod :: "'w net \<Rightarrow> string \<Rightarrow> string \<Rightarrow> 'w \<Rightarrow> out list \<times> 'w" where
  "kubectl_deletePod N podName nameSpace = report (kubectl_DeletePod N podName nameSpace)"

definition deleteService :: "'w net \<Rightarrow> string \<Rightarrow> string \<Rightarrow> 'w \<Rightarrow> out list \<times> 'w" where
  "deleteService N serviceName nameSpace = report (client_DeleteService N serviceName nameSpace)"

definition deleteHPA :: "'w net \<Rightarrow> string \<Rightarrow> string \<Rightarrow> 'w \<Rightarrow> out list \<times> 'w" where
  "deleteHPA N hpaName nameSpace = report (client_DeleteHPAScaler N hpaName nameSpace)"

definition deleteReplicaSet :: "'w net \<Rightarrow> string \<Rightarrow> string \<Rightarrow> 'w \<Rightarrow> out list \<times> 'w" where
  "deleteReplicaSet N replicaSetName nameSpace = report (client_DeleteReplicaSet N replicaSetName nameSpace)"

definition deleteVirtualService :: "'w net \<Rightarrow> string \<Rightarrow> string \<Rightarrow> 'w \<Rightarrow> out list \<times> 'w" where
  "deleteVirtualService N vsName nameSpace = report (client_DeleteVirtualServiceByNameNp N vsName nameSpace)"

definition deleteSubset :: "'w net \<Rightarrow> string \<Rightarrow> string \<Rightarrow> 'w \<Rightarrow> out list \<times> 'w" where
  "deleteSubset N subsetName nameSpace = report (client_DeleteSubsetByNameNp N subsetName nameSpace)"

definition deleteDNS :: "'w net \<Rightarrow> string \<Rightarrow> string \<Rightarrow> 'w \<Rightarrow> out list \<times> 'w" where
  "deleteDNS N dnsName nameSpace = report (client_DeleteDNS N dnsName nameSpace)"

definition deleteRollingUpdate :: "'w net \<Rightarrow> string \<Rightarrow> string \<Rightarrow> 'w \<Rightarrow> out list \<times> 'w" where
  "deleteRollingUpdate N rollingUpdateName nameSpace = report (client_DeleteRollingUpdate N rollingUpdateName nameSpace)"

text \<open>One case of the switch over the kinds: announce, decode, check the name, call, confirm.\<close>

definition delete_case :: "string \<Rightarrow> string \<Rightarrow> (string \<Rightarrow> string + 'a) \<Rightarrow> ('a \<Rightarrow> ObjectMeta) \<Rightarrow>
    (string \<Rightarrow> string \<Rightarrow> 'w \<Rightarrow> out list \<times> 'w) \<Rightarrow> string \<Rightarrow> 'w \<Rightarrow> out list \<times> 'w" where
  "delete_case what short decode meta act jsonBytes w = (case decode jsonBytes of
     Inl e \<Rightarrow> ([Line (''Delete '' @ what), Line e], w)
   | Inr generated \<Rightarrow>
       if Name (meta generated) = '''' then ([Line (''Delete '' @ what), Line (short @ '' name not found'')], w)
       else let nameSpace = (if Namespace (meta generated) = '''' then ''default'' else Namespace (meta generated)) in
         (case act (Name (meta generated)) nameSpace w of (out, w') \<Rightarrow>
           (Line (''Delete '' @ what) # out @ [Line (what @ '' Deleted'')], w')))"

definition delete_kind :: "'y codec \<Rightarrow> 'w net \<Rightarrow> string \<Rightarrow> string \<Rightarrow> 'w \<Rightarrow> out list \<times> 'w" where
  "delete_kind C N kind jsonBytes =
     (if kind = ''Pod'' then delete_case ''Pod'' ''Pod'' (as_Pod C) Pod_Meta (kubectl_deletePod N) jsonBytes
      else if kind = ''Service'' then
        delete_case ''Service'' ''Service'' (as_Service C) Svc_Meta (deleteService N) jsonBytes
      else if kind = ''ReplicaSet'' then
        delete_case ''ReplicaSet'' ''ReplicaSet'' (as_ReplicaSet C) RS_Meta (deleteReplicaSet N) jsonBytes
      else if kind = ''HorizontalPodAutoscaler'' then
        delete_case ''HorizontalPodAutoscaler'' ''HPA'' (as_HPA C) HPA_Meta (deleteHPA N) jsonBytes
      else if kind = ''VirtualService'' then
        delete_case ''VirtualService'' ''VirtualService'' (as_VirtualService C) VS_Meta (deleteVirtualService N) jsonBytes
      else if kind = ''Subset'' then
        delete_case ''Subset'' ''Subset'' (as_Subset C) Subset_Meta (deleteSubset N) jsonBytes
      else if kind = ''DNS'' then delete_case ''DNS'' ''DNS'' (as_DNS C) DNS_Meta (deleteDNS N) jsonBytes
      else if kind = ''RollingUpdate'' then
        delete_case ''RollingUpdate'' ''RollingUpdate'' (as_RollingUpdate C) RU_Meta (deleteRollingUpdate N) jsonBytes
      else Pair [])"

definition deleteFromYAML :: "'y codec \<Rightarrow> 'w net \<Rightarrow> string \<Rightarrow> 'w command" where
  "deleteFromYAML C N filename = with_file C filename (delete_kind C N)"

text \<open>
  The two forms without a file: the resource is called \<open>subset\<close> in the one with two arguments and
  \<open>subsets\<close> in the one with options. A resource that is none of these does nothing.
\<close>

definition delete_named :: "'w net \<Rightarrow> string \<Rightarrow> string \<Rightarrow> string \<Rightarrow> string \<Rightarrow> 'w \<Rightarrow> out list \<times> 'w" where
  "delete_named N subset_word resource name namespace =
     (if resource = ''pod'' then kubectl_deletePod N name namespace
      else if resource = ''service'' then deleteService N name namespace
      else if resource = ''hpa'' then deleteHPA N name namespace
      else if resource = ''replicaset'' then deleteReplicaSet N name namespace
      else if resource = ''virtualservice'' then deleteVirtualService N name namespace
      else if resource = subset_word then deleteSubset N name namespace
      else if resource = ''dns'' then deleteDNS N name namespace
      else if resource = ''rollingupdate'' then deleteRollingUpdate N name namespace
      else Pair [])"

record options =
  opt_file :: string
  opt_namespace :: string
  opt_name :: string

definition returned :: "('w \<Rightarrow> out list \<times> 'w) \<Rightarrow> 'w command" where
  "returned f w = (case f w of (out, w') \<Rightarrow> (Returns out, w'))"

definition deleteCommand :: "'y codec \<Rightarrow> 'w net \<Rightarrow> options \<Rightarrow> string list \<Rightarrow> 'w command" where
  "deleteCommand C N opts args w =
     (if opt_file opts \<noteq> '''' then (case deleteFromYAML C N (opt_file opts) w of
         (Crashes, w') \<Rightarrow> (Crashes, w')
       | (Returns out, w') \<Rightarrow> (Returns (Line (''Delete from file:  '' @ opt_file opts) # out), w'))
      else (case args of
         [resource, name] \<Rightarrow> returned (delete_named N ''subset'' resource name ''default'') w
       | [resource] \<Rightarrow>
           let namespace = (if opt_namespace opts = '''' then ''default'' else opt_namespace opts) in
           if opt_name opts = '''' then
             (Returns [Line ''Usage: kubectl delete [pod|service|hpa|replicaset] -np [namespace] -n [name]''], w)
           else returned (delete_named N ''subsets'' resource (opt_name opts) namespace) w
       | _ \<Rightarrow> (Returns [Line ''Invalid usage.''], w)))"

subsection \<open>get\<close>

text \<open>List the objects and show one row for each.\<close>

definition show_all :: "('w \<Rightarrow> ('a list \<times> error) \<times> 'w) \<Rightarrow> string list \<Rightarrow> ('a \<Rightarrow> string list) \<Rightarrow> 'w command" where
  "show_all list header row w = (case list w of ((xs, err), w') \<Rightarrow> (case err of
     Some e \<Rightarrow> (Returns [Line e], w')
   | None \<Rightarrow> (Returns [Table header (map row xs)], w')))"

text \<open>Texts one below the other, without the white space around them.\<close>

definition below :: "string list \<Rightarrow> string" where
  "below xs = TrimSpace (concat (map (\<lambda>x. x @ [CHR 10]) xs))"

definition getAllPods :: "'w net \<Rightarrow> 'w command" where
  "getAllPods N = show_all (client_GetAllPods N) [''Kind'', ''Namespace'', ''Name'', ''Phase'', ''IP'']
     (\<lambda>pod. [''pod'', Namespace (Pod_Meta pod), Name (Pod_Meta pod), Phase (Pod_Status pod), PodIP (Pod_Status pod)])"

definition getAllNodes :: "'w net \<Rightarrow> 'w command" where
  "getAllNodes N = show_all (client_GetAllNodes N) [''Kind'', ''Name'', ''IP'']
     (\<lambda>node. [''node'', Name (Node_Meta node), Address node])"

definition endpoint_text :: "SidecarEndpoints list \<Rightarrow> string" where
  "endpoint_text sidecarEPList = below (concat (map (\<lambda>sidecarEP.
     map (\<lambda>singleEP. Endpoint_IP singleEP @ '':'' @ dec_int (Endpoint_TargetPort singleEP)) (Endpoints sidecarEP)) sidecarEPList))"

text \<open>One row for each port; the table of the sidecars is read anew for each of them, and an error ends the command.\<close>

definition port_row :: "SidecarMapping \<Rightarrow> Service \<Rightarrow> ServicePort \<Rightarrow> string list" where
  "port_row allSidecarMap service svcPort =
     (let ip = ClusterIP (Svc_Spec service); sideCarMpKey = ip @ '':'' @ dec_int (Port svcPort) in
      [Namespace (Svc_Meta service) @ ''/'' @ Name (Svc_Meta service), ip, dec_int (Port svcPort),
       if Service_Type (Svc_Spec service) = ''NodePort'' then dec_int (NodePort svcPort) else ''N/A'',
       case map_of allSidecarMap sideCarMpKey of Some sidecarEPList \<Rightarrow> endpoint_text sidecarEPList | None \<Rightarrow> ''N/A'',
       ServicePort_Protocol svcPort])"

fun port_rows :: "'w net \<Rightarrow> (Service \<times> ServicePort) list \<Rightarrow> 'w \<Rightarrow> (string + string list list) \<times> 'w" where
  "port_rows N [] w = (Inr [], w)"
| "port_rows N ((service, svcPort) # ports) w = (case client_GetSidecarMapping N w of ((allSidecarMap, err), w1) \<Rightarrow>
     (case err of
       Some e \<Rightarrow> (Inl e, w1)
     | None \<Rightarrow> (case port_rows N ports w1 of
         (Inl e, w2) \<Rightarrow> (Inl e, w2)
       | (Inr rows, w2) \<Rightarrow> (Inr (port_row allSidecarMap service svcPort # rows), w2))))"

definition getAllServices :: "'w net \<Rightarrow> 'w command" where
  "getAllServices N w = (case client_GetAllServices N w of ((services, err), w1) \<Rightarrow> (case err of
     Some e \<Rightarrow> (Returns [Line e], w1)
   | None \<Rightarrow>
       let table = Table [''Kind'', ''Namespace'', ''Name'', ''ClusterIP''] (map (\<lambda>service.
             [''service'', Namespace (Svc_Meta service), Name (Svc_Meta service), ClusterIP (Svc_Spec service)]) services) in
       (case port_rows N (concat (map (\<lambda>service. map (Pair service) (Service_Ports (Svc_Spec service))) services)) w1 of
         (Inl e, w2) \<Rightarrow> (Returns [table, Line e], w2)
       | (Inr rows, w2) \<Rightarrow> (Returns [table,
           Table [''Name/Service'', ''ClusterIP'', ''Port'', ''NodePort'', ''Endpoint'', ''Protocol''] rows], w2))))"

text \<open>The autoscalers with the number of replicas of their replica sets; an error ends the command.\<close>

fun hpa_rows :: "'w net \<Rightarrow> HorizontalPodAutoscaler list \<Rightarrow> 'w \<Rightarrow> (string + string list list) outcome \<times> 'w" where
  "hpa_rows N [] w = (Returns (Inr []), w)"
| "hpa_rows N (hpa # hpas) w =
     (case client_GetReplicaSet N (Ref_Name (ScaleTargetRef (HPA_Spec hpa))) (Namespace (HPA_Meta hpa)) w of
       ((_, Some e), w1) \<Rightarrow> (Returns (Inl e), w1)
     | ((None, None), w1) \<Rightarrow> (Crashes, w1)
     | ((Some rps, None), w1) \<Rightarrow> (case hpa_rows N hpas w1 of
         (Returns (Inr rows), w2) \<Rightarrow> (Returns (Inr ([''hpa'', Namespace (HPA_Meta hpa), Name (HPA_Meta hpa),
           dec_int (MinReplicas (HPA_Spec hpa)), dec_int (MaxReplicas (HPA_Spec hpa)),
           dec_int (Replicas (RS_Spec rps))] # rows)), w2)
       | r \<Rightarrow> r))"

definition getAllHPAScalers :: "'w net \<Rightarrow> 'w command" where
  "getAllHPAScalers N w = (case client_GetAllHPAScalers N w of ((hpas, err), w1) \<Rightarrow> (case err of
     Some e \<Rightarrow> (Returns [Line e], w1)
   | None \<Rightarrow> (case hpa_rows N hpas w1 of
       (Crashes, w2) \<Rightarrow> (Crashes, w2)
     | (Returns (Inl e), w2) \<Rightarrow> (Returns [Line e], w2)
     | (Returns (Inr rows), w2) \<Rightarrow> (Returns [Table
         [''Kind'', ''Namespace'', ''Name'', ''Min_Replicas'', ''Max_Replicas'', ''Current_Replicas''] rows], w2))))"

definition getAllReplicaSets :: "'w net \<Rightarrow> 'w command" where
  "getAllReplicaSets N = show_all (client_GetAllReplicaSets N) [''Kind'', ''Namespace'', ''Name'', ''Replicas'']
     (\<lambda>replicaset. [''replicaset'', Namespace (RS_Meta replicaset), Name (RS_Meta replicaset),
        dec_int (Replicas (RS_Spec replicaset))])"

definition getAllVirtualServices :: "'w net \<Rightarrow> 'w command" where
  "getAllVirtualServices N = show_all (client_GetAllVirtualServices N)
     [''Kind'', ''Namespace'', ''Name'', ''ServiceRef'', ''Port'', ''Subsets'']
     (\<lambda>virtualservice. [''virtualservice'', Namespace (VS_Meta virtualservice), Name (VS_Meta virtualservice),
        VS_ServiceRef (VS_Spec virtualservice), dec_int (VS_Port (VS_Spec virtualservice)),
        below (map VSS_Name (Subsets (VS_Spec virtualservice)))])"

definition getAllSubsets :: "'w net \<Rightarrow> 'w command" where
  "getAllSubsets N = show_all (client_GetAllSubsets N) [''Kind'', ''Namespace'', ''Name'', ''Pods'']
     (\<lambda>sset. [''subset'', Namespace (Subset_Meta sset), Name (Subset_Meta sset), below (Subset_Pods sset)])"

definition path_texts :: "DNSRule \<Rightarrow> string list" where
  "path_texts rule = map (\<lambda>dnsPath. Host rule @ Path dnsPath @ [CHR 10] @ '' --> '' @
     Backend_Name (Backend_Service dnsPath) @ '':'' @ dec_int (Backend_Port (Backend_Service dnsPath))) (Paths rule)"

definition getAllDNS :: "'w net \<Rightarrow> 'w command" where
  "getAllDNS N = show_all (client_GetAllDNS N) [''Kind'', ''Namespace'', ''Name'', ''Rules'']
     (\<lambda>dn. let texts = concat (map path_texts (Rules dn)) in
        [''dns'', Namespace (DNS_Meta dn), Name (DNS_Meta dn), if texts \<noteq> [] then below texts else ''N/A''])"

definition getAllRollingUpdate :: "'w net \<Rightarrow> 'w command" where
  "getAllRollingUpdate N = show_all (client_GetAllRollingUpdates N)
     [''Kind'', ''Namespace'', ''Name'', ''Status'', ''ServiceRef'', ''Port'', ''MinimumAlive'', ''Interval'']
     (\<lambda>ru. [''rollingupdate'', Namespace (RU_Meta ru), Name (RU_Meta ru), RU_Phase ru, RU_ServiceRef (RU_Spec ru),
        dec_int (RU_Port (RU_Spec ru)), dec_int (MinimumAlive (RU_Spec ru)), dec_int (Interval (RU_Spec ru))])"

definition getCommand :: "'w net \<Rightarrow> string list \<Rightarrow> 'w command" where
  "getCommand N args = (case args of
     [a] \<Rightarrow>
       if a \<in> {''pods'', ''pod''} then getAllPods N
       else if a \<in> {''nodes'', ''node''} then getAllNodes N
       else if a \<in> {''services'', ''service''} then getAllServices N
       else if a \<in> {''hpas'', ''hpa''} then getAllHPAScalers N
       else if a \<in> {''replicasets'', ''replicaset''} then getAllReplicaSets N
       else if a \<in> {''virtualservices'', ''virtualservice''} then getAllVirtualServices N
       else if a \<in> {''subsets'', ''subset''} then getAllSubsets N
       else if a = ''dns'' then getAllDNS N
       else if a \<in> {''rollingupdates'', ''rollingupdate''} then getAllRollingUpdate N
       else nothing_done []
   | _ \<Rightarrow> nothing_done [])"

subsection \<open>describe\<close>

record printer =
  print_metrics :: "ResourceMetricSource list \<Rightarrow> string"
  print_subsets :: "VirtualServiceSubset list \<Rightarrow> string"

text \<open>The verb \<open>%v\<close> for lists, structures and maps; the keys of a map are printed in order.\<close>

fun spaced :: "string list \<Rightarrow> string" where
  "spaced [] = ''''"
| "spaced [x] = x"
| "spaced (x # xs) = x @ '' '' @ spaced xs"

definition v_list :: "string list \<Rightarrow> string" where "v_list xs = ''['' @ spaced xs @ '']''"
definition v_struct :: "string list \<Rightarrow> string" where "v_struct xs = ''{'' @ spaced xs @ ''}''"

fun insert_entry :: "string \<times> string \<Rightarrow> (string \<times> string) list \<Rightarrow> (string \<times> string) list" where
  "insert_entry e [] = [e]"
| "insert_entry e (f # fs) = (if string_less (fst f) (fst e) then f # insert_entry e fs else e # f # fs)"

definition v_map :: "(string, string) gomap option \<Rightarrow> string" where
  "v_map m = ''map['' @ spaced (map (\<lambda>(k, v). k @ '':'' @ v)
     (foldr insert_entry (case m of None \<Rightarrow> [] | Some m \<Rightarrow> m) [])) @ '']''"

definition v_port :: "ServicePort \<Rightarrow> string" where
  "v_port p = v_struct [ServicePort_Name p, ServicePort_Protocol p, dec_int (Port p), dec_int (TargetPort p), dec_int (NodePort p)]"

definition v_selector :: "LabelSelector option \<Rightarrow> string" where
  "v_selector sel = (case sel of None \<Rightarrow> ''<nil>'' | Some s \<Rightarrow> ''&'' @ v_struct [v_map (MatchLabels s)])"

definition v_rule :: "DNSRule \<Rightarrow> string" where
  "v_rule r = v_struct [Host r, v_list (map (\<lambda>p. v_struct [Path p,
     v_struct [v_struct [Backend_Name (Backend_Service p), dec_int (Backend_Port (Backend_Service p))]]]) (Paths r))]"

text \<open>Read one object and show it. A reply without data is a nil pointer.\<close>

definition show_one :: "('w \<Rightarrow> ('a option \<times> error) \<times> 'w) \<Rightarrow> string list \<Rightarrow> ('a \<Rightarrow> string list) \<Rightarrow> 'w command" where
  "show_one read header row w = (case read w of ((x, err), w') \<Rightarrow> (case err of
     Some e \<Rightarrow> (Returns [Line e], w')
   | None \<Rightarrow> (case x of None \<Rightarrow> (Crashes, w') | Some y \<Rightarrow> (Returns [Table header [row y]], w'))))"

definition describePod :: "'w net \<Rightarrow> string \<Rightarrow> string \<Rightarrow> 'w command" where
  "describePod N name namespace = show_one (client_GetPod N name namespace) [''Name'', ''Namespace'', ''Phase'', ''IP'']
     (\<lambda>pod. [Name (Pod_Meta pod), Namespace (Pod_Meta pod), Phase (Pod_Status pod), PodIP (Pod_Status pod)])"

definition describeService :: "'w net \<Rightarrow> string \<Rightarrow> string \<Rightarrow> 'w command" where
  "describeService N name namespace = show_one (client_GetService N name namespace)
     [''Name'', ''Namespace'', ''ClusterIP'', ''Ports'']
     (\<lambda>service. [Name (Svc_Meta service), Namespace (Svc_Meta service), ClusterIP (Svc_Spec service),
        v_list (map v_port (Service_Ports (Svc_Spec service)))])"

definition describeHPA :: "printer \<Rightarrow> 'w net \<Rightarrow> string \<Rightarrow> string \<Rightarrow> 'w command" where
  "describeHPA P N name namespace = show_one (client_GetHPAScaler N name namespace)
     [''Name'', ''Namespace'', ''MinReplicas'', ''MaxReplicas'', ''Metrics'']
     (\<lambda>hpa. [Name (HPA_Meta hpa), Namespace (HPA_Meta hpa), dec_int (MinReplicas (HPA_Spec hpa)),
        dec_int (MaxReplicas (HPA_Spec hpa)), print_metrics P (HPA_Metrics (HPA_Spec hpa))])"

definition describeReplicaSet :: "'w net \<Rightarrow> string \<Rightarrow> string \<Rightarrow> 'w command" where
  "describeReplicaSet N name namespace = show_one (client_GetReplicaSet N name namespace)
     [''Name'', ''Namespace'', ''Replicas'', ''Selector'']
     (\<lambda>replicaSet. [Name (RS_Meta replicaSet), Namespace (RS_Meta replicaSet), dec_int (Replicas (RS_Spec replicaSet)),
        v_selector (RS_Selector (RS_Spec replicaSet))])"

definition describeVirtualService :: "printer \<Rightarrow> 'w net \<Rightarrow> string \<Rightarrow> string \<Rightarrow> 'w command" where
  "describeVirtualService P N name namespace = show_one (client_GetVirtualService N name namespace)
     [''Name'', ''Namespace'', ''ServiceRef'', ''Port'', ''Subsets'']
     (\<lambda>virtualService. [Name (VS_Meta virtualService), Namespace (VS_Meta virtualService),
        VS_ServiceRef (VS_Spec virtualService), dec_int (VS_Port (VS_Spec virtualService)),
        print_subsets P (Subsets (VS_Spec virtualService))])"

definition describeSubset :: "'w net \<Rightarrow> string \<Rightarrow> string \<Rightarrow> 'w command" where
  "describeSubset N name namespace = show_one (client_GetSubsetByName N name namespace)
     [''Name'', ''Namespace'', ''Labels'', ''Pods'']
     (\<lambda>sset. [Name (Subset_Meta sset), Namespace (Subset_Meta sset), v_map (Labels (Subset_Meta sset)),
        v_list (Subset_Pods sset)])"

definition describeDNS :: "'w net \<Rightarrow> string \<Rightarrow> string \<Rightarrow> 'w command" where
  "describeDNS N name namespace = show_one (client_GetDNS N name namespace) [''Name'', ''Namespace'', ''Rules'']
     (\<lambda>dns. [Name (DNS_Meta dns), Namespace (DNS_Meta dns), v_list (map v_rule (Rules dns))])"

definition describe_named :: "printer \<Rightarrow> 'w net \<Rightarrow> string \<Rightarrow> string \<Rightarrow> string \<Rightarrow> 'w command" where
  "describe_named P N resource name namespace =
     (if resource = ''pod'' then describePod N name namespace
      else if resource = ''service'' then describeService N name namespace
      else if resource = ''hpa'' then describeHPA P N name namespace
      else if resource = ''replicaset'' then describeReplicaSet N name namespace
      else if resource = ''virtualservice'' then describeVirtualService P N name namespace
      else if resource = ''subsets'' then describeSubset N name namespace
      else if resource = ''dns'' then describeDNS N name namespace
      else nothing_done [])"

text \<open>
  The command declares no options, so reading them gives the empty text: with one argument it prints its usage.
\<close>

definition describeCommand :: "printer \<Rightarrow> 'w net \<Rightarrow> string list \<Rightarrow> 'w command" where
  "describeCommand P N args = (case args of
     [resource, name] \<Rightarrow> describe_named P N resource name ''default''
   | [resource] \<Rightarrow>
       let namespace = ''''; name = '''';
           namespace = (if namespace = '''' then ''default'' else namespace) in
       if name = '''' then nothing_done [Line ''Usage: kubectl describe [pod|service|hpa|replicaset] -np [namespace] -n [name]'']
       else describe_named P N resource name namespace
   | _ \<Rightarrow> nothing_done [])"

end
