(* ===== verification/Kubectl_Properties.thy ===== *)
theory Kubectl_Properties
  imports Kubectl Api_Frame
begin

text \<open>
  What the commands of \<open>Kubectl\<close> do to the server: each is a sequence of requests, so everything that holds
  of all served registries holds with \<open>kubectl\<close> too; \<open>get\<close> and \<open>describe\<close> change nothing; what \<open>apply\<close> stored
  is what \<open>get\<close> shows. The same for what they print: the confirmation of \<open>apply\<close>, the resources that cannot be
  described, the two names of subsets.
\<close>

section \<open>Commands are requests\<close>

lemma snd_report: "snd (report call w) = snd (call w)"
  by (simp add: report_def split: prod.split)

lemmas act_defs = applyPod_def applyService_def applyReplicaSet_def applyHPAScaler_def applyVirtualService_def
  applySubset_def applyDNS_def applyRolingUpdate_def kubectl_deletePod_def deleteService_def deleteHPA_def deleteReplicaSet_def
  deleteVirtualService_def deleteSubset_def deleteDNS_def deleteRollingUpdate_def

lemmas write_call_defs = client_AddPod_def client_AddService_def client_AddReplicaSet_def client_AddHPAScaler_def
  client_AddVirtualService_def client_AddSubset_def client_AddDNS_def client_AddRollingUpdate_def
  kubectl_DeletePod_def client_DeleteService_def client_DeleteHPAScaler_def client_DeleteReplicaSet_def
  client_DeleteVirtualServiceByNameNp_def client_DeleteSubsetByNameNp_def client_DeleteDNS_def
  client_DeleteRollingUpdate_def

lemmas read_call_defs = client_GetAllPods_def client_GetAllNodes_def client_GetAllServices_def client_GetSidecarMapping_def
  client_GetAllHPAScalers_def client_GetReplicaSet_def client_GetAllReplicaSets_def client_GetAllVirtualServices_def
  client_GetAllSubsets_def client_GetAllDNS_def client_GetAllRollingUpdates_def client_GetPod_def client_GetService_def
  client_GetHPAScaler_def client_GetVirtualService_def client_GetSubsetByName_def client_GetDNS_def

lemmas get_defs = getAllPods_def getAllNodes_def getAllReplicaSets_def getAllVirtualServices_def getAllSubsets_def
  getAllDNS_def getAllRollingUpdate_def describePod_def describeService_def describeHPA_def describeReplicaSet_def
  describeVirtualService_def describeSubset_def describeDNS_def

context api_network
begin

lemma acts_report: "acts call \<Longrightarrow> acts (report call)"
  by (rule acts_post) (simp_all add: snd_report)

lemma acts_writes:
  "acts (applyPod N pod)" "acts (applyService N svc)" "acts (applyReplicaSet N rs)" "acts (applyHPAScaler N hpa)"
  "acts (applyVirtualService N vs)" "acts (applySubset N ss)" "acts (applyDNS N dns)" "acts (applyRolingUpdate N ru)"
  "acts (kubectl_deletePod N name np)" "acts (deleteService N name np)" "acts (deleteHPA N name np)"
  "acts (deleteReplicaSet N name np)" "acts (deleteVirtualService N name np)" "acts (deleteSubset N name np)"
  "acts (deleteDNS N name np)" "acts (deleteRollingUpdate N name np)"
  by (simp_all add: act_defs write_call_defs Let_def acts_calls acts_report)

lemma acts_still: "(\<And>w. snd (f w) = w) \<Longrightarrow> acts f"
  using acts_post [OF acts_return, of f] by simp

lemma acts_Pair [simp]: "acts (Pair x)"
  by (simp add: acts_still)

lemma acts_apply_case:
  assumes "\<And>x. acts (act x)"
  shows "acts (apply_case what decode act json)"
proof (cases "decode json")
  case (Inl e)
  then show ?thesis by (simp add: apply_case_def [abs_def] acts_return)
next
  case (Inr x)
  show ?thesis by (rule acts_post [OF assms [of x]]) (simp add: apply_case_def Inr split: prod.split)
qed

lemma acts_delete_case:
  assumes "\<And>name np. acts (act name np)"
  shows "acts (delete_case what short decode meta act json)"
proof (cases "\<exists>x. decode json = Inr x \<and> Name (meta x) \<noteq> ''''")
  case True
  then obtain x where x: "decode json = Inr x" "Name (meta x) \<noteq> ''''" by blast
  show ?thesis
    by (rule acts_post [OF assms [of "Name (meta x)" "in_namespace (Namespace (meta x))"]])
      (simp add: delete_case_def Let_def in_namespace_def x split: prod.split)
next
  case False
  then show ?thesis by (intro acts_still) (auto simp: delete_case_def split: sum.split)
qed

lemma acts_with_file:
  assumes "\<And>kind json. acts (act kind json)"
  shows "acts (with_file C filename act)"
proof (cases "\<exists>content kind json. ReadFile C filename = Inr content \<and> GetKind C content = Returns kind \<and> kind \<noteq> '''' \<and>
    YAML2JSON C content = Inr json")
  case True
  then obtain content kind json where x: "ReadFile C filename = Inr content" "GetKind C content = Returns kind" "kind \<noteq> ''''"
    "YAML2JSON C content = Inr json" by blast
  show ?thesis by (rule acts_post [OF assms [of kind json]]) (simp add: with_file_def x split: prod.split)
next
  case False
  then show ?thesis by (intro acts_still) (auto simp: with_file_def split: sum.split outcome.split)
qed

text \<open>\<open>apply\<close> and \<open>delete\<close>, whatever the file holds.\<close>

lemma acts_applyCmd: "acts (applyCmd C N filename)"
  by (auto simp: applyCmd_def apply_file_def apply_kind_def nothing_done_def [abs_def] acts_return
    intro!: acts_with_file acts_apply_case acts_writes)

lemma acts_delete_named: "acts (delete_named N word resource name np)"
  by (simp add: delete_named_def acts_writes)

lemma acts_deleteCommand: "acts (deleteCommand C N opts args)"
proof -
  have yaml: "acts (deleteFromYAML C N filename)" for filename
    by (auto simp: deleteFromYAML_def delete_kind_def intro!: acts_with_file acts_delete_case acts_writes)
  have named: "acts (returned (delete_named N word resource name np))" for word resource name np
    by (rule acts_post [OF acts_delete_named [of word resource name np]]) (simp add: returned_def split: prod.split)
  have from_file: "acts (\<lambda>w. case deleteFromYAML C N (opt_file opts) w of (Crashes, w') \<Rightarrow> (Crashes, w')
      | (Returns out, w') \<Rightarrow> (Returns (Line (''Delete from file:  '' @ opt_file opts) # out), w'))"
    by (rule acts_post [OF yaml [of "opt_file opts"]]) (simp split: prod.split outcome.split)
  show ?thesis
  proof (cases "opt_file opts = ''''")
    case True
    show ?thesis
    proof (cases "\<exists>resource. args = [resource] \<and> opt_name opts = '''' \<or> args = [] \<or> length args > 2")
      case still: True
      then show ?thesis by (intro acts_still) (auto simp: deleteCommand_def True split: list.split)
    next
      case False
      then obtain word name np where "deleteCommand C N opts args = returned (delete_named N word (hd args) name np)"
        by (cases args; cases "tl args") (auto simp: deleteCommand_def [abs_def] True Let_def intro!: that)
      then show ?thesis by (simp add: named)
    qed
  next
    case False
    then have "deleteCommand C N opts args = (\<lambda>w. case deleteFromYAML C N (opt_file opts) w of (Crashes, w') \<Rightarrow> (Crashes, w')
      | (Returns out, w') \<Rightarrow> (Returns (Line (''Delete from file:  '' @ opt_file opts) # out), w'))"
      by (simp add: deleteCommand_def [abs_def])
    then show ?thesis by (simp add: from_file)
  qed
qed

text \<open>What keeps the registry, for requests that write nothing.\<close>

definition read_only :: "('v \<Rightarrow> registry) \<Rightarrow> ('w \<Rightarrow> 'a \<times> 'w) \<Rightarrow> bool" where
  "read_only view f \<longleftrightarrow> (\<forall>w. view (state (snd (f w))) = view (state w))"

lemma read_only_http:
  assumes "etcd_server E view" "\<And>u t. footprint (q u t) = {}"
  shows "read_only view (http N q)"
  unfolding read_only_def
proof
  fix w
  obtain r w' where h: "http N q w = (r, w')" by (cases "http N q w")
  have "view (state w') k = view (state w) k" for k
    using http_law [OF h] etcd_server.serve_frame [OF assms(1)] assms(2) by fastforce
  then show "view (state (snd (http N q w))) = view (state w)" by (simp add: h fun_eq_iff)
qed

lemma read_only_post: "read_only view f \<Longrightarrow> (\<And>w. snd (g w) = snd (f w)) \<Longrightarrow> read_only view g"
  by (simp add: read_only_def)

lemma read_only_still: "(\<And>w. snd (f w) = w) \<Longrightarrow> read_only view f"
  by (simp add: read_only_def)

lemma read_only_call:
  assumes "etcd_server E view" "\<And>u t. footprint (q u t) = {}"
  shows "read_only view (call_data N q expected zero data msg)"
  by (rule read_only_post [OF read_only_http [where q = q, OF assms]]) (simp add: call_data_def split: prod.split sum.split)

lemma read_only_calls:
  assumes "etcd_server E view"
  shows "read_only view (client_GetAllPods N)" "read_only view (client_GetAllNodes N)"
    "read_only view (client_GetAllServices N)" "read_only view (client_GetSidecarMapping N)"
    "read_only view (client_GetAllHPAScalers N)" "read_only view (client_GetReplicaSet N name np)"
    "read_only view (client_GetAllReplicaSets N)" "read_only view (client_GetAllVirtualServices N)"
    "read_only view (client_GetAllSubsets N)" "read_only view (client_GetAllDNS N)"
    "read_only view (client_GetAllRollingUpdates N)" "read_only view (client_GetPod N name np)"
    "read_only view (client_GetService N name np)" "read_only view (client_GetHPAScaler N name np)"
    "read_only view (client_GetVirtualService N name np)" "read_only view (client_GetSubsetByName N name np)"
    "read_only view (client_GetDNS N name np)"
  by (simp_all add: read_call_defs read_only_call [OF assms])

lemma read_only_shows:
  "read_only view list \<Longrightarrow> read_only view (show_all list header row)"
  "read_only view read \<Longrightarrow> read_only view (show_one read header row')"
  by (rule read_only_post [of _ list], simp_all add: show_all_def split: prod.split option.split)
    (rule read_only_post [of _ read], simp_all add: show_one_def split: prod.split option.split)

lemma port_rows_reads:
  assumes "etcd_server E view"
  shows "read_only view (port_rows N ports)"
  unfolding read_only_def
proof
  fix w
  show "view (state (snd (port_rows N ports w))) = view (state w)"
  proof (induction ports arbitrary: w)
    case (Cons p ports)
    obtain m err w1 where c: "client_GetSidecarMapping N w = ((m, err), w1)" by (cases "client_GetSidecarMapping N w") auto
    then have "view (state w1) = view (state w)" using read_only_calls(4) [OF assms] by (metis read_only_def snd_conv)
    with Cons [of w1] c show ?case by (cases p) (auto split: option.split prod.split sum.split)
  qed simp
qed

lemma hpa_rows_reads:
  assumes "etcd_server E view"
  shows "read_only view (hpa_rows N hpas)"
  unfolding read_only_def
proof
  fix w
  show "view (state (snd (hpa_rows N hpas w))) = view (state w)"
  proof (induction hpas arbitrary: w)
    case (Cons hpa hpas)
    obtain r err w1 where c: "client_GetReplicaSet N (Ref_Name (ScaleTargetRef (HPA_Spec hpa))) (Namespace (HPA_Meta hpa)) w = ((r, err), w1)"
      by (cases "client_GetReplicaSet N (Ref_Name (ScaleTargetRef (HPA_Spec hpa))) (Namespace (HPA_Meta hpa)) w") auto
    then have "view (state w1) = view (state w)" using read_only_calls(6) [OF assms] by (metis read_only_def snd_conv)
    with Cons [of w1] c show ?case
      by (cases err; cases r) (auto split: prod.split outcome.split sum.split)
  qed simp
qed

lemma read_only_bind:
  assumes "read_only view f" "\<And>x. read_only view (g x)" "\<And>w. snd (h w) = w \<or> (\<exists>x. snd (h w) = snd (f w)) \<or> (\<exists>x. snd (h w) = snd (g x (snd (f w))))"
  shows "read_only view h"
  using assms unfolding read_only_def by metis

lemma getAllServices_reads: "etcd_server E view \<Longrightarrow> read_only view (getAllServices N)"
  by (rule read_only_bind [where f = "client_GetAllServices N" and g = "port_rows N"])
    (auto intro: read_only_calls port_rows_reads simp: getAllServices_def Let_def split: prod.split option.split sum.split, (metis snd_conv)+)

lemma getAllHPAScalers_reads: "etcd_server E view \<Longrightarrow> read_only view (getAllHPAScalers N)"
  by (rule read_only_bind [where f = "client_GetAllHPAScalers N" and g = "hpa_rows N"])
    (auto intro: read_only_calls hpa_rows_reads simp: getAllHPAScalers_def split: prod.split option.split sum.split outcome.split, (metis snd_conv)+)

lemma read_only_if: "read_only view f \<Longrightarrow> read_only view g \<Longrightarrow> read_only view (if c then f else g)"
  by simp

lemma read_only_nothing: "read_only view (nothing_done out)"
  by (rule read_only_still) (simp add: nothing_done_def)

lemma read_only_getCommand: "etcd_server E view \<Longrightarrow> read_only view (getCommand N args)"
  unfolding getCommand_def get_defs
  by (cases args; cases "tl args")
    (simp_all only: list.case list.sel, (intro read_only_if read_only_nothing read_only_shows read_only_calls
      getAllServices_reads getAllHPAScalers_reads; assumption)+)

lemma read_only_describe_named: "etcd_server E view \<Longrightarrow> read_only view (describe_named P N resource name np)"
  unfolding describe_named_def get_defs
  by (intro read_only_if read_only_nothing read_only_shows read_only_calls; assumption)

lemma read_only_describeCommand:
  assumes "etcd_server E view"
  shows "read_only view (describeCommand P N args)"
proof -
  consider "args = []" | a where "args = [a]" | a b where "args = [a, b]" | a b c d where "args = a # b # c # d"
    by (metis list.exhaust)
  then show ?thesis
    by cases (simp_all add: describeCommand_def read_only_nothing read_only_describe_named [OF assms])
qed

end

text \<open>
  So \<open>kubectl\<close> reaches no registry that the server does not reach by serving requests: what holds of all
  those (types, node ports, assignments) holds after every command, whatever file it is given.
\<close>

lemma kubectl_serves:
  assumes "api_network N E state" "served E view h (state w)"
  shows "\<exists>h'. served E view h' (state (snd (applyCmd C N filename w)))"
    "\<exists>h'. served E view h' (state (snd (deleteCommand C N opts args w)))"
  by (rule api_network.actsD [OF assms(1) api_network.acts_applyCmd [OF assms(1)] assms(2)],
      rule api_network.actsD [OF assms(1) api_network.acts_deleteCommand [OF assms(1)] assms(2)])

lemma kubectl_keeps_types:
  assumes "api_network N E state" "etcd_server E view" "served E view h (state w)"
  shows "keyed typed (view (state (snd (applyCmd C N filename w))))"
    "keyed typed (view (state (snd (deleteCommand C N opts args w))))"
  using kubectl_serves(1) [OF assms(1,3), of C filename] kubectl_serves(2) [OF assms(1,3), of C opts args]
  by (auto dest: etcd_server.served_typed [OF assms(2)])

section \<open>What is printed\<close>

text \<open>A file of a kind that \<open>kubectl\<close> can read and decode is confirmed, also when the call failed.\<close>

lemma apply_always_confirms:
  "decode json = Inr x \<Longrightarrow> fst (apply_case what decode act json w) =
     Line (''Apply '' @ what) # fst (act x w) @ [Line (what @ '' Applied'')]"
  by (cases "act x w") (simp add: apply_case_def)

text \<open>The subset is deleted under different names by the two forms of the command.\<close>

lemma delete_named_subset:
  "delete_named N ''subset'' ''subset'' name np = deleteSubset N name np"
  "delete_named N ''subsets'' ''subsets'' name np = deleteSubset N name np"
  "delete_named N ''subset'' ''subsets'' name np = Pair []"
  "delete_named N ''subsets'' ''subset'' name np = Pair []"
  by (simp_all add: delete_named_def)

lemma delete_subset_words:
  assumes "opt_file opts = ''''" "opt_name opts \<noteq> ''''"
  shows "deleteCommand C N opts [''subsets'', name] w = (Returns [], w)"
    "deleteCommand C N opts [''subset''] w = (Returns [], w)"
  using assms by (simp_all add: deleteCommand_def delete_named_subset returned_def Let_def)

lemma show_one_NoRoute:
  assumes "api_network N E state"
  shows "\<exists>e. fst (show_one (call_data N (\<lambda>_ _. NoRoute) StatusOK (None :: 'a option) (\<lambda>_. None) msg) header row w) = Returns [Line e]"
proof (cases "call_data N (\<lambda>_ _. NoRoute) StatusOK (None :: 'a option) (\<lambda>_. None) msg w")
  case (Pair r w')
  then have "snd r \<noteq> None" using api_network.NoRoute_fails [OF assms, of "None :: 'a option" "\<lambda>_. None" msg w] by simp
  with Pair show ?thesis by (cases r) (auto simp: show_one_def simp del: StatusOK_def)
qed

text \<open>A kind that is no text ends \<open>kubectl\<close>.\<close>

lemma kind_no_text_panics:
  "ReadFile C filename = Inr content \<Longrightarrow> yaml_Unmarshal C content = Inr m \<Longrightarrow> map_of m ''kind'' = Some (Other y) \<Longrightarrow>
   filename \<noteq> '''' \<Longrightarrow> applyCmd C N filename w = (Crashes, w)"
  by (simp add: applyCmd_def apply_file_def with_file_def GetKind_def)

section \<open>Properties\<close>

text \<open>A directory with one file, the manifest of a pod.\<close>

definition demo_codec :: "unit codec" where
  "demo_codec = \<lparr>ReadFile = (\<lambda>f. if f = ''pod.yaml'' then Inr ''kind: Pod'' else Inl ''no such file''),
     yaml_Unmarshal = (\<lambda>_. Inr [(''kind'', Text ''Pod'')]), yaml_Marshal = (\<lambda>_. Inl ''''),
     json_of_map = (\<lambda>_. Inr ''{}''), map_of_json = (\<lambda>_. Inl ''''), as_Pod = (\<lambda>_. Inr (demo_pod ''api'')),
     as_Service = (\<lambda>_. Inl ''''), as_ReplicaSet = (\<lambda>_. Inl ''''), as_HPA = (\<lambda>_. Inl ''''),
     as_VirtualService = (\<lambda>_. Inl ''''), as_Subset = (\<lambda>_. Inl ''''), as_DNS = (\<lambda>_. Inl ''''),
     as_RollingUpdate = (\<lambda>_. Inl '''')\<rparr>"

definition demo_printer :: printer where
  "demo_printer = \<lparr>print_metrics = (\<lambda>_. ''[]''), print_subsets = (\<lambda>_. ''[]'')\<rparr>"

text \<open>
  C40. What \<open>kubectl apply\<close> has stored without an error is what \<open>kubectl get\<close> shows: after a pod of a file,
  the table of the pods has its row, pending and in the namespace of the file or the default one.
\<close>

theorem kubectl_apply_then_get:
  assumes "reliable_network N E state" "reliable_etcd E view" "served E view h (state w)"
    "ReadFile C filename = Inr content" "GetKind C content = Returns ''Pod''" "YAML2JSON C content = Inr json"
    "as_Pod C json = Inr pod" "Name (Pod_Meta pod) \<noteq> ''''" "filename \<noteq> ''''"
    "applyCmd C N filename w = (Returns [Line (''get json: '' @ json), Line ''Apply Pod'', Line ''Pod Applied''], w')"
  shows "\<exists>rows w''. getCommand N [''pods''] w' = (Returns [Table [''Kind'', ''Namespace'', ''Name'', ''Phase'', ''IP''] rows], w'') \<and>
    [''pod'', in_namespace (Namespace (Pod_Meta pod)), Name (Pod_Meta pod), ''Pending'', PodIP (Pod_Status pod)] \<in> set rows"
proof -
  let ?np = "in_namespace (Namespace (Pod_Meta pod))"
  have "client_AddPod N pod w = (None, w')"
    using assms(4-10) by (auto simp: applyCmd_def apply_file_def with_file_def apply_kind_def apply_case_def applyPod_def report_def
      split: prod.splits option.splits)
  then obtain u t rs where "serve E (POST_Pod ?np (Some (wire_Pod pod)) u t) (state w) = (rs, state w')" "status_of rs = StatusCreated"
    unfolding client_AddPod_def Let_def by (rule reliable_network.call_status_ok [OF assms(1)])
  then have stored: "view (state w') (pod_key u) = Some (JPod (created_pod (wire_Pod pod) ?np u t))" and
    "served E view (h @ [(POST_Pod ?np (Some (wire_Pod pod)) u t, rs)]) (state w')"
    using wp_result [OF _ reliable_etcd.AddPod_stores [OF assms(2), of "wire_Pod pod"]] assms(8) request [OF assms(3)]
    by (auto simp: norm_meta_def)
  then have t: "keyed typed (view (state w'))"
    using assms(2) etcd_server.served_typed by (metis reliable_etcd_def)
  obtain u' t' rs' w2 where c: "client_GetAllPods N w' = (finish StatusOK [] ''get pods failed, error: ''
        (unmarshal_reply [] (\<lambda>b. case b of DataPods xs \<Rightarrow> Some (map wire_Pod xs) | _ \<Rightarrow> None) rs') rs', w2)"
    and s: "serve E GET_AllPods (state w') = (rs', state w2)"
    unfolding client_GetAllPods_def by (rule reliable_network.call_data_serves [OF assms(1)])
  from wp_result [OF _ reliable_etcd.GetAllPods_spec [OF assms(2) t]] s obtain b ps where
    r: "rs' = [Reply StatusOK b]" "b = DataPods ps \<or> b = NoData \<and> ps = []" and
    ps: "set ps = {p. view (state w') (pod_key (MetaUID (Pod_Meta p))) = Some (JPod p)}" by auto
  from r c have g: "client_GetAllPods N w' = ((map wire_Pod ps, None), w2)"
    by (auto simp: finish_def unmarshal_reply_def reply_data_def status_of_def)
  have "created_pod (wire_Pod pod) ?np u t \<in> set ps"
    unfolding ps using stored by (simp add: created_pod_def norm_meta_def)
  moreover define row where "row = (\<lambda>pod :: Pod. [''pod'', Namespace (Pod_Meta pod), Name (Pod_Meta pod), Phase (Pod_Status pod), PodIP (Pod_Status pod)])"
  ultimately have "row (wire_Pod (created_pod (wire_Pod pod) ?np u t)) \<in> set (map row (map wire_Pod ps))" by simp
  moreover have "row (wire_Pod (created_pod (wire_Pod pod) ?np u t)) = [''pod'', ?np, Name (Pod_Meta pod), ''Pending'', PodIP (Pod_Status pod)]"
    by (simp add: row_def created_pod_def norm_meta_def)
  ultimately show ?thesis by (simp add: getCommand_def getAllPods_def show_all_def g row_def)
qed

theorem kubectl_apply_then_get_witness:
  "\<exists>rows w''. getCommand demo_net [''pods''] (snd (applyCmd demo_codec demo_net ''pod.yaml'' demo_world)) =
     (Returns [Table [''Kind'', ''Namespace'', ''Name'', ''Phase'', ''IP''] rows], w'') \<and>
   [''pod'', in_namespace (Namespace (Pod_Meta (demo_pod ''api''))), Name (Pod_Meta (demo_pod ''api'')), ''Pending'',
     PodIP (Pod_Status (demo_pod ''api''))] \<in> set rows"
proof (rule kubectl_apply_then_get [where N = demo_net])
  show "reliable_network demo_net calm_env fst" unfolding demo_net_def by (rule direct.reliable_network_axioms)
  show "reliable_etcd calm_env map_of" by (rule calm.reliable_etcd_axioms)
  show "served calm_env map_of (fst demo_run) (fst demo_world)"
    using demo_run_served by (simp add: demo_world_def well_served_served)
  show "GetKind demo_codec ''kind: Pod'' = Returns ''Pod''" by (simp add: GetKind_def demo_codec_def)
  show "Name (Pod_Meta (demo_pod ''api'')) \<noteq> ''''" by code_simp
  have "fst (applyCmd demo_codec demo_net ''pod.yaml'' demo_world) =
      Returns [Line (''get json: '' @ ''{}''), Line ''Apply Pod'', Line ''Pod Applied'']" by code_simp
  then show "applyCmd demo_codec demo_net ''pod.yaml'' demo_world = (Returns [Line (''get json: '' @ ''{}''), Line ''Apply Pod'', Line ''Pod Applied''],
      snd (applyCmd demo_codec demo_net ''pod.yaml'' demo_world))" by (metis prod.collapse)
qed (simp_all add: demo_codec_def YAML2JSON_def)

text \<open>
  Looking changes nothing: whatever calls of etcd or of the network fail, \<open>kubectl get\<close> and
  \<open>kubectl describe\<close> leave every key of the registry as it was.
\<close>

theorem kubectl_reads_only:
  assumes "api_network N E state" "etcd_server E view"
  shows "view (state (snd (getCommand N args w))) = view (state w) \<and>
    view (state (snd (describeCommand P N args' w))) = view (state w)"
  using api_network.read_only_getCommand [OF assms] api_network.read_only_describeCommand [OF assms]
  by (simp add: api_network.read_only_def [OF assms(1)])

theorem kubectl_reads_only_witness:
  "map_of (fst (snd (getCommand demo_net [''services''] demo_world))) = map_of (fst demo_world) \<and>
   map_of (fst (snd (describeCommand demo_printer demo_net [''pod'', ''web''] demo_world))) = map_of (fst demo_world)"
proof (rule kubectl_reads_only [where view = map_of and state = fst and E = calm_env])
  show "api_network demo_net calm_env fst" unfolding demo_net_def by (rule direct.api_network_axioms)
  show "etcd_server calm_env map_of" by (rule calm.etcd_server_axioms)
qed

text \<open>
  A service, an autoscaler, a virtual service or a DNS object cannot be described: whatever its name, the
  answer is an error, as the server has no route for it.
\<close>

theorem kubectl_cannot_describe:
  assumes "api_network N E state" "resource \<in> {''service'', ''hpa'', ''virtualservice'', ''dns''}"
  shows "\<exists>e. fst (describeCommand P N [resource, name] w) = Returns [Line e]"
proof -
  from assms(2) consider "resource = ''service''" | "resource = ''hpa''" | "resource = ''virtualservice''" | "resource = ''dns''" by blast
  then show ?thesis
    by cases (simp_all add: describeCommand_def describe_named_def describeService_def describeHPA_def describeVirtualService_def
      describeDNS_def client_GetService_def client_GetHPAScaler_def client_GetVirtualService_def client_GetDNS_def show_one_NoRoute [OF assms(1)] del: StatusOK_def)
qed

theorem kubectl_cannot_describe_witness:
  "\<exists>e. fst (describeCommand demo_printer demo_net [''service'', ''web''] demo_world) = Returns [Line e]"
proof (rule kubectl_cannot_describe)
  show "api_network demo_net calm_env fst" unfolding demo_net_def by (rule direct.api_network_axioms)
qed simp

end
