(* ===== verification/Programs.thy ===== *)
theory Programs
  imports Kubectl Scheduler
begin

text \<open>
  The two programs that look at their arguments before they start: \<open>cmd/scheduler/scheduler.go\<close> and
  \<open>cmd/kubelet/kubelet.go\<close>. A list of arguments begins with the name of the program. Decoding the
  description of the node is the parameter \<open>as_Node\<close>.
\<close>

text \<open>A program prints and exits with status 1, or starts with what it has read.\<close>

datatype 'a program = Exits string | Starts 'a

definition scheduler_main :: "string list \<Rightarrow> (string \<times> string) program" where
  "scheduler_main args =
     (let policy = (if length args < 2 then ''Round_Policy'' else args ! 1) in
      if policy = ''Round_Policy'' \<or> policy = ''Random_Policy'' \<or> policy = ''NodeAffinity_Policy''
      then Starts (''10.119.12.123'', policy) else Exits ''Invalid policy'')"

definition usage :: "'a program" where
  "usage = Exits ''usage: kubelet -j|--join <apiServerIP> [-c|--config <configFile>]''"

definition kubelet_main :: "'y codec \<Rightarrow> (string \<Rightarrow> string + Node) \<Rightarrow> string list \<Rightarrow> (string \<times> Node) program" where
  "kubelet_main C as_Node args =
     (if length args \<noteq> 3 \<and> length args \<noteq> 5 then usage
      else if args ! 1 \<noteq> ''-j'' \<and> args ! 1 \<noteq> ''--join'' then usage
      else let ip = args ! 2 in
        if \<not> ParseIP ip then Exits (''invalid ip: '' @ ip)
        else if length args = 5 then
          (if args ! 3 \<noteq> ''-c'' \<and> args ! 3 \<noteq> ''--config'' then usage
           else let filename = args ! 4 in (case ReadFile C filename of
               Inl e \<Rightarrow> Exits (''failed to read file '' @ filename @ '': '' @ e)
             | Inr yamlBytes \<Rightarrow> (case YAML2JSON C yamlBytes of
                 Inl e \<Rightarrow> Exits ''failed to parse yaml file''
               | Inr jsonBytes \<Rightarrow> (case as_Node jsonBytes of
                   Inl e \<Rightarrow> Exits ''failed to parse yaml file''
                 | Inr node \<Rightarrow> Starts (ip, node)))))
        else Starts (ip, zero_Node))"

text \<open>The scheduler starts with one of the policies it knows, the kubelet with an address of the API server.\<close>

lemma scheduler_main_policy:
  "scheduler_main args = Starts (ip, p) \<Longrightarrow> p \<in> {Round_Policy, Random_Policy, NodeAffinity_Policy}"
  by (auto simp: scheduler_main_def policy_defs Let_def split: if_splits)

lemma scheduler_main_default: "length args < 2 \<Longrightarrow> scheduler_main args = Starts (''10.119.12.123'', Round_Policy)"
  by (simp add: scheduler_main_def policy_defs)

lemma kubelet_main_starts:
  assumes "kubelet_main C as_Node args = Starts (ip, node)"
  shows "ParseIP ip \<and> ip = args ! 2 \<and> (length args = 3 \<and> node = zero_Node \<or> length args = 5 \<and>
    (\<exists>yaml json. ReadFile C (args ! 4) = Inr yaml \<and> YAML2JSON C yaml = Inr json \<and> as_Node json = Inr node))"
  using assms by (auto simp: kubelet_main_def usage_def Let_def split: if_splits sum.splits)

end
