(* ===== verification/Spec2Isabelle.thy ===== *)
theory Spec2Isabelle
  imports Api_Properties Collected_Metrics Proxy_Properties Mesh_Routes Rolling_Update Kubectl_Properties Programs
begin

text \<open>
  A verification development for mini_k8s, a small Kubernetes written in Go: an API server over etcd,
  a scheduler, controllers, a kubelet per node, a kube-proxy and a service mesh.

  \<^bold>\<open>The program.\<close> All state lives in etcd, behind the API server (\<open>pkg/kubeapiserver\<close>). The other programs
  poll the server over HTTP: the scheduler assigns pods to nodes, the controllers create and delete
  pods, the kubelet runs the pods of its node, the kube-proxy programs IPVS and DNS, and the pilot
  computes the routing table of the sidecars.

  \<^bold>\<open>The theories.\<close>
  \<^item> \<open>K8s_Prelude\<close>: what Go code everywhere relies on (\<open>int32\<close>, \<open>fmt\<close>, \<open>strconv\<close>, \<open>bufio.Scanner\<close>, maps),
    and the collections of rules.
  \<^item> \<open>Api_Types\<close>: the structs of \<open>pkg/api/v1\<close>.
  \<^item> \<open>Slot_Alloc\<close>: \<open>pkg/kubeapiserver/utils/alloc.go\<close>, the bitmaps of addresses and node names; the
    locale \<open>name_pool\<close> is their contract.
  \<^item> \<open>Etcd_Store\<close>: \<open>pkg/kubeapiserver/etcd/client.go\<close> over parameters for the etcd library; the locales
    \<open>registry_store\<close>, \<open>etcd_server\<close> and \<open>reliable_etcd\<close> state what etcd documents, with and without
    failing calls, and \<open>mem_env\<close> and \<open>calm_env\<close> are concrete stores.
  \<^item> \<open>Go_Net\<close>: the two functions of Go's package \<open>net\<close> that are used.
  \<^item> \<open>Api_Core\<close>, \<open>Api_Pods\<close>, \<open>Api_Services\<close>, \<open>Api_Workloads\<close>, \<open>Api_Server\<close>: the handlers of
    \<open>pkg/kubeapiserver/app/routine.go\<close>, one definition per handler, and the server that routes requests
    to them (\<open>serve\<close>, \<open>served\<close>). A handler maps the world before to its replies and the world after; the
    server's mutex makes a handler one step.
  \<^item> \<open>Api_Registry\<close> (every key holds its type), \<open>Api_Frame\<close> (a request changes only its own keys),
    \<open>Service_Safety\<close> (node ports, cluster IPs), \<open>Index_Consistency\<close> (names and objects agree),
    \<open>Pod_Scheduling\<close> (a pod is on one node), \<open>Pod_Lifecycle\<close> (single handlers, a small cluster for
    concrete runs): the invariants of all registries the server reaches.
  \<^item> \<open>Api_Properties\<close>: the properties of the API server, with witnesses.
  \<^item> \<open>Metrics_Db\<close>: \<open>pkg/kubeapiserver/metrics/stream_data.go\<close>, the metrics the server keeps in memory.
  \<^item> \<open>Kube_Client\<close>: \<open>pkg/kubeclient/client.go\<close> over a parameter for the network; the locales
    \<open>api_network\<close> and \<open>reliable_network\<close> connect it to the server, and \<open>direct_net\<close> is such a network.
  \<^item> \<open>Scheduler\<close>: \<open>pkg/scheduler/scheduler.go\<close>; the locale \<open>scheduling\<close> joins it with client and server.
  \<^item> \<open>Replicaset_Controller\<close>: \<open>pkg/controller/replicaset/controller.go\<close>; the locale \<open>replica_control\<close> joins it with
    client and server and with a source of new uuids.
  \<^item> \<open>Hpa\<close>: \<open>pkg/controller/podautoscaler/horizonal.go\<close>, with IEEE single precision; the locale \<open>timed_network\<close>
    is a network with a clock.
  \<^item> \<open>Kubelet_Runtime\<close>: \<open>pkg/kubelet/runtime/runtime_manager.go\<close> over a record of the calls of the Docker engine
    (\<open>engine\<close>) and a monad for errors and panics; \<open>docker_law\<close> is what is relied on.
  \<^item> \<open>Kubelet_Pleg\<close>: \<open>runtime/cache.go\<close> and \<open>pleg/pleg.go\<close>, the cache of statuses and the events of containers; the
    specification says from the listings alone which events each relist sends, and how often (\<open>explains\<close>).
  \<^item> \<open>Kubelet_Workers\<close>: \<open>kubelet.go\<close>, \<open>pod_workers.go\<close> and \<open>pod/pod_manager.go\<close> as goroutines (\<open>kstep\<close>, \<open>kruns\<close>) with
    their lock and their bounded channels, and the protocol of the calls of the runtime.
  \<^item> \<open>Kubelet_Settles\<close>: a measure (\<open>work\<close>) that every step of the goroutines lowers, and what holds at rest.
  \<^item> \<open>Kubelet_Server\<close>: \<open>app/server.go\<close>, \<open>client/client.go\<close> and the status that a kubelet reports; the pods of a node
    follow the listing of the API server.
  \<^item> \<open>Proxy_Watch\<close>: \<open>pkg/kubeproxy/app/server.go\<close>, which endpoints services have and what has changed; \<open>Proxy_Diff\<close>: what the
    differences amount to.
  \<^item> \<open>Kube_Proxy\<close>: \<open>pkg/kubeproxy/proxy.go\<close> and \<open>route/ipvs.go\<close> over a record of the calls of the kernel, netlink, programs and files.
  \<^item> \<open>Proxy_Tables\<close>, \<open>Proxy_Round\<close>, \<open>Proxy_Properties\<close>: the right table of virtual servers (\<open>wanted_table\<close>), the contract
    \<open>ipvs_host\<close> of the host, the effect of handlers and rounds, and the host in memory \<open>mem_host\<close>.
  \<^item> \<open>Envoy\<close>: \<open>pkg/microservice/envoy\<close>, the proxies of a sidecar, its choice of an endpoint and the rules of \<open>iptables\<close> that lead to it;
    \<open>math/rand\<close> is a parameter that gets the bound of each draw.
  \<^item> \<open>Pilot\<close>: \<open>pkg/microservice/pilot/pilot.go\<close>, the routing table and the rolling updates, over the client.
  \<^item> \<open>Mesh_Traffic\<close>: pilot, registry and sidecars together split the traffic by the weights of a virtual service; the locale \<open>mesh\<close>.
  \<^item> \<open>Mesh_Routes\<close>: the published table leads every port of every service to its endpoints.
  \<^item> \<open>Rolling_Update\<close>: a rolling update with client, server and registry keeps enough pods running; the locale \<open>update_network\<close>.
    \<open>watch_net\<close> and \<open>watch_pause\<close> write down the world after every call and pause; \<open>lets_pods_start\<close> is what the pauses must be
    long enough for, and \<open>kubelets_report\<close> is a cluster that fulfils it.
  \<^item> \<open>Collector\<close>: \<open>pkg/kubelet/metrics/collector.go\<close>, over a record of the shell and of the client of cAdvisor, and the
    collectors of a cluster as a sequence of events (\<open>collector_run\<close>).
  \<^item> \<open>Collected_Metrics\<close>: collectors, client and metrics database together; the locale \<open>metrics_network\<close>.
  \<^item> \<open>Kubectl\<close>, \<open>Kubectl_Properties\<close>: \<open>pkg/kubectl\<close>, the commands as functions to what they print and the world
    afterwards, over parameters for files, YAML and JSON, and what they do to the registry.
  \<^item> \<open>Programs\<close>: the arguments of \<open>cmd/scheduler\<close> and \<open>cmd/kubelet\<close>.

  \<^bold>\<open>Faults.\<close> \<open>served\<close> lets every call of etcd fail, before or after it took effect. What holds only
  without failing calls says \<open>reliable_etcd\<close>; \<open>well_served\<close> adds that drawn uuids are new, that the
  namespace of an autoscaler holds no slash and the hosts of DNS objects no line break.

  \<^bold>\<open>Not modelled.\<close> Logging, JSON as text (a document is the object it encodes), HTTP itself, the
  64 KiB limit of a scanned line, the layout of the tables that \<open>kubectl\<close> prints, and the main functions that only
  start a component with a fixed address.
\<close>

end
